(* ===== verification/Prelude.thy ===== *)
theory Prelude
  imports Main "HOL-Library.Product_Lexorder" "HOL-Library.Option_ord"
begin

text \<open>
  Shared vocabulary of the development.

  Every handler of the API runs inside one database transaction: it reads and writes tables and
  either returns a value or throws, and a throw rolls the whole transaction back. An
  \<open>action\<close> is that shape as a function: it takes the state and yields either an error (no
  state, since the transaction is rolled back) or a value with the new state. The combinators
  below are the statements of the source language that the handlers use: sequencing, throwing,
  guards (\<open>if (bad) throw e\<close>), reading and writing the state, and \<open>for\<close> loops.

  The second half holds the vocabulary of tables: a table is the list of its rows in insertion
  order, \<open>UPDATE ... WHERE\<close> is \<open>update_where\<close>, and \<open>ORDER BY\<close> is \<open>sort_key\<close>.
\<close>

section \<open>Actions: state passing with errors\<close>

type_synonym ('s, 'e, 'a) action = "'s \<Rightarrow> 'e + ('a \<times> 's)"

named_theorems keeps_intros \<open>rules that a part of the state is untouched\<close>
named_theorems preserves_intros \<open>rules that an invariant is kept\<close>

definition returnM :: "'a \<Rightarrow> ('s, 'e, 'a) action" where
  "returnM x = (\<lambda>s. Inr (x, s))"

definition throwM :: "'e \<Rightarrow> ('s, 'e, 'a) action" where
  "throwM e = (\<lambda>s. Inl e)"

definition bindM :: "('s, 'e, 'a) action \<Rightarrow> ('a \<Rightarrow> ('s, 'e, 'b) action) \<Rightarrow> ('s, 'e, 'b) action" where
  "bindM m f = (\<lambda>s. case m s of Inl e \<Rightarrow> Inl e | Inr (x, s') \<Rightarrow> f x s')"

definition thenM :: "('s, 'e, 'a) action \<Rightarrow> ('s, 'e, 'b) action \<Rightarrow> ('s, 'e, 'b) action" where
  "thenM m n = bindM m (\<lambda>_. n)"

definition readM :: "('s \<Rightarrow> 'a) \<Rightarrow> ('s, 'e, 'a) action" where
  "readM f = (\<lambda>s. Inr (f s, s))"

definition writeM :: "('s \<Rightarrow> 's) \<Rightarrow> ('s, 'e, unit) action" where
  "writeM f = (\<lambda>s. Inr ((), f s))"

text \<open>\<open>ensureM e b\<close> is \<open>if (!b) throw e\<close>; \<open>requireM e o\<close> is \<open>if (!o) throw e\<close>
  for a row that a query may not find.\<close>

definition ensureM :: "'e \<Rightarrow> bool \<Rightarrow> ('s, 'e, unit) action" where
  "ensureM e b = (if b then returnM () else throwM e)"

definition requireM :: "'e \<Rightarrow> 'a option \<Rightarrow> ('s, 'e, 'a) action" where
  "requireM e m = (case m of None \<Rightarrow> throwM e | Some x \<Rightarrow> returnM x)"

definition whenM :: "bool \<Rightarrow> ('s, 'e, unit) action \<Rightarrow> ('s, 'e, unit) action" where
  "whenM b m = (if b then m else returnM ())"

definition liftE :: "'e + 'a \<Rightarrow> ('s, 'e, 'a) action" where
  "liftE r = (case r of Inl e \<Rightarrow> throwM e | Inr x \<Rightarrow> returnM x)"

fun forM :: "('a \<Rightarrow> ('s, 'e, unit) action) \<Rightarrow> 'a list \<Rightarrow> ('s, 'e, unit) action" where
  "forM body [] = returnM ()"
| "forM body (x # xs) = thenM (body x) (forM body xs)"

fun mapM :: "('a \<Rightarrow> ('s, 'e, 'b) action) \<Rightarrow> 'a list \<Rightarrow> ('s, 'e, 'b list) action" where
  "mapM body [] = returnM []"
| "mapM body (x # xs) = bindM (body x) (\<lambda>y. bindM (mapM body xs) (\<lambda>ys. returnM (y # ys)))"

text \<open>The same sequencing for pure fallible code (no state).\<close>

definition bindE :: "'e + 'a \<Rightarrow> ('a \<Rightarrow> 'e + 'b) \<Rightarrow> 'e + 'b" where
  "bindE r f = (case r of Inl e \<Rightarrow> Inl e | Inr x \<Rightarrow> f x)"

fun mapE :: "('a \<Rightarrow> 'e + 'b) \<Rightarrow> 'a list \<Rightarrow> 'e + 'b list" where
  "mapE f [] = Inr []"
| "mapE f (x # xs) = bindE (f x) (\<lambda>y. bindE (mapE f xs) (\<lambda>ys. Inr (y # ys)))"

text \<open>
  \<open>dataSource.transaction(...)\<close> with its \<open>catch\<close>: when the body throws, the database is the
  one before the body; \<open>catchM sel m h\<close> runs the handler \<open>h\<close> there for the errors that
  \<open>sel\<close> selects and rethrows the others.
\<close>

definition catchM :: "('e \<Rightarrow> bool) \<Rightarrow> ('s, 'e, 'a) action \<Rightarrow> ('e \<Rightarrow> ('s, 'e, 'a) action) \<Rightarrow> ('s, 'e, 'a) action" where
  "catchM sel m h = (\<lambda>s. case m s of Inl e \<Rightarrow> (if sel e then h e s else Inl e) | Inr r \<Rightarrow> Inr r)"

text \<open>What a client sees: the outcome, and the database after commit or rollback.\<close>

definition commit :: "('s, 'e, 'a) action \<Rightarrow> 's \<Rightarrow> ('e + 'a) \<times> 's" where
  "commit m s = (case m s of Inl e \<Rightarrow> (Inl e, s) | Inr (x, s') \<Rightarrow> (Inr x, s'))"

subsection \<open>Inversion of successful runs\<close>

lemma returnM_Inr [simp]: "returnM x s = Inr r \<longleftrightarrow> r = (x, s)"
  by (auto simp: returnM_def)

lemma returnM_Inl [simp]: "returnM x s \<noteq> Inl e"
  by (simp add: returnM_def)

lemma throwM_Inr [simp]: "throwM e s \<noteq> Inr r"
  by (simp add: throwM_def)

lemma throwM_Inl [simp]: "throwM e s = Inl e' \<longleftrightarrow> e' = e"
  by (auto simp: throwM_def)

lemma bindM_Inr: "bindM m f s = Inr r \<longleftrightarrow> (\<exists>x s1. m s = Inr (x, s1) \<and> f x s1 = Inr r)"
  by (auto simp: bindM_def split: sum.splits)

lemma thenM_Inr: "thenM m n s = Inr r \<longleftrightarrow> (\<exists>x s1. m s = Inr (x, s1) \<and> n s1 = Inr r)"
  by (simp add: thenM_def bindM_Inr)

lemma bindM_Inl: "bindM m f s = Inl e \<longleftrightarrow> m s = Inl e \<or> (\<exists>x s1. m s = Inr (x, s1) \<and> f x s1 = Inl e)"
  by (auto simp: bindM_def split: sum.splits)

lemma thenM_Inl: "thenM m n s = Inl e \<longleftrightarrow> m s = Inl e \<or> (\<exists>x s1. m s = Inr (x, s1) \<and> n s1 = Inl e)"
  by (simp add: thenM_def bindM_Inl)

lemma readM_Inr [simp]: "readM f s = Inr r \<longleftrightarrow> r = (f s, s)"
  by (auto simp: readM_def)

lemma readM_Inl [simp]: "readM f s \<noteq> Inl e"
  by (simp add: readM_def)

lemma writeM_Inr [simp]: "writeM f s = Inr r \<longleftrightarrow> r = ((), f s)"
  by (auto simp: writeM_def)

lemma writeM_Inl [simp]: "writeM f s \<noteq> Inl e"
  by (simp add: writeM_def)

lemma ensureM_Inr [simp]: "ensureM e b s = Inr r \<longleftrightarrow> b \<and> r = ((), s)"
  by (auto simp: ensureM_def)

lemma ensureM_Inl [simp]: "ensureM e b s = Inl e' \<longleftrightarrow> \<not> b \<and> e' = e"
  by (auto simp: ensureM_def)

lemma requireM_Inr [simp]: "requireM e m s = Inr r \<longleftrightarrow> (\<exists>x. m = Some x \<and> r = (x, s))"
  by (auto simp: requireM_def split: option.splits)

lemma requireM_Inl [simp]: "requireM e m s = Inl e' \<longleftrightarrow> m = None \<and> e' = e"
  by (auto simp: requireM_def split: option.splits)

lemma whenM_Inr: "whenM b m s = Inr r \<longleftrightarrow> (if b then m s = Inr r else r = ((), s))"
  by (auto simp: whenM_def)

lemma liftE_Inr [simp]: "liftE q s = Inr r \<longleftrightarrow> (\<exists>x. q = Inr x \<and> r = (x, s))"
  by (auto simp: liftE_def split: sum.splits)

lemma bindE_Inr: "bindE q f = Inr r \<longleftrightarrow> (\<exists>x. q = Inr x \<and> f x = Inr r)"
  by (auto simp: bindE_def split: sum.splits)

lemma commit_error: "m s = Inl e \<Longrightarrow> commit m s = (Inl e, s)"
  by (simp add: commit_def)

lemma commit_ok: "m s = Inr (x, s') \<Longrightarrow> commit m s = (Inr x, s')"
  by (simp add: commit_def)

lemmas runM = bindM_Inr thenM_Inr whenM_Inr

text \<open>Forward execution: what a combinator computes once its first part is known.\<close>

lemma bindM_step: "m s = Inr (x, s1) \<Longrightarrow> bindM m f s = f x s1"
  by (simp add: bindM_def)

lemma thenM_step: "m s = Inr (x, s1) \<Longrightarrow> thenM m n s = n s1"
  by (simp add: thenM_def bindM_def)

lemma bindM_fail: "m s = Inl e \<Longrightarrow> bindM m f s = Inl e"
  by (simp add: bindM_def)

lemmas evalM = returnM_def throwM_def bindM_def thenM_def readM_def writeM_def ensureM_def
  requireM_def whenM_def liftE_def catchM_def

subsection \<open>Frames and invariants\<close>

text \<open>\<open>keeps f m\<close>: a successful run of \<open>m\<close> leaves the view \<open>f\<close> of the state unchanged.
  \<open>preserves I m\<close>: a successful run keeps the invariant \<open>I\<close>.\<close>

definition keeps :: "('s \<Rightarrow> 'b) \<Rightarrow> ('s, 'e, 'a) action \<Rightarrow> bool" where
  "keeps f m \<longleftrightarrow> (\<forall>s x s'. m s = Inr (x, s') \<longrightarrow> f s' = f s)"

definition preserves :: "('s \<Rightarrow> bool) \<Rightarrow> ('s, 'e, 'a) action \<Rightarrow> bool" where
  "preserves I m \<longleftrightarrow> (\<forall>s x s'. I s \<longrightarrow> m s = Inr (x, s') \<longrightarrow> I s')"

lemma keepsD: "keeps f m \<Longrightarrow> m s = Inr (x, s') \<Longrightarrow> f s' = f s"
  unfolding keeps_def by blast

lemma preservesD: "preserves I m \<Longrightarrow> I s \<Longrightarrow> m s = Inr (x, s') \<Longrightarrow> I s'"
  unfolding preserves_def by blast

lemma preservesI: "(\<And>s x s'. I s \<Longrightarrow> m s = Inr (x, s') \<Longrightarrow> I s') \<Longrightarrow> preserves I m"
  unfolding preserves_def by blast

lemma keepsI: "(\<And>s x s'. m s = Inr (x, s') \<Longrightarrow> f s' = f s) \<Longrightarrow> keeps f m"
  unfolding keeps_def by blast

lemma keeps_returnM [keeps_intros, simp]: "keeps f (returnM x)"
  by (simp add: keeps_def)

lemma keeps_throwM [keeps_intros, simp]: "keeps f (throwM e)"
  by (simp add: keeps_def)

lemma keeps_readM [keeps_intros, simp]: "keeps f (readM g)"
  by (simp add: keeps_def)

lemma keeps_ensureM [keeps_intros, simp]: "keeps f (ensureM e b)"
  by (simp add: keeps_def)

lemma keeps_requireM [keeps_intros, simp]: "keeps f (requireM e m)"
  by (simp add: keeps_def)

lemma keeps_liftE [keeps_intros, simp]: "keeps f (liftE r)"
  by (simp add: keeps_def)

lemma keeps_bindM [keeps_intros]: "keeps f m \<Longrightarrow> (\<And>x. keeps f (g x)) \<Longrightarrow> keeps f (bindM m g)"
  unfolding keeps_def bindM_Inr by metis

lemma keeps_thenM [keeps_intros]: "keeps f m \<Longrightarrow> keeps f n \<Longrightarrow> keeps f (thenM m n)"
  unfolding keeps_def thenM_Inr by metis

lemma keeps_whenM [keeps_intros]: "keeps f m \<Longrightarrow> keeps f (whenM b m)"
  by (simp add: whenM_def)

lemma keeps_writeM [keeps_intros]: "(\<And>s. f (g s) = f s) \<Longrightarrow> keeps f (writeM g)"
  by (simp add: keeps_def)

lemma keeps_forM [keeps_intros]: "(\<And>x. keeps f (body x)) \<Longrightarrow> keeps f (forM body xs)"
  by (induction xs) (simp_all add: keeps_thenM)

lemma keeps_mapM [keeps_intros]: "(\<And>x. keeps f (body x)) \<Longrightarrow> keeps f (mapM body xs)"
  by (induction xs) (simp_all add: keeps_bindM)

lemma keeps_if [keeps_intros]: "(b \<Longrightarrow> keeps f m) \<Longrightarrow> (\<not> b \<Longrightarrow> keeps f n) \<Longrightarrow> keeps f (if b then m else n)"
  by simp

lemma keeps_case_option [keeps_intros]:
  "keeps f m \<Longrightarrow> (\<And>x. keeps f (g x)) \<Longrightarrow> keeps f (case v of None \<Rightarrow> m | Some x \<Rightarrow> g x)"
  by (cases v) simp_all

lemma keeps_case_prod [keeps_intros]: "(\<And>x y. keeps f (g x y)) \<Longrightarrow> keeps f (case p of (x, y) \<Rightarrow> g x y)"
  by (cases p) simp

lemma keeps_let [keeps_intros]: "keeps f (g x) \<Longrightarrow> keeps f (let y = x in g y)"
  by simp

lemma keeps_catchM [keeps_intros]: "keeps f m \<Longrightarrow> (\<And>e. keeps f (h e)) \<Longrightarrow> keeps f (catchM sel m h)"
  unfolding keeps_def catchM_def by (auto split: sum.splits if_splits)

lemma preserves_bindM [preserves_intros]:
  "preserves I m \<Longrightarrow> (\<And>x. preserves I (g x)) \<Longrightarrow> preserves I (bindM m g)"
  unfolding preserves_def bindM_Inr by metis

lemma preserves_thenM [preserves_intros]: "preserves I m \<Longrightarrow> preserves I n \<Longrightarrow> preserves I (thenM m n)"
  unfolding preserves_def thenM_Inr by metis

lemma preserves_pure [preserves_intros, simp]:
  "preserves I (returnM x)" "preserves I (throwM e)" "preserves I (readM g)"
  "preserves I (ensureM e b)" "preserves I (requireM e m)" "preserves I (liftE r)"
  by (simp_all add: preserves_def)

lemma preserves_forM [preserves_intros]: "(\<And>x. preserves I (body x)) \<Longrightarrow> preserves I (forM body xs)"
  by (induction xs) (simp_all add: preserves_thenM)

lemma preserves_whenM [preserves_intros]: "preserves I m \<Longrightarrow> preserves I (whenM b m)"
  by (simp add: whenM_def)

lemma preserves_if [preserves_intros]:
  "(b \<Longrightarrow> preserves I m) \<Longrightarrow> (\<not> b \<Longrightarrow> preserves I n) \<Longrightarrow> preserves I (if b then m else n)"
  by simp

lemma preserves_case_option [preserves_intros]:
  "preserves I m \<Longrightarrow> (\<And>x. preserves I (g x)) \<Longrightarrow> preserves I (case v of None \<Rightarrow> m | Some x \<Rightarrow> g x)"
  by (cases v) simp_all

lemma preserves_let [preserves_intros]: "preserves I (g x) \<Longrightarrow> preserves I (let y = x in g y)"
  by simp

lemma keeps_preserves: "keeps f m \<Longrightarrow> preserves (\<lambda>s. P (f s)) m"
  unfolding keeps_def preserves_def by metis

lemma forM_append_Inr:
  "forM body (xs @ ys) s = Inr r \<longleftrightarrow> (\<exists>s1. forM body xs s = Inr ((), s1) \<and> forM body ys s1 = Inr r)"
  by (induction xs arbitrary: s) (auto simp: thenM_Inr)

section \<open>Tables\<close>

definition update_where :: "('r \<Rightarrow> bool) \<Rightarrow> ('r \<Rightarrow> 'r) \<Rightarrow> 'r list \<Rightarrow> 'r list" where
  "update_where p u rows = map (\<lambda>r. if p r then u r else r) rows"

text \<open>\<open>SELECT COALESCE(SUM(f), 0) ... WHERE p\<close>\<close>

definition sum_where :: "('r \<Rightarrow> bool) \<Rightarrow> ('r \<Rightarrow> int) \<Rightarrow> 'r list \<Rightarrow> int" where
  "sum_where p f rows = sum_list (map f (filter p rows))"

lemma length_update_where [simp]: "length (update_where p u rows) = length rows"
  by (simp add: update_where_def)

lemma update_where_Nil [simp]: "update_where p u [] = []"
  by (simp add: update_where_def)

lemma update_where_Cons [simp]:
  "update_where p u (r # rows) = (if p r then u r else r) # update_where p u rows"
  by (simp add: update_where_def)

lemma update_where_none: "(\<And>r. r \<in> set rows \<Longrightarrow> \<not> p r) \<Longrightarrow> update_where p u rows = rows"
  by (induction rows) auto

lemma map_update_where [simp]: "(\<And>r. f (u r) = f r) \<Longrightarrow> map f (update_where p u rows) = map f rows"
  by (induction rows) auto

lemma set_update_where: "set (update_where p u rows) = (\<lambda>r. if p r then u r else r) ` set rows"
  by (auto simp: update_where_def)

lemma filter_update_where_disjoint:
  "(\<And>r. p r \<Longrightarrow> \<not> q r \<and> \<not> q (u r)) \<Longrightarrow> filter q (update_where p u rows) = filter q rows"
  by (induction rows) auto

lemma sum_where_Nil [simp]: "sum_where p f [] = 0"
  by (simp add: sum_where_def)

lemma sum_where_Cons [simp]: "sum_where p f (r # rows) = (if p r then f r else 0) + sum_where p f rows"
  by (simp add: sum_where_def)

lemma sum_where_append [simp]: "sum_where p f (xs @ ys) = sum_where p f xs + sum_where p f ys"
  by (simp add: sum_where_def)

lemma sum_where_cong:
  "(\<And>r. r \<in> set rows \<Longrightarrow> p r = q r) \<Longrightarrow> (\<And>r. r \<in> set rows \<Longrightarrow> q r \<Longrightarrow> f r = g r) \<Longrightarrow>
   sum_where p f rows = sum_where q g rows"
  by (induction rows) auto

lemma sum_where_none: "(\<And>r. r \<in> set rows \<Longrightarrow> \<not> p r) \<Longrightarrow> sum_where p f rows = 0"
  by (induction rows) auto

lemma sum_where_nonneg: "(\<And>r. r \<in> set rows \<Longrightarrow> p r \<Longrightarrow> 0 \<le> f r) \<Longrightarrow> 0 \<le> sum_where p f rows"
  by (induction rows) auto

text \<open>An update that hits the one row with a given key changes a sum by the change of that row.\<close>

lemma sum_where_update_key:
  assumes "distinct (map key rows)" "r0 \<in> set rows" "key r0 = k" "\<And>r. p (u r) = p r" "\<And>r. q r \<Longrightarrow> key r = k" "q r0"
  shows "sum_where p f (update_where q u rows)
       = sum_where p f rows + (if p r0 then f (u r0) - f r0 else 0)"
  using assms(1,2)
proof (induction rows)
  case Nil
  then show ?case by simp
next
  case (Cons r rows)
  show ?case
  proof (cases "r = r0")
    case True
    have "\<not> q r'" if "r' \<in> set rows" for r'
      using Cons.prems(1) True assms(3) assms(5)[of r'] that by (auto simp: image_iff)
    then have "update_where q u rows = rows"
      by (rule update_where_none)
    then show ?thesis using True assms(4,6) by simp
  next
    case False
    then have in_rows: "r0 \<in> set rows" using Cons.prems by simp
    moreover have "\<not> q r"
      using Cons.prems(1) in_rows assms(3) assms(5)[of r] by (auto simp: image_iff)
    ultimately have "r0 \<in> set rows" "\<not> q r" by simp_all
    then show ?thesis using Cons by simp
  qed
qed

lemma find_Some_props: "List.find p rows = Some r \<Longrightarrow> r \<in> set rows \<and> p r"
  by (auto simp: find_Some_iff)

lemma find_None_props: "List.find p rows = None \<Longrightarrow> r \<in> set rows \<Longrightarrow> \<not> p r"
  by (auto simp: find_None_iff)

lemma find_unique_key:
  assumes "distinct (map key rows)" "r \<in> set rows" "p r" "\<And>r'. p r' \<Longrightarrow> key r' = key r"
  shows "List.find p rows = Some r"
  using assms(1,2)
proof (induction rows)
  case Nil
  then show ?case by simp
next
  case (Cons a rows)
  show ?case
  proof (cases "a = r")
    case True
    then show ?thesis using assms(3) by simp
  next
    case False
    then have r: "r \<in> set rows" using Cons.prems by simp
    then have "key a \<noteq> key r" using Cons.prems(1) by (auto simp: image_iff)
    then have "\<not> p a" using assms(4) by blast
    then show ?thesis using Cons.IH Cons.prems(1) r by simp
  qed
qed

lemma find_append: "List.find p (xs @ ys) = (case List.find p xs of None \<Rightarrow> List.find p ys | Some x \<Rightarrow> Some x)"
  by (induction xs) auto

lemma find_update_where:
  "(\<And>r. p (u r) = p r) \<Longrightarrow>
   List.find p (update_where q u rows) = map_option (\<lambda>r. if q r then u r else r) (List.find p rows)"
  by (induction rows) auto

lemma distinct_map_key_inj: "distinct (map key rows) \<Longrightarrow> r \<in> set rows \<Longrightarrow> r' \<in> set rows \<Longrightarrow> key r = key r' \<Longrightarrow> r = r'"
  by (metis distinct_map inj_onD)

end
