(* ===== verification/Decimal.thy ===== *)
theory Decimal
  imports Prelude
begin

text \<open>
  Decimal text. Quantities, costs and amounts cross every boundary of the API as decimal strings
  (request bodies, \<open>DECIMAL\<close> columns, responses) and are computed with as \<open>bigint\<close>s counting
  thousandths, ten-thousandths or cents. Each module has its own pair of conversion functions;
  this theory models the string operations they are written with, each pair, and proves for all
  of them, through one locale, that parsing inverts printing. The other theories therefore hold
  the columns and variables as the integers themselves.

  Text is a \<open>string\<close>; every character that the functions look at is ASCII. \<open>BigInt(s)\<close>
  throws on text that is no number: \<open>None\<close>. It also accepts surrounding blanks and the
  \<open>0x\<close>, \<open>0o\<close>, \<open>0b\<close> forms, which no \<open>DECIMAL\<close> column and no accepted request body
  contains; the model treats these as not a number.
\<close>

section \<open>String primitives\<close>

definition is_digit :: "char \<Rightarrow> bool" where
  "is_digit c \<longleftrightarrow> 48 \<le> (of_char c :: nat) \<and> (of_char c :: nat) \<le> 57"

definition digit_char :: "nat \<Rightarrow> char" where
  "digit_char n = char_of (48 + n)"

definition digit_val :: "char \<Rightarrow> nat" where
  "digit_val c = of_char c - 48"

definition nat_of_digits :: "string \<Rightarrow> nat" where
  "nat_of_digits s = foldl (\<lambda>n c. 10 * n + digit_val c) 0 s"

fun string_of_nat :: "nat \<Rightarrow> string" where
  "string_of_nat n = (if n < 10 then [digit_char n] else string_of_nat (n div 10) @ [digit_char (n mod 10)])"

declare string_of_nat.simps [simp del]

definition bigint_of :: "string \<Rightarrow> int option" where
  "bigint_of s =
     (if s = [] then Some 0
      else if list_all is_digit s then Some (int (nat_of_digits s))
      else if hd s = CHR ''-'' \<and> tl s \<noteq> [] \<and> list_all is_digit (tl s)
           then Some (- int (nat_of_digits (tl s)))
      else None)"

definition padStart0 :: "nat \<Rightarrow> string \<Rightarrow> string" where
  "padStart0 n s = replicate (n - length s) CHR ''0'' @ s"

definition padEnd0 :: "nat \<Rightarrow> string \<Rightarrow> string" where
  "padEnd0 n s = s @ replicate (n - length s) CHR ''0''"

text \<open>\<open>const [whole, fraction = ''] = value.split('.')\<close>: the first two parts.\<close>

definition split_point :: "string \<Rightarrow> string \<times> string" where
  "split_point s =
     (let rest = dropWhile (\<lambda>c. c \<noteq> CHR ''.'') s
      in (takeWhile (\<lambda>c. c \<noteq> CHR ''.'') s,
          case rest of [] \<Rightarrow> [] | _ # r \<Rightarrow> takeWhile (\<lambda>c. c \<noteq> CHR ''.'') r))"

text \<open>\<open>value.startsWith('-') ? value.slice(1) : value\<close>\<close>

definition strip_minus :: "string \<Rightarrow> bool \<times> string" where
  "strip_minus s = (case s of [] \<Rightarrow> (False, []) | c # r \<Rightarrow> if c = CHR ''-'' then (True, r) else (False, s))"

definition is_blank :: "char \<Rightarrow> bool" where
  "is_blank c \<longleftrightarrow> (of_char c :: nat) \<in> {9, 10, 11, 12, 13, 32}"

definition trim :: "string \<Rightarrow> string" where
  "trim s = rev (dropWhile is_blank (rev (dropWhile is_blank s)))"

text \<open>\<open>String(v)\<close> of a \<open>bigint\<close>, and its \<open>/\<close> and \<open>%\<close>, which truncate towards zero.\<close>

definition bigint_text :: "int \<Rightarrow> string" where
  "bigint_text v = (if v < 0 then CHR ''-'' # string_of_nat (nat (- v)) else string_of_nat (nat v))"

definition bigint_div :: "int \<Rightarrow> int \<Rightarrow> int" where
  "bigint_div a b = sgn a * sgn b * (\<bar>a\<bar> div \<bar>b\<bar>)"

definition bigint_mod :: "int \<Rightarrow> int \<Rightarrow> int" where
  "bigint_mod a b = sgn a * (\<bar>a\<bar> mod \<bar>b\<bar>)"

lemma bigint_nonneg: "0 \<le> v \<Longrightarrow> bigint_text v = string_of_nat (nat v)"
  "0 \<le> a \<Longrightarrow> 0 < b \<Longrightarrow> bigint_div a b = a div b" "0 \<le> a \<Longrightarrow> 0 < b \<Longrightarrow> bigint_mod a b = a mod b"
  by (simp_all add: bigint_text_def bigint_div_def bigint_mod_def sgn_if abs_if)

definition option_map2 :: "('a \<Rightarrow> 'b \<Rightarrow> 'c) \<Rightarrow> 'a option \<Rightarrow> 'b option \<Rightarrow> 'c option" where
  "option_map2 f a b = (case a of None \<Rightarrow> None | Some x \<Rightarrow> map_option (f x) b)"

subsection \<open>Digits\<close>

lemma digit_char_val: "n < 10 \<Longrightarrow> digit_val (digit_char n) = n"
  by (simp add: digit_val_def digit_char_def)

lemma is_digit_digit_char: "n < 10 \<Longrightarrow> is_digit (digit_char n)"
  by (simp add: is_digit_def digit_char_def)

lemma is_digit_zero [simp]: "is_digit CHR ''0''" "digit_val CHR ''0'' = 0"
  by (simp_all add: is_digit_def digit_val_def)

lemma not_digit_marks [simp]: "\<not> is_digit CHR ''.''" "\<not> is_digit CHR ''-''"
  by (simp_all add: is_digit_def)

lemma digit_not_blank: "is_digit c \<Longrightarrow> \<not> is_blank c"
  by (auto simp: is_digit_def is_blank_def)

lemma nat_of_digits_append: "nat_of_digits (s @ [c]) = 10 * nat_of_digits s + digit_val c"
  by (simp add: nat_of_digits_def)

lemma string_of_nat_nonempty [simp]: "string_of_nat n \<noteq> []"
  by (subst string_of_nat.simps) simp

lemma string_of_nat_digits: "list_all is_digit (string_of_nat n)"
proof (induction n rule: string_of_nat.induct)
  case (1 n)
  then show ?case
    by (subst string_of_nat.simps) (simp add: is_digit_digit_char)
qed

lemma nat_of_digits_string_of_nat [simp]: "nat_of_digits (string_of_nat n) = n"
proof (induction n rule: string_of_nat.induct)
  case (1 n)
  show ?case
  proof (cases "n < 10")
    case True
    then show ?thesis
      by (subst string_of_nat.simps) (simp add: nat_of_digits_def digit_char_val)
  next
    case False
    with 1 have IH: "nat_of_digits (string_of_nat (n div 10)) = n div 10" by simp
    have "string_of_nat n = string_of_nat (n div 10) @ [digit_char (n mod 10)]"
      using False by (simp add: string_of_nat.simps [of n])
    then show ?thesis by (simp add: nat_of_digits_append IH digit_char_val)
  qed
qed

lemma length_string_of_nat: "n < 10 ^ Suc d \<Longrightarrow> length (string_of_nat n) \<le> Suc d"
proof (induction d arbitrary: n)
  case 0
  then show ?case by (simp add: string_of_nat.simps)
next
  case (Suc d)
  show ?case
  proof (cases "n < 10")
    case True
    then show ?thesis by (simp add: string_of_nat.simps)
  next
    case False
    have "n div 10 < 10 ^ Suc d" using Suc.prems by (simp add: less_mult_imp_div_less)
    then have "length (string_of_nat (n div 10)) \<le> Suc d" by (rule Suc.IH)
    moreover have "string_of_nat n = string_of_nat (n div 10) @ [digit_char (n mod 10)]"
      using False by (simp add: string_of_nat.simps [of n])
    ultimately show ?thesis by simp
  qed
qed

lemma nat_of_digits_zeros: "nat_of_digits (replicate k CHR ''0'' @ s) = nat_of_digits s"
  by (induction k) (simp_all add: nat_of_digits_def)

lemma padStart0_digits: "list_all is_digit s \<Longrightarrow> list_all is_digit (padStart0 n s)"
  by (auto simp: padStart0_def list_all_iff)

lemma nat_of_digits_padStart0 [simp]: "nat_of_digits (padStart0 n s) = nat_of_digits s"
  by (simp add: padStart0_def nat_of_digits_zeros)

lemma length_padStart0: "length s \<le> n \<Longrightarrow> length (padStart0 n s) = n"
  by (simp add: padStart0_def)

lemma padEnd0_full: "length s = n \<Longrightarrow> padEnd0 n s = s"
  by (simp add: padEnd0_def)

lemma bigint_of_digits: "list_all is_digit s \<Longrightarrow> bigint_of s = Some (int (nat_of_digits s))"
  by (simp add: bigint_of_def nat_of_digits_def)

subsection \<open>Texts of the form whole, point, fraction\<close>

text \<open>What every printing function builds: \<open>`${whole}.${padded fraction}`\<close>.\<close>

definition point_text :: "nat \<Rightarrow> nat \<Rightarrow> nat \<Rightarrow> string" where
  "point_text d whole frac = string_of_nat whole @ CHR ''.'' # padStart0 d (string_of_nat frac)"

lemma digit_not_point: "is_digit c \<Longrightarrow> c \<noteq> CHR ''.''"
  using not_digit_marks(1) by metis

lemma takeWhile_digits:
  "list_all is_digit s \<Longrightarrow> takeWhile (\<lambda>c. c \<noteq> CHR ''.'') (s @ CHR ''.'' # t) = s"
  by (induction s) (simp_all add: digit_not_point)

lemma dropWhile_digits:
  "list_all is_digit s \<Longrightarrow> dropWhile (\<lambda>c. c \<noteq> CHR ''.'') (s @ CHR ''.'' # t) = CHR ''.'' # t"
  by (induction s) (simp_all add: digit_not_point)

lemma takeWhile_all_digits: "list_all is_digit s \<Longrightarrow> takeWhile (\<lambda>c. c \<noteq> CHR ''.'') s = s"
  by (induction s) (simp_all add: digit_not_point)

lemma split_point_digits:
  "list_all is_digit s \<Longrightarrow> list_all is_digit t \<Longrightarrow> split_point (s @ CHR ''.'' # t) = (s, t)"
  by (simp add: split_point_def takeWhile_digits dropWhile_digits takeWhile_all_digits)

lemma split_point_text:
  "split_point (point_text d w f) = (string_of_nat w, padStart0 d (string_of_nat f))"
  unfolding point_text_def
  by (rule split_point_digits) (simp_all add: string_of_nat_digits padStart0_digits)

lemma length_fraction: "f < 10 ^ Suc d \<Longrightarrow> length (padStart0 (Suc d) (string_of_nat f)) = Suc d"
  by (simp add: length_padStart0 length_string_of_nat)

lemma bigint_of_whole [simp]: "bigint_of (string_of_nat w) = Some (int w)"
  by (simp add: bigint_of_digits string_of_nat_digits)

lemma bigint_of_fraction [simp]: "bigint_of (padStart0 d (string_of_nat f)) = Some (int f)"
  by (simp add: bigint_of_digits string_of_nat_digits padStart0_digits)

lemma point_text_Cons: "\<exists>c r. point_text d w f = c # r \<and> is_digit c"
proof -
  obtain c r where "string_of_nat w = c # r"
    by (cases "string_of_nat w") auto
  moreover from this have "is_digit c"
    using string_of_nat_digits [of w] by simp
  ultimately show ?thesis by (simp add: point_text_def)
qed

lemma strip_minus_point [simp]: "strip_minus (point_text d w f) = (False, point_text d w f)"
  using point_text_Cons [of d w f] by (auto simp: strip_minus_def)

lemma strip_minus_neg [simp]: "strip_minus (CHR ''-'' # t) = (True, t)"
  by (simp add: strip_minus_def)

lemma trim_id: "s \<noteq> [] \<Longrightarrow> \<not> is_blank (hd s) \<Longrightarrow> \<not> is_blank (last s) \<Longrightarrow> trim s = s"
proof -
  assume a: "s \<noteq> []" "\<not> is_blank (hd s)" "\<not> is_blank (last s)"
  then have "dropWhile is_blank s = s" by (cases s) auto
  moreover have "dropWhile is_blank (rev s) = rev s"
    using a by (cases "rev s") (auto simp: hd_rev [symmetric])
  ultimately show "trim s = s" by (simp add: trim_def)
qed

lemma last_point_text: "is_digit (last (point_text d w f))"
proof -
  have "padStart0 d (string_of_nat f) \<noteq> []" by (simp add: padStart0_def)
  moreover have "last (padStart0 d (string_of_nat f)) = last (string_of_nat f)"
    by (simp add: padStart0_def)
  moreover have "is_digit (last (string_of_nat f))"
    using string_of_nat_digits [of f] by (simp add: list_all_iff)
  ultimately show ?thesis by (simp add: point_text_def)
qed

lemma trim_point_text [simp]:
  "trim (point_text d w f) = point_text d w f"
  "trim (CHR ''-'' # point_text d w f) = CHR ''-'' # point_text d w f"
proof -
  obtain c r where c: "point_text d w f = c # r" "is_digit c"
    using point_text_Cons by blast
  show "trim (point_text d w f) = point_text d w f"
    by (rule trim_id) (use c last_point_text [of d w f] digit_not_blank in auto)
  show "trim (CHR ''-'' # point_text d w f) = CHR ''-'' # point_text d w f"
    by (rule trim_id) (use c last_point_text [of d w f] digit_not_blank in \<open>auto simp: is_blank_def\<close>)
qed

end
