(* ===== verification/Codecs.thy ===== *)
theory Codecs
  imports Decimal
begin

text \<open>
  The conversion functions between decimal text and integer units, module by module, and the one
  contract they share: on the integers a module handles, parsing the printed text gives the
  integer back. The contract is the locale \<open>decimal_codec\<close>; its consequences (printing is
  injective, so comparing texts is comparing integers; normalising is idempotent) are proved once
  and hold for each module through the interpretations.
\<close>

section \<open>The contract\<close>

locale decimal_codec =
  fixes parse :: "string \<Rightarrow> int option"
    and print :: "int \<Rightarrow> string"
    and handled :: "int \<Rightarrow> bool"
  assumes parse_print: "handled u \<Longrightarrow> parse (print u) = Some u"
begin

lemma print_eq_iff: "handled u \<Longrightarrow> handled v \<Longrightarrow> print u = print v \<longleftrightarrow> u = v"
  by (metis option.inject parse_print)

lemma normalise_idempotent:
  "parse s = Some u \<Longrightarrow> handled u \<Longrightarrow> map_option print (parse (print u)) = Some (print u)"
  by (simp add: parse_print)

end

section \<open>inventory-valuation.ts: toScaled, fromScaled\<close>

definition toScaled :: "string \<Rightarrow> nat \<Rightarrow> int option" where
  "toScaled value decimals =
     (let normalized = trim value;
          (negative, unsigned) = strip_minus normalized;
          (whole, fraction) = split_point unsigned;
          paddedFraction = take decimals (fraction @ replicate decimals CHR ''0'');
          result = option_map2 (\<lambda>w f. w * 10 ^ decimals + f) (bigint_of whole) (bigint_of paddedFraction)
      in map_option (\<lambda>r. if negative then - r else r) result)"

definition fromScaled :: "int \<Rightarrow> nat \<Rightarrow> string" where
  "fromScaled value decimals =
     (let negative = value < 0;
          absolute = (if negative then - value else value);
          scale = 10 ^ decimals;
          whole = string_of_nat (nat (absolute div scale));
          fraction = padStart0 decimals (string_of_nat (nat (absolute mod scale)))
      in (if negative then ''-'' else '''') @ whole @ ''.'' @ fraction)"

section \<open>inventory-valuation-policy.ts and inventory-fifo-valuation.ts: scaled, decimal and kin\<close>

text \<open>\<open>scaled(value, scale, decimals)\<close>; \<open>quantityUnits\<close> and \<open>costUnits\<close> of the FIFO
  module are the same text with the scale and the number of decimals filled in.\<close>

definition scaled :: "string \<Rightarrow> int \<Rightarrow> nat \<Rightarrow> int option" where
  "scaled value scale decimals =
     (let normalized = trim value;
          (negative, unsigned) = strip_minus normalized;
          (whole, fraction) = split_point unsigned;
          result = option_map2 (\<lambda>w f. w * scale + f) (bigint_of whole)
                     (bigint_of (take decimals (padEnd0 decimals fraction)))
      in map_option (\<lambda>r. if negative then - r else r) result)"

definition decimal :: "int \<Rightarrow> int \<Rightarrow> nat \<Rightarrow> string" where
  "decimal value scale decimals =
     (let negative = value < 0;
          absolute = (if negative then - value else value)
      in (if negative then ''-'' else '''') @ string_of_nat (nat (absolute div scale)) @ ''.'' @
         padStart0 decimals (string_of_nat (nat (absolute mod scale))))"

definition fifo_quantityUnits :: "string \<Rightarrow> int option" where
  "fifo_quantityUnits value = scaled value 1000 3"

definition fifo_quantityDecimal :: "int \<Rightarrow> string" where
  "fifo_quantityDecimal value = decimal value 1000 3"

definition fifo_costUnits :: "string \<Rightarrow> int option" where
  "fifo_costUnits value = scaled value 10000 4"

definition fifo_costDecimal :: "int \<Rightarrow> string" where
  "fifo_costDecimal value = decimal value 10000 4"

section \<open>inventory-lot-tracking.ts and inventory.repository.ts: signed units\<close>

definition lot_units :: "string \<Rightarrow> int option" where
  "lot_units value =
     (let (negative, unsigned) = strip_minus value;
          (whole, fraction) = split_point unsigned;
          result = option_map2 (\<lambda>w f. w * 1000 + f) (bigint_of whole) (bigint_of (padEnd0 3 fraction))
      in map_option (\<lambda>r. if negative then - r else r) result)"

definition lot_decimal :: "int \<Rightarrow> string" where
  "lot_decimal value =
     (let negative = value < 0;
          absolute = (if negative then - value else value)
      in (if negative then ''-'' else '''') @ string_of_nat (nat (absolute div 1000)) @ ''.'' @
         padStart0 3 (string_of_nat (nat (absolute mod 1000))))"

text \<open>\<open>costUnits\<close> of the lot module has no sign: lot costs are never negative.\<close>

definition lot_costUnits :: "string \<Rightarrow> int option" where
  "lot_costUnits value =
     (let (whole, fraction) = split_point (trim value)
      in option_map2 (\<lambda>w f. w * 10000 + f) (bigint_of whole) (bigint_of (take 4 (padEnd0 4 fraction))))"

definition stock_toUnits :: "string \<Rightarrow> int option" where
  "stock_toUnits value =
     (let (negative, unsigned) = strip_minus value;
          (whole, fraction) = split_point unsigned;
          units = option_map2 (\<lambda>w f. w * 1000 + f) (bigint_of whole) (bigint_of (padEnd0 3 fraction))
      in map_option (\<lambda>u. if negative then - u else u) units)"

definition stock_fromUnits :: "int \<Rightarrow> string" where
  "stock_fromUnits units =
     (let sign = (if units < 0 then ''-'' else '''');
          absolute = (if units < 0 then - units else units)
      in sign @ string_of_nat (nat (absolute div 1000)) @ ''.'' @
         padStart0 3 (string_of_nat (nat (absolute mod 1000))))"

section \<open>Unsigned modules: transfers, reservations, loyalty, promotions\<close>

text \<open>\<open>toUnits\<close> of the transfer repository: the fraction is cut by
  \<open>`${fractionPart}000`.slice(0, 3)\<close> and the sign is left to \<open>BigInt(integerPart)\<close>.\<close>

definition transfer_toUnits :: "string \<Rightarrow> int option" where
  "transfer_toUnits value =
     (let (integerPart, fractionPart) = split_point value
      in option_map2 (\<lambda>w f. w * 1000 + f) (bigint_of integerPart) (bigint_of (take 3 (fractionPart @ ''000''))))"

definition reservation_units :: "string \<Rightarrow> int option" where
  "reservation_units value =
     (let (whole, fraction) = split_point value
      in option_map2 (\<lambda>w f. w * 1000 + f) (bigint_of whole) (bigint_of (padEnd0 3 fraction)))"

definition reservation_decimal :: "int \<Rightarrow> string" where
  "reservation_decimal units =
     bigint_text (bigint_div units 1000) @ ''.'' @ padStart0 3 (bigint_text (bigint_mod units 1000))"

definition loyalty_toMoney :: "string \<Rightarrow> int option" where
  "loyalty_toMoney value =
     (let (whole, fraction) = split_point value
      in option_map2 (\<lambda>w f. w * 100 + f) (bigint_of whole) (bigint_of (take 2 (padEnd0 2 fraction))))"

definition loyalty_fromMoney :: "int \<Rightarrow> string" where
  "loyalty_fromMoney value =
     bigint_text (bigint_div value 100) @ ''.'' @ padStart0 2 (bigint_text (bigint_mod value 100))"

definition promotion_quantity :: "string \<Rightarrow> int option" where
  "promotion_quantity value =
     (let (whole, fraction) = split_point value
      in option_map2 (\<lambda>w f. w * 1000 + f) (bigint_of whole) (bigint_of (padEnd0 3 fraction)))"

definition promotion_qty :: "int \<Rightarrow> string" where
  "promotion_qty value =
     bigint_text (bigint_div value 1000) @ ''.'' @ padStart0 3 (bigint_text (bigint_mod value 1000))"

definition promotion_percent :: "string \<Rightarrow> int option" where
  "promotion_percent value =
     (let (whole, fraction) = split_point value
      in option_map2 (\<lambda>w f. w * 10000 + f) (bigint_of whole) (bigint_of (padEnd0 4 fraction)))"

definition promotion_moneyUnits :: "string \<Rightarrow> int option" where
  "promotion_moneyUnits value =
     (let (whole, fraction) = split_point value
      in option_map2 (\<lambda>w f. w * 100 + f) (bigint_of whole) (bigint_of (padEnd0 2 fraction)))"

definition promotion_money :: "int \<Rightarrow> string" where
  "promotion_money value =
     bigint_text (bigint_div value 100) @ ''.'' @ padStart0 2 (bigint_text (bigint_mod value 100))"

section \<open>Round trips\<close>

definition nonneg :: "int \<Rightarrow> bool" where
  "nonneg u \<longleftrightarrow> 0 \<le> u"

text \<open>Every printer is a sign followed by a \<open>point_text\<close>.\<close>

lemma printed_forms:
  "fromScaled v d = (if v < 0 then ''-'' else []) @ point_text d (nat (\<bar>v\<bar> div 10 ^ d)) (nat (\<bar>v\<bar> mod 10 ^ d))"
  "decimal v sc d = (if v < 0 then ''-'' else []) @ point_text d (nat (\<bar>v\<bar> div sc)) (nat (\<bar>v\<bar> mod sc))"
  "lot_decimal v = (if v < 0 then ''-'' else []) @ point_text 3 (nat (\<bar>v\<bar> div 1000)) (nat (\<bar>v\<bar> mod 1000))"
  "stock_fromUnits v = (if v < 0 then ''-'' else []) @ point_text 3 (nat (\<bar>v\<bar> div 1000)) (nat (\<bar>v\<bar> mod 1000))"
  "0 \<le> v \<Longrightarrow> reservation_decimal v = point_text 3 (nat (v div 1000)) (nat (v mod 1000))"
  "0 \<le> v \<Longrightarrow> loyalty_fromMoney v = point_text 2 (nat (v div 100)) (nat (v mod 100))"
  "0 \<le> v \<Longrightarrow> promotion_qty v = point_text 3 (nat (v div 1000)) (nat (v mod 1000))"
  "0 \<le> v \<Longrightarrow> promotion_money v = point_text 2 (nat (v div 100)) (nat (v mod 100))"
  by (simp_all add: fromScaled_def decimal_def lot_decimal_def stock_fromUnits_def
      reservation_decimal_def loyalty_fromMoney_def promotion_qty_def promotion_money_def
      point_text_def Let_def abs_if bigint_nonneg pos_imp_zdiv_nonneg_iff)

lemma nat_mod_bound: "0 < sc \<Longrightarrow> sc = 10 ^ d \<Longrightarrow> nat (a mod sc) < 10 ^ d" for a sc :: int
  by (metis nat_less_iff of_nat_numeral of_nat_power pos_mod_bound pos_mod_sign)

lemma whole_fraction: "0 < sc \<Longrightarrow> 0 \<le> a \<Longrightarrow> int (nat (a div sc)) * sc + int (nat (a mod sc)) = a" for a sc :: int
  by (simp add: pos_imp_zdiv_nonneg_iff)

lemma fraction_length:
  "0 < sc \<Longrightarrow> sc = 10 ^ Suc d \<Longrightarrow> length (padStart0 (Suc d) (string_of_nat (nat (a mod sc)))) = Suc d" for a sc :: int
  by (rule length_fraction) (rule nat_mod_bound)

lemma scaled_decimal:
  assumes "sc = 10 ^ Suc d"
  shows "scaled (decimal v sc (Suc d)) sc (Suc d) = Some v"
proof -
  have pos: "0 < sc" using assms by simp
  have len: "length (padStart0 (Suc d) (string_of_nat (nat (\<bar>v\<bar> mod sc)))) = Suc d"
    by (rule fraction_length [OF pos assms])
  have val: "int (nat (\<bar>v\<bar> div sc)) * sc + int (nat (\<bar>v\<bar> mod sc)) = \<bar>v\<bar>"
    by (rule whole_fraction [OF pos]) simp
  show ?thesis
    by (cases "v < 0")
      (use len val in \<open>simp_all add: printed_forms scaled_def split_point_text option_map2_def padEnd0_full abs_if\<close>)
qed

lemma toScaled_fromScaled: "toScaled (fromScaled v (Suc d)) (Suc d) = Some v"
proof -
  define sc :: int where "sc = 10 ^ Suc d"
  have pos: "0 < sc" by (simp add: sc_def)
  have len: "length (padStart0 (Suc d) (string_of_nat (nat (\<bar>v\<bar> mod sc)))) = Suc d"
    by (rule fraction_length [OF pos sc_def])
  have val: "int (nat (\<bar>v\<bar> div sc)) * sc + int (nat (\<bar>v\<bar> mod sc)) = \<bar>v\<bar>"
    by (rule whole_fraction [OF pos]) simp
  have print: "fromScaled v (Suc d) = (if v < 0 then ''-'' else []) @ point_text (Suc d) (nat (\<bar>v\<bar> div sc)) (nat (\<bar>v\<bar> mod sc))"
    by (simp only: printed_forms sc_def)
  show ?thesis
    unfolding toScaled_def print sc_def [symmetric]
    by (cases "v < 0") (use len val in \<open>simp_all add: split_point_text option_map2_def abs_if\<close>)
qed

lemmas codec_simps = printed_forms split_point_text option_map2_def padEnd0_full nonneg_def

lemma whole_fraction_1000: "0 \<le> a \<Longrightarrow> int (nat (a div 1000)) * 1000 + int (nat (a mod 1000)) = a" for a :: int
  by (rule whole_fraction) simp_all

lemma whole_fraction_100: "0 \<le> a \<Longrightarrow> int (nat (a div 100)) * 100 + int (nat (a mod 100)) = a" for a :: int
  by (rule whole_fraction) simp_all

lemma fraction_length_3 [simp]: "length (padStart0 3 (string_of_nat (nat (a mod 1000)))) = 3" for a :: int
proof -
  have "length (padStart0 (Suc 2) (string_of_nat (nat (a mod 1000)))) = Suc 2"
    by (rule fraction_length) simp_all
  then show ?thesis by simp
qed

lemma fraction_length_2 [simp]: "length (padStart0 2 (string_of_nat (nat (a mod 100)))) = 2" for a :: int
proof -
  have "length (padStart0 (Suc 1) (string_of_nat (nat (a mod 100)))) = Suc 1"
    by (rule fraction_length) simp_all
  then show ?thesis by (simp only: Suc_1)
qed

interpretation valuation_quantity: decimal_codec "\<lambda>s. toScaled s 3" "\<lambda>u. fromScaled u 3" "\<lambda>_. True"
  by unfold_locales (simp add: toScaled_fromScaled numeral_3_eq_3)

interpretation valuation_money: decimal_codec "\<lambda>s. toScaled s 4" "\<lambda>u. fromScaled u 4" "\<lambda>_. True"
  by unfold_locales (use toScaled_fromScaled [of _ 3] in \<open>simp add: eval_nat_numeral\<close>)

interpretation fifo_quantity: decimal_codec fifo_quantityUnits fifo_quantityDecimal "\<lambda>_. True"
  by unfold_locales (use scaled_decimal [of 1000 2] in \<open>simp add: fifo_quantityUnits_def fifo_quantityDecimal_def numeral_3_eq_3\<close>)

interpretation fifo_cost: decimal_codec fifo_costUnits fifo_costDecimal "\<lambda>_. True"
  by unfold_locales (use scaled_decimal [of 10000 3] in \<open>simp add: fifo_costUnits_def fifo_costDecimal_def eval_nat_numeral\<close>)

interpretation lot_quantity: decimal_codec lot_units lot_decimal "\<lambda>_. True"
proof
  fix u :: int
  show "lot_units (lot_decimal u) = Some u"
    by (cases "u < 0") (use whole_fraction_1000 [of "\<bar>u\<bar>"] in \<open>simp_all add: codec_simps lot_units_def abs_if\<close>)
qed

interpretation stock_quantity: decimal_codec stock_toUnits stock_fromUnits "\<lambda>_. True"
proof
  fix u :: int
  show "stock_toUnits (stock_fromUnits u) = Some u"
    by (cases "u < 0") (use whole_fraction_1000 [of "\<bar>u\<bar>"] in \<open>simp_all add: codec_simps stock_toUnits_def abs_if\<close>)
qed

interpretation transfer_quantity: decimal_codec transfer_toUnits stock_fromUnits nonneg
  by unfold_locales (use whole_fraction_1000 in \<open>simp add: codec_simps transfer_toUnits_def\<close>)

interpretation reservation_quantity: decimal_codec reservation_units reservation_decimal nonneg
  by unfold_locales (use whole_fraction_1000 in \<open>simp add: codec_simps reservation_units_def\<close>)

interpretation loyalty_amount: decimal_codec loyalty_toMoney loyalty_fromMoney nonneg
  by unfold_locales (use whole_fraction_100 in \<open>simp add: codec_simps loyalty_toMoney_def\<close>)

interpretation promotion_units: decimal_codec promotion_quantity promotion_qty nonneg
  by unfold_locales (use whole_fraction_1000 in \<open>simp add: codec_simps promotion_quantity_def\<close>)

interpretation promotion_amount: decimal_codec promotion_moneyUnits promotion_money nonneg
  by unfold_locales (use whole_fraction_100 in \<open>simp add: codec_simps promotion_moneyUnits_def\<close>)

end
