(* ===== verification/QuantityPolicy.thy ===== *)
theory QuantityPolicy
  imports Codecs
begin

text \<open>
  Product quantity policies, after \<open>src/common/quantity-policy.ts\<close>: the accepted quantity
  texts, the check of a policy (unit, precision, rounding mode, minimum), and the normalisation
  of a requested quantity: parse, reject a negative one, round to the product's precision, and
  reject a non-zero result below the minimum. Units and rounding modes are the strings of the
  source, since the check of a policy is what rejects other strings; \<open>precision\<close> is an integer,
  so \<open>Number.isInteger\<close> holds by its type.
\<close>

datatype quantity_error =
    InvalidProductQuantity
  | InvalidProductQuantityPolicy
  | ProductQuantityBelowMinimum string

record product_quantity_policy =
  baseUnit :: string
  precision :: int
  rounding :: string
  minimumQuantity :: string

definition PRODUCT_BASE_UNITS :: "string list" where
  "PRODUCT_BASE_UNITS =
     [''UNIT'', ''KILOGRAM'', ''GRAM'', ''LITER'', ''MILLILITER'', ''METER'', ''CENTIMETER'']"

definition QUANTITY_ROUNDING_MODES :: "string list" where
  "QUANTITY_ROUNDING_MODES = [''HALF_UP'', ''DOWN'', ''UP'']"

definition SCALE :: int where
  "SCALE = 1000"

text \<open>\<open>/^-?(?:0|[1-9]\d{0,11})(?:\.\d{1,3})?$/\<close>\<close>

definition QUANTITY_PATTERN :: "string \<Rightarrow> bool" where
  "QUANTITY_PATTERN value =
     (let unsigned = snd (strip_minus value);
          whole = takeWhile (\<lambda>c. c \<noteq> CHR ''.'') unsigned;
          rest = dropWhile (\<lambda>c. c \<noteq> CHR ''.'') unsigned
      in list_all is_digit whole \<and>
         (whole = ''0'' \<or> whole \<noteq> [] \<and> hd whole \<noteq> CHR ''0'' \<and> length whole \<le> 12) \<and>
         (rest = [] \<or> list_all is_digit (tl rest) \<and> 1 \<le> length (tl rest) \<and> length (tl rest) \<le> 3))"

definition quantityToUnits :: "string \<Rightarrow> quantity_error + int" where
  "quantityToUnits value =
     (if \<not> QUANTITY_PATTERN value then Inl InvalidProductQuantity
      else let (negative, unsigned) = strip_minus value;
               (whole, fraction) = split_point unsigned
           in case option_map2 (\<lambda>w f. w * SCALE + f) (bigint_of whole) (bigint_of (padEnd0 3 fraction)) of
                None \<Rightarrow> Inl InvalidProductQuantity
              | Some units \<Rightarrow> Inr (if negative then - units else units))"

definition quantityFromUnits :: "int \<Rightarrow> string" where
  "quantityFromUnits units =
     (let sign = (if units < 0 then ''-'' else '''');
          absolute = (if units < 0 then - units else units)
      in sign @ string_of_nat (nat (absolute div SCALE)) @ ''.'' @
         padStart0 3 (string_of_nat (nat (absolute mod SCALE))))"

text \<open>\<open>[1000n, 100n, 10n, 1n][precision]\<close>; every caller has checked \<open>0 \<le> precision \<le> 3\<close>.\<close>

definition quantum :: "int \<Rightarrow> int" where
  "quantum p = [1000, 100, 10, 1] ! nat p"

definition roundUnits :: "int \<Rightarrow> int \<Rightarrow> string \<Rightarrow> int" where
  "roundUnits units p mode =
     (let q = quantum p;
          sign = (if units < 0 then -1 else 1);
          absolute = (if units < 0 then - units else units);
          quotient = absolute div q;
          remainder = absolute mod q;
          increment = (if remainder = 0 then 0
                       else if mode = ''UP'' \<or> (mode = ''HALF_UP'' \<and> q \<le> remainder * 2) then 1
                       else 0)
      in sign * (quotient + increment) * q)"

definition assertProductQuantityPolicy :: "product_quantity_policy \<Rightarrow> bool \<Rightarrow> quantity_error + unit" where
  "assertProductQuantityPolicy policy trackSerials =
     (if baseUnit policy \<notin> set PRODUCT_BASE_UNITS then Inl InvalidProductQuantityPolicy
      else if precision policy < 0 \<or> 3 < precision policy then Inl InvalidProductQuantityPolicy
      else if rounding policy \<notin> set QUANTITY_ROUNDING_MODES then Inl InvalidProductQuantityPolicy
      else bindE (quantityToUnits (minimumQuantity policy)) (\<lambda>minimum.
        if minimum \<le> 0 \<or> roundUnits minimum (precision policy) ''DOWN'' \<noteq> minimum
        then Inl InvalidProductQuantityPolicy
        else if trackSerials \<and> (baseUnit policy \<noteq> ''UNIT'' \<or> precision policy \<noteq> 0 \<or> minimum \<noteq> SCALE)
        then Inl InvalidProductQuantityPolicy
        else Inr ()))"

definition normalizeProductQuantity ::
  "string \<Rightarrow> product_quantity_policy \<Rightarrow> bool \<Rightarrow> bool \<Rightarrow> quantity_error + string" where
  "normalizeProductQuantity value policy allowNegative enforceMinimum =
     bindE (assertProductQuantityPolicy policy False) (\<lambda>_.
     bindE (quantityToUnits value) (\<lambda>original.
       if \<not> allowNegative \<and> original < 0 then Inl InvalidProductQuantity
       else let rounded = roundUnits original (precision policy) (rounding policy);
                absolute = (if rounded < 0 then - rounded else rounded)
            in bindE (quantityToUnits (minimumQuantity policy)) (\<lambda>minimum.
                 if enforceMinimum \<and> 0 < absolute \<and> absolute < minimum
                 then Inl (ProductQuantityBelowMinimum (quantityFromUnits minimum))
                 else Inr (quantityFromUnits rounded))))"

section \<open>Quantity texts\<close>

lemma quantityFromUnits_text:
  "quantityFromUnits u = (if u < 0 then ''-'' else []) @ point_text 3 (nat (\<bar>u\<bar> div 1000)) (nat (\<bar>u\<bar> mod 1000))"
  by (simp add: quantityFromUnits_def point_text_def SCALE_def Let_def abs_if)

lemma string_of_nat_hd: "0 < n \<Longrightarrow> hd (string_of_nat n) \<noteq> CHR ''0''"
proof (induction n rule: string_of_nat.induct)
  case (1 n)
  show ?case
  proof (cases "n < 10")
    case True
    have "digit_char n \<noteq> CHR ''0''"
    proof
      assume "digit_char n = CHR ''0''"
      then have "digit_val (digit_char n) = 0" by (simp only: is_digit_zero)
      with digit_char_val [OF True] 1(2) show False by simp
    qed
    with True show ?thesis by (simp add: string_of_nat.simps [of n])
  next
    case False
    with 1 have "hd (string_of_nat (n div 10)) \<noteq> CHR ''0''" by simp
    with False show ?thesis by (simp add: string_of_nat.simps [of n])
  qed
qed

lemma string_of_nat_zero: "string_of_nat 0 = ''0''"
  by code_simp

lemma point_text_pattern:
  assumes "w < 10 ^ 12" "f < 1000"
  shows "QUANTITY_PATTERN ((if b then ''-'' else []) @ point_text 3 w f)"
proof -
  let ?t = "point_text 3 w f"
  have strip: "snd (strip_minus ((if b then ''-'' else []) @ ?t)) = ?t" by simp
  have tw: "takeWhile (\<lambda>c. c \<noteq> CHR ''.'') ?t = string_of_nat w"
    by (simp add: point_text_def takeWhile_digits string_of_nat_digits)
  have dw: "dropWhile (\<lambda>c. c \<noteq> CHR ''.'') ?t = CHR ''.'' # padStart0 3 (string_of_nat f)"
    by (simp add: point_text_def dropWhile_digits string_of_nat_digits)
  have len: "length (padStart0 3 (string_of_nat f)) = 3"
    using length_fraction [of f 2] assms(2) by simp
  have "length (string_of_nat w) \<le> 12"
    using length_string_of_nat [of w 11] assms(1) by simp
  then have whole: "string_of_nat w = ''0'' \<or>
      string_of_nat w \<noteq> [] \<and> hd (string_of_nat w) \<noteq> CHR ''0'' \<and> length (string_of_nat w) \<le> 12"
    using string_of_nat_hd [of w] by (cases "w = 0") (simp_all add: string_of_nat_zero)
  show ?thesis
    unfolding QUANTITY_PATTERN_def Let_def strip tw dw
    using whole len by (simp add: string_of_nat_digits padStart0_digits)
qed

lemma abs_parts_bound:
  fixes u :: int
  assumes "\<bar>u\<bar> < 10 ^ 15"
  shows "nat (\<bar>u\<bar> div 1000) < 10 ^ 12" "nat (\<bar>u\<bar> mod 1000) < 1000"
  using assms by (simp_all add: nat_less_iff pos_imp_zdiv_nonneg_iff)

text \<open>The accepted texts are exactly wide enough for twelve integer digits.\<close>

lemma quantityToUnits_printed:
  assumes pat: "QUANTITY_PATTERN (quantityFromUnits u)"
  shows "quantityToUnits (quantityFromUnits u) = Inr u"
proof -
  have val: "int (nat (\<bar>u\<bar> div 1000)) * 1000 + int (nat (\<bar>u\<bar> mod 1000)) = \<bar>u\<bar>"
    by (rule whole_fraction_1000) simp
  show ?thesis
    unfolding quantityToUnits_def using pat val
    by (cases "u < 0") (simp_all add: quantityFromUnits_text split_point_text option_map2_def padEnd0_full SCALE_def abs_if)
qed

lemma quantityToUnits_print: "\<bar>u\<bar> < 10 ^ 15 \<Longrightarrow> quantityToUnits (quantityFromUnits u) = Inr u"
  using point_text_pattern [OF abs_parts_bound, of u u "u < 0"]
  by (intro quantityToUnits_printed) (simp add: quantityFromUnits_text)

lemma quantityToUnits_Inr_pattern: "quantityToUnits v = Inr u \<Longrightarrow> QUANTITY_PATTERN v"
  by (simp add: quantityToUnits_def split: if_splits)

lemma quantityToUnits_of_print: "quantityToUnits (quantityFromUnits u) = Inr w \<Longrightarrow> u = w"
  using quantityToUnits_printed [OF quantityToUnits_Inr_pattern] by fastforce

lemma nat_of_digits_bound: "list_all is_digit s \<Longrightarrow> nat_of_digits s < 10 ^ length s"
proof (induction s rule: rev_induct)
  case Nil
  then show ?case by (simp add: nat_of_digits_def)
next
  case (snoc c s)
  then have "nat_of_digits s < 10 ^ length s" by simp
  moreover have "digit_val c < 10" using snoc.prems by (auto simp: digit_val_def is_digit_def)
  ultimately have "10 * nat_of_digits s + digit_val c < 10 * 10 ^ length s" by simp
  then show ?case by (simp add: nat_of_digits_append)
qed

lemma pattern_units:
  assumes "QUANTITY_PATTERN v"
  obtains w f where "quantityToUnits v = Inr (if fst (strip_minus v) then - (w * 1000 + f) else w * 1000 + f)"
    "0 \<le> w" "w < 10 ^ 12" "0 \<le> f" "f < 1000"
proof -
  obtain neg u where sm: "strip_minus v = (neg, u)" by (cases "strip_minus v")
  define whole where "whole = takeWhile (\<lambda>c. c \<noteq> CHR ''.'') u"
  define rest where "rest = dropWhile (\<lambda>c. c \<noteq> CHR ''.'') u"
  define frac where "frac = (case rest of [] \<Rightarrow> [] | _ # r \<Rightarrow> takeWhile (\<lambda>c. c \<noteq> CHR ''.'') r)"
  have split: "split_point u = (whole, frac)"
    by (simp add: split_point_def Let_def whole_def rest_def frac_def)
  have pat: "list_all is_digit whole"
    "whole = ''0'' \<or> whole \<noteq> [] \<and> hd whole \<noteq> CHR ''0'' \<and> length whole \<le> 12"
    "rest = [] \<or> list_all is_digit (tl rest) \<and> 1 \<le> length (tl rest) \<and> length (tl rest) \<le> 3"
    using assms unfolding QUANTITY_PATTERN_def Let_def sm snd_conv whole_def [symmetric] rest_def [symmetric]
    by blast+
  have len: "length whole \<le> 12" using pat(2) by (elim disjE) simp_all
  have frac: "list_all is_digit frac" "length frac \<le> 3"
    using pat(3) by (cases rest; simp add: frac_def takeWhile_all_digits)+
  have pad: "list_all is_digit (padEnd0 3 frac)" "length (padEnd0 3 frac) = 3"
    using frac by (auto simp: padEnd0_def list_all_iff)
  have eq: "quantityToUnits v = Inr (if neg
      then - (int (nat_of_digits whole) * 1000 + int (nat_of_digits (padEnd0 3 frac)))
      else int (nat_of_digits whole) * 1000 + int (nat_of_digits (padEnd0 3 frac)))"
    unfolding quantityToUnits_def
    using assms by (simp add: sm split bigint_of_digits pat(1) pad(1) option_map2_def SCALE_def)
  have "(10::nat) ^ length whole \<le> 10 ^ 12"
    by (rule power_increasing) (use len in simp_all)
  with nat_of_digits_bound [OF pat(1)] have "nat_of_digits whole < 10 ^ 12"
    by (rule less_le_trans)
  moreover have "nat_of_digits (padEnd0 3 frac) < 1000"
    using nat_of_digits_bound [OF pad(1)] pad(2) by simp
  ultimately show thesis using that eq by (simp add: sm)
qed

lemma quantityToUnits_bound: "quantityToUnits v = Inr u \<Longrightarrow> \<bar>u\<bar> < 10 ^ 15"
  by (frule quantityToUnits_Inr_pattern, erule pattern_units) (auto split: if_splits)

section \<open>Rounding\<close>

lemma quantum_cases: "0 \<le> p \<Longrightarrow> p \<le> 3 \<Longrightarrow> quantum p \<in> {1, 10, 100, 1000}"
proof -
  assume "0 \<le> p" "p \<le> 3"
  then have "p \<in> {0, 1, 2, 3}" by auto
  then show ?thesis by (auto simp: quantum_def)
qed

lemma quantum_pos: "0 \<le> p \<Longrightarrow> p \<le> 3 \<Longrightarrow> 0 < quantum p"
  using quantum_cases by fastforce

text \<open>The magnitude of the result, for a magnitude \<open>a\<close> and a quantum \<open>q\<close>.\<close>

definition rounded_magnitude :: "int \<Rightarrow> int \<Rightarrow> string \<Rightarrow> int" where
  "rounded_magnitude a q mode =
     (a div q + (if a mod q = 0 then 0 else if mode = ''UP'' \<or> (mode = ''HALF_UP'' \<and> q \<le> a mod q * 2) then 1 else 0)) * q"

lemma roundUnits_magnitude:
  "roundUnits u p mode = (if u < 0 then - 1 else 1) * rounded_magnitude \<bar>u\<bar> (quantum p) mode"
  by (simp add: roundUnits_def rounded_magnitude_def Let_def abs_if)

lemma rounded_magnitude_props:
  assumes "0 < q" "0 \<le> a"
  shows "0 \<le> rounded_magnitude a q mode" "q dvd rounded_magnitude a q mode"
    "\<bar>rounded_magnitude a q mode - a\<bar> < q"
    "a mod q = 0 \<Longrightarrow> rounded_magnitude a q mode = a"
    "mode = ''DOWN'' \<Longrightarrow> rounded_magnitude a q mode \<le> a"
    "mode = ''UP'' \<Longrightarrow> a \<le> rounded_magnitude a q mode"
    "mode = ''HALF_UP'' \<Longrightarrow> 2 * \<bar>rounded_magnitude a q mode - a\<bar> \<le> q"
proof -
  have a: "a = a div q * q + a mod q" by simp
  have r: "0 \<le> a mod q" "a mod q < q" using assms by simp_all
  have d: "0 \<le> a div q" using assms by (simp add: pos_imp_zdiv_nonneg_iff)
  have up: "(a div q + 1) * q = a + (q - a mod q)" by (simp add: algebra_simps)
  have down: "a div q * q = a - a mod q" by (simp add: minus_mod_eq_div_mult)
  have R: "rounded_magnitude a q mode =
      (if a mod q = 0 \<or> \<not> (mode = ''UP'' \<or> (mode = ''HALF_UP'' \<and> q \<le> a mod q * 2)) then a - a mod q else a + (q - a mod q))"
    unfolding rounded_magnitude_def by (auto simp: up down)
  show "q dvd rounded_magnitude a q mode" by (simp add: rounded_magnitude_def)
  show "0 \<le> rounded_magnitude a q mode" unfolding rounded_magnitude_def using d assms by simp
  show "\<bar>rounded_magnitude a q mode - a\<bar> < q" using r unfolding R by auto
  show "a mod q = 0 \<Longrightarrow> rounded_magnitude a q mode = a" unfolding R by simp
  show "mode = ''DOWN'' \<Longrightarrow> rounded_magnitude a q mode \<le> a" using r unfolding R by simp
  show "mode = ''UP'' \<Longrightarrow> a \<le> rounded_magnitude a q mode" using r unfolding R by simp
  show "mode = ''HALF_UP'' \<Longrightarrow> 2 * \<bar>rounded_magnitude a q mode - a\<bar> \<le> q" using r unfolding R by auto
qed

lemma roundUnits_multiple: "0 \<le> p \<Longrightarrow> p \<le> 3 \<Longrightarrow> quantum p dvd roundUnits u p mode"
  unfolding roundUnits_magnitude using rounded_magnitude_props(2) [OF quantum_pos] by simp

lemma roundUnits_exact: "0 \<le> p \<Longrightarrow> p \<le> 3 \<Longrightarrow> quantum p dvd u \<Longrightarrow> roundUnits u p mode = u"
  unfolding roundUnits_magnitude
  using rounded_magnitude_props(4) [OF quantum_pos, of p "\<bar>u\<bar>" mode] by (auto simp: abs_if)

lemma roundUnits_abs: "0 \<le> p \<Longrightarrow> p \<le> 3 \<Longrightarrow> \<bar>roundUnits u p mode\<bar> = rounded_magnitude \<bar>u\<bar> (quantum p) mode"
  unfolding roundUnits_magnitude
  using rounded_magnitude_props(1) [OF quantum_pos, of p "\<bar>u\<bar>" mode] by (simp add: abs_mult)

lemma roundUnits_distance:
  "0 \<le> p \<Longrightarrow> p \<le> 3 \<Longrightarrow> \<bar>roundUnits u p mode - u\<bar> = \<bar>rounded_magnitude \<bar>u\<bar> (quantum p) mode - \<bar>u\<bar>\<bar>"
  unfolding roundUnits_magnitude by (auto simp: abs_if)

lemma roundUnits_idempotent:
  "0 \<le> p \<Longrightarrow> p \<le> 3 \<Longrightarrow> roundUnits (roundUnits u p mode) p mode' = roundUnits u p mode"
  by (simp add: roundUnits_exact roundUnits_multiple)

section \<open>Policies and normalisation\<close>

lemma assert_policy_Inr:
  "assertProductQuantityPolicy policy ts = Inr u \<longleftrightarrow>
     baseUnit policy \<in> set PRODUCT_BASE_UNITS \<and> 0 \<le> precision policy \<and> precision policy \<le> 3 \<and>
     rounding policy \<in> set QUANTITY_ROUNDING_MODES \<and>
     (\<exists>m. quantityToUnits (minimumQuantity policy) = Inr m \<and> 0 < m \<and> quantum (precision policy) dvd m \<and>
        (ts \<longrightarrow> baseUnit policy = ''UNIT'' \<and> precision policy = 0 \<and> m = 1000))"
proof -
  have "roundUnits m (precision policy) ''DOWN'' = m \<longleftrightarrow> quantum (precision policy) dvd m"
    if "0 \<le> precision policy" "precision policy \<le> 3" for m
    using roundUnits_exact roundUnits_multiple that by metis
  then show ?thesis
    by (cases "quantityToUnits (minimumQuantity policy)")
      (auto simp: assertProductQuantityPolicy_def bindE_def SCALE_def not_less)
qed

lemma normalize_Inr:
  "normalizeProductQuantity v policy neg enf = Inr t \<longleftrightarrow>
     (\<exists>u m. assertProductQuantityPolicy policy False = Inr () \<and> quantityToUnits v = Inr u \<and>
        quantityToUnits (minimumQuantity policy) = Inr m \<and> (neg \<or> 0 \<le> u) \<and>
        (enf \<longrightarrow> roundUnits u (precision policy) (rounding policy) = 0 \<or>
                m \<le> \<bar>roundUnits u (precision policy) (rounding policy)\<bar>) \<and>
        t = quantityFromUnits (roundUnits u (precision policy) (rounding policy)))"
proof -
  have "(if r < 0 then - r else r) = \<bar>r\<bar>" for r :: int by simp
  then show ?thesis
    by (auto simp: normalizeProductQuantity_def bindE_Inr Let_def not_less)
qed

end
