(* ===== verification/PolicyTheorems.thy ===== *)
theory PolicyTheorems
  imports QuantityPolicy
begin

text \<open>
  The properties of quantity texts, of rounding and of the normalisation of quantities, and the
  round trip of every decimal codec of the modules that follow.
\<close>

text \<open>Quantity texts and units: printing units of fewer than sixteen digits and parsing the
  text gives them back; and whatever text is accepted has units in that range, so normal forms are
  accepted again and mean the same.\<close>

theorem quantityToUnits_round_trip:
  "(\<bar>u\<bar> < 10 ^ 15 \<longrightarrow> quantityToUnits (quantityFromUnits u) = Inr u) \<and>
   (quantityToUnits v = Inr w \<longrightarrow> \<bar>w\<bar> < 10 ^ 15 \<and> quantityToUnits (quantityFromUnits w) = Inr w)"
  using quantityToUnits_print quantityToUnits_bound by blast

theorem quantityToUnits_round_trip_witness:
  "quantityToUnits (quantityFromUnits (-1500)) = Inr (-1500) \<and>
   quantityToUnits ''12.5'' = Inr 12500 \<and> quantityToUnits (quantityFromUnits 12500) = Inr 12500"
proof -
  have "quantityToUnits ''12.5'' = Inr 12500" by code_simp
  then show ?thesis
    using quantityToUnits_round_trip [of "-1500" "''12.5''" 12500] by simp
qed

text \<open>C30: What a normalised quantity is: a multiple of the product's quantum, closer than one
  quantum to the requested quantity (half a quantum for \<open>HALF_UP\<close>, towards zero for \<open>DOWN\<close>,
  away from zero for \<open>UP\<close>), unchanged when the request already was a multiple, not negative
  unless negatives were allowed, and zero or at least the minimum when the minimum is enforced.\<close>

theorem normalizeProductQuantity_sound:
  assumes "normalizeProductQuantity v policy neg enf = Inr t"
  shows "\<exists>u r m. quantityToUnits v = Inr u \<and> t = quantityFromUnits r \<and> quantityToUnits (minimumQuantity policy) = Inr m \<and>
     quantum (precision policy) dvd r \<and> \<bar>r - u\<bar> < quantum (precision policy) \<and>
     (quantum (precision policy) dvd u \<longrightarrow> r = u) \<and>
     (rounding policy = ''HALF_UP'' \<longrightarrow> 2 * \<bar>r - u\<bar> \<le> quantum (precision policy)) \<and>
     (rounding policy = ''DOWN'' \<longrightarrow> \<bar>r\<bar> \<le> \<bar>u\<bar>) \<and> (rounding policy = ''UP'' \<longrightarrow> \<bar>u\<bar> \<le> \<bar>r\<bar>) \<and>
     (\<not> neg \<longrightarrow> 0 \<le> u \<and> 0 \<le> r) \<and> (enf \<and> r \<noteq> 0 \<longrightarrow> m \<le> \<bar>r\<bar>)"
proof -
  from assms obtain u m where N: "assertProductQuantityPolicy policy False = Inr ()" "quantityToUnits v = Inr u"
      "quantityToUnits (minimumQuantity policy) = Inr m" "neg \<or> 0 \<le> u"
      "enf \<longrightarrow> roundUnits u (precision policy) (rounding policy) = 0 \<or> m \<le> \<bar>roundUnits u (precision policy) (rounding policy)\<bar>"
      "t = quantityFromUnits (roundUnits u (precision policy) (rounding policy))"
    unfolding normalize_Inr by blast
  have p: "0 \<le> precision policy" "precision policy \<le> 3" using N(1) by (simp_all add: assert_policy_Inr)
  define q r rm where "q = quantum (precision policy)" and "r = roundUnits u (precision policy) (rounding policy)"
    and "rm = rounded_magnitude \<bar>u\<bar> q (rounding policy)"
  note R = rounded_magnitude_props [where mode = "rounding policy", OF quantum_pos [OF p] abs_ge_zero [of u], folded q_def, folded rm_def]
  have r: "q dvd r" "\<bar>r - u\<bar> = \<bar>rm - \<bar>u\<bar>\<bar>" "\<bar>r\<bar> = rm" "q dvd u \<Longrightarrow> r = u"
    using roundUnits_multiple [OF p] roundUnits_distance [OF p] roundUnits_abs [OF p] roundUnits_exact [OF p]
    by (simp_all add: q_def r_def rm_def)
  have "0 \<le> u \<Longrightarrow> 0 \<le> r" using R(1) by (simp add: r_def roundUnits_magnitude rm_def q_def)
  then have "quantityToUnits v = Inr u \<and> t = quantityFromUnits r \<and> quantityToUnits (minimumQuantity policy) = Inr m \<and>
     q dvd r \<and> \<bar>r - u\<bar> < q \<and> (q dvd u \<longrightarrow> r = u) \<and> (rounding policy = ''HALF_UP'' \<longrightarrow> 2 * \<bar>r - u\<bar> \<le> q) \<and>
     (rounding policy = ''DOWN'' \<longrightarrow> \<bar>r\<bar> \<le> \<bar>u\<bar>) \<and> (rounding policy = ''UP'' \<longrightarrow> \<bar>u\<bar> \<le> \<bar>r\<bar>) \<and>
     (\<not> neg \<longrightarrow> 0 \<le> u \<and> 0 \<le> r) \<and> (enf \<and> r \<noteq> 0 \<longrightarrow> m \<le> \<bar>r\<bar>)"
    using N(2-6) [folded r_def] R(3,5-7) r(1,4) unfolding r(2,3) by (intro conjI impI; blast)
  then show ?thesis unfolding q_def by blast
qed

theorem normalizeProductQuantity_sound_witness:
  "\<exists>r. normalizeProductQuantity ''-2.4'' \<lparr>baseUnit = ''UNIT'', precision = 0, rounding = ''HALF_UP'', minimumQuantity = ''1.000''\<rparr>
        True True = Inr (quantityFromUnits r) \<and> 1000 dvd r \<and> 2 * \<bar>r + 2400\<bar> \<le> 1000"
proof -
  let ?p = "\<lparr>baseUnit = ''UNIT'', precision = 0, rounding = ''HALF_UP'', minimumQuantity = ''1.000''\<rparr>"
  have run: "normalizeProductQuantity ''-2.4'' ?p True True = Inr ''-2.000''" by code_simp
  have u: "quantityToUnits ''-2.4'' = Inr (-2400)" by code_simp
  show ?thesis
    using normalizeProductQuantity_sound [OF run] by (auto simp: run u quantum_def)
qed

text \<open>Normalising is idempotent: a normalised quantity that the parser accepts is already in
  normal form, so normalising it again returns the same text.\<close>

theorem normalizeProductQuantity_idempotent:
  assumes run: "normalizeProductQuantity v policy neg enf = Inr t" and accepted: "quantityToUnits t = Inr r"
  shows "normalizeProductQuantity t policy neg enf = Inr t"
proof -
  from run obtain u m where N: "assertProductQuantityPolicy policy False = Inr ()"
      "quantityToUnits (minimumQuantity policy) = Inr m" "neg \<or> 0 \<le> u"
      "enf \<longrightarrow> roundUnits u (precision policy) (rounding policy) = 0 \<or> m \<le> \<bar>roundUnits u (precision policy) (rounding policy)\<bar>"
      "t = quantityFromUnits (roundUnits u (precision policy) (rounding policy))"
    unfolding normalize_Inr by blast
  have p: "0 \<le> precision policy" "precision policy \<le> 3" using N(1) by (simp_all add: assert_policy_Inr)
  define r' where "r' = roundUnits u (precision policy) (rounding policy)"
  have "r' = r" using accepted N(5) quantityToUnits_of_print [of r' r] by (simp add: r'_def)
  moreover have "0 \<le> u \<Longrightarrow> 0 \<le> r'"
    using rounded_magnitude_props(1) [where mode = "rounding policy", OF quantum_pos [OF p] abs_ge_zero [of u]] by (simp add: r'_def roundUnits_magnitude)
  ultimately show ?thesis
    unfolding normalize_Inr using N accepted roundUnits_idempotent [OF p, of u "rounding policy" "rounding policy"]
    by (intro exI [of _ r] exI [of _ m]) (auto simp: r'_def [symmetric])
qed

theorem normalizeProductQuantity_idempotent_witness:
  "normalizeProductQuantity ''-2.000'' \<lparr>baseUnit = ''UNIT'', precision = 0, rounding = ''HALF_UP'', minimumQuantity = ''1.000''\<rparr>
     True True = Inr ''-2.000''"
proof -
  let ?p = "\<lparr>baseUnit = ''UNIT'', precision = 0, rounding = ''HALF_UP'', minimumQuantity = ''1.000''\<rparr>"
  have run: "normalizeProductQuantity ''-2.4'' ?p True True = Inr ''-2.000''" by code_simp
  have "quantityToUnits ''-2.000'' = Inr (-2000)" by code_simp
  with run show ?thesis by (rule normalizeProductQuantity_idempotent)
qed

text \<open>Every module converts without loss: parsing what a module prints gives the units back,
  for the valuation, FIFO, lot and stock modules on all integers, and for the unsigned modules
  (transfers, reservations, loyalty, promotions) on the non-negative ones they handle.\<close>

theorem codecs_round_trip:
  "toScaled (fromScaled u 3) 3 = Some u \<and> toScaled (fromScaled u 4) 4 = Some u \<and>
   fifo_quantityUnits (fifo_quantityDecimal u) = Some u \<and> fifo_costUnits (fifo_costDecimal u) = Some u \<and>
   lot_units (lot_decimal u) = Some u \<and> stock_toUnits (stock_fromUnits u) = Some u \<and>
   (0 \<le> u \<longrightarrow> transfer_toUnits (stock_fromUnits u) = Some u \<and> reservation_units (reservation_decimal u) = Some u \<and>
     loyalty_toMoney (loyalty_fromMoney u) = Some u \<and> promotion_quantity (promotion_qty u) = Some u \<and>
     promotion_moneyUnits (promotion_money u) = Some u)"
  using valuation_quantity.parse_print valuation_money.parse_print fifo_quantity.parse_print fifo_cost.parse_print
    lot_quantity.parse_print stock_quantity.parse_print transfer_quantity.parse_print reservation_quantity.parse_print
    loyalty_amount.parse_print promotion_units.parse_print promotion_amount.parse_print
  by (simp add: nonneg_def)

theorem codecs_round_trip_witness:
  "transfer_toUnits (stock_fromUnits 1250) = Some 1250 \<and> loyalty_toMoney (loyalty_fromMoney 1250) = Some 1250"
  using codecs_round_trip [of 1250] by simp

end
