(* ===== verification/Schema.thy ===== *)
theory Schema
  imports QuantityPolicy "HOL-Library.Char_ord" "HOL-Library.List_Lexorder"
begin

text \<open>
  The inventory tables of the database, as the migrations under \<open>src/database/migrations/\<close>
  create them, with the constraints that the handlers rely on, and the single-table reads and
  writes that the handlers share.

  A row is a record; a table is the list of its rows. Ids are numbers. A \<open>DECIMAL(p,3)\<close>
  quantity is the integer of its thousandths, a \<open>DECIMAL(p,4)\<close> cost or value the integer of
  its ten-thousandths, the catalog cost \<open>DECIMAL(p,2)\<close> the integer of its cents
  (theory \<open>Codecs\<close> shows that the conversions on either side lose nothing); a
  \<open>DATETIME(6)\<close> is a number of microseconds, a \<open>DATE\<close> its ISO text. The widths of the
  columns are not modelled: integers are unbounded.

  \<open>randomUUID()\<close> and \<open>CURRENT_TIMESTAMP(6)\<close> come from the environment part of the state:
  the \<open>n\<close>-th row created gets the id \<open>env_uuid n\<close> and the time \<open>env_clock n\<close>, where the two
  functions are arbitrary (uniqueness of the ids is \<open>inj env_uuid\<close>, a hypothesis where it is
  used).
\<close>

section \<open>Enumerations\<close>

datatype movement_type =
    INITIAL | ENTRY | EXIT | RETURN | LOSS | DAMAGE | ADJUSTMENT | STATE_TRANSITION
  | SALE | SALE_VOID | SALE_RETURN | TRANSFER_OUT | TRANSFER_IN | TRANSFER_RECEIPT
  | TRANSFER_DISCREPANCY | IMPORT | PURCHASE_RECEIPT | SUPPLIER_RETURN

datatype stock_state = AVAILABLE | RESERVED | DAMAGED | IN_TRANSIT

datatype valuation_method = MOVING_AVERAGE | FIFO | SPECIFIC_LOT

datatype layer_origin = MigrationCut | OriginEntry | OriginPurchaseReceipt | OriginReturn | OriginTransfer

datatype allocation_mode = ModeEntry | ModeFifo | ModeRestore | ModeTransfer | ModeOriginReturn

datatype lot_mode = LotOrigin | LotManual | LotAutomatic | LotRestore | LotTransfer

datatype lot_expiration_policy = LotNone | LotOptional | LotRequired

datatype serial_status =
    SerialAvailable | SerialReserved | SerialDamaged | SerialInTransit | SerialSold
  | SerialReturnedToSupplier | SerialRemoved

datatype transfer_status = TransferDraft | TransferDispatched | TransferPartiallyReceived | TransferReceived | TransferCancelled

datatype reservation_status = ReservationActive | ReservationReleased | ReservationExpired | ReservationConsumed

datatype finding_severity = FindingWarning | FindingCritical

datatype finding_scope = ScopeTenant | ScopeProduct | ScopeLocation | ScopeLot | ScopeSerial | ScopeValuation

datatype finding_code =
    BALANCE_MOVEMENT_MISMATCH | BALANCE_STATE_MISMATCH | VALUATION_QUANTITY_MISMATCH
  | VALUATION_VALUE_MISMATCH | FIFO_LAYER_MISMATCH | LOT_BALANCE_MISMATCH | LOT_LEDGER_MISMATCH
  | SERIAL_STATE_MISMATCH | SERIAL_CUSTODY_INVALID | SERIAL_HISTORY_MISMATCH

datatype reconciliation_status = Healthy | Warning | Critical

datatype item_condition = SELLABLE | DAMAGED_ITEM

text \<open>The errors that the handlers throw; \<open>Failure\<close> is \<open>new Error(...)\<close>, and the last two
  are what the database answers to a write that breaks a unique key (\<open>ER_DUP_ENTRY\<close>) or a
  \<open>CHECK\<close>.\<close>

datatype inv_error =
    Failure string
  | InventoryTargetNotFoundError
  | InitialStockAlreadyExistsError
  | InsufficientStockError
  | IdempotencyConflictError
  | MovementReferenceRequiredError
  | InvalidStockStateTransitionError
  | InsufficientStockStateError
  | InventoryCountConflictError int
  | InvalidInventoryLotCodeError
  | InventoryLotRequiredError
  | InventoryLotNotFoundError
  | InsufficientInventoryLotStockError
  | InventoryLotCurrencyMismatchError
  | InvalidInventoryLotDatesError
  | InventoryLotExpirationRequiredError
  | ExpiredInventoryLotError
  | InventoryFifoLayerShortageError
  | InventoryFifoCurrencyMismatchError
  | InventoryReconciliationBlocked nat
  | InventorySerialRequiredError
  | InventorySerialQuantityError
  | InventorySerialDuplicateError
  | InventorySerialNotFoundError
  | InventorySerialStateConflictError
  | QuantityRejected quantity_error
  | DuplicateInventoryTransferLineError
  | InvalidInventoryTransferTargetError
  | InventoryTransferIdempotencyConflictError
  | InventoryTransferInsufficientStockError
  | InventoryTransferNotFoundError
  | InventoryTransferStatusConflictError
  | InvalidInventoryTransferReceiptError
  | InventoryTransferDiscrepancyReasonRequiredError
  | InventoryTransferReceiptExceedsPendingError
  | ProductReservationIdempotencyConflictError
  | ProductReservationInsufficientStockError nat
  | ProductReservationNotActiveError reservation_status
  | ProductReservationTargetNotFoundError
  | DuplicateReservationProduct
  | InventoryValuationPolicyNotFound
  | InventoryReconciliationNotFound
  | InvalidIdempotencyKey
  | DuplicateEntry
  | CheckViolated

section \<open>Rows\<close>

type_synonym id = nat

record tenant_row =
  tn_id :: id
  tn_country :: string

record product_row =
  pr_id :: id
  pr_tenant :: id
  pr_active :: bool
  pr_has_variants :: bool
  pr_cost :: int
  pr_version :: nat
  pr_track_lots :: bool
  pr_lot_policy :: lot_expiration_policy
  pr_track_serials :: bool
  pr_policy :: product_quantity_policy
  pr_name :: string
  pr_sku :: string
  pr_without_code :: bool
  pr_untracked :: bool
  pr_exempt :: bool
  pr_price :: int
  pr_allow_expired :: bool

record branch_row =
  br_id :: id
  br_tenant :: id
  br_active :: bool
  br_timezone :: string
  br_name :: string

record warehouse_row =
  wh_id :: id
  wh_tenant :: id
  wh_branch :: id
  wh_active :: bool
  wh_name :: string

record location_row =
  lo_id :: id
  lo_tenant :: id
  lo_warehouse :: id
  lo_active :: bool

record movement_row =
  mv_id :: id
  mv_tenant :: id
  mv_product :: id
  mv_location :: id
  mv_type :: movement_type
  mv_quantity :: int
  mv_resulting :: int
  mv_from :: "stock_state option"
  mv_to :: "stock_state option"
  mv_state_quantity :: "int option"
  mv_reason :: string
  mv_reference :: "string option"
  mv_key :: string
  mv_fingerprint :: string
  mv_user :: id
  mv_created_at :: nat
  mv_receipt_line :: "id option"
  mv_return_line :: "id option"
  mv_sale :: "id option"
  mv_sale_line :: "id option"
  mv_sale_return_line :: "id option"
  mv_source_movement :: "id option"
  mv_transfer :: "id option"
  mv_transfer_line :: "id option"
  mv_reservation :: "id option"
  mv_reservation_line :: "id option"
  mv_unit_cost :: "int option"
  mv_value_change :: "int option"
  mv_inventory_value :: "int option"
  mv_average_cost :: "int option"
  mv_fifo_unit_cost :: "int option"
  mv_fifo_value_change :: "int option"
  mv_fifo_inventory_value :: "int option"
  mv_method :: "valuation_method option"
  mv_policy_version :: "nat option"
  mv_effective_at :: "nat option"

record balance_row =
  ba_tenant :: id
  ba_product :: id
  ba_location :: id
  ba_quantity :: int
  ba_available :: int
  ba_reserved :: int
  ba_damaged :: int
  ba_in_transit :: int

record valuation_row =
  va_tenant :: id
  va_product :: id
  va_quantity :: int
  va_value :: int
  va_average :: int
  va_version :: nat

record policy_row =
  po_tenant :: id
  po_method :: valuation_method
  po_version :: nat
  po_effective_at :: nat

record guard_row =
  gu_tenant :: id
  gu_latest_run :: id
  gu_blocked :: bool

record fifo_layer =
  fl_id :: id
  fl_tenant :: id
  fl_product :: id
  fl_location :: id
  fl_source_movement :: "id option"
  fl_source_layer :: "id option"
  fl_receipt_line :: "id option"
  fl_origin :: layer_origin
  fl_original :: int
  fl_remaining :: int
  fl_unit_cost :: int
  fl_currency :: string
  fl_acquired_at :: nat
  fl_version :: nat
  fl_created_at :: nat

record fifo_alloc =
  fa_id :: id
  fa_tenant :: id
  fa_movement :: id
  fa_layer :: id
  fa_source :: "id option"
  fa_quantity :: int
  fa_unit_cost :: int
  fa_currency :: string
  fa_value :: int
  fa_mode :: allocation_mode
  fa_created_at :: nat

record lot_row =
  lt_id :: id
  lt_tenant :: id
  lt_product :: id
  lt_code :: string
  lt_normalized :: string
  lt_manufactured :: "string option"
  lt_expires :: "string option"
  lt_unit_cost :: int
  lt_currency :: string
  lt_user :: id
  lt_created_at :: nat

record lot_balance =
  lb_tenant :: id
  lb_lot :: id
  lb_location :: id
  lb_quantity :: int

record movement_lot =
  ml_id :: id
  ml_tenant :: id
  ml_movement :: id
  ml_lot :: id
  ml_location :: id
  ml_quantity :: int
  ml_unit_cost :: int
  ml_currency :: string
  ml_value :: int
  ml_mode :: lot_mode
  ml_created_at :: nat

record lot_origin_row =
  lg_tenant :: id
  lg_lot :: id
  lg_receipt_line :: id
  lg_quantity :: int
  lg_unit_cost :: int
  lg_currency :: string

record serial_row =
  sr_id :: id
  sr_tenant :: id
  sr_product :: id
  sr_number :: string
  sr_normalized :: string
  sr_status :: serial_status
  sr_location :: "id option"

record serial_event =
  se_id :: id
  se_tenant :: id
  se_serial :: id
  se_movement :: id
  se_from :: "serial_status option"
  se_to :: serial_status
  se_from_location :: "id option"
  se_to_location :: "id option"
  se_created_at :: nat

record purchase_order_row =
  pu_id :: id
  pu_tenant :: id
  pu_currency :: string

record purchase_receipt_row =
  pc_id :: id
  pc_tenant :: id
  pc_order :: id

record receipt_line_row =
  rl_id :: id
  rl_tenant :: id
  rl_receipt :: id
  rl_unit_cost :: int
  rl_lot_code :: "string option"
  rl_manufactured :: "string option"
  rl_expires :: "string option"
  rl_lot :: "id option"

record return_line_row =
  tl_id :: id
  tl_tenant :: id
  tl_receipt_line :: id
  tl_lot :: "id option"

record sale_return_line_row =
  sl_id :: id
  sl_tenant :: id
  sl_condition :: item_condition

record count_row =
  co_id :: id
  co_tenant :: id
  co_product :: id
  co_location :: id
  co_snapshot :: int
  co_counted :: int
  co_variance :: int
  co_reason :: string
  co_reference :: string
  co_captured_at :: string
  co_user :: id
  co_movement :: "id option"
  co_key :: string
  co_fingerprint :: string

record transfer_row =
  tf_id :: id
  tf_tenant :: id
  tf_origin :: id
  tf_destination :: id
  tf_status :: transfer_status
  tf_reference :: string
  tf_reason :: string
  tf_key :: string
  tf_fingerprint :: string
  tf_dispatch_key :: "string option"
  tf_user :: id

record transfer_line_row =
  tr_id :: id
  tr_tenant :: id
  tr_transfer :: id
  tr_number :: nat
  tr_product :: id
  tr_source :: id
  tr_destination :: id
  tr_quantity :: int
  tr_serials :: "string list"
  tr_received :: int
  tr_discrepancy :: int

record transfer_receipt_row =
  tc_id :: id
  tc_tenant :: id
  tc_transfer :: id
  tc_reason :: "string option"
  tc_key :: string
  tc_fingerprint :: string
  tc_user :: id
  tc_created_at :: nat

record transfer_receipt_line_row =
  te_id :: id
  te_tenant :: id
  te_receipt :: id
  te_line :: id
  te_number :: nat
  te_received :: int
  te_discrepancy :: int

record customer_row =
  cu_id :: id
  cu_tenant :: id
  cu_active :: bool
  cu_name :: string
  cu_privacy_active :: bool

record reservation_row =
  rv_id :: id
  rv_tenant :: id
  rv_branch :: id
  rv_warehouse :: id
  rv_location :: id
  rv_customer :: id
  rv_number :: string
  rv_status :: reservation_status
  rv_expires_at :: int
  rv_user :: id
  rv_key :: string
  rv_fingerprint :: string
  rv_created_at :: nat
  rv_closed_by :: "id option"
  rv_closed_at :: "nat option"
  rv_closed_key :: "string option"
  rv_closed_fingerprint :: "string option"
  rv_closure_reason :: "string option"
  rv_sale :: "id option"

record reservation_line_row =
  rn_id :: id
  rn_tenant :: id
  rn_reservation :: id
  rn_number :: nat
  rn_product :: id
  rn_quantity :: int
  rn_serials :: "string list"

text \<open>A finding of a reconciliation: its values are in thousandths where they are quantities and in
  ten-thousandths where they are money.\<close>

record finding =
  fi_code :: finding_code
  fi_severity :: finding_severity
  fi_scope :: finding_scope
  fi_product :: "id option"
  fi_location :: "id option"
  fi_subject :: "string option"
  fi_expected :: "int option"
  fi_actual :: "int option"
  fi_difference :: "int option"
  fi_blocks :: bool

record reconciliation_run =
  rr_id :: id
  rr_tenant :: id
  rr_key :: string
  rr_completed :: bool
  rr_overall :: reconciliation_status
  rr_findings :: nat
  rr_warnings :: nat
  rr_critical :: nat
  rr_blocked :: bool
  rr_user :: id
  rr_started_at :: nat

record finding_row =
  fn_id :: id
  fn_tenant :: id
  fn_run :: id
  fn_finding :: finding

record inv_db =
  env_uuid :: "nat \<Rightarrow> id"
  env_clock :: "nat \<Rightarrow> nat"
  env_local_date :: "string \<Rightarrow> nat \<Rightarrow> string"
  ticks :: nat
  tenants :: "tenant_row list"
  products :: "product_row list"
  branches :: "branch_row list"
  warehouses :: "warehouse_row list"
  locations :: "location_row list"
  movements :: "movement_row list"
  balances :: "balance_row list"
  valuations :: "valuation_row list"
  policies :: "policy_row list"
  guards :: "guard_row list"
  cutovers :: "(id \<times> nat) list"
  layers :: "fifo_layer list"
  allocs :: "fifo_alloc list"
  lots :: "lot_row list"
  lot_balances :: "lot_balance list"
  movement_lots :: "movement_lot list"
  lot_origins :: "lot_origin_row list"
  serials :: "serial_row list"
  serial_events :: "serial_event list"
  purchase_orders :: "purchase_order_row list"
  purchase_receipts :: "purchase_receipt_row list"
  receipt_lines :: "receipt_line_row list"
  return_lines :: "return_line_row list"
  sale_return_lines :: "sale_return_line_row list"
  counts :: "count_row list"
  admin_users :: "(id \<times> id) list"
  branch_access :: "(id \<times> id \<times> id) list"
  transfers :: "transfer_row list"
  transfer_lines :: "transfer_line_row list"
  transfer_receipts :: "transfer_receipt_row list"
  transfer_receipt_lines :: "transfer_receipt_line_row list"
  customers :: "customer_row list"
  reservations :: "reservation_row list"
  reservation_lines :: "reservation_line_row list"
  recon_runs :: "reconciliation_run list"
  recon_findings :: "finding_row list"

type_synonym 'a act = "(inv_db, inv_error, 'a) action"

section \<open>Constraints\<close>

text \<open>\<open>ck_inventory_balances_nonnegative\<close>, \<open>ck_inventory_balance_states_nonnegative\<close> and
  \<open>ck_inventory_balance_states_reconcile\<close>\<close>

definition balance_check :: "balance_row \<Rightarrow> bool" where
  "balance_check b \<longleftrightarrow> 0 \<le> ba_quantity b \<and>
     0 \<le> ba_available b \<and> 0 \<le> ba_reserved b \<and> 0 \<le> ba_damaged b \<and> 0 \<le> ba_in_transit b \<and>
     ba_quantity b = ba_available b + ba_reserved b + ba_damaged b + ba_in_transit b"

text \<open>\<open>ck_inventory_movements_quantity_kind\<close> and \<open>ck_inventory_movements_result_nonnegative\<close>\<close>

definition movement_check :: "movement_row \<Rightarrow> bool" where
  "movement_check m \<longleftrightarrow> 0 \<le> mv_resulting m \<and>
     (if mv_type m \<in> {STATE_TRANSITION, TRANSFER_RECEIPT}
      then mv_quantity m = 0 \<and> (case mv_state_quantity m of None \<Rightarrow> False | Some q \<Rightarrow> 0 < q) \<and>
           mv_from m \<noteq> None \<and> mv_to m \<noteq> None \<and> mv_from m \<noteq> mv_to m
      else if mv_type m = SALE_RETURN
      then 0 < mv_quantity m \<and> mv_from m = None \<and> mv_to m \<in> {Some AVAILABLE, Some DAMAGED} \<and>
           mv_state_quantity m = Some (mv_quantity m)
      else mv_quantity m \<noteq> 0 \<and> mv_from m = None \<and> mv_to m = None \<and> mv_state_quantity m = None)"

text \<open>\<open>ck_inventory_fifo_layers_original_quantity\<close>, \<open>..._remaining_quantity\<close>, \<open>..._cost\<close>\<close>

definition layer_check :: "fifo_layer \<Rightarrow> bool" where
  "layer_check l \<longleftrightarrow> 0 < fl_original l \<and> 0 \<le> fl_remaining l \<and> fl_remaining l \<le> fl_original l \<and> 0 \<le> fl_unit_cost l"

text \<open>\<open>ck_inventory_movement_fifo_layers_quantity\<close>, \<open>..._cost\<close>\<close>

definition alloc_check :: "fifo_alloc \<Rightarrow> bool" where
  "alloc_check a \<longleftrightarrow> fa_quantity a \<noteq> 0 \<and> 0 \<le> fa_unit_cost a"

text \<open>\<open>ck_inventory_valuations_quantity\<close>, \<open>..._value\<close>, \<open>..._cost\<close>\<close>

definition valuation_check :: "valuation_row \<Rightarrow> bool" where
  "valuation_check v \<longleftrightarrow> 0 \<le> va_quantity v \<and> 0 \<le> va_value v \<and> 0 \<le> va_average v"

section \<open>Shared reads and writes\<close>

text \<open>A fresh row: the next id and the time of its creation.\<close>

definition newRow :: "(id \<times> nat) act" where
  "newRow = (\<lambda>db. Inr ((env_uuid db (ticks db), env_clock db (ticks db)), db\<lparr>ticks := Suc (ticks db)\<rparr>))"

definition nowM :: "nat act" where
  "nowM = readM (\<lambda>db. env_clock db (ticks db))"

text \<open>\<open>SELECT ... FROM inventory_movements WHERE id = ?\<close>\<close>

definition selectMovement :: "id \<Rightarrow> inv_db \<Rightarrow> movement_row option" where
  "selectMovement i db = List.find (\<lambda>m. mv_id m = i) (movements db)"

definition selectProduct :: "id \<Rightarrow> id \<Rightarrow> inv_db \<Rightarrow> product_row option" where
  "selectProduct t p db = List.find (\<lambda>r. pr_id r = p \<and> pr_tenant r = t) (products db)"

definition selectValuation :: "id \<Rightarrow> id \<Rightarrow> inv_db \<Rightarrow> valuation_row option" where
  "selectValuation t p db = List.find (\<lambda>v. va_tenant v = t \<and> va_product v = p) (valuations db)"

definition selectReceiptLine :: "id \<Rightarrow> id option \<Rightarrow> inv_db \<Rightarrow> receipt_line_row option" where
  "selectReceiptLine t rl db = List.find (\<lambda>r. Some (rl_id r) = rl \<and> rl_tenant r = t) (receipt_lines db)"

text \<open>The join of a receipt line with its receipt and its purchase order, for the currency.\<close>

definition receiptLineCurrency :: "receipt_line_row \<Rightarrow> inv_db \<Rightarrow> string option" where
  "receiptLineCurrency r db =
     (case List.find (\<lambda>c. pc_id c = rl_receipt r \<and> pc_tenant c = rl_tenant r) (purchase_receipts db) of
        None \<Rightarrow> None
      | Some c \<Rightarrow> map_option pu_currency
          (List.find (\<lambda>po. pu_id po = pc_order c \<and> pu_tenant po = pc_tenant c) (purchase_orders db)))"

definition updateMovement :: "id \<Rightarrow> id \<Rightarrow> (movement_row \<Rightarrow> movement_row) \<Rightarrow> unit act" where
  "updateMovement t i u =
     writeM (\<lambda>db. db\<lparr>movements := update_where (\<lambda>m. mv_id m = i \<and> mv_tenant m = t) u (movements db)\<rparr>)"

text \<open>\<open>INSERT INTO inventory_movements\<close>: the primary key, unique \<open>(tenant_id, idempotency_key)\<close>, and
  the \<open>CHECK\<close>s.\<close>

definition insertMovement :: "movement_row \<Rightarrow> unit act" where
  "insertMovement m =
     bindM (readM movements) (\<lambda>rows.
     thenM (ensureM DuplicateEntry (\<forall>r\<in>set rows. mv_id r \<noteq> mv_id m \<and> \<not> (mv_tenant r = mv_tenant m \<and> mv_key r = mv_key m)))
     (thenM (ensureM CheckViolated (movement_check m))
       (writeM (\<lambda>db. db\<lparr>movements := movements db @ [m]\<rparr>))))"

text \<open>\<open>divideRounded\<close>, the same in every valuation module (with its own error text): divide
  magnitudes, round halves away from zero.\<close>

definition divideRounded :: "string \<Rightarrow> int \<Rightarrow> int \<Rightarrow> inv_error + int" where
  "divideRounded err numerator denominator =
     (if denominator \<le> 0 then Inl (Failure err)
      else let negative = numerator < 0;
               absolute = (if negative then - numerator else numerator);
               quotient = absolute div denominator;
               remainder = absolute mod denominator;
               rounded = (if denominator \<le> remainder * 2 then quotient + 1 else quotient)
           in Inr (if negative then - rounded else rounded))"

text \<open>Its value for a positive divisor. It is also what MySQL does when a product with more
  decimals is stored in a \<open>DECIMAL(p,4)\<close> column.\<close>

definition round_div :: "int \<Rightarrow> int \<Rightarrow> int" where
  "round_div n d = (if n < 0 then - ((2 * \<bar>n\<bar> + d) div (2 * d)) else (2 * n + d) div (2 * d))"

text \<open>\<open>quantityTimesCost\<close> and \<open>quantityValue\<close>: thousandths times ten-thousandths, back to
  ten-thousandths.\<close>

definition quantityValue :: "int \<Rightarrow> int \<Rightarrow> int" where
  "quantityValue quantity unitCost = round_div (quantity * unitCost) 1000"

section \<open>Facts\<close>

lemma round_div_magnitude:
  fixes a d :: int
  assumes "0 < d" "0 \<le> a"
  shows "(2 * a + d) div (2 * d) = (if d \<le> a mod d * 2 then a div d + 1 else a div d)"
proof -
  define q r where "q = a div d" and "r = a mod d"
  have a: "a = q * d + r" by (simp add: q_def r_def)
  have r: "0 \<le> r" "r < d" using assms by (simp_all add: r_def)
  have "(2 * a + d) div (2 * d) = (if d \<le> r * 2 then q + 1 else q)"
  proof (cases "d \<le> r * 2")
    case True
    have eq: "2 * a + d = (2 * r - d) + (q + 1) * (2 * d)" using a by (simp add: algebra_simps)
    have "0 \<le> 2 * r - d" "2 * r - d < 2 * d" using True r by auto
    then have "(2 * r - d) div (2 * d) = 0" by (rule div_pos_pos_trivial)
    moreover have "(2 * a + d) div (2 * d) = (q + 1) + (2 * r - d) div (2 * d)"
      unfolding eq by (rule div_mult_self1) (use assms in simp)
    ultimately show ?thesis using True by simp
  next
    case False
    have eq: "2 * a + d = (2 * r + d) + q * (2 * d)" using a by (simp add: algebra_simps)
    have "0 \<le> 2 * r + d" "2 * r + d < 2 * d" using False r assms by auto
    then have "(2 * r + d) div (2 * d) = 0" by (rule div_pos_pos_trivial)
    moreover have "(2 * a + d) div (2 * d) = q + (2 * r + d) div (2 * d)"
      unfolding eq by (rule div_mult_self1) (use assms in simp)
    ultimately show ?thesis using False by simp
  qed
  then show ?thesis by (simp add: q_def r_def)
qed

lemma divideRounded_pos: "0 < d \<Longrightarrow> divideRounded err n d = Inr (round_div n d)"
  using round_div_magnitude [of d "\<bar>n\<bar>"]
  by (cases "n < 0") (auto simp: divideRounded_def round_div_def Let_def)

lemma round_div_nonneg: "0 < d \<Longrightarrow> 0 \<le> n \<Longrightarrow> 0 \<le> round_div n d"
  by (simp add: round_div_def pos_imp_zdiv_nonneg_iff)

lemma round_div_minus: "round_div (- n) d = - round_div n d" if "0 < d"
  using that by (cases "n = 0") (auto simp: round_div_def)

lemma round_div_zero [simp]: "0 < d \<Longrightarrow> round_div 0 d = 0"
  by (simp add: round_div_def)

text \<open>The rounding error is at most one half.\<close>

lemma round_div_error_nonneg: "0 < d \<Longrightarrow> 0 \<le> n \<Longrightarrow> 2 * \<bar>round_div n d * d - n\<bar> \<le> d"
proof -
  assume d: "0 < d" "0 \<le> n"
  have n: "n = n div d * d + n mod d" by simp
  have r: "0 \<le> n mod d" "n mod d < d" using d by simp_all
  have "round_div n d = (if d \<le> n mod d * 2 then n div d + 1 else n div d)"
    using round_div_magnitude [OF d] d by (simp add: round_div_def)
  moreover have "(n div d + 1) * d - n = d - n mod d" "n div d * d - n = - (n mod d)"
    using n by (simp_all add: algebra_simps)
  ultimately show ?thesis using r by auto
qed

lemma round_div_error:
  assumes "0 < d"
  shows "2 * \<bar>round_div n d * d - n\<bar> \<le> d"
proof (cases "0 \<le> n")
  case True
  with assms show ?thesis by (rule round_div_error_nonneg)
next
  case False
  then have "2 * \<bar>round_div (- n) d * d - (- n)\<bar> \<le> d"
    using assms by (intro round_div_error_nonneg) simp_all
  moreover have "round_div (- n) d * d - (- n) = - (round_div n d * d - n)"
    by (simp add: round_div_minus [OF assms])
  ultimately show ?thesis by (simp only: abs_minus_cancel)
qed

lemma round_div_mono: "0 < d \<Longrightarrow> 0 \<le> m \<Longrightarrow> m \<le> n \<Longrightarrow> round_div m d \<le> round_div n d"
  by (simp add: round_div_def zdiv_mono1)

lemma round_div_exact: "0 < d \<Longrightarrow> round_div (k * d) d = k"
proof -
  assume d: "0 < d"
  have "0 \<le> k \<Longrightarrow> round_div (k * d) d = k" for k
  proof -
    assume "0 \<le> k"
    then have nn: "0 \<le> k * d" using d by simp
    then have "round_div (k * d) d = (2 * (k * d) + d) div (2 * d)"
      unfolding round_div_def by (simp only: not_less [symmetric] if_False)
    also have "\<dots> = k" using round_div_magnitude [OF d nn] d by simp
    finally show ?thesis .
  qed
  from this [of k] this [of "- k"] show ?thesis
    using round_div_minus [OF d, of "k * d"] by (cases "0 \<le> k") simp_all
qed

lemma newRow_Inr [simp]:
  "newRow db = Inr (r, db') \<longleftrightarrow>
     r = (env_uuid db (ticks db), env_clock db (ticks db)) \<and> db' = db\<lparr>ticks := Suc (ticks db)\<rparr>"
  by (auto simp: newRow_def)

lemma newRow_not_Inl [simp]: "newRow db \<noteq> Inl e"
  by (simp add: newRow_def)

lemma nowM_Inr [simp]: "nowM db = Inr (r, db') \<longleftrightarrow> r = env_clock db (ticks db) \<and> db' = db"
  by (auto simp: nowM_def)

lemma insertMovement_Inr:
  "insertMovement m db = Inr (u, db') \<longleftrightarrow>
     (\<forall>r\<in>set (movements db). \<not> (mv_tenant r = mv_tenant m \<and> mv_key r = mv_key m)) \<and>
     mv_id m \<notin> mv_id ` set (movements db) \<and> movement_check m \<and> db' = db\<lparr>movements := movements db @ [m]\<rparr>"
  by (auto simp: insertMovement_def runM) (metis imageI)

lemma keeps_newRow: "(\<And>db n. f (db\<lparr>ticks := n\<rparr>) = f db) \<Longrightarrow> keeps f newRow"
  by (simp add: keeps_def)

lemma keeps_nowM [keeps_intros]: "keeps f nowM"
  by (simp add: keeps_def)

lemma keeps_updateMovement: "(\<And>db ms. f (db\<lparr>movements := ms\<rparr>) = f db) \<Longrightarrow> keeps f (updateMovement t i u)"
  by (simp add: keeps_def updateMovement_def)

lemma keeps_insertMovement: "(\<And>db ms. f (db\<lparr>movements := ms\<rparr>) = f db) \<Longrightarrow> keeps f (insertMovement m)"
  by (simp add: keeps_def insertMovement_Inr)

lemma updateMovement_Inr [simp]:
  "updateMovement t i u db = Inr (x, db') \<longleftrightarrow>
     db' = db\<lparr>movements := update_where (\<lambda>m. mv_id m = i \<and> mv_tenant m = t) u (movements db)\<rparr>"
  by (auto simp: updateMovement_def)

end
