(* ===== verification/Consumption.thy ===== *)
theory Consumption
  imports Prelude
begin

text \<open>
  The greedy consumption loop. Three components draw a requested amount from an ordered list of
  rows, each row giving at most what it has: FIFO cost layers, lot balances, and loyalty credits.
  The source writes the same loop each time:
  \<^verbatim>\<open>
    for (const row of rows) {
      if (remaining === 0n) break;
      const consumed = available < remaining ? available : remaining;
      if (consumed === 0n) continue;
      ... write the consumption of this row ...
      remaining -= consumed;
    }
  \<close>
  \<open>consume_loop\<close> is that loop over an abstract body; \<open>plan\<close> is what it takes from each
  row. The locales state what a body promises (its effect on the stock it draws from, on the
  other rows, and the value it reports) and give what the loop then does.
\<close>

fun consume_loop ::
  "('r \<Rightarrow> int) \<Rightarrow> ('r \<Rightarrow> int \<Rightarrow> ('s, 'e, int) action) \<Rightarrow> 'r list \<Rightarrow> int \<Rightarrow> int \<Rightarrow> ('s, 'e, int \<times> int) action"
where
  "consume_loop avail body [] remaining tot = returnM (remaining, tot)"
| "consume_loop avail body (r # rs) remaining tot =
     (if remaining = 0 then returnM (remaining, tot)
      else let available = avail r;
               consumed = (if available < remaining then available else remaining)
           in if consumed = 0 then consume_loop avail body rs remaining tot
              else bindM (body r consumed) (\<lambda>v.
                     consume_loop avail body rs (remaining - consumed) (tot + v)))"

section \<open>The plan\<close>

fun plan :: "int list \<Rightarrow> int \<Rightarrow> int list" where
  "plan [] r = []"
| "plan (a # as) r = min a r # plan as (r - min a r)"

lemma length_plan [simp]: "length (plan as r) = length as"
  by (induction as arbitrary: r) auto

lemma plan_zero: "(\<And>a. a \<in> set as \<Longrightarrow> 0 \<le> a) \<Longrightarrow> plan as 0 = replicate (length as) 0"
  by (induction as) auto

lemma sum_list_nonneg_int: "(\<And>a. a \<in> set as \<Longrightarrow> (0::int) \<le> a) \<Longrightarrow> 0 \<le> sum_list as"
  by (induction as) auto

lemma sum_plan:
  "(\<And>a. a \<in> set as \<Longrightarrow> 0 \<le> a) \<Longrightarrow> 0 \<le> r \<Longrightarrow> sum_list (plan as r) = min r (sum_list as)"
proof (induction as arbitrary: r)
  case Nil
  then show ?case by simp
next
  case (Cons a as)
  have "0 \<le> sum_list as" using Cons.prems(1) by (intro sum_list_nonneg_int) simp
  moreover have "sum_list (plan as (r - min a r)) = min (r - min a r) (sum_list as)"
    using Cons by simp
  moreover have "0 \<le> a" using Cons.prems(1) by simp
  ultimately show ?case using Cons.prems(2) by (simp add: min_def)
qed

lemma plan_bounds:
  "(\<And>a. a \<in> set as \<Longrightarrow> 0 \<le> a) \<Longrightarrow> 0 \<le> r \<Longrightarrow> i < length as \<Longrightarrow> 0 \<le> plan as r ! i \<and> plan as r ! i \<le> as ! i"
proof (induction as arbitrary: r i)
  case (Cons a as)
  then show ?case by (cases i) auto
qed simp

text \<open>Order: a row is drawn from only when every row before it has been emptied.\<close>

lemma plan_prefix:
  "(\<And>a. a \<in> set as \<Longrightarrow> 0 \<le> a) \<Longrightarrow> 0 \<le> r \<Longrightarrow> i < j \<Longrightarrow> j < length as \<Longrightarrow> 0 < plan as r ! j \<Longrightarrow> plan as r ! i = as ! i"
proof (induction as arbitrary: r i j)
  case Nil
  then show ?case by simp
next
  case (Cons a as)
  obtain j' where j: "j = Suc j'" using Cons.prems(3) by (cases j) auto
  have pos: "0 < plan as (r - min a r) ! j'" using Cons.prems(5) j by simp
  show ?case
  proof (cases i)
    case 0
    have "r - min a r \<noteq> 0"
    proof
      assume "r - min a r = 0"
      then have "plan as (r - min a r) = replicate (length as) 0"
        using plan_zero Cons.prems(1) by simp
      with pos Cons.prems(4) j show False by simp
    qed
    then have "min a r = a" by (simp add: min_def split: if_splits)
    with 0 show ?thesis by simp
  next
    case (Suc i')
    have "plan as (r - min a r) ! i' = as ! i'"
      by (rule Cons.IH [where j = j']) (use Cons.prems Suc j pos in auto)
    with Suc show ?thesis by simp
  qed
qed

section \<open>The loop\<close>

lemma consume_loop_done [simp]: "consume_loop avail body rs 0 tot = returnM (0, tot)"
  by (cases rs) simp_all

locale greedy_body =
  fixes avail :: "'r \<Rightarrow> int"
    and body :: "'r \<Rightarrow> int \<Rightarrow> ('s, 'e, int) action"
    and key :: "'r \<Rightarrow> 'k"
    and live :: "'r \<Rightarrow> 's \<Rightarrow> bool"
    and stock :: "'s \<Rightarrow> int"
    and worth :: "'r \<Rightarrow> int \<Rightarrow> int"
  assumes body_stock: "live r s \<Longrightarrow> 0 < c \<Longrightarrow> c \<le> avail r \<Longrightarrow> body r c s = Inr (v, s') \<Longrightarrow> stock s' = stock s - c"
    and body_live: "live r s \<Longrightarrow> live q s \<Longrightarrow> key q \<noteq> key r \<Longrightarrow> 0 < c \<Longrightarrow> c \<le> avail r \<Longrightarrow> body r c s = Inr (v, s') \<Longrightarrow> live q s'"
    and body_value: "body r c s = Inr (v, s') \<Longrightarrow> v = worth r c"
begin

lemma loop_zero:
  assumes "\<forall>r\<in>set qs. 0 \<le> avail r"
  shows "sum_list (plan (map avail qs) 0) = 0"
    "sum_list (map2 (\<lambda>r c. if c = 0 then 0 else worth r c) qs (plan (map avail qs) 0)) = 0"
  using assms by (induction qs) auto

lemma loop_all:
  "consume_loop avail body rs rem tot s = Inr ((rem', tot'), s') \<Longrightarrow> distinct (map key rs) \<Longrightarrow>
   \<forall>r\<in>set rs. live r s \<and> 0 \<le> avail r \<Longrightarrow> 0 \<le> rem \<Longrightarrow>
   rem' = rem - sum_list (plan (map avail rs) rem) \<and>
   tot' = tot + sum_list (map2 (\<lambda>r c. if c = 0 then 0 else worth r c) rs (plan (map avail rs) rem)) \<and>
   stock s' = stock s - sum_list (plan (map avail rs) rem)"
proof (induction rs arbitrary: rem tot s)
  case Nil
  then show ?case by simp
next
  case (Cons r rs)
  note run = Cons.prems(1) and d = Cons.prems(2) and l = Cons.prems(3) and n = Cons.prems(4)
  let ?c = "min (avail r) rem"
  show ?case
  proof (cases "rem = 0 \<or> ?c = 0")
    case True
    show ?thesis
    proof (cases "rem = 0")
      case True
      then show ?thesis using run loop_zero [of "r # rs"] l by simp
    next
      case False
      then have c: "?c = 0" and "avail r = 0" using \<open>rem = 0 \<or> ?c = 0\<close> n l by (auto simp: min_def split: if_splits)
      then have "consume_loop avail body rs rem tot s = Inr ((rem', tot'), s')"
        using run False n by simp
      from Cons.IH [OF this] d l n c show ?thesis by simp
    qed
  next
    case False
    then have c: "(if avail r < rem then avail r else rem) = ?c" "rem \<noteq> 0" "?c \<noteq> 0" by (auto simp: min_def)
    have cb: "0 < ?c" "?c \<le> avail r" using c(3) l n by (auto simp: min_def split: if_splits)
    from run obtain v s1 where b: "body r ?c s = Inr (v, s1)"
      and rest: "consume_loop avail body rs (rem - ?c) (tot + v) s1 = Inr ((rem', tot'), s')"
      unfolding consume_loop.simps Let_def c(1) using c(2,3) by (auto simp: bindM_Inr)
    have lr: "live r s" using l by simp
    have l': "\<forall>q\<in>set rs. live q s1 \<and> 0 \<le> avail q"
      using l d body_live [OF lr _ _ cb b] by (auto simp: image_iff)
    have n': "0 \<le> rem - ?c" by simp
    show ?thesis
      using Cons.IH [OF rest _ l' n'] d body_value [OF b] body_stock [OF lr cb b] c(3) by simp
  qed
qed

lemma loop_result:
  assumes "consume_loop avail body rs rem tot s = Inr ((rem', tot'), s')"
    "distinct (map key rs)" "\<forall>r\<in>set rs. live r s \<and> 0 \<le> avail r" "0 \<le> rem"
  shows "rem' = rem - sum_list (plan (map avail rs) rem)"
    "tot' = tot + sum_list (map2 (\<lambda>r c. if c = 0 then 0 else worth r c) rs (plan (map avail rs) rem))"
    "stock s' = stock s - sum_list (plan (map avail rs) rem)"
  using loop_all [OF assms] by (auto elim: conjE)

lemma loop_invariant:
  assumes I: "\<And>r c s v s'. I s \<Longrightarrow> live r s \<Longrightarrow> 0 < c \<Longrightarrow> c \<le> avail r \<Longrightarrow> body r c s = Inr (v, s') \<Longrightarrow> I s'"
  shows "consume_loop avail body rs rem tot s = Inr ((rem', tot'), s') \<Longrightarrow> distinct (map key rs) \<Longrightarrow>
    \<forall>r\<in>set rs. live r s \<and> 0 \<le> avail r \<Longrightarrow> 0 \<le> rem \<Longrightarrow> I s \<Longrightarrow> I s'"
proof (induction rs arbitrary: rem tot s)
  case Nil
  then show ?case by simp
next
  case (Cons r rs)
  define c where "c = (if avail r < rem then avail r else rem)"
  have lr: "live r s" "0 \<le> avail r" using Cons.prems(3) by simp_all
  consider "rem = 0" | "rem \<noteq> 0" "c = 0" | "rem \<noteq> 0" "c \<noteq> 0" by blast
  then show ?case
  proof cases
    case 1
    then show ?thesis using Cons.prems by simp
  next
    case 2
    then have "consume_loop avail body rs rem tot s = Inr ((rem', tot'), s')"
      using Cons.prems(1) by (simp add: Let_def c_def)
    then show ?thesis by (rule Cons.IH) (use Cons.prems in simp_all)
  next
    case 3
    then obtain v s1 where b: "body r c s = Inr (v, s1)"
      and rest: "consume_loop avail body rs (rem - c) (tot + v) s1 = Inr ((rem', tot'), s')"
      using Cons.prems(1) unfolding consume_loop.simps Let_def c_def [symmetric] by (auto simp: bindM_Inr)
    have cb: "0 < c" "c \<le> avail r" using 3 lr(2) Cons.prems(4) by (auto simp: c_def split: if_splits)
    have "\<forall>q\<in>set rs. live q s1 \<and> 0 \<le> avail q"
      using Cons.prems(2,3) body_live [OF lr(1) _ _ cb b] by (auto simp: image_iff)
    moreover have "0 \<le> rem - c" using lr(2) by (simp add: c_def)
    ultimately show ?thesis
      using Cons.IH [OF rest] Cons.prems I [OF Cons.prems(5) lr(1) cb b] by simp
  qed
qed

lemma loop_remaining:
  assumes "consume_loop avail body rs rem tot s = Inr ((rem', tot'), s')"
    "distinct (map key rs)" "\<forall>r\<in>set rs. live r s \<and> 0 \<le> avail r" "0 \<le> rem"
  shows "rem' = rem - min rem (sum_list (map avail rs))"
  using loop_result(1) [OF assms] sum_plan [of "map avail rs" rem] assms(3,4) by auto

end

text \<open>A body that also writes back what is left of the row it draws from.\<close>

locale greedy_body_left = greedy_body avail body key live stock worth
  for avail :: "'r \<Rightarrow> int" and body :: "'r \<Rightarrow> int \<Rightarrow> ('s, 'e, int) action" and key :: "'r \<Rightarrow> 'k"
    and live :: "'r \<Rightarrow> 's \<Rightarrow> bool" and stock :: "'s \<Rightarrow> int" and worth :: "'r \<Rightarrow> int \<Rightarrow> int" +
  fixes left :: "'k \<Rightarrow> 's \<Rightarrow> int"
  assumes left_live: "live r s \<Longrightarrow> left (key r) s = avail r"
    and left_body: "live r s \<Longrightarrow> 0 < c \<Longrightarrow> c \<le> avail r \<Longrightarrow> body r c s = Inr (v, s') \<Longrightarrow> left (key r) s' = avail r - c"
    and left_other: "live r s \<Longrightarrow> k \<noteq> key r \<Longrightarrow> 0 < c \<Longrightarrow> c \<le> avail r \<Longrightarrow> body r c s = Inr (v, s') \<Longrightarrow> left k s' = left k s"
begin

lemma loop_left_other:
  "consume_loop avail body rs rem tot s = Inr ((rem', tot'), s') \<Longrightarrow> distinct (map key rs) \<Longrightarrow>
   \<forall>r\<in>set rs. live r s \<and> 0 \<le> avail r \<Longrightarrow> 0 \<le> rem \<Longrightarrow> k \<notin> key ` set rs \<Longrightarrow> left k s' = left k s"
proof (induction rs arbitrary: rem tot s)
  case Nil
  then show ?case by simp
next
  case (Cons r rs)
  define c where "c = (if avail r < rem then avail r else rem)"
  have lr: "live r s" "0 \<le> avail r" using Cons.prems(3) by simp_all
  consider "rem = 0" | "rem \<noteq> 0" "c = 0" | "rem \<noteq> 0" "c \<noteq> 0" by blast
  then show ?case
  proof cases
    case 1
    then show ?thesis using Cons.prems(1) by simp
  next
    case 2
    then have "consume_loop avail body rs rem tot s = Inr ((rem', tot'), s')"
      using Cons.prems(1) by (simp add: Let_def c_def)
    then show ?thesis by (rule Cons.IH) (use Cons.prems in simp_all)
  next
    case 3
    then obtain v s1 where b: "body r c s = Inr (v, s1)"
      and rest: "consume_loop avail body rs (rem - c) (tot + v) s1 = Inr ((rem', tot'), s')"
      using Cons.prems(1) unfolding consume_loop.simps Let_def c_def [symmetric] by (auto simp: bindM_Inr)
    have cb: "0 < c" "c \<le> avail r" using 3 lr(2) Cons.prems(4) by (auto simp: c_def split: if_splits)
    have "\<forall>q\<in>set rs. live q s1 \<and> 0 \<le> avail q"
      using Cons.prems(2,3) body_live [OF lr(1) _ _ cb b] by (auto simp: image_iff)
    moreover have "0 \<le> rem - c" using lr(2) by (simp add: c_def)
    ultimately have "left k s' = left k s1"
      using Cons.IH [OF rest] Cons.prems by simp
    then show ?thesis using left_other [OF lr(1) _ cb b] Cons.prems(5) by simp
  qed
qed

lemma loop_left:
  "consume_loop avail body rs rem tot s = Inr ((rem', tot'), s') \<Longrightarrow> distinct (map key rs) \<Longrightarrow>
   \<forall>r\<in>set rs. live r s \<and> 0 \<le> avail r \<Longrightarrow> 0 \<le> rem \<Longrightarrow> i < length rs \<Longrightarrow>
   left (key (rs ! i)) s' = avail (rs ! i) - plan (map avail rs) rem ! i"
proof (induction rs arbitrary: rem tot s i)
  case Nil
  then show ?case by simp
next
  case (Cons r rs)
  define c where "c = min (avail r) rem"
  have c: "(if avail r < rem then avail r else rem) = c" by (simp add: c_def min_def)
  have lr: "live r s" "0 \<le> avail r" using Cons.prems(3) by simp_all
  consider "rem = 0" | "rem \<noteq> 0" "c = 0" | "rem \<noteq> 0" "c \<noteq> 0" by blast
  then show ?case
  proof cases
    case 1
    have "plan (map avail (r # rs)) 0 = replicate (length (r # rs)) 0"
      by (subst plan_zero) (use Cons.prems(3) in auto)
    then have "plan (map avail (r # rs)) rem ! i = 0"
      using 1 Cons.prems(5) by (simp only: nth_replicate)
    moreover have "s' = s" using 1 Cons.prems(1) by simp
    moreover have "live ((r # rs) ! i) s" using Cons.prems(3,5) by (meson nth_mem)
    ultimately show ?thesis by (simp add: left_live del: plan.simps list.map)
  next
    case 2
    then have rest: "consume_loop avail body rs rem tot s = Inr ((rem', tot'), s')"
      using Cons.prems(1) by (simp add: Let_def c)
    have ar: "avail r = 0" using 2 Cons.prems(4) lr(2) by (simp add: c_def min_def split: if_splits)
    show ?thesis
    proof (cases i)
      case 0
      have "left (key r) s' = left (key r) s"
        by (rule loop_left_other [OF rest]) (use Cons.prems in auto)
      then show ?thesis using 0 2 left_live [OF lr(1)] by (simp add: c_def [symmetric])
    next
      case (Suc j)
      have "left (key (rs ! j)) s' = avail (rs ! j) - plan (map avail rs) rem ! j"
        by (rule Cons.IH [OF rest]) (use Cons.prems Suc in auto)
      then show ?thesis using Suc 2 by (simp add: c_def [symmetric])
    qed
  next
    case 3
    then obtain v s1 where b: "body r c s = Inr (v, s1)"
      and rest: "consume_loop avail body rs (rem - c) (tot + v) s1 = Inr ((rem', tot'), s')"
      using Cons.prems(1) unfolding consume_loop.simps Let_def c by (auto simp: bindM_Inr)
    have cb: "0 < c" "c \<le> avail r" using 3 lr(2) Cons.prems(4) by (auto simp: c_def min_def split: if_splits)
    have l: "\<forall>q\<in>set rs. live q s1 \<and> 0 \<le> avail q"
      using Cons.prems(2,3) body_live [OF lr(1) _ _ cb b] by (auto simp: image_iff)
    have d: "distinct (map key rs)" "key r \<notin> key ` set rs" using Cons.prems(2) by auto
    have n: "0 \<le> rem - c" by (simp add: c_def)
    show ?thesis
    proof (cases i)
      case 0
      have "left (key r) s' = left (key r) s1" by (rule loop_left_other [OF rest d(1) l n d(2)])
      then show ?thesis using 0 left_body [OF lr(1) cb b] by (simp add: c_def)
    next
      case (Suc j)
      have "left (key (rs ! j)) s' = avail (rs ! j) - plan (map avail rs) (rem - c) ! j"
        by (rule Cons.IH [OF rest d(1) l n]) (use Cons.prems Suc in simp)
      then show ?thesis using Suc by (simp add: c_def)
    qed
  qed
qed

text \<open>Order: if anything was drawn from a row, every row before it is empty afterwards.\<close>

lemma loop_order:
  assumes run: "consume_loop avail body rs rem tot s = Inr ((rem', tot'), s')"
    and "distinct (map key rs)" "\<forall>r\<in>set rs. live r s \<and> 0 \<le> avail r" "0 \<le> rem"
    and ij: "i < j" "j < length rs" and drawn: "left (key (rs ! j)) s' < avail (rs ! j)"
  shows "left (key (rs ! i)) s' = 0"
proof -
  note L = loop_left [OF assms(1-4)]
  have "0 < plan (map avail rs) rem ! j" using drawn L [OF ij(2)] by simp
  then have "plan (map avail rs) rem ! i = map avail rs ! i"
    by (intro plan_prefix [where j = j]) (use assms(3,4) ij in auto)
  then show ?thesis using L [of i] ij by simp
qed

end

locale greedy_body_total = greedy_body avail body key live stock worth
  for avail :: "'r \<Rightarrow> int" and body :: "'r \<Rightarrow> int \<Rightarrow> ('s, 'e, int) action" and key :: "'r \<Rightarrow> 'k"
    and live :: "'r \<Rightarrow> 's \<Rightarrow> bool" and stock :: "'s \<Rightarrow> int" and worth :: "'r \<Rightarrow> int \<Rightarrow> int" +
  fixes ready :: "'r \<Rightarrow> 's \<Rightarrow> bool"
  assumes body_runs: "live r s \<Longrightarrow> ready r s \<Longrightarrow> 0 < c \<Longrightarrow> c \<le> avail r \<Longrightarrow> \<exists>v s'. body r c s = Inr (v, s')"
    and body_ready: "live r s \<Longrightarrow> ready q s \<Longrightarrow> key q \<noteq> key r \<Longrightarrow> 0 < c \<Longrightarrow> c \<le> avail r \<Longrightarrow> body r c s = Inr (v, s') \<Longrightarrow> ready q s'"
begin

lemma loop_runs:
  "distinct (map key rs) \<Longrightarrow> \<forall>r\<in>set rs. live r s \<and> ready r s \<and> 0 \<le> avail r \<Longrightarrow> 0 \<le> rem \<Longrightarrow>
   \<exists>rem' tot' s'. consume_loop avail body rs rem tot s = Inr ((rem', tot'), s')"
proof (induction rs arbitrary: rem tot s)
  case Nil
  then show ?case by simp
next
  case (Cons r rs)
  define c where "c = (if avail r < rem then avail r else rem)"
  have lr: "live r s" "ready r s" "0 \<le> avail r" using Cons.prems(2) by simp_all
  have cb: "0 \<le> c" "c \<le> avail r" "0 \<le> rem - c" using lr Cons.prems(3) by (auto simp: c_def)
  consider "rem = 0" | "rem \<noteq> 0" "c = 0" | "rem \<noteq> 0" "0 < c" using cb by linarith
  then show ?case
  proof cases
    case 1
    then show ?thesis by simp
  next
    case 2
    then have "consume_loop avail body (r # rs) rem tot = consume_loop avail body rs rem tot"
      by (simp add: Let_def c_def)
    then show ?thesis using Cons.IH Cons.prems by simp
  next
    case 3
    obtain v s1 where b: "body r c s = Inr (v, s1)"
      using body_runs [OF lr(1,2) 3(2) cb(2)] by blast
    have neq: "key q \<noteq> key r" if "q \<in> set rs" for q
      using Cons.prems(1) that by (auto simp: image_iff)
    have "\<forall>q\<in>set rs. live q s1 \<and> ready q s1 \<and> 0 \<le> avail q"
      using Cons.prems(2) body_live [OF lr(1) _ neq 3(2) cb(2) b] body_ready [OF lr(1) _ neq 3(2) cb(2) b] by simp
    then obtain rem' tot' s' where "consume_loop avail body rs (rem - c) (tot + v) s1 = Inr ((rem', tot'), s')"
      using Cons.IH [of s1 "rem - c" "tot + v"] Cons.prems(1) cb(3) by auto
    moreover have "consume_loop avail body (r # rs) rem tot s = consume_loop avail body rs (rem - c) (tot + v) s1"
      unfolding consume_loop.simps Let_def c_def [symmetric] using 3 b by (simp add: bindM_step)
    ultimately show ?thesis by simp
  qed
qed

end

text \<open>What a view of the state gains when every body adds to it what it reports, or what it
  draws: no assumption on the rows is needed.\<close>

lemma consume_loop_reported:
  assumes body: "\<And>r c s v s'. body r c s = Inr (v, s') \<Longrightarrow> f s' = f s + v"
  shows "consume_loop avail body rs rem tot s = Inr ((rem', tot'), s') \<Longrightarrow> f s' = f s + (tot' - tot)"
proof (induction rs arbitrary: rem tot s)
  case Nil
  then show ?case by simp
next
  case (Cons r rs)
  then show ?case by (auto simp: Let_def bindM_Inr split: if_splits dest!: body)
qed

lemma consume_loop_drawn:
  assumes body: "\<And>r c s v s'. body r c s = Inr (v, s') \<Longrightarrow> f s' = f s - c"
  shows "consume_loop avail body rs rem tot s = Inr ((rem', tot'), s') \<Longrightarrow> f s' = f s - (rem - rem')"
proof (induction rs arbitrary: rem tot s)
  case Nil
  then show ?case by simp
next
  case (Cons r rs)
  then show ?case by (auto simp: Let_def bindM_Inr split: if_splits dest!: body)
qed

lemma keeps_consume_loop [keeps_intros]:
  "(\<And>r c. keeps f (body r c)) \<Longrightarrow> keeps f (consume_loop avail body rs rem tot)"
proof (induction rs arbitrary: rem tot)
  case Nil
  then show ?case by simp
next
  case (Cons r rs)
  then show ?case
    by (simp add: Let_def keeps_bindM)
qed

lemma preserves_consume_loop [preserves_intros]:
  "(\<And>r c. preserves I (body r c)) \<Longrightarrow> preserves I (consume_loop avail body rs rem tot)"
proof (induction rs arbitrary: rem tot)
  case Nil
  then show ?case by simp
next
  case (Cons r rs)
  then show ?case
    by (simp add: Let_def preserves_bindM)
qed

end
