(* ===== verification/Fifo.thy ===== *)
theory Fifo
  imports Schema Consumption
begin

text \<open>
  FIFO cost layers, after \<open>src/inventory/inventory-fifo-valuation.ts\<close>. Every entry of stock
  creates a layer with its cost; every exit consumes the oldest layers of the product at the
  location; a sale void or return puts quantity back into the layers the sale consumed; a transfer
  recreates at the destination the layers it consumed at the origin. Each change of a layer is
  recorded as an allocation of the movement. The movement row then receives its FIFO cost, value
  change and resulting inventory value, after a check that the layers of the product add up to its
  valuation quantity.
\<close>

section \<open>Operations\<close>

definition tenantCurrency :: "string \<Rightarrow> string" where
  "tenantCurrency countryCode =
     (if countryCode = ''MX'' then ''MXN'' else if countryCode = ''CL'' then ''CLP'' else ''USD'')"

definition ensureCutover :: "movement_row \<Rightarrow> unit act" where
  "ensureCutover movement =
     writeM (\<lambda>db. if mv_tenant movement \<in> fst ` set (cutovers db) then db
                  else db\<lparr>cutovers := cutovers db @ [(mv_tenant movement, mv_created_at movement)]\<rparr>)"

text \<open>The oldest layer of the product: \<open>ORDER BY acquired_at, id LIMIT 1\<close>.\<close>

definition oldestLayer :: "id \<Rightarrow> id \<Rightarrow> inv_db \<Rightarrow> fifo_layer option" where
  "oldestLayer t p db =
     (case sort_key (\<lambda>l. (fl_acquired_at l, fl_id l))
             (filter (\<lambda>l. fl_tenant l = t \<and> fl_product l = p) (layers db)) of
        [] \<Rightarrow> None
      | l # _ \<Rightarrow> Some l)"

definition assertCurrency :: "movement_row \<Rightarrow> string \<Rightarrow> unit act" where
  "assertCurrency movement currency =
     bindM (readM (oldestLayer (mv_tenant movement) (mv_product movement))) (\<lambda>existing.
       case existing of
         None \<Rightarrow> returnM ()
       | Some l \<Rightarrow> ensureM InventoryFifoCurrencyMismatchError (fl_currency l = currency))"

text \<open>Unique \<open>(tenant_id, movement_id, layer_id)\<close>.\<close>

definition insertAllocation ::
  "movement_row \<Rightarrow> id \<Rightarrow> int \<Rightarrow> int \<Rightarrow> string \<Rightarrow> allocation_mode \<Rightarrow> id option \<Rightarrow> int act" where
  "insertAllocation movement layerId quantity unitCost currency mode sourceAllocationId =
     (let val = quantityValue quantity unitCost in
      bindM newRow (\<lambda>(i, now).
      bindM (readM allocs) (\<lambda>rows.
      let row = \<lparr>fa_id = i, fa_tenant = mv_tenant movement, fa_movement = mv_id movement,
                 fa_layer = layerId, fa_source = sourceAllocationId, fa_quantity = quantity,
                 fa_unit_cost = unitCost, fa_currency = currency, fa_value = val, fa_mode = mode,
                 fa_created_at = now\<rparr>
      in thenM (ensureM DuplicateEntry (\<forall>a\<in>set rows. \<not> (fa_tenant a = mv_tenant movement \<and>
                  fa_movement a = mv_id movement \<and> fa_layer a = layerId)))
        (thenM (ensureM CheckViolated (alloc_check row))
        (thenM (writeM (\<lambda>db. db\<lparr>allocs := allocs db @ [row]\<rparr>))
          (returnM val))))))"

definition createLayer ::
  "movement_row \<Rightarrow> int \<Rightarrow> int \<Rightarrow> string \<Rightarrow> layer_origin \<Rightarrow> nat \<Rightarrow> allocation_mode \<Rightarrow>
   id option \<Rightarrow> id option \<Rightarrow> id option \<Rightarrow> int act" where
  "createLayer movement quantity unitCost currency origin acquiredAt mode
     sourceLayerId purchaseReceiptLineId sourceAllocationId =
     thenM (assertCurrency movement currency)
     (bindM newRow (\<lambda>(layerId, now).
      let row = \<lparr>fl_id = layerId, fl_tenant = mv_tenant movement, fl_product = mv_product movement,
                 fl_location = mv_location movement, fl_source_movement = Some (mv_id movement),
                 fl_source_layer = sourceLayerId, fl_receipt_line = purchaseReceiptLineId,
                 fl_origin = origin, fl_original = quantity, fl_remaining = quantity,
                 fl_unit_cost = unitCost, fl_currency = currency, fl_acquired_at = acquiredAt,
                 fl_version = 1, fl_created_at = now\<rparr>
      in thenM (ensureM CheckViolated (layer_check row))
        (thenM (writeM (\<lambda>db. db\<lparr>layers := layers db @ [row]\<rparr>))
          (insertAllocation movement layerId quantity unitCost currency mode sourceAllocationId))))"

text \<open>\<open>UPDATE inventory_fifo_layers SET remaining_quantity = ?, version = version + 1\<close>\<close>

definition setRemaining :: "id \<Rightarrow> id \<Rightarrow> int \<Rightarrow> unit act" where
  "setRemaining t layerId quantity =
     writeM (\<lambda>db. db\<lparr>layers := update_where (\<lambda>l. fl_id l = layerId \<and> fl_tenant l = t)
       (\<lambda>l. l\<lparr>fl_remaining := quantity, fl_version := Suc (fl_version l)\<rparr>) (layers db)\<rparr>)"

definition sourceCost :: "movement_row \<Rightarrow> string \<Rightarrow> (int \<times> string) act" where
  "sourceCost movement country =
     (if mv_type movement = PURCHASE_RECEIPT
      then bindM (readM (\<lambda>db. case selectReceiptLine (mv_tenant movement) (mv_receipt_line movement) db of
                     None \<Rightarrow> None
                   | Some line \<Rightarrow> map_option (\<lambda>cur. (rl_unit_cost line, cur)) (receiptLineCurrency line db)))
             (requireM (Failure ''FIFO_PURCHASE_RECEIPT_COST_NOT_FOUND''))
      else bindM (requireM (Failure ''FIFO_MOVEMENT_COST_NOT_FOUND'') (mv_unit_cost movement))
             (\<lambda>cost. returnM (cost, tenantCurrency country)))"

text \<open>The layers that an exit may consume, oldest first; \<open>receiptLineId\<close> restricts them to one
  purchase receipt line, \<open>transferLineId\<close> to what one transfer line brought in.\<close>

definition consumableLayers :: "movement_row \<Rightarrow> id option \<Rightarrow> id option \<Rightarrow> inv_db \<Rightarrow> fifo_layer list" where
  "consumableLayers movement receiptLineId transferLineId db =
     sort_key (\<lambda>l. (fl_acquired_at l, fl_created_at l, fl_id l))
       (filter (\<lambda>l. fl_tenant l = mv_tenant movement \<and> fl_product l = mv_product movement \<and>
                    fl_location l = mv_location movement \<and> 0 < fl_remaining l \<and>
                    (case receiptLineId of
                       Some rl \<Rightarrow> fl_receipt_line l = Some rl
                     | None \<Rightarrow>
                       (case transferLineId of
                          Some tline \<Rightarrow> (\<exists>m\<in>set (movements db). Some (mv_id m) = fl_source_movement l \<and>
                             mv_tenant m = mv_tenant movement \<and> mv_transfer_line m = Some tline \<and>
                             mv_type m = TRANSFER_IN)
                        | None \<Rightarrow> True)))
         (layers db))"

definition consumeLayer :: "movement_row \<Rightarrow> allocation_mode \<Rightarrow> fifo_layer \<Rightarrow> int \<Rightarrow> int act" where
  "consumeLayer movement mode layer consumed =
     thenM (setRemaining (mv_tenant movement) (fl_id layer) (fl_remaining layer - consumed))
       (insertAllocation movement (fl_id layer) (- consumed) (fl_unit_cost layer) (fl_currency layer) mode None)"

definition consumeLayers :: "movement_row \<Rightarrow> int \<Rightarrow> id option \<Rightarrow> id option \<Rightarrow> int act" where
  "consumeLayers movement requestedQuantity receiptLineId transferLineId =
     bindM (readM (consumableLayers movement receiptLineId transferLineId)) (\<lambda>rows.
     bindM (consume_loop fl_remaining
              (consumeLayer movement (if receiptLineId \<noteq> None then ModeOriginReturn else ModeFifo))
              rows requestedQuantity 0) (\<lambda>(remaining, totalValue).
     thenM (ensureM InventoryFifoLayerShortageError (remaining = 0))
       (returnM totalValue)))"

text \<open>The allocations of earlier movements joined with the movement and the layer:
  \<open>ORDER BY im.created_at, im.id, imfl.created_at, imfl.id\<close>.\<close>

definition sourceAllocations :: "(movement_row \<Rightarrow> bool) \<Rightarrow> inv_db \<Rightarrow> (fifo_alloc \<times> fifo_layer) list" where
  "sourceAllocations sel db =
     map snd (sort_key (\<lambda>(m, a, l). (mv_created_at m, mv_id m, fa_created_at a, fa_id a))
       (concat (map (\<lambda>a. concat (map (\<lambda>m. map (\<lambda>l. (m, a, l))
            (filter (\<lambda>l. fl_id l = fa_layer a \<and> fl_tenant l = fa_tenant a) (layers db)))
          (filter (\<lambda>m. mv_id m = fa_movement a \<and> mv_tenant m = fa_tenant a \<and> sel m) (movements db))))
        (allocs db))))"

text \<open>What earlier restorations have left of a sale allocation.\<close>

definition restorable :: "movement_row \<Rightarrow> fifo_alloc \<Rightarrow> inv_db \<Rightarrow> int" where
  "restorable movement allocation db =
     (let original = - fa_quantity allocation;
          prior = sum_where (\<lambda>a. fa_tenant a = mv_tenant movement \<and> fa_source a = Some (fa_id allocation))
                    fa_quantity (allocs db)
      in original - prior)"

definition restoreAllocation :: "movement_row \<Rightarrow> fifo_alloc \<Rightarrow> int \<Rightarrow> int act" where
  "restoreAllocation movement allocation quantity =
     bindM (readM (\<lambda>db. List.find (\<lambda>l. fl_id l = fa_layer allocation \<and> fl_tenant l = mv_tenant movement) (layers db))) (\<lambda>found.
     bindM (requireM InventoryFifoLayerShortageError found) (\<lambda>layer.
     let next = fl_remaining layer + quantity in
     thenM (ensureM InventoryFifoLayerShortageError (next \<le> fl_original layer))
     (thenM (setRemaining (mv_tenant movement) (fa_layer allocation) next)
       (insertAllocation movement (fa_layer allocation) quantity (fa_unit_cost allocation)
          (fa_currency allocation) ModeRestore (Some (fa_id allocation))))))"

fun restoreLoop :: "movement_row \<Rightarrow> int \<Rightarrow> (fifo_alloc \<times> fifo_layer) list \<Rightarrow> int \<Rightarrow> int \<Rightarrow> (int \<times> int) act" where
  "restoreLoop movement expectedQuantity [] restored totalValue = returnM (restored, totalValue)"
| "restoreLoop movement expectedQuantity ((allocation, _) # rest) restored totalValue =
     bindM (readM (restorable movement allocation)) (\<lambda>available.
      let needed = expectedQuantity - restored;
          quantity = (if available < needed then available else needed)
      in if quantity \<le> 0 then restoreLoop movement expectedQuantity rest restored totalValue
         else bindM (restoreAllocation movement allocation quantity) (\<lambda>v.
              restoreLoop movement expectedQuantity rest (restored + quantity) (totalValue + v)))"

definition restoreSale :: "movement_row \<Rightarrow> int \<Rightarrow> int act" where
  "restoreSale movement expectedQuantity =
     bindM (readM (sourceAllocations (\<lambda>m. mv_tenant m = mv_tenant movement \<and>
              mv_sale movement \<noteq> None \<and> mv_sale m = mv_sale movement \<and>
              mv_sale_line movement \<noteq> None \<and> mv_sale_line m = mv_sale_line movement \<and>
              mv_location m = mv_location movement \<and> mv_type m = SALE \<and>
              (case mv_source_movement movement of None \<Rightarrow> True | Some src \<Rightarrow> mv_id m = src)))) (\<lambda>allocations.
     bindM (restoreLoop movement expectedQuantity allocations 0 0) (\<lambda>(restored, totalValue).
     thenM (ensureM InventoryFifoLayerShortageError (restored = expectedQuantity))
       (returnM totalValue)))"

fun transferLoop :: "movement_row \<Rightarrow> (fifo_alloc \<times> fifo_layer) list \<Rightarrow> int \<Rightarrow> int \<Rightarrow> (int \<times> int) act" where
  "transferLoop movement [] transferred totalValue = returnM (transferred, totalValue)"
| "transferLoop movement ((allocation, layer) # rest) transferred totalValue =
     (let quantity = - fa_quantity allocation in
      if quantity \<le> 0 then transferLoop movement rest transferred totalValue
      else bindM (createLayer movement quantity (fa_unit_cost allocation) (fa_currency allocation)
                    OriginTransfer (fl_acquired_at layer) ModeTransfer (Some (fa_layer allocation)) None
                    (Some (fa_id allocation))) (\<lambda>v.
             transferLoop movement rest (transferred + quantity) (totalValue + v)))"

definition transferLayers :: "movement_row \<Rightarrow> int \<Rightarrow> int act" where
  "transferLayers movement expectedQuantity =
     bindM (readM (sourceAllocations (\<lambda>m. mv_tenant m = mv_tenant movement \<and>
              mv_transfer_line movement \<noteq> None \<and> mv_transfer_line m = mv_transfer_line movement \<and>
              mv_type m = TRANSFER_OUT))) (\<lambda>allocations.
     bindM (transferLoop movement allocations 0 0) (\<lambda>(transferred, totalValue).
     thenM (ensureM InventoryFifoLayerShortageError (transferred = expectedQuantity))
       (returnM totalValue)))"

definition receiptLineForReturn :: "movement_row \<Rightarrow> id act" where
  "receiptLineForReturn movement =
     bindM (readM (\<lambda>db. map_option tl_receipt_line (List.find (\<lambda>r. Some (tl_id r) = mv_return_line movement \<and>
              tl_tenant r = mv_tenant movement) (return_lines db))))
       (requireM (Failure ''FIFO_RETURN_SOURCE_NOT_FOUND''))"

text \<open>The quantity and the value (in units of \<open>10^-7\<close>) of the layers of a product.\<close>

definition layerQuantity :: "id \<Rightarrow> id \<Rightarrow> inv_db \<Rightarrow> int" where
  "layerQuantity t p db = sum_where (\<lambda>l. fl_tenant l = t \<and> fl_product l = p) fl_remaining (layers db)"

definition layerValue :: "id \<Rightarrow> id \<Rightarrow> inv_db \<Rightarrow> int" where
  "layerValue t p db =
     sum_where (\<lambda>l. fl_tenant l = t \<and> fl_product l = p) (\<lambda>l. fl_remaining l * fl_unit_cost l) (layers db)"

definition updateMovementSummary :: "movement_row \<Rightarrow> int \<Rightarrow> int \<Rightarrow> unit act" where
  "updateMovementSummary movement quantityChange valueChange =
     bindM (readM (layerQuantity (mv_tenant movement) (mv_product movement))) (\<lambda>totalQuantity.
     bindM (readM (layerValue (mv_tenant movement) (mv_product movement))) (\<lambda>totalValue.
     bindM (readM (selectValuation (mv_tenant movement) (mv_product movement))) (\<lambda>valuation.
     thenM (ensureM InventoryFifoLayerShortageError
              (case valuation of None \<Rightarrow> False | Some v \<Rightarrow> totalQuantity = va_quantity v))
     (bindM (liftE (if quantityChange = 0 then Inr 0
                    else divideRounded ''INVALID_FIFO_DIVISOR''
                           ((if valueChange < 0 then - valueChange else valueChange) * 1000)
                           (if quantityChange < 0 then - quantityChange else quantityChange))) (\<lambda>weightedUnitCost.
      updateMovement (mv_tenant movement) (mv_id movement)
        (\<lambda>m. m\<lparr>mv_fifo_unit_cost := Some weightedUnitCost, mv_fifo_value_change := Some valueChange,
               mv_fifo_inventory_value := Some (round_div totalValue 1000)\<rparr>))))))"

text \<open>The value change of a movement: the three ways to add stock, and the one to remove it.\<close>

definition fifoValueChange :: "movement_row \<Rightarrow> string \<Rightarrow> int \<Rightarrow> int act" where
  "fifoValueChange movement country quantityChange =
     (if 0 < quantityChange then
        (if mv_type movement = SALE_VOID \<or> mv_type movement = SALE_RETURN
         then restoreSale movement quantityChange
         else if mv_type movement = TRANSFER_IN
         then transferLayers movement quantityChange
         else bindM (sourceCost movement country) (\<lambda>(unitCost, currency).
                createLayer movement quantityChange unitCost currency
                  (if mv_type movement = PURCHASE_RECEIPT then OriginPurchaseReceipt
                   else if mv_type movement = RETURN then OriginReturn else OriginEntry)
                  (mv_created_at movement) ModeEntry None (mv_receipt_line movement) None))
      else if quantityChange < 0 then
        bindM (if mv_type movement = SUPPLIER_RETURN
               then bindM (receiptLineForReturn movement) (\<lambda>rl. returnM (Some rl)) else returnM None)
          (\<lambda>receiptLineId.
           consumeLayers movement (- quantityChange) receiptLineId
             (if mv_type movement = TRANSFER_DISCREPANCY then mv_transfer_line movement else None))
      else returnM 0)"

definition applyInventoryFifoValuation :: "id \<Rightarrow> unit act" where
  "applyInventoryFifoValuation movementId =
     bindM (readM (\<lambda>db. case selectMovement movementId db of
              None \<Rightarrow> None
            | Some m \<Rightarrow> map_option (\<lambda>t. (m, tn_country t)) (List.find (\<lambda>t. tn_id t = mv_tenant m) (tenants db)))) (\<lambda>found.
     bindM (requireM (Failure ''INVENTORY_MOVEMENT_NOT_FOUND_FOR_FIFO'') found) (\<lambda>(movement, country).
     bindM (readM (\<lambda>db. length (filter (\<lambda>a. fa_tenant a = mv_tenant movement \<and> fa_movement a = mv_id movement) (allocs db)))) (\<lambda>existing.
     if 0 < existing then returnM ()
     else thenM (ensureCutover movement)
          (let quantityChange = mv_quantity movement in
           bindM (fifoValueChange movement country quantityChange) (\<lambda>valueChange.
           updateMovementSummary movement quantityChange valueChange)))))"

end
