(* ===== verification/FifoLaws.thy ===== *)
theory FifoLaws
  imports Fifo
begin

text \<open>
  The laws of the FIFO layers (operations in theory \<open>Fifo\<close>): the ledger invariant that ties the
  layers to the allocations, its preservation on every branch, and what consumption, restoration
  and transfer do. The consumption loop is an instance of the locales of theory
  \<open>Consumption\<close>.
\<close>

section \<open>What the writes do\<close>

definition alloc_of ::
  "movement_row \<Rightarrow> inv_db \<Rightarrow> id \<Rightarrow> int \<Rightarrow> int \<Rightarrow> string \<Rightarrow> allocation_mode \<Rightarrow> id option \<Rightarrow> fifo_alloc" where
  "alloc_of movement db layerId quantity unitCost currency mode src =
     \<lparr>fa_id = env_uuid db (ticks db), fa_tenant = mv_tenant movement, fa_movement = mv_id movement,
      fa_layer = layerId, fa_source = src, fa_quantity = quantity, fa_unit_cost = unitCost,
      fa_currency = currency, fa_value = quantityValue quantity unitCost, fa_mode = mode,
      fa_created_at = env_clock db (ticks db)\<rparr>"

definition allocated :: "movement_row \<Rightarrow> id \<Rightarrow> inv_db \<Rightarrow> bool" where
  "allocated movement layerId db \<longleftrightarrow>
     (\<exists>a\<in>set (allocs db). fa_tenant a = mv_tenant movement \<and> fa_movement a = mv_id movement \<and> fa_layer a = layerId)"

lemma insertAllocation_Inr:
  "insertAllocation movement L q c cur mode src db = Inr (v, db') \<longleftrightarrow>
     \<not> allocated movement L db \<and> q \<noteq> 0 \<and> 0 \<le> c \<and> v = quantityValue q c \<and>
     db' = db\<lparr>ticks := Suc (ticks db), allocs := allocs db @ [alloc_of movement db L q c cur mode src]\<rparr>"
  by (auto simp: insertAllocation_def runM Let_def alloc_of_def allocated_def alloc_check_def)

lemma setRemaining_Inr:
  "setRemaining t L q db = Inr (u, db') \<longleftrightarrow>
     db' = db\<lparr>layers := update_where (\<lambda>l. fl_id l = L \<and> fl_tenant l = t)
       (\<lambda>l. l\<lparr>fl_remaining := q, fl_version := Suc (fl_version l)\<rparr>) (layers db)\<rparr>"
  by (auto simp: setRemaining_def)

text \<open>A layer set to \<open>q\<close> together with the allocation that records the change.\<close>

definition moveLayer :: "movement_row \<Rightarrow> fifo_layer \<Rightarrow> int \<Rightarrow> int \<Rightarrow> string \<Rightarrow> allocation_mode \<Rightarrow> id option \<Rightarrow> inv_db \<Rightarrow> inv_db" where
  "moveLayer movement layer change cost cur mode src db =
     db\<lparr>layers := update_where (\<lambda>l. fl_id l = fl_id layer \<and> fl_tenant l = mv_tenant movement)
          (\<lambda>l. l\<lparr>fl_remaining := fl_remaining layer + change, fl_version := Suc (fl_version l)\<rparr>) (layers db),
        ticks := Suc (ticks db),
        allocs := allocs db @ [alloc_of movement db (fl_id layer) change cost cur mode src]\<rparr>"

lemma consumeLayer_Inr:
  "consumeLayer movement mode layer c db = Inr (v, db') \<longleftrightarrow>
     \<not> allocated movement (fl_id layer) db \<and> c \<noteq> 0 \<and> 0 \<le> fl_unit_cost layer \<and>
     v = quantityValue (- c) (fl_unit_cost layer) \<and>
     db' = moveLayer movement layer (- c) (fl_unit_cost layer) (fl_currency layer) mode None db"
  by (auto simp: consumeLayer_def runM setRemaining_Inr insertAllocation_Inr moveLayer_def alloc_of_def allocated_def)

section \<open>The invariant of the layers\<close>

text \<open>What a layer started with before any allocation: the opening layers of the migration have
  no allocation of their own.\<close>

definition openingQuantity :: "fifo_layer \<Rightarrow> int" where
  "openingQuantity l = (if fl_origin l = MigrationCut then fl_original l else 0)"

definition layerLedger :: "fifo_layer \<Rightarrow> inv_db \<Rightarrow> int" where
  "layerLedger l db =
     openingQuantity l + sum_where (\<lambda>a. fa_layer a = fl_id l \<and> fa_tenant a = fl_tenant l) fa_quantity (allocs db)"

text \<open>Ids issued so far: everything the generator has produced.\<close>

definition issued :: "inv_db \<Rightarrow> id set" where
  "issued db = env_uuid db ` {..<ticks db}"

definition fifo_inv :: "inv_db \<Rightarrow> bool" where
  "fifo_inv db \<longleftrightarrow>
     inj (env_uuid db) \<and> fl_id ` set (layers db) \<subseteq> issued db \<and> fa_id ` set (allocs db) \<subseteq> issued db \<and>
     distinct (map fl_id (layers db)) \<and> distinct (map fa_id (allocs db)) \<and>
     fa_layer ` set (allocs db) \<subseteq> fl_id ` set (layers db) \<and>
     (\<forall>l\<in>set (layers db). layer_check l \<and> fl_remaining l = layerLedger l db)"

lemma fifo_invD:
  assumes "fifo_inv db"
  shows "inj (env_uuid db)" "fl_id ` set (layers db) \<subseteq> issued db" "fa_id ` set (allocs db) \<subseteq> issued db"
    "distinct (map fl_id (layers db))" "distinct (map fa_id (allocs db))"
    "fa_layer ` set (allocs db) \<subseteq> fl_id ` set (layers db)"
    "l \<in> set (layers db) \<Longrightarrow> layer_check l" "l \<in> set (layers db) \<Longrightarrow> fl_remaining l = layerLedger l db"
  using assms unfolding fifo_inv_def by blast+

lemma issued_Suc: "issued (db\<lparr>ticks := Suc (ticks db)\<rparr>) = insert (env_uuid db (ticks db)) (issued db)"
  by (auto simp: issued_def lessThan_Suc)

lemma fresh_not_issued: "inj (env_uuid db) \<Longrightarrow> env_uuid db (ticks db) \<notin> issued db"
  by (auto simp: issued_def inj_def)

lemma same_layer:
  "fifo_inv db \<Longrightarrow> l \<in> set (layers db) \<Longrightarrow> l' \<in> set (layers db) \<Longrightarrow> fl_id l = fl_id l' \<Longrightarrow> l = l'"
  by (rule distinct_map_key_inj [OF fifo_invD(4)])

lemma moveLayer_layers:
  assumes "fifo_inv db" "layer \<in> set (layers db)" "fl_tenant layer = mv_tenant movement"
  shows "set (layers (moveLayer movement layer change cost cur mode src db)) =
    (\<lambda>l. if fl_id l = fl_id layer then l\<lparr>fl_remaining := fl_remaining layer + change, fl_version := Suc (fl_version l)\<rparr> else l) `
      set (layers db)"
proof -
  have "fl_id l = fl_id layer \<longleftrightarrow> fl_id l = fl_id layer \<and> fl_tenant l = mv_tenant movement" if "l \<in> set (layers db)" for l
    using same_layer [OF assms(1) that assms(2)] assms(3) by auto
  then show ?thesis
    by (auto simp: moveLayer_def set_update_where image_iff)
qed

lemma moveLayer_inv:
  assumes inv: "fifo_inv db" and l: "layer \<in> set (layers db)" "fl_tenant layer = mv_tenant movement"
    and r: "0 \<le> fl_remaining layer + change" "fl_remaining layer + change \<le> fl_original layer"
  shows "fifo_inv (moveLayer movement layer change cost cur mode src db)"
proof -
  let ?db = "moveLayer movement layer change cost cur mode src db"
  let ?new = "alloc_of movement db (fl_id layer) change cost cur mode src"
  have issued: "issued ?db = insert (env_uuid db (ticks db)) (issued db)"
    by (auto simp: moveLayer_def issued_def lessThan_Suc)
  have allocs: "allocs ?db = allocs db @ [?new]" by (simp add: moveLayer_def)
  have newid: "fa_id ?new = env_uuid db (ticks db)" "fa_layer ?new = fl_id layer" "fa_tenant ?new = fl_tenant layer" "fa_quantity ?new = change"
    using l(2) by (simp_all add: alloc_of_def)
  have ids: "map fl_id (layers ?db) = map fl_id (layers db)"
    by (simp add: moveLayer_def)
  then have idset: "fl_id ` set (layers ?db) = fl_id ` set (layers db)"
    by (metis set_map)
  have "layer_check l' \<and> fl_remaining l' = layerLedger l' ?db" if "l' \<in> set (layers ?db)" for l'
  proof -
    from that obtain l0 where l0: "l0 \<in> set (layers db)"
      "l' = (if fl_id l0 = fl_id layer then l0\<lparr>fl_remaining := fl_remaining layer + change, fl_version := Suc (fl_version l0)\<rparr> else l0)"
      unfolding moveLayer_layers [OF inv l] by blast
    have old: "layer_check l0" "fl_remaining l0 = layerLedger l0 db"
      using fifo_invD(7,8) [OF inv l0(1)] by blast+
    have led: "layerLedger l' ?db = layerLedger l0 db + (if fl_id layer = fl_id l0 \<and> fl_tenant layer = fl_tenant l0 then change else 0)"
      using l0(2) newid by (auto simp: layerLedger_def allocs openingQuantity_def)
    show ?thesis
    proof (cases "fl_id l0 = fl_id layer")
      case True
      then have "l0 = layer" using same_layer [OF inv l0(1) l(1)] by simp
      then show ?thesis using True l0(2) old led r by (auto simp: layer_check_def)
    next
      case False
      then show ?thesis using l0(2) old led by simp
    qed
  qed
  moreover have "env_uuid ?db = env_uuid db" by (simp add: moveLayer_def)
  moreover have "distinct (map fa_id (allocs ?db))"
    using fifo_invD(3,5) [OF inv] fresh_not_issued [OF fifo_invD(1) [OF inv]] by (auto simp: allocs newid)
  moreover have "fa_layer ` set (allocs ?db) \<subseteq> fl_id ` set (layers db)"
    using fifo_invD(6) [OF inv] l(1) by (auto simp: allocs newid)
  ultimately show ?thesis
    unfolding fifo_inv_def using fifo_invD(1-4) [OF inv]
    by (auto simp: issued idset ids allocs newid)
qed

section \<open>Consumption\<close>

definition liveLayer :: "movement_row \<Rightarrow> fifo_layer \<Rightarrow> inv_db \<Rightarrow> bool" where
  "liveLayer movement l db \<longleftrightarrow> fifo_inv db \<and> l \<in> set (layers db) \<and>
     fl_tenant l = mv_tenant movement \<and> fl_product l = mv_product movement"

definition remainingOf :: "id \<Rightarrow> inv_db \<Rightarrow> int" where
  "remainingOf k db = sum_where (\<lambda>l. fl_id l = k) fl_remaining (layers db)"

definition drawnValue :: "fifo_layer \<Rightarrow> int \<Rightarrow> int" where
  "drawnValue l c = quantityValue (- c) (fl_unit_cost l)"

definition untouched :: "movement_row \<Rightarrow> fifo_layer \<Rightarrow> inv_db \<Rightarrow> bool" where
  "untouched movement l db \<longleftrightarrow> \<not> allocated movement (fl_id l) db"

lemma remainingOf_layer:
  assumes "fifo_inv db" "l \<in> set (layers db)"
  shows "remainingOf (fl_id l) db = fl_remaining l"
proof -
  have "distinct (map fl_id ls) \<Longrightarrow> l \<in> set ls \<Longrightarrow> sum_where (\<lambda>q. fl_id q = fl_id l) fl_remaining ls = fl_remaining l" for ls
  proof (induction ls)
    case (Cons a ls)
    show ?case
    proof (cases "a = l")
      case True
      then have "sum_where (\<lambda>q. fl_id q = fl_id l) fl_remaining ls = 0"
        by (intro sum_where_none) (use Cons.prems(1) in \<open>auto simp: image_iff\<close>)
      with True show ?thesis by simp
    next
      case False
      then have "l \<in> set ls" using Cons.prems(2) by simp
      then have "fl_id a \<noteq> fl_id l" using Cons.prems(1) by (auto simp: image_iff)
      with Cons \<open>l \<in> set ls\<close> show ?thesis by simp
    qed
  qed simp
  then show ?thesis using fifo_invD(4) [OF assms(1)] assms(2) by (simp add: remainingOf_def)
qed

text \<open>How a moved layer changes the sums over the table.\<close>

lemma moveLayer_sum:
  assumes "fifo_inv db" "layer \<in> set (layers db)" "fl_tenant layer = mv_tenant movement"
    "\<And>l. p (l\<lparr>fl_remaining := fl_remaining layer + change, fl_version := Suc (fl_version l)\<rparr>) = p l"
  shows "sum_where p fl_remaining (layers (moveLayer movement layer change cost cur mode src db))
       = sum_where p fl_remaining (layers db) + (if p layer then change else 0)"
proof -
  let ?q = "\<lambda>l. fl_id l = fl_id layer \<and> fl_tenant l = mv_tenant movement"
  let ?u = "\<lambda>l. l\<lparr>fl_remaining := fl_remaining layer + change, fl_version := Suc (fl_version l)\<rparr>"
  have t: "layers (moveLayer movement layer change cost cur mode src db) = update_where ?q ?u (layers db)"
    by (simp add: moveLayer_def)
  have "sum_where p fl_remaining (update_where ?q ?u (layers db)) =
      sum_where p fl_remaining (layers db) + (if p layer then fl_remaining (?u layer) - fl_remaining layer else 0)"
    by (rule sum_where_update_key [where key = fl_id and k = "fl_id layer"])
      (use assms(2-4) fifo_invD(4) [OF assms(1)] in simp_all)
  then show ?thesis unfolding t by simp
qed

lemma moveLayer_other:
  assumes "fifo_inv db" "layer \<in> set (layers db)" "fl_tenant layer = mv_tenant movement"
    "l \<in> set (layers db)" "fl_id l \<noteq> fl_id layer"
  shows "l \<in> set (layers (moveLayer movement layer change cost cur mode src db))"
  using assms(4,5) unfolding moveLayer_layers [OF assms(1-3)] by force

lemma consumeLayer_inv:
  "liveLayer movement r db \<Longrightarrow> 0 < c \<Longrightarrow> c \<le> fl_remaining r \<Longrightarrow> consumeLayer movement mode r c db = Inr (v, db') \<Longrightarrow> fifo_inv db'"
  unfolding consumeLayer_Inr liveLayer_def
  using moveLayer_inv [of db r movement "- c"] fifo_invD(7) [of db r] by (auto simp: layer_check_def)

interpretation fifo_body: greedy_body_left fl_remaining "consumeLayer movement mode" fl_id
    "liveLayer movement" "layerQuantity (mv_tenant movement) (mv_product movement)" drawnValue remainingOf
  for movement mode
proof
  fix r q :: fifo_layer and c v :: int and k :: id and s s' :: inv_db
  assume live: "liveLayer movement r s"
  then have inv: "fifo_inv s" "r \<in> set (layers s)" "fl_tenant r = mv_tenant movement" "fl_product r = mv_product movement"
    by (simp_all add: liveLayer_def)
  show "remainingOf (fl_id r) s = fl_remaining r" using remainingOf_layer [OF inv(1,2)] .
  assume c: "0 < c" "c \<le> fl_remaining r" and run: "consumeLayer movement mode r c s = Inr (v, s')"
  then have s': "s' = moveLayer movement r (- c) (fl_unit_cost r) (fl_currency r) mode None s"
    by (simp add: consumeLayer_Inr)
  show "layerQuantity (mv_tenant movement) (mv_product movement) s' = layerQuantity (mv_tenant movement) (mv_product movement) s - c"
    unfolding s' layerQuantity_def by (subst moveLayer_sum [OF inv(1-3)]) (use inv in simp_all)
  show "remainingOf (fl_id r) s' = fl_remaining r - c"
    unfolding s' remainingOf_def by (subst moveLayer_sum [OF inv(1-3)])
      (use remainingOf_layer [OF inv(1,2)] in \<open>simp_all add: remainingOf_def\<close>)
  { assume "k \<noteq> fl_id r"
    then show "remainingOf k s' = remainingOf k s"
      unfolding s' remainingOf_def by (subst moveLayer_sum [OF inv(1-3)]) auto }
  { assume q: "liveLayer movement q s" "fl_id q \<noteq> fl_id r"
    then show "liveLayer movement q s'"
      using consumeLayer_inv [OF live c run] moveLayer_other [OF inv(1-3), of q]
      by (simp add: liveLayer_def s') }
next
  fix r :: fifo_layer and c v :: int and s s' :: inv_db
  assume "consumeLayer movement mode r c s = Inr (v, s')"
  then show "v = drawnValue r c" by (simp add: consumeLayer_Inr drawnValue_def)
qed

interpretation fifo_total: greedy_body_total fl_remaining "consumeLayer movement mode" fl_id
    "liveLayer movement" "layerQuantity (mv_tenant movement) (mv_product movement)" drawnValue "untouched movement"
  for movement mode
proof
  fix r q :: fifo_layer and c v :: int and s s' :: inv_db
  assume live: "liveLayer movement r s"
  { assume "untouched movement r s" "0 < c" "c \<le> fl_remaining r"
    then show "\<exists>v s'. consumeLayer movement mode r c s = Inr (v, s')"
      using live fifo_invD(7) [of s r] by (simp add: consumeLayer_Inr untouched_def liveLayer_def layer_check_def) }
  { assume "untouched movement q s" "fl_id q \<noteq> fl_id r" "consumeLayer movement mode r c s = Inr (v, s')"
    then show "untouched movement q s'"
      by (auto simp: consumeLayer_Inr untouched_def allocated_def moveLayer_def alloc_of_def) }
qed

section \<open>What consumption does\<close>

definition fresh_movement :: "movement_row \<Rightarrow> inv_db \<Rightarrow> bool" where
  "fresh_movement movement db \<longleftrightarrow>
     (\<forall>a\<in>set (allocs db). \<not> (fa_tenant a = mv_tenant movement \<and> fa_movement a = mv_id movement))"

lemma consumableLayers_rows:
  "l \<in> set (consumableLayers movement rl tline db) \<Longrightarrow>
     l \<in> set (layers db) \<and> fl_tenant l = mv_tenant movement \<and> fl_product l = mv_product movement \<and>
     fl_location l = mv_location movement \<and> 0 < fl_remaining l"
  by (simp add: consumableLayers_def)

lemma consumableLayers_distinct:
  assumes "fifo_inv db"
  shows "distinct (map fl_id (consumableLayers movement rl tline db))"
proof -
  have d: "distinct (map fl_id (layers db))" by (rule fifo_invD(4) [OF assms])
  have "distinct (consumableLayers movement rl tline db)"
    using d by (simp add: consumableLayers_def distinct_map)
  moreover have "inj_on fl_id (set (consumableLayers movement rl tline db))"
    using d unfolding distinct_map by (rule inj_on_subset [OF conjunct2]) (use consumableLayers_rows in blast)
  ultimately show ?thesis by (simp add: distinct_map)
qed

lemma consumableLayers_live:
  assumes "fifo_inv db"
  shows "\<forall>l\<in>set (consumableLayers movement rl tline db). liveLayer movement l db \<and> 0 \<le> fl_remaining l"
  using consumableLayers_rows [of _ movement rl tline db] assms by (fastforce simp: liveLayer_def)

abbreviation consumable_stock :: "movement_row \<Rightarrow> id option \<Rightarrow> id option \<Rightarrow> inv_db \<Rightarrow> int" where
  "consumable_stock movement rl tline db \<equiv> sum_list (map fl_remaining (consumableLayers movement rl tline db))"

lemma consumable_stock_nonneg: "0 \<le> consumable_stock movement rl tline db"
  by (rule sum_list_nonneg_int) (use consumableLayers_rows in fastforce)

lemma consumeLayers_run:
  assumes "consumeLayers movement q rl tline db = Inr (v, db')"
  obtains mode where "consume_loop fl_remaining (consumeLayer movement mode) (consumableLayers movement rl tline db) q 0 db = Inr ((0, v), db')"
  using assms by (auto simp: consumeLayers_def runM split: prod.splits)

text \<open>Consumption answers in every state: it succeeds exactly when the layers hold enough, and
  fails with a shortage otherwise.\<close>

lemma consumeLayers_total:
  assumes inv: "fifo_inv db" and fresh: "fresh_movement movement db" and q: "0 \<le> q"
  shows "if q \<le> consumable_stock movement rl tline db
         then \<exists>v db'. consumeLayers movement q rl tline db = Inr (v, db')
         else consumeLayers movement q rl tline db = Inl InventoryFifoLayerShortageError"
proof -
  let ?rows = "consumableLayers movement rl tline db"
  let ?mode = "if rl \<noteq> None then ModeOriginReturn else ModeFifo"
  have live: "\<forall>r\<in>set ?rows. liveLayer movement r db \<and> untouched movement r db \<and> 0 \<le> fl_remaining r"
    using consumableLayers_live [OF inv] fresh by (auto simp: untouched_def allocated_def fresh_movement_def)
  obtain rem tot db' where run: "consume_loop fl_remaining (consumeLayer movement ?mode) ?rows q 0 db = Inr ((rem, tot), db')"
    using fifo_total.loop_runs [OF consumableLayers_distinct [OF inv] live q] by blast
  have "rem = q - min q (consumable_stock movement rl tline db)"
    using fifo_body.loop_remaining [OF run consumableLayers_distinct [OF inv] consumableLayers_live [OF inv] q] .
  then show ?thesis
    using run by (auto simp: consumeLayers_def evalM)
qed

lemma consumeLayers_inv:
  assumes inv: "fifo_inv db" and q: "0 \<le> q" and run: "consumeLayers movement q rl tline db = Inr (v, db')"
  shows "fifo_inv db'"
proof -
  obtain mode where loop: "consume_loop fl_remaining (consumeLayer movement mode) (consumableLayers movement rl tline db) q 0 db = Inr ((0, v), db')"
    using run by (rule consumeLayers_run)
  show ?thesis
    by (rule fifo_body.loop_invariant [where I = fifo_inv, OF _ loop consumableLayers_distinct [OF inv] consumableLayers_live [OF inv] q inv])
      (rule consumeLayer_inv)
qed

text \<open>What is left of every layer, in the order of consumption.\<close>

lemma consumeLayers_left:
  assumes inv: "fifo_inv db" and q: "0 \<le> q" and run: "consumeLayers movement q rl tline db = Inr (v, db')"
    and rows: "rows = consumableLayers movement rl tline db"
  shows "i < length rows \<Longrightarrow> remainingOf (fl_id (rows ! i)) db' = fl_remaining (rows ! i) - plan (map fl_remaining rows) q ! i"
    and "k \<notin> fl_id ` set rows \<Longrightarrow> remainingOf k db' = remainingOf k db"
    and "layerQuantity (mv_tenant movement) (mv_product movement) db' = layerQuantity (mv_tenant movement) (mv_product movement) db - q"
    and "v = sum_list (map2 (\<lambda>r c. if c = 0 then 0 else quantityValue (- c) (fl_unit_cost r)) rows (plan (map fl_remaining rows) q))"
    and "\<lbrakk>i < j; j < length rows; remainingOf (fl_id (rows ! j)) db' < fl_remaining (rows ! j)\<rbrakk> \<Longrightarrow> remainingOf (fl_id (rows ! i)) db' = 0"
proof -
  obtain mode where loop: "consume_loop fl_remaining (consumeLayer movement mode) rows q 0 db = Inr ((0, v), db')"
    using run unfolding rows by (rule consumeLayers_run)
  note side = consumableLayers_distinct [OF inv, of movement rl tline, folded rows] consumableLayers_live [OF inv, of movement rl tline, folded rows] q
  note R = fifo_body.loop_result [OF loop side]
  show "i < length rows \<Longrightarrow> remainingOf (fl_id (rows ! i)) db' = fl_remaining (rows ! i) - plan (map fl_remaining rows) q ! i"
    by (rule fifo_body.loop_left [OF loop side])
  show "k \<notin> fl_id ` set rows \<Longrightarrow> remainingOf k db' = remainingOf k db"
    by (rule fifo_body.loop_left_other [OF loop side])
  show "layerQuantity (mv_tenant movement) (mv_product movement) db' = layerQuantity (mv_tenant movement) (mv_product movement) db - q"
    using R(1,3) by simp
  show "v = sum_list (map2 (\<lambda>r c. if c = 0 then 0 else quantityValue (- c) (fl_unit_cost r)) rows (plan (map fl_remaining rows) q))"
    using R(2) unfolding drawnValue_def by simp
  show "\<lbrakk>i < j; j < length rows; remainingOf (fl_id (rows ! j)) db' < fl_remaining (rows ! j)\<rbrakk> \<Longrightarrow> remainingOf (fl_id (rows ! i)) db' = 0"
    by (rule fifo_body.loop_order [OF loop side])
qed

section \<open>What a movement's allocations add up to\<close>

definition movementQuantity :: "movement_row \<Rightarrow> inv_db \<Rightarrow> int" where
  "movementQuantity movement db =
     sum_where (\<lambda>a. fa_tenant a = mv_tenant movement \<and> fa_movement a = mv_id movement) fa_quantity (allocs db)"

definition movementValue :: "movement_row \<Rightarrow> inv_db \<Rightarrow> int" where
  "movementValue movement db =
     sum_where (\<lambda>a. fa_tenant a = mv_tenant movement \<and> fa_movement a = mv_id movement) fa_value (allocs db)"

lemma insertAllocation_sums:
  assumes "insertAllocation movement L q c cur mode src db = Inr (v, db')"
  shows "movementQuantity movement db' = movementQuantity movement db + q \<and>
    movementValue movement db' = movementValue movement db + v"
  using assms by (auto simp: insertAllocation_Inr movementQuantity_def movementValue_def alloc_of_def)

lemma setRemaining_sums:
  assumes "setRemaining t L q db = Inr (u, db')"
  shows "movementQuantity movement db' = movementQuantity movement db \<and>
    movementValue movement db' = movementValue movement db"
  using assms by (auto simp: setRemaining_Inr movementQuantity_def movementValue_def)

lemma consumeLayer_sums:
  assumes "consumeLayer movement mode r c db = Inr (v, db')"
  shows "movementQuantity movement db' = movementQuantity movement db - c \<and>
    movementValue movement db' = movementValue movement db + v"
  using assms by (auto simp: consumeLayer_Inr movementQuantity_def movementValue_def moveLayer_def alloc_of_def)

lemma consumeLayers_sums:
  assumes run: "consumeLayers movement q rl tline db = Inr (v, db')"
  shows "movementQuantity movement db' = movementQuantity movement db - q \<and>
    movementValue movement db' = movementValue movement db + v"
proof -
  obtain mode where loop: "consume_loop fl_remaining (consumeLayer movement mode) (consumableLayers movement rl tline db) q 0 db = Inr ((0, v), db')"
    using run by (rule consumeLayers_run)
  have "movementQuantity movement db' = movementQuantity movement db - q"
    using consume_loop_drawn [where f = "movementQuantity movement", OF conjunct1 [OF consumeLayer_sums] loop] by simp
  moreover have "movementValue movement db' = movementValue movement db + v"
    using consume_loop_reported [where f = "movementValue movement", OF conjunct2 [OF consumeLayer_sums] loop] by simp
  ultimately show ?thesis by simp
qed

lemma assertCurrency_same: "assertCurrency movement cur db = Inr (u, db') \<Longrightarrow> db' = db"
  by (auto simp: assertCurrency_def runM split: option.splits)


lemma createLayer_sums:
  assumes "createLayer movement q c cur orig acq mode srcl rl srca db = Inr (v, db')"
  shows "movementQuantity movement db' = movementQuantity movement db + q \<and>
    movementValue movement db' = movementValue movement db + v"
  using assms by (auto simp: createLayer_def runM Let_def insertAllocation_Inr movementQuantity_def movementValue_def alloc_of_def
      dest!: assertCurrency_same)

lemma restoreAllocation_Inr:
  "restoreAllocation movement x n db = Inr (v, db') \<longleftrightarrow>
     (\<exists>l. List.find (\<lambda>l. fl_id l = fa_layer x \<and> fl_tenant l = mv_tenant movement) (layers db) = Some l \<and>
        fl_remaining l + n \<le> fl_original l \<and> \<not> allocated movement (fa_layer x) db \<and> n \<noteq> 0 \<and> 0 \<le> fa_unit_cost x \<and>
        v = quantityValue n (fa_unit_cost x) \<and>
        db' = moveLayer movement l n (fa_unit_cost x) (fa_currency x) ModeRestore (Some (fa_id x)) db)"
proof (cases "List.find (\<lambda>l. fl_id l = fa_layer x \<and> fl_tenant l = mv_tenant movement) (layers db)")
  case None
  then show ?thesis by (simp add: restoreAllocation_def runM)
next
  case (Some l)
  then have key: "fl_id l = fa_layer x" using find_Some_props [OF Some] by simp
  show ?thesis
    by (auto simp: restoreAllocation_def runM Let_def Some setRemaining_Inr insertAllocation_Inr moveLayer_def alloc_of_def allocated_def key)
qed

lemma restoreLoop_cases:
  assumes "restoreLoop movement q ((x, y) # as) r tot db = Inr (res, db')"
  obtains (skip) "restoreLoop movement q as r tot db = Inr (res, db')"
  | (restore) n v db1 where "n = min (restorable movement x db) (q - r)" "0 < n"
      "restoreAllocation movement x n db = Inr (v, db1)"
      "restoreLoop movement q as (r + n) (tot + v) db1 = Inr (res, db')"
proof -
  define n where "n = (if restorable movement x db < q - r then restorable movement x db else q - r)"
  have n: "n = min (restorable movement x db) (q - r)" by (simp add: n_def min_def)
  have "(if n \<le> 0 then restoreLoop movement q as r tot
         else bindM (restoreAllocation movement x n) (\<lambda>v. restoreLoop movement q as (r + n) (tot + v))) db = Inr (res, db')"
    using assms unfolding n_def restoreLoop.simps by (simp add: bindM_def readM_def Let_def)
  then show ?thesis
    using skip restore [OF n] by (auto simp: bindM_Inr split: if_splits)
qed

lemma moveLayer_sums:
  "movementQuantity movement (moveLayer movement l n c cur mode src db) = movementQuantity movement db + n \<and>
   movementValue movement (moveLayer movement l n c cur mode src db) = movementValue movement db + quantityValue n c"
  by (simp add: moveLayer_def movementQuantity_def movementValue_def alloc_of_def)

lemma restoreLoop_sums:
  "restoreLoop movement q as r tot db = Inr ((r', tot'), db') \<Longrightarrow>
   movementQuantity movement db' = movementQuantity movement db + (r' - r) \<and>
   movementValue movement db' = movementValue movement db + (tot' - tot)"
proof (induction as arbitrary: r tot db)
  case Nil
  then show ?case by simp
next
  case (Cons a as)
  obtain x y where a: "a = (x, y)" by (cases a)
  from Cons.prems show ?case
    unfolding a
  proof (cases rule: restoreLoop_cases)
    case skip
    then show ?thesis by (rule Cons.IH)
  next
    case restore
    then show ?thesis using Cons.IH [OF restore(4)] by (auto simp: restoreAllocation_Inr moveLayer_sums)
  qed
qed

lemma transferLoop_sums:
  "transferLoop movement as r tot db = Inr ((r', tot'), db') \<Longrightarrow>
   movementQuantity movement db' = movementQuantity movement db + (r' - r) \<and>
   movementValue movement db' = movementValue movement db + (tot' - tot)"
proof (induction as arbitrary: r tot db)
  case Nil
  then show ?case by simp
next
  case (Cons a as)
  obtain x y where a: "a = (x, y)" by (cases a)
  from Cons.prems show ?case
    unfolding a transferLoop.simps Let_def
    by (auto simp: runM split: if_splits dest!: Cons.IH createLayer_sums)
qed


section \<open>The other branches keep the invariant\<close>

definition layer_of ::
  "movement_row \<Rightarrow> inv_db \<Rightarrow> int \<Rightarrow> int \<Rightarrow> string \<Rightarrow> layer_origin \<Rightarrow> nat \<Rightarrow> id option \<Rightarrow> id option \<Rightarrow> fifo_layer" where
  "layer_of movement db q c cur orig acq srcl rl =
     \<lparr>fl_id = env_uuid db (ticks db), fl_tenant = mv_tenant movement, fl_product = mv_product movement,
      fl_location = mv_location movement, fl_source_movement = Some (mv_id movement), fl_source_layer = srcl,
      fl_receipt_line = rl, fl_origin = orig, fl_original = q, fl_remaining = q, fl_unit_cost = c,
      fl_currency = cur, fl_acquired_at = acq, fl_version = 1, fl_created_at = env_clock db (ticks db)\<rparr>"

definition addLayer where
  "addLayer movement q c cur orig acq mode srcl rl srca db =
     db\<lparr>layers := layers db @ [layer_of movement db q c cur orig acq srcl rl], ticks := Suc (Suc (ticks db)),
        allocs := allocs db @ [alloc_of movement (db\<lparr>ticks := Suc (ticks db)\<rparr>) (env_uuid db (ticks db)) q c cur mode srca]\<rparr>"

lemma createLayer_Inr:
  assumes "createLayer movement q c cur orig acq mode srcl rl srca db = Inr (v, db')"
  shows "layer_check (layer_of movement db q c cur orig acq srcl rl)" "v = quantityValue q c" "q \<noteq> 0"
    "db' = addLayer movement q c cur orig acq mode srcl rl srca db"
  using assms
  by (auto simp: createLayer_def runM Let_def insertAllocation_Inr addLayer_def alloc_of_def layer_of_def dest!: assertCurrency_same)

lemma addLayer_ledger:
  assumes "fifo_inv db" "l \<in> set (layers db)"
  shows "layerLedger l (addLayer movement q c cur orig acq mode srcl rl srca db) = layerLedger l db"
proof -
  have "fl_id l \<noteq> env_uuid db (ticks db)"
    using fifo_invD(2) [OF assms(1)] fresh_not_issued [OF fifo_invD(1) [OF assms(1)]] assms(2) by (metis image_subset_iff)
  then show ?thesis by (auto simp: layerLedger_def addLayer_def alloc_of_def)
qed

lemma addLayer_ledger_new:
  assumes "fifo_inv db" "orig \<noteq> MigrationCut"
  shows "layerLedger (layer_of movement db q c cur orig acq srcl rl) (addLayer movement q c cur orig acq mode srcl rl srca db) = q"
proof -
  have "fa_layer a \<noteq> env_uuid db (ticks db)" if "a \<in> set (allocs db)" for a
  proof -
    have "fa_layer a \<in> issued db"
      using fifo_invD(2,6) [OF assms(1)] imageI [OF that, of fa_layer] by (meson subsetD)
    then show ?thesis using fresh_not_issued [OF fifo_invD(1) [OF assms(1)]] by metis
  qed
  then have "sum_where (\<lambda>a. fa_layer a = env_uuid db (ticks db) \<and> fa_tenant a = mv_tenant movement) fa_quantity (allocs db) = 0"
    by (intro sum_where_none) simp
  then show ?thesis
    using assms(2) by (simp add: layerLedger_def addLayer_def alloc_of_def layer_of_def openingQuantity_def)
qed

lemma addLayer_inv:
  assumes inv: "fifo_inv db" and ok: "layer_check (layer_of movement db q c cur orig acq srcl rl)" and orig: "orig \<noteq> MigrationCut"
  shows "fifo_inv (addLayer movement q c cur orig acq mode srcl rl srca db)" (is "fifo_inv ?db")
proof -
  let ?new = "layer_of movement db q c cur orig acq srcl rl"
  have issued: "issued ?db = {env_uuid db (ticks db), env_uuid db (Suc (ticks db))} \<union> issued db"
    by (auto simp: addLayer_def issued_def lessThan_Suc)
  have inj: "inj (env_uuid db)" by (rule fifo_invD(1) [OF inv])
  have fresh: "env_uuid db (ticks db) \<notin> issued db" "env_uuid db (Suc (ticks db)) \<notin> issued db"
    using inj by (simp_all add: issued_def inj_image_mem_iff)
  have ls: "layers ?db = layers db @ [?new]" by (simp add: addLayer_def)
  have "layer_check l \<and> fl_remaining l = layerLedger l ?db" if "l \<in> set (layers ?db)" for l
  proof (cases "l \<in> set (layers db)")
    case True
    then show ?thesis using fifo_invD(7,8) [OF inv True] addLayer_ledger [OF inv True] by simp
  next
    case False
    then have "l = ?new" using that ls by simp
    then show ?thesis using ok addLayer_ledger_new [OF inv orig] by (simp add: layer_of_def)
  qed
  moreover have "env_uuid ?db = env_uuid db" by (simp add: addLayer_def)
  moreover have "fl_id ` set (layers ?db) = insert (env_uuid db (ticks db)) (fl_id ` set (layers db))"
    "distinct (map fl_id (layers ?db))"
    using fifo_invD(2,4) [OF inv] fresh by (auto simp: ls layer_of_def)
  moreover have "fa_id ` set (allocs ?db) = insert (env_uuid db (Suc (ticks db))) (fa_id ` set (allocs db))"
    "fa_layer ` set (allocs ?db) = insert (env_uuid db (ticks db)) (fa_layer ` set (allocs db))"
    "distinct (map fa_id (allocs ?db))"
    using fifo_invD(3,5) [OF inv] fresh by (auto simp: addLayer_def alloc_of_def)
  ultimately show ?thesis
    unfolding fifo_inv_def issued using fifo_invD(2,3,6) [OF inv] inj by auto
qed

lemma createLayer_inv:
  "createLayer movement q c cur orig acq mode srcl rl srca db = Inr (v, db') \<Longrightarrow> orig \<noteq> MigrationCut \<Longrightarrow> fifo_inv db \<Longrightarrow> fifo_inv db'"
  using createLayer_Inr(1,4) [of movement q c cur orig acq mode srcl rl srca db v db'] addLayer_inv by metis

lemma restoreAllocation_inv:
  assumes run: "restoreAllocation movement x n db = Inr (v, db')" and n: "0 < n" and inv: "fifo_inv db"
  shows "fifo_inv db'"
proof -
  obtain l where f: "List.find (\<lambda>l. fl_id l = fa_layer x \<and> fl_tenant l = mv_tenant movement) (layers db) = Some l"
    and room: "fl_remaining l + n \<le> fl_original l"
    and db': "db' = moveLayer movement l n (fa_unit_cost x) (fa_currency x) ModeRestore (Some (fa_id x)) db"
    using run by (auto simp: restoreAllocation_Inr)
  have l: "l \<in> set (layers db)" "fl_tenant l = mv_tenant movement"
    using find_Some_props [OF f] by simp_all
  show ?thesis
    unfolding db' by (rule moveLayer_inv [OF inv l])
      (use n room fifo_invD(7) [OF inv l(1)] in \<open>simp_all add: layer_check_def\<close>)
qed

lemma restoreLoop_inv:
  "restoreLoop movement q as r tot db = Inr (res, db') \<Longrightarrow> fifo_inv db \<Longrightarrow> fifo_inv db'"
proof (induction as arbitrary: r tot db)
  case Nil
  then show ?case by simp
next
  case (Cons a as)
  obtain x y where a: "a = (x, y)" by (cases a)
  from Cons.prems(1) show ?case
    unfolding a
  proof (cases rule: restoreLoop_cases)
    case skip
    then show ?thesis using Cons.IH Cons.prems(2) by blast
  next
    case restore
    then show ?thesis using Cons.IH [OF restore(4)] restoreAllocation_inv [OF restore(3,2)] Cons.prems(2) by blast
  qed
qed

lemma transferLoop_inv:
  "transferLoop movement as r tot db = Inr (res, db') \<Longrightarrow> fifo_inv db \<Longrightarrow> fifo_inv db'"
proof (induction as arbitrary: r tot db)
  case Nil
  then show ?case by simp
next
  case (Cons a as)
  obtain x y where a: "a = (x, y)" by (cases a)
  from Cons.prems show ?case
    unfolding a transferLoop.simps Let_def
    by (auto simp: runM split: if_splits intro: Cons.IH dest!: createLayer_inv)
qed

lemma sourceCost_same: "sourceCost movement country db = Inr (r, db') \<Longrightarrow> db' = db"
  by (auto simp: sourceCost_def runM split: if_splits option.splits)

lemma receiptLineForReturn_same: "receiptLineForReturn movement db = Inr (r, db') \<Longrightarrow> db' = db"
  by (auto simp: receiptLineForReturn_def runM)

text \<open>The branches of a successful value change.\<close>

lemma fifoValueChange_cases:
  assumes "fifoValueChange movement country q db = Inr (v, db')"
  obtains
    (restore) "0 < q" "mv_type movement \<in> {SALE_VOID, SALE_RETURN}" "restoreSale movement q db = Inr (v, db')"
  | (transfer) "0 < q" "mv_type movement = TRANSFER_IN" "transferLayers movement q db = Inr (v, db')"
  | (create) c cur orig where "0 < q" "orig \<noteq> MigrationCut" "mv_type movement \<notin> {SALE_VOID, SALE_RETURN, TRANSFER_IN}"
      "createLayer movement q c cur orig (mv_created_at movement) ModeEntry None (mv_receipt_line movement) None db = Inr (v, db')"
  | (consume) rl tline where "q < 0" "consumeLayers movement (- q) rl tline db = Inr (v, db')"
  | (none) "q = 0" "v = 0" "db' = db"
proof -
  consider "0 < q" "mv_type movement \<in> {SALE_VOID, SALE_RETURN}" | "0 < q" "mv_type movement = TRANSFER_IN"
    | "0 < q" "mv_type movement \<notin> {SALE_VOID, SALE_RETURN, TRANSFER_IN}" | "q < 0" | "q = 0" by fastforce
  then show ?thesis
  proof cases
    case 1
    then show ?thesis using assms restore by (auto simp: fifoValueChange_def)
  next
    case 2
    then show ?thesis using assms transfer by (simp add: fifoValueChange_def)
  next
    case 3
    then have "bindM (sourceCost movement country) (\<lambda>(unitCost, currency).
                createLayer movement q unitCost currency
                  (if mv_type movement = PURCHASE_RECEIPT then OriginPurchaseReceipt
                   else if mv_type movement = RETURN then OriginReturn else OriginEntry)
                  (mv_created_at movement) ModeEntry None (mv_receipt_line movement) None) db = Inr (v, db')"
      using assms by (simp add: fifoValueChange_def)
    then show ?thesis
      using create [OF 3(1) _ 3(2)] by (auto simp: runM dest!: sourceCost_same split: prod.splits if_splits)
  next
    case 4
    then show ?thesis
      using assms consume
      by (auto simp: fifoValueChange_def runM dest!: receiptLineForReturn_same split: if_splits)
  next
    case 5
    then show ?thesis using assms none by (auto simp: fifoValueChange_def)
  qed
qed

lemma fifoValueChange_inv:
  assumes "fifoValueChange movement country q db = Inr (v, db')" "fifo_inv db"
  shows "fifo_inv db'"
  using assms(1)
proof (cases rule: fifoValueChange_cases)
  case restore
  then show ?thesis using assms(2) by (auto simp: restoreSale_def runM dest!: restoreLoop_inv split: prod.splits)
next
  case transfer
  then show ?thesis using assms(2) by (auto simp: transferLayers_def runM dest!: transferLoop_inv split: prod.splits)
next
  case create
  then show ?thesis using assms(2) createLayer_inv by blast
next
  case consume
  then show ?thesis using assms(2) consumeLayers_inv [of db "- q"] by simp
next
  case none
  then show ?thesis using assms(2) by simp
qed

lemma fifoValueChange_sums:
  assumes "fifoValueChange movement country q db = Inr (v, db')"
  shows "movementQuantity movement db' = movementQuantity movement db + q \<and> movementValue movement db' = movementValue movement db + v"
  using assms(1)
proof (cases rule: fifoValueChange_cases)
  case restore
  then show ?thesis by (auto simp: restoreSale_def runM dest!: restoreLoop_sums split: prod.splits)
next
  case transfer
  then show ?thesis by (auto simp: transferLayers_def runM dest!: transferLoop_sums split: prod.splits)
next
  case create
  then show ?thesis using createLayer_sums by blast
next
  case consume
  then show ?thesis using consumeLayers_sums by fastforce
next
  case none
  then show ?thesis by simp
qed

section \<open>Frames\<close>

lemma keeps_fifoValueChange:
  assumes s: "\<And>L q. keeps f (setRemaining (mv_tenant movement) L q)"
    and a: "\<And>L q c cur mode src. keeps f (insertAllocation movement L q c cur mode src)"
    and c: "\<And>q c cur orig acq mode srcl rl srca. keeps f (createLayer movement q c cur orig acq mode srcl rl srca)"
  shows "keeps f (fifoValueChange movement country q)"
proof -
  have one: "keeps f (restoreAllocation movement x n)" for x n
    unfolding restoreAllocation_def Let_def by (intro keeps_intros s a)
  have r: "keeps f (restoreLoop movement q xs r tot)" for q xs r tot
  proof (induction xs arbitrary: r tot)
    case (Cons p xs)
    then show ?case by (cases p) (simp add: Let_def keeps_bindM one)
  qed simp
  have t: "keeps f (transferLoop movement xs r tot)" for xs r tot
  proof (induction xs arbitrary: r tot)
    case (Cons p xs)
    then show ?case by (cases p) (simp add: Let_def keeps_bindM c)
  qed simp
  show ?thesis
    unfolding fifoValueChange_def restoreSale_def transferLayers_def consumeLayers_def consumeLayer_def
      sourceCost_def receiptLineForReturn_def
    by (intro keeps_intros s a c r t)
qed

lemma keeps_alloc_view:
  assumes "\<And>db n. f (db\<lparr>ticks := n\<rparr>) = f db" "\<And>db x. f (db\<lparr>layers := x\<rparr>) = f db" "\<And>db x. f (db\<lparr>allocs := x\<rparr>) = f db"
  shows "keeps f (setRemaining t L q)" "keeps f (insertAllocation movement L q c cur mode src)"
    "keeps f (createLayer movement q c cur orig acq mode srcl rl srca)"
proof -
  show 1: "keeps f (setRemaining t L q)" for t L q by (simp add: setRemaining_def keeps_writeM assms)
  show 2: "keeps f (insertAllocation movement L q c cur mode src)" for L q c cur mode src
    unfolding insertAllocation_def Let_def by (intro keeps_intros keeps_newRow assms)
  show "keeps f (createLayer movement q c cur orig acq mode srcl rl srca)"
    unfolding createLayer_def assertCurrency_def Let_def by (intro keeps_intros keeps_newRow assms 2)
qed

lemma keeps_ensureCutover: "(\<And>db x. f (db\<lparr>cutovers := x\<rparr>) = f db) \<Longrightarrow> keeps f (ensureCutover movement)"
  by (simp add: ensureCutover_def keeps_writeM)

section \<open>A successful application\<close>

lemma applyFifo_run:
  assumes "applyInventoryFifoValuation mid db = Inr (u, db')"
  obtains (already) movement where "selectMovement mid db = Some movement" "\<not> fresh_movement movement db" "db' = db"
  | (ran) movement country db1 v db2 where "selectMovement mid db = Some movement" "fresh_movement movement db"
      "ensureCutover movement db = Inr ((), db1)" "fifoValueChange movement country (mv_quantity movement) db1 = Inr (v, db2)"
      "updateMovementSummary movement (mv_quantity movement) v db2 = Inr ((), db')"
proof -
  have count: "filter (\<lambda>a. fa_tenant a = mv_tenant m \<and> fa_movement a = mv_id m) (allocs db) = [] \<longleftrightarrow> fresh_movement m db" for m
    by (simp add: fresh_movement_def filter_empty_conv)
  from assms obtain movement country where m: "selectMovement mid db = Some movement"
    and rest: "(if \<not> fresh_movement movement db then returnM ()
      else thenM (ensureCutover movement) (bindM (fifoValueChange movement country (mv_quantity movement))
             (updateMovementSummary movement (mv_quantity movement)))) db = Inr (u, db')"
    unfolding applyInventoryFifoValuation_def Let_def bindM_Inr readM_Inr requireM_Inr
    by (auto simp: count bindM_Inr split: option.splits)
  show ?thesis
  proof (cases "fresh_movement movement db")
    case True
    with rest show ?thesis by (auto simp: runM intro: ran [OF m True])
  next
    case False
    with rest show ?thesis by (intro already [OF m]) simp_all
  qed
qed

lemma ensureCutover_same_layers:
  assumes "ensureCutover movement db = Inr (u, db1)"
  shows "allocs db1 = allocs db" "layers db1 = layers db" "movements db1 = movements db" "valuations db1 = valuations db"
    "fifo_inv db \<Longrightarrow> fifo_inv db1"
  using assms by (auto simp: ensureCutover_def fifo_inv_def issued_def layerLedger_def)

lemma updateMovementSummary_Inr:
  assumes "updateMovementSummary movement q v db = Inr (u, db')"
  obtains w c where "selectValuation (mv_tenant movement) (mv_product movement) db = Some w"
    "layerQuantity (mv_tenant movement) (mv_product movement) db = va_quantity w"
    "db' = db\<lparr>movements := update_where (\<lambda>m. mv_id m = mv_id movement \<and> mv_tenant m = mv_tenant movement)
        (\<lambda>m. m\<lparr>mv_fifo_unit_cost := Some c, mv_fifo_value_change := Some v,
          mv_fifo_inventory_value := Some (round_div (layerValue (mv_tenant movement) (mv_product movement) db) 1000)\<rparr>) (movements db)\<rparr>"
  using assms by (auto simp: updateMovementSummary_def runM split: option.splits)

lemma fifo_inv_movements [simp]: "fifo_inv (db\<lparr>movements := x\<rparr>) = fifo_inv db"
  by (simp add: fifo_inv_def issued_def layerLedger_def)

lemma selectMovement_id: "selectMovement i db = Some m \<Longrightarrow> mv_id m = i"
  by (auto simp: selectMovement_def dest: find_Some_props)

lemma keeps_movements_valuations:
  "keeps movements (fifoValueChange movement country q)" "keeps valuations (fifoValueChange movement country q)"
  "keeps tenants (fifoValueChange movement country q)"
  by (intro keeps_fifoValueChange keeps_alloc_view; simp)+

section \<open>Facts of a whole application\<close>

lemma applyFifo_inv:
  assumes inv: "fifo_inv db" and run: "applyInventoryFifoValuation mid db = Inr (u, db')"
  shows "fifo_inv db'"
  using run
proof (cases rule: applyFifo_run)
  case already
  then show ?thesis using inv by simp
next
  case (ran movement country db1 v db2)
  show ?thesis
    by (rule updateMovementSummary_Inr [OF ran(5)])
      (simp add: fifoValueChange_inv [OF ran(4) ensureCutover_same_layers(5) [OF ran(3) inv]])
qed

lemma applyFifo_accounts:
  assumes run: "applyInventoryFifoValuation mid db = Inr (u, db')"
    and movement: "selectMovement mid db = Some movement" and fresh: "fresh_movement movement db"
  shows "movementQuantity movement db' = mv_quantity movement"
    "\<exists>m. selectMovement mid db' = Some m \<and> mv_fifo_value_change m = Some (movementValue movement db') \<and>
       mv_tenant m = mv_tenant movement \<and> mv_id m = mv_id movement"
    "\<exists>w. selectValuation (mv_tenant movement) (mv_product movement) db' = Some w \<and>
       layerQuantity (mv_tenant movement) (mv_product movement) db' = va_quantity w"
    "tenants db' = tenants db"
proof -
  obtain country db1 v db2 where ran: "ensureCutover movement db = Inr ((), db1)"
      "fifoValueChange movement country (mv_quantity movement) db1 = Inr (v, db2)"
      "updateMovementSummary movement (mv_quantity movement) v db2 = Inr ((), db')"
    using run movement fresh by (elim applyFifo_run) auto
  have zero: "movementQuantity movement db1 = 0" "movementValue movement db1 = 0"
    using fresh unfolding movementQuantity_def movementValue_def ensureCutover_same_layers(1) [OF ran(1)]
    by (auto simp: fresh_movement_def intro!: sum_where_none)
  have sums: "movementQuantity movement db2 = mv_quantity movement" "movementValue movement db2 = v"
    using fifoValueChange_sums [OF ran(2)] zero by simp_all
  have "movements db2 = movements db"
    using keepsD [OF keeps_movements_valuations(1) ran(2)] ensureCutover_same_layers(3) [OF ran(1)] by simp
  then have sel: "selectMovement mid db2 = Some movement"
    using movement by (simp add: selectMovement_def)
  have "tenants db2 = tenants db"
    using keepsD [OF keeps_movements_valuations(3) ran(2)] ran(1) by (auto simp: ensureCutover_def)
  moreover obtain w c where w: "selectValuation (mv_tenant movement) (mv_product movement) db2 = Some w"
    "layerQuantity (mv_tenant movement) (mv_product movement) db2 = va_quantity w"
    and db': "db' = db2\<lparr>movements := update_where (\<lambda>m. mv_id m = mv_id movement \<and> mv_tenant m = mv_tenant movement)
        (\<lambda>m. m\<lparr>mv_fifo_unit_cost := Some c, mv_fifo_value_change := Some v,
          mv_fifo_inventory_value := Some (round_div (layerValue (mv_tenant movement) (mv_product movement) db2) 1000)\<rparr>) (movements db2)\<rparr>"
    by (rule updateMovementSummary_Inr [OF ran(3)])
  ultimately show "movementQuantity movement db' = mv_quantity movement"
    "\<exists>m. selectMovement mid db' = Some m \<and> mv_fifo_value_change m = Some (movementValue movement db') \<and>
       mv_tenant m = mv_tenant movement \<and> mv_id m = mv_id movement"
    "\<exists>w. selectValuation (mv_tenant movement) (mv_product movement) db' = Some w \<and>
       layerQuantity (mv_tenant movement) (mv_product movement) db' = va_quantity w"
    "tenants db' = tenants db"
    using sums sel selectMovement_id [OF movement]
    by (simp_all add: movementQuantity_def movementValue_def layerQuantity_def selectMovement_def selectValuation_def find_update_where)
qed

lemma applyFifo_again:
  assumes "selectMovement mid db = Some movement" "\<not> fresh_movement movement db"
    "List.find (\<lambda>t. tn_id t = mv_tenant movement) (tenants db) \<noteq> None"
  shows "applyInventoryFifoValuation mid db = Inr ((), db)"
proof -
  have "filter (\<lambda>a. fa_tenant a = mv_tenant movement \<and> fa_movement a = mv_id movement) (allocs db) \<noteq> []"
    using assms(2) by (auto simp: fresh_movement_def filter_empty_conv)
  then show ?thesis using assms(1,3) by (auto simp: applyInventoryFifoValuation_def evalM)
qed

lemma applyFifo_tenant:
  assumes "applyInventoryFifoValuation mid db = Inr (u, db')" "selectMovement mid db = Some movement"
  shows "List.find (\<lambda>t. tn_id t = mv_tenant movement) (tenants db) \<noteq> None"
  using assms by (auto simp: applyInventoryFifoValuation_def runM split: option.splits)

text \<open>The layers and allocations of the other tenants.\<close>

lemma keeps_other_tenants:
  assumes "t \<noteq> mv_tenant movement"
  shows "keeps (\<lambda>db. filter (\<lambda>l. fl_tenant l = t) (layers db)) (fifoValueChange movement country q)"
    "keeps (\<lambda>db. filter (\<lambda>a. fa_tenant a = t) (allocs db)) (fifoValueChange movement country q)"
proof -
  have l: "filter (\<lambda>l. fl_tenant l = t) (update_where (\<lambda>l. fl_id l = L \<and> fl_tenant l = mv_tenant movement) u ls) =
    filter (\<lambda>l. fl_tenant l = t) ls" if "\<And>l. fl_tenant (u l) = fl_tenant l" for L u ls
    by (rule filter_update_where_disjoint) (use that assms in auto)
  show "keeps (\<lambda>db. filter (\<lambda>l. fl_tenant l = t) (layers db)) (fifoValueChange movement country q)"
    "keeps (\<lambda>db. filter (\<lambda>a. fa_tenant a = t) (allocs db)) (fifoValueChange movement country q)"
    by (intro keeps_fifoValueChange; use assms in \<open>auto intro!: keepsI simp: setRemaining_Inr l insertAllocation_Inr alloc_of_def addLayer_def layer_of_def
        dest!: createLayer_Inr(4)\<close>)+
qed


section \<open>Restorations are bounded by what was consumed\<close>

definition restored :: "fifo_alloc \<Rightarrow> inv_db \<Rightarrow> int" where
  "restored a db = sum_where (\<lambda>b. fa_tenant b = fa_tenant a \<and> fa_source b = Some (fa_id a)) fa_quantity (allocs db)"

definition restore_inv :: "inv_db \<Rightarrow> bool" where
  "restore_inv db \<longleftrightarrow> fifo_inv db \<and>
     (\<forall>a\<in>set (allocs db). \<forall>i. fa_source a = Some i \<longrightarrow> i \<in> issued db) \<and>
     (\<forall>a\<in>set (allocs db). fa_quantity a < 0 \<longrightarrow> restored a db \<le> - fa_quantity a)"

lemma restore_invD:
  assumes "restore_inv db"
  shows "fifo_inv db" "a \<in> set (allocs db) \<Longrightarrow> fa_source a = Some i \<Longrightarrow> i \<in> issued db"
    "a \<in> set (allocs db) \<Longrightarrow> fa_quantity a < 0 \<Longrightarrow> restored a db \<le> - fa_quantity a"
  using assms unfolding restore_inv_def by blast+

text \<open>Adding one allocation: enough that its source has room and that its own id is fresh.\<close>

lemma restore_inv_add:
  assumes inv: "restore_inv db" and fifo: "fifo_inv db'"
    and al: "allocs db' = allocs db @ [n]" and ids: "issued db \<subseteq> issued db'" "fa_id n \<notin> issued db"
    and src: "\<And>i. fa_source n = Some i \<Longrightarrow> i \<in> issued db"
    and room: "\<And>a. a \<in> set (allocs db) \<Longrightarrow> fa_quantity a < 0 \<Longrightarrow> fa_source n = Some (fa_id a) \<Longrightarrow> fa_tenant n = fa_tenant a \<Longrightarrow>
        restored a db + fa_quantity n \<le> - fa_quantity a"
  shows "restore_inv db'"
proof -
  have old: "restored a db' = restored a db + (if fa_tenant n = fa_tenant a \<and> fa_source n = Some (fa_id a) then fa_quantity n else 0)" for a
    by (simp add: restored_def al)
  have "restored n db' = 0"
    unfolding restored_def al using restore_invD(2) [OF inv] ids(2) src
    by (intro sum_where_none) auto
  then show ?thesis
    unfolding restore_inv_def using fifo restore_invD(2,3) [OF inv] ids(1) src room
    by (auto simp: al old)
qed

lemma moveLayer_restore_inv:
  assumes inv: "restore_inv db" and fifo: "fifo_inv (moveLayer movement l n c cur mode src db)"
    and room: "\<And>a. a \<in> set (allocs db) \<Longrightarrow> fa_quantity a < 0 \<Longrightarrow> src = Some (fa_id a) \<Longrightarrow> mv_tenant movement = fa_tenant a \<Longrightarrow>
        restored a db + n \<le> - fa_quantity a"
    and src: "\<And>i. src = Some i \<Longrightarrow> i \<in> issued db"
  shows "restore_inv (moveLayer movement l n c cur mode src db)"
proof (rule restore_inv_add [OF inv fifo])
  show "allocs (moveLayer movement l n c cur mode src db) = allocs db @ [alloc_of movement db (fl_id l) n c cur mode src]"
    by (simp add: moveLayer_def)
  show "fa_id (alloc_of movement db (fl_id l) n c cur mode src) \<notin> issued db"
    using fresh_not_issued [OF fifo_invD(1) [OF restore_invD(1) [OF inv]]] by (simp add: alloc_of_def)
qed (use src room in \<open>auto simp: alloc_of_def moveLayer_def issued_def lessThan_Suc\<close>)

lemma consumeLayers_restore_inv:
  assumes inv: "restore_inv db" and q: "0 \<le> q" and run: "consumeLayers movement q rl tline db = Inr (v, db')"
  shows "restore_inv db'"
proof -
  obtain mode where loop: "consume_loop fl_remaining (consumeLayer movement mode) (consumableLayers movement rl tline db) q 0 db = Inr ((0, v), db')"
    using run by (rule consumeLayers_run)
  note f = restore_invD(1) [OF inv]
  have step: "restore_inv s'"
    if "restore_inv s" "liveLayer movement r s" "0 < c" "c \<le> fl_remaining r" "consumeLayer movement mode r c s = Inr (w, s')" for r c s w s'
  proof -
    have s': "s' = moveLayer movement r (- c) (fl_unit_cost r) (fl_currency r) mode None s"
      using that(5) by (simp add: consumeLayer_Inr)
    show ?thesis
      unfolding s' by (rule moveLayer_restore_inv [OF that(1)])
        (use consumeLayer_inv [OF that(2-5)] in \<open>simp_all add: s'\<close>)
  qed
  show ?thesis
    by (rule fifo_body.loop_invariant [where I = restore_inv, OF step loop consumableLayers_distinct [OF f] consumableLayers_live [OF f] q inv])
qed

lemma restoreLoop_restore_inv:
  "restoreLoop movement q xs r tot db = Inr (res, db') \<Longrightarrow> restore_inv db \<Longrightarrow>
   (\<forall>p\<in>set xs. fst p \<in> set (allocs db) \<and> fa_tenant (fst p) = mv_tenant movement) \<Longrightarrow> restore_inv db'"
proof (induction xs arbitrary: r tot db)
  case Nil
  then show ?case by simp
next
  case (Cons p xs)
  obtain x y where p: "p = (x, y)" by (cases p)
  from Cons.prems(1) show ?case
    unfolding p
  proof (cases rule: restoreLoop_cases)
    case skip
    then show ?thesis using Cons by simp
  next
    case (restore n v db1)
    have x: "x \<in> set (allocs db)" "fa_tenant x = mv_tenant movement" using Cons.prems(3) p by auto
    note f = restore_invD(1) [OF Cons.prems(2)]
    obtain l where db1: "db1 = moveLayer movement l n (fa_unit_cost x) (fa_currency x) ModeRestore (Some (fa_id x)) db"
      using restore(3) by (auto simp: restoreAllocation_Inr)
    have same: "a = x" if "a \<in> set (allocs db)" "fa_id a = fa_id x" for a
      using distinct_map_key_inj [OF fifo_invD(5) [OF f] that(1) x(1) that(2)] .
    have room: "restored x db + n \<le> - fa_quantity x"
      using restore(1) x(2) by (simp add: restorable_def restored_def)
    have "fa_id x \<in> issued db" using fifo_invD(3) [OF f] x(1) by blast
    then have "restore_inv db1"
      unfolding db1 using restoreAllocation_inv [OF restore(3,2) f] same room
      by (intro moveLayer_restore_inv [OF Cons.prems(2)]) (auto simp: db1)
    then show ?thesis
      using Cons.IH [OF restore(4)] Cons.prems(3) by (auto simp: db1 moveLayer_def p)
  qed
qed

lemma sourceAllocations_mem:
  "p \<in> set (sourceAllocations sel db) \<Longrightarrow> fst p \<in> set (allocs db) \<and>
     (\<exists>m\<in>set (movements db). mv_tenant m = fa_tenant (fst p) \<and> mv_id m = fa_movement (fst p) \<and> sel m)"
  unfolding sourceAllocations_def by auto

lemma fifoValueChange_restore_inv:
  assumes run: "fifoValueChange movement country q db = Inr (v, db')" and inv: "restore_inv db" and t: "mv_type movement \<noteq> TRANSFER_IN"
  shows "restore_inv db'"
  using run
proof (cases rule: fifoValueChange_cases)
  case restore
  then obtain res rows where loop: "restoreLoop movement q rows 0 0 db = Inr (res, db')"
    and rows: "\<forall>p\<in>set rows. fst p \<in> set (allocs db) \<and> fa_tenant (fst p) = mv_tenant movement"
    by (fastforce simp: restoreSale_def runM split: prod.splits dest: sourceAllocations_mem)
  then show ?thesis using restoreLoop_restore_inv [OF loop inv] by blast
next
  case transfer
  then show ?thesis using t by simp
next
  case (create c cur orig)
  note C = createLayer_Inr [OF create(4)]
  have "fa_id (alloc_of movement (db\<lparr>ticks := Suc (ticks db)\<rparr>) L q c cur ModeEntry None) \<notin> issued db" for L
    using fifo_invD(1) [OF restore_invD(1) [OF inv]] by (simp add: alloc_of_def issued_def inj_image_mem_iff)
  then show ?thesis
    using createLayer_inv [OF create(4,2) restore_invD(1) [OF inv]] unfolding C(4)
    by (intro restore_inv_add [OF inv]) (auto simp: addLayer_def alloc_of_def issued_def lessThan_Suc)
next
  case consume
  then show ?thesis using consumeLayers_restore_inv [OF inv, of "- q"] by simp
next
  case none
  then show ?thesis using inv by simp
qed

lemma applyFifo_restore_inv:
  assumes inv: "restore_inv db" and run: "applyInventoryFifoValuation mid db = Inr (u, db')"
    and movement: "selectMovement mid db = Some movement" and t: "mv_type movement \<noteq> TRANSFER_IN"
  shows "restore_inv db'"
  using run
proof (cases rule: applyFifo_run)
  case already
  then show ?thesis using inv by simp
next
  case (ran mv country db1 v db2)
  have "restore_inv db1"
    using inv ensureCutover_same_layers [OF ran(3)] ran(3) by (auto simp: restore_inv_def restored_def ensureCutover_def issued_def)
  then have two: "restore_inv db2"
    using fifoValueChange_restore_inv [OF ran(4)] t ran(1) movement by simp
  have same: "restore_inv (s\<lparr>movements := x\<rparr>) = restore_inv s" for s x
    by (simp add: restore_inv_def restored_def issued_def)
  show ?thesis
    by (rule updateMovementSummary_Inr [OF ran(5)]) (simp add: same two)
qed

end
