(* ===== verification/Fixtures.thy ===== *)
theory Fixtures
  imports Schema
begin

text \<open>
  A small concrete company for the witnesses: tenant 1 (Chile) with one product, one branch, one
  warehouse and two locations, and rows to vary with record updates. Ids of new rows start at
  60; the clock gives the number of the row.
\<close>

definition blankMovement :: movement_row where
  "blankMovement =
    \<lparr>mv_id = 50, mv_tenant = 1, mv_product = 7, mv_location = 3, mv_type = ENTRY, mv_quantity = 0,
     mv_resulting = 0, mv_from = None, mv_to = None, mv_state_quantity = None, mv_reason = '''',
     mv_reference = None, mv_key = '''', mv_fingerprint = '''', mv_user = 9, mv_created_at = 0,
     mv_receipt_line = None, mv_return_line = None, mv_sale = None, mv_sale_line = None,
     mv_sale_return_line = None, mv_source_movement = None, mv_transfer = None, mv_transfer_line = None,
     mv_reservation = None, mv_reservation_line = None, mv_unit_cost = None, mv_value_change = None, mv_inventory_value = None,
     mv_average_cost = None, mv_fifo_unit_cost = None, mv_fifo_value_change = None,
     mv_fifo_inventory_value = None, mv_method = None, mv_policy_version = None, mv_effective_at = None\<rparr>"

definition sampleTenant :: tenant_row where
  "sampleTenant = \<lparr>tn_id = 1, tn_country = ''CL''\<rparr>"

definition samplePolicy :: product_quantity_policy where
  "samplePolicy = \<lparr>baseUnit = ''UNIT'', precision = 0, rounding = ''HALF_UP'', minimumQuantity = ''1.000''\<rparr>"

definition sampleProduct :: product_row where
  "sampleProduct =
    \<lparr>pr_id = 7, pr_tenant = 1, pr_active = True, pr_has_variants = False, pr_cost = 250, pr_version = 1,
     pr_track_lots = False, pr_lot_policy = LotNone, pr_track_serials = False, pr_policy = samplePolicy,
     pr_name = ''P'', pr_sku = ''7'', pr_without_code = False, pr_untracked = False, pr_exempt = False,
     pr_price = 1000, pr_allow_expired = False\<rparr>"

definition sampleLayer :: fifo_layer where
  "sampleLayer =
    \<lparr>fl_id = 60, fl_tenant = 1, fl_product = 7, fl_location = 3, fl_source_movement = None,
     fl_source_layer = None, fl_receipt_line = None, fl_origin = MigrationCut, fl_original = 5000,
     fl_remaining = 5000, fl_unit_cost = 20000, fl_currency = ''CLP'', fl_acquired_at = 0, fl_version = 1,
     fl_created_at = 0\<rparr>"

definition sampleDb :: inv_db where
  "sampleDb =
    \<lparr>env_uuid = (\<lambda>n. 60 + n), env_clock = (\<lambda>n. n),
     env_local_date = (\<lambda>_ _. ''2026-01-15''), ticks = 0, tenants = [sampleTenant],
     products = [sampleProduct],
     branches = [\<lparr>br_id = 1, br_tenant = 1, br_active = True, br_timezone = ''Z'', br_name = ''M''\<rparr>],
     warehouses = [\<lparr>wh_id = 2, wh_tenant = 1, wh_branch = 1, wh_active = True, wh_name = ''S''\<rparr>],
     locations = [\<lparr>lo_id = 3, lo_tenant = 1, lo_warehouse = 2, lo_active = True\<rparr>, \<lparr>lo_id = 4, lo_tenant = 1, lo_warehouse = 2, lo_active = True\<rparr>],
     movements = [], balances = [], valuations = [], policies = [], guards = [], cutovers = [],
     layers = [], allocs = [], lots = [], lot_balances = [], movement_lots = [], lot_origins = [],
     serials = [], serial_events = [], purchase_orders = [], purchase_receipts = [], receipt_lines = [],
     return_lines = [], sale_return_lines = [], counts = [], admin_users = [], branch_access = [], transfers = [], transfer_lines = [],
     transfer_receipts = [], transfer_receipt_lines = [], customers = [], reservations = [], reservation_lines = [],
     recon_runs = [], recon_findings = []\<rparr>"

end
