(* ===== verification/FifoTheorems.thy ===== *)
theory FifoTheorems
  imports FifoLaws Fixtures
begin

text \<open>
  The properties of the FIFO layers, each with a witness on a concrete database: two layers of
  5.000 and 3.000 units, an exit of 6.000 units, and the valuation the exit leaves (2.000 units).
\<close>

section \<open>A concrete case\<close>

definition fifoExit :: movement_row where
  "fifoExit = blankMovement\<lparr>mv_type := EXIT, mv_quantity := -6000, mv_resulting := 2000\<rparr>"

definition fifoDb :: inv_db where
  "fifoDb = sampleDb\<lparr>ticks := 2, movements := [fifoExit],
     valuations := [\<lparr>va_tenant = 1, va_product = 7, va_quantity = 2000, va_value = 60000, va_average = 30000, va_version = 2\<rparr>],
     layers := [sampleLayer\<lparr>fl_id := 61, fl_original := 3000, fl_remaining := 3000, fl_unit_cost := 30000, fl_acquired_at := 9\<rparr>,
                sampleLayer]\<rparr>"

lemmas fifoDb_simps = fifoDb_def fifoExit_def sampleDb_def sampleLayer_def blankMovement_def sampleTenant_def

lemma fifoDb_inv: "fifo_inv fifoDb" "restore_inv fifoDb"
  by (simp_all add: restore_inv_def fifo_inv_def fifoDb_simps issued_def layer_check_def layerLedger_def openingQuantity_def
      lessThan_nat_numeral lessThan_Suc inj_def)

lemma fifoDb_fresh: "fresh_movement fifoExit fifoDb"
  by (simp add: fresh_movement_def fifoDb_simps)

lemma fifoDb_rows: "consumableLayers fifoExit None None fifoDb =
    [sampleLayer, sampleLayer\<lparr>fl_id := 61, fl_original := 3000, fl_remaining := 3000, fl_unit_cost := 30000, fl_acquired_at := 9\<rparr>]"
  by (simp add: consumableLayers_def fifoDb_simps)

lemma fifoDb_stock: "consumable_stock fifoExit None None fifoDb = 8000"
  unfolding fifoDb_rows by (simp add: sampleLayer_def)

text \<open>An exit is decided by the stock of its layers alone: under the ledger invariant, for a
  movement without allocations, it succeeds (and keeps the invariant) when the layers it may
  consume hold the requested quantity, and otherwise fails with the layer shortage error, never
  with another one.\<close>

theorem consumeLayers_outcome:
  assumes "fifo_inv db" "fresh_movement movement db" "0 \<le> requested"
  shows "if requested \<le> consumable_stock movement rl tline db
     then \<exists>v db'. consumeLayers movement requested rl tline db = Inr (v, db') \<and> fifo_inv db'
     else consumeLayers movement requested rl tline db = Inl InventoryFifoLayerShortageError"
  using consumeLayers_total [OF assms, of rl tline] consumeLayers_inv [OF assms(1,3)] by (auto split: if_splits)

theorem consumeLayers_outcome_witness:
  "(\<exists>v db'. consumeLayers fifoExit 6000 None None fifoDb = Inr (v, db') \<and> fifo_inv db') \<and>
   consumeLayers fifoExit 9000 None None fifoDb = Inl InventoryFifoLayerShortageError"
  using consumeLayers_outcome [OF fifoDb_inv(1) fifoDb_fresh, of 6000 None None]
    consumeLayers_outcome [OF fifoDb_inv(1) fifoDb_fresh, of 9000 None None]
  unfolding fifoDb_stock by simp

text \<open>C4: FIFO order: after an exit, if anything was taken from a layer, every layer acquired
  before it (ties broken by creation time and id) that the exit could consume is empty.\<close>

theorem consumeLayers_oldest_first:
  assumes "fifo_inv db" "0 \<le> requested" "consumeLayers movement requested rl tline db = Inr (v, db')"
    and "older \<in> set (consumableLayers movement rl tline db)" "newer \<in> set (consumableLayers movement rl tline db)"
    and "(fl_acquired_at older, fl_created_at older, fl_id older) < (fl_acquired_at newer, fl_created_at newer, fl_id newer)"
    and "remainingOf (fl_id newer) db' < fl_remaining newer"
  shows "remainingOf (fl_id older) db' = 0"
proof -
  let ?rows = "consumableLayers movement rl tline db"
  let ?key = "\<lambda>l. (fl_acquired_at l, fl_created_at l, fl_id l)"
  obtain i j where ij: "i < length ?rows" "?rows ! i = older" "j < length ?rows" "?rows ! j = newer"
    using assms(4,5) by (metis in_set_conv_nth)
  have "sorted (map ?key ?rows)" by (simp add: consumableLayers_def)
  then have "i < j" using ij assms(6) sorted_nth_mono [of "map ?key ?rows" j i] by (fastforce simp: not_less [symmetric])
  from consumeLayers_left(5) [OF assms(1-3) refl this] ij assms(7) show ?thesis by simp
qed

theorem consumeLayers_oldest_first_witness:
  "case consumeLayers fifoExit 6000 None None fifoDb of Inl _ \<Rightarrow> False | Inr (v, db') \<Rightarrow> remainingOf 60 db' = 0"
proof -
  obtain v db' where run: "consumeLayers fifoExit 6000 None None fifoDb = Inr (v, db')"
    using consumeLayers_total [OF fifoDb_inv(1) fifoDb_fresh, of 6000 None None] by (auto simp: fifoDb_stock)
  have "remainingOf 61 db' < 3000"
    using consumeLayers_left(1) [OF fifoDb_inv(1) _ run refl, of 1] unfolding fifoDb_rows by (simp add: sampleLayer_def)
  then have "remainingOf (fl_id sampleLayer) db' = 0"
    by (intro consumeLayers_oldest_first [OF fifoDb_inv(1) _ run, where newer = "sampleLayer\<lparr>fl_id := 61, fl_original := 3000,
          fl_remaining := 3000, fl_unit_cost := 30000, fl_acquired_at := 9\<rparr>"])
      (simp_all add: fifoDb_rows, simp_all add: sampleLayer_def)
  then show ?thesis using run by (simp add: sampleLayer_def)
qed

text \<open>Conservation: an exit of \<open>requested\<close> units lowers the layers of its product by exactly
  that, its value change is the cost of what was taken from each layer, and no other layer of
  the database changes.\<close>

theorem consumeLayers_conserves:
  assumes "fifo_inv db" "0 \<le> requested" "consumeLayers movement requested rl tline db = Inr (v, db')"
  shows "layerQuantity (mv_tenant movement) (mv_product movement) db' =
      layerQuantity (mv_tenant movement) (mv_product movement) db - requested \<and>
    v = (\<Sum>l\<leftarrow>consumableLayers movement rl tline db.
           quantityValue (remainingOf (fl_id l) db' - fl_remaining l) (fl_unit_cost l)) \<and>
    (\<forall>k. k \<notin> fl_id ` set (consumableLayers movement rl tline db) \<longrightarrow> remainingOf k db' = remainingOf k db)"
proof (intro conjI allI impI)
  note L = consumeLayers_left [OF assms refl]
  let ?rows = "consumableLayers movement rl tline db"
  show "layerQuantity (mv_tenant movement) (mv_product movement) db' =
      layerQuantity (mv_tenant movement) (mv_product movement) db - requested" by (rule L(3))
  have "map2 (\<lambda>r c. if c = 0 then 0 else quantityValue (- c) (fl_unit_cost r)) ?rows (plan (map fl_remaining ?rows) requested) =
    map (\<lambda>l. quantityValue (remainingOf (fl_id l) db' - fl_remaining l) (fl_unit_cost l)) ?rows"
    by (rule nth_equalityI) (auto simp: L(1) quantityValue_def)
  then show "v = (\<Sum>l\<leftarrow>?rows. quantityValue (remainingOf (fl_id l) db' - fl_remaining l) (fl_unit_cost l))"
    using L(4) by (simp only:)
  show "remainingOf k db' = remainingOf k db" if "k \<notin> fl_id ` set ?rows" for k
    using that by (rule L(2))
qed

theorem consumeLayers_conserves_witness:
  "case consumeLayers fifoExit 6000 None None fifoDb of Inl _ \<Rightarrow> False | Inr (v, db') \<Rightarrow> layerQuantity 1 7 db' = 2000"
proof -
  obtain v db' where run: "consumeLayers fifoExit 6000 None None fifoDb = Inr (v, db')"
    using consumeLayers_total [OF fifoDb_inv(1) fifoDb_fresh, of 6000 None None] by (auto simp: fifoDb_stock)
  from consumeLayers_conserves [OF fifoDb_inv(1) _ run] run show ?thesis
    by (simp add: fifoDb_simps layerQuantity_def)
qed

section \<open>A whole application\<close>

lemma fifoDb_runs: "case applyInventoryFifoValuation 50 fifoDb of Inl _ \<Rightarrow> False | Inr _ \<Rightarrow> True"
  by code_simp

lemma fifoDb_run: obtains db' where "applyInventoryFifoValuation 50 fifoDb = Inr ((), db')"
  using fifoDb_runs by (auto split: sum.splits)

lemma fifoDb_movement: "selectMovement 50 fifoDb = Some fifoExit"
  by (simp add: selectMovement_def fifoDb_simps)

text \<open>The ledger invariant of the FIFO layers (each layer holds what its opening and its
  allocations add up to, between zero and its original quantity, under unique ids) survives every
  application of a movement, whatever its type: entry, exit, sale restoration, transfer, return.\<close>

theorem applyInventoryFifoValuation_invariant: "preserves fifo_inv (applyInventoryFifoValuation mid)"
  by (rule preservesI) (rule applyFifo_inv)

text \<open>C22: The allocations of a movement explain it: after its first application they add up to
  its quantity and to the FIFO value change stored on its row, and the layers of the product add
  up to its valuation quantity.\<close>

theorem applyInventoryFifoValuation_accounts:
  assumes "applyInventoryFifoValuation mid db = Inr (u, db')"
    and "selectMovement mid db = Some movement" "fresh_movement movement db"
  shows "movementQuantity movement db' = mv_quantity movement \<and>
    (\<exists>m. selectMovement mid db' = Some m \<and> mv_fifo_value_change m = Some (movementValue movement db')) \<and>
    (\<exists>w. selectValuation (mv_tenant movement) (mv_product movement) db' = Some w \<and>
       layerQuantity (mv_tenant movement) (mv_product movement) db' = va_quantity w)"
  using applyFifo_accounts [OF assms] by blast

theorem applyInventoryFifoValuation_accounts_witness:
  "case applyInventoryFifoValuation 50 fifoDb of Inl _ \<Rightarrow> False
   | Inr (u, db') \<Rightarrow> movementQuantity fifoExit db' = -6000"
proof -
  obtain db' where run: "applyInventoryFifoValuation 50 fifoDb = Inr ((), db')" by (rule fifoDb_run)
  from applyInventoryFifoValuation_accounts [OF run fifoDb_movement fifoDb_fresh] run show ?thesis
    by (simp add: fifoExit_def)
qed

text \<open>Applying a movement twice is applying it once: when the first application succeeded
  and the movement changes a quantity, a second one succeeds and leaves the database as it is.\<close>

theorem applyInventoryFifoValuation_idempotent:
  assumes run: "applyInventoryFifoValuation mid db = Inr (u, db')"
    and movement: "selectMovement mid db = Some movement" and q: "mv_quantity movement \<noteq> 0"
  shows "applyInventoryFifoValuation mid db' = Inr ((), db')"
proof (cases "fresh_movement movement db")
  case True
  note A = applyFifo_accounts [OF run movement True]
  have "\<not> fresh_movement movement db'"
    using A(1) q sum_where_none [of "allocs db'" "\<lambda>a. fa_tenant a = mv_tenant movement \<and> fa_movement a = mv_id movement"]
    unfolding movementQuantity_def fresh_movement_def by metis
  moreover obtain m where m: "selectMovement mid db' = Some m" "mv_tenant m = mv_tenant movement" "mv_id m = mv_id movement"
    using A(2) by blast
  moreover have "List.find (\<lambda>t. tn_id t = mv_tenant movement) (tenants db') \<noteq> None"
    using applyFifo_tenant [OF run movement] A(4) by simp
  ultimately show ?thesis by (intro applyFifo_again [OF m(1)]) (simp_all add: fresh_movement_def)
next
  case False
  then have "db' = db" using run movement by (auto elim: applyFifo_run)
  then show ?thesis using applyFifo_again [OF movement False applyFifo_tenant [OF run movement]] by simp
qed

theorem applyInventoryFifoValuation_idempotent_witness:
  "case applyInventoryFifoValuation 50 fifoDb of Inl _ \<Rightarrow> False
   | Inr (u, db') \<Rightarrow> applyInventoryFifoValuation 50 db' = Inr ((), db')"
proof -
  obtain db' where run: "applyInventoryFifoValuation 50 fifoDb = Inr ((), db')" by (rule fifoDb_run)
  from applyInventoryFifoValuation_idempotent [OF run fifoDb_movement] run show ?thesis
    by (simp add: fifoExit_def)
qed

text \<open>A sale allocation is never given back more than it took: outside transfers, every
  application keeps the sum of the restorations of each consuming allocation within the quantity
  that allocation consumed.\<close>

theorem applyInventoryFifoValuation_restores_bounded:
  assumes "restore_inv db" "applyInventoryFifoValuation mid db = Inr (u, db')"
    and "selectMovement mid db = Some movement" "mv_type movement \<noteq> TRANSFER_IN"
  shows "restore_inv db' \<and>
    (\<forall>a\<in>set (allocs db'). fa_quantity a < 0 \<longrightarrow> restored a db' \<le> - fa_quantity a)"
  using applyFifo_restore_inv [OF assms] restore_invD(3) by blast

theorem applyInventoryFifoValuation_restores_bounded_witness:
  "case applyInventoryFifoValuation 50 fifoDb of Inl _ \<Rightarrow> False | Inr (u, db') \<Rightarrow> restore_inv db'"
proof -
  obtain db' where run: "applyInventoryFifoValuation 50 fifoDb = Inr ((), db')" by (rule fifoDb_run)
  from applyInventoryFifoValuation_restores_bounded [OF fifoDb_inv(2) run fifoDb_movement] run show ?thesis
    by (simp add: fifoExit_def)
qed

text \<open>Tenant isolation: applying a movement of one tenant leaves the layers and the
  allocations of every other tenant as they were.\<close>

theorem applyInventoryFifoValuation_isolated:
  assumes run: "applyInventoryFifoValuation mid db = Inr (u, db')"
    and movement: "selectMovement mid db = Some movement" and t: "t \<noteq> mv_tenant movement"
  shows "filter (\<lambda>l. fl_tenant l = t) (layers db') = filter (\<lambda>l. fl_tenant l = t) (layers db) \<and>
    filter (\<lambda>a. fa_tenant a = t) (allocs db') = filter (\<lambda>a. fa_tenant a = t) (allocs db)"
  using run
proof (cases rule: applyFifo_run)
  case already
  then show ?thesis by simp
next
  case (ran mv country db1 v db2)
  then have mv: "mv = movement" using movement by simp
  note K = keepsD [OF keeps_other_tenants(1) [OF t] ran(4) [unfolded mv]] keepsD [OF keeps_other_tenants(2) [OF t] ran(4) [unfolded mv]]
  show ?thesis
    by (rule updateMovementSummary_Inr [OF ran(5)]) (simp add: K ensureCutover_same_layers [OF ran(3)])
qed

theorem applyInventoryFifoValuation_isolated_witness:
  "case applyInventoryFifoValuation 50 fifoDb of Inl _ \<Rightarrow> False
   | Inr (u, db') \<Rightarrow> filter (\<lambda>l. fl_tenant l = 2) (layers db') = []"
proof -
  obtain db' where run: "applyInventoryFifoValuation 50 fifoDb = Inr ((), db')" by (rule fifoDb_run)
  have "(2::nat) \<noteq> mv_tenant fifoExit" by (simp add: fifoExit_def blankMovement_def)
  from applyInventoryFifoValuation_isolated [OF run fifoDb_movement this] run show ?thesis
    by (simp add: fifoDb_simps)
qed

end
