(* ===== verification/Valuation.thy ===== *)
theory Valuation
  imports FifoLaws
begin

text \<open>
  Inventory valuation, after \<open>src/inventory/inventory-valuation.ts\<close>,
  \<open>inventory-valuation-policy.ts\<close> and \<open>inventory-reconciliation-guard.ts\<close>. Every movement
  updates the moving-average valuation of its product, then the FIFO layers (theory \<open>Fifo\<close>), and
  is then sealed with the valuation method of the tenant, which decides the cost and value columns
  that count. Specific-lot tenants finalise the movement once its lots are known.
\<close>

section \<open>The reconciliation guard\<close>

definition assertInventoryReconciliationOperational :: "id \<Rightarrow> unit act" where
  "assertInventoryReconciliationOperational t =
     bindM (readM (\<lambda>db. List.find (\<lambda>g. gu_tenant g = t) (guards db))) (\<lambda>guard.
       case guard of
         None \<Rightarrow> returnM ()
       | Some g \<Rightarrow> ensureM (InventoryReconciliationBlocked (gu_latest_run g)) (\<not> gu_blocked g))"

section \<open>The valuation policy\<close>

text \<open>The default policy is written on first use. Its effective date reaches the movement through
  a JavaScript \<open>Date\<close>, which keeps milliseconds.\<close>

definition loadInventoryValuationPolicy :: "id \<Rightarrow> policy_row act" where
  "loadInventoryValuationPolicy t =
     bindM nowM (\<lambda>now.
     thenM (writeM (\<lambda>db. if t \<in> po_tenant ` set (policies db) then db
              else db\<lparr>policies := policies db @ [\<lparr>po_tenant = t, po_method = MOVING_AVERAGE, po_version = 1, po_effective_at = now\<rparr>]\<rparr>))
     (bindM (readM (\<lambda>db. List.find (\<lambda>p. po_tenant p = t) (policies db))) (\<lambda>row.
      requireM (Failure ''INVENTORY_VALUATION_POLICY_NOT_FOUND'') row)))"

definition milliseconds :: "nat \<Rightarrow> nat" where
  "milliseconds t = t div 1000 * 1000"

definition sealInventoryMovementValuation :: "id \<Rightarrow> valuation_method act" where
  "sealInventoryMovementValuation movementId =
     bindM (readM (selectMovement movementId)) (\<lambda>found.
     bindM (requireM (Failure ''INVENTORY_MOVEMENT_NOT_FOUND_FOR_POLICY'') found) (\<lambda>movement.
     bindM (loadInventoryValuationPolicy (mv_tenant movement)) (\<lambda>policy.
     thenM (ensureM InventoryFifoLayerShortageError
              (\<not> (po_method policy = FIFO \<and>
                 (mv_fifo_unit_cost movement = None \<or> mv_fifo_value_change movement = None \<or>
                  mv_fifo_inventory_value movement = None))))
     (thenM (updateMovement (mv_tenant movement) movementId
        (\<lambda>m. m\<lparr>mv_method := Some (po_method policy), mv_policy_version := Some (po_version policy),
               mv_effective_at := Some (milliseconds (po_effective_at policy)),
               mv_unit_cost := (if po_method policy = FIFO then mv_fifo_unit_cost m else mv_unit_cost m),
               mv_value_change := (if po_method policy = FIFO then mv_fifo_value_change m else mv_value_change m),
               mv_inventory_value := (if po_method policy = FIFO then mv_fifo_inventory_value m else mv_inventory_value m)\<rparr>))
       (returnM (po_method policy))))))"

text \<open>The quantity and the value (in units of \<open>10^-7\<close>) of the lots of a product.\<close>

definition lotQuantity :: "id \<Rightarrow> id \<Rightarrow> inv_db \<Rightarrow> int" where
  "lotQuantity t p db = sum_where (\<lambda>b. lb_tenant b = t \<and>
       (\<exists>l\<in>set (lots db). lt_id l = lb_lot b \<and> lt_tenant l = lb_tenant b \<and> lt_product l = p)) lb_quantity (lot_balances db)"

definition lotValue :: "id \<Rightarrow> id \<Rightarrow> inv_db \<Rightarrow> int" where
  "lotValue t p db = sum_list (map (\<lambda>b.
       sum_where (\<lambda>l. lt_id l = lb_lot b \<and> lt_tenant l = lb_tenant b \<and> lt_product l = p)
         (\<lambda>l. lb_quantity b * lt_unit_cost l) (lots db))
       (filter (\<lambda>b. lb_tenant b = t) (lot_balances db)))"

text \<open>\<open>SELECT SUM(quantity_change), SUM(value_change)\<close> of the lot allocations of a movement.\<close>

definition allocatedLots :: "movement_row \<Rightarrow> inv_db \<Rightarrow> int \<times> int" where
  "allocatedLots movement db =
     (sum_where (\<lambda>a. ml_tenant a = mv_tenant movement \<and> ml_movement a = mv_id movement) ml_quantity (movement_lots db),
      sum_where (\<lambda>a. ml_tenant a = mv_tenant movement \<and> ml_movement a = mv_id movement) ml_value (movement_lots db))"

definition settleSpecificLots :: "movement_row \<Rightarrow> unit act" where
  "settleSpecificLots movement =
     bindM (readM (selectProduct (mv_tenant movement) (mv_product movement))) (\<lambda>product.
     thenM (ensureM InventoryLotRequiredError (case product of None \<Rightarrow> False | Some p \<Rightarrow> pr_track_lots p))
     (bindM (readM (allocatedLots movement)) (\<lambda>(allocatedQuantity, valueChange).
     bindM (readM (lotQuantity (mv_tenant movement) (mv_product movement))) (\<lambda>totalQuantity.
     bindM (readM (lotValue (mv_tenant movement) (mv_product movement))) (\<lambda>totalValue.
     bindM (readM (selectValuation (mv_tenant movement) (mv_product movement))) (\<lambda>valuation.
     thenM (ensureM (Failure ''SPECIFIC_LOT_RECONCILIATION_FAILED'')
              (case valuation of None \<Rightarrow> False
               | Some v \<Rightarrow> allocatedQuantity = mv_quantity movement \<and> totalQuantity = va_quantity v))
     (let absoluteQuantity = (if mv_quantity movement < 0 then - mv_quantity movement else mv_quantity movement);
          absoluteValue = (if valueChange < 0 then - valueChange else valueChange)
      in bindM (liftE (if absoluteQuantity = 0 then Inr 0
                       else divideRounded ''INVALID_VALUATION_DIVISOR'' (absoluteValue * 1000) absoluteQuantity)) (\<lambda>unitCost.
         updateMovement (mv_tenant movement) (mv_id movement)
           (\<lambda>m. m\<lparr>mv_unit_cost := Some unitCost, mv_value_change := Some valueChange,
                  mv_inventory_value := Some (round_div totalValue 1000)\<rparr>)))))))))"

definition finalizeSpecificLotMovementValuation :: "id \<Rightarrow> unit act" where
  "finalizeSpecificLotMovementValuation movementId =
     bindM (readM (selectMovement movementId)) (\<lambda>found.
     case found of
       None \<Rightarrow> returnM ()
     | Some movement \<Rightarrow>
         if mv_method movement \<noteq> Some SPECIFIC_LOT then returnM () else settleSpecificLots movement)"

section \<open>Moving average\<close>

text \<open>The cost of the sale movement that a void or a return gives back:
  \<open>ORDER BY created_at, id LIMIT 1\<close>.\<close>

definition originalSaleCost :: "movement_row \<Rightarrow> inv_db \<Rightarrow> int option" where
  "originalSaleCost movement db =
     (case sort_key (\<lambda>m. (mv_created_at m, mv_id m))
         (filter (\<lambda>m. mv_tenant m = mv_tenant movement \<and>
            mv_sale movement \<noteq> None \<and> mv_sale m = mv_sale movement \<and>
            mv_sale_line movement \<noteq> None \<and> mv_sale_line m = mv_sale_line movement \<and>
            mv_location m = mv_location movement \<and> mv_type m = SALE \<and> mv_unit_cost m \<noteq> None) (movements db)) of
        [] \<Rightarrow> None
      | m # _ \<Rightarrow> mv_unit_cost m)"

definition resolveSourceCost :: "movement_row \<Rightarrow> int \<Rightarrow> int act" where
  "resolveSourceCost movement currentAverage =
     (if mv_type movement = PURCHASE_RECEIPT
      then bindM (readM (\<lambda>db. map_option rl_unit_cost (selectReceiptLine (mv_tenant movement) (mv_receipt_line movement) db)))
             (requireM (Failure ''PURCHASE_RECEIPT_COST_NOT_FOUND''))
      else if mv_type movement = SALE_VOID \<or> mv_type movement = SALE_RETURN
      then bindM (readM (originalSaleCost movement)) (requireM (Failure ''SALE_MOVEMENT_COST_NOT_FOUND''))
      else returnM currentAverage)"

text \<open>\<open>INSERT INTO inventory_valuations ... SELECT ... ON DUPLICATE KEY UPDATE\<close>: an empty
  valuation at the catalog cost, unless the product has one or does not exist.\<close>

definition ensureValuation :: "id \<Rightarrow> id \<Rightarrow> unit act" where
  "ensureValuation t p =
     writeM (\<lambda>db. case selectProduct t p db of
         None \<Rightarrow> db
       | Some product \<Rightarrow>
           if selectValuation t p db \<noteq> None then db
           else db\<lparr>valuations := valuations db @
             [\<lparr>va_tenant = t, va_product = p, va_quantity = 0, va_value = 0, va_average = pr_cost product * 100, va_version = 1\<rparr>]\<rparr>)"

definition isValuedEntry :: "movement_row \<Rightarrow> bool" where
  "isValuedEntry movement \<longleftrightarrow> 0 < mv_quantity movement \<and> mv_type movement \<in> {PURCHASE_RECEIPT, SALE_VOID, SALE_RETURN}"

text \<open>The new quantity, value and average of a valuation row, once the new quantity is known not to
  be negative.\<close>

definition movingAverage :: "valuation_row \<Rightarrow> int \<Rightarrow> bool \<Rightarrow> int \<Rightarrow> inv_error + (int \<times> int \<times> int)" where
  "movingAverage valuation quantityChange valued unitCost =
     (let newQuantity = va_quantity valuation + quantityChange in
      bindE (if newQuantity = 0 then Inr 0
             else bindE (divideRounded ''INVALID_VALUATION_DIVISOR'' (quantityChange * unitCost) 1000)
                    (\<lambda>c. Inr (va_value valuation + c))) (\<lambda>newValue.
        if newValue < 0 then Inl (Failure ''NEGATIVE_INVENTORY_VALUATION_VALUE'')
        else bindE (if valued \<and> 0 < newQuantity
                    then divideRounded ''INVALID_VALUATION_DIVISOR'' (newValue * 1000) newQuantity
                    else Inr (va_average valuation)) (\<lambda>newAverage.
          Inr (newQuantity, newValue, newAverage))))"

definition updateValuation :: "id \<Rightarrow> id \<Rightarrow> int \<Rightarrow> int \<Rightarrow> int \<Rightarrow> bool \<Rightarrow> unit act" where
  "updateValuation t p quantity val average changed =
     (let u = (\<lambda>v. v\<lparr>va_quantity := quantity, va_value := val, va_average := average,
                    va_version := va_version v + (if changed then 1 else 0)\<rparr>)
      in bindM (readM valuations) (\<lambda>rows.
         thenM (ensureM CheckViolated (\<forall>v\<in>set rows. va_tenant v = t \<and> va_product v = p \<longrightarrow> valuation_check (u v)))
           (writeM (\<lambda>db. db\<lparr>valuations := update_where (\<lambda>v. va_tenant v = t \<and> va_product v = p) u (valuations db)\<rparr>))))"

text \<open>The catalog cost has two decimals.\<close>

definition updateCatalogCost :: "id \<Rightarrow> id \<Rightarrow> int \<Rightarrow> unit act" where
  "updateCatalogCost t p cents =
     writeM (\<lambda>db. db\<lparr>products := update_where (\<lambda>r. pr_id r = p \<and> pr_tenant r = t \<and> pr_cost r \<noteq> cents)
       (\<lambda>r. r\<lparr>pr_cost := cents, pr_version := pr_version r + 1\<rparr>) (products db)\<rparr>)"

text \<open>The valuation row of the product, the cost of the movement, and the writes that follow.\<close>

definition valuationFor :: "movement_row \<Rightarrow> valuation_row act" where
  "valuationFor movement =
     thenM (ensureValuation (mv_tenant movement) (mv_product movement))
     (bindM (readM (selectValuation (mv_tenant movement) (mv_product movement))) (\<lambda>found.
      requireM (Failure ''INVENTORY_VALUATION_NOT_FOUND'') found))"

definition movementCost :: "movement_row \<Rightarrow> valuation_row \<Rightarrow> int act" where
  "movementCost movement valuation =
     (if isValuedEntry movement then resolveSourceCost movement (va_average valuation)
      else returnM (va_average valuation))"

definition recordValuation :: "movement_row \<Rightarrow> valuation_row \<Rightarrow> int \<Rightarrow> unit act" where
  "recordValuation movement valuation unitCost =
     bindM (liftE (movingAverage valuation (mv_quantity movement) (isValuedEntry movement) unitCost)) (\<lambda>(newQuantity, newValue, newAverage).
     thenM (updateValuation (mv_tenant movement) (mv_product movement) newQuantity newValue newAverage (mv_quantity movement \<noteq> 0))
     (thenM (updateMovement (mv_tenant movement) (mv_id movement)
        (\<lambda>m. m\<lparr>mv_unit_cost := Some unitCost, mv_value_change := Some (newValue - va_value valuation),
               mv_inventory_value := Some newValue, mv_average_cost := Some newAverage\<rparr>))
     (if isValuedEntry movement
      then bindM (liftE (divideRounded ''INVALID_VALUATION_DIVISOR'' newAverage 100)) (\<lambda>cents.
             updateCatalogCost (mv_tenant movement) (mv_product movement) cents)
      else returnM ())))"

definition movingAverageStep :: "movement_row \<Rightarrow> unit act" where
  "movingAverageStep movement =
     bindM (valuationFor movement) (\<lambda>valuation.
     thenM (ensureM (Failure ''NEGATIVE_INVENTORY_VALUATION_QUANTITY'') (0 \<le> va_quantity valuation + mv_quantity movement))
     (bindM (movementCost movement valuation) (\<lambda>unitCost.
      recordValuation movement valuation unitCost)))"

definition applyInventoryValuation :: "id \<Rightarrow> unit act" where
  "applyInventoryValuation movementId =
     bindM (readM (selectMovement movementId)) (\<lambda>found.
     bindM (requireM (Failure ''INVENTORY_MOVEMENT_NOT_FOUND_FOR_VALUATION'') found) (\<lambda>movement.
     thenM (assertInventoryReconciliationOperational (mv_tenant movement))
     (thenM (movingAverageStep movement)
     (thenM (applyInventoryFifoValuation movementId)
     (bindM (sealInventoryMovementValuation movementId) (\<lambda>_.
      returnM ()))))))"

section \<open>What the steps do\<close>

lemma movingAverage_Inr:
  "movingAverage w q valued c = Inr (Q, V, A) \<longleftrightarrow>
     Q = va_quantity w + q \<and> V = (if Q = 0 then 0 else va_value w + round_div (q * c) 1000) \<and> 0 \<le> V \<and>
     A = (if valued \<and> 0 < Q then round_div (V * 1000) Q else va_average w)"
  by (auto simp: movingAverage_def bindE_Inr Let_def divideRounded_pos not_less)

lemma ensureValuation_frame:
  assumes "ensureValuation t p db = Inr (u, db')"
  shows "movements db' = movements db" "products db' = products db" "fifo_inv db' = fifo_inv db" "allocs db' = allocs db"
    "selectProduct t p db' = selectProduct t p db"
  using assms
  by (auto simp: ensureValuation_def fifo_inv_def issued_def layerLedger_def selectProduct_def split: option.splits)

definition openingValuation :: "id \<Rightarrow> id \<Rightarrow> inv_db \<Rightarrow> valuation_row option" where
  "openingValuation t p db =
     (case selectValuation t p db of
        Some w \<Rightarrow> Some w
      | None \<Rightarrow> map_option (\<lambda>product. \<lparr>va_tenant = t, va_product = p, va_quantity = 0, va_value = 0,
                  va_average = pr_cost product * 100, va_version = 1\<rparr>) (selectProduct t p db))"

lemma ensureValuation_row:
  "ensureValuation t p db = Inr (u, db') \<Longrightarrow> selectValuation t p db' = openingValuation t p db"
  by (auto simp: ensureValuation_def openingValuation_def selectValuation_def find_append split: option.splits)

lemma resolveSourceCost_same: "resolveSourceCost movement a db = Inr (c, db') \<Longrightarrow> db' = db"
  by (auto simp: resolveSourceCost_def runM split: if_splits)

lemma movementCost_same: "movementCost movement w db = Inr (c, db') \<Longrightarrow> db' = db"
  by (auto simp: movementCost_def dest: resolveSourceCost_same split: if_splits)

lemma valuationFor_Inr:
  "valuationFor movement db = Inr (w, db') \<Longrightarrow>
     ensureValuation (mv_tenant movement) (mv_product movement) db = Inr ((), db') \<and>
     openingValuation (mv_tenant movement) (mv_product movement) db = Some w"
  by (auto simp: valuationFor_def runM ensureValuation_row [symmetric])

lemma guard_same: "assertInventoryReconciliationOperational t db = Inr (u, db') \<Longrightarrow> db' = db"
  by (auto simp: assertInventoryReconciliationOperational_def runM split: option.splits)

text \<open>The four writes of a successful moving-average step.\<close>

definition valuationWrite :: "movement_row \<Rightarrow> int \<Rightarrow> int \<Rightarrow> int \<Rightarrow> valuation_row \<Rightarrow> valuation_row" where
  "valuationWrite movement Q V A v = v\<lparr>va_quantity := Q, va_value := V, va_average := A,
     va_version := va_version v + (if mv_quantity movement \<noteq> 0 then 1 else 0)\<rparr>"

definition costWrite :: "int \<Rightarrow> int \<Rightarrow> int \<Rightarrow> int \<Rightarrow> movement_row \<Rightarrow> movement_row" where
  "costWrite c d V A m = m\<lparr>mv_unit_cost := Some c, mv_value_change := Some d, mv_inventory_value := Some V, mv_average_cost := Some A\<rparr>"

lemma updateValuation_Inr:
  "updateValuation t p Q V A ch db = Inr (u, db') \<longleftrightarrow>
     (let up = (\<lambda>v. v\<lparr>va_quantity := Q, va_value := V, va_average := A, va_version := va_version v + (if ch then 1 else 0)\<rparr>)
      in (\<forall>v\<in>set (valuations db). va_tenant v = t \<and> va_product v = p \<longrightarrow> valuation_check (up v)) \<and>
         db' = db\<lparr>valuations := update_where (\<lambda>v. va_tenant v = t \<and> va_product v = p) up (valuations db)\<rparr>)"
  by (auto simp: updateValuation_def Let_def runM)

lemma recordValuation_Inr:
  assumes "recordValuation movement w c db = Inr (u, db')"
  obtains Q V A where "movingAverage w (mv_quantity movement) (isValuedEntry movement) c = Inr (Q, V, A)"
    "\<forall>v\<in>set (valuations db). va_tenant v = mv_tenant movement \<and> va_product v = mv_product movement \<longrightarrow>
       valuation_check (valuationWrite movement Q V A v)"
    "valuations db' = update_where (\<lambda>v. va_tenant v = mv_tenant movement \<and> va_product v = mv_product movement)
       (valuationWrite movement Q V A) (valuations db)"
    "movements db' = update_where (\<lambda>m. mv_id m = mv_id movement \<and> mv_tenant m = mv_tenant movement)
       (costWrite c (V - va_value w) V A) (movements db)"
    "products db' = (if isValuedEntry movement
       then update_where (\<lambda>r. pr_id r = mv_product movement \<and> pr_tenant r = mv_tenant movement \<and> pr_cost r \<noteq> round_div A 100)
         (\<lambda>r. r\<lparr>pr_cost := round_div A 100, pr_version := pr_version r + 1\<rparr>) (products db) else products db)"
    "fifo_inv db' = fifo_inv db" "allocs db' = allocs db" "policies db' = policies db" "tenants db' = tenants db"
proof -
  from assms obtain p where p: "movingAverage w (mv_quantity movement) (isValuedEntry movement) c = Inr p"
    by (auto simp: recordValuation_def runM)
  obtain Q V A where q: "p = (Q, V, A)" by (cases p)
  have run: "thenM (updateValuation (mv_tenant movement) (mv_product movement) Q V A (mv_quantity movement \<noteq> 0))
     (thenM (updateMovement (mv_tenant movement) (mv_id movement) (costWrite c (V - va_value w) V A))
     (if isValuedEntry movement
      then bindM (liftE (divideRounded ''INVALID_VALUATION_DIVISOR'' A 100)) (\<lambda>cents.
             updateCatalogCost (mv_tenant movement) (mv_product movement) cents)
      else returnM ())) db = Inr (u, db')"
    using assms unfolding recordValuation_def costWrite_def [abs_def] by (simp add: bindM_Inr p q)
  have up: "(\<lambda>v. v\<lparr>va_quantity := Q, va_value := V, va_average := A,
      va_version := va_version v + (if mv_quantity movement \<noteq> 0 then 1 else 0)\<rparr>) = valuationWrite movement Q V A"
    by (simp add: valuationWrite_def [abs_def])
  show ?thesis
  proof (cases "isValuedEntry movement")
    case True
    show ?thesis
      by (rule that [OF p [unfolded q]])
        (use run True in \<open>simp_all add: runM updateValuation_Inr Let_def up updateCatalogCost_def divideRounded_pos fifo_inv_def issued_def layerLedger_def\<close>)
  next
    case False
    show ?thesis
      by (rule that [OF p [unfolded q]])
        (use run False in \<open>simp_all add: runM updateValuation_Inr Let_def up fifo_inv_def issued_def layerLedger_def\<close>)
  qed
qed

lemma movingAverageStep_Inr:
  assumes "movingAverageStep movement db = Inr (u, db')"
  obtains w db1 c where
    "ensureValuation (mv_tenant movement) (mv_product movement) db = Inr ((), db1)"
    "openingValuation (mv_tenant movement) (mv_product movement) db = Some w"
    "0 \<le> va_quantity w + mv_quantity movement"
    "movementCost movement w db1 = Inr (c, db1)"
    "recordValuation movement w c db1 = Inr ((), db')"
proof -
  from assms obtain w db1 c db2 where "valuationFor movement db = Inr (w, db1)" "0 \<le> va_quantity w + mv_quantity movement"
    "movementCost movement w db1 = Inr (c, db2)" "recordValuation movement w c db2 = Inr ((), db')"
    unfolding movingAverageStep_def by (auto simp: runM)
  then show ?thesis using that movementCost_same valuationFor_Inr by blast
qed

section \<open>What the FIFO step and the seal leave\<close>

lemma applyFifo_movement:
  assumes run: "applyInventoryFifoValuation mid db = Inr (u, db')" and movement: "selectMovement mid db = Some m"
  shows "\<exists>x y z. selectMovement mid db' = Some (m\<lparr>mv_fifo_unit_cost := x, mv_fifo_value_change := y, mv_fifo_inventory_value := z\<rparr>)"
    "valuations db' = valuations db" "products db' = products db" "policies db' = policies db"
proof -
  have "(\<exists>x y z. selectMovement mid db' = Some (m\<lparr>mv_fifo_unit_cost := x, mv_fifo_value_change := y, mv_fifo_inventory_value := z\<rparr>)) \<and>
    valuations db' = valuations db \<and> products db' = products db \<and> policies db' = policies db"
    using run
  proof (cases rule: applyFifo_run)
    case already
    moreover have "m = m\<lparr>mv_fifo_unit_cost := mv_fifo_unit_cost m, mv_fifo_value_change := mv_fifo_value_change m,
      mv_fifo_inventory_value := mv_fifo_inventory_value m\<rparr>" by simp
    ultimately show ?thesis using movement by metis
  next
    case (ran mv country db1 v db2)
    have same: "movements db2 = movements db" "valuations db2 = valuations db"
      using keepsD [OF keeps_movements_valuations(1) ran(4)] keepsD [OF keeps_movements_valuations(2) ran(4)]
        ensureCutover_same_layers [OF ran(3)] by simp_all
    have "keeps products (fifoValueChange mv country (mv_quantity mv))" "keeps policies (fifoValueChange mv country (mv_quantity mv))"
      by (intro keeps_fifoValueChange keeps_alloc_view; simp)+
    then have same': "products db2 = products db" "policies db2 = policies db"
      using keepsD ran(3,4) by (fastforce simp: ensureCutover_def)+
    have mv: "mv = m" using ran(1) movement by simp
    have sel: "selectMovement mid db2 = Some m" using movement same by (simp add: selectMovement_def)
    show ?thesis
      by (rule updateMovementSummary_Inr [OF ran(5) [unfolded mv]])
        (use same same' sel in \<open>auto simp: selectMovement_def find_update_where\<close>)
  qed
  then show "\<exists>x y z. selectMovement mid db' = Some (m\<lparr>mv_fifo_unit_cost := x, mv_fifo_value_change := y, mv_fifo_inventory_value := z\<rparr>)"
    "valuations db' = valuations db" "products db' = products db" "policies db' = policies db" by blast+
qed

definition sealed :: "policy_row \<Rightarrow> movement_row \<Rightarrow> movement_row" where
  "sealed policy m = m\<lparr>mv_method := Some (po_method policy), mv_policy_version := Some (po_version policy),
     mv_effective_at := Some (milliseconds (po_effective_at policy)),
     mv_unit_cost := (if po_method policy = FIFO then mv_fifo_unit_cost m else mv_unit_cost m),
     mv_value_change := (if po_method policy = FIFO then mv_fifo_value_change m else mv_value_change m),
     mv_inventory_value := (if po_method policy = FIFO then mv_fifo_inventory_value m else mv_inventory_value m)\<rparr>"

lemma loadPolicy_frame:
  assumes "loadInventoryValuationPolicy t db = Inr (p, db')"
  shows "movements db' = movements db" "valuations db' = valuations db" "products db' = products db"
    "fifo_inv db' = fifo_inv db" "allocs db' = allocs db" "po_tenant p = t"
  using assms
  by (auto simp: loadInventoryValuationPolicy_def runM fifo_inv_def issued_def layerLedger_def split: if_splits
      dest!: find_Some_props)

lemma seal_Inr:
  assumes run: "sealInventoryMovementValuation mid db = Inr (meth, db')" and movement: "selectMovement mid db = Some m"
  obtains policy where "po_tenant policy = mv_tenant m" "meth = po_method policy"
    "po_method policy = FIFO \<longrightarrow> mv_fifo_unit_cost m \<noteq> None \<and> mv_fifo_value_change m \<noteq> None \<and> mv_fifo_inventory_value m \<noteq> None"
    "selectMovement mid db' = Some (sealed policy m)"
    "valuations db' = valuations db" "products db' = products db" "fifo_inv db' = fifo_inv db" "allocs db' = allocs db"
proof -
  from run movement obtain policy db1 where L: "loadInventoryValuationPolicy (mv_tenant m) db = Inr (policy, db1)"
    and G: "\<not> (po_method policy = FIFO \<and> (mv_fifo_unit_cost m = None \<or> mv_fifo_value_change m = None \<or> mv_fifo_inventory_value m = None))"
    and W: "db' = db1\<lparr>movements := update_where (\<lambda>r. mv_id r = mid \<and> mv_tenant r = mv_tenant m) (sealed policy) (movements db1)\<rparr>"
    and M: "meth = po_method policy"
    unfolding sealInventoryMovementValuation_def sealed_def [abs_def] by (auto simp: runM)
  have id: "mv_id m = mid" by (rule selectMovement_id [OF movement])
  have "(sealed policy r) \<noteq> r \<longrightarrow> mv_id (sealed policy r) = mv_id r \<and> mv_tenant (sealed policy r) = mv_tenant r" for r
    by (simp add: sealed_def)
  then have "selectMovement mid db' = Some (sealed policy m)"
    using movement id loadPolicy_frame(1) [OF L] by (simp add: W selectMovement_def find_update_where sealed_def)
  then show ?thesis
    by (intro that [of policy]) (use loadPolicy_frame [OF L] G M W in simp_all)
qed

section \<open>The invariant of the valuations\<close>

definition valuation_inv :: "inv_db \<Rightarrow> bool" where
  "valuation_inv db \<longleftrightarrow>
     distinct (map (\<lambda>v. (va_tenant v, va_product v)) (valuations db)) \<and>
     (\<forall>v\<in>set (valuations db). valuation_check v \<and> (va_quantity v = 0 \<longrightarrow> va_value v = 0)) \<and>
     (\<forall>p\<in>set (products db). 0 \<le> pr_cost p)"

lemma ensureValuation_inv:
  assumes "ensureValuation t p db = Inr (u, db')" "valuation_inv db"
  shows "valuation_inv db'"
proof -
  have "0 \<le> pr_cost r" if "selectProduct t p db = Some r" for r
    using that assms(2) find_Some_props by (fastforce simp: selectProduct_def valuation_inv_def)
  then show ?thesis
    using assms
    by (auto simp: ensureValuation_def valuation_inv_def valuation_check_def selectValuation_def find_None_iff split: option.splits if_splits)
qed

lemma recordValuation_inv:
  assumes "recordValuation movement w c db = Inr (u, db')" "valuation_inv db" "0 \<le> va_quantity w"
  shows "valuation_inv db'"
proof -
  obtain Q V A where R: "movingAverage w (mv_quantity movement) (isValuedEntry movement) c = Inr (Q, V, A)"
    "\<forall>v\<in>set (valuations db). va_tenant v = mv_tenant movement \<and> va_product v = mv_product movement \<longrightarrow>
       valuation_check (valuationWrite movement Q V A v)"
    "valuations db' = update_where (\<lambda>v. va_tenant v = mv_tenant movement \<and> va_product v = mv_product movement)
       (valuationWrite movement Q V A) (valuations db)"
    "products db' = (if isValuedEntry movement
       then update_where (\<lambda>r. pr_id r = mv_product movement \<and> pr_tenant r = mv_tenant movement \<and> pr_cost r \<noteq> round_div A 100)
         (\<lambda>r. r\<lparr>pr_cost := round_div A 100, pr_version := pr_version r + 1\<rparr>) (products db) else products db)"
    by (rule recordValuation_Inr [OF assms(1)])
  have keys: "map (\<lambda>v. (va_tenant v, va_product v)) (valuations db') = map (\<lambda>v. (va_tenant v, va_product v)) (valuations db)"
    unfolding R(3) by (rule map_update_where) (simp add: valuationWrite_def)
  have V: "Q = 0 \<Longrightarrow> V = 0" "0 \<le> V" using R(1) by (auto simp: movingAverage_Inr)
  have "isValuedEntry movement \<Longrightarrow> 0 < Q"
    using R(1) assms(3) by (auto simp: movingAverage_Inr isValuedEntry_def)
  then have A: "isValuedEntry movement \<Longrightarrow> 0 \<le> round_div A 100"
    using R(1) V(2) by (auto simp: movingAverage_Inr intro!: round_div_nonneg)
  have "valuation_check v \<and> (va_quantity v = 0 \<longrightarrow> va_value v = 0)" if "v \<in> set (valuations db')" for v
    using that R(2) V assms(2) unfolding R(3) set_update_where
    by (auto simp: valuation_inv_def valuationWrite_def)
  moreover have "0 \<le> pr_cost r" if "r \<in> set (products db')" for r
    using that A assms(2) unfolding R(4) by (auto simp: valuation_inv_def set_update_where split: if_splits)
  ultimately show ?thesis
    using assms(2) by (simp add: valuation_inv_def keys)
qed

lemma openingValuation_ok:
  assumes "openingValuation t p db = Some w" "valuation_inv db"
  shows "0 \<le> va_quantity w" "va_quantity w = 0 \<Longrightarrow> va_value w = 0" "0 \<le> va_value w" "0 \<le> va_average w"
proof -
  have "0 \<le> va_quantity w \<and> (va_quantity w = 0 \<longrightarrow> va_value w = 0) \<and> 0 \<le> va_value w \<and> 0 \<le> va_average w"
  proof (cases "selectValuation t p db")
    case None
    then obtain r where "selectProduct t p db = Some r" "w = \<lparr>va_tenant = t, va_product = p, va_quantity = 0, va_value = 0,
        va_average = pr_cost r * 100, va_version = 1\<rparr>"
      using assms(1) by (auto simp: openingValuation_def)
    then show ?thesis using assms(2) find_Some_props by (fastforce simp: selectProduct_def valuation_inv_def)
  next
    case (Some v)
    then have "w \<in> set (valuations db)" using assms(1) find_Some_props by (fastforce simp: openingValuation_def selectValuation_def)
    then show ?thesis using assms(2) by (auto simp: valuation_inv_def valuation_check_def)
  qed
  then show "0 \<le> va_quantity w" "va_quantity w = 0 \<Longrightarrow> va_value w = 0" "0 \<le> va_value w" "0 \<le> va_average w" by blast+
qed

lemma applyInventoryValuation_run:
  assumes "applyInventoryValuation mid db = Inr (u, db')"
  obtains movement db1 db2 meth where "selectMovement mid db = Some movement"
    "\<forall>g. List.find (\<lambda>g. gu_tenant g = mv_tenant movement) (guards db) = Some g \<longrightarrow> \<not> gu_blocked g"
    "movingAverageStep movement db = Inr ((), db1)" "applyInventoryFifoValuation mid db1 = Inr ((), db2)"
    "sealInventoryMovementValuation mid db2 = Inr (meth, db')"
  using assms unfolding applyInventoryValuation_def
  by (auto simp: runM assertInventoryReconciliationOperational_def split: option.splits)

lemma movingAverageStep_inv:
  assumes "movingAverageStep movement db = Inr (u, db')" "valuation_inv db"
  shows "valuation_inv db'"
proof -
  obtain w db1 c where S: "ensureValuation (mv_tenant movement) (mv_product movement) db = Inr ((), db1)"
    "openingValuation (mv_tenant movement) (mv_product movement) db = Some w" "recordValuation movement w c db1 = Inr ((), db')"
    by (rule movingAverageStep_Inr [OF assms(1)])
  show ?thesis
    by (rule recordValuation_inv [OF S(3) ensureValuation_inv [OF S(1) assms(2)] openingValuation_ok(1) [OF S(2) assms(2)]])
qed

lemma movingAverageStep_movement:
  assumes "movingAverageStep movement db = Inr (u, db')" "selectMovement mid db = Some movement"
  shows "\<exists>c d V A. selectMovement mid db' = Some (costWrite c d V A movement)"
proof -
  obtain w db1 c where S: "ensureValuation (mv_tenant movement) (mv_product movement) db = Inr ((), db1)"
    "recordValuation movement w c db1 = Inr ((), db')"
    by (rule movingAverageStep_Inr [OF assms(1)])
  obtain V A where "movements db' = update_where (\<lambda>m. mv_id m = mv_id movement \<and> mv_tenant m = mv_tenant movement)
       (costWrite c (V - va_value w) V A) (movements db1)"
    by (rule recordValuation_Inr [OF S(2)])
  then have "selectMovement mid db' = Some (costWrite c (V - va_value w) V A movement)"
    using assms(2) ensureValuation_frame(1) [OF S(1)] selectMovement_id [OF assms(2)]
    by (simp add: selectMovement_def find_update_where costWrite_def)
  then show ?thesis by blast
qed

lemma applyInventoryValuation_inv:
  assumes "applyInventoryValuation mid db = Inr (u, db')" "valuation_inv db"
  shows "valuation_inv db'"
proof -
  obtain movement db1 db2 meth where R: "selectMovement mid db = Some movement"
    "movingAverageStep movement db = Inr ((), db1)" "applyInventoryFifoValuation mid db1 = Inr ((), db2)"
    "sealInventoryMovementValuation mid db2 = Inr (meth, db')"
    by (rule applyInventoryValuation_run [OF assms(1)])
  obtain m1 where m1: "selectMovement mid db1 = Some m1" using movingAverageStep_movement [OF R(2,1)] by blast
  obtain m2 where m2: "selectMovement mid db2 = Some m2" using applyFifo_movement(1) [OF R(3) m1] by blast
  have one: "valuation_inv db1" by (rule movingAverageStep_inv [OF R(2) assms(2)])
  show ?thesis
    by (rule seal_Inr [OF R(4) m2]) (use one applyFifo_movement(2,3) [OF R(3) m1] in \<open>simp add: valuation_inv_def\<close>)
qed

lemma applyInventoryValuation_fifo_inv:
  assumes "applyInventoryValuation mid db = Inr (u, db')" "fifo_inv db"
  shows "fifo_inv db'"
proof -
  obtain movement db1 db2 meth where R: "selectMovement mid db = Some movement"
    "movingAverageStep movement db = Inr ((), db1)" "applyInventoryFifoValuation mid db1 = Inr ((), db2)"
    "sealInventoryMovementValuation mid db2 = Inr (meth, db')"
    by (rule applyInventoryValuation_run [OF assms(1)])
  obtain m1 where m1: "selectMovement mid db1 = Some m1" using movingAverageStep_movement [OF R(2,1)] by blast
  obtain m2 where m2: "selectMovement mid db2 = Some m2" using applyFifo_movement(1) [OF R(3) m1] by blast
  obtain w dbv c where S: "ensureValuation (mv_tenant movement) (mv_product movement) db = Inr ((), dbv)"
    "recordValuation movement w c dbv = Inr ((), db1)" by (rule movingAverageStep_Inr [OF R(2)])
  have "fifo_inv db1"
    by (rule recordValuation_Inr [OF S(2)]) (use ensureValuation_frame(3) [OF S(1)] assms(2) in simp)
  then have two: "fifo_inv db2" by (rule applyFifo_inv [OF _ R(3)])
  show ?thesis by (rule seal_Inr [OF R(4) m2]) (use two in simp)
qed

end
