(* ===== verification/ValuationLaws.thy ===== *)
theory ValuationLaws
  imports Valuation
begin

text \<open>
  What valuing a movement does as a whole: the cost it takes, the moving-average row it leaves, and
  the columns it writes on the movement under the method of the tenant.
\<close>

section \<open>The method of a tenant\<close>

text \<open>A tenant without a stored policy gets the default one on first use.\<close>

definition policyMethod :: "id \<Rightarrow> inv_db \<Rightarrow> valuation_method" where
  "policyMethod t db = (case List.find (\<lambda>p. po_tenant p = t) (policies db) of None \<Rightarrow> MOVING_AVERAGE | Some p \<Rightarrow> po_method p)"

lemma policyMethod_cong: "policies db' = policies db \<Longrightarrow> policyMethod t db' = policyMethod t db"
  by (simp add: policyMethod_def)

lemma loadPolicy_method:
  assumes "loadInventoryValuationPolicy t db = Inr (p, db')"
  shows "po_method p = policyMethod t db" "policyMethod t' db' = policyMethod t' db" "layers db' = layers db"
proof -
  have found: "t \<in> po_tenant ` set (policies db) \<longleftrightarrow> List.find (\<lambda>p. po_tenant p = t) (policies db) \<noteq> None"
    by (auto simp: find_None_iff)
  have "po_method p = policyMethod t db \<and> policyMethod t' db' = policyMethod t' db \<and> layers db' = layers db"
  proof (cases "List.find (\<lambda>p. po_tenant p = t) (policies db)")
    case None
    then show ?thesis using assms found
      by (auto simp: loadInventoryValuationPolicy_def runM policyMethod_def find_append split: option.splits)
  next
    case (Some q)
    then show ?thesis using assms found by (auto simp: loadInventoryValuationPolicy_def runM policyMethod_def)
  qed
  then show "po_method p = policyMethod t db" "policyMethod t' db' = policyMethod t' db" "layers db' = layers db" by blast+
qed

lemma seal_run:
  assumes run: "sealInventoryMovementValuation mid db = Inr (meth, db')" and movement: "selectMovement mid db = Some m"
  obtains policy where "po_method policy = policyMethod (mv_tenant m) db" "selectMovement mid db' = Some (sealed policy m)"
    "valuations db' = valuations db" "allocs db' = allocs db" "layers db' = layers db" "\<forall>t. policyMethod t db' = policyMethod t db"
    "products db' = products db"
    "policyMethod (mv_tenant m) db = FIFO \<longrightarrow> mv_fifo_unit_cost m \<noteq> None \<and> mv_fifo_value_change m \<noteq> None \<and> mv_fifo_inventory_value m \<noteq> None"
proof -
  obtain policy where P: "meth = po_method policy" "selectMovement mid db' = Some (sealed policy m)" "valuations db' = valuations db"
    "allocs db' = allocs db" "products db' = products db"
    "po_method policy = FIFO \<longrightarrow> mv_fifo_unit_cost m \<noteq> None \<and> mv_fifo_value_change m \<noteq> None \<and> mv_fifo_inventory_value m \<noteq> None"
    by (rule seal_Inr [OF run movement])
  from run movement obtain p db1 where L: "loadInventoryValuationPolicy (mv_tenant m) db = Inr (p, db1)" "meth = po_method p"
    "layers db' = layers db1" "policies db' = policies db1"
    unfolding sealInventoryMovementValuation_def by (auto simp: runM)
  note M = loadPolicy_method [OF L(1)]
  show thesis
    by (rule that [of policy]) (use P L M policyMethod_cong [OF L(4)] in simp_all)
qed

section \<open>The cost of a movement\<close>

text \<open>A purchase enters at the cost of its receipt line, what a sale gives back at the cost of the sale.\<close>

definition entryCost :: "movement_row \<Rightarrow> inv_db \<Rightarrow> int option" where
  "entryCost m db =
     (if mv_type m = PURCHASE_RECEIPT then map_option rl_unit_cost (selectReceiptLine (mv_tenant m) (mv_receipt_line m) db)
      else originalSaleCost m db)"

lemma movementCost_Inr:
  "movementCost m w db = Inr (c, db') \<Longrightarrow> if isValuedEntry m then entryCost m db = Some c else c = va_average w"
  by (auto simp: movementCost_def resolveSourceCost_def entryCost_def isValuedEntry_def runM split: if_splits)

lemma ensureValuation_sources:
  assumes "ensureValuation t p db = Inr (u, db')"
  shows "entryCost m db' = entryCost m db" "policies db' = policies db"
    "(t', p') \<noteq> (t, p) \<Longrightarrow> selectValuation t' p' db' = selectValuation t' p' db"
  using assms
  by (auto simp: ensureValuation_def entryCost_def originalSaleCost_def selectReceiptLine_def selectValuation_def find_append
      split: option.splits if_splits)

lemma find_update_other:
  "(\<And>r. p (u r) = p r) \<Longrightarrow> (\<And>r. p r \<Longrightarrow> \<not> q r) \<Longrightarrow> List.find p (update_where q u rows) = List.find p rows"
  by (induction rows) auto

lemma movingAverageStep_effect:
  assumes run: "movingAverageStep m db = Inr (u, db')" and movement: "selectMovement mid db = Some m"
  obtains w w' c where "openingValuation (mv_tenant m) (mv_product m) db = Some w"
    "selectValuation (mv_tenant m) (mv_product m) db' = Some w'"
    "if isValuedEntry m then entryCost m db = Some c else c = va_average w"
    "movingAverage w (mv_quantity m) (isValuedEntry m) c = Inr (va_quantity w', va_value w', va_average w')"
    "selectMovement mid db' = Some (costWrite c (va_value w' - va_value w) (va_value w') (va_average w') m)"
    "\<forall>t p. (t, p) \<noteq> (mv_tenant m, mv_product m) \<longrightarrow> selectValuation t p db' = selectValuation t p db"
    "policies db' = policies db" "allocs db' = allocs db"
    "isValuedEntry m \<longrightarrow> products db' = update_where (\<lambda>r. pr_id r = mv_product m \<and> pr_tenant r = mv_tenant m \<and> pr_cost r \<noteq> round_div (va_average w') 100)
         (\<lambda>r. r\<lparr>pr_cost := round_div (va_average w') 100, pr_version := pr_version r + 1\<rparr>) (products db)"
    "\<not> isValuedEntry m \<longrightarrow> products db' = products db"
proof -
  obtain w db1 c where S: "ensureValuation (mv_tenant m) (mv_product m) db = Inr ((), db1)"
    "openingValuation (mv_tenant m) (mv_product m) db = Some w" "movementCost m w db1 = Inr (c, db1)"
    "recordValuation m w c db1 = Inr ((), db')"
    by (rule movingAverageStep_Inr [OF run])
  note E = ensureValuation_sources [OF S(1)]
  obtain Q V A where R: "movingAverage w (mv_quantity m) (isValuedEntry m) c = Inr (Q, V, A)"
    "valuations db' = update_where (\<lambda>v. va_tenant v = mv_tenant m \<and> va_product v = mv_product m) (valuationWrite m Q V A) (valuations db1)"
    "movements db' = update_where (\<lambda>r. mv_id r = mv_id m \<and> mv_tenant r = mv_tenant m) (costWrite c (V - va_value w) V A) (movements db1)"
    "products db' = (if isValuedEntry m
       then update_where (\<lambda>r. pr_id r = mv_product m \<and> pr_tenant r = mv_tenant m \<and> pr_cost r \<noteq> round_div A 100)
         (\<lambda>r. r\<lparr>pr_cost := round_div A 100, pr_version := pr_version r + 1\<rparr>) (products db1) else products db1)"
    "allocs db' = allocs db1" "policies db' = policies db1"
    by (rule recordValuation_Inr [OF S(4)])
  let ?w' = "valuationWrite m Q V A w"
  have w'_simps: "va_quantity ?w' = Q" "va_value ?w' = V" "va_average ?w' = A" by (simp_all add: valuationWrite_def)
  have w': "selectValuation (mv_tenant m) (mv_product m) db' = Some ?w'"
  proof -
    have sel: "List.find (\<lambda>v. va_tenant v = mv_tenant m \<and> va_product v = mv_product m) (valuations db1) = Some w"
      using ensureValuation_row [OF S(1)] S(2) by (simp add: selectValuation_def)
    then show ?thesis
      using find_Some_props [OF sel] by (simp add: selectValuation_def R(2) find_update_where valuationWrite_def)
  qed
  have m': "selectMovement mid db' = Some (costWrite c (V - va_value w) V A m)"
    using movement ensureValuation_frame(1) [OF S(1)] selectMovement_id [OF movement]
    by (simp add: selectMovement_def R(3) find_update_where costWrite_def)
  have other: "selectValuation t p db' = selectValuation t p db1" if "(t, p) \<noteq> (mv_tenant m, mv_product m)" for t p
    unfolding selectValuation_def R(2) using that by (intro find_update_other) (auto simp: valuationWrite_def)
  show thesis
    by (rule that [OF S(2) w', of c])
      (use R(1,4-6) m' other E ensureValuation_frame(2,4) [OF S(1)] movementCost_Inr [OF S(3)] in \<open>simp_all add: w'_simps split: if_splits\<close>)
qed

section \<open>The whole valuation\<close>

lemma fifo_columns:
  assumes run: "applyInventoryFifoValuation mid db = Inr (u, db')"
    and movement: "selectMovement mid db = Some m" and fresh: "fresh_movement m db"
  shows "selectMovement mid db' = Some (m\<lparr>
       mv_fifo_unit_cost := Some (if mv_quantity m = 0 then 0 else round_div (\<bar>movementValue m db'\<bar> * 1000) \<bar>mv_quantity m\<bar>),
       mv_fifo_value_change := Some (movementValue m db'),
       mv_fifo_inventory_value := Some (round_div (layerValue (mv_tenant m) (mv_product m) db') 1000)\<rparr>)"
proof -
  obtain country db1 v db2 where ran: "ensureCutover m db = Inr ((), db1)"
      "fifoValueChange m country (mv_quantity m) db1 = Inr (v, db2)" "updateMovementSummary m (mv_quantity m) v db2 = Inr ((), db')"
    using run movement fresh by (elim applyFifo_run) auto
  have "movementValue m db1 = 0"
    using fresh unfolding movementValue_def ensureCutover_same_layers(1) [OF ran(1)]
    by (auto simp: fresh_movement_def intro!: sum_where_none)
  then have v: "movementValue m db2 = v" using fifoValueChange_sums [OF ran(2)] by simp
  have "movements db2 = movements db"
    using keepsD [OF keeps_movements_valuations(1) ran(2)] ensureCutover_same_layers(3) [OF ran(1)] by simp
  then have sel: "selectMovement mid db2 = Some m" using movement by (simp add: selectMovement_def)
  have db': "db' = db2\<lparr>movements := update_where (\<lambda>r. mv_id r = mv_id m \<and> mv_tenant r = mv_tenant m)
      (\<lambda>r. r\<lparr>mv_fifo_unit_cost := Some (if mv_quantity m = 0 then 0 else round_div (\<bar>v\<bar> * 1000) \<bar>mv_quantity m\<bar>),
        mv_fifo_value_change := Some v,
        mv_fifo_inventory_value := Some (round_div (layerValue (mv_tenant m) (mv_product m) db2) 1000)\<rparr>) (movements db2)\<rparr>"
    using ran(3) by (auto simp: updateMovementSummary_def runM divideRounded_pos abs_if split: if_splits)
  have same: "movementValue m db' = v" "layerValue (mv_tenant m) (mv_product m) db' = layerValue (mv_tenant m) (mv_product m) db2"
    using v by (simp_all add: db' movementValue_def layerValue_def)
  show ?thesis
    unfolding same using sel selectMovement_id [OF movement] by (simp add: db' selectMovement_def find_update_where)
qed

lemma applyInventoryValuation_effect:
  assumes run: "applyInventoryValuation mid db = Inr (u, db')" and movement: "selectMovement mid db = Some m"
  obtains w w' c m' where "openingValuation (mv_tenant m) (mv_product m) db = Some w"
    "selectValuation (mv_tenant m) (mv_product m) db' = Some w'" "selectMovement mid db' = Some m'"
    "if isValuedEntry m then entryCost m db = Some c else c = va_average w"
    "movingAverage w (mv_quantity m) (isValuedEntry m) c = Inr (va_quantity w', va_value w', va_average w')"
    "mv_method m' = Some (policyMethod (mv_tenant m) db)" "mv_average_cost m' = Some (va_average w')"
    "policyMethod (mv_tenant m) db \<noteq> FIFO \<longrightarrow>
       mv_unit_cost m' = Some c \<and> mv_value_change m' = Some (va_value w' - va_value w) \<and> mv_inventory_value m' = Some (va_value w')"
    "policyMethod (mv_tenant m) db = FIFO \<and> fresh_movement m db \<longrightarrow>
       mv_unit_cost m' = Some (if mv_quantity m = 0 then 0 else round_div (\<bar>movementValue m db'\<bar> * 1000) \<bar>mv_quantity m\<bar>) \<and>
       mv_value_change m' = Some (movementValue m db') \<and>
       mv_inventory_value m' = Some (round_div (layerValue (mv_tenant m) (mv_product m) db') 1000)"
    "fresh_movement m db \<longrightarrow> movementQuantity m db' = mv_quantity m \<and> layerQuantity (mv_tenant m) (mv_product m) db' = va_quantity w'"
    "\<forall>t p. (t, p) \<noteq> (mv_tenant m, mv_product m) \<longrightarrow> selectValuation t p db' = selectValuation t p db"
    "\<forall>t. policyMethod t db' = policyMethod t db"
    "isValuedEntry m \<longrightarrow> products db' = update_where (\<lambda>r. pr_id r = mv_product m \<and> pr_tenant r = mv_tenant m \<and> pr_cost r \<noteq> round_div (va_average w') 100)
         (\<lambda>r. r\<lparr>pr_cost := round_div (va_average w') 100, pr_version := pr_version r + 1\<rparr>) (products db)"
    "\<not> isValuedEntry m \<longrightarrow> products db' = products db"
proof -
  obtain db1 db2 meth where R: "movingAverageStep m db = Inr ((), db1)" "applyInventoryFifoValuation mid db1 = Inr ((), db2)"
    "sealInventoryMovementValuation mid db2 = Inr (meth, db')"
    using applyInventoryValuation_run [OF run] movement by (metis option.inject)
  obtain w w' c where A: "openingValuation (mv_tenant m) (mv_product m) db = Some w"
    "selectValuation (mv_tenant m) (mv_product m) db1 = Some w'"
    "if isValuedEntry m then entryCost m db = Some c else c = va_average w"
    "movingAverage w (mv_quantity m) (isValuedEntry m) c = Inr (va_quantity w', va_value w', va_average w')"
    "selectMovement mid db1 = Some (costWrite c (va_value w' - va_value w) (va_value w') (va_average w') m)" (is "_ = Some ?m1")
    "\<forall>t p. (t, p) \<noteq> (mv_tenant m, mv_product m) \<longrightarrow> selectValuation t p db1 = selectValuation t p db"
    "policies db1 = policies db" "allocs db1 = allocs db"
    "isValuedEntry m \<longrightarrow> products db1 = update_where (\<lambda>r. pr_id r = mv_product m \<and> pr_tenant r = mv_tenant m \<and> pr_cost r \<noteq> round_div (va_average w') 100)
         (\<lambda>r. r\<lparr>pr_cost := round_div (va_average w') 100, pr_version := pr_version r + 1\<rparr>) (products db)"
    "\<not> isValuedEntry m \<longrightarrow> products db1 = products db"
    by (rule movingAverageStep_effect [OF R(1) movement])
  have m1: "mv_tenant ?m1 = mv_tenant m" "mv_product ?m1 = mv_product m" "mv_quantity ?m1 = mv_quantity m" "mv_id ?m1 = mv_id m"
    by (simp_all add: costWrite_def)
  note F = applyFifo_movement [OF R(2) A(5)]
  obtain x y z where m2: "selectMovement mid db2 = Some (?m1\<lparr>mv_fifo_unit_cost := x, mv_fifo_value_change := y, mv_fifo_inventory_value := z\<rparr>)"
    (is "_ = Some ?m2") using F(1) by blast
  obtain policy where P: "po_method policy = policyMethod (mv_tenant ?m2) db2" "selectMovement mid db' = Some (sealed policy ?m2)"
    "valuations db' = valuations db2" "allocs db' = allocs db2" "layers db' = layers db2" "\<forall>t. policyMethod t db' = policyMethod t db2"
    "products db' = products db2"
    by (rule seal_run [OF R(3) m2]) blast
  have meth: "policyMethod t db2 = policyMethod t db" for t
    using F(4) A(7) by (simp add: policyMethod_def)
  have same: "movementValue ?m1 = movementValue m" "movementQuantity ?m1 = movementQuantity m"
    by (auto simp: movementQuantity_def movementValue_def m1)
  have last: "movementValue m db' = movementValue m db2" "movementQuantity m db' = movementQuantity m db2"
    "layerValue t p db' = layerValue t p db2" "layerQuantity t p db' = layerQuantity t p db2" for t p
    by (simp_all add: movementQuantity_def movementValue_def layerValue_def layerQuantity_def P(4,5))
  have val: "selectValuation t p db' = selectValuation t p db1" for t p
    using P(3) F(2) by (simp add: selectValuation_def)
  have fresh1: "fresh_movement ?m1 db1" if "fresh_movement m db"
    using that A(8) by (simp add: fresh_movement_def m1)
  show thesis
  proof (rule that [OF A(1) _ P(2) A(3,4)])
    show "selectValuation (mv_tenant m) (mv_product m) db' = Some w'" using A(2) val by simp
    show "mv_method (sealed policy ?m2) = Some (policyMethod (mv_tenant m) db)" "mv_average_cost (sealed policy ?m2) = Some (va_average w')"
      using P(1) meth by (simp_all add: sealed_def m1) (simp add: costWrite_def)
    show "policyMethod (mv_tenant m) db \<noteq> FIFO \<longrightarrow> mv_unit_cost (sealed policy ?m2) = Some c \<and>
        mv_value_change (sealed policy ?m2) = Some (va_value w' - va_value w) \<and> mv_inventory_value (sealed policy ?m2) = Some (va_value w')"
      using P(1) meth by (simp add: sealed_def m1) (simp add: costWrite_def)
    show "policyMethod (mv_tenant m) db = FIFO \<and> fresh_movement m db \<longrightarrow>
       mv_unit_cost (sealed policy ?m2) = Some (if mv_quantity m = 0 then 0 else round_div (\<bar>movementValue m db'\<bar> * 1000) \<bar>mv_quantity m\<bar>) \<and>
       mv_value_change (sealed policy ?m2) = Some (movementValue m db') \<and>
       mv_inventory_value (sealed policy ?m2) = Some (round_div (layerValue (mv_tenant m) (mv_product m) db') 1000)"
    proof (intro impI, elim conjE)
      assume fifo: "policyMethod (mv_tenant m) db = FIFO" and fresh: "fresh_movement m db"
      have eq: "?m2 = ?m1\<lparr>mv_fifo_unit_cost := Some (if mv_quantity m = 0 then 0 else round_div (\<bar>movementValue m db2\<bar> * 1000) \<bar>mv_quantity m\<bar>),
         mv_fifo_value_change := Some (movementValue m db2),
         mv_fifo_inventory_value := Some (round_div (layerValue (mv_tenant m) (mv_product m) db2) 1000)\<rparr>"
        using fifo_columns [OF R(2) A(5) fresh1 [OF fresh]] unfolding m2 same m1 by (rule option.inject [THEN iffD1])
      have x: "x = Some (if mv_quantity m = 0 then 0 else round_div (\<bar>movementValue m db2\<bar> * 1000) \<bar>mv_quantity m\<bar>)"
        using arg_cong [OF eq, of mv_fifo_unit_cost] by simp
      have y: "y = Some (movementValue m db2)" using arg_cong [OF eq, of mv_fifo_value_change] by simp
      have z: "z = Some (round_div (layerValue (mv_tenant m) (mv_product m) db2) 1000)"
        using arg_cong [OF eq, of mv_fifo_inventory_value] by simp
      show "mv_unit_cost (sealed policy ?m2) = Some (if mv_quantity m = 0 then 0 else round_div (\<bar>movementValue m db'\<bar> * 1000) \<bar>mv_quantity m\<bar>) \<and>
         mv_value_change (sealed policy ?m2) = Some (movementValue m db') \<and>
         mv_inventory_value (sealed policy ?m2) = Some (round_div (layerValue (mv_tenant m) (mv_product m) db') 1000)"
        using fifo P(1) meth by (simp add: sealed_def m1 last x y z)
    qed
    show "fresh_movement m db \<longrightarrow> movementQuantity m db' = mv_quantity m \<and> layerQuantity (mv_tenant m) (mv_product m) db' = va_quantity w'"
      using applyFifo_accounts(1,3) [OF R(2) A(5) fresh1] A(2) F(2) unfolding last same m1
      by (auto simp: selectValuation_def)
    show "\<forall>t p. (t, p) \<noteq> (mv_tenant m, mv_product m) \<longrightarrow> selectValuation t p db' = selectValuation t p db"
      using A(6) val by simp
    show "\<forall>t. policyMethod t db' = policyMethod t db" using P(6) meth by simp
    show "isValuedEntry m \<longrightarrow> products db' = update_where (\<lambda>r. pr_id r = mv_product m \<and> pr_tenant r = mv_tenant m \<and> pr_cost r \<noteq> round_div (va_average w') 100)
         (\<lambda>r. r\<lparr>pr_cost := round_div (va_average w') 100, pr_version := pr_version r + 1\<rparr>) (products db)"
      using A(9) P(7) F(3) by simp
    show "\<not> isValuedEntry m \<longrightarrow> products db' = products db"
      using A(10) P(7) F(3) by simp
  qed
qed

end
