(* ===== verification/ValuationTheorems.thy ===== *)
theory ValuationTheorems
  imports ValuationLaws Fixtures
begin

text \<open>
  The properties of the valuation of movements, with witnesses on a concrete database: a product
  with 4.000 units at an average of 2.0000, one FIFO layer, and an exit of 1.000 units.
\<close>

definition valuedExit :: movement_row where
  "valuedExit = blankMovement\<lparr>mv_type := EXIT, mv_quantity := -1000, mv_resulting := 3000\<rparr>"

definition valuedDb :: inv_db where
  "valuedDb = sampleDb\<lparr>ticks := 2, movements := [valuedExit],
     valuations := [\<lparr>va_tenant = 1, va_product = 7, va_quantity = 4000, va_value = 80000, va_average = 20000, va_version = 1\<rparr>],
     layers := [sampleLayer\<lparr>fl_original := 4000, fl_remaining := 4000\<rparr>]\<rparr>"

lemmas valuedDb_simps = valuedDb_def valuedExit_def sampleDb_def sampleLayer_def blankMovement_def sampleTenant_def sampleProduct_def

lemma valuedDb_inv: "valuation_inv valuedDb" "fifo_inv valuedDb"
  by (simp_all add: valuation_inv_def valuation_check_def fifo_inv_def valuedDb_simps issued_def layer_check_def layerLedger_def
      openingQuantity_def lessThan_nat_numeral lessThan_Suc inj_def)

lemma valuedDb_runs: "case applyInventoryValuation 50 valuedDb of Inl _ \<Rightarrow> False | Inr _ \<Rightarrow> True"
  by code_simp

lemma valuedDb_run: obtains db' where "applyInventoryValuation 50 valuedDb = Inr ((), db')"
  using valuedDb_runs by (auto split: sum.splits)

lemma valuedDb_movement: "selectMovement 50 valuedDb = Some valuedExit"
  by (simp add: selectMovement_def valuedDb_simps)

lemma catalog_cost:
  assumes "products db' = update_where (\<lambda>r. pr_id r = p \<and> pr_tenant r = t \<and> pr_cost r \<noteq> c) (\<lambda>r. r\<lparr>pr_cost := c, pr_version := pr_version r + 1\<rparr>) (products db)"
    "selectProduct t p db' = Some r"
  shows "pr_cost r = c"
proof -
  have r: "r \<in> set (products db')" "pr_tenant r = t" "pr_id r = p"
    using find_Some_props [OF assms(2) [unfolded selectProduct_def]] by simp_all
  let ?q = "\<lambda>r. pr_id r = p \<and> pr_tenant r = t \<and> pr_cost r \<noteq> c" and ?u = "\<lambda>r. r\<lparr>pr_cost := c, pr_version := pr_version r + 1\<rparr>"
  obtain x where "r = (if ?q x then ?u x else x)" using r(1) unfolding assms(1) set_update_where by blast
  then show ?thesis using r(2,3) by (cases "?q x") auto
qed

text \<open>C20: Moving average: valuing a movement adds its quantity to the valuation of its product, and its
  quantity times its cost (rounded) to the value, which is zero when nothing is left and never negative.
  The cost of a purchase is that of its receipt line, of what a sale gives back that of the sale, and of
  any other movement the average. Only an entry at a known cost changes the average, to the new value by
  the new quantity (rounded), and with it the catalog cost, in cents. The movement is stored with the
  method of its tenant and, unless that is FIFO, with the cost, the change of the value and the new value.\<close>

theorem applyInventoryValuation_moving_average:
  assumes "applyInventoryValuation mid db = Inr (u, db')" "selectMovement mid db = Some m"
  shows "\<exists>w w' m' c. openingValuation (mv_tenant m) (mv_product m) db = Some w \<and>
    selectValuation (mv_tenant m) (mv_product m) db' = Some w' \<and> selectMovement mid db' = Some m' \<and>
    (if isValuedEntry m then entryCost m db = Some c else c = va_average w) \<and>
    va_quantity w' = va_quantity w + mv_quantity m \<and>
    va_value w' = (if va_quantity w' = 0 then 0 else va_value w + round_div (mv_quantity m * c) 1000) \<and> 0 \<le> va_value w' \<and>
    (if isValuedEntry m \<and> 0 < va_quantity w'
     then va_average w' = round_div (va_value w' * 1000) (va_quantity w') \<and>
       2 * \<bar>va_average w' * va_quantity w' - va_value w' * 1000\<bar> \<le> va_quantity w'
     else va_average w' = va_average w) \<and>
    (if isValuedEntry m then \<forall>r. selectProduct (mv_tenant m) (mv_product m) db' = Some r \<longrightarrow> pr_cost r = round_div (va_average w') 100
     else products db' = products db) \<and>
    mv_method m' = Some (policyMethod (mv_tenant m) db) \<and> mv_average_cost m' = Some (va_average w') \<and>
    (policyMethod (mv_tenant m) db \<noteq> FIFO \<longrightarrow>
       mv_unit_cost m' = Some c \<and> mv_value_change m' = Some (va_value w' - va_value w) \<and> mv_inventory_value m' = Some (va_value w'))"
proof -
  obtain w w' c m' where E: "openingValuation (mv_tenant m) (mv_product m) db = Some w"
    "selectValuation (mv_tenant m) (mv_product m) db' = Some w'" "selectMovement mid db' = Some m'"
    "if isValuedEntry m then entryCost m db = Some c else c = va_average w"
    "movingAverage w (mv_quantity m) (isValuedEntry m) c = Inr (va_quantity w', va_value w', va_average w')"
    "mv_method m' = Some (policyMethod (mv_tenant m) db)" "mv_average_cost m' = Some (va_average w')"
    "policyMethod (mv_tenant m) db \<noteq> FIFO \<longrightarrow>
       mv_unit_cost m' = Some c \<and> mv_value_change m' = Some (va_value w' - va_value w) \<and> mv_inventory_value m' = Some (va_value w')"
    "isValuedEntry m \<longrightarrow> products db' = update_where (\<lambda>r. pr_id r = mv_product m \<and> pr_tenant r = mv_tenant m \<and> pr_cost r \<noteq> round_div (va_average w') 100)
         (\<lambda>r. r\<lparr>pr_cost := round_div (va_average w') 100, pr_version := pr_version r + 1\<rparr>) (products db)"
    "\<not> isValuedEntry m \<longrightarrow> products db' = products db"
    by (rule applyInventoryValuation_effect [OF assms])
  have catalog: "if isValuedEntry m then \<forall>r. selectProduct (mv_tenant m) (mv_product m) db' = Some r \<longrightarrow> pr_cost r = round_div (va_average w') 100
     else products db' = products db"
    using E(10) catalog_cost [OF E(9) [rule_format]] by simp
  have avg: "if isValuedEntry m \<and> 0 < va_quantity w'
     then va_average w' = round_div (va_value w' * 1000) (va_quantity w') \<and>
       2 * \<bar>va_average w' * va_quantity w' - va_value w' * 1000\<bar> \<le> va_quantity w'
     else va_average w' = va_average w"
    using E(5) round_div_error [of "va_quantity w'" "va_value w' * 1000"] unfolding movingAverage_Inr by simp
  have vals: "va_quantity w' = va_quantity w + mv_quantity m"
    "va_value w' = (if va_quantity w' = 0 then 0 else va_value w + round_div (mv_quantity m * c) 1000)" "0 \<le> va_value w'"
    using E(5) unfolding movingAverage_Inr by blast+
  show ?thesis
    by (intro exI conjI, rule E(1), rule E(2), rule E(3), rule E(4), rule vals(1), rule vals(2), rule vals(3), rule avg, rule catalog,
      rule E(6), rule E(7), rule E(8))
qed

theorem applyInventoryValuation_moving_average_witness:
  "\<exists>db' w' m'. applyInventoryValuation 50 valuedDb = Inr ((), db') \<and> selectValuation 1 7 db' = Some w' \<and>
     va_quantity w' = 3000 \<and> va_value w' = 60000 \<and> va_average w' = 20000 \<and>
     selectMovement 50 db' = Some m' \<and> mv_unit_cost m' = Some 20000 \<and> mv_value_change m' = Some (- 20000) \<and> mv_inventory_value m' = Some 60000"
proof -
  obtain db' where run: "applyInventoryValuation 50 valuedDb = Inr ((), db')" by (rule valuedDb_run)
  have keys: "mv_tenant valuedExit = 1" "mv_product valuedExit = 7" "\<not> isValuedEntry valuedExit" "mv_quantity valuedExit = -1000"
    by (simp_all add: valuedExit_def blankMovement_def isValuedEntry_def)
  have w: "openingValuation 1 7 valuedDb = Some \<lparr>va_tenant = 1, va_product = 7, va_quantity = 4000, va_value = 80000, va_average = 20000, va_version = 1\<rparr>"
    by (simp add: openingValuation_def selectValuation_def valuedDb_simps)
  have meth: "policyMethod 1 valuedDb \<noteq> FIFO" by (simp add: policyMethod_def valuedDb_simps)
  have cost: "round_div (- 20000000) 1000 = - 20000" by (simp add: round_div_def)
  from applyInventoryValuation_moving_average [OF run valuedDb_movement] obtain w' m' where
    "selectValuation 1 7 db' = Some w'" "selectMovement 50 db' = Some m'" "va_quantity w' = 3000" "va_value w' = 60000" "va_average w' = 20000"
    "mv_unit_cost m' = Some 20000" "mv_value_change m' = Some (- 20000)" "mv_inventory_value m' = Some 60000"
    unfolding keys w using meth keys(3) by (auto simp: cost)
  with run show ?thesis by blast
qed

text \<open>The invariants of the valuation: one row per product, no negative quantity, value or
  average, no value without stock, no negative catalog cost, and the FIFO ledger; every valuation
  of a movement keeps them.\<close>

theorem applyInventoryValuation_invariant:
  "preserves (\<lambda>db. valuation_inv db \<and> fifo_inv db) (applyInventoryValuation mid)"
  by (rule preservesI) (use applyInventoryValuation_inv applyInventoryValuation_fifo_inv in blast)

text \<open>C21: Tenants that value by FIFO: the movement is sealed with the method FIFO, its value change is the
  sum of the values of its layer allocations, which add up to its quantity, its unit cost is that value
  by its quantity (rounded), and the inventory value is what the layers of the product are worth, whose
  quantities add up to the quantity of the valuation.\<close>

theorem applyInventoryValuation_fifo_sealed:
  assumes "applyInventoryValuation mid db = Inr (u, db')" "selectMovement mid db = Some m" "fresh_movement m db"
    "policyMethod (mv_tenant m) db = FIFO"
  shows "\<exists>m' w'. selectMovement mid db' = Some m' \<and> mv_method m' = Some FIFO \<and> movementQuantity m db' = mv_quantity m \<and>
    mv_value_change m' = Some (movementValue m db') \<and>
    mv_unit_cost m' = Some (if mv_quantity m = 0 then 0 else round_div (\<bar>movementValue m db'\<bar> * 1000) \<bar>mv_quantity m\<bar>) \<and>
    mv_inventory_value m' = Some (round_div (layerValue (mv_tenant m) (mv_product m) db') 1000) \<and>
    selectValuation (mv_tenant m) (mv_product m) db' = Some w' \<and>
    layerQuantity (mv_tenant m) (mv_product m) db' = va_quantity w'"
proof -
  obtain w' m' where E: "selectValuation (mv_tenant m) (mv_product m) db' = Some w'" "selectMovement mid db' = Some m'"
    "mv_method m' = Some (policyMethod (mv_tenant m) db)"
    "policyMethod (mv_tenant m) db = FIFO \<and> fresh_movement m db \<longrightarrow>
       mv_unit_cost m' = Some (if mv_quantity m = 0 then 0 else round_div (\<bar>movementValue m db'\<bar> * 1000) \<bar>mv_quantity m\<bar>) \<and>
       mv_value_change m' = Some (movementValue m db') \<and>
       mv_inventory_value m' = Some (round_div (layerValue (mv_tenant m) (mv_product m) db') 1000)"
    "fresh_movement m db \<longrightarrow> movementQuantity m db' = mv_quantity m \<and> layerQuantity (mv_tenant m) (mv_product m) db' = va_quantity w'"
    by (rule applyInventoryValuation_effect [OF assms(1,2)])
  show ?thesis
    by (rule exI [of _ m'], rule exI [of _ w']) (use E assms(3,4) in simp)
qed

text \<open>The exit again, for a FIFO tenant whose layer costs 3.0000: the average is 2.0000.\<close>

definition fifoTenantDb :: inv_db where
  "fifoTenantDb = valuedDb\<lparr>policies := [\<lparr>po_tenant = 1, po_method = FIFO, po_version = 2, po_effective_at = 0\<rparr>],
     layers := [sampleLayer\<lparr>fl_original := 4000, fl_remaining := 4000, fl_unit_cost := 30000\<rparr>]\<rparr>"

lemma fifoTenantDb_runs: "case applyInventoryValuation 50 fifoTenantDb of Inl _ \<Rightarrow> False
   | Inr (u, db') \<Rightarrow> movementValue valuedExit db' = - 30000 \<and> layerValue 1 7 db' = 90000000"
  by code_simp

theorem applyInventoryValuation_fifo_sealed_witness:
  "\<exists>db' m'. applyInventoryValuation 50 fifoTenantDb = Inr ((), db') \<and> selectMovement 50 db' = Some m' \<and> mv_method m' = Some FIFO \<and>
     mv_value_change m' = Some (- 30000) \<and> mv_unit_cost m' = Some 30000 \<and> mv_inventory_value m' = Some 90000"
proof -
  obtain db' where run: "applyInventoryValuation 50 fifoTenantDb = Inr ((), db')" and facts: "movementValue valuedExit db' = - 30000" "layerValue 1 7 db' = 90000000"
    using fifoTenantDb_runs by (auto simp del: One_nat_def split: sum.splits)
  have found: "selectMovement 50 fifoTenantDb = Some valuedExit" and new: "fresh_movement valuedExit fifoTenantDb"
    by (simp_all add: selectMovement_def fresh_movement_def fifoTenantDb_def valuedDb_simps)
  have keys: "mv_tenant valuedExit = 1" "mv_product valuedExit = 7" "mv_quantity valuedExit = -1000"
    by (simp_all add: valuedExit_def blankMovement_def)
  have meth: "policyMethod (mv_tenant valuedExit) fifoTenantDb = FIFO" by (simp add: policyMethod_def fifoTenantDb_def keys)
  have round: "round_div (\<bar>- 30000\<bar> * 1000) \<bar>- 1000\<bar> = 30000" "round_div 90000000 1000 = 90000" by (simp_all add: round_div_def)
  from applyInventoryValuation_fifo_sealed [OF run found new meth, unfolded keys facts round] obtain m' where
    "selectMovement 50 db' = Some m'" "mv_method m' = Some FIFO" "mv_value_change m' = Some (- 30000)" "mv_unit_cost m' = Some 30000"
    "mv_inventory_value m' = Some 90000" by auto
  with run show ?thesis by (intro exI conjI)
qed

text \<open>The reconciliation guard: while a tenant's guard is blocked, no movement of the tenant can
  be valued; the attempt fails with the id of the blocking run and the database stays as it is.\<close>

theorem applyInventoryValuation_blocked:
  assumes "selectMovement mid db = Some m" "List.find (\<lambda>g. gu_tenant g = mv_tenant m) (guards db) = Some g" "gu_blocked g"
  shows "commit (applyInventoryValuation mid) db = (Inl (InventoryReconciliationBlocked (gu_latest_run g)), db)"
  using assms by (intro commit_error) (simp add: applyInventoryValuation_def assertInventoryReconciliationOperational_def evalM)

theorem applyInventoryValuation_blocked_witness:
  "fst (commit (applyInventoryValuation 50) (valuedDb\<lparr>guards := [\<lparr>gu_tenant = 1, gu_latest_run = 77, gu_blocked = True\<rparr>]\<rparr>)) =
   Inl (InventoryReconciliationBlocked 77)"
  using applyInventoryValuation_blocked [of 50 "valuedDb\<lparr>guards := [\<lparr>gu_tenant = 1, gu_latest_run = 77, gu_blocked = True\<rparr>]\<rparr>" valuedExit
      "\<lparr>gu_tenant = 1, gu_latest_run = 77, gu_blocked = True\<rparr>"]
  by (simp add: valuedDb_simps selectMovement_def)

end
