(* ===== verification/LotTracking.thy ===== *)
theory LotTracking
  imports Valuation
begin

text \<open>
  Lot tracking, after \<open>src/inventory/inventory-lot-tracking.ts\<close>. A movement of a lot-tracked
  product is spread over lots: a receipt or an entry names its lot (creating it on first use), an
  exit consumes the named lot or, first expired first out, the lots that have not expired at the
  branch's local date; voids, returns and transfers give back what the source movement took. Each
  change writes the balance of the lot at the location and an allocation with its cost. The local
  date of a time zone comes from the environment (\<open>Intl.DateTimeFormat\<close>).
\<close>

section \<open>Codes and dates\<close>

definition currencyFor :: "string \<Rightarrow> string" where
  "currencyFor countryCode =
     (if countryCode = ''MX'' then ''MXN'' else if countryCode = ''CL'' then ''CLP'' else ''USD'')"

text \<open>\<open>replace(/\s+/g, ' ')\<close>\<close>

fun collapse_from :: "bool \<Rightarrow> string \<Rightarrow> string" where
  "collapse_from afterBlank [] = []"
| "collapse_from afterBlank (c # s) =
     (if is_blank c then (if afterBlank then collapse_from True s else CHR '' '' # collapse_from True s)
      else c # collapse_from False s)"

definition collapse_blanks :: "string \<Rightarrow> string" where
  "collapse_blanks s = collapse_from False s"

definition is_upper :: "char \<Rightarrow> bool" where
  "is_upper c \<longleftrightarrow> 65 \<le> (of_char c :: nat) \<and> (of_char c :: nat) \<le> 90"

definition is_lower :: "char \<Rightarrow> bool" where
  "is_lower c \<longleftrightarrow> 97 \<le> (of_char c :: nat) \<and> (of_char c :: nat) \<le> 122"

definition toUpperCase :: "string \<Rightarrow> string" where
  "toUpperCase s = map (\<lambda>c. if is_lower c then char_of (of_char c - (32::nat)) else c) s"

text \<open>\<open>/^[A-Za-z0-9][A-Za-z0-9._/ -]{0,63}$/\<close>\<close>

definition LOT_CODE_PATTERN :: "string \<Rightarrow> bool" where
  "LOT_CODE_PATTERN code =
     (case code of [] \<Rightarrow> False
      | c # s \<Rightarrow> (is_upper c \<or> is_lower c \<or> is_digit c) \<and> length s \<le> 63 \<and>
          list_all (\<lambda>d. is_upper d \<or> is_lower d \<or> is_digit d \<or> d \<in> set ''._/ -'') s)"

definition normalizeLotCode :: "string \<Rightarrow> inv_error + string" where
  "normalizeLotCode value =
     (let code = collapse_blanks (trim value)
      in if LOT_CODE_PATTERN code then Inr code else Inl InvalidInventoryLotCodeError)"

definition days_in_month :: "nat \<Rightarrow> nat \<Rightarrow> nat" where
  "days_in_month y m =
     (if m = 2 then (if y mod 4 = 0 \<and> (y mod 100 \<noteq> 0 \<or> y mod 400 = 0) then 29 else 28)
      else if m \<in> {4, 6, 9, 11} then 30 else 31)"

text \<open>The shape \<open>/^\d{4}-\d{2}-\d{2}$/\<close> and the round trip through \<open>Date\<close>, which only a
  date of the calendar survives.\<close>

definition calendarDate :: "string \<Rightarrow> bool" where
  "calendarDate value \<longleftrightarrow>
     length value = 10 \<and> value ! 4 = CHR ''-'' \<and> value ! 7 = CHR ''-'' \<and>
     list_all is_digit (take 4 value @ take 2 (drop 5 value) @ drop 8 value) \<and>
     (let y = nat_of_digits (take 4 value); m = nat_of_digits (take 2 (drop 5 value)); d = nat_of_digits (drop 8 value)
      in 1 \<le> m \<and> m \<le> 12 \<and> 1 \<le> d \<and> d \<le> days_in_month y m)"

definition normalizedDate :: "string option \<Rightarrow> inv_error + string option" where
  "normalizedDate value =
     (case value of
        None \<Rightarrow> Inr None
      | Some v \<Rightarrow> if v = [] then Inr None
                  else if calendarDate v then Inr (Some v) else Inl InvalidInventoryLotDatesError)"

section \<open>Balances and allocations\<close>

record lot_cost_source =
  cs_unit_cost :: int
  cs_currency :: string
  cs_revalue :: bool

definition selectLot :: "id \<Rightarrow> id \<Rightarrow> inv_db \<Rightarrow> lot_row option" where
  "selectLot t i db = List.find (\<lambda>l. lt_id l = i \<and> lt_tenant l = t) (lots db)"

definition ensureLotBalance :: "id \<Rightarrow> id \<Rightarrow> id \<Rightarrow> unit act" where
  "ensureLotBalance t lotId loc =
     writeM (\<lambda>db. if (t, lotId, loc) \<in> (\<lambda>b. (lb_tenant b, lb_lot b, lb_location b)) ` set (lot_balances db) then db
       else db\<lparr>lot_balances := lot_balances db @ [\<lparr>lb_tenant = t, lb_lot = lotId, lb_location = loc, lb_quantity = 0\<rparr>]\<rparr>)"

definition setLotBalance :: "id \<Rightarrow> id \<Rightarrow> id \<Rightarrow> int \<Rightarrow> unit act" where
  "setLotBalance t lotId loc q =
     writeM (\<lambda>db. db\<lparr>lot_balances := update_where (\<lambda>b. (lb_tenant b, lb_lot b, lb_location b) = (t, lotId, loc))
       (\<lambda>b. b\<lparr>lb_quantity := q\<rparr>) (lot_balances db)\<rparr>)"

text \<open>Unique \<open>(tenant_id, movement_id, lot_id)\<close>, \<open>quantity_change <> 0\<close>, \<open>unit_cost >= 0\<close>.\<close>

definition insertMovementLot :: "movement_row \<Rightarrow> id \<Rightarrow> int \<Rightarrow> int \<Rightarrow> string \<Rightarrow> lot_mode \<Rightarrow> unit act" where
  "insertMovementLot movement lotId q cost currency mode =
     bindM newRow (\<lambda>(i, now).
     bindM (readM movement_lots) (\<lambda>rows.
     thenM (ensureM DuplicateEntry (\<forall>a\<in>set rows. \<not> (ml_tenant a = mv_tenant movement \<and>
              ml_movement a = mv_id movement \<and> ml_lot a = lotId)))
     (thenM (ensureM CheckViolated (q \<noteq> 0 \<and> 0 \<le> cost))
       (writeM (\<lambda>db. db\<lparr>movement_lots := movement_lots db @
         [\<lparr>ml_id = i, ml_tenant = mv_tenant movement, ml_movement = mv_id movement, ml_lot = lotId,
           ml_location = mv_location movement, ml_quantity = q, ml_unit_cost = cost, ml_currency = currency,
           ml_value = quantityValue q cost, ml_mode = mode, ml_created_at = now\<rparr>]\<rparr>)))))"

definition revalueLot :: "id \<Rightarrow> id \<Rightarrow> int \<Rightarrow> int \<Rightarrow> int \<Rightarrow> int \<Rightarrow> unit act" where
  "revalueLot t lotId currentTotal currentCost quantityChange allocationCost =
     bindM (liftE (divideRounded ''INVALID_LOT_COST_DIVISOR''
              (currentTotal * currentCost + quantityChange * allocationCost) (currentTotal + quantityChange))) (\<lambda>newCost.
     thenM (ensureM (Failure ''NEGATIVE_INVENTORY_LOT_COST'') (0 \<le> newCost))
       (writeM (\<lambda>db. db\<lparr>lots := update_where (\<lambda>l. lt_id l = lotId \<and> lt_tenant l = t)
         (\<lambda>l. l\<lparr>lt_unit_cost := newCost\<rparr>) (lots db)\<rparr>)))"

definition changeLotBalance ::
  "movement_row \<Rightarrow> id \<Rightarrow> int \<Rightarrow> lot_mode \<Rightarrow> lot_cost_source option \<Rightarrow> unit act" where
  "changeLotBalance movement lotId quantityChange mode costSource =
     (let t = mv_tenant movement; loc = mv_location movement in
      bindM (readM (selectLot t lotId)) (\<lambda>found.
      bindM (requireM InventoryLotNotFoundError found) (\<lambda>lot.
      thenM (ensureM InventoryLotCurrencyMismatchError
               (case costSource of None \<Rightarrow> True | Some src \<Rightarrow> cs_currency src = lt_currency lot))
      (thenM (ensureLotBalance t lotId loc)
      (bindM (readM (\<lambda>db. sum_where (\<lambda>b. (lb_tenant b, lb_lot b, lb_location b) = (t, lotId, loc)) lb_quantity (lot_balances db))) (\<lambda>balance.
      bindM (readM (\<lambda>db. sum_where (\<lambda>b. lb_tenant b = t \<and> lb_lot b = lotId) lb_quantity (lot_balances db))) (\<lambda>currentTotal.
      let resulting = balance + quantityChange;
          allocationCost = (case costSource of None \<Rightarrow> lt_unit_cost lot | Some src \<Rightarrow> cs_unit_cost src)
      in thenM (ensureM InsufficientInventoryLotStockError (0 \<le> resulting))
         (thenM (whenM ((case costSource of None \<Rightarrow> False | Some src \<Rightarrow> cs_revalue src) \<and> 0 < currentTotal + quantityChange)
                   (revalueLot t lotId currentTotal (lt_unit_cost lot) quantityChange allocationCost))
         (thenM (setLotBalance t lotId loc resulting)
           (insertMovementLot movement lotId quantityChange allocationCost
              (case costSource of None \<Rightarrow> lt_currency lot | Some src \<Rightarrow> cs_currency src) mode))))))))))"

section \<open>Finding and creating lots\<close>

text \<open>The first lot of the product: \<open>ORDER BY created_at, id LIMIT 1\<close>.\<close>

definition productLotCurrency :: "id \<Rightarrow> id \<Rightarrow> inv_db \<Rightarrow> string option" where
  "productLotCurrency t p db =
     (case sort_key (\<lambda>l. (lt_created_at l, lt_id l)) (filter (\<lambda>l. lt_tenant l = t \<and> lt_product l = p) (lots db)) of
        [] \<Rightarrow> None | l # _ \<Rightarrow> Some (lt_currency l))"

definition insertLot :: "movement_row \<Rightarrow> string \<Rightarrow> string \<Rightarrow> string option \<Rightarrow> string option \<Rightarrow> int \<Rightarrow> string \<Rightarrow> id act" where
  "insertLot movement code normalizedCode manufactured expires unitCost currency =
     bindM newRow (\<lambda>(i, now).
     thenM (ensureM CheckViolated (0 \<le> unitCost))
     (thenM (writeM (\<lambda>db. db\<lparr>lots := lots db @ [\<lparr>lt_id = i, lt_tenant = mv_tenant movement,
         lt_product = mv_product movement, lt_code = code, lt_normalized = normalizedCode,
         lt_manufactured = manufactured, lt_expires = expires, lt_unit_cost = unitCost, lt_currency = currency,
         lt_user = mv_user movement, lt_created_at = now\<rparr>]\<rparr>))
       (returnM i)))"

definition lotDates :: "lot_expiration_policy \<Rightarrow> string option \<Rightarrow> string option \<Rightarrow> inv_error + unit" where
  "lotDates policy manufactured expires =
     (if policy = LotRequired \<and> expires = None then Inl InventoryLotExpirationRequiredError
      else if policy = LotNone \<and> (manufactured \<noteq> None \<or> expires \<noteq> None) then Inl InvalidInventoryLotDatesError
      else Inr ())"

definition findOrCreateLot ::
  "movement_row \<Rightarrow> string \<Rightarrow> int \<Rightarrow> string \<Rightarrow> string option \<Rightarrow> string option \<Rightarrow> id act" where
  "findOrCreateLot movement rawCode unitCost currency manufacturedOn expiresOn =
     bindM (liftE (normalizeLotCode rawCode)) (\<lambda>code.
     let normalizedCode = toUpperCase code in
     bindM (liftE (normalizedDate manufacturedOn)) (\<lambda>manufactured.
     bindM (liftE (normalizedDate expiresOn)) (\<lambda>expires.
     thenM (ensureM InvalidInventoryLotDatesError
              (case (manufactured, expires) of (Some mf, Some ex) \<Rightarrow> \<not> ex < mf | _ \<Rightarrow> True))
     (bindM (readM (selectProduct (mv_tenant movement) (mv_product movement))) (\<lambda>found.
     bindM (requireM InventoryLotNotFoundError found) (\<lambda>product.
     bindM (liftE (lotDates (pr_lot_policy product) manufactured expires)) (\<lambda>_.
     bindM (readM (productLotCurrency (mv_tenant movement) (mv_product movement))) (\<lambda>productCurrency.
     thenM (ensureM InventoryLotCurrencyMismatchError
              (case productCurrency of None \<Rightarrow> True | Some cur \<Rightarrow> cur = currency))
     (bindM (readM (\<lambda>db. List.find (\<lambda>l. lt_tenant l = mv_tenant movement \<and> lt_product l = mv_product movement \<and>
                 lt_normalized l = normalizedCode) (lots db))) (\<lambda>existing.
      case existing of
        Some l \<Rightarrow>
          thenM (ensureM InventoryLotCurrencyMismatchError (lt_currency l = currency))
          (thenM (ensureM InvalidInventoryLotDatesError (lt_manufactured l = manufactured \<and> lt_expires l = expires))
            (returnM (lt_id l)))
      | None \<Rightarrow> insertLot movement code normalizedCode manufactured expires unitCost currency))))))))))"

section \<open>Restoring what a source movement took\<close>

text \<open>The allocations of the source movements:
  \<open>ORDER BY im.created_at, im.id, iml.created_at, iml.id\<close>.\<close>

definition sourceLots :: "(movement_row \<Rightarrow> bool) \<Rightarrow> inv_db \<Rightarrow> movement_lot list" where
  "sourceLots sel db =
     map snd (sort_key (\<lambda>(m, a). (mv_created_at m, mv_id m, ml_created_at a, ml_id a))
       (concat (map (\<lambda>a. map (\<lambda>m. (m, a))
          (filter (\<lambda>m. mv_id m = ml_movement a \<and> mv_tenant m = ml_tenant a \<and> sel m) (movements db)))
        (movement_lots db))))"

text \<open>What earlier returns of the same source movement have given back to a lot.\<close>

definition alreadyReturned :: "movement_row \<Rightarrow> movement_lot \<Rightarrow> inv_db \<Rightarrow> int" where
  "alreadyReturned movement allocation db =
     sum_where (\<lambda>a. ml_lot a = ml_lot allocation \<and>
       (\<exists>m\<in>set (movements db). mv_id m = ml_movement a \<and> mv_tenant m = ml_tenant a \<and> mv_tenant m = mv_tenant movement \<and>
          mv_type m = SALE_RETURN \<and> mv_source_movement m = Some (ml_movement allocation))) ml_quantity (movement_lots db)"

fun restoreLots :: "movement_row \<Rightarrow> bool \<Rightarrow> lot_mode \<Rightarrow> movement_lot list \<Rightarrow> int \<Rightarrow> int act" where
  "restoreLots movement partial mode [] remaining = returnM remaining"
| "restoreLots movement partial mode (allocation # rest) remaining =
     (if remaining = 0 then returnM remaining
      else bindM (readM (\<lambda>db. if partial then alreadyReturned movement allocation db else 0)) (\<lambda>alreadyRestored.
        let available = - ml_quantity allocation - alreadyRestored;
            quantity = (if available < remaining then available else remaining)
        in if quantity \<le> 0 then restoreLots movement partial mode rest remaining
           else thenM (changeLotBalance movement (ml_lot allocation) quantity mode
                  (Some \<lparr>cs_unit_cost = ml_unit_cost allocation, cs_currency = ml_currency allocation, cs_revalue = True\<rparr>))
                (restoreLots movement partial mode rest (remaining - quantity))))"

definition restoreAllocations :: "movement_row \<Rightarrow> movement_type \<Rightarrow> lot_mode \<Rightarrow> unit act" where
  "restoreAllocations movement sourceType mode =
     (let isPartialSaleReturn = (sourceType = SALE \<and> mv_type movement = SALE_RETURN);
          sel = (\<lambda>m. mv_tenant m = mv_tenant movement \<and> mv_type m = sourceType \<and>
                   (if isPartialSaleReturn then mv_source_movement movement = Some (mv_id m)
                    else if sourceType = SALE
                    then mv_sale movement \<noteq> None \<and> mv_sale m = mv_sale movement \<and>
                         mv_sale_line movement \<noteq> None \<and> mv_sale_line m = mv_sale_line movement \<and>
                         mv_location m = mv_location movement
                    else mv_transfer_line movement \<noteq> None \<and> mv_transfer_line m = mv_transfer_line movement))
      in bindM (readM (sourceLots sel)) (\<lambda>allocations.
         thenM (ensureM (Failure ''INVENTORY_LOT_SOURCE_NOT_FOUND'') (allocations \<noteq> []))
         (bindM (restoreLots movement isPartialSaleReturn mode allocations (mv_quantity movement)) (\<lambda>remaining.
          ensureM (Failure ''INVENTORY_LOT_RESTORE_MISMATCH'') (remaining = 0)))))"

section \<open>Consuming lots\<close>

text \<open>The balances of the product's lots at the location, joined with the lots.\<close>

definition lotRows :: "movement_row \<Rightarrow> (lot_row \<Rightarrow> bool) \<Rightarrow> inv_db \<Rightarrow> (lot_balance \<times> lot_row) list" where
  "lotRows movement sel db =
     concat (map (\<lambda>b. map (\<lambda>l. (b, l))
         (filter (\<lambda>l. lt_id l = lb_lot b \<and> lt_tenant l = lb_tenant b \<and> lt_product l = mv_product movement \<and> sel l) (lots db)))
       (filter (\<lambda>b. lb_tenant b = mv_tenant movement \<and> lb_location b = mv_location movement) (lot_balances db)))"

text \<open>\<open>ORDER BY il.expires_on IS NULL, il.expires_on, il.created_at, il.id\<close>\<close>

definition expiryKey :: "lot_row \<Rightarrow> bool \<times> string \<times> nat \<times> id" where
  "expiryKey l = (lt_expires l = None, (case lt_expires l of None \<Rightarrow> [] | Some d \<Rightarrow> d), lt_created_at l, lt_id l)"

definition automaticLots :: "movement_row \<Rightarrow> string \<Rightarrow> inv_db \<Rightarrow> (lot_balance \<times> lot_row) list" where
  "automaticLots movement today db =
     sort_key (\<lambda>(b, l). expiryKey l)
       (filter (\<lambda>(b, l). 0 < lb_quantity b)
         (lotRows movement (\<lambda>l. case lt_expires l of None \<Rightarrow> True | Some d \<Rightarrow> today \<le> d) db))"

definition consumeLot :: "movement_row \<Rightarrow> lot_mode \<Rightarrow> lot_cost_source option \<Rightarrow> lot_balance \<times> lot_row \<Rightarrow> int \<Rightarrow> int act" where
  "consumeLot movement mode costSource row consumed =
     thenM (changeLotBalance movement (lb_lot (fst row)) (- consumed) mode costSource) (returnM 0)"

definition lotsToConsume ::
  "movement_row \<Rightarrow> string \<Rightarrow> id option \<Rightarrow> string option \<Rightarrow> bool \<Rightarrow> ((lot_balance \<times> lot_row) list \<times> lot_mode) act" where
  "lotsToConsume movement timezone preferredLotId preferredLotCode allowExpired =
     bindM (readM (\<lambda>db. env_local_date db timezone (ticks db))) (\<lambda>today.
      case (preferredLotId, preferredLotCode) of
        (None, None) \<Rightarrow> bindM (readM (automaticLots movement today)) (\<lambda>balances. returnM (balances, LotAutomatic))
      | _ \<Rightarrow>
        bindM (liftE (case (preferredLotId, preferredLotCode) of
                 (Some i, _) \<Rightarrow> Inr (\<lambda>l. lt_id l = i)
               | (None, Some code) \<Rightarrow> bindE (normalizeLotCode code) (\<lambda>c. Inr (\<lambda>l. lt_normalized l = toUpperCase c))
               | (None, None) \<Rightarrow> Inr (\<lambda>l. False))) (\<lambda>sel.
        bindM (readM (lotRows movement sel)) (\<lambda>balances.
        bindM (requireM InventoryLotNotFoundError (case balances of [] \<Rightarrow> None | r # _ \<Rightarrow> Some (snd r))) (\<lambda>lot.
        thenM (ensureM ExpiredInventoryLotError
                 (case lt_expires lot of None \<Rightarrow> True | Some expiry \<Rightarrow> \<not> expiry < today \<or> allowExpired))
          (returnM (balances, LotManual))))))"

definition consumeLots ::
  "movement_row \<Rightarrow> string \<Rightarrow> int \<Rightarrow> id option \<Rightarrow> string option \<Rightarrow> lot_cost_source option \<Rightarrow> bool \<Rightarrow> unit act" where
  "consumeLots movement timezone quantity preferredLotId preferredLotCode costSource allowExpired =
     bindM (lotsToConsume movement timezone preferredLotId preferredLotCode allowExpired) (\<lambda>(balances, mode).
     bindM (consume_loop (\<lambda>r. lb_quantity (fst r)) (consumeLot movement mode costSource) balances quantity 0) (\<lambda>(remaining, _).
      ensureM InsufficientInventoryLotStockError (remaining = 0)))"

section \<open>Applying a movement\<close>

record lot_options =
  lo_code :: "string option"
  lo_preferred :: "id option"
  lo_manufactured :: "string option"
  lo_expires :: "string option"
  lo_allow_expired :: bool

definition noLotOptions :: lot_options where
  "noLotOptions = \<lparr>lo_code = None, lo_preferred = None, lo_manufactured = None, lo_expires = None, lo_allow_expired = False\<rparr>"

text \<open>The movement joined with its product, its tenant's country and its branch's time zone.\<close>

definition lotMovement :: "id \<Rightarrow> inv_db \<Rightarrow> (movement_row \<times> product_row \<times> string \<times> string) option" where
  "lotMovement movementId db =
     Option.bind (selectMovement movementId db) (\<lambda>m.
     Option.bind (selectProduct (mv_tenant m) (mv_product m) db) (\<lambda>p.
     Option.bind (List.find (\<lambda>t. tn_id t = mv_tenant m) (tenants db)) (\<lambda>t.
     Option.bind (List.find (\<lambda>l. lo_id l = mv_location m \<and> lo_tenant l = mv_tenant m) (locations db)) (\<lambda>l.
     Option.bind (List.find (\<lambda>w. wh_id w = lo_warehouse l \<and> wh_tenant w = lo_tenant l) (warehouses db)) (\<lambda>w.
     map_option (\<lambda>b. (m, p, tn_country t, br_timezone b))
       (List.find (\<lambda>b. br_id b = wh_branch w \<and> br_tenant b = wh_tenant w) (branches db)))))))"

definition receiveLot :: "movement_row \<Rightarrow> unit act" where
  "receiveLot movement =
     bindM (readM (\<lambda>db. Option.bind (selectReceiptLine (mv_tenant movement) (mv_receipt_line movement) db) (\<lambda>line.
              Option.bind (receiptLineCurrency line db) (\<lambda>cur.
              map_option (\<lambda>code. (line, cur, code)) (case rl_lot_code line of Some [] \<Rightarrow> None | c \<Rightarrow> c))))) (\<lambda>found.
     bindM (requireM InventoryLotRequiredError found) (\<lambda>(line, currency, code).
     bindM (findOrCreateLot movement code (rl_unit_cost line) currency (rl_manufactured line) (rl_expires line)) (\<lambda>lotId.
     thenM (writeM (\<lambda>db. db\<lparr>receipt_lines := update_where (\<lambda>r. Some (rl_id r) = mv_receipt_line movement \<and> rl_tenant r = mv_tenant movement)
              (\<lambda>r. r\<lparr>rl_lot := Some lotId\<rparr>) (receipt_lines db)\<rparr>))
     (bindM (readM lot_origins) (\<lambda>rows.
      thenM (ensureM DuplicateEntry (\<forall>g\<in>set rows. \<not> (lg_tenant g = mv_tenant movement \<and> lg_lot g = lotId \<and> lg_receipt_line g = rl_id line)))
      (thenM (ensureM CheckViolated (0 < mv_quantity movement \<and> 0 \<le> rl_unit_cost line))
      (thenM (writeM (\<lambda>db. db\<lparr>lot_origins := lot_origins db @ [\<lparr>lg_tenant = mv_tenant movement, lg_lot = lotId,
                lg_receipt_line = rl_id line, lg_quantity = mv_quantity movement, lg_unit_cost = rl_unit_cost line,
                lg_currency = currency\<rparr>]\<rparr>))
        (changeLotBalance movement lotId (mv_quantity movement) LotOrigin
           (Some \<lparr>cs_unit_cost = rl_unit_cost line, cs_currency = currency, cs_revalue = True\<rparr>)))))))))"

definition enterLot :: "movement_row \<Rightarrow> string \<Rightarrow> lot_options \<Rightarrow> unit act" where
  "enterLot movement country options =
     bindM (requireM InventoryLotRequiredError (case lo_code options of Some [] \<Rightarrow> None | c \<Rightarrow> c)) (\<lambda>code.
     bindM (requireM (Failure ''INVENTORY_LOT_COST_NOT_FOUND'') (mv_unit_cost movement)) (\<lambda>unitCost.
     let currency = currencyFor country in
     bindM (findOrCreateLot movement code unitCost currency (lo_manufactured options) (lo_expires options)) (\<lambda>lotId.
      changeLotBalance movement lotId (mv_quantity movement) LotManual
        (Some \<lparr>cs_unit_cost = unitCost, cs_currency = currency, cs_revalue = True\<rparr>))))"

text \<open>The lot and the cost that a return to the supplier takes out: those of its receipt line.\<close>

definition supplierReturnSource :: "movement_row \<Rightarrow> (id \<times> lot_cost_source) act" where
  "supplierReturnSource movement =
     bindM (readM (\<lambda>db. Option.bind (List.find (\<lambda>r. Some (tl_id r) = mv_return_line movement \<and> tl_tenant r = mv_tenant movement) (return_lines db)) (\<lambda>ret.
              Option.bind (selectReceiptLine (tl_tenant ret) (Some (tl_receipt_line ret)) db) (\<lambda>line.
              Option.bind (receiptLineCurrency line db) (\<lambda>cur.
              map_option (\<lambda>lot. (lot, \<lparr>cs_unit_cost = rl_unit_cost line, cs_currency = cur, cs_revalue = False\<rparr>)) (rl_lot line)))))) (\<lambda>found.
     bindM (requireM (Failure ''INVENTORY_LOT_SOURCE_NOT_FOUND'') found) (\<lambda>(lot, src).
     thenM (writeM (\<lambda>db. db\<lparr>return_lines := update_where (\<lambda>r. Some (tl_id r) = mv_return_line movement \<and> tl_tenant r = mv_tenant movement)
              (\<lambda>r. r\<lparr>tl_lot := Some lot\<rparr>) (return_lines db)\<rparr>))
       (returnM (lot, src))))"

definition exitLots :: "movement_row \<Rightarrow> string \<Rightarrow> lot_options \<Rightarrow> unit act" where
  "exitLots movement timezone options =
     bindM (if mv_type movement = SUPPLIER_RETURN
            then bindM (supplierReturnSource movement) (\<lambda>(lot, src). returnM (Some lot, Some src))
            else returnM (lo_preferred options, None)) (\<lambda>(preferredLotId, costSource).
      consumeLots movement timezone (- mv_quantity movement) preferredLotId
        (case lo_code options of Some [] \<Rightarrow> None | c \<Rightarrow> c) costSource
        (lo_allow_expired options \<or> mv_type movement = SUPPLIER_RETURN))"

definition allocateLots :: "movement_row \<Rightarrow> string \<Rightarrow> string \<Rightarrow> lot_options \<Rightarrow> unit act" where
  "allocateLots movement country timezone options =
     (if mv_type movement = PURCHASE_RECEIPT then receiveLot movement
      else if mv_type movement = SALE_VOID \<or> mv_type movement = SALE_RETURN then restoreAllocations movement SALE LotRestore
      else if mv_type movement = TRANSFER_IN then restoreAllocations movement TRANSFER_OUT LotTransfer
      else if 0 < mv_quantity movement then enterLot movement country options
      else exitLots movement timezone options)"

definition applyInventoryLotTracking :: "id \<Rightarrow> lot_options \<Rightarrow> unit act" where
  "applyInventoryLotTracking movementId options =
     bindM (readM (lotMovement movementId)) (\<lambda>found.
     case found of
       None \<Rightarrow> returnM ()
     | Some (movement, product, country, timezone) \<Rightarrow>
         bindM (readM (\<lambda>db. length (filter (\<lambda>a. ml_tenant a = mv_tenant movement \<and> ml_movement a = mv_id movement) (movement_lots db)))) (\<lambda>existing.
         thenM (whenM (pr_track_lots product \<and> existing = 0 \<and> mv_quantity movement \<noteq> 0)
                  (allocateLots movement country timezone options))
           (finalizeSpecificLotMovementValuation movementId)))"

end
