(* ===== verification/LotLaws.thy ===== *)
theory LotLaws
  imports LotTracking
begin

text \<open>
  The laws of lot tracking (operations in theory \<open>LotTracking\<close>): the ledger invariant that ties
  the balances of the lots to their allocations, its preservation, what a change of one balance
  does, and the order in which lots are consumed (an instance of theory \<open>Consumption\<close>).
\<close>

section \<open>The ledger\<close>

abbreviation lot_key :: "lot_balance \<Rightarrow> id \<times> id \<times> id" where
  "lot_key b \<equiv> (lb_tenant b, lb_lot b, lb_location b)"

definition lotBalanceOf :: "id \<times> id \<times> id \<Rightarrow> inv_db \<Rightarrow> int" where
  "lotBalanceOf k db = sum_where (\<lambda>b. lot_key b = k) lb_quantity (lot_balances db)"

definition lotLedger :: "id \<times> id \<times> id \<Rightarrow> inv_db \<Rightarrow> int" where
  "lotLedger k db = sum_where (\<lambda>a. (ml_tenant a, ml_lot a, ml_location a) = k) ml_quantity (movement_lots db)"

definition lot_inv :: "inv_db \<Rightarrow> bool" where
  "lot_inv db \<longleftrightarrow>
     inj (env_uuid db) \<and> lt_id ` set (lots db) \<subseteq> issued db \<and> distinct (map lt_id (lots db)) \<and>
     distinct (map lot_key (lot_balances db)) \<and>
     (\<forall>b\<in>set (lot_balances db). 0 \<le> lb_quantity b) \<and>
     (\<forall>l\<in>set (lots db). 0 \<le> lt_unit_cost l) \<and>
     (\<forall>k. lotBalanceOf k db = lotLedger k db)"

lemma lot_invD:
  assumes "lot_inv db"
  shows "distinct (map lot_key (lot_balances db))" "b \<in> set (lot_balances db) \<Longrightarrow> 0 \<le> lb_quantity b"
    "l \<in> set (lots db) \<Longrightarrow> 0 \<le> lt_unit_cost l" "lotBalanceOf k db = lotLedger k db"
    "inj (env_uuid db)" "lt_id ` set (lots db) \<subseteq> issued db" "distinct (map lt_id (lots db))"
  using assms unfolding lot_inv_def by blast+

definition movementLotQuantity :: "movement_row \<Rightarrow> inv_db \<Rightarrow> int" where
  "movementLotQuantity movement db =
     sum_where (\<lambda>a. ml_tenant a = mv_tenant movement \<and> ml_movement a = mv_id movement) ml_quantity (movement_lots db)"

lemma sum_where_key:
  "distinct (map key rows) \<Longrightarrow> r \<in> set rows \<Longrightarrow> sum_where (\<lambda>b. key b = key r) f rows = f r"
proof (induction rows)
  case (Cons a rows)
  show ?case
  proof (cases "a = r")
    case True
    then have "sum_where (\<lambda>b. key b = key r) f rows = 0"
      by (intro sum_where_none) (use Cons.prems(1) in \<open>auto simp: image_iff\<close>)
    with True show ?thesis by simp
  next
    case False
    then have r: "r \<in> set rows" using Cons.prems(2) by simp
    then have "key a \<noteq> key r" using Cons.prems(1) by (auto simp: image_iff)
    with Cons r show ?thesis by simp
  qed
qed simp

lemma lotBalanceOf_row: "lot_inv db \<Longrightarrow> b \<in> set (lot_balances db) \<Longrightarrow> lotBalanceOf (lot_key b) db = lb_quantity b"
  unfolding lotBalanceOf_def by (rule sum_where_key [OF lot_invD(1)])

section \<open>One change of a balance\<close>

definition withLotBalance :: "id \<times> id \<times> id \<Rightarrow> lot_balance list \<Rightarrow> lot_balance list" where
  "withLotBalance k bs = (if k \<in> lot_key ` set bs then bs
     else bs @ [\<lparr>lb_tenant = fst k, lb_lot = fst (snd k), lb_location = snd (snd k), lb_quantity = 0\<rparr>])"

definition lotWrite :: "id \<times> id \<times> id \<Rightarrow> int \<Rightarrow> lot_balance list \<Rightarrow> lot_balance list" where
  "lotWrite k q bs = update_where (\<lambda>b. lot_key b = k) (\<lambda>b. b\<lparr>lb_quantity := q\<rparr>) (withLotBalance k bs)"

definition movement_lot_of :: "movement_row \<Rightarrow> id \<Rightarrow> int \<Rightarrow> int \<Rightarrow> string \<Rightarrow> lot_mode \<Rightarrow> inv_db \<Rightarrow> movement_lot" where
  "movement_lot_of movement L q cost cur mode db =
     \<lparr>ml_id = env_uuid db (ticks db), ml_tenant = mv_tenant movement, ml_movement = mv_id movement, ml_lot = L,
      ml_location = mv_location movement, ml_quantity = q, ml_unit_cost = cost, ml_currency = cur,
      ml_value = quantityValue q cost, ml_mode = mode, ml_created_at = env_clock db (ticks db)\<rparr>"

lemma insertMovementLot_Inr:
  "insertMovementLot movement L q cost cur mode db = Inr (u, db') \<longleftrightarrow>
     (\<forall>a\<in>set (movement_lots db). \<not> (ml_tenant a = mv_tenant movement \<and> ml_movement a = mv_id movement \<and> ml_lot a = L)) \<and>
     q \<noteq> 0 \<and> 0 \<le> cost \<and>
     db' = db\<lparr>ticks := Suc (ticks db), movement_lots := movement_lots db @ [movement_lot_of movement L q cost cur mode db]\<rparr>"
  by (auto simp: insertMovementLot_def runM movement_lot_of_def)

lemma revalueLot_Inr:
  assumes "revalueLot t L T c q a db = Inr (u, db')"
  obtains n where "0 \<le> n" "db' = db\<lparr>lots := update_where (\<lambda>l. lt_id l = L \<and> lt_tenant l = t) (\<lambda>l. l\<lparr>lt_unit_cost := n\<rparr>) (lots db)\<rparr>"
  using assms by (auto simp: revalueLot_def runM)

lemma changeLotBalance_Inr:
  assumes "changeLotBalance movement L q mode costSource db = Inr (u, db')"
  obtains cost cur ls lot where
    "selectLot (mv_tenant movement) L db = Some lot"
    "0 \<le> lotBalanceOf (mv_tenant movement, L, mv_location movement) db + q" "q \<noteq> 0" "0 \<le> cost"
    "ls = lots db \<or> (\<exists>n\<ge>0. ls = update_where (\<lambda>l. lt_id l = L \<and> lt_tenant l = mv_tenant movement) (\<lambda>l. l\<lparr>lt_unit_cost := n\<rparr>) (lots db))"
    "db' = db\<lparr>lots := ls, lot_balances := lotWrite (mv_tenant movement, L, mv_location movement)
         (lotBalanceOf (mv_tenant movement, L, mv_location movement) db + q) (lot_balances db),
       ticks := Suc (ticks db), movement_lots := movement_lots db @ [movement_lot_of movement L q cost cur mode db]\<rparr>"
proof -
  let ?t = "mv_tenant movement" and ?loc = "mv_location movement"
  define db1 where "db1 = db\<lparr>lot_balances := withLotBalance (?t, L, ?loc) (lot_balances db)\<rparr>"
  define cost where "cost = (\<lambda>lot :: lot_row. case costSource of None \<Rightarrow> lt_unit_cost lot | Some src \<Rightarrow> cs_unit_cost src)"
  define cur where "cur = (\<lambda>lot :: lot_row. case costSource of None \<Rightarrow> lt_currency lot | Some src \<Rightarrow> cs_currency src)"
  have ensure: "ensureLotBalance ?t L ?loc db = Inr ((), db1)"
    by (auto simp: ensureLotBalance_def db1_def withLotBalance_def)
  have bal: "sum_where (\<lambda>b. lot_key b = (?t, L, ?loc)) lb_quantity (lot_balances db1) = lotBalanceOf (?t, L, ?loc) db"
    by (simp add: db1_def withLotBalance_def lotBalanceOf_def)
  have ens: "ensureLotBalance ?t L ?loc db = Inr (x, s) \<longleftrightarrow> s = db1" for x s
    using ensure by auto
  have bal2: "sum_where (\<lambda>b. lb_tenant b = ?t \<and> lb_lot b = L \<and> lb_location b = ?loc) lb_quantity (lot_balances db1) =
    lotBalanceOf (?t, L, ?loc) db"
    using bal by simp
  define T where "T = sum_where (\<lambda>b. lb_tenant b = ?t \<and> lb_lot b = L) lb_quantity (lot_balances db1)"
  have "\<exists>lot db2 db3. selectLot ?t L db = Some lot \<and> 0 \<le> lotBalanceOf (?t, L, ?loc) db + q \<and>
      whenM ((case costSource of None \<Rightarrow> False | Some src \<Rightarrow> cs_revalue src) \<and> 0 < T + q)
                   (revalueLot ?t L T (lt_unit_cost lot) q (cost lot)) db1 = Inr ((), db2) \<and>
      setLotBalance ?t L ?loc (lotBalanceOf (?t, L, ?loc) db + q) db2 = Inr ((), db3) \<and>
      insertMovementLot movement L q (cost lot) (cur lot) mode db3 = Inr (u, db')"
    using assms unfolding changeLotBalance_def Let_def bindM_Inr thenM_Inr readM_Inr requireM_Inr ensureM_Inr cost_def cur_def T_def
    by (auto simp: ens bal2)
  then obtain lot db2 db3 where lot: "selectLot ?t L db = Some lot" and pos: "0 \<le> lotBalanceOf (?t, L, ?loc) db + q"
    and reval: "whenM ((case costSource of None \<Rightarrow> False | Some src \<Rightarrow> cs_revalue src) \<and> 0 < T + q)
                   (revalueLot ?t L T (lt_unit_cost lot) q (cost lot)) db1 = Inr ((), db2)"
    and rest: "setLotBalance ?t L ?loc (lotBalanceOf (?t, L, ?loc) db + q) db2 = Inr ((), db3)"
      "insertMovementLot movement L q (cost lot) (cur lot) mode db3 = Inr (u, db')"
    by blast
  obtain ls where ls: "db2 = db1\<lparr>lots := ls\<rparr>"
    "ls = lots db \<or> (\<exists>n\<ge>0. ls = update_where (\<lambda>l. lt_id l = L \<and> lt_tenant l = ?t) (\<lambda>l. l\<lparr>lt_unit_cost := n\<rparr>) (lots db))"
  proof (cases "(case costSource of None \<Rightarrow> False | Some src \<Rightarrow> cs_revalue src) \<and> 0 < T + q")
    case True
    with reval have "revalueLot ?t L T (lt_unit_cost lot) q (cost lot) db1 = Inr ((), db2)" by (simp add: whenM_def)
    then show ?thesis by (rule revalueLot_Inr) (auto intro!: that simp: db1_def)
  next
    case False
    with reval have "db2 = db1\<lparr>lots := lots db\<rparr>" by (simp add: whenM_def db1_def)
    then show ?thesis using that by blast
  qed
  show ?thesis
  proof (rule that [OF lot pos _ _ ls(2)])
    show "q \<noteq> 0" "0 \<le> cost lot"
      using rest by (auto simp: insertMovementLot_Inr)
    show "db' = db\<lparr>lots := ls, lot_balances := lotWrite (?t, L, ?loc) (lotBalanceOf (?t, L, ?loc) db + q) (lot_balances db),
       ticks := Suc (ticks db), movement_lots := movement_lots db @ [movement_lot_of movement L q (cost lot) (cur lot) mode db]\<rparr>"
      using rest by (simp add: insertMovementLot_Inr setLotBalance_def ls(1) db1_def lotWrite_def movement_lot_of_def)
  qed
qed

lemma withLotBalance_distinct:
  "distinct (map lot_key bs) \<Longrightarrow> distinct (map lot_key (withLotBalance k bs))"
  by (cases k) (auto simp: withLotBalance_def)

lemma lotWrite_keys: "map lot_key (lotWrite k q bs) = map lot_key (withLotBalance k bs)"
  unfolding lotWrite_def by (rule map_update_where) simp

lemma lotWrite_distinct: "distinct (map lot_key bs) \<Longrightarrow> distinct (map lot_key (lotWrite k q bs))"
  unfolding lotWrite_keys by (rule withLotBalance_distinct)

lemma lotWrite_member:
  "b \<in> set (lotWrite k q bs) \<Longrightarrow> (b \<in> set bs \<and> lot_key b \<noteq> k) \<or> (lot_key b = k \<and> lb_quantity b = q)"
  by (auto simp: lotWrite_def set_update_where withLotBalance_def split: if_splits)

lemma lotWrite_keep:
  assumes "b \<in> set bs" "lot_key b \<noteq> k"
  shows "b \<in> set (lotWrite k q bs)"
  unfolding lotWrite_def set_update_where
  by (rule image_eqI [where x = b]) (use assms in \<open>simp_all add: withLotBalance_def\<close>)

lemma lotWrite_row: "\<exists>r\<in>set (withLotBalance k bs). lot_key r = k"
proof (cases "k \<in> lot_key ` set bs")
  case True
  then obtain r where "r \<in> set bs" "lot_key r = k" by blast
  then show ?thesis using True by (auto simp: withLotBalance_def)
next
  case False
  then show ?thesis by (cases k) (simp add: withLotBalance_def)
qed

lemma lotWrite_sum:
  assumes d: "distinct (map lot_key bs)" and p: "\<And>b x. p (b\<lparr>lb_quantity := x\<rparr>) = p b" and k: "\<And>b. lot_key b = k \<Longrightarrow> p b = pk"
  shows "sum_where p lb_quantity (lotWrite k (sum_where (\<lambda>b. lot_key b = k) lb_quantity bs + q) bs) =
    sum_where p lb_quantity bs + (if pk then q else 0)"
proof -
  obtain r where r: "r \<in> set (withLotBalance k bs)" "lot_key r = k" using lotWrite_row by blast
  note d' = withLotBalance_distinct [OF d, of k]
  have same: "sum_where s lb_quantity (withLotBalance k bs) = sum_where s lb_quantity bs" for s
    by (simp add: withLotBalance_def)
  have lr: "lb_quantity r = sum_where (\<lambda>b. lot_key b = k) lb_quantity bs"
    using sum_where_key [OF d' r(1), of lb_quantity] r(2) same by simp
  have "sum_where p lb_quantity (update_where (\<lambda>b. lot_key b = k)
      (\<lambda>b. b\<lparr>lb_quantity := sum_where (\<lambda>b. lot_key b = k) lb_quantity bs + q\<rparr>) (withLotBalance k bs)) =
    sum_where p lb_quantity (withLotBalance k bs) +
      (if p r then lb_quantity (r\<lparr>lb_quantity := sum_where (\<lambda>b. lot_key b = k) lb_quantity bs + q\<rparr>) - lb_quantity r else 0)"
    by (rule sum_where_update_key [where key = lot_key and k = k, OF d' r]) (use r(2) p in simp_all)
  then show ?thesis using k [OF r(2)] by (simp add: lotWrite_def same lr)
qed

lemma changeLotBalance_inv: "preserves lot_inv (changeLotBalance movement L q mode costSource)"
proof (rule preservesI)
  fix db u db'
  assume inv: "lot_inv db" and run: "changeLotBalance movement L q mode costSource db = Inr (u, db')"
  let ?k = "(mv_tenant movement, L, mv_location movement)"
  obtain cost cur ls where R: "0 \<le> lotBalanceOf ?k db + q"
    "ls = lots db \<or> (\<exists>n\<ge>0. ls = update_where (\<lambda>l. lt_id l = L \<and> lt_tenant l = mv_tenant movement) (\<lambda>l. l\<lparr>lt_unit_cost := n\<rparr>) (lots db))"
    "db' = db\<lparr>lots := ls, lot_balances := lotWrite ?k (lotBalanceOf ?k db + q) (lot_balances db),
       ticks := Suc (ticks db), movement_lots := movement_lots db @ [movement_lot_of movement L q cost cur mode db]\<rparr>"
    by (rule changeLotBalance_Inr [OF run])
  have bal: "lotBalanceOf k db' = lotBalanceOf k db + (if k = ?k then q else 0)" for k
    unfolding lotBalanceOf_def R(3)
    using lotWrite_sum [OF lot_invD(1) [OF inv], where p = "\<lambda>b. lot_key b = k" and k = ?k and pk = "k = ?k" and q = q] by auto
  have led: "lotLedger k db' = lotLedger k db + (if k = ?k then q else 0)" for k
    by (auto simp: lotLedger_def R(3) movement_lot_of_def)
  have cost: "0 \<le> lt_unit_cost l" if "l \<in> set (lots db')" for l
  proof -
    have "l \<in> set ls" using that by (simp add: R(3))
    with R(2) show ?thesis using lot_invD(3) [OF inv] by (auto simp: set_update_where split: if_splits)
  qed
  have nonneg: "0 \<le> lb_quantity b" if "b \<in> set (lot_balances db')" for b
  proof -
    have "b \<in> set (lotWrite ?k (lotBalanceOf ?k db + q) (lot_balances db))" using that by (simp add: R(3))
    from lotWrite_member [OF this] show ?thesis using R(1) lot_invD(2) [OF inv] by auto
  qed
  have "distinct (map lot_key (lot_balances db'))"
    using lotWrite_distinct [OF lot_invD(1) [OF inv]] by (simp add: R(3))
  moreover have ids: "map lt_id ls = map lt_id (lots db)" using R(2) by auto
  moreover have "lt_id ` set ls \<subseteq> issued db'"
    using lot_invD(6) [OF inv] arg_cong [OF ids, of set] by (auto simp: R(3) issued_def)
  ultimately show "lot_inv db'"
    unfolding lot_inv_def using cost nonneg lot_invD(4,5,7) [OF inv] by (simp add: bal led, simp add: R(3))
qed

section \<open>Every branch keeps the ledger\<close>

lemma preserves_writeM: "(\<And>s. I s \<Longrightarrow> I (f s)) \<Longrightarrow> preserves I (writeM f)"
  by (simp add: preserves_def)

lemma findOrCreateLot_inv: "preserves lot_inv (findOrCreateLot movement code cost cur mf ex)"
proof -
  have "preserves lot_inv (insertLot movement c n m e cost cur)" for c n m e
  proof (rule preservesI)
    fix db i db'
    assume inv: "lot_inv db" and "insertLot movement c n m e cost cur db = Inr (i, db')"
    then have "\<exists>l. db' = db\<lparr>ticks := Suc (ticks db), lots := lots db @ [l]\<rparr> \<and> lt_id l = env_uuid db (ticks db) \<and> 0 \<le> lt_unit_cost l"
      unfolding insertLot_def by (auto simp: runM)
    then obtain l where l: "lt_id l = env_uuid db (ticks db)" "0 \<le> lt_unit_cost l"
      and db': "db' = db\<lparr>ticks := Suc (ticks db), lots := lots db @ [l]\<rparr>" by blast
    have "issued db' = insert (env_uuid db (ticks db)) (issued db)"
      by (auto simp: db' issued_def lessThan_Suc)
    then show "lot_inv db'"
      using inv l fresh_not_issued [OF lot_invD(5) [OF inv]]
      by (auto simp: db' lot_inv_def lotBalanceOf_def lotLedger_def)
  qed
  then show ?thesis
    unfolding findOrCreateLot_def Let_def by (intro preserves_intros)
qed

lemma restoreLots_inv: "preserves lot_inv (restoreLots movement partial mode xs remaining)"
proof (induction xs arbitrary: remaining)
  case (Cons a xs)
  then show ?case
    by (simp add: Let_def preserves_bindM preserves_thenM changeLotBalance_inv)
qed simp

lemma consumeLots_inv: "preserves lot_inv (consumeLots movement tz q pid pc cs ae)"
proof -
  have "preserves lot_inv (consumeLot movement mode cs row c)" for mode row c
    unfolding consumeLot_def by (intro preserves_intros changeLotBalance_inv)
  moreover have "preserves lot_inv (lotsToConsume movement tz pid pc ae)"
    unfolding lotsToConsume_def by (auto split: option.splits intro!: preserves_intros)
  ultimately show ?thesis
    unfolding consumeLots_def by (auto split: prod.splits intro!: preserves_intros)
qed

lemma lot_inv_other [simp]:
  "lot_inv (db\<lparr>movements := x\<rparr>) = lot_inv db" "lot_inv (db\<lparr>receipt_lines := r\<rparr>) = lot_inv db"
  "lot_inv (db\<lparr>return_lines := y\<rparr>) = lot_inv db" "lot_inv (db\<lparr>lot_origins := z\<rparr>) = lot_inv db"
  by (simp_all add: lot_inv_def lotBalanceOf_def lotLedger_def issued_def)

lemma allocateLots_inv: "preserves lot_inv (allocateLots movement country tz options)"
proof -
  have "preserves lot_inv (receiveLot movement)"
    unfolding receiveLot_def
    by (auto split: prod.splits intro!: preserves_intros preserves_writeM findOrCreateLot_inv changeLotBalance_inv)
  moreover have "preserves lot_inv (restoreAllocations movement st mode)" for st mode
    unfolding restoreAllocations_def Let_def by (intro preserves_intros restoreLots_inv)
  moreover have "preserves lot_inv (enterLot movement country options)"
    unfolding enterLot_def Let_def by (intro preserves_intros findOrCreateLot_inv changeLotBalance_inv)
  moreover have "preserves lot_inv (exitLots movement tz options)"
    unfolding exitLots_def supplierReturnSource_def
    by (auto split: prod.splits intro!: preserves_intros preserves_writeM consumeLots_inv)
  ultimately show ?thesis unfolding allocateLots_def by (intro preserves_intros)
qed

lemma settle_Inr:
  assumes "settleSpecificLots m db = Inr (u, db')"
  obtains v c where "selectValuation (mv_tenant m) (mv_product m) db = Some v" "lotQuantity (mv_tenant m) (mv_product m) db = va_quantity v"
    "fst (allocatedLots m db) = mv_quantity m"
    "db' = db\<lparr>movements := update_where (\<lambda>r. mv_id r = mv_id m \<and> mv_tenant r = mv_tenant m)
      (\<lambda>r. r\<lparr>mv_unit_cost := Some c, mv_value_change := Some (snd (allocatedLots m db)),
        mv_inventory_value := Some (round_div (lotValue (mv_tenant m) (mv_product m) db) 1000)\<rparr>) (movements db)\<rparr>"
proof -
  obtain Q V where QV: "allocatedLots m db = (Q, V)" by (cases "allocatedLots m db")
  from assms show ?thesis
    unfolding settleSpecificLots_def Let_def
    by (auto simp: runM QV split: option.splits intro: that)
qed

lemma finalize_frame:
  assumes "finalizeSpecificLotMovementValuation mid db = Inr (u, db')"
  shows "\<exists>x. db' = db\<lparr>movements := x\<rparr>"
proof -
  have same: "\<exists>x. db = db\<lparr>movements := x\<rparr>" by (rule exI [of _ "movements db"]) simp
  show ?thesis
    using assms same by (auto simp: finalizeSpecificLotMovementValuation_def runM split: option.splits if_splits elim: settle_Inr)
qed

lemma applyLotTracking_inv: "preserves lot_inv (applyInventoryLotTracking mid options)"
proof -
  have "preserves lot_inv (finalizeSpecificLotMovementValuation mid)"
    by (rule preservesI) (use finalize_frame in fastforce)
  then show ?thesis
    unfolding applyInventoryLotTracking_def
    by (auto split: option.splits prod.splits intro!: preserves_intros allocateLots_inv)
qed

section \<open>What the allocations of a movement add up to\<close>

lemma changeLotBalance_sum:
  assumes "changeLotBalance movement L q mode cs db = Inr (u, db')"
  shows "movementLotQuantity movement db' = movementLotQuantity movement db + q"
  by (rule changeLotBalance_Inr [OF assms]) (simp add: movementLotQuantity_def movement_lot_of_def)

lemma keeps_findOrCreateLot:
  assumes "\<And>db n. f (db\<lparr>ticks := n\<rparr>) = f db" "\<And>db x. f (db\<lparr>lots := x\<rparr>) = f db"
  shows "keeps f (findOrCreateLot movement code cost cur mf ex)"
  unfolding findOrCreateLot_def insertLot_def Let_def
  by (intro keeps_intros keeps_newRow assms)

lemma restoreLots_sum:
  "restoreLots movement partial mode xs remaining db = Inr (remaining', db') \<Longrightarrow>
   movementLotQuantity movement db' = movementLotQuantity movement db + (remaining - remaining')"
proof (induction xs arbitrary: remaining db)
  case Nil
  then show ?case by simp
next
  case (Cons a xs)
  define n where "n = (if partial then alreadyReturned movement a db else 0)"
  define c where "c = (if - ml_quantity a - n < remaining then - ml_quantity a - n else remaining)"
  have "(if remaining = 0 then returnM remaining else if c \<le> 0 then restoreLots movement partial mode xs remaining
         else thenM (changeLotBalance movement (ml_lot a) c mode
                  (Some \<lparr>cs_unit_cost = ml_unit_cost a, cs_currency = ml_currency a, cs_revalue = True\<rparr>))
                (restoreLots movement partial mode xs (remaining - c))) db = Inr (remaining', db')"
    using Cons.prems unfolding c_def n_def by (simp add: bindM_def readM_def Let_def split: if_splits)
  then show ?case
    using Cons.IH by (auto simp: thenM_Inr split: if_splits dest!: changeLotBalance_sum)
qed

lemma consumeLots_sum:
  assumes "consumeLots movement tz q pid pc cs ae db = Inr (u, db')"
  shows "movementLotQuantity movement db' = movementLotQuantity movement db - q"
proof -
  have "keeps (movementLotQuantity movement) (lotsToConsume movement tz pid pc ae)"
    unfolding lotsToConsume_def by (auto split: option.splits intro!: keeps_intros)
  moreover from assms obtain rows mode db1 tot where
    "lotsToConsume movement tz pid pc ae db = Inr ((rows, mode), db1)"
    and loop: "consume_loop (\<lambda>r. lb_quantity (fst r)) (consumeLot movement mode cs) rows q 0 db1 = Inr ((0, tot), db')"
    by (auto simp: consumeLots_def runM split: prod.splits)
  ultimately have "movementLotQuantity movement db1 = movementLotQuantity movement db" by (auto dest: keepsD)
  moreover have "movementLotQuantity movement db' = movementLotQuantity movement db1 - (q - 0)"
    by (rule consume_loop_drawn [OF _ loop]) (auto simp: consumeLot_def runM dest: changeLotBalance_sum)
  ultimately show ?thesis by simp
qed

lemma allocateLots_sum:
  assumes run: "allocateLots movement country tz options db = Inr (u, db')"
  shows "movementLotQuantity movement db' = movementLotQuantity movement db + mv_quantity movement"
proof -
  have foc: "movementLotQuantity movement db2 = movementLotQuantity movement db1"
    if "findOrCreateLot movement code cost cur mf ex db1 = Inr (i, db2)" for code cost cur mf ex i db1 db2
    by (rule keepsD [OF keeps_findOrCreateLot that]) (simp_all add: movementLotQuantity_def)
  have view [simp]: "movementLotQuantity movement (d\<lparr>receipt_lines := x\<rparr>) = movementLotQuantity movement d"
    "movementLotQuantity movement (d\<lparr>lot_origins := y\<rparr>) = movementLotQuantity movement d"
    "movementLotQuantity movement (d\<lparr>return_lines := z\<rparr>) = movementLotQuantity movement d" for d x y z
    by (simp_all add: movementLotQuantity_def)
  consider "mv_type movement = PURCHASE_RECEIPT" "receiveLot movement db = Inr (u, db')"
    | st mode where "restoreAllocations movement st mode db = Inr (u, db')"
    | "enterLot movement country options db = Inr (u, db')" | "exitLots movement tz options db = Inr (u, db')"
    using run unfolding allocateLots_def by (auto split: if_splits)
  then show ?thesis
  proof cases
    case 1
    then show ?thesis
      by (auto simp: receiveLot_def runM split: prod.splits dest!: changeLotBalance_sum foc)
  next
    case 2
    then show ?thesis by (auto simp: restoreAllocations_def Let_def runM dest!: restoreLots_sum)
  next
    case 3
    then show ?thesis by (auto simp: enterLot_def Let_def runM dest!: changeLotBalance_sum foc)
  next
    case 4
    then show ?thesis
      by (auto simp: exitLots_def supplierReturnSource_def runM split: if_splits prod.splits dest!: consumeLots_sum)
  qed
qed

section \<open>The order of consumption\<close>

definition liveLot :: "movement_row \<Rightarrow> lot_balance \<times> lot_row \<Rightarrow> inv_db \<Rightarrow> bool" where
  "liveLot movement r db \<longleftrightarrow> lot_inv db \<and> fst r \<in> set (lot_balances db) \<and>
     lb_tenant (fst r) = mv_tenant movement \<and> lb_location (fst r) = mv_location movement"

definition lotStock :: "id \<Rightarrow> inv_db \<Rightarrow> int" where
  "lotStock t db = sum_where (\<lambda>b. lb_tenant b = t) lb_quantity (lot_balances db)"

lemma changeLotBalance_balances:
  assumes run: "changeLotBalance movement L q mode cs db = Inr (u, db')" and inv: "lot_inv db"
  shows "lotBalanceOf k db' = lotBalanceOf k db + (if k = (mv_tenant movement, L, mv_location movement) then q else 0)"
    "lotStock (mv_tenant movement) db' = lotStock (mv_tenant movement) db + q"
    "b \<in> set (lot_balances db) \<Longrightarrow> lot_key b \<noteq> (mv_tenant movement, L, mv_location movement) \<Longrightarrow> b \<in> set (lot_balances db')"
proof -
  let ?k = "(mv_tenant movement, L, mv_location movement)"
  obtain ls cost cur where db': "db' = db\<lparr>lots := ls, lot_balances := lotWrite ?k (lotBalanceOf ?k db + q) (lot_balances db),
       ticks := Suc (ticks db), movement_lots := movement_lots db @ [movement_lot_of movement L q cost cur mode db]\<rparr>"
    by (rule changeLotBalance_Inr [OF run])
  show "lotBalanceOf k db' = lotBalanceOf k db + (if k = ?k then q else 0)"
    unfolding lotBalanceOf_def db'
    using lotWrite_sum [OF lot_invD(1) [OF inv], where p = "\<lambda>b. lot_key b = k" and k = ?k and pk = "k = ?k" and q = q] by auto
  show "lotStock (mv_tenant movement) db' = lotStock (mv_tenant movement) db + q"
    unfolding lotStock_def lotBalanceOf_def db'
    using lotWrite_sum [OF lot_invD(1) [OF inv], where p = "\<lambda>b. lb_tenant b = mv_tenant movement" and k = ?k and pk = True and q = q] by auto
  show "b \<in> set (lot_balances db) \<Longrightarrow> lot_key b \<noteq> ?k \<Longrightarrow> b \<in> set (lot_balances db')"
    using lotWrite_keep [of b "lot_balances db" ?k] by (simp add: db')
qed

interpretation fefo_body: greedy_body_left "\<lambda>r. lb_quantity (fst r)" "consumeLot movement mode costSource" "\<lambda>r. lot_key (fst r)"
    "liveLot movement" "lotStock (mv_tenant movement)" "\<lambda>_ _. 0" lotBalanceOf
  for movement mode costSource
proof
  fix r q :: "lot_balance \<times> lot_row" and c v :: int and k :: "id \<times> id \<times> id" and s s' :: inv_db
  assume live: "liveLot movement r s"
  then have inv: "lot_inv s" and r: "fst r \<in> set (lot_balances s)"
    and k0: "lot_key (fst r) = (mv_tenant movement, lb_lot (fst r), mv_location movement)"
    by (simp_all add: liveLot_def)
  show "lotBalanceOf (lot_key (fst r)) s = lb_quantity (fst r)" by (rule lotBalanceOf_row [OF inv r])
  assume "consumeLot movement mode costSource r c s = Inr (v, s')"
  then have run: "changeLotBalance movement (lb_lot (fst r)) (- c) mode costSource s = Inr ((), s')"
    by (auto simp: consumeLot_def runM)
  note B = changeLotBalance_balances [OF run inv]
  show "lotStock (mv_tenant movement) s' = lotStock (mv_tenant movement) s - c" using B(2) by simp
  show "lotBalanceOf (lot_key (fst r)) s' = lb_quantity (fst r) - c"
    using B(1) [of "lot_key (fst r)"] lotBalanceOf_row [OF inv r] k0 by simp
  { assume "k \<noteq> lot_key (fst r)"
    then show "lotBalanceOf k s' = lotBalanceOf k s" using B(1) [of k] unfolding k0 by simp }
  { assume "liveLot movement q s" "lot_key (fst q) \<noteq> lot_key (fst r)"
    then show "liveLot movement q s'"
      using B(3) [of "fst q"] preservesD [OF changeLotBalance_inv inv run] unfolding k0 by (simp add: liveLot_def) }
next
  fix r :: "lot_balance \<times> lot_row" and c v :: int and s s' :: inv_db
  assume "consumeLot movement mode costSource r c s = Inr (v, s')"
  then show "v = 0" by (auto simp: consumeLot_def runM)
qed

lemma lotRows_mem:
  "(b, l) \<in> set (lotRows movement sel db) \<longleftrightarrow> b \<in> set (lot_balances db) \<and> l \<in> set (lots db) \<and>
     lb_tenant b = mv_tenant movement \<and> lb_location b = mv_location movement \<and>
     lt_id l = lb_lot b \<and> lt_tenant l = lb_tenant b \<and> lt_product l = mv_product movement \<and> sel l"
  by (auto simp: lotRows_def)

lemma filter_unique_key:
  "distinct (map key ls) \<Longrightarrow> filter (\<lambda>l. key l = k \<and> p l) ls = [] \<or> (\<exists>l. filter (\<lambda>l. key l = k \<and> p l) ls = [l])"
  by (induction ls) (auto simp: filter_empty_conv image_iff)

lemma lotRows_distinct:
  assumes inv: "lot_inv db"
  shows "distinct (map (\<lambda>r. lot_key (fst r)) (lotRows movement sel db))"
proof -
  let ?ls = "\<lambda>b. filter (\<lambda>l. lt_id l = lb_lot b \<and> lt_tenant l = lb_tenant b \<and> lt_product l = mv_product movement \<and> sel l) (lots db)"
  have one: "?ls b = [] \<or> (\<exists>l. ?ls b = [l])" for b
    by (rule filter_unique_key [OF lot_invD(7) [OF inv]])
  have "distinct (map lot_key bs) \<Longrightarrow> distinct (map (\<lambda>r. lot_key (fst r)) (concat (map (\<lambda>b. map (Pair b) (?ls b)) bs))) \<and>
    lot_key ` fst ` set (concat (map (\<lambda>b. map (Pair b) (?ls b)) bs)) \<subseteq> lot_key ` set bs" for bs
  proof (induction bs)
    case (Cons b bs)
    then have "lot_key b \<notin> lot_key ` set bs" by simp
    with Cons one [of b] show ?case by (auto simp: image_iff)
  qed simp
  then show ?thesis
    unfolding lotRows_def using lot_invD(1) [OF inv] distinct_map_filter by blast
qed

lemma automaticLots_facts:
  assumes inv: "lot_inv db"
  shows "distinct (map (\<lambda>r. lot_key (fst r)) (automaticLots movement today db))"
    "\<forall>r\<in>set (automaticLots movement today db). liveLot movement r db \<and> 0 \<le> lb_quantity (fst r)"
proof -
  let ?key = "\<lambda>r :: lot_balance \<times> lot_row. lot_key (fst r)"
  let ?f = "filter (\<lambda>(b, l). 0 < lb_quantity b) (lotRows movement (\<lambda>l. case lt_expires l of None \<Rightarrow> True | Some d \<Rightarrow> today \<le> d) db)"
  have f: "distinct (map ?key ?f)" by (rule distinct_map_filter [OF lotRows_distinct [OF inv]])
  then show "distinct (map ?key (automaticLots movement today db))"
    by (simp add: automaticLots_def distinct_map)
  show "\<forall>r\<in>set (automaticLots movement today db). liveLot movement r db \<and> 0 \<le> lb_quantity (fst r)"
    using inv by (auto simp: automaticLots_def liveLot_def lotRows_mem)
qed

lemma automaticLots_fresh:
  assumes "r \<in> set (automaticLots movement today db)" "lt_expires (snd r) = Some d"
  shows "\<not> d < today"
proof -
  obtain b l where "r = (b, l)" by (rule prod.exhaust)
  with assms show ?thesis by (auto simp: automaticLots_def lotRows_mem)
qed

lemma automaticLots_lot:
  "r \<in> set (automaticLots movement today db) \<Longrightarrow> snd r \<in> set (lots db) \<and> lt_id (snd r) = lb_lot (fst r)"
  by (cases r) (simp add: automaticLots_def lotRows_mem)

lemma lotRows_lot:
  "r \<in> set (lotRows movement sel db) \<Longrightarrow> snd r \<in> set (lots db) \<and> sel (snd r)"
  by (cases r) (simp add: lotRows_mem)

lemma consumeLots_automatic:
  assumes "consumeLots movement tz q None None cs ae db = Inr (u, db')"
  shows "\<exists>tot. consume_loop (\<lambda>r. lb_quantity (fst r)) (consumeLot movement LotAutomatic cs)
     (automaticLots movement (env_local_date db tz (ticks db)) db) q 0 db = Inr ((0, tot), db')"
  using assms by (auto simp: consumeLots_def lotsToConsume_def runM split: prod.splits)

lemma finalize_Inr:
  assumes run: "finalizeSpecificLotMovementValuation mid db = Inr (u, db')" and m: "selectMovement mid db = Some m"
    and s: "mv_method m = Some SPECIFIC_LOT"
  obtains v m' where "selectValuation (mv_tenant m) (mv_product m) db = Some v" "lotQuantity (mv_tenant m) (mv_product m) db = va_quantity v"
    "movementLotQuantity m db = mv_quantity m" "selectMovement mid db' = Some m'" "mv_value_change m' = Some (snd (allocatedLots m db))"
    "mv_inventory_value m' = Some (round_div (lotValue (mv_tenant m) (mv_product m) db) 1000)"
proof -
  have run': "settleSpecificLots m db = Inr (u, db')"
    using run m s by (simp add: finalizeSpecificLotMovementValuation_def bindM_def readM_def)
  obtain v c where S: "selectValuation (mv_tenant m) (mv_product m) db = Some v" "lotQuantity (mv_tenant m) (mv_product m) db = va_quantity v"
    "fst (allocatedLots m db) = mv_quantity m"
    "db' = db\<lparr>movements := update_where (\<lambda>r. mv_id r = mv_id m \<and> mv_tenant r = mv_tenant m)
      (\<lambda>r. r\<lparr>mv_unit_cost := Some c, mv_value_change := Some (snd (allocatedLots m db)),
        mv_inventory_value := Some (round_div (lotValue (mv_tenant m) (mv_product m) db) 1000)\<rparr>) (movements db)\<rparr>"
    by (rule settle_Inr [OF run'])
  have id: "mv_id m = mid" by (rule selectMovement_id [OF m])
  have "selectMovement mid db' = Some (m\<lparr>mv_unit_cost := Some c, mv_value_change := Some (snd (allocatedLots m db)),
        mv_inventory_value := Some (round_div (lotValue (mv_tenant m) (mv_product m) db) 1000)\<rparr>)"
    using m unfolding S(4) selectMovement_def by (simp add: find_update_where id)
  from that [OF S(1,2) _ this] S(3) show ?thesis by (simp add: allocatedLots_def movementLotQuantity_def)
qed

section \<open>Frame\<close>

lemma keeps_allocateLots:
  assumes "\<And>db n. f (db\<lparr>ticks := n\<rparr>) = f db" "\<And>db x. f (db\<lparr>lots := x\<rparr>) = f db" "\<And>db x. f (db\<lparr>lot_balances := x\<rparr>) = f db"
    "\<And>db x. f (db\<lparr>movement_lots := x\<rparr>) = f db" "\<And>db x. f (db\<lparr>receipt_lines := x\<rparr>) = f db"
    "\<And>db x. f (db\<lparr>lot_origins := x\<rparr>) = f db" "\<And>db x. f (db\<lparr>return_lines := x\<rparr>) = f db"
  shows "keeps f (allocateLots movement country tz options)"
proof -
  have change: "keeps f (changeLotBalance movement L q mode cs)" for L q mode cs
    unfolding changeLotBalance_def ensureLotBalance_def revalueLot_def setLotBalance_def insertMovementLot_def Let_def
    by (intro keeps_intros keeps_newRow; simp add: assms)
  have restore: "keeps f (restoreLots movement partial mode xs r)" for partial mode xs r
    by (induction xs arbitrary: r) (simp_all add: Let_def keeps_bindM keeps_thenM change)
  have consume: "keeps f (consumeLots movement tz q pid pc cs ae)" for q pid pc cs ae
    unfolding consumeLots_def lotsToConsume_def consumeLot_def
    by (auto split: option.splits prod.splits intro!: keeps_intros change)
  note foc = keeps_findOrCreateLot [of f, OF assms(1,2)]
  show ?thesis
    unfolding allocateLots_def receiveLot_def restoreAllocations_def enterLot_def exitLots_def supplierReturnSource_def Let_def
    by (intro keeps_intros change restore consume foc; simp add: assms)
qed

lemma keeps_allocateLots_movements: "keeps movements (allocateLots movement country tz options)"
  by (rule keeps_allocateLots) simp_all

end
