(* ===== verification/LotTheorems.thy ===== *)
theory LotTheorems
  imports LotLaws Fixtures
begin

text \<open>
  The properties of lot tracking, with witnesses on a concrete database: three lots of a product
  at one location, of which one has expired, one expires in March and one never, and an exit of
  3.000 units.
\<close>

section \<open>A concrete case\<close>

definition lotExit :: movement_row where
  "lotExit = blankMovement\<lparr>mv_type := EXIT, mv_quantity := -3000, mv_method := Some SPECIFIC_LOT\<rparr>"

definition sampleLot :: lot_row where
  "sampleLot = \<lparr>lt_id = 60, lt_tenant = 1, lt_product = 7, lt_code = ''A'', lt_normalized = ''A'', lt_manufactured = None,
     lt_expires = None, lt_unit_cost = 20000, lt_currency = ''CLP'', lt_user = 9, lt_created_at = 0\<rparr>"

definition lotDb :: inv_db where
  "lotDb = sampleDb\<lparr>ticks := 6, movements := [lotExit], products := [sampleProduct\<lparr>pr_track_lots := True, pr_lot_policy := LotOptional\<rparr>],
     valuations := [\<lparr>va_tenant = 1, va_product = 7, va_quantity = 3000, va_value = 60000, va_average = 20000, va_version = 2\<rparr>],
     lots := [sampleLot, sampleLot\<lparr>lt_id := 61, lt_normalized := ''B'', lt_expires := Some ''2026-03-01''\<rparr>,
              sampleLot\<lparr>lt_id := 62, lt_normalized := ''C'', lt_expires := Some ''2025-12-31''\<rparr>],
     lot_balances := [\<lparr>lb_tenant = 1, lb_lot = 60, lb_location = 3, lb_quantity = 2000\<rparr>,
                      \<lparr>lb_tenant = 1, lb_lot = 61, lb_location = 3, lb_quantity = 2000\<rparr>,
                      \<lparr>lb_tenant = 1, lb_lot = 62, lb_location = 3, lb_quantity = 2000\<rparr>],
     movement_lots := map (\<lambda>(i, l). \<lparr>ml_id = i, ml_tenant = 1, ml_movement = 40, ml_lot = l, ml_location = 3, ml_quantity = 2000,
        ml_unit_cost = 20000, ml_currency = ''CLP'', ml_value = 40000, ml_mode = LotManual, ml_created_at = 0\<rparr>)
        [(63, 60), (64, 61), (65, 62)]\<rparr>"

lemmas lotDb_simps = lotDb_def lotExit_def sampleLot_def sampleDb_def blankMovement_def sampleTenant_def sampleProduct_def

lemma lotDb_inv: "lot_inv lotDb"
  by (simp add: lot_inv_def lotDb_simps issued_def lessThan_nat_numeral lessThan_Suc inj_def lotBalanceOf_def lotLedger_def)

lemma lotDb_runs: "case applyInventoryLotTracking 50 noLotOptions lotDb of Inl _ \<Rightarrow> False | Inr _ \<Rightarrow> True"
  by code_simp

lemma lotDb_run: obtains db' where "applyInventoryLotTracking 50 noLotOptions lotDb = Inr ((), db')"
  using lotDb_runs by (auto split: sum.splits)

lemma lotDb_consumes: "case consumeLots lotExit ''Z'' 3000 None None None False lotDb of Inl _ \<Rightarrow> False | Inr _ \<Rightarrow> True"
  by code_simp

lemma lotDb_consume: obtains db' where "consumeLots lotExit ''Z'' 3000 None None None False lotDb = Inr ((), db')"
  using lotDb_consumes by (auto split: sum.splits)

text \<open>C18: The ledger of the lots: balances are never negative, there is one per lot and location,
  and each is the sum of the allocations of its lot at its location; applying any movement keeps
  this, whatever its type and options.\<close>

theorem applyInventoryLotTracking_ledger: "preserves lot_inv (applyInventoryLotTracking mid options)"
  by (rule applyLotTracking_inv)

text \<open>Lots explain the movement: on the first application to a movement of a lot-tracked
  product that changes a quantity, the lot allocations add up to that quantity; and for a
  specific-lot tenant the value stored on the movement is the sum of their values, and the lots of
  the product add up to its valuation.\<close>

theorem applyInventoryLotTracking_accounts:
  assumes run: "applyInventoryLotTracking mid options db = Inr (u, db')"
    and m: "lotMovement mid db = Some (m, product, country, tz)" "pr_track_lots product" "mv_quantity m \<noteq> 0"
    and fresh: "\<forall>a\<in>set (movement_lots db). \<not> (ml_tenant a = mv_tenant m \<and> ml_movement a = mv_id m)"
  shows "movementLotQuantity m db' = mv_quantity m \<and>
    (mv_method m = Some SPECIFIC_LOT \<longrightarrow>
      (\<exists>m' v. selectMovement mid db' = Some m' \<and> mv_value_change m' = Some (snd (allocatedLots m db')) \<and>
         selectValuation (mv_tenant m) (mv_product m) db' = Some v \<and> lotQuantity (mv_tenant m) (mv_product m) db' = va_quantity v))"
proof -
  have none: "filter (\<lambda>a. ml_tenant a = mv_tenant m \<and> ml_movement a = mv_id m) (movement_lots db) = []"
    using fresh by (auto simp: filter_empty_conv)
  from run m none obtain db1 where A: "allocateLots m country tz options db = Inr ((), db1)"
    and F: "finalizeSpecificLotMovementValuation mid db1 = Inr (u, db')"
    unfolding applyInventoryLotTracking_def by (auto simp: runM)
  have "movementLotQuantity m db = 0"
    unfolding movementLotQuantity_def using fresh by (intro sum_where_none) auto
  then have q: "movementLotQuantity m db1 = mv_quantity m" using allocateLots_sum [OF A] by simp
  obtain x where db': "db' = db1\<lparr>movements := x\<rparr>" using finalize_frame [OF F] by blast
  have same: "movementLotQuantity m db' = movementLotQuantity m db1" "allocatedLots m db' = allocatedLots m db1"
    "selectValuation t p db' = selectValuation t p db1" "lotQuantity t p db' = lotQuantity t p db1" for t p
    by (simp_all add: db' movementLotQuantity_def allocatedLots_def selectValuation_def lotQuantity_def)
  have sel: "selectMovement mid db1 = Some m"
    using m(1) keepsD [OF keeps_allocateLots_movements A]
    by (auto simp: lotMovement_def selectMovement_def bind_eq_Some_conv)
  show ?thesis
  proof (intro conjI impI)
    show "movementLotQuantity m db' = mv_quantity m" using q same(1) by simp
    assume "mv_method m = Some SPECIFIC_LOT"
    then show "\<exists>m' v. selectMovement mid db' = Some m' \<and> mv_value_change m' = Some (snd (allocatedLots m db')) \<and>
         selectValuation (mv_tenant m) (mv_product m) db' = Some v \<and> lotQuantity (mv_tenant m) (mv_product m) db' = va_quantity v"
      by (rule finalize_Inr [OF F sel]) (auto simp: same)
  qed
qed

theorem applyInventoryLotTracking_accounts_witness:
  "case applyInventoryLotTracking 50 noLotOptions lotDb of Inl _ \<Rightarrow> False
   | Inr (u, db') \<Rightarrow> movementLotQuantity lotExit db' = -3000"
proof -
  obtain db' where run: "applyInventoryLotTracking 50 noLotOptions lotDb = Inr ((), db')" by (rule lotDb_run)
  have m: "lotMovement 50 lotDb = Some (lotExit, sampleProduct\<lparr>pr_track_lots := True, pr_lot_policy := LotOptional\<rparr>, ''CL'', ''Z'')"
    by (simp add: lotMovement_def lotDb_simps selectMovement_def selectProduct_def)
  have q: "mv_quantity lotExit = -3000" by (simp add: lotExit_def)
  have "\<forall>a\<in>set (movement_lots lotDb). \<not> (ml_tenant a = mv_tenant lotExit \<and> ml_movement a = mv_id lotExit)"
    by (simp add: lotDb_simps)
  from applyInventoryLotTracking_accounts [OF run m _ _ this] run q show ?thesis by simp
qed

text \<open>C19: First expired, first out: when no lot is named, after an exit that took something from a
  lot, every lot that expires before it (or has no date only when neither has, ties broken by
  creation) is empty at the location.\<close>

theorem consumeLots_fefo:
  assumes inv: "lot_inv db" and q: "0 \<le> q" and run: "consumeLots m tz q None None cs ae db = Inr (u, db')"
    and rows: "(b1, l1) \<in> set (automaticLots m (env_local_date db tz (ticks db)) db)"
      "(b2, l2) \<in> set (automaticLots m (env_local_date db tz (ticks db)) db)"
    and earlier: "expiryKey l1 < expiryKey l2" and taken: "lotBalanceOf (lot_key b2) db' < lb_quantity b2"
  shows "lotBalanceOf (lot_key b1) db' = 0"
proof -
  let ?rows = "automaticLots m (env_local_date db tz (ticks db)) db"
  obtain tot where loop: "consume_loop (\<lambda>r. lb_quantity (fst r)) (consumeLot m LotAutomatic cs) ?rows q 0 db = Inr ((0, tot), db')"
    using consumeLots_automatic [OF run] by blast
  obtain i j where ij: "i < length ?rows" "?rows ! i = (b1, l1)" "j < length ?rows" "?rows ! j = (b2, l2)"
    using rows by (metis in_set_conv_nth)
  have "sorted (map (\<lambda>(b, l). expiryKey l) ?rows)" by (simp add: automaticLots_def)
  then have "i < j" using ij earlier sorted_nth_mono [of "map (\<lambda>(b, l). expiryKey l) ?rows" j i] by (fastforce simp: not_less [symmetric])
  from fefo_body.loop_order [OF loop automaticLots_facts [OF inv] q this ij(3)] ij taken show ?thesis by simp
qed

theorem consumeLots_fefo_witness:
  "case consumeLots lotExit ''Z'' 3000 None None None False lotDb of Inl _ \<Rightarrow> False
   | Inr (u, db') \<Rightarrow> lotBalanceOf (1, 61, 3) db' = 0"
proof -
  let ?b = "\<lambda>l. \<lparr>lb_tenant = 1, lb_lot = l, lb_location = 3, lb_quantity = 2000\<rparr>"
  obtain db' where run: "consumeLots lotExit ''Z'' 3000 None None None False lotDb = Inr ((), db')" by (rule lotDb_consume)
  have rows: "automaticLots lotExit ''2026-01-15'' lotDb =
     [(?b 61, sampleLot\<lparr>lt_id := 61, lt_normalized := ''B'', lt_expires := Some ''2026-03-01''\<rparr>), (?b 60, sampleLot)]"
    by (simp add: automaticLots_def lotRows_def expiryKey_def lotDb_simps)
  obtain tot where loop: "consume_loop (\<lambda>r. lb_quantity (fst r)) (consumeLot lotExit LotAutomatic None)
     (automaticLots lotExit ''2026-01-15'' lotDb) 3000 0 lotDb = Inr ((0, tot), db')"
    using consumeLots_automatic [OF run] by (auto simp: lotDb_simps)
  have "lotBalanceOf (lot_key (?b 60)) db' = 1000"
    using fefo_body.loop_left [OF loop automaticLots_facts [OF lotDb_inv] _, of 1] by (simp add: rows)
  then have taken: "lotBalanceOf (lot_key (?b 60)) db' < lb_quantity (?b 60)" by simp
  have today: "env_local_date lotDb tz n = ''2026-01-15''" for tz n by (simp add: lotDb_def sampleDb_def)
  have "lotBalanceOf (lot_key (?b 61)) db' = 0"
    by (rule consumeLots_fefo [OF lotDb_inv _ run, where ?b2.0 = "?b 60" and ?l2.0 = sampleLot and
          ?l1.0 = "sampleLot\<lparr>lt_id := 61, lt_normalized := ''B'', lt_expires := Some ''2026-03-01''\<rparr>"])
      (use taken in \<open>simp_all add: today rows, simp_all add: expiryKey_def sampleLot_def\<close>)
  then show ?thesis using run by simp
qed

text \<open>Expired stock stays: an exit that names no lot leaves the balance of every lot whose date
  is before the branch's local date as it was, and an exit that names an expired lot fails unless
  expired stock is allowed for it.\<close>

theorem consumeLots_expired:
  assumes inv: "lot_inv db" and q: "0 \<le> q" and l: "l \<in> set (lots db)" "lt_expires l = Some d" "d < env_local_date db tz (ticks db)"
  shows "(consumeLots m tz q None None cs ae db = Inr (u, db') \<longrightarrow>
      lotBalanceOf (lt_tenant l, lt_id l, mv_location m) db' = lotBalanceOf (lt_tenant l, lt_id l, mv_location m) db) \<and>
    (lt_tenant l = mv_tenant m \<and> lt_product l = mv_product m \<and>
       (\<exists>b\<in>set (lot_balances db). lot_key b = (lt_tenant l, lt_id l, mv_location m)) \<longrightarrow>
      consumeLots m tz q (Some (lt_id l)) pc cs False db = Inl ExpiredInventoryLotError)"
proof (intro conjI impI)
  let ?today = "env_local_date db tz (ticks db)"
  assume run: "consumeLots m tz q None None cs ae db = Inr (u, db')"
  obtain tot where loop: "consume_loop (\<lambda>r. lb_quantity (fst r)) (consumeLot m LotAutomatic cs) (automaticLots m ?today db) q 0 db = Inr ((0, tot), db')"
    using consumeLots_automatic [OF run] by blast
  have "(lt_tenant l, lt_id l, mv_location m) \<notin> (\<lambda>r. lot_key (fst r)) ` set (automaticLots m ?today db)"
  proof
    assume "(lt_tenant l, lt_id l, mv_location m) \<in> (\<lambda>r. lot_key (fst r)) ` set (automaticLots m ?today db)"
    then obtain r where r: "r \<in> set (automaticLots m ?today db)" "lb_lot (fst r) = lt_id l" by auto
    then have "snd r = l"
      using automaticLots_lot [OF r(1)] distinct_map_key_inj [OF lot_invD(7) [OF inv] _ l(1)] by simp
    then show False using automaticLots_fresh [OF r(1)] l by simp
  qed
  then show "lotBalanceOf (lt_tenant l, lt_id l, mv_location m) db' = lotBalanceOf (lt_tenant l, lt_id l, mv_location m) db"
    by (rule fefo_body.loop_left_other [OF loop automaticLots_facts [OF inv] q])
next
  assume a: "lt_tenant l = mv_tenant m \<and> lt_product l = mv_product m \<and>
       (\<exists>b\<in>set (lot_balances db). lot_key b = (lt_tenant l, lt_id l, mv_location m))"
  let ?rows = "lotRows m (\<lambda>r. lt_id r = lt_id l) db"
  from a obtain b where b: "b \<in> set (lot_balances db)" "lot_key b = (lt_tenant l, lt_id l, mv_location m)" by blast
  then have "(b, l) \<in> set ?rows" using a l(1) by (simp add: lotRows_mem)
  moreover have "snd r = l" if "r \<in> set ?rows" for r
    using lotRows_lot [OF that] distinct_map_key_inj [OF lot_invD(7) [OF inv] _ l(1)] by simp
  ultimately obtain r rest where "?rows = r # rest" "snd r = l" by (cases ?rows) auto
  with l(2,3) have "lotsToConsume m tz (Some (lt_id l)) pc False db = Inl ExpiredInventoryLotError"
    by (cases pc) (simp_all add: lotsToConsume_def evalM)
  then show "consumeLots m tz q (Some (lt_id l)) pc cs False db = Inl ExpiredInventoryLotError"
    by (simp add: consumeLots_def bindM_fail)
qed

theorem consumeLots_expired_witness:
  "(case consumeLots lotExit ''Z'' 3000 None None None False lotDb of Inl _ \<Rightarrow> False
    | Inr (u, db') \<Rightarrow> lotBalanceOf (1, 62, 3) db' = 2000) \<and>
   consumeLots lotExit ''Z'' 1000 (Some 62) None None False lotDb = Inl ExpiredInventoryLotError"
proof -
  let ?l = "sampleLot\<lparr>lt_id := 62, lt_normalized := ''C'', lt_expires := Some ''2025-12-31''\<rparr>"
  obtain db' where run: "consumeLots lotExit ''Z'' 3000 None None None False lotDb = Inr ((), db')" by (rule lotDb_consume)
  have l: "?l \<in> set (lots lotDb)" "lt_expires ?l = Some ''2025-12-31''" "''2025-12-31'' < env_local_date lotDb ''Z'' (ticks lotDb)"
    by (simp_all add: lotDb_simps)
  have keys: "lt_tenant ?l = 1" "lt_id ?l = 62" "mv_location lotExit = 3" "mv_tenant lotExit = 1" "lt_product ?l = 7" "mv_product lotExit = 7"
    by (simp_all add: sampleLot_def lotExit_def blankMovement_def)
  have b: "lotBalanceOf (1, 62, 3) lotDb = 2000" "\<exists>b\<in>set (lot_balances lotDb). lot_key b = (1, 62, 3)"
    by (simp_all add: lotBalanceOf_def lotDb_simps)
  show ?thesis
    using consumeLots_expired [OF lotDb_inv _ l, of 3000 lotExit None False "()" db' None]
      consumeLots_expired [OF lotDb_inv _ l, of 1000 lotExit None False "()" db' None] run b
    unfolding keys by simp
qed

end
