(* ===== verification/SerialTracking.thy ===== *)
theory SerialTracking
  imports LotTracking
begin

text \<open>
  Serial numbers, after \<open>src/inventory/inventory-serial-tracking.ts\<close>. A movement of a
  serial-tracked product names one serial per unit: entries register new serials, every other
  movement takes named serials from the status and location its type requires to the next ones,
  and records the step as an event. Quantities are thousandths here too, so the whole-unit check
  of the module is divisibility by 1000.
\<close>

definition normalizeSerial :: "string \<Rightarrow> string" where
  "normalizeSerial value = toUpperCase (trim value)"

definition serialUnits :: "int \<Rightarrow> inv_error + int" where
  "serialUnits q = (if q mod 1000 \<noteq> 0 then Inl InventorySerialQuantityError else Inr (q div 1000))"

definition requestedSerials :: "string list option \<Rightarrow> int \<Rightarrow> inv_error + (string \<times> string) list" where
  "requestedSerials values count =
     (let serials = map (\<lambda>v. (trim v, normalizeSerial v)) (case values of None \<Rightarrow> [] | Some vs \<Rightarrow> vs)
      in if count < 0 \<or> 1000 < count \<or> int (length serials) \<noteq> count \<or>
            list_ex (\<lambda>(serialNumber, normalized). serialNumber = [] \<or> normalized = [] \<or> 120 < length serialNumber) serials \<or>
            \<not> distinct (map snd serials)
         then Inl InventorySerialRequiredError else Inr serials)"

text \<open>Unique \<open>(tenant_id, movement_id, serial_id)\<close>.\<close>

definition insertSerialEvent ::
  "movement_row \<Rightarrow> id \<Rightarrow> serial_status option \<Rightarrow> serial_status \<Rightarrow> id option \<Rightarrow> id option \<Rightarrow> unit act" where
  "insertSerialEvent movement serialId fromStatus toStatus fromLocation toLocation =
     bindM newRow (\<lambda>(i, now).
     bindM (readM serial_events) (\<lambda>rows.
     thenM (ensureM DuplicateEntry (\<forall>e\<in>set rows. \<not> (se_tenant e = mv_tenant movement \<and>
              se_movement e = mv_id movement \<and> se_serial e = serialId)))
       (writeM (\<lambda>db. db\<lparr>serial_events := serial_events db @
         [\<lparr>se_id = i, se_tenant = mv_tenant movement, se_serial = serialId, se_movement = mv_id movement,
           se_from = fromStatus, se_to = toStatus, se_from_location = fromLocation, se_to_location = toLocation, se_created_at = now\<rparr>]\<rparr>))))"

definition appendEvent :: "movement_row \<Rightarrow> serial_row \<Rightarrow> serial_status \<Rightarrow> id option \<Rightarrow> unit act" where
  "appendEvent movement serial toStatus toLocationId =
     thenM (insertSerialEvent movement (sr_id serial) (Some (sr_status serial)) toStatus (sr_location serial) toLocationId)
       (writeM (\<lambda>db. db\<lparr>serials := update_where (\<lambda>s. sr_id s = sr_id serial \<and> sr_tenant s = mv_tenant movement)
          (\<lambda>s. s\<lparr>sr_status := toStatus, sr_location := toLocationId\<rparr>) (serials db)\<rparr>))"

definition findSerial :: "movement_row \<Rightarrow> string \<Rightarrow> inv_db \<Rightarrow> serial_row option" where
  "findSerial movement value db =
     List.find (\<lambda>s. sr_tenant s = mv_tenant movement \<and> sr_product s = mv_product movement \<and> sr_normalized s = value) (serials db)"

definition selectSerials :: "movement_row \<Rightarrow> string list \<Rightarrow> serial_row list act" where
  "selectSerials movement serialNumbers =
     (let normalized = sort (map normalizeSerial serialNumbers) in
      thenM (ensureM InventorySerialDuplicateError (distinct normalized))
        (mapM (\<lambda>v. bindM (readM (findSerial movement v)) (requireM InventorySerialNotFoundError)) normalized))"

text \<open>The serials of the sale or of the dispatch that a movement gives back.\<close>

definition sourceSerials :: "movement_row \<Rightarrow> movement_type \<Rightarrow> inv_db \<Rightarrow> string list" where
  "sourceSerials movement sourceType db =
     map sr_number (sort_key sr_normalized
       (concat (map (\<lambda>m. concat (map (\<lambda>e. filter (\<lambda>s. sr_id s = se_serial e \<and> sr_tenant s = se_tenant e) (serials db))
            (filter (\<lambda>e. se_movement e = mv_id m \<and> se_tenant e = mv_tenant m) (serial_events db))))
          (filter (\<lambda>m. mv_tenant m = mv_tenant movement \<and> mv_product m = mv_product movement \<and> mv_type m = sourceType \<and>
              (if sourceType = SALE
               then mv_sale movement \<noteq> None \<and> mv_sale m = mv_sale movement \<and>
                    mv_sale_line movement \<noteq> None \<and> mv_sale_line m = mv_sale_line movement
               else mv_transfer_line movement \<noteq> None \<and> mv_transfer_line m = mv_transfer_line movement)) (movements db)))))"

text \<open>Unique \<open>(tenant_id, normalized_serial)\<close>: a duplicate of either insert is reported as a
  duplicate serial.\<close>

definition registerSerial :: "movement_row \<Rightarrow> serial_status \<Rightarrow> string \<times> string \<Rightarrow> unit act" where
  "registerSerial movement toStatus serial =
     bindM newRow (\<lambda>(i, now).
     bindM (readM serials) (\<lambda>rows.
     thenM (ensureM InventorySerialDuplicateError
              (\<forall>s\<in>set rows. \<not> (sr_tenant s = mv_tenant movement \<and> sr_normalized s = snd serial)))
     (thenM (writeM (\<lambda>db. db\<lparr>serials := serials db @ [\<lparr>sr_id = i, sr_tenant = mv_tenant movement,
         sr_product = mv_product movement, sr_number = fst serial, sr_normalized = snd serial,
         sr_status = toStatus, sr_location = Some (mv_location movement)\<rparr>]\<rparr>))
       (catchM (\<lambda>e. e = DuplicateEntry)
         (insertSerialEvent movement i None toStatus None (Some (mv_location movement)))
         (\<lambda>_. throwM InventorySerialDuplicateError)))))"

definition registerSerials :: "movement_row \<Rightarrow> string list \<Rightarrow> serial_status \<Rightarrow> unit act" where
  "registerSerials movement serialNumbers toStatus =
     bindM (liftE (requestedSerials (Some serialNumbers) (int (length serialNumbers))))
       (forM (registerSerial movement toStatus))"

text \<open>A supplier return takes only serials that came in with its receipt line.\<close>

definition cameWithReceipt :: "movement_row \<Rightarrow> serial_row \<Rightarrow> inv_db \<Rightarrow> bool" where
  "cameWithReceipt movement serial db \<longleftrightarrow>
     (\<exists>r\<in>set (return_lines db). Some (tl_id r) = mv_return_line movement \<and> tl_tenant r = mv_tenant movement \<and>
       (\<exists>line\<in>set (receipt_lines db). rl_id line = tl_receipt_line r \<and> rl_tenant line = tl_tenant r \<and>
         (\<exists>m\<in>set (movements db). mv_receipt_line m = Some (rl_id line) \<and> mv_tenant m = rl_tenant line \<and> mv_type m = PURCHASE_RECEIPT \<and>
           (\<exists>e\<in>set (serial_events db). se_movement e = mv_id m \<and> se_tenant e = mv_tenant m \<and> se_serial e = sr_id serial))))"

definition statusOf :: "stock_state \<Rightarrow> serial_status" where
  "statusOf s = (case s of AVAILABLE \<Rightarrow> SerialAvailable | RESERVED \<Rightarrow> SerialReserved
                         | DAMAGED \<Rightarrow> SerialDamaged | IN_TRANSIT \<Rightarrow> SerialInTransit)"

text \<open>The \<open>switch\<close>: the statuses a movement accepts, and the status and location it leaves.\<close>

definition serialTarget :: "movement_row \<Rightarrow> id option \<Rightarrow> (serial_status list \<times> serial_status option \<times> id option) act" where
  "serialTarget movement destination =
     (let here = Some (mv_location movement) in
      case mv_type movement of
        SALE \<Rightarrow> returnM (if mv_reservation movement \<noteq> None then [SerialReserved] else [SerialAvailable], Some SerialSold, None)
      | SALE_VOID \<Rightarrow> returnM ([SerialSold, SerialRemoved], Some SerialAvailable, here)
      | RETURN \<Rightarrow> returnM ([SerialSold, SerialRemoved], Some SerialAvailable, here)
      | SALE_RETURN \<Rightarrow>
          bindM (readM (\<lambda>db. List.find (\<lambda>r. Some (sl_id r) = mv_sale_return_line movement \<and> sl_tenant r = mv_tenant movement)
                   (sale_return_lines db))) (\<lambda>found.
          bindM (requireM InventorySerialStateConflictError found) (\<lambda>returnLine.
          returnM ([SerialSold], Some (if sl_condition returnLine = DAMAGED_ITEM then SerialDamaged else SerialAvailable), here)))
      | TRANSFER_OUT \<Rightarrow> returnM ([SerialAvailable], Some SerialInTransit, destination)
      | TRANSFER_RECEIPT \<Rightarrow> returnM ([SerialInTransit], Some SerialAvailable, here)
      | TRANSFER_DISCREPANCY \<Rightarrow> returnM ([SerialInTransit], Some SerialRemoved, None)
      | SUPPLIER_RETURN \<Rightarrow> returnM ([SerialAvailable], Some SerialReturnedToSupplier, None)
      | STATE_TRANSITION \<Rightarrow> returnM (case mv_from movement of None \<Rightarrow> [] | Some s \<Rightarrow> [statusOf s], map_option statusOf (mv_to movement), here)
      | DAMAGE \<Rightarrow> returnM ([SerialAvailable], Some SerialDamaged, here)
      | _ \<Rightarrow> returnM ([SerialAvailable], Some SerialRemoved, None))"

definition moveSerial :: "movement_row \<Rightarrow> id option \<Rightarrow> serial_row \<Rightarrow> unit act" where
  "moveSerial movement destination serial =
     bindM (readM (cameWithReceipt movement serial)) (\<lambda>origin.
     thenM (ensureM InventorySerialStateConflictError (mv_type movement = SUPPLIER_RETURN \<longrightarrow> origin))
     (bindM (serialTarget movement destination) (\<lambda>(allowed, toStatus, toLocationId).
     thenM (ensureM InventorySerialStateConflictError
              (sr_status serial \<in> set allowed \<and>
               (sr_location serial = Some (mv_location movement) \<or> mv_type movement \<in> {SALE_VOID, SALE_RETURN})))
     (bindM (requireM CheckViolated toStatus) (\<lambda>status.
      appendEvent movement serial status toLocationId)))))"

record serial_options =
  so_serials :: "string list option"
  so_destination :: "id option"

definition noSerialOptions :: serial_options where
  "noSerialOptions = \<lparr>so_serials = None, so_destination = None\<rparr>"

definition serialCount :: "movement_row \<Rightarrow> inv_error + (int \<times> int)" where
  "serialCount movement =
     bindE (serialUnits (mv_quantity movement)) (\<lambda>quantity.
     bindE (case mv_state_quantity movement of None \<Rightarrow> Inr 0 | Some q \<Rightarrow> serialUnits q) (\<lambda>stateQuantity.
       Inr (quantity, if 0 < stateQuantity then stateQuantity else if quantity < 0 then - quantity else quantity)))"

definition serialNumbersFor :: "movement_row \<Rightarrow> serial_options \<Rightarrow> inv_db \<Rightarrow> string list option" where
  "serialNumbersFor movement options db =
     (if mv_type movement = SALE_VOID then Some (sourceSerials movement SALE db)
      else if mv_type movement \<in> {TRANSFER_RECEIPT, TRANSFER_DISCREPANCY} \<and> so_serials options = None
      then Some (sourceSerials movement TRANSFER_OUT db)
      else so_serials options)"

definition trackSerials :: "movement_row \<Rightarrow> serial_options \<Rightarrow> unit act" where
  "trackSerials movement options =
     bindM (liftE (serialCount movement)) (\<lambda>(quantity, count).
     bindM (readM (serialNumbersFor movement options)) (\<lambda>serialNumbers.
     bindM (liftE (requestedSerials serialNumbers count)) (\<lambda>requested.
     if 0 < quantity \<and> mv_type movement \<in> {INITIAL, ENTRY, PURCHASE_RECEIPT, IMPORT, ADJUSTMENT}
     then registerSerials movement (map fst requested) SerialAvailable
     else bindM (selectSerials movement (map fst requested))
            (forM (moveSerial movement (so_destination options))))))"

definition applyInventorySerialTracking :: "id \<Rightarrow> serial_options \<Rightarrow> unit act" where
  "applyInventorySerialTracking movementId options =
     bindM (readM (\<lambda>db. Option.bind (selectMovement movementId db) (\<lambda>m.
              map_option (Pair m) (selectProduct (mv_tenant m) (mv_product m) db)))) (\<lambda>found.
     case found of
       None \<Rightarrow> returnM ()
     | Some (movement, product) \<Rightarrow>
         if \<not> pr_track_serials product then returnM ()
         else bindM (readM (\<lambda>db. length (filter (\<lambda>e. se_tenant e = mv_tenant movement \<and> se_movement e = mv_id movement) (serial_events db)))) (\<lambda>existing.
              if 0 < existing \<or> mv_type movement = TRANSFER_IN then returnM ()
              else trackSerials movement options))"

end
