(* ===== verification/SerialLaws.thy ===== *)
theory SerialLaws
  imports SerialTracking FifoLaws
begin

text \<open>
  The laws of serial tracking (operations in theory \<open>SerialTracking\<close>). The life of one serial is
  a state machine, \<open>serial_step\<close>; the events of a serial are its history, and the invariant says
  that replaying the history gives the row of the serial (event sourcing), that every event is a
  step of the machine, and that serials that are gone have no location.
\<close>

section \<open>The life of a serial\<close>

type_synonym serial_place = "serial_status \<times> id option"

text \<open>One movement at location \<open>here\<close> takes a serial from a place (none: not registered) to a
  place.\<close>

inductive serial_step :: "id \<Rightarrow> serial_place option \<Rightarrow> serial_place \<Rightarrow> bool" for here :: id where
  register: "serial_step here None (SerialAvailable, Some here)"
| sell: "s \<in> {SerialAvailable, SerialReserved} \<Longrightarrow> serial_step here (Some (s, Some here)) (SerialSold, None)"
| undo: "s \<in> {SerialSold, SerialRemoved} \<Longrightarrow> serial_step here (Some (s, l)) (SerialAvailable, Some here)"
| giveBack: "s \<in> {SerialAvailable, SerialDamaged} \<Longrightarrow> serial_step here (Some (SerialSold, l)) (s, Some here)"
| dispatch: "serial_step here (Some (SerialAvailable, Some here)) (SerialInTransit, there)"
| arrive: "serial_step here (Some (SerialInTransit, Some here)) (SerialAvailable, Some here)"
| miss: "serial_step here (Some (SerialInTransit, Some here)) (SerialRemoved, None)"
| sendBack: "serial_step here (Some (SerialAvailable, Some here)) (SerialReturnedToSupplier, None)"
| reclassify: "serial_step here (Some (statusOf a, Some here)) (statusOf b, Some here)"
| break: "serial_step here (Some (SerialAvailable, Some here)) (SerialDamaged, Some here)"
| remove: "serial_step here (Some (SerialAvailable, Some here)) (SerialRemoved, None)"

inductive_cases serial_step_fromNone: "serial_step here None p"
inductive_cases serial_step_fromSome: "serial_step here (Some p) p'"
inductive_simps serial_step_simps: "serial_step here p p'"

definition gone :: "serial_status \<Rightarrow> bool" where
  "gone s \<longleftrightarrow> s \<in> {SerialSold, SerialReturnedToSupplier, SerialRemoved}"

lemma statusOf_not_gone [simp]: "\<not> gone (statusOf a)"
  by (cases a) (simp_all add: statusOf_def gone_def)

lemma statusOf_stock: "statusOf a \<in> {SerialAvailable, SerialReserved, SerialDamaged, SerialInTransit}"
  by (cases a) (simp_all add: statusOf_def)

lemma step_gone: "serial_step here p (s, l) \<Longrightarrow> gone s \<Longrightarrow> l = None"
  by (erule serial_step.cases) (simp_all, (simp_all add: gone_def split: if_splits)?, auto)

lemma step_terminal: "\<not> serial_step here (Some (SerialReturnedToSupplier, l)) p"
proof
  assume "serial_step here (Some (SerialReturnedToSupplier, l)) p"
  then show False using statusOf_stock by (cases rule: serial_step.cases) (simp_all, metis serial_status.distinct)
qed

section \<open>Histories\<close>

definition eventFrom :: "serial_event \<Rightarrow> serial_place option" where
  "eventFrom e = map_option (\<lambda>s. (s, se_from_location e)) (se_from e)"

definition eventTo :: "serial_event \<Rightarrow> serial_place" where
  "eventTo e = (se_to e, se_to_location e)"

fun replay :: "serial_place option \<Rightarrow> serial_event list \<Rightarrow> serial_place option option" where
  "replay p [] = Some p"
| "replay p (e # es) = (if eventFrom e = p then replay (Some (eventTo e)) es else None)"

lemma replay_append: "replay p (xs @ ys) = (case replay p xs of None \<Rightarrow> None | Some q \<Rightarrow> replay q ys)"
  by (induction xs arbitrary: p) auto

definition history :: "id \<Rightarrow> id \<Rightarrow> inv_db \<Rightarrow> serial_event list" where
  "history t s db = filter (\<lambda>e. se_tenant e = t \<and> se_serial e = s) (serial_events db)"

definition place :: "serial_row \<Rightarrow> serial_place" where
  "place s = (sr_status s, sr_location s)"

abbreviation serial_key :: "serial_row \<Rightarrow> id \<times> string" where
  "serial_key s \<equiv> (sr_tenant s, sr_normalized s)"

definition serial_inv :: "inv_db \<Rightarrow> bool" where
  "serial_inv db \<longleftrightarrow>
     inj (env_uuid db) \<and> sr_id ` set (serials db) \<subseteq> issued db \<and> distinct (map sr_id (serials db)) \<and>
     distinct (map serial_key (serials db)) \<and>
     se_serial ` set (serial_events db) \<subseteq> sr_id ` set (serials db) \<and>
     (\<forall>s\<in>set (serials db). replay None (history (sr_tenant s) (sr_id s) db) = Some (Some (place s))) \<and>
     (\<forall>s\<in>set (serials db). gone (sr_status s) \<longrightarrow> sr_location s = None) \<and>
     (\<forall>e\<in>set (serial_events db). \<exists>here. serial_step here (eventFrom e) (eventTo e))"

lemma serial_invD:
  assumes "serial_inv db"
  shows "inj (env_uuid db)" "sr_id ` set (serials db) \<subseteq> issued db" "distinct (map sr_id (serials db))"
    "distinct (map serial_key (serials db))" "se_serial ` set (serial_events db) \<subseteq> sr_id ` set (serials db)"
    "s \<in> set (serials db) \<Longrightarrow> replay None (history (sr_tenant s) (sr_id s) db) = Some (Some (place s))"
    "s \<in> set (serials db) \<Longrightarrow> gone (sr_status s) \<Longrightarrow> sr_location s = None"
    "e \<in> set (serial_events db) \<Longrightarrow> \<exists>here. serial_step here (eventFrom e) (eventTo e)"
  using assms unfolding serial_inv_def by blast+

section \<open>The two writes\<close>

definition event_of :: "movement_row \<Rightarrow> id \<times> nat \<Rightarrow> id \<Rightarrow> serial_status option \<Rightarrow> serial_status \<Rightarrow> id option \<Rightarrow> id option \<Rightarrow> serial_event" where
  "event_of m i s f u fl ul = \<lparr>se_id = fst i, se_tenant = mv_tenant m, se_serial = s, se_movement = mv_id m,
     se_from = f, se_to = u, se_from_location = fl, se_to_location = ul, se_created_at = snd i\<rparr>"

lemma event_of_simps [simp]:
  "se_tenant (event_of m i s f u fl ul) = mv_tenant m" "se_serial (event_of m i s f u fl ul) = s"
  "se_movement (event_of m i s f u fl ul) = mv_id m" "eventTo (event_of m i s f u fl ul) = (u, ul)" "se_created_at (event_of m i s f u fl ul) = snd i"
  "eventFrom (event_of m i s f u fl ul) = map_option (\<lambda>x. (x, fl)) f"
  by (simp_all add: event_of_def eventTo_def eventFrom_def)

lemma insertSerialEvent_Inr:
  "insertSerialEvent m s f u fl ul db = Inr (x, db') \<longleftrightarrow>
     (\<forall>e\<in>set (serial_events db). \<not> (se_tenant e = mv_tenant m \<and> se_movement e = mv_id m \<and> se_serial e = s)) \<and>
     db' = db\<lparr>ticks := Suc (ticks db), serial_events := serial_events db @ [event_of m (env_uuid db (ticks db), env_clock db (ticks db)) s f u fl ul]\<rparr>"
  by (auto simp: insertSerialEvent_def runM event_of_def)

lemma appendEvent_Inr:
  "appendEvent m s u ul db = Inr (x, db') \<longleftrightarrow>
     (\<forall>e\<in>set (serial_events db). \<not> (se_tenant e = mv_tenant m \<and> se_movement e = mv_id m \<and> se_serial e = sr_id s)) \<and>
     db' = db\<lparr>ticks := Suc (ticks db),
       serials := update_where (\<lambda>r. sr_id r = sr_id s \<and> sr_tenant r = mv_tenant m) (\<lambda>r. r\<lparr>sr_status := u, sr_location := ul\<rparr>) (serials db),
       serial_events := serial_events db @ [event_of m (env_uuid db (ticks db), env_clock db (ticks db)) (sr_id s) (Some (sr_status s)) u (sr_location s) ul]\<rparr>"
  by (auto simp: appendEvent_def runM insertSerialEvent_Inr)

lemma catchM_rethrow_Inr: "(\<And>e s. \<exists>e'. h e s = Inl e') \<Longrightarrow> catchM sel m h s = Inr r \<longleftrightarrow> m s = Inr r"
  unfolding catchM_def by (auto split: sum.splits if_splits) (metis Inl_Inr_False)

lemma registerSerial_Inr:
  "registerSerial m u (v, n) db = Inr (x, db') \<longleftrightarrow>
     (\<forall>s\<in>set (serials db). \<not> (sr_tenant s = mv_tenant m \<and> sr_normalized s = n)) \<and>
     (\<forall>e\<in>set (serial_events db). \<not> (se_tenant e = mv_tenant m \<and> se_movement e = mv_id m \<and> se_serial e = env_uuid db (ticks db))) \<and>
     db' = db\<lparr>ticks := Suc (Suc (ticks db)),
       serials := serials db @ [\<lparr>sr_id = env_uuid db (ticks db), sr_tenant = mv_tenant m, sr_product = mv_product m,
         sr_number = v, sr_normalized = n, sr_status = u, sr_location = Some (mv_location m)\<rparr>],
       serial_events := serial_events db @ [event_of m (env_uuid db (Suc (ticks db)), env_clock db (Suc (ticks db))) (env_uuid db (ticks db)) None u None (Some (mv_location m))]\<rparr>"
  by (auto simp: registerSerial_def runM catchM_rethrow_Inr throwM_def insertSerialEvent_Inr)

lemma mapM_Cons_Inr:
  assumes "mapM body (v # vs) s = Inr (ys, s')"
  obtains y s1 rest where "body v s = Inr (y, s1)" "mapM body vs s1 = Inr (rest, s')" "ys = y # rest"
  using assms by (simp add: bindM_Inr) blast

lemma selectSerials_Inr:
  assumes "selectSerials m ns db = Inr (rows, db')"
  shows "db' = db" "map sr_normalized rows = sort (map normalizeSerial ns)" "distinct (map sr_normalized rows)"
    "\<And>s. s \<in> set rows \<Longrightarrow> s \<in> set (serials db) \<and> sr_tenant s = mv_tenant m \<and> sr_product s = mv_product m"
proof -
  let ?find = "\<lambda>v. bindM (readM (findSerial m v)) (requireM InventorySerialNotFoundError)"
  have loop: "mapM ?find vs db = Inr (rows, db') \<Longrightarrow> db' = db \<and> map sr_normalized rows = vs \<and>
      (\<forall>s\<in>set rows. s \<in> set (serials db) \<and> sr_tenant s = mv_tenant m \<and> sr_product s = mv_product m)" for vs
  proof (induction vs arbitrary: rows)
    case (Cons v vs)
    obtain s s1 rest where run: "?find v db = Inr (s, s1)" "mapM ?find vs s1 = Inr (rest, db')" "rows = s # rest"
      by (rule mapM_Cons_Inr [OF Cons.prems])
    then have s: "findSerial m v db = Some s" "s1 = db" by (simp_all add: bindM_Inr)
    from find_Some_props [OF s(1) [unfolded findSerial_def]] Cons.IH [of rest] run s show ?case by simp
  qed simp
  have "mapM ?find (sort (map normalizeSerial ns)) db = Inr (rows, db')" "distinct (sort (map normalizeSerial ns))"
    using assms by (simp_all add: selectSerials_def Let_def thenM_Inr)
  with loop [OF this(1)]
  show "db' = db" "map sr_normalized rows = sort (map normalizeSerial ns)" "distinct (map sr_normalized rows)"
    "\<And>s. s \<in> set rows \<Longrightarrow> s \<in> set (serials db) \<and> sr_tenant s = mv_tenant m \<and> sr_product s = mv_product m"
    by auto
qed

section \<open>The writes keep the histories\<close>

lemma history_append:
  "history t s (db\<lparr>serial_events := serial_events db @ [e]\<rparr>) =
   history t s db @ (if se_tenant e = t \<and> se_serial e = s then [e] else [])"
  by (simp add: history_def)

lemma serial_inv_ids: "serial_inv db \<Longrightarrow> s \<in> set (serials db) \<Longrightarrow> r \<in> set (serials db) \<Longrightarrow> sr_id r = sr_id s \<Longrightarrow> r = s"
  by (rule distinct_map_key_inj [OF serial_invD(3)])

lemma issued_mono: "ticks db \<le> ticks db' \<Longrightarrow> env_uuid db' = env_uuid db \<Longrightarrow> issued db \<subseteq> issued db'"
  by (auto simp: issued_def)

definition moved :: "serial_row \<Rightarrow> serial_status \<Rightarrow> id option \<Rightarrow> serial_row list \<Rightarrow> serial_row list" where
  "moved s u ul rows = map (\<lambda>r. if r = s then s\<lparr>sr_status := u, sr_location := ul\<rparr> else r) rows"

lemma update_serial_moved:
  assumes "serial_inv db" "s \<in> set (serials db)" "sr_tenant s = t"
  shows "update_where (\<lambda>r. sr_id r = sr_id s \<and> sr_tenant r = t) (\<lambda>r. r\<lparr>sr_status := u, sr_location := ul\<rparr>) (serials db) = moved s u ul (serials db)"
  unfolding update_where_def moved_def
  using serial_inv_ids [OF assms(1,2)] assms(3) by (intro map_cong) auto

lemma moved_keys [simp]:
  "map sr_id (moved s u ul rows) = map sr_id rows" "map serial_key (moved s u ul rows) = map serial_key rows"
  by (auto simp: moved_def)

lemma moved_ids [simp]: "sr_id ` set (moved s u ul rows) = sr_id ` set rows"
  using arg_cong [OF moved_keys(1) [of s u ul rows], of set] by (simp only: set_map)

lemma moved_mem: "r \<in> set (moved s u ul rows) \<Longrightarrow> s \<in> set rows \<Longrightarrow>
   r = s\<lparr>sr_status := u, sr_location := ul\<rparr> \<or> (r \<in> set rows \<and> r \<noteq> s)"
  by (auto simp: moved_def)

lemma moved_other: "r \<in> set rows \<Longrightarrow> r \<noteq> s \<Longrightarrow> r \<in> set (moved s u ul rows)"
  by (force simp: moved_def)

lemma moved_here: "s \<in> set rows \<Longrightarrow> s\<lparr>sr_status := u, sr_location := ul\<rparr> \<in> set (moved s u ul rows)"
  by (force simp: moved_def)

lemma appendEvent_keeps_inv:
  assumes inv: "serial_inv db" and s: "s \<in> set (serials db)" "sr_tenant s = mv_tenant m"
    and step: "serial_step here (Some (place s)) (u, ul)" and run: "appendEvent m s u ul db = Inr (x, db')"
  shows "serial_inv db'" "serials db' = moved s u ul (serials db)"
proof -
  let ?e = "event_of m (env_uuid db (ticks db), env_clock db (ticks db)) (sr_id s) (Some (sr_status s)) u (sr_location s) ul"
  have db': "db' = db\<lparr>ticks := Suc (ticks db), serials := moved s u ul (serials db), serial_events := serial_events db @ [?e]\<rparr>"
    using run update_serial_moved [OF inv s] by (simp add: appendEvent_Inr)
  show ser: "serials db' = moved s u ul (serials db)" by (simp add: db')
  have hist: "history t i db' = history t i db @ (if t = mv_tenant m \<and> i = sr_id s then [?e] else [])" for t i
    by (simp add: db' history_def)
  have replays: "replay None (history (sr_tenant r) (sr_id r) db') = Some (Some (place r))" if "r \<in> set (serials db')" for r
    using moved_mem [OF that [unfolded ser] s(1)]
  proof
    assume r: "r = s\<lparr>sr_status := u, sr_location := ul\<rparr>"
    show ?thesis using serial_invD(6) [OF inv s(1)] s(2) by (simp add: hist r replay_append place_def)
  next
    assume r: "r \<in> set (serials db) \<and> r \<noteq> s"
    then have "sr_id r \<noteq> sr_id s" using serial_inv_ids [OF inv s(1)] by blast
    with r show ?thesis using serial_invD(6) [OF inv] by (simp add: hist)
  qed
  have places: "gone (sr_status r) \<Longrightarrow> sr_location r = None" if "r \<in> set (serials db')" for r
    using moved_mem [OF that [unfolded ser] s(1)] step_gone [OF step] serial_invD(7) [OF inv] by auto
  have steps: "\<exists>here. serial_step here (eventFrom e) (eventTo e)" if "e \<in> set (serial_events db')" for e
    using that serial_invD(8) [OF inv] step by (auto simp: db' place_def)
  have "sr_id ` set (serials db') \<subseteq> issued db'" "se_serial ` set (serial_events db') \<subseteq> sr_id ` set (serials db')"
    using serial_invD(2,5) [OF inv] s(1) issued_mono [of db db'] by (auto simp: db')
  then show "serial_inv db'"
    unfolding serial_inv_def using replays places steps serial_invD(1,3,4) [OF inv] by (simp add: db')
qed

lemma registerSerial_keeps_inv:
  assumes inv: "serial_inv db" and run: "registerSerial m SerialAvailable (v, n) db = Inr (x, db')"
  shows "serial_inv db'"
proof -
  let ?i = "env_uuid db (ticks db)"
  let ?s = "\<lparr>sr_id = ?i, sr_tenant = mv_tenant m, sr_product = mv_product m, sr_number = v, sr_normalized = n,
    sr_status = SerialAvailable, sr_location = Some (mv_location m)\<rparr>"
  let ?e = "event_of m (env_uuid db (Suc (ticks db)), env_clock db (Suc (ticks db))) ?i None SerialAvailable None (Some (mv_location m))"
  have new: "\<forall>s\<in>set (serials db). \<not> (sr_tenant s = mv_tenant m \<and> sr_normalized s = n)"
    and db': "db' = db\<lparr>ticks := Suc (Suc (ticks db)), serials := serials db @ [?s], serial_events := serial_events db @ [?e]\<rparr>"
    using run by (simp_all add: registerSerial_Inr)
  have fresh: "?i \<notin> sr_id ` set (serials db)"
    using serial_invD(2) [OF inv] fresh_not_issued [OF serial_invD(1) [OF inv]] by blast
  have hist: "history t i db' = history t i db @ (if t = mv_tenant m \<and> i = ?i then [?e] else [])" for t i
    by (simp add: db' history_def)
  have none: "history t ?i db = []" for t
    unfolding history_def filter_empty_conv using serial_invD(5) [OF inv] fresh by (metis image_subset_iff)
  have replays: "replay None (history (sr_tenant r) (sr_id r) db') = Some (Some (place r))" if "r \<in> set (serials db')" for r
  proof (cases "r = ?s")
    case True
    then show ?thesis by (simp add: hist none place_def)
  next
    case False
    then have r: "r \<in> set (serials db)" using that by (simp add: db')
    then have "sr_id r \<noteq> ?i" using fresh by (metis image_eqI)
    then show ?thesis using serial_invD(6) [OF inv r] by (simp add: hist)
  qed
  have places: "gone (sr_status r) \<Longrightarrow> sr_location r = None" if "r \<in> set (serials db')" for r
    using that serial_invD(7) [OF inv] by (auto simp: db' gone_def)
  have steps: "\<exists>here. serial_step here (eventFrom e) (eventTo e)" if "e \<in> set (serial_events db')" for e
    using that serial_invD(8) [OF inv] serial_step.register [of "mv_location m"] by (auto simp: db')
  have "sr_id ` set (serials db') \<subseteq> issued db'" "se_serial ` set (serial_events db') \<subseteq> sr_id ` set (serials db')"
    using serial_invD(2,5) [OF inv] issued_mono [of db db'] by (auto simp: db' issued_def)
  moreover have "distinct (map sr_id (serials db'))" "distinct (map serial_key (serials db'))"
    using serial_invD(3,4) [OF inv] fresh new by (auto simp: db')
  ultimately show "serial_inv db'"
    unfolding serial_inv_def using replays places steps serial_invD(1) [OF inv] by (simp add: db')
qed

section \<open>Moving and registering\<close>

lemma serialTarget_Inr:
  assumes "serialTarget m d db = Inr ((allowed, to, ul), db')"
  shows "db' = db"
  using assms by (cases "mv_type m") (auto simp: serialTarget_def Let_def bindM_Inr)

lemma serialTarget_step:
  assumes run: "serialTarget m d db = Inr ((allowed, Some u, ul), db')"
    and ok: "sr_status s \<in> set allowed" "sr_location s = Some (mv_location m) \<or> mv_type m \<in> {SALE_VOID, SALE_RETURN}"
  shows "serial_step (mv_location m) (Some (place s)) (u, ul)"
  using assms
  by (cases "mv_type m"; cases "mv_to m")
    (auto simp: serialTarget_def Let_def bindM_Inr place_def intro: serial_step.intros split: if_splits option.splits)

lemma moveSerial_Inr:
  assumes "moveSerial m d s db = Inr (x, db')"
  obtains allowed u ul where "serialTarget m d db = Inr ((allowed, Some u, ul), db)" "sr_status s \<in> set allowed"
    "sr_location s = Some (mv_location m) \<or> mv_type m \<in> {SALE_VOID, SALE_RETURN}"
    "appendEvent m s u ul db = Inr (x, db')"
  using assms serialTarget_Inr unfolding moveSerial_def runM by (fastforce simp: runM split: prod.splits)

definition eventsOf :: "movement_row \<Rightarrow> inv_db \<Rightarrow> serial_event list" where
  "eventsOf m db = filter (\<lambda>e. se_tenant e = mv_tenant m \<and> se_movement e = mv_id m) (serial_events db)"

text \<open>The number of units of a movement, in thousandths.\<close>

definition trackedUnits :: "movement_row \<Rightarrow> int" where
  "trackedUnits m = (case mv_state_quantity m of Some q \<Rightarrow> if 0 < q then q else \<bar>mv_quantity m\<bar> | None \<Rightarrow> \<bar>mv_quantity m\<bar>)"

lemma serialCount_Inr: "serialCount m = Inr (quantity, count) \<Longrightarrow> 1000 * count = trackedUnits m \<and> 1000 * quantity = mv_quantity m"
  by (auto simp: serialCount_def bindE_Inr serialUnits_def trackedUnits_def split: option.splits if_splits)

text \<open>What a movement does to one serial it names.\<close>

definition movedTo :: "movement_row \<Rightarrow> id option \<Rightarrow> inv_db \<Rightarrow> inv_db \<Rightarrow> serial_row \<Rightarrow> bool" where
  "movedTo m d db db' s \<longleftrightarrow> (\<exists>allowed u ul. serialTarget m d db = Inr ((allowed, Some u, ul), db) \<and> sr_status s \<in> set allowed \<and>
     (sr_location s = Some (mv_location m) \<or> mv_type m \<in> {SALE_VOID, SALE_RETURN}) \<and>
     s\<lparr>sr_status := u, sr_location := ul\<rparr> \<in> set (serials db'))"

lemma serialTarget_cong:
  "sale_return_lines db1 = sale_return_lines db \<Longrightarrow>
   serialTarget m d db1 = Inr (r, db1) \<longleftrightarrow> serialTarget m d db = Inr (r, db)"
  by (cases "mv_type m") (auto simp: serialTarget_def Let_def bindM_Inr)

lemma moveSerial_keeps:
  assumes inv: "serial_inv db" and s: "s \<in> set (serials db)" "sr_tenant s = mv_tenant m"
    and run: "moveSerial m d s db = Inr (x, db')"
  shows "serial_inv db'" "length (eventsOf m db') = Suc (length (eventsOf m db))" "movedTo m d db db' s"
    "\<And>r. r \<in> set (serials db) \<Longrightarrow> r \<noteq> s \<Longrightarrow> r \<in> set (serials db')"
    "sale_return_lines db' = sale_return_lines db"
proof -
  obtain allowed u ul where T: "serialTarget m d db = Inr ((allowed, Some u, ul), db)" "sr_status s \<in> set allowed"
    "sr_location s = Some (mv_location m) \<or> mv_type m \<in> {SALE_VOID, SALE_RETURN}" "appendEvent m s u ul db = Inr (x, db')"
    by (rule moveSerial_Inr [OF run])
  note A = appendEvent_keeps_inv [OF inv s serialTarget_step [OF T(1-3)] T(4)]
  show "serial_inv db'" by (rule A(1))
  show "length (eventsOf m db') = Suc (length (eventsOf m db))" "sale_return_lines db' = sale_return_lines db"
    using T(4) by (simp_all add: appendEvent_Inr eventsOf_def)
  show "r \<in> set (serials db')" if "r \<in> set (serials db)" "r \<noteq> s" for r
    unfolding A(2) using that by (rule moved_other)
  show "movedTo m d db db' s"
    unfolding movedTo_def using T(1-3) moved_here [OF s(1)] A(2) by metis
qed

lemma moveSerials_keeps:
  assumes "serial_inv db" "distinct (map sr_id rows)" "\<And>s. s \<in> set rows \<Longrightarrow> s \<in> set (serials db) \<and> sr_tenant s = mv_tenant m"
    "forM (moveSerial m d) rows db = Inr (x, db')"
  shows "serial_inv db' \<and> length (eventsOf m db') = length (eventsOf m db) + length rows \<and>
    (\<forall>r\<in>set (serials db). sr_id r \<notin> sr_id ` set rows \<longrightarrow> r \<in> set (serials db')) \<and> (\<forall>s\<in>set rows. movedTo m d db db' s)"
  using assms
proof (induction rows arbitrary: db)
  case (Cons s rows)
  obtain y db1 where run: "moveSerial m d s db = Inr (y, db1)" "forM (moveSerial m d) rows db1 = Inr (x, db')"
    using Cons.prems(4) by (auto simp: thenM_Inr)
  have s: "s \<in> set (serials db)" "sr_tenant s = mv_tenant m" using Cons.prems(3) by auto
  note M = moveSerial_keeps [OF Cons.prems(1) s run(1)]
  have ns: "sr_id s \<notin> sr_id ` set rows" "distinct (map sr_id rows)" using Cons.prems(2) by auto
  have "\<And>r. r \<in> set rows \<Longrightarrow> r \<in> set (serials db1) \<and> sr_tenant r = mv_tenant m"
    using ns Cons.prems(3) M(4) by (metis image_eqI list.set_intros(2))
  note IH = Cons.IH [OF M(1) ns(2) this run(2)]
  from M(3) have here: "movedTo m d db db' s"
    unfolding movedTo_def using IH ns(1) by fastforce
  have there: "movedTo m d db db' r" if "r \<in> set rows" for r
    using IH that serialTarget_cong [OF M(5)] unfolding movedTo_def by meson
  have others: "r \<in> set (serials db')" if "r \<in> set (serials db)" "sr_id r \<noteq> sr_id s" "sr_id r \<notin> sr_id ` set rows" for r
    using IH M(4) [OF that(1)] that(2,3) by blast
  show ?case using IH M(2) here there others by auto
qed auto

lemma registerSerials_loop:
  assumes "serial_inv db" "forM (registerSerial m SerialAvailable) vs db = Inr (x, db')"
  shows "serial_inv db' \<and> length (eventsOf m db') = length (eventsOf m db) + length vs \<and>
    set (serials db) \<subseteq> set (serials db')"
  using assms
proof (induction vs arbitrary: db)
  case (Cons v vs)
  obtain a b where v: "v = (a, b)" by (cases v)
  obtain y db1 where run: "registerSerial m SerialAvailable (a, b) db = Inr (y, db1)"
    "forM (registerSerial m SerialAvailable) vs db1 = Inr (x, db')"
    using Cons.prems(2) by (auto simp: thenM_Inr v)
  have "length (eventsOf m db1) = Suc (length (eventsOf m db))" "set (serials db) \<subseteq> set (serials db1)"
    using run(1) by (auto simp: registerSerial_Inr eventsOf_def)
  with Cons.IH [OF registerSerial_keeps_inv [OF Cons.prems(1) run(1)] run(2)] show ?case by auto
qed auto

section \<open>The whole handler\<close>

text \<open>The numbers of a request are trimmed once when they are read and once more when they are looked up.\<close>

lemma last_dropWhile: "dropWhile P xs \<noteq> [] \<Longrightarrow> last (dropWhile P xs) = last xs"
  by (induction xs) (auto split: if_splits)

lemma trim_trim [simp]: "trim (trim s) = trim s"
proof -
  define d where "d = dropWhile is_blank s"
  define e where "e = dropWhile is_blank (rev d)"
  have t: "trim s = rev e" by (simp add: trim_def d_def e_def)
  show ?thesis
  proof (cases "e = []")
    case False
    then have "d \<noteq> []" by (auto simp: e_def)
    then have "\<not> is_blank (hd d)" unfolding d_def by (rule hd_dropWhile)
    moreover have "last e = hd d"
      using False \<open>d \<noteq> []\<close> unfolding e_def by (simp add: last_dropWhile last_rev)
    moreover have "\<not> is_blank (hd e)" using False unfolding e_def by (rule hd_dropWhile)
    ultimately show ?thesis using False by (simp add: t trim_id hd_rev last_rev)
  next
    case True
    then show ?thesis unfolding t by (simp add: trim_def)
  qed
qed

lemma normalizeSerial_trim [simp]: "normalizeSerial (trim s) = normalizeSerial s"
  by (simp add: normalizeSerial_def)

definition requestedNumbers :: "movement_row \<Rightarrow> serial_options \<Rightarrow> inv_db \<Rightarrow> string list" where
  "requestedNumbers m opts db = map normalizeSerial (case serialNumbersFor m opts db of None \<Rightarrow> [] | Some vs \<Rightarrow> vs)"

lemma requestedSerials_Inr:
  assumes "requestedSerials values count = Inr rs"
  shows "int (length rs) = count" "distinct (map snd rs)" "map snd rs = map normalizeSerial (case values of None \<Rightarrow> [] | Some vs \<Rightarrow> vs)"
    "map normalizeSerial (map fst rs) = map snd rs"
  using assms by (auto simp: requestedSerials_def Let_def comp_def split: if_splits)

lemma trackSerials_Inr:
  assumes "trackSerials m opts db = Inr (x, db')"
  obtains (registered) quantity count vs where "serialCount m = Inr (quantity, count)" "0 < quantity"
      "mv_type m \<in> {INITIAL, ENTRY, PURCHASE_RECEIPT, IMPORT, ADJUSTMENT}" "int (length vs) = count"
      "forM (registerSerial m SerialAvailable) vs db = Inr (x, db')"
  | (took) quantity count rows where "serialCount m = Inr (quantity, count)"
      "\<not> (0 < quantity \<and> mv_type m \<in> {INITIAL, ENTRY, PURCHASE_RECEIPT, IMPORT, ADJUSTMENT})" "int (length rows) = count"
      "distinct (map sr_normalized rows)" "\<And>s. s \<in> set rows \<Longrightarrow> s \<in> set (serials db) \<and> sr_tenant s = mv_tenant m \<and> sr_product s = mv_product m"
      "forM (moveSerial m (so_destination opts)) rows db = Inr (x, db')"
      "map sr_normalized rows = sort (requestedNumbers m opts db)"
proof -
  obtain quantity count rs where C: "serialCount m = Inr (quantity, count)" "requestedSerials (serialNumbersFor m opts db) count = Inr rs"
    and rest: "(if 0 < quantity \<and> mv_type m \<in> {INITIAL, ENTRY, PURCHASE_RECEIPT, IMPORT, ADJUSTMENT}
       then registerSerials m (map fst rs) SerialAvailable
       else bindM (selectSerials m (map fst rs)) (forM (moveSerial m (so_destination opts)))) db = Inr (x, db')"
    using assms unfolding trackSerials_def bindM_Inr by (auto simp: bindM_Inr)
  note R = requestedSerials_Inr [OF C(2)]
  show ?thesis
  proof (cases "0 < quantity \<and> mv_type m \<in> {INITIAL, ENTRY, PURCHASE_RECEIPT, IMPORT, ADJUSTMENT}")
    case True
    with rest obtain vs where vs: "requestedSerials (Some (map fst rs)) (int (length (map fst rs))) = Inr vs"
      "forM (registerSerial m SerialAvailable) vs db = Inr (x, db')"
      by (auto simp: registerSerials_def bindM_Inr)
    then have "int (length vs) = count" using requestedSerials_Inr(1) [OF vs(1)] R(1) by simp
    with C(1) True vs(2) show ?thesis using registered by blast
  next
    case False
    then obtain rows db1 where S: "selectSerials m (map fst rs) db = Inr (rows, db1)" "forM (moveSerial m (so_destination opts)) rows db1 = Inr (x, db')"
      using rest by (auto simp: bindM_Inr)
    note sel = selectSerials_Inr [OF S(1)]
    have "length rows = length rs" using arg_cong [OF sel(2), of length] by simp
    have "map sr_normalized rows = sort (requestedNumbers m opts db)"
      unfolding sel(2) R(4) R(3) requestedNumbers_def ..
    then show ?thesis using R(1) S(2) sel(1) \<open>length rows = length rs\<close> by (intro took [OF C(1) False _ sel(3,4)]) simp_all
  qed
qed

lemma applySerial_run:
  assumes "applyInventorySerialTracking mid opts db = Inr (x, db')"
  obtains (skipped) "db' = db"
  | (ran) m p where "selectMovement mid db = Some m" "selectProduct (mv_tenant m) (mv_product m) db = Some p" "pr_track_serials p"
      "eventsOf m db = []" "mv_type m \<noteq> TRANSFER_IN" "trackSerials m opts db = Inr (x, db')"
proof (cases "Option.bind (selectMovement mid db) (\<lambda>m. map_option (Pair m) (selectProduct (mv_tenant m) (mv_product m) db))")
  case None
  then show ?thesis using assms skipped by (simp add: applyInventorySerialTracking_def bindM_Inr)
next
  case (Some mp)
  then obtain m p where mp: "selectMovement mid db = Some m" "selectProduct (mv_tenant m) (mv_product m) db = Some p" "mp = (m, p)"
    by (auto simp: bind_eq_Some_conv)
  show ?thesis
    using assms Some mp skipped ran
    by (cases "pr_track_serials p"; cases "eventsOf m db = []"; cases "mv_type m = TRANSFER_IN")
      (simp_all add: applyInventorySerialTracking_def bindM_Inr eventsOf_def)
qed

lemma rows_distinct_ids:
  assumes "serial_inv db" "distinct (map sr_normalized rows)" "\<And>s. s \<in> set rows \<Longrightarrow> s \<in> set (serials db)"
  shows "distinct (map sr_id rows)"
proof -
  have "inj_on sr_id (set (serials db))" using serial_invD(3) [OF assms(1)] by (simp add: distinct_map)
  then have "inj_on sr_id (set rows)" using assms(3) by (meson inj_on_subset subsetI)
  then show ?thesis using assms(2) by (simp add: distinct_map)
qed

section \<open>Frames\<close>

text \<open>Serial tracking writes only the two serial tables.\<close>

lemma keeps_appendEvent:
  assumes "\<And>db n. f (db\<lparr>ticks := n\<rparr>) = f db" "\<And>db r. f (db\<lparr>serials := r\<rparr>) = f db" "\<And>db r. f (db\<lparr>serial_events := r\<rparr>) = f db"
  shows "keeps f (insertSerialEvent m s a b c d)" "keeps f (appendEvent m r b d)"
  unfolding appendEvent_def insertSerialEvent_def newRow_def
  by (auto intro!: keepsI simp: bindM_Inr thenM_Inr assms)

lemma keeps_applySerial:
  assumes f: "\<And>db n. f (db\<lparr>ticks := n\<rparr>) = f db" "\<And>db r. f (db\<lparr>serials := r\<rparr>) = f db" "\<And>db r. f (db\<lparr>serial_events := r\<rparr>) = f db"
  shows "keeps f (applyInventorySerialTracking mid options)"
proof -
  note k [intro] = keeps_appendEvent [where f = f, OF f]
  have target: "keeps f (serialTarget m d)" for m d
    by (rule keepsI) (auto dest: serialTarget_Inr)
  have move: "keeps f (moveSerial m d s)" for m d s
    unfolding moveSerial_def by (intro keeps_intros k target)
  have reg: "keeps f (registerSerial m u v)" for m u v
    unfolding registerSerial_def by (intro keeps_intros k keeps_newRow f)
  have sel: "keeps f (selectSerials m ns)" for m ns
    by (rule keepsI) (drule selectSerials_Inr(1), simp)
  show ?thesis
    unfolding applyInventorySerialTracking_def trackSerials_def registerSerials_def
    by (intro keeps_intros move reg sel)
qed

lemma applySerial_inv: "preserves serial_inv (applyInventorySerialTracking mid options)"
proof (rule preservesI)
  fix db x db'
  assume inv: "serial_inv db" and "applyInventorySerialTracking mid options db = Inr (x, db')"
  from this(2) show "serial_inv db'"
  proof (cases rule: applySerial_run)
    case skipped
    with inv show ?thesis by simp
  next
    case (ran m p)
    from ran(6) show ?thesis
    proof (cases rule: trackSerials_Inr)
      case (registered quantity count vs)
      then show ?thesis using registerSerials_loop [OF inv] by blast
    next
      case (took quantity count rows)
      then show ?thesis using moveSerials_keeps [OF inv rows_distinct_ids [OF inv]] by blast
    qed
  qed
qed

end
