(* ===== verification/SerialTheorems.thy ===== *)
theory SerialTheorems
  imports SerialLaws Fixtures
begin

text \<open>
  The properties of serial tracking, with witnesses on a concrete database: a serial-tracked
  product with the serials A, at location 3, and B, sold, and a sale of one unit.
\<close>

section \<open>A concrete case\<close>

definition serialSale :: movement_row where
  "serialSale = blankMovement\<lparr>mv_type := SALE, mv_quantity := -1000\<rparr>"

definition serialReturn :: movement_row where
  "serialReturn = blankMovement\<lparr>mv_id := 51, mv_type := RETURN, mv_quantity := 1000\<rparr>"

definition serialEvent :: serial_event where
  "serialEvent = \<lparr>se_id = 61, se_tenant = 1, se_serial = 60, se_movement = 40, se_from = None,
     se_to = SerialAvailable, se_from_location = None, se_to_location = Some 3, se_created_at = 1\<rparr>"

definition serialDb :: inv_db where
  "serialDb = sampleDb\<lparr>ticks := 5, movements := [serialSale, serialReturn], products := [sampleProduct\<lparr>pr_track_serials := True\<rparr>],
     serials := [\<lparr>sr_id = 60, sr_tenant = 1, sr_product = 7, sr_number = ''a'', sr_normalized = ''A'', sr_status = SerialAvailable, sr_location = Some 3\<rparr>,
                 \<lparr>sr_id = 62, sr_tenant = 1, sr_product = 7, sr_number = ''b'', sr_normalized = ''B'', sr_status = SerialSold, sr_location = None\<rparr>],
     serial_events := [serialEvent, serialEvent\<lparr>se_id := 63, se_serial := 62, se_created_at := 3\<rparr>,
       serialEvent\<lparr>se_id := 64, se_serial := 62, se_created_at := 4, se_movement := 41, se_from := Some SerialAvailable, se_from_location := Some 3,
         se_to := SerialSold, se_to_location := None\<rparr>]\<rparr>"

definition sellA :: serial_options where
  "sellA = \<lparr>so_serials = Some ['' a''], so_destination = None\<rparr>"

lemmas serialDb_simps = serialDb_def serialSale_def serialReturn_def serialEvent_def sampleDb_def blankMovement_def sampleProduct_def

lemma serialDb_inv: "serial_inv serialDb"
  by (auto simp: serial_inv_def serialDb_simps issued_def lessThan_nat_numeral lessThan_Suc inj_def history_def gone_def place_def
      eventFrom_def eventTo_def serial_step_simps)

lemma serialDb_runs: "case applyInventorySerialTracking 50 sellA serialDb of Inl _ \<Rightarrow> False | Inr (u, db') \<Rightarrow>
   map place (serials db') = [(SerialSold, None), (SerialSold, None)]"
  by code_simp

lemma serialDb_run: obtains db' where "applyInventorySerialTracking 50 sellA serialDb = Inr ((), db')"
  using serialDb_runs by (auto split: sum.splits)

section \<open>Properties\<close>

text \<open>C17: Serials are event-sourced: applying any movement keeps the invariant that serial ids and
  (tenant, normalised number) pairs are unique, that replaying the events of a serial yields its
  current status and location, that each event is a step of the serial state machine, and that a
  serial that is sold, removed or returned to its supplier is at no location.\<close>

theorem applyInventorySerialTracking_event_sourced: "preserves serial_inv (applyInventorySerialTracking mid options)"
  by (rule applySerial_inv)

text \<open>One serial per unit: the first application to a movement of a serial-tracked product
  records exactly as many events as the movement has units (the state quantity where it has one,
  the magnitude of the change otherwise), and fractional units are rejected; a second application
  changes nothing.\<close>

theorem applyInventorySerialTracking_one_per_unit:
  assumes inv: "serial_inv db" and run: "applyInventorySerialTracking mid options db = Inr (x, db')"
    and m: "selectMovement mid db = Some m" "selectProduct (mv_tenant m) (mv_product m) db = Some p" "pr_track_serials p"
      "eventsOf m db = []" "mv_type m \<noteq> TRANSFER_IN"
  shows "1000 * int (length (eventsOf m db')) = trackedUnits m \<and>
    (eventsOf m db' \<noteq> [] \<longrightarrow> applyInventorySerialTracking mid options' db' = Inr ((), db'))"
proof -
  have t: "trackSerials m options db = Inr (x, db')"
    using run by (cases rule: applySerial_run) (use m run in \<open>auto simp: applyInventorySerialTracking_def bindM_Inr eventsOf_def\<close>)
  obtain quantity count where c: "serialCount m = Inr (quantity, count)" "int (length (eventsOf m db')) = count"
    using t
  proof (cases rule: trackSerials_Inr)
    case (registered quantity count vs)
    then show ?thesis using registerSerials_loop [OF inv registered(5)] m(4) that by simp
  next
    case (took quantity count rows)
    then show ?thesis using moveSerials_keeps [OF inv rows_distinct_ids [OF inv]] m(4) that by fastforce
  qed
  have "1000 * count = trackedUnits m"
    using serialCount_Inr [OF c(1)] by simp
  moreover have "movements db' = movements db" "products db' = products db"
    by (rule keepsD [OF keeps_applySerial run]; simp)+
  ultimately show ?thesis
    using c(2) m by (auto simp: applyInventorySerialTracking_def evalM eventsOf_def selectMovement_def selectProduct_def)
qed

theorem applyInventorySerialTracking_one_per_unit_witness:
  "case applyInventorySerialTracking 50 sellA serialDb of Inl _ \<Rightarrow> False
   | Inr (u, db') \<Rightarrow> length (eventsOf serialSale db') = 1 \<and> applyInventorySerialTracking 50 noSerialOptions db' = Inr ((), db')"
proof -
  obtain db' where run: "applyInventorySerialTracking 50 sellA serialDb = Inr ((), db')" by (rule serialDb_run)
  have "1000 * int (length (eventsOf serialSale db')) = 1000 \<and>
    (eventsOf serialSale db' \<noteq> [] \<longrightarrow> applyInventorySerialTracking 50 noSerialOptions db' = Inr ((), db'))"
    using applyInventorySerialTracking_one_per_unit [OF serialDb_inv run, of serialSale "sampleProduct\<lparr>pr_track_serials := True\<rparr>" noSerialOptions]
    by (simp add: serialDb_simps selectMovement_def selectProduct_def eventsOf_def trackedUnits_def)
  then show ?thesis using run by auto
qed

text \<open>C39: What a movement does to the serials: a movement that does not register new serials takes
  exactly the serials of its product with the numbers it names (the ones of the request, or of the
  sale or transfer line it settles), one per unit, each from an allowed status, at the movement's
  location (except for the returns of a sale), to the status and location its type requires, and
  leaves every other serial of the database as it was; a serial returned to its supplier is never
  named successfully again.\<close>

theorem trackSerials_moves:
  assumes inv: "serial_inv db" and run: "trackSerials m options db = Inr (x, db')"
    and kind: "\<not> (0 < mv_quantity m \<and> mv_type m \<in> {INITIAL, ENTRY, PURCHASE_RECEIPT, IMPORT, ADJUSTMENT})"
  shows "\<exists>rows. 1000 * int (length rows) = trackedUnits m \<and>
    map sr_normalized rows = sort (map normalizeSerial (case serialNumbersFor m options db of None \<Rightarrow> [] | Some numbers \<Rightarrow> numbers)) \<and>
    set rows \<subseteq> set (serials db) \<and> distinct (map sr_id rows) \<and>
    (\<forall>s\<in>set rows. movedTo m (so_destination options) db db' s \<and> sr_status s \<noteq> SerialReturnedToSupplier \<and>
       sr_tenant s = mv_tenant m \<and> sr_product s = mv_product m) \<and>
    (\<forall>s\<in>set (serials db). s \<notin> set rows \<longrightarrow> s \<in> set (serials db'))"
  using run
proof (cases rule: trackSerials_Inr)
  case (registered quantity count vs)
  then show ?thesis using kind serialCount_Inr [OF registered(1)] by simp
next
  case (took quantity count rows)
  have ids: "distinct (map sr_id rows)" using rows_distinct_ids [OF inv took(4)] took(5) by blast
  have rows: "s \<in> set (serials db) \<and> sr_tenant s = mv_tenant m" if "s \<in> set rows" for s
    using took(5) [OF that] by blast
  note M = moveSerials_keeps [OF inv ids rows took(6)]
  have "sr_status s \<noteq> SerialReturnedToSupplier" if s: "movedTo m (so_destination options) db db' s" for s
  proof
    assume "sr_status s = SerialReturnedToSupplier"
    moreover obtain allowed u ul where "serial_step (mv_location m) (Some (place s)) (u, ul)"
      using s serialTarget_step unfolding movedTo_def by blast
    ultimately show False using step_terminal by (simp add: place_def)
  qed
  moreover have "s \<in> set (serials db')" if s: "s \<in> set (serials db)" "s \<notin> set rows" for s
  proof -
    have "sr_id s \<notin> sr_id ` set rows" using serial_inv_ids [OF inv _ s(1)] rows s(2) by force
    with M s(1) show ?thesis by blast
  qed
  moreover have "1000 * count = trackedUnits m"
    using serialCount_Inr [OF took(1)] by simp
  ultimately show ?thesis
    using M took(3,5) took(7) [unfolded requestedNumbers_def] ids by (intro exI [where x = rows] conjI ballI subsetI) simp_all
qed

text \<open>A manual return of a serial-tracked product cannot succeed: RETURN accepts only sold or
  removed serials, but those have no location, and the location check exempts only the returns of
  a sale, so the first application of any such movement fails.\<close>

theorem applyInventorySerialTracking_return_fails:
  assumes inv: "serial_inv db"
    and m: "selectMovement mid db = Some m" "selectProduct (mv_tenant m) (mv_product m) db = Some p" "pr_track_serials p"
      "eventsOf m db = []" "mv_type m = RETURN" "movement_check m"
  shows "\<exists>e. applyInventorySerialTracking mid options db = Inl e"
proof (rule ccontr)
  assume "\<not> ?thesis"
  then obtain x db' where run: "applyInventorySerialTracking mid options db = Inr (x, db')"
    by (metis surj_pair sum.exhaust)
  have q: "mv_quantity m \<noteq> 0" "mv_state_quantity m = None" using m(5,6) by (simp_all add: movement_check_def)
  have t: "trackSerials m options db = Inr (x, db')"
    using run by (cases rule: applySerial_run) (use m run in \<open>auto simp: applyInventorySerialTracking_def bindM_Inr eventsOf_def\<close>)
  then obtain count rows quantity where R: "serialCount m = Inr (quantity, count)" "int (length rows) = count"
    "distinct (map sr_normalized rows)" "\<And>s. s \<in> set rows \<Longrightarrow> s \<in> set (serials db) \<and> sr_tenant s = mv_tenant m \<and> sr_product s = mv_product m"
    "forM (moveSerial m (so_destination options)) rows db = Inr (x, db')"
    by (cases rule: trackSerials_Inr) (use m(5) in auto)
  have "1000 * count = \<bar>mv_quantity m\<bar>"
    using serialCount_Inr [OF R(1)] q(2) by (simp add: trackedUnits_def)
  then obtain s rest where rows: "rows = s # rest" using R(2) q(1) by (cases rows) auto
  then have s: "s \<in> set (serials db)" "movedTo m (so_destination options) db db' s"
    using moveSerials_keeps [OF inv rows_distinct_ids [OF inv R(3)] _ R(5)] R(4) by auto
  then have "sr_status s \<in> {SerialSold, SerialRemoved}" "sr_location s = Some (mv_location m)"
    using m(5) by (auto simp: movedTo_def serialTarget_def)
  then show False using serial_invD(7) [OF inv s(1)] by (auto simp: gone_def)
qed

theorem applyInventorySerialTracking_return_fails_witness:
  "\<exists>e. applyInventorySerialTracking 51 \<lparr>so_serials = Some [''b''], so_destination = None\<rparr> serialDb = Inl e"
  by (rule applyInventorySerialTracking_return_fails [OF serialDb_inv, where m = serialReturn and p = "sampleProduct\<lparr>pr_track_serials := True\<rparr>"])
    (simp_all add: serialDb_simps selectMovement_def selectProduct_def eventsOf_def movement_check_def)

lemma serialDb_tracks: "case trackSerials serialSale sellA serialDb of Inl _ \<Rightarrow> False | Inr _ \<Rightarrow> True"
  by code_simp

theorem trackSerials_moves_witness:
  "case trackSerials serialSale sellA serialDb of Inl _ \<Rightarrow> False
   | Inr (u, db') \<Rightarrow> movedTo serialSale None serialDb db' (hd (serials serialDb)) \<and> last (serials serialDb) \<in> set (serials db')"
proof -
  obtain x db' where run: "trackSerials serialSale sellA serialDb = Inr (x, db')"
    using serialDb_tracks by (auto split: sum.splits)
  have numbers: "serialNumbersFor serialSale sellA serialDb = Some ['' a'']" "normalizeSerial '' a'' = ''A''"
    "so_destination sellA = None" "trackedUnits serialSale = 1000" by code_simp+
  have "\<not> (0 < mv_quantity serialSale \<and> mv_type serialSale \<in> {INITIAL, ENTRY, PURCHASE_RECEIPT, IMPORT, ADJUSTMENT})"
    by (simp add: serialDb_simps)
  from trackSerials_moves [OF serialDb_inv run this, unfolded numbers option.case]
  obtain rows where "map sr_normalized rows = sort (map normalizeSerial ['' a''])" and rows: "set rows \<subseteq> set (serials serialDb)"
    "\<forall>s\<in>set rows. movedTo serialSale None serialDb db' s"
    "\<forall>s\<in>set (serials serialDb). s \<notin> set rows \<longrightarrow> s \<in> set (serials db')"
    by blast
  then obtain s where s: "rows = [s]" "sr_normalized s = ''A''" by (auto simp: numbers map_eq_Cons_conv)
  have both: "set (serials serialDb) = {hd (serials serialDb), last (serials serialDb)}"
    "sr_normalized (hd (serials serialDb)) = ''A''" "sr_normalized (last (serials serialDb)) = ''B''"
    by (simp_all add: serialDb_simps)
  have "s = hd (serials serialDb)" using rows(1) s both by auto
  moreover have "last (serials serialDb) \<notin> set rows" using s both(3) by auto
  ultimately show ?thesis using rows(2,3) both(1) s(1) run by simp
qed

end
