(* ===== verification/Ledger.thy ===== *)
theory Ledger
  imports LotLaws SerialLaws
begin

text \<open>
  The stock ledger: the balances per product and location, and the posting of a movement, which
  every handler that changes stock performs in the same order (after \<open>INSERT INTO
  inventory_movements\<close>): valuation, lots, serials. The handlers of
  \<open>src/inventory/inventory.repository.ts\<close>, \<open>src/inventory/inventory-transfer.repository.ts\<close> and
  \<open>src/reservations/product-reservation.repository.ts\<close> (theories \<open>StockCommands\<close>,
  \<open>Transfers\<close>, \<open>Reservations\<close>) are written with these operations.

  The second half states the ledger invariant \<open>stock_inv\<close> and that posting keeps it.
\<close>

section \<open>Balances\<close>

abbreviation balance_key :: "balance_row \<Rightarrow> id \<times> id \<times> id" where
  "balance_key b \<equiv> (ba_tenant b, ba_product b, ba_location b)"

abbreviation movement_key :: "movement_row \<Rightarrow> id \<times> id \<times> id" where
  "movement_key m \<equiv> (mv_tenant m, mv_product m, mv_location m)"

definition emptyBalance :: "id \<times> id \<times> id \<Rightarrow> balance_row" where
  "emptyBalance k = \<lparr>ba_tenant = fst k, ba_product = fst (snd k), ba_location = snd (snd k),
     ba_quantity = 0, ba_available = 0, ba_reserved = 0, ba_damaged = 0, ba_in_transit = 0\<rparr>"

definition selectBalance :: "id \<times> id \<times> id \<Rightarrow> inv_db \<Rightarrow> balance_row option" where
  "selectBalance k db = List.find (\<lambda>b. balance_key b = k) (balances db)"

text \<open>\<open>INSERT ... ON DUPLICATE KEY UPDATE quantity = quantity\<close>\<close>

definition ensureBalance :: "id \<times> id \<times> id \<Rightarrow> unit act" where
  "ensureBalance k =
     writeM (\<lambda>db. if selectBalance k db \<noteq> None then db else db\<lparr>balances := balances db @ [emptyBalance k]\<rparr>)"

text \<open>\<open>SELECT ... FOR UPDATE\<close> of a balance that the statement before it has created.\<close>

definition lockBalance :: "id \<times> id \<times> id \<Rightarrow> balance_row act" where
  "lockBalance k = bindM (readM (selectBalance k)) (requireM (Failure ''BALANCE_NOT_FOUND''))"

text \<open>\<open>UPDATE inventory_balances ... WHERE\<close> the key, with the \<open>CHECK\<close>s of the table.\<close>

definition updateBalance :: "id \<times> id \<times> id \<Rightarrow> (balance_row \<Rightarrow> balance_row) \<Rightarrow> unit act" where
  "updateBalance k u =
     bindM (readM balances) (\<lambda>rows.
     thenM (ensureM CheckViolated (\<forall>b\<in>set rows. balance_key b = k \<longrightarrow> balance_check (u b)))
       (writeM (\<lambda>db. db\<lparr>balances := update_where (\<lambda>b. balance_key b = k) u (balances db)\<rparr>)))"

section \<open>Posting a movement\<close>

text \<open>The columns that an \<open>INSERT\<close> does not name are null or have their defaults.\<close>

definition movementRow :: "id \<Rightarrow> nat \<Rightarrow> id \<times> id \<times> id \<Rightarrow> movement_type \<Rightarrow> int \<Rightarrow> int \<Rightarrow> movement_row" where
  "movementRow i now k kind q r =
     \<lparr>mv_id = i, mv_tenant = fst k, mv_product = fst (snd k), mv_location = snd (snd k), mv_type = kind,
      mv_quantity = q, mv_resulting = r, mv_from = None, mv_to = None, mv_state_quantity = None, mv_reason = [],
      mv_reference = None, mv_key = [], mv_fingerprint = [], mv_user = 0, mv_created_at = now,
      mv_receipt_line = None, mv_return_line = None, mv_sale = None, mv_sale_line = None,
      mv_sale_return_line = None, mv_source_movement = None, mv_transfer = None, mv_transfer_line = None,
      mv_reservation = None, mv_reservation_line = None, mv_unit_cost = None, mv_value_change = None, mv_inventory_value = None,
      mv_average_cost = None, mv_fifo_unit_cost = None, mv_fifo_value_change = None,
      mv_fifo_inventory_value = None, mv_method = Some MOVING_AVERAGE, mv_policy_version = Some 1, mv_effective_at = None\<rparr>"

definition postMovement :: "movement_row \<Rightarrow> lot_options \<Rightarrow> serial_options \<Rightarrow> unit act" where
  "postMovement m lotOptions serialOptions =
     thenM (insertMovement m)
     (thenM (applyInventoryValuation (mv_id m))
     (thenM (applyInventoryLotTracking (mv_id m) lotOptions)
       (applyInventorySerialTracking (mv_id m) serialOptions)))"

section \<open>What posting leaves alone\<close>

text \<open>A movement without the columns that valuation fills in.\<close>

definition movementCore :: "movement_row \<Rightarrow> movement_row" where
  "movementCore m = m\<lparr>mv_unit_cost := None, mv_value_change := None, mv_inventory_value := None, mv_average_cost := None,
     mv_fifo_unit_cost := None, mv_fifo_value_change := None, mv_fifo_inventory_value := None, mv_method := None,
     mv_policy_version := None, mv_effective_at := None\<rparr>"

text \<open>A product without its catalog cost and version.\<close>

definition productCore :: "product_row \<Rightarrow> product_row" where
  "productCore p = p\<lparr>pr_cost := 0, pr_version := 0\<rparr>"

text \<open>Views of the database that do not look at what valuing a movement writes (the valuation columns of
  the movement included), at what tracking its lots or its serials writes, or at any of these.\<close>

definition valuing_view :: "(inv_db \<Rightarrow> 'b) \<Rightarrow> bool" where
  "valuing_view f \<longleftrightarrow>
     (\<forall>db n. f (db\<lparr>ticks := n\<rparr>) = f db) \<and> (\<forall>db x. f (db\<lparr>layers := x\<rparr>) = f db) \<and> (\<forall>db x. f (db\<lparr>allocs := x\<rparr>) = f db) \<and>
     (\<forall>db x. f (db\<lparr>cutovers := x\<rparr>) = f db) \<and> (\<forall>db x. f (db\<lparr>valuations := x\<rparr>) = f db) \<and>
     (\<forall>db x. map productCore x = map productCore (products db) \<longrightarrow> f (db\<lparr>products := x\<rparr>) = f db) \<and> (\<forall>db x. f (db\<lparr>policies := x\<rparr>) = f db) \<and>
     (\<forall>db ms. map movementCore ms = map movementCore (movements db) \<longrightarrow> f (db\<lparr>movements := ms\<rparr>) = f db)"

definition lots_view :: "(inv_db \<Rightarrow> 'b) \<Rightarrow> bool" where
  "lots_view f \<longleftrightarrow>
     (\<forall>db n. f (db\<lparr>ticks := n\<rparr>) = f db) \<and> (\<forall>db x. f (db\<lparr>lots := x\<rparr>) = f db) \<and> (\<forall>db x. f (db\<lparr>lot_balances := x\<rparr>) = f db) \<and>
     (\<forall>db x. f (db\<lparr>movement_lots := x\<rparr>) = f db) \<and> (\<forall>db x. f (db\<lparr>receipt_lines := x\<rparr>) = f db) \<and>
     (\<forall>db x. f (db\<lparr>lot_origins := x\<rparr>) = f db) \<and> (\<forall>db x. f (db\<lparr>return_lines := x\<rparr>) = f db) \<and>
     (\<forall>db ms. map movementCore ms = map movementCore (movements db) \<longrightarrow> f (db\<lparr>movements := ms\<rparr>) = f db)"

definition serials_view :: "(inv_db \<Rightarrow> 'b) \<Rightarrow> bool" where
  "serials_view f \<longleftrightarrow>
     (\<forall>db n. f (db\<lparr>ticks := n\<rparr>) = f db) \<and> (\<forall>db x. f (db\<lparr>serials := x\<rparr>) = f db) \<and> (\<forall>db x. f (db\<lparr>serial_events := x\<rparr>) = f db)"

definition posting_view :: "(inv_db \<Rightarrow> 'b) \<Rightarrow> bool" where
  "posting_view f \<longleftrightarrow> valuing_view f \<and> lots_view f \<and> serials_view f"

lemmas view_defs = posting_view_def valuing_view_def lots_view_def serials_view_def

lemma valuing_viewD:
  assumes "valuing_view f"
  shows "f (db\<lparr>ticks := n\<rparr>) = f db" "f (db\<lparr>layers := x1\<rparr>) = f db" "f (db\<lparr>allocs := x2\<rparr>) = f db" "f (db\<lparr>cutovers := x3\<rparr>) = f db"
    "f (db\<lparr>valuations := x4\<rparr>) = f db" "map productCore x5 = map productCore (products db) \<Longrightarrow> f (db\<lparr>products := x5\<rparr>) = f db"
    "f (db\<lparr>policies := x6\<rparr>) = f db" "map movementCore ms = map movementCore (movements db) \<Longrightarrow> f (db\<lparr>movements := ms\<rparr>) = f db"
  using assms unfolding valuing_view_def by simp_all

lemma lots_viewD:
  assumes "lots_view f"
  shows "f (db\<lparr>ticks := n\<rparr>) = f db" "f (db\<lparr>lots := x1\<rparr>) = f db" "f (db\<lparr>lot_balances := x2\<rparr>) = f db" "f (db\<lparr>movement_lots := x3\<rparr>) = f db"
    "f (db\<lparr>receipt_lines := x4\<rparr>) = f db" "f (db\<lparr>lot_origins := x5\<rparr>) = f db" "f (db\<lparr>return_lines := x6\<rparr>) = f db"
    "map movementCore ms = map movementCore (movements db) \<Longrightarrow> f (db\<lparr>movements := ms\<rparr>) = f db"
  using assms unfolding lots_view_def by simp_all

lemma posting_viewD: "posting_view f \<Longrightarrow> f (db\<lparr>ticks := n\<rparr>) = f db"
  by (simp add: view_defs)

lemma keeps_updateMovement_view:
  assumes f: "\<And>db ms. map movementCore ms = map movementCore (movements db) \<Longrightarrow> f (db\<lparr>movements := ms\<rparr>) = f db"
    and u: "\<And>m. movementCore (u m) = movementCore m"
  shows "keeps f (updateMovement t i u)"
  unfolding updateMovement_def by (intro keeps_writeM f map_update_where u)

lemma keeps_fifo_view: "valuing_view f \<Longrightarrow> keeps f (applyInventoryFifoValuation mid)"
  unfolding applyInventoryFifoValuation_def updateMovementSummary_def Let_def
  by (intro keeps_intros keeps_ensureCutover keeps_fifoValueChange keeps_alloc_view keeps_updateMovement_view;
      simp add: valuing_viewD movementCore_def)

lemma keeps_valuation_view:
  assumes f: "valuing_view f"
  shows "keeps f (applyInventoryValuation mid)"
proof -
  have ensure: "keeps f (ensureValuation t p)" for t p
    unfolding ensureValuation_def by (rule keeps_writeM) (simp add: valuing_viewD [OF f] split: option.splits)
  have update: "keeps f (updateValuation t p q v a ch)" for t p q v a ch
    unfolding updateValuation_def Let_def by (intro keeps_intros) (simp add: valuing_viewD [OF f])
  have catalog: "keeps f (updateCatalogCost t p c)" for t p c
    unfolding updateCatalogCost_def
    by (intro keeps_intros valuing_viewD(6) [OF f] map_update_where) (simp add: productCore_def)
  have cost: "keeps f (movementCost m w)" for m w
    by (rule keepsI) (drule movementCost_same, simp)
  have recv: "keeps f (recordValuation m w c)" for m w c
    unfolding recordValuation_def
    by (intro keeps_intros update catalog keeps_updateMovement_view [OF valuing_viewD(8) [OF f]]; simp add: movementCore_def)
  have policy: "keeps f (loadInventoryValuationPolicy t)" for t
    unfolding loadInventoryValuationPolicy_def nowM_def
    by (intro keeps_intros keeps_newRow; simp add: valuing_viewD [OF f])
  show ?thesis
    unfolding applyInventoryValuation_def assertInventoryReconciliationOperational_def movingAverageStep_def valuationFor_def
      sealInventoryMovementValuation_def Let_def
    by (intro keeps_intros keeps_updateMovement_view [OF valuing_viewD(8) [OF f]] keeps_fifo_view ensure recv cost policy f; simp add: movementCore_def)
qed

lemma keeps_lots_view:
  assumes f: "lots_view f"
  shows "keeps f (applyInventoryLotTracking mid options)"
proof -
  have settle: "keeps f (settleSpecificLots m)" for m
    unfolding settleSpecificLots_def Let_def
    by (intro keeps_intros keeps_updateMovement_view [OF lots_viewD(8) [OF f]]; simp add: movementCore_def)
  have final: "keeps f (finalizeSpecificLotMovementValuation mid)"
    unfolding finalizeSpecificLotMovementValuation_def by (intro keeps_intros settle)
  show ?thesis
    unfolding applyInventoryLotTracking_def
    by (intro keeps_intros final keeps_allocateLots lots_viewD [OF f])
qed

lemma keeps_serials_view: "serials_view f \<Longrightarrow> keeps f (applyInventorySerialTracking mid options)"
  by (intro keeps_applySerial; simp add: serials_view_def)

lemma posting_view_id: "posting_view f \<Longrightarrow> keeps f newRow"
  by (intro keeps_newRow; simp add: posting_viewD)

lemma postMovement_Inr:
  assumes "postMovement m lo so db = Inr (x, db')"
  obtains db1 db2 where "\<forall>r\<in>set (movements db). \<not> (mv_tenant r = mv_tenant m \<and> mv_key r = mv_key m)" "movement_check m"
    "mv_id m \<notin> mv_id ` set (movements db)" "applyInventoryValuation (mv_id m) (db\<lparr>movements := movements db @ [m]\<rparr>) = Inr ((), db1)"
    "applyInventoryLotTracking (mv_id m) lo db1 = Inr ((), db2)" "applyInventorySerialTracking (mv_id m) so db2 = Inr ((), db')"
  using assms by (auto simp: postMovement_def runM insertMovement_Inr)

lemma postMovement_view:
  assumes "postMovement m lo so db = Inr (x, db')" "posting_view f"
  shows "f db' = f (db\<lparr>movements := movements db @ [m]\<rparr>)"
  by (rule postMovement_Inr [OF assms(1)])
    (use assms(2) in \<open>simp add: posting_view_def keepsD [OF keeps_valuation_view] keepsD [OF keeps_lots_view] keepsD [OF keeps_serials_view]\<close>)

lemma posting_views [simp]:
  "posting_view balances" "posting_view env_uuid" "posting_view counts" "posting_view transfers" "posting_view transfer_lines"
  "posting_view transfer_receipts" "posting_view transfer_receipt_lines" "posting_view reservations" "posting_view reservation_lines"
  "posting_view (\<lambda>db. map movementCore (movements db))" "posting_view guards" "posting_view locations" "posting_view warehouses"
  "posting_view branches" "posting_view customers" "posting_view (\<lambda>db. map productCore (products db))"
  "posting_view recon_runs" "posting_view recon_findings" "posting_view admin_users" "posting_view branch_access"
  by (simp_all add: view_defs)

lemma postMovement_movements:
  "postMovement m lo so db = Inr (x, db') \<Longrightarrow> map movementCore (movements db') = map movementCore (movements db) @ [movementCore m]"
  using postMovement_view [where f = "\<lambda>db. map movementCore (movements db)"] by simp

section \<open>The ledger invariant\<close>

definition balanceOf :: "id \<times> id \<times> id \<Rightarrow> inv_db \<Rightarrow> int" where
  "balanceOf k db = sum_where (\<lambda>b. balance_key b = k) ba_quantity (balances db)"

definition movedAt :: "id \<times> id \<times> id \<Rightarrow> inv_db \<Rightarrow> int" where
  "movedAt k db = sum_where (\<lambda>m. movement_key m = k) mv_quantity (movements db)"

definition movedOf :: "id \<times> id \<Rightarrow> inv_db \<Rightarrow> int" where
  "movedOf tp db = sum_where (\<lambda>m. (mv_tenant m, mv_product m) = tp) mv_quantity (movements db)"

definition valuationQuantity :: "id \<times> id \<Rightarrow> inv_db \<Rightarrow> int" where
  "valuationQuantity tp db = sum_where (\<lambda>v. (va_tenant v, va_product v) = tp) va_quantity (valuations db)"

text \<open>The ledger with a gap \<open>g\<close> per balance: what has been written to the balances but not yet
  posted as a movement. Without a gap it is the invariant.\<close>

definition stock_gap :: "(id \<times> id \<times> id \<Rightarrow> int) \<Rightarrow> inv_db \<Rightarrow> bool" where
  "stock_gap g db \<longleftrightarrow>
     inj (env_uuid db) \<and> mv_id ` set (movements db) \<subseteq> issued db \<and> distinct (map balance_key (balances db)) \<and>
     (\<forall>b\<in>set (balances db). balance_check b) \<and> distinct (map (\<lambda>v. (va_tenant v, va_product v)) (valuations db)) \<and>
     (\<forall>k. balanceOf k db = movedAt k db + g k) \<and> (\<forall>tp. valuationQuantity tp db = movedOf tp db)"

definition stock_inv :: "inv_db \<Rightarrow> bool" where
  "stock_inv db \<longleftrightarrow> stock_gap (\<lambda>_. 0) db"

lemma stock_gapD:
  assumes "stock_gap g db"
  shows "inj (env_uuid db)" "mv_id ` set (movements db) \<subseteq> issued db" "distinct (map balance_key (balances db))"
    "b \<in> set (balances db) \<Longrightarrow> balance_check b" "distinct (map (\<lambda>v. (va_tenant v, va_product v)) (valuations db))"
    "balanceOf k db = movedAt k db + g k" "valuationQuantity tp db = movedOf tp db"
  using assms unfolding stock_gap_def by blast+

lemma sum_where_map: "sum_where (\<lambda>x. p (h x)) (\<lambda>x. f (h x)) xs = sum_where p f (map h xs)"
  by (induction xs) auto

lemma movedAt_core: "movedAt k db = sum_where (\<lambda>m. movement_key m = k) mv_quantity (map movementCore (movements db))"
  by (simp add: movedAt_def sum_where_map [symmetric] movementCore_def)

lemma movedOf_core: "movedOf tp db = sum_where (\<lambda>m. (mv_tenant m, mv_product m) = tp) mv_quantity (map movementCore (movements db))"
  by (simp add: movedOf_def sum_where_map [symmetric] movementCore_def)

lemma mv_id_core: "mv_id ` set (movements db) = mv_id ` set (map movementCore (movements db))"
  by (simp add: image_image movementCore_def)

subsection \<open>Valuation\<close>

lemma ensureValuation_quantity:
  assumes "ensureValuation t p db = Inr (u, db')" "distinct (map (\<lambda>v. (va_tenant v, va_product v)) (valuations db))"
  shows "valuationQuantity tp db' = valuationQuantity tp db \<and> distinct (map (\<lambda>v. (va_tenant v, va_product v)) (valuations db'))"
  using assms
  by (auto simp: ensureValuation_def valuationQuantity_def selectValuation_def find_None_iff split: option.splits if_splits)

lemma applyInventoryValuation_quantity:
  assumes run: "applyInventoryValuation mid db = Inr (u, db')" and m: "selectMovement mid db = Some m"
    and d: "distinct (map (\<lambda>v. (va_tenant v, va_product v)) (valuations db))"
  shows "valuationQuantity tp db' = valuationQuantity tp db + (if tp = (mv_tenant m, mv_product m) then mv_quantity m else 0)"
    "distinct (map (\<lambda>v. (va_tenant v, va_product v)) (valuations db'))"
proof -
  obtain mv db1 db2 meth where R: "selectMovement mid db = Some mv" "movingAverageStep mv db = Inr ((), db1)"
    "applyInventoryFifoValuation mid db1 = Inr ((), db2)" "sealInventoryMovementValuation mid db2 = Inr (meth, db')"
    by (rule applyInventoryValuation_run [OF run])
  have mv: "mv = m" using R(1) m by simp
  obtain w dbv c where S: "ensureValuation (mv_tenant m) (mv_product m) db = Inr ((), dbv)"
    "openingValuation (mv_tenant m) (mv_product m) db = Some w" "recordValuation m w c dbv = Inr ((), db1)"
    by (rule movingAverageStep_Inr [OF R(2) [unfolded mv]])
  obtain Q V A where W: "movingAverage w (mv_quantity m) (isValuedEntry m) c = Inr (Q, V, A)"
    "valuations db1 = update_where (\<lambda>v. va_tenant v = mv_tenant m \<and> va_product v = mv_product m) (valuationWrite m Q V A) (valuations dbv)"
    by (rule recordValuation_Inr [OF S(3)])
  note E = ensureValuation_quantity [OF S(1) d]
  have keys: "map (\<lambda>v. (va_tenant v, va_product v)) (valuations db1) = map (\<lambda>v. (va_tenant v, va_product v)) (valuations dbv)"
    unfolding W(2) by (rule map_update_where) (simp add: valuationWrite_def)
  have sel: "selectValuation (mv_tenant m) (mv_product m) dbv = Some w" using ensureValuation_row [OF S(1)] S(2) by simp
  then have w: "w \<in> set (valuations dbv)" "(va_tenant w, va_product w) = (mv_tenant m, mv_product m)"
    using find_Some_props by (fastforce simp: selectValuation_def)+
  have "valuationQuantity tp db1 = valuationQuantity tp dbv +
    (if (va_tenant w, va_product w) = tp then va_quantity (valuationWrite m Q V A w) - va_quantity w else 0)"
    unfolding valuationQuantity_def W(2)
    by (rule sum_where_update_key [where key = "\<lambda>v. (va_tenant v, va_product v)" and k = "(mv_tenant m, mv_product m)"])
      (use E w in \<open>simp_all add: valuationWrite_def\<close>)
  also have "\<dots> = valuationQuantity tp db + (if tp = (mv_tenant m, mv_product m) then mv_quantity m else 0)"
    using W(1) w(2) E by (auto simp: movingAverage_Inr valuationWrite_def)
  finally have q: "valuationQuantity tp db1 = valuationQuantity tp db + (if tp = (mv_tenant m, mv_product m) then mv_quantity m else 0)" .
  obtain m1 where m1: "selectMovement mid db1 = Some m1" using movingAverageStep_movement [OF R(2,1)] by blast
  obtain m2 where m2: "selectMovement mid db2 = Some m2" using applyFifo_movement(1) [OF R(3) m1] by blast
  have "valuations db' = valuations db1"
    by (rule seal_Inr [OF R(4) m2]) (simp add: applyFifo_movement(2) [OF R(3) m1])
  then show "valuationQuantity tp db' = valuationQuantity tp db + (if tp = (mv_tenant m, mv_product m) then mv_quantity m else 0)"
    "distinct (map (\<lambda>v. (va_tenant v, va_product v)) (valuations db'))"
    using q E keys by (simp_all add: valuationQuantity_def)
qed

lemma keeps_lots_valuations: "keeps valuations (applyInventoryLotTracking mid options)"
  unfolding applyInventoryLotTracking_def finalizeSpecificLotMovementValuation_def settleSpecificLots_def Let_def
  by (intro keeps_intros keeps_allocateLots keeps_updateMovement; simp)

lemma keeps_serials_valuations: "keeps valuations (applyInventorySerialTracking mid options)"
  by (intro keeps_applySerial; simp)

subsection \<open>The clock never goes back\<close>

text \<open>\<open>since N\<close>: at least \<open>N\<close> rows have been created. Every action preserves it, so the ids
  issued before it stay issued.\<close>

abbreviation since :: "nat \<Rightarrow> inv_db \<Rightarrow> bool" where
  "since N \<equiv> \<lambda>db. N \<le> ticks db"

named_theorems since_intros \<open>actions after which the clock is not behind\<close>

lemma since_basic [since_intros]:
  "preserves (since N) newRow" "preserves (since N) nowM" "preserves (since N) (updateMovement t i u)"
  "preserves (since N) (insertMovement m)"
  by (simp_all add: preserves_def insertMovement_Inr)

lemma since_writeM [since_intros]: "(\<And>db. ticks (f db) = ticks db) \<Longrightarrow> preserves (since N) (writeM f)"
  by (simp add: preserves_def)

lemma since_mapM [since_intros]: "(\<And>x. preserves I (body x)) \<Longrightarrow> preserves I (mapM body xs)"
  by (induction xs) (simp_all add: preserves_bindM)

lemma since_case_prod [since_intros]: "(\<And>x y. preserves I (g x y)) \<Longrightarrow> preserves I (case p of (x, y) \<Rightarrow> g x y)"
  by (cases p) simp

lemma since_catchM [since_intros]: "preserves I m \<Longrightarrow> (\<And>e. preserves I (h e)) \<Longrightarrow> preserves I (catchM sel m h)"
proof (rule preservesI)
  fix s x s'
  assume m: "preserves I m" "\<And>e. preserves I (h e)" and I: "I s" and run: "catchM sel m h s = Inr (x, s')"
  show "I s'"
  proof (cases "m s")
    case (Inl e)
    then have "h e s = Inr (x, s')" using run by (simp add: catchM_def split: if_splits)
    then show ?thesis by (rule preservesD [OF m(2) I])
  next
    case (Inr r)
    then have "m s = Inr (x, s')" using run by (simp add: catchM_def)
    then show ?thesis by (rule preservesD [OF m(1) I])
  qed
qed

lemma since_consume_loop [since_intros]:
  "(\<And>l c. preserves I (body l c)) \<Longrightarrow> preserves I (consume_loop avail body ls rem acc)"
proof (induction ls arbitrary: rem acc)
  case (Cons l ls)
  then show ?case by (auto simp: Let_def intro!: preserves_intros)
qed simp

lemma since_fifo [since_intros]: "preserves (since N) (applyInventoryFifoValuation mid)"
proof -
  have a: "preserves (since N) (insertAllocation m L q c cur mode src)" for m L q c cur mode src
    unfolding insertAllocation_def Let_def by (intro preserves_intros since_intros; simp)
  have s: "preserves (since N) (setRemaining t L q)" for t L q
    unfolding setRemaining_def by (intro since_intros) simp
  have c: "preserves (since N) (createLayer m q c cur orig acq mode srcl rl srca)" for m q c cur orig acq mode srcl rl srca
    unfolding createLayer_def assertCurrency_def Let_def by (intro preserves_intros since_intros a; simp)
  have one: "preserves (since N) (restoreAllocation m x n)" for m x n
    unfolding restoreAllocation_def Let_def by (intro preserves_intros since_intros s a)
  have r: "preserves (since N) (restoreLoop m q xs r tot)" for m q xs r tot
  proof (induction xs arbitrary: r tot)
    case (Cons p xs)
    then show ?case by (cases p) (simp add: Let_def preserves_bindM one)
  qed simp
  have t: "preserves (since N) (transferLoop m xs r tot)" for m xs r tot
  proof (induction xs arbitrary: r tot)
    case (Cons p xs)
    then show ?case by (cases p) (simp add: Let_def preserves_bindM c)
  qed simp
  show ?thesis
    unfolding applyInventoryFifoValuation_def fifoValueChange_def restoreSale_def transferLayers_def consumeLayers_def consumeLayer_def
      sourceCost_def receiptLineForReturn_def updateMovementSummary_def ensureCutover_def Let_def
    by (intro preserves_intros since_intros a s c r t; simp)
qed

lemma since_valuation [since_intros]: "preserves (since N) (applyInventoryValuation mid)"
proof -
  have cost: "preserves (since N) (movementCost m w)" for m w
    by (rule preservesI) (drule movementCost_same, simp)
  show ?thesis
    unfolding applyInventoryValuation_def assertInventoryReconciliationOperational_def movingAverageStep_def valuationFor_def
      sealInventoryMovementValuation_def recordValuation_def loadInventoryValuationPolicy_def ensureValuation_def
      updateValuation_def updateCatalogCost_def Let_def
    by (intro preserves_intros since_intros cost; simp split: option.splits)
qed

lemma since_lots [since_intros]: "preserves (since N) (applyInventoryLotTracking mid options)"
proof -
  have change: "preserves (since N) (changeLotBalance movement L q mode cs)" for movement L q mode cs
    unfolding changeLotBalance_def ensureLotBalance_def revalueLot_def setLotBalance_def insertMovementLot_def Let_def
    by (intro preserves_intros since_intros; simp)
  have restore: "preserves (since N) (restoreLots movement partial mode xs r)" for movement partial mode xs r
    by (induction xs arbitrary: r) (simp_all add: Let_def preserves_bindM preserves_thenM change)
  have consume: "preserves (since N) (consumeLots movement tz q pid pc cs ae)" for movement tz q pid pc cs ae
    unfolding consumeLots_def lotsToConsume_def consumeLot_def
    by (auto split: option.splits prod.splits intro!: preserves_intros since_intros change)
  have create: "preserves (since N) (findOrCreateLot movement code cost cur mf ex)" for movement code cost cur mf ex
    unfolding findOrCreateLot_def insertLot_def Let_def by (intro preserves_intros since_intros; simp)
  show ?thesis
    unfolding applyInventoryLotTracking_def allocateLots_def receiveLot_def restoreAllocations_def enterLot_def exitLots_def
      supplierReturnSource_def finalizeSpecificLotMovementValuation_def settleSpecificLots_def Let_def
    by (intro preserves_intros since_intros change restore consume create; simp)
qed

lemma since_serials [since_intros]: "preserves (since N) (applyInventorySerialTracking mid options)"
proof -
  have event: "preserves (since N) (insertSerialEvent m s a b c d)" for m s a b c d
    unfolding insertSerialEvent_def by (intro preserves_intros since_intros; simp)
  have target: "preserves (since N) (serialTarget m d)" for m d
    by (rule preservesI) (auto dest: serialTarget_Inr)
  have move: "preserves (since N) (moveSerial m d s)" for m d s
    unfolding moveSerial_def appendEvent_def by (intro preserves_intros since_intros event target; simp)
  have reg: "preserves (since N) (registerSerial m u v)" for m u v
    unfolding registerSerial_def by (intro preserves_intros since_intros event; simp)
  have sel: "preserves (since N) (selectSerials m ns)" for m ns
    by (rule preservesI) (drule selectSerials_Inr(1), simp)
  show ?thesis
    unfolding applyInventorySerialTracking_def trackSerials_def registerSerials_def
    by (intro preserves_intros since_intros move reg sel)
qed

lemma since_postMovement [since_intros]: "preserves (since N) (postMovement m lo so)"
  unfolding postMovement_def by (intro preserves_intros since_intros)

lemma postMovement_ticks: "postMovement m lo so db = Inr (x, db') \<Longrightarrow> ticks db \<le> ticks db'"
  using preservesD [OF since_postMovement [of "ticks db" m lo so]] by blast

subsection \<open>The steps of a handler\<close>

lemma newRow_gap: "stock_gap g db \<Longrightarrow> stock_gap g (db\<lparr>ticks := Suc (ticks db)\<rparr>)"
  by (auto simp: stock_gap_def issued_Suc balanceOf_def movedAt_def movedOf_def valuationQuantity_def)

lemma ensureBalance_Inr:
  "ensureBalance k db = Inr (x, db') \<longleftrightarrow>
     db' = (if selectBalance k db \<noteq> None then db else db\<lparr>balances := balances db @ [emptyBalance k]\<rparr>)"
  by (auto simp: ensureBalance_def)

lemma emptyBalance_facts [simp]: "balance_key (emptyBalance k) = k" "ba_quantity (emptyBalance k) = 0" "balance_check (emptyBalance k)"
  by (simp_all add: emptyBalance_def balance_check_def)

lemma ensureBalance_gap:
  assumes "ensureBalance k db = Inr (x, db')" "stock_gap g db"
  shows "stock_gap g db'"
proof (cases "selectBalance k db")
  case None
  then have "k \<notin> balance_key ` set (balances db)" by (auto simp: selectBalance_def find_None_iff)
  then show ?thesis
    using assms None
    by (auto simp: ensureBalance_Inr stock_gap_def issued_def balanceOf_def movedAt_def movedOf_def valuationQuantity_def)
next
  case (Some b)
  with assms show ?thesis by (simp add: ensureBalance_Inr)
qed

lemma updateBalance_Inr:
  "updateBalance k u db = Inr (x, db') \<longleftrightarrow>
     (\<forall>b\<in>set (balances db). balance_key b = k \<longrightarrow> balance_check (u b)) \<and>
     db' = db\<lparr>balances := update_where (\<lambda>b. balance_key b = k) u (balances db)\<rparr>"
  by (auto simp: updateBalance_def runM)

lemma selectBalance_row: "selectBalance k db = Some b \<Longrightarrow> b \<in> set (balances db) \<and> balance_key b = k"
  unfolding selectBalance_def by (drule find_Some_props)

lemma updateBalance_gap:
  assumes run: "updateBalance k u db = Inr (x, db')" and inv: "stock_gap g db" and b: "selectBalance k db = Some b"
    and u: "\<And>b. balance_key (u b) = balance_key b"
  shows "stock_gap (g(k := g k + ba_quantity (u b) - ba_quantity b)) db'"
proof -
  note r = selectBalance_row [OF b]
  have db': "balances db' = update_where (\<lambda>b. balance_key b = k) u (balances db)"
    and check: "\<forall>b\<in>set (balances db). balance_key b = k \<longrightarrow> balance_check (u b)"
    and rest: "movements db' = movements db" "valuations db' = valuations db" "env_uuid db' = env_uuid db" "ticks db' = ticks db"
    using run by (simp_all add: updateBalance_Inr)
  have bal: "balanceOf k' db' = balanceOf k' db + (if k = k' then ba_quantity (u b) - ba_quantity b else 0)" for k'
    unfolding balanceOf_def db'
    using sum_where_update_key [OF stock_gapD(3) [OF inv] conjunct1 [OF r] conjunct2 [OF r],
        where p = "\<lambda>b. balance_key b = k'" and u = u and q = "\<lambda>b. balance_key b = k" and f = ba_quantity] u r by simp
  have keys: "map balance_key (balances db') = map balance_key (balances db)"
    unfolding db' by (rule map_update_where) (rule u)
  have checks: "balance_check b'" if "b' \<in> set (balances db')" for b'
    using that check stock_gapD(4) [OF inv] by (auto simp: db' set_update_where split: if_splits)
  show ?thesis
    unfolding stock_gap_def using stock_gapD(1,2,3,5,6,7) [OF inv] checks keys rest
    by (simp add: bal movedAt_def movedOf_def valuationQuantity_def issued_def)
qed

lemma selectMovement_new:
  assumes "mv_id m \<notin> mv_id ` set (movements db)"
  shows "selectMovement (mv_id m) (db\<lparr>movements := movements db @ [m]\<rparr>) = Some m"
proof -
  have "List.find (\<lambda>r. mv_id r = mv_id m) (movements db) = None"
    unfolding find_None_iff using assms by (metis image_eqI)
  then show ?thesis by (simp add: selectMovement_def find_append)
qed

lemma postMovement_gap:
  assumes run: "postMovement m lo so db = Inr (x, db')" and inv: "stock_gap g db"
    and fresh: "mv_id m \<notin> mv_id ` set (movements db)" and iss: "mv_id m \<in> issued db"
  shows "stock_gap (g(movement_key m := g (movement_key m) - mv_quantity m)) db'"
proof -
  let ?db = "db\<lparr>movements := movements db @ [m]\<rparr>"
  obtain db1 db2 where R: "applyInventoryValuation (mv_id m) ?db = Inr ((), db1)"
    "applyInventoryLotTracking (mv_id m) lo db1 = Inr ((), db2)" "applyInventorySerialTracking (mv_id m) so db2 = Inr ((), db')"
    by (rule postMovement_Inr [OF run]) (simp add: that)
  have sel: "selectMovement (mv_id m) ?db = Some m"
    by (rule selectMovement_new [OF fresh])
  have same: "valuations db' = valuations db1"
    using keepsD [OF keeps_lots_valuations R(2)] keepsD [OF keeps_serials_valuations R(3)] by simp
  note V = applyInventoryValuation_quantity [OF R(1) sel]
  note core = postMovement_movements [OF run]
  have view: "balances db' = balances db" "env_uuid db' = env_uuid db"
    using postMovement_view [OF run posting_views(1)] postMovement_view [OF run posting_views(2)] by simp_all
  have at: "movedAt k db' = movedAt k db + (if movement_key m = k then mv_quantity m else 0)" for k
    unfolding movedAt_core core by (simp, simp add: movementCore_def)
  have of: "movedOf tp db' = movedOf tp db + (if (mv_tenant m, mv_product m) = tp then mv_quantity m else 0)" for tp
    unfolding movedOf_core core by (simp, simp add: movementCore_def)
  have ticks: "issued db \<subseteq> issued db'"
    using postMovement_ticks [OF run] view(2) by (rule issued_mono)
  have ids: "mv_id ` set (movements db') = insert (mv_id m) (mv_id ` set (movements db))"
    unfolding mv_id_core [of db'] core mv_id_core [of db] by (simp add: movementCore_def)
  have val: "valuationQuantity tp db' = movedOf tp db'" for tp
    using V(1) [of tp] stock_gapD(5,7) [OF inv] by (auto simp: same of valuationQuantity_def)
  have "distinct (map (\<lambda>v. (va_tenant v, va_product v)) (valuations db'))"
    using V(2) stock_gapD(5) [OF inv] by (simp add: same)
  moreover have "mv_id ` set (movements db') \<subseteq> issued db'" using ids iss ticks stock_gapD(2) [OF inv] by auto
  moreover have "balanceOf k db' = balanceOf k db" for k by (simp add: balanceOf_def view)
  ultimately show ?thesis
    unfolding stock_gap_def using stock_gapD(1,3,4,6) [OF inv] val by (auto simp: view at)
qed

end
