(* ===== verification/StockCommands.thy ===== *)
theory StockCommands
  imports Ledger
begin

text \<open>
  The three commands of \<open>src/inventory/inventory.repository.ts\<close> that change stock:
  \<open>createMovement\<close>, \<open>createCount\<close> and \<open>createStateTransition\<close>. Each reads the quantity
  policy of the product, normalises the requested quantities, computes the fingerprint of the
  request, and runs one transaction, whose duplicate-key error is answered with a replay.

  \<open>createHash('sha256').update(JSON.stringify(...)).digest('hex')\<close> is the parameter
  \<open>digest\<close>, applied to the object that the code serialises. Deadlocks and lock time-outs do not
  occur in the model (a transaction is atomic), so the retries of \<open>createCount\<close> are not modelled.
\<close>

section \<open>Requests\<close>

text \<open>The objects that the handlers serialise for their fingerprints.\<close>

datatype request =
    MovementRequest id id movement_type string string "string option" "string list"
  | CountRequest id id string string string string string
  | TransitionRequest id id stock_state stock_state string string string "string list"
  | TransferRequest id id string string "(id \<times> id \<times> id \<times> string \<times> string list) list"
  | TransferMovementRequest id id movement_type id string
  | ReceiptRequest id "(id \<times> string \<times> string \<times> string list \<times> string list) list" "string option"
  | ReceiptMovementRequest id id movement_type string
  | ReservationRequest id id nat "(id \<times> string \<times> string list) list"
  | CloseRequest reservation_status string

record command =
  cm_tenant :: id
  cm_warehouse :: id
  cm_user :: id
  cm_key :: string

record movement_dto =
  md_product :: id
  md_location :: id
  md_type :: movement_type
  md_quantity :: string
  md_reason :: string
  md_reference :: "string option"
  md_lot_code :: "string option"
  md_manufactured :: "string option"
  md_expires :: "string option"
  md_serials :: "string list option"

record count_dto =
  cd_product :: id
  cd_location :: id
  cd_snapshot :: string
  cd_counted :: string
  cd_reason :: string
  cd_reference :: string
  cd_captured :: string

record transition_dto =
  td_product :: id
  td_location :: id
  td_from :: stock_state
  td_to :: stock_state
  td_quantity :: string
  td_reason :: string
  td_reference :: string
  td_serials :: "string list option"

section \<open>Idempotency keys\<close>

text \<open>The pattern \<open>/^[A-Za-z0-9][A-Za-z0-9._:-]{7,127}$/\<close> that the services demand of the
  header \<open>Idempotency-Key\<close>.\<close>

definition alphanumeric :: "char \<Rightarrow> bool" where
  "alphanumeric c \<longleftrightarrow> CHR ''A'' \<le> c \<and> c \<le> CHR ''Z'' \<or> CHR ''a'' \<le> c \<and> c \<le> CHR ''z'' \<or> CHR ''0'' \<le> c \<and> c \<le> CHR ''9''"

definition validKey :: "string \<Rightarrow> bool" where
  "validKey key = (case key of [] \<Rightarrow> False | c # cs \<Rightarrow> alphanumeric c \<and> 7 \<le> length cs \<and> length cs \<le> 127 \<and>
     list_all (\<lambda>d. alphanumeric d \<or> d \<in> set ''._:-'') cs)"

definition assertIdempotencyKey :: "string option \<Rightarrow> string act" where
  "assertIdempotencyKey value = (case value of None \<Rightarrow> throwM InvalidIdempotencyKey
     | Some key \<Rightarrow> thenM (ensureM InvalidIdempotencyKey (validKey key)) (returnM key))"

section \<open>Helpers\<close>

text \<open>\<open>BigInt\<close> throws on a text that is not a number.\<close>

definition stockUnits :: "string \<Rightarrow> inv_error + int" where
  "stockUnits value = (case stock_toUnits value of None \<Rightarrow> Inl (Failure ''SyntaxError'') | Some u \<Rightarrow> Inr u)"

definition productQuantityPolicy :: "id \<Rightarrow> id \<Rightarrow> product_quantity_policy act" where
  "productQuantityPolicy t p =
     bindM (readM (selectProduct t p)) (\<lambda>found.
     bindM (requireM InventoryTargetNotFoundError found) (\<lambda>product. returnM (pr_policy product)))"

definition normalizeM :: "string \<Rightarrow> product_quantity_policy \<Rightarrow> bool \<Rightarrow> bool \<Rightarrow> string act" where
  "normalizeM value policy allowNegative enforceMinimum =
     (case normalizeProductQuantity value policy allowNegative enforceMinimum of
        Inl e \<Rightarrow> throwM (QuantityRejected e) | Inr v \<Rightarrow> returnM v)"

definition quantityChange :: "movement_type \<Rightarrow> string \<Rightarrow> inv_error + string" where
  "quantityChange kind normalizedQuantity =
     bindE (stockUnits normalizedQuantity) (\<lambda>units.
       if units = 0 then Inl InsufficientStockError
       else if kind = ADJUSTMENT then Inr (stock_fromUnits units)
       else if units < 0 then Inl InsufficientStockError
       else let direction = (if kind \<in> {EXIT, LOSS, DAMAGE} then -1 else 1)
            in Inr (stock_fromUnits (units * direction)))"

definition assertTarget :: "id \<Rightarrow> id \<Rightarrow> id \<Rightarrow> id \<Rightarrow> unit act" where
  "assertTarget t warehouse p l =
     bindM (readM (\<lambda>db. (\<exists>r\<in>set (products db). pr_id r = p \<and> pr_tenant r = t \<and> pr_active r \<and> \<not> pr_has_variants r) \<and>
        (\<exists>r\<in>set (locations db). lo_id r = l \<and> lo_tenant r = t \<and> lo_warehouse r = warehouse \<and> lo_active r)))
       (ensureM InventoryTargetNotFoundError)"

definition findMovement :: "id \<Rightarrow> string \<Rightarrow> inv_db \<Rightarrow> movement_row option" where
  "findMovement t key db =
     List.find (\<lambda>m. mv_tenant m = t \<and> mv_key m = key \<and>
        (\<exists>p\<in>set (products db). pr_id p = mv_product m \<and> pr_tenant p = t) \<and>
        (\<exists>l\<in>set (locations db). lo_id l = mv_location m \<and> lo_tenant l = t)) (movements db)"

definition findCount :: "id \<Rightarrow> string \<Rightarrow> inv_db \<Rightarrow> count_row option" where
  "findCount t key db =
     List.find (\<lambda>c. co_tenant c = t \<and> co_key c = key \<and>
        (\<exists>p\<in>set (products db). pr_id p = co_product c \<and> pr_tenant p = t) \<and>
        (\<exists>l\<in>set (locations db). lo_id l = co_location c \<and> lo_tenant l = t)) (counts db)"

text \<open>The answer to a request whose key is stored: the stored result if the fingerprints agree.\<close>

definition replayMovement :: "string \<Rightarrow> movement_row \<Rightarrow> (movement_row \<times> bool) act" where
  "replayMovement fingerprint stored =
     thenM (ensureM IdempotencyConflictError (mv_fingerprint stored = fingerprint)) (returnM (stored, True))"

definition replayCount :: "string \<Rightarrow> count_row \<Rightarrow> (count_row \<times> bool) act" where
  "replayCount fingerprint stored =
     thenM (ensureM IdempotencyConflictError (co_fingerprint stored = fingerprint)) (returnM (stored, True))"

text \<open>The \<open>catch\<close> of a duplicate key: the stored result, or a conflict.\<close>

definition afterDuplicate :: "(inv_db \<Rightarrow> 'a option) \<Rightarrow> ('a \<Rightarrow> ('a \<times> bool) act) \<Rightarrow> ('a \<times> bool) act" where
  "afterDuplicate stored again =
     bindM (readM stored) (\<lambda>found. bindM (requireM IdempotencyConflictError found) again)"

section \<open>createMovement\<close>

definition hasText :: "string option \<Rightarrow> bool" where
  "hasText v \<longleftrightarrow> v \<noteq> None \<and> v \<noteq> Some []"

definition movementFor :: "command \<Rightarrow> movement_dto \<Rightarrow> string \<Rightarrow> int \<Rightarrow> int \<Rightarrow> id \<Rightarrow> nat \<Rightarrow> movement_row" where
  "movementFor cmd dto fingerprint units resulting i now =
     (movementRow i now (cm_tenant cmd, md_product dto, md_location dto) (md_type dto) units resulting)
       \<lparr>mv_reason := md_reason dto, mv_reference := md_reference dto, mv_key := cm_key cmd,
        mv_fingerprint := fingerprint, mv_user := cm_user cmd\<rparr>"

text \<open>The part of the transaction that follows the replay checks.\<close>

definition moveStock :: "command \<Rightarrow> movement_dto \<Rightarrow> string \<Rightarrow> string \<Rightarrow> balance_row \<Rightarrow> (movement_row \<times> bool) act" where
  "moveStock cmd dto change fingerprint balance =
     (let k = (cm_tenant cmd, md_product dto, md_location dto) in
      thenM (ensureM MovementReferenceRequiredError (md_type dto = INITIAL \<or> hasText (md_reference dto)))
      (bindM (readM (\<lambda>db. length (filter (\<lambda>m. movement_key m = k) (movements db)))) (\<lambda>existing.
      thenM (ensureM InitialStockAlreadyExistsError (md_type dto = INITIAL \<longrightarrow> \<not> 0 < existing))
      (bindM (liftE (stockUnits change)) (\<lambda>units.
       let resulting = ba_quantity balance + units;
           resultingAvailable = ba_available balance + units
       in
      thenM (ensureM InsufficientStockError (\<not> (resulting < 0 \<or> resultingAvailable < 0)))
      (thenM (updateBalance k (\<lambda>b. b\<lparr>ba_quantity := resulting, ba_available := resultingAvailable\<rparr>))
      (bindM newRow (\<lambda>(i, now).
      thenM (postMovement (movementFor cmd dto fingerprint units resulting i now)
             (noLotOptions\<lparr>lo_code := md_lot_code dto, lo_manufactured := md_manufactured dto, lo_expires := md_expires dto\<rparr>)
             (noSerialOptions\<lparr>so_serials := md_serials dto\<rparr>))
      (bindM (readM (findMovement (cm_tenant cmd) (cm_key cmd))) (\<lambda>found.
       bindM (requireM (Failure ''CREATED_INVENTORY_MOVEMENT_NOT_FOUND'') found) (\<lambda>movement.
       returnM (movement, False))))))))))))"

definition movementTransaction :: "command \<Rightarrow> movement_dto \<Rightarrow> string \<Rightarrow> string \<Rightarrow> (movement_row \<times> bool) act" where
  "movementTransaction cmd dto change fingerprint =
     (let k = (cm_tenant cmd, md_product dto, md_location dto) in
      bindM (readM (findMovement (cm_tenant cmd) (cm_key cmd))) (\<lambda>existing.
      case existing of Some stored \<Rightarrow> replayMovement fingerprint stored
      | None \<Rightarrow>
          thenM (assertTarget (cm_tenant cmd) (cm_warehouse cmd) (md_product dto) (md_location dto))
          (thenM (ensureBalance k)
          (bindM (lockBalance k) (\<lambda>balance.
           bindM (readM (findMovement (cm_tenant cmd) (cm_key cmd))) (\<lambda>replay.
           case replay of Some stored \<Rightarrow> replayMovement fingerprint stored
           | None \<Rightarrow> moveStock cmd dto change fingerprint balance))))))"

definition movementRequest :: "movement_dto \<Rightarrow> string \<Rightarrow> request" where
  "movementRequest dto change = MovementRequest (md_product dto) (md_location dto) (md_type dto) change (md_reason dto)
     (md_reference dto) (case md_serials dto of None \<Rightarrow> [] | Some s \<Rightarrow> s)"

definition createMovement :: "(request \<Rightarrow> string) \<Rightarrow> command \<Rightarrow> movement_dto \<Rightarrow> (movement_row \<times> bool) act" where
  "createMovement digest cmd dto =
     bindM (productQuantityPolicy (cm_tenant cmd) (md_product dto)) (\<lambda>policy.
     bindM (normalizeM (md_quantity dto) policy True True) (\<lambda>normalized.
     bindM (liftE (quantityChange (md_type dto) normalized)) (\<lambda>change.
      let fingerprint = digest (movementRequest dto change) in
      catchM (\<lambda>e. e = DuplicateEntry) (movementTransaction cmd dto change fingerprint)
        (\<lambda>_. afterDuplicate (findMovement (cm_tenant cmd) (cm_key cmd)) (replayMovement fingerprint)))))"

section \<open>createCount\<close>

text \<open>Unique \<open>(tenant_id, idempotency_key)\<close> and \<open>(movement_id)\<close>, and the \<open>CHECK\<close>.\<close>

definition insertCount :: "count_row \<Rightarrow> unit act" where
  "insertCount c =
     bindM (readM counts) (\<lambda>rows.
     thenM (ensureM DuplicateEntry (\<forall>r\<in>set rows. \<not> (co_tenant r = co_tenant c \<and> co_key r = co_key c) \<and>
              \<not> (co_movement c \<noteq> None \<and> co_movement r = co_movement c)))
     (thenM (ensureM CheckViolated (0 \<le> co_snapshot c \<and> 0 \<le> co_counted c))
       (writeM (\<lambda>db. db\<lparr>counts := counts db @ [c]\<rparr>))))"

definition adjustmentFor :: "command \<Rightarrow> count_dto \<Rightarrow> string \<Rightarrow> int \<Rightarrow> int \<Rightarrow> id \<Rightarrow> nat \<Rightarrow> movement_row" where
  "adjustmentFor cmd dto fingerprint variance resulting i now =
     (movementRow i now (cm_tenant cmd, cd_product dto, cd_location dto) ADJUSTMENT variance resulting)
       \<lparr>mv_reason := cd_reason dto, mv_reference := Some (cd_reference dto), mv_key := cm_key cmd,
        mv_fingerprint := fingerprint, mv_user := cm_user cmd\<rparr>"

text \<open>The adjustment of a count with a variance; it returns the id of the movement.\<close>

definition adjustToCount :: "command \<Rightarrow> count_dto \<Rightarrow> int \<Rightarrow> int \<Rightarrow> int \<Rightarrow> string \<Rightarrow> id option act" where
  "adjustToCount cmd dto counted variance resultingTotal fingerprint =
     (let k = (cm_tenant cmd, cd_product dto, cd_location dto) in
      if variance = 0 then returnM None
      else bindM newRow (\<lambda>(i, now).
           thenM (updateBalance k (\<lambda>b. b\<lparr>ba_quantity := resultingTotal, ba_available := counted\<rparr>))
           (thenM (postMovement (adjustmentFor cmd dto fingerprint variance resultingTotal i now) noLotOptions noSerialOptions)
             (returnM (Some i)))))"

definition recordCount :: "command \<Rightarrow> count_dto \<Rightarrow> int \<Rightarrow> int \<Rightarrow> string \<Rightarrow> balance_row \<Rightarrow> (count_row \<times> bool) act" where
  "recordCount cmd dto snapshot counted fingerprint balance =
     (let current = ba_available balance;
          variance = counted - current;
          resultingTotal = ba_quantity balance + variance
      in
      thenM (ensureM (InventoryCountConflictError current) (current = snapshot))
      (thenM (ensureM InsufficientStockError (\<not> resultingTotal < 0))
      (bindM (adjustToCount cmd dto counted variance resultingTotal fingerprint) (\<lambda>movementId.
       bindM newRow (\<lambda>(i, now).
       thenM (insertCount \<lparr>co_id = i, co_tenant = cm_tenant cmd, co_product = cd_product dto, co_location = cd_location dto,
          co_snapshot = snapshot, co_counted = counted, co_variance = variance, co_reason = cd_reason dto,
          co_reference = cd_reference dto, co_captured_at = cd_captured dto, co_user = cm_user cmd, co_movement = movementId,
          co_key = cm_key cmd, co_fingerprint = fingerprint\<rparr>)
       (bindM (readM (findCount (cm_tenant cmd) (cm_key cmd))) (\<lambda>found.
        bindM (requireM (Failure ''CREATED_INVENTORY_COUNT_NOT_FOUND'') found) (\<lambda>count.
        returnM (count, False)))))))))"

definition countTransaction :: "command \<Rightarrow> count_dto \<Rightarrow> int \<Rightarrow> int \<Rightarrow> string \<Rightarrow> (count_row \<times> bool) act" where
  "countTransaction cmd dto snapshot counted fingerprint =
     (let k = (cm_tenant cmd, cd_product dto, cd_location dto) in
      bindM (readM (findCount (cm_tenant cmd) (cm_key cmd))) (\<lambda>existing.
      case existing of Some stored \<Rightarrow> replayCount fingerprint stored
      | None \<Rightarrow>
          thenM (assertTarget (cm_tenant cmd) (cm_warehouse cmd) (cd_product dto) (cd_location dto))
          (thenM (ensureBalance k)
          (bindM (lockBalance k) (\<lambda>balance.
           bindM (readM (findCount (cm_tenant cmd) (cm_key cmd))) (\<lambda>replay.
           case replay of Some stored \<Rightarrow> replayCount fingerprint stored
           | None \<Rightarrow> recordCount cmd dto snapshot counted fingerprint balance))))))"

definition countUnits :: "product_quantity_policy \<Rightarrow> string \<Rightarrow> int act" where
  "countUnits policy value = bindM (normalizeM value policy False False) (\<lambda>v. liftE (stockUnits v))"

definition createCount :: "(request \<Rightarrow> string) \<Rightarrow> command \<Rightarrow> count_dto \<Rightarrow> (count_row \<times> bool) act" where
  "createCount digest cmd dto =
     bindM (productQuantityPolicy (cm_tenant cmd) (cd_product dto)) (\<lambda>policy.
     bindM (countUnits policy (cd_snapshot dto)) (\<lambda>snapshot.
     bindM (countUnits policy (cd_counted dto)) (\<lambda>counted.
      let fingerprint = digest (CountRequest (cd_product dto) (cd_location dto) (stock_fromUnits snapshot)
             (stock_fromUnits counted) (cd_reason dto) (cd_reference dto) (cd_captured dto)) in
      catchM (\<lambda>e. e = DuplicateEntry) (countTransaction cmd dto snapshot counted fingerprint)
        (\<lambda>_. afterDuplicate (findCount (cm_tenant cmd) (cm_key cmd)) (replayCount fingerprint)))))"

section \<open>createStateTransition\<close>

definition stateColumn :: "stock_state \<Rightarrow> balance_row \<Rightarrow> int" where
  "stateColumn s = (case s of AVAILABLE \<Rightarrow> ba_available | RESERVED \<Rightarrow> ba_reserved | DAMAGED \<Rightarrow> ba_damaged | IN_TRANSIT \<Rightarrow> ba_in_transit)"

definition setStateColumn :: "stock_state \<Rightarrow> int \<Rightarrow> balance_row \<Rightarrow> balance_row" where
  "setStateColumn s q b = (case s of AVAILABLE \<Rightarrow> b\<lparr>ba_available := q\<rparr> | RESERVED \<Rightarrow> b\<lparr>ba_reserved := q\<rparr>
     | DAMAGED \<Rightarrow> b\<lparr>ba_damaged := q\<rparr> | IN_TRANSIT \<Rightarrow> b\<lparr>ba_in_transit := q\<rparr>)"

definition transitionFor :: "command \<Rightarrow> transition_dto \<Rightarrow> string \<Rightarrow> int \<Rightarrow> int \<Rightarrow> id \<Rightarrow> nat \<Rightarrow> movement_row" where
  "transitionFor cmd dto fingerprint units resulting i now =
     (movementRow i now (cm_tenant cmd, td_product dto, td_location dto) STATE_TRANSITION 0 resulting)
       \<lparr>mv_from := Some (td_from dto), mv_to := Some (td_to dto), mv_state_quantity := Some units,
        mv_reason := td_reason dto, mv_reference := Some (td_reference dto), mv_key := cm_key cmd,
        mv_fingerprint := fingerprint, mv_user := cm_user cmd\<rparr>"

definition changeState :: "command \<Rightarrow> transition_dto \<Rightarrow> int \<Rightarrow> string \<Rightarrow> balance_row \<Rightarrow> (movement_row \<times> bool) act" where
  "changeState cmd dto units fingerprint balance =
     (let k = (cm_tenant cmd, td_product dto, td_location dto);
          source = stateColumn (td_from dto) balance
      in
      thenM (ensureM InsufficientStockStateError (\<not> source < units))
      (thenM (updateBalance k (\<lambda>b. setStateColumn (td_to dto) (stateColumn (td_to dto) balance + units)
                (setStateColumn (td_from dto) (source - units) b)))
      (bindM newRow (\<lambda>(i, now).
      thenM (postMovement (transitionFor cmd dto fingerprint units (ba_quantity balance) i now)
             noLotOptions (noSerialOptions\<lparr>so_serials := td_serials dto\<rparr>))
      (bindM (readM (findMovement (cm_tenant cmd) (cm_key cmd))) (\<lambda>found.
       bindM (requireM (Failure ''CREATED_STATE_TRANSITION_NOT_FOUND'') found) (\<lambda>movement.
       returnM (movement, False))))))))"

definition transitionTransaction :: "command \<Rightarrow> transition_dto \<Rightarrow> int \<Rightarrow> string \<Rightarrow> (movement_row \<times> bool) act" where
  "transitionTransaction cmd dto units fingerprint =
     (let k = (cm_tenant cmd, td_product dto, td_location dto) in
      bindM (readM (findMovement (cm_tenant cmd) (cm_key cmd))) (\<lambda>existing.
      case existing of Some stored \<Rightarrow> replayMovement fingerprint stored
      | None \<Rightarrow>
          thenM (assertTarget (cm_tenant cmd) (cm_warehouse cmd) (td_product dto) (td_location dto))
          (thenM (ensureBalance k)
          (bindM (readM (findMovement (cm_tenant cmd) (cm_key cmd))) (\<lambda>replay.
           case replay of Some stored \<Rightarrow> replayMovement fingerprint stored
           | None \<Rightarrow> bindM (lockBalance k) (changeState cmd dto units fingerprint))))))"

definition createStateTransition :: "(request \<Rightarrow> string) \<Rightarrow> command \<Rightarrow> transition_dto \<Rightarrow> (movement_row \<times> bool) act" where
  "createStateTransition digest cmd dto =
     thenM (ensureM InvalidStockStateTransitionError
        (\<not> (td_from dto = td_to dto \<or> (td_from dto \<noteq> AVAILABLE \<and> td_to dto \<noteq> AVAILABLE))))
     (bindM (productQuantityPolicy (cm_tenant cmd) (td_product dto)) (\<lambda>policy.
      bindM (normalizeM (td_quantity dto) policy False True) (\<lambda>normalized.
      bindM (liftE (stockUnits normalized)) (\<lambda>units.
      thenM (ensureM InvalidStockStateTransitionError (\<not> units \<le> 0))
      (let fingerprint = digest (TransitionRequest (td_product dto) (td_location dto) (td_from dto) (td_to dto)
             (stock_fromUnits units) (td_reason dto) (td_reference dto) (case td_serials dto of None \<Rightarrow> [] | Some s \<Rightarrow> s)) in
      catchM (\<lambda>e. e = DuplicateEntry) (transitionTransaction cmd dto units fingerprint)
        (\<lambda>_. afterDuplicate (findMovement (cm_tenant cmd) (cm_key cmd)) (replayMovement fingerprint)))))))"

end
