(* ===== verification/StockLaws.thy ===== *)
theory StockLaws
  imports StockCommands
begin

text \<open>
  The laws of the stock commands (theory \<open>StockCommands\<close>): what a successful run did, that each
  keeps the stock ledger, and the contract of an idempotent command, stated as a locale and
  interpreted on the three commands.
\<close>

section \<open>The contract of an idempotent command\<close>

text \<open>A command that stores its result under a key with the fingerprint of its request. The
  fingerprint depends on the database through the quantity policy of the product, and may be
  refused.\<close>

locale idempotent_command =
  fixes run :: "'req \<Rightarrow> inv_db \<Rightarrow> inv_error + ('r \<times> bool) \<times> inv_db"
    and stored :: "'req \<Rightarrow> inv_db \<Rightarrow> 'r option"
    and printed :: "'r \<Rightarrow> string"
    and fingerprint :: "'req \<Rightarrow> inv_db \<Rightarrow> inv_error + string"
    and conflict :: inv_error
  assumes refused: "fingerprint req db = Inl e \<Longrightarrow> run req db = Inl e"
    and replays: "fingerprint req db = Inr f \<Longrightarrow> stored req db = Some r \<Longrightarrow>
      run req db = (if printed r = f then Inr ((r, True), db) else Inl conflict)"
    and stores: "fingerprint req db = Inr f \<Longrightarrow> run req db = Inr ((r, b), db') \<Longrightarrow> stored req db' = Some r \<and> printed r = f"
    and stable: "run req db = Inr (x, db') \<Longrightarrow> fingerprint req' db' = fingerprint req' db"
begin

lemma accepted: "run req db = Inr x \<Longrightarrow> \<exists>f. fingerprint req db = Inr f"
  using refused by (cases "fingerprint req db") force+

text \<open>Sending the request again gives the stored result and changes nothing.\<close>

lemma again:
  assumes "run req db = Inr ((r, b), db')"
  shows "run req db' = Inr ((r, True), db')"
proof -
  obtain f where f: "fingerprint req db = Inr f" using accepted assms by blast
  then have "fingerprint req db' = Inr f" using stable [OF assms] by simp
  with stores [OF f assms] show ?thesis using replays by simp
qed

text \<open>Another request under the same key is refused.\<close>

lemma conflicting:
  assumes "run req db = Inr ((r, b), db')" "stored req' db' = stored req db'" "fingerprint req' db = Inr f'" "f' \<noteq> printed r"
  shows "run req' db' = Inl conflict"
proof -
  obtain f where f: "fingerprint req db = Inr f" using accepted assms(1) by blast
  have "fingerprint req' db' = Inr f'" using stable [OF assms(1)] assms(3) by simp
  with replays [of req' db' f' r] stores [OF f assms(1)] assms(2,4) show ?thesis by auto
qed

end

section \<open>Views that the commands keep\<close>

text \<open>The views of the product policies and of the locations: what decides fingerprints and
  whether a stored movement is found.\<close>

definition catalogue :: "inv_db \<Rightarrow> product_row list \<times> location_row list" where
  "catalogue db = (map productCore (products db), locations db)"

lemma catalogue_view [simp]: "posting_view catalogue"
  by (simp add: view_defs catalogue_def)

lemma policy_catalogue:
  assumes "catalogue db' = catalogue db"
  shows "map_option pr_policy (selectProduct t p db') = map_option pr_policy (selectProduct t p db)"
proof -
  have "map_option pr_policy (selectProduct t p db) =
    map_option pr_policy (List.find (\<lambda>r. pr_id r = p \<and> pr_tenant r = t) (map productCore (products db)))" for db
  proof -
    have "map_option pr_policy (List.find (\<lambda>r. pr_id r = p \<and> pr_tenant r = t) rows) =
      map_option pr_policy (List.find (\<lambda>r. pr_id r = p \<and> pr_tenant r = t) (map productCore rows))" for rows
      by (induction rows) (simp_all add: productCore_def)
    then show ?thesis by (simp add: selectProduct_def)
  qed
  then show ?thesis using assms by (simp add: catalogue_def)
qed

lemma exists_catalogue:
  assumes "catalogue db' = catalogue db"
  shows "(\<exists>p\<in>set (products db'). pr_id p = i \<and> pr_tenant p = t) = (\<exists>p\<in>set (products db). pr_id p = i \<and> pr_tenant p = t)"
    "locations db' = locations db"
proof -
  have core: "(\<exists>p\<in>set (products db). pr_id p = i \<and> pr_tenant p = t) = (\<exists>p\<in>set (map productCore (products db)). pr_id p = i \<and> pr_tenant p = t)" for db
    by (simp add: productCore_def)
  then show "(\<exists>p\<in>set (products db'). pr_id p = i \<and> pr_tenant p = t) = (\<exists>p\<in>set (products db). pr_id p = i \<and> pr_tenant p = t)"
    unfolding core [of db'] core [of db] using assms by (simp only: catalogue_def prod.inject)
  show "locations db' = locations db" using assms by (simp add: catalogue_def)
qed

lemma find_core:
  "(\<And>m. P (movementCore m) = P m) \<Longrightarrow> map_option movementCore (List.find P ms) = List.find P (map movementCore ms)"
  by (induction ms) auto

lemma core_props [simp]:
  "mv_id (movementCore m) = mv_id m" "mv_tenant (movementCore m) = mv_tenant m" "mv_product (movementCore m) = mv_product m"
  "mv_location (movementCore m) = mv_location m" "mv_key (movementCore m) = mv_key m" "mv_fingerprint (movementCore m) = mv_fingerprint m"
  "mv_quantity (movementCore m) = mv_quantity m" "mv_resulting (movementCore m) = mv_resulting m" "mv_type (movementCore m) = mv_type m"
  "mv_state_quantity (movementCore m) = mv_state_quantity m" "mv_from (movementCore m) = mv_from m" "mv_to (movementCore m) = mv_to m"
  by (simp_all add: movementCore_def)

text \<open>The movement found under a key after posting is the posted one.\<close>

lemma findMovement_posted:
  assumes post: "postMovement m lo so db = Inr (x, db')" and found: "findMovement (mv_tenant m) (mv_key m) db' = Some r"
  shows "movementCore r = movementCore m"
proof -
  have none: "\<forall>r\<in>set (movements db). \<not> (mv_tenant r = mv_tenant m \<and> mv_key r = mv_key m)"
    by (rule postMovement_Inr [OF post])
  have r: "r \<in> set (movements db')" "mv_tenant r = mv_tenant m" "mv_key r = mv_key m"
    using find_Some_props [OF found [unfolded findMovement_def]] by simp_all
  have "movementCore r \<in> set (map movementCore (movements db'))" using r(1) by simp
  then have "movementCore r \<in> set (map movementCore (movements db)) \<or> movementCore r = movementCore m"
    unfolding postMovement_movements [OF post] by auto
  moreover have "movementCore r \<notin> set (map movementCore (movements db))"
  proof
    assume "movementCore r \<in> set (map movementCore (movements db))"
    then obtain r' where r': "r' \<in> set (movements db)" "movementCore r = movementCore r'" by auto
    then have "mv_tenant r' = mv_tenant r" "mv_key r' = mv_key r" by (metis core_props(2), metis core_props(5))
    with none r r'(1) show False by force
  qed
  ultimately show ?thesis by blast
qed

section \<open>One balance and one movement\<close>

lemma lockBalance_Inr [simp]: "lockBalance k db = Inr (b, db') \<longleftrightarrow> selectBalance k db = Some b \<and> db' = db"
  by (auto simp: lockBalance_def bindM_Inr)

lemma movementFor_simps [simp]:
  "mv_id (movementFor cmd dto f u r i now) = i" "mv_product (movementFor cmd dto f u r i now) = md_product dto" "mv_location (movementFor cmd dto f u r i now) = md_location dto"
  "mv_quantity (movementFor cmd dto f u r i now) = u" "mv_resulting (movementFor cmd dto f u r i now) = r"
  "mv_tenant (movementFor cmd dto f u r i now) = cm_tenant cmd" "mv_key (movementFor cmd dto f u r i now) = cm_key cmd"
  "mv_fingerprint (movementFor cmd dto f u r i now) = f" "mv_type (movementFor cmd dto f u r i now) = md_type dto"
  by (simp_all add: movementFor_def movementRow_def)

lemma adjustmentFor_simps [simp]:
  "mv_id (adjustmentFor cmd cdto f u r i now) = i" "mv_tenant (adjustmentFor cmd cdto f u r i now) = cm_tenant cmd"
  "mv_product (adjustmentFor cmd cdto f u r i now) = cd_product cdto" "mv_location (adjustmentFor cmd cdto f u r i now) = cd_location cdto"
  "mv_quantity (adjustmentFor cmd cdto f u r i now) = u" "mv_key (adjustmentFor cmd cdto f u r i now) = cm_key cmd"
  by (simp_all add: adjustmentFor_def movementRow_def)

lemma transitionFor_simps [simp]:
  "mv_id (transitionFor cmd tdto f u r i now) = i" "mv_product (transitionFor cmd tdto f u r i now) = td_product tdto" "mv_location (transitionFor cmd tdto f u r i now) = td_location tdto"
  "mv_quantity (transitionFor cmd tdto f u r i now) = 0" "mv_tenant (transitionFor cmd tdto f u r i now) = cm_tenant cmd"
  "mv_key (transitionFor cmd tdto f u r i now) = cm_key cmd" "mv_fingerprint (transitionFor cmd tdto f u r i now) = f"
  "mv_from (transitionFor cmd tdto f u r i now) = Some (td_from tdto)" "mv_to (transitionFor cmd tdto f u r i now) = Some (td_to tdto)"
  "mv_state_quantity (transitionFor cmd tdto f u r i now) = Some u" "mv_type (transitionFor cmd tdto f u r i now) = STATE_TRANSITION"
  by (simp_all add: transitionFor_def movementRow_def)

text \<open>Rewriting one balance and posting a movement for the difference keeps the ledger.\<close>

lemma stock_step:
  assumes inv: "stock_inv db" and b: "selectBalance k db = Some b" and upd: "updateBalance k u db = Inr (x, db1)"
    and key: "\<And>b. balance_key (u b) = balance_key b"
    and post: "postMovement m lo so (db1\<lparr>ticks := n\<rparr>) = Inr (y, db')" and n: "ticks db1 \<le> n"
    and fresh: "mv_id m \<notin> mv_id ` set (movements db)" "mv_id m \<in> env_uuid db ` {..<n}"
    and m: "movement_key m = k" "mv_quantity m = ba_quantity (u b) - ba_quantity b"
  shows "stock_inv db'"
proof -
  have one: "stock_gap ((\<lambda>_. 0)(k := ba_quantity (u b) - ba_quantity b)) db1"
    using updateBalance_gap [OF upd inv [unfolded stock_inv_def] b key] by simp
  have same: "movements db1 = movements db" "env_uuid db1 = env_uuid db" "ticks db1 = ticks db" using upd by (simp_all add: updateBalance_Inr)
  have two: "stock_gap ((\<lambda>_. 0)(k := ba_quantity (u b) - ba_quantity b)) (db1\<lparr>ticks := n\<rparr>)"
    using one n same by (auto simp: stock_gap_def issued_def balanceOf_def movedAt_def movedOf_def valuationQuantity_def)
  have "stock_gap (((\<lambda>_. 0)(k := ba_quantity (u b) - ba_quantity b))(movement_key m :=
      ((\<lambda>_. 0)(k := ba_quantity (u b) - ba_quantity b)) (movement_key m) - mv_quantity m)) db'"
    by (rule postMovement_gap [OF post two]) (use fresh in \<open>simp_all add: same issued_def\<close>)
  then show ?thesis by (simp add: stock_inv_def m fun_upd_idem)
qed

lemma ensureBalance_same:
  assumes "ensureBalance k db = Inr (x, db')"
  shows "movements db' = movements db" "catalogue db' = catalogue db" "ticks db' = ticks db" "env_uuid db' = env_uuid db" "counts db' = counts db"
    "selectBalance k db' = Some (case selectBalance k db of None \<Rightarrow> emptyBalance k | Some b \<Rightarrow> b)"
    "k' \<noteq> k \<Longrightarrow> selectBalance k' db' = selectBalance k' db"
  using assms
  by (auto simp: ensureBalance_Inr catalogue_def selectBalance_def find_append split: option.splits)

definition balanceAt :: "id \<times> id \<times> id \<Rightarrow> inv_db \<Rightarrow> balance_row" where
  "balanceAt k db = (case selectBalance k db of None \<Rightarrow> emptyBalance k | Some b \<Rightarrow> b)"

lemma ensureBalance_inv: "ensureBalance k db = Inr (x, db') \<Longrightarrow> stock_inv db \<Longrightarrow> stock_inv db'"
  unfolding stock_inv_def by (rule ensureBalance_gap)

lemma fresh_tick: "stock_inv db \<Longrightarrow> env_uuid db (ticks db) \<notin> mv_id ` set (movements db)"
  using fresh_not_issued [of db] unfolding stock_inv_def stock_gap_def by blast

lemma updateBalance_select:
  assumes "updateBalance k u db = Inr (x, db')" "\<And>b. balance_key (u b) = balance_key b"
  shows "selectBalance k' db' = map_option (\<lambda>b. if balance_key b = k then u b else b) (selectBalance k' db)"
  using assms(1) unfolding updateBalance_Inr selectBalance_def
  by (simp add: find_update_where [where u = u] assms(2))

section \<open>createMovement\<close>

lemma moveStock_Inr:
  assumes "moveStock cmd dto change f b db = Inr (res, db')"
  obtains u db1 r where "stockUnits change = Inr u" "0 \<le> ba_quantity b + u" "0 \<le> ba_available b + u"
    "updateBalance (cm_tenant cmd, md_product dto, md_location dto)
       (\<lambda>b'. b'\<lparr>ba_quantity := ba_quantity b + u, ba_available := ba_available b + u\<rparr>) db = Inr ((), db1)"
    "postMovement (movementFor cmd dto f u (ba_quantity b + u) (env_uuid db1 (ticks db1)) (env_clock db1 (ticks db1)))
       (noLotOptions\<lparr>lo_code := md_lot_code dto, lo_manufactured := md_manufactured dto, lo_expires := md_expires dto\<rparr>)
       (noSerialOptions\<lparr>so_serials := md_serials dto\<rparr>) (db1\<lparr>ticks := Suc (ticks db1)\<rparr>) = Inr ((), db')"
    "findMovement (cm_tenant cmd) (cm_key cmd) db' = Some r" "res = (r, False)"
  using assms unfolding moveStock_def Let_def
  by (auto simp: runM not_less)

lemma replayMovement_Inr [simp]: "replayMovement f m db = Inr (res, db') \<longleftrightarrow> mv_fingerprint m = f \<and> res = (m, True) \<and> db' = db"
  by (auto simp: replayMovement_def runM)

lemma findMovement_cong:
  assumes "movements db' = movements db" "catalogue db' = catalogue db"
  shows "findMovement t k db' = findMovement t k db"
  by (simp add: findMovement_def exists_catalogue [OF assms(2)] assms(1))

lemma movementTransaction_Inr:
  assumes "movementTransaction cmd dto change f db = Inr (res, db')"
  obtains (replayed) m where "findMovement (cm_tenant cmd) (cm_key cmd) db = Some m" "mv_fingerprint m = f" "res = (m, True)" "db' = db"
  | (moved) db0 b where "findMovement (cm_tenant cmd) (cm_key cmd) db = None"
      "ensureBalance (cm_tenant cmd, md_product dto, md_location dto) db = Inr ((), db0)"
      "selectBalance (cm_tenant cmd, md_product dto, md_location dto) db0 = Some b" "moveStock cmd dto change f b db0 = Inr (res, db')"
proof (cases "findMovement (cm_tenant cmd) (cm_key cmd) db")
  case (Some m)
  then show ?thesis using assms replayed by (simp add: movementTransaction_def Let_def bindM_Inr)
next
  case None
  let ?k = "(cm_tenant cmd, md_product dto, md_location dto)"
  from assms None obtain db0 b where S: "ensureBalance ?k db = Inr ((), db0)" "selectBalance ?k db0 = Some b"
    and rest: "(case findMovement (cm_tenant cmd) (cm_key cmd) db0 of Some stored \<Rightarrow> replayMovement f stored
       | None \<Rightarrow> moveStock cmd dto change f b) db0 = Inr (res, db')"
    unfolding movementTransaction_def Let_def by (auto simp: runM assertTarget_def)
  have "findMovement (cm_tenant cmd) (cm_key cmd) db0 = None"
    using findMovement_cong [OF ensureBalance_same(1,2) [OF S(1)]] None by simp
  with rest S None show ?thesis using moved by simp
qed

lemma catch_duplicate_Inr:
  "catchM (\<lambda>e. e = DuplicateEntry) body (\<lambda>_. afterDuplicate st ag) db = Inr res \<longleftrightarrow>
     body db = Inr res \<or> (body db = Inl DuplicateEntry \<and> (\<exists>m. st db = Some m \<and> ag m db = Inr res))"
  by (auto simp: catchM_def afterDuplicate_def bindM_Inr split: sum.splits if_splits)

lemma updateBalance_catalogue: "updateBalance k u db = Inr (x, db') \<Longrightarrow> catalogue db' = catalogue db"
  by (auto simp: updateBalance_Inr catalogue_def)

lemma postMovement_catalogue: "postMovement m lo so db = Inr (x, db') \<Longrightarrow> catalogue db' = catalogue db"
  using postMovement_view [OF _ catalogue_view] by (simp add: catalogue_def)

lemma catalogue_ticks [simp]: "catalogue (db\<lparr>ticks := n\<rparr>) = catalogue db"
  by (simp add: catalogue_def)

definition normalized :: "string \<Rightarrow> id \<Rightarrow> id \<Rightarrow> bool \<Rightarrow> bool \<Rightarrow> inv_db \<Rightarrow> inv_error + string" where
  "normalized v t p allowNegative enforce db =
     (case map_option pr_policy (selectProduct t p db) of None \<Rightarrow> Inl InventoryTargetNotFoundError
      | Some policy \<Rightarrow> (case normalizeProductQuantity v policy allowNegative enforce of Inl e \<Rightarrow> Inl (QuantityRejected e) | Inr n \<Rightarrow> Inr n))"

definition movementChange :: "command \<Rightarrow> movement_dto \<Rightarrow> inv_db \<Rightarrow> inv_error + string" where
  "movementChange cmd dto db = bindE (normalized (md_quantity dto) (cm_tenant cmd) (md_product dto) True True db) (quantityChange (md_type dto))"

lemma normalized_cong:
  assumes "catalogue db' = catalogue db"
  shows "normalized v t p neg enf db' = normalized v t p neg enf db"
  by (simp add: normalized_def policy_catalogue [OF assms])

lemma policy_run:
  "bindM (productQuantityPolicy t p) g db =
     (case map_option pr_policy (selectProduct t p db) of None \<Rightarrow> Inl InventoryTargetNotFoundError | Some policy \<Rightarrow> g policy db)"
  by (simp add: productQuantityPolicy_def evalM split: option.split)

lemma normalizeM_run:
  "bindM (normalizeM v policy neg enf) g db =
     (case normalizeProductQuantity v policy neg enf of Inl e \<Rightarrow> Inl (QuantityRejected e) | Inr n \<Rightarrow> g n db)"
  by (simp add: normalizeM_def evalM split: sum.split)

lemma liftE_run: "bindM (liftE r) g db = (case r of Inl e \<Rightarrow> Inl e | Inr x \<Rightarrow> g x db)"
  by (simp add: liftE_def evalM split: sum.split)

lemma createMovement_run:
  "createMovement digest cmd dto db =
     (case movementChange cmd dto db of Inl e \<Rightarrow> Inl e
      | Inr change \<Rightarrow> catchM (\<lambda>e. e = DuplicateEntry) (movementTransaction cmd dto change (digest (movementRequest dto change)))
          (\<lambda>_. afterDuplicate (findMovement (cm_tenant cmd) (cm_key cmd)) (replayMovement (digest (movementRequest dto change)))) db)"
  unfolding createMovement_def policy_run movementChange_def normalized_def
  by (simp add: normalizeM_run liftE_run bindE_def Let_def split: option.split sum.split)

lemma createMovement_Inr:
  assumes "createMovement digest cmd dto db = Inr (res, db')"
  obtains change where "movementChange cmd dto db = Inr change"
    "(\<exists>m. findMovement (cm_tenant cmd) (cm_key cmd) db = Some m \<and> mv_fingerprint m = digest (movementRequest dto change) \<and> res = (m, True) \<and> db' = db) \<or>
     (\<exists>db0 b. findMovement (cm_tenant cmd) (cm_key cmd) db = None \<and>
        ensureBalance (cm_tenant cmd, md_product dto, md_location dto) db = Inr ((), db0) \<and>
        selectBalance (cm_tenant cmd, md_product dto, md_location dto) db0 = Some b \<and>
        moveStock cmd dto change (digest (movementRequest dto change)) b db0 = Inr (res, db'))"
proof -
  obtain change where c: "movementChange cmd dto db = Inr change"
    using assms by (auto simp: createMovement_run split: sum.splits)
  let ?f = "digest (movementRequest dto change)"
  have "movementTransaction cmd dto change ?f db = Inr (res, db') \<or>
    (\<exists>m. findMovement (cm_tenant cmd) (cm_key cmd) db = Some m \<and> replayMovement ?f m db = Inr (res, db'))"
    using assms c by (auto simp: createMovement_run catch_duplicate_Inr)
  then show ?thesis
  proof
    assume "movementTransaction cmd dto change ?f db = Inr (res, db')"
    then show ?thesis
      by (cases rule: movementTransaction_Inr) (rule that [OF c], blast)+
  next
    assume "\<exists>m. findMovement (cm_tenant cmd) (cm_key cmd) db = Some m \<and> replayMovement ?f m db = Inr (res, db')"
    then show ?thesis by (intro that [OF c]) auto
  qed
qed

lemma createMovement_inv: "preserves stock_inv (createMovement digest cmd dto)"
proof (rule preservesI)
  fix db res db'
  assume inv: "stock_inv db" and "createMovement digest cmd dto db = Inr (res, db')"
  from this(2) obtain change where C: "movementChange cmd dto db = Inr change" "db' = db \<or>
     (\<exists>db0 b. ensureBalance (cm_tenant cmd, md_product dto, md_location dto) db = Inr ((), db0) \<and>
        selectBalance (cm_tenant cmd, md_product dto, md_location dto) db0 = Some b \<and>
        moveStock cmd dto change (digest (movementRequest dto change)) b db0 = Inr (res, db'))"
    by (rule createMovement_Inr) blast
  from C(2) show "stock_inv db'"
  proof (elim disjE exE conjE)
    fix db0 b
    assume E: "ensureBalance (cm_tenant cmd, md_product dto, md_location dto) db = Inr ((), db0)"
      and b: "selectBalance (cm_tenant cmd, md_product dto, md_location dto) db0 = Some b"
      and M: "moveStock cmd dto change (digest (movementRequest dto change)) b db0 = Inr (res, db')"
    note inv0 = ensureBalance_inv [OF E inv]
    show ?thesis
    proof (rule moveStock_Inr [OF M])
      fix u r and db1 :: inv_db
      assume U: "updateBalance (cm_tenant cmd, md_product dto, md_location dto)
          (\<lambda>b'. b'\<lparr>ba_quantity := ba_quantity b + u, ba_available := ba_available b + u\<rparr>) db0 = Inr ((), db1)"
        and P: "postMovement (movementFor cmd dto (digest (movementRequest dto change)) u (ba_quantity b + u) (env_uuid db1 (ticks db1)) (env_clock db1 (ticks db1)))
          (noLotOptions\<lparr>lo_code := md_lot_code dto, lo_manufactured := md_manufactured dto, lo_expires := md_expires dto\<rparr>)
          (noSerialOptions\<lparr>so_serials := md_serials dto\<rparr>) (db1\<lparr>ticks := Suc (ticks db1)\<rparr>) = Inr ((), db')"
      have same: "ticks db1 = ticks db0" "env_uuid db1 = env_uuid db0" using U by (simp_all add: updateBalance_Inr)
      show ?thesis
        by (rule stock_step [OF inv0 b U _ P]) (use fresh_tick [OF inv0] in \<open>simp_all add: same\<close>)
    qed
  qed (use inv in simp)
qed

lemma createMovement_catalogue:
  assumes "createMovement digest cmd dto db = Inr (res, db')"
  shows "catalogue db' = catalogue db"
proof -
  obtain change where C: "movementChange cmd dto db = Inr change" "db' = db \<or>
     (\<exists>db0 b. ensureBalance (cm_tenant cmd, md_product dto, md_location dto) db = Inr ((), db0) \<and>
        moveStock cmd dto change (digest (movementRequest dto change)) b db0 = Inr (res, db'))"
    by (rule createMovement_Inr [OF assms]) blast
  from C(2) show ?thesis
    by (elim disjE exE conjE moveStock_Inr)
      (simp_all add: ensureBalance_same(2) updateBalance_catalogue postMovement_catalogue)
qed

lemma moveStock_stores:
  assumes "moveStock cmd dto change f b db = Inr ((r, flag), db')"
  shows "findMovement (cm_tenant cmd) (cm_key cmd) db' = Some r" "mv_fingerprint r = f"
proof -
  obtain u q i now db1 lo so where P: "postMovement (movementFor cmd dto f u q i now) lo so db1 = Inr ((), db')"
    and r: "findMovement (cm_tenant cmd) (cm_key cmd) db' = Some r"
    by (rule moveStock_Inr [OF assms]) (simp add: that)
  show "findMovement (cm_tenant cmd) (cm_key cmd) db' = Some r" by (rule r)
  have "movementCore r = movementCore (movementFor cmd dto f u q i now)"
    by (rule findMovement_posted [OF P]) (use r in simp)
  then show "mv_fingerprint r = f" by (metis core_props(6) movementFor_simps(8))
qed

interpretation movement_command: idempotent_command
  "\<lambda>(cmd, dto). createMovement digest cmd dto" "\<lambda>(cmd, dto). findMovement (cm_tenant cmd) (cm_key cmd)" mv_fingerprint
  "\<lambda>(cmd, dto) db. bindE (movementChange cmd dto db) (\<lambda>change. Inr (digest (movementRequest dto change)))"
  IdempotencyConflictError for digest
proof (unfold_locales; clarsimp split: prod.splits)
  fix cmd dto db e
  assume "bindE (movementChange cmd dto db) (\<lambda>change. Inr (digest (movementRequest dto change))) = Inl e"
  then show "createMovement digest cmd dto db = Inl e"
    by (auto simp: createMovement_run bindE_def split: sum.splits)
next
  fix cmd dto db f r
  assume "bindE (movementChange cmd dto db) (\<lambda>change. Inr (digest (movementRequest dto change))) = Inr f"
    "findMovement (cm_tenant cmd) (cm_key cmd) db = Some r"
  then show "(mv_fingerprint r = f \<longrightarrow> createMovement digest cmd dto db = Inr ((r, True), db)) \<and>
      (mv_fingerprint r \<noteq> f \<longrightarrow> createMovement digest cmd dto db = Inl IdempotencyConflictError)"
    by (auto simp: createMovement_run bindE_Inr movementTransaction_def replayMovement_def Let_def evalM)
next
  fix cmd dto db f r b db'
  assume f: "bindE (movementChange cmd dto db) (\<lambda>change. Inr (digest (movementRequest dto change))) = Inr f"
    and run: "createMovement digest cmd dto db = Inr ((r, b), db')"
  show "findMovement (cm_tenant cmd) (cm_key cmd) db' = Some r \<and> mv_fingerprint r = f"
    by (rule createMovement_Inr [OF run]) (use f moveStock_stores in \<open>auto simp: bindE_Inr\<close>)
next
  fix cmd dto db r b db' cmd' dto'
  assume "createMovement digest cmd dto db = Inr ((r, b), db')"
  then show "bindE (movementChange cmd' dto' db') (\<lambda>change. Inr (digest (movementRequest dto' change))) =
      bindE (movementChange cmd' dto' db) (\<lambda>change. Inr (digest (movementRequest dto' change)))"
    using normalized_cong [OF createMovement_catalogue] by (simp add: movementChange_def)
qed

section \<open>createStateTransition\<close>

lemma stateColumn_set [simp]:
  "stateColumn s (setStateColumn s' q b) = (if s = s' then q else stateColumn s b)"
  "balance_key (setStateColumn s q b) = balance_key b" "ba_quantity (setStateColumn s q b) = ba_quantity b"
  "ba_tenant (setStateColumn s q b) = ba_tenant b" "ba_product (setStateColumn s q b) = ba_product b" "ba_location (setStateColumn s q b) = ba_location b"
  by (cases s; cases s'; simp add: setStateColumn_def stateColumn_def)+

lemma changeState_Inr:
  assumes "changeState cmd dto u f b db = Inr (res, db')"
  obtains db1 r where "u \<le> stateColumn (td_from dto) b"
    "updateBalance (cm_tenant cmd, td_product dto, td_location dto)
       (\<lambda>b'. setStateColumn (td_to dto) (stateColumn (td_to dto) b + u) (setStateColumn (td_from dto) (stateColumn (td_from dto) b - u) b')) db = Inr ((), db1)"
    "postMovement (transitionFor cmd dto f u (ba_quantity b) (env_uuid db1 (ticks db1)) (env_clock db1 (ticks db1)))
       noLotOptions (noSerialOptions\<lparr>so_serials := td_serials dto\<rparr>) (db1\<lparr>ticks := Suc (ticks db1)\<rparr>) = Inr ((), db')"
    "findMovement (cm_tenant cmd) (cm_key cmd) db' = Some r" "res = (r, False)"
  using assms unfolding changeState_def Let_def
  by (auto simp: runM not_less)

lemma transitionTransaction_Inr:
  assumes "transitionTransaction cmd dto u f db = Inr (res, db')"
  obtains (replayed) m where "findMovement (cm_tenant cmd) (cm_key cmd) db = Some m" "mv_fingerprint m = f" "res = (m, True)" "db' = db"
  | (changed) db0 b where "findMovement (cm_tenant cmd) (cm_key cmd) db = None"
      "ensureBalance (cm_tenant cmd, td_product dto, td_location dto) db = Inr ((), db0)"
      "selectBalance (cm_tenant cmd, td_product dto, td_location dto) db0 = Some b" "changeState cmd dto u f b db0 = Inr (res, db')"
proof (cases "findMovement (cm_tenant cmd) (cm_key cmd) db")
  case (Some m)
  then show ?thesis using assms replayed by (simp add: transitionTransaction_def Let_def bindM_Inr)
next
  case None
  let ?k = "(cm_tenant cmd, td_product dto, td_location dto)"
  from assms None obtain db0 where S: "ensureBalance ?k db = Inr ((), db0)"
    and rest: "(case findMovement (cm_tenant cmd) (cm_key cmd) db0 of Some stored \<Rightarrow> replayMovement f stored
       | None \<Rightarrow> bindM (lockBalance ?k) (changeState cmd dto u f)) db0 = Inr (res, db')"
    unfolding transitionTransaction_def Let_def by (auto simp: runM assertTarget_def)
  have "findMovement (cm_tenant cmd) (cm_key cmd) db0 = None"
    using findMovement_cong [OF ensureBalance_same(1,2) [OF S]] None by simp
  with rest S None show ?thesis using changed by (auto simp: bindM_Inr)
qed

definition transitionUnits :: "command \<Rightarrow> transition_dto \<Rightarrow> inv_db \<Rightarrow> inv_error + int" where
  "transitionUnits cmd dto db =
     (if td_from dto = td_to dto \<or> (td_from dto \<noteq> AVAILABLE \<and> td_to dto \<noteq> AVAILABLE) then Inl InvalidStockStateTransitionError
      else bindE (normalized (td_quantity dto) (cm_tenant cmd) (td_product dto) False True db) (\<lambda>n.
           bindE (stockUnits n) (\<lambda>u. if u \<le> 0 then Inl InvalidStockStateTransitionError else Inr u)))"

definition transitionRequest :: "transition_dto \<Rightarrow> int \<Rightarrow> request" where
  "transitionRequest dto u = TransitionRequest (td_product dto) (td_location dto) (td_from dto) (td_to dto)
     (stock_fromUnits u) (td_reason dto) (td_reference dto) (case td_serials dto of None \<Rightarrow> [] | Some s \<Rightarrow> s)"

lemma ensureM_run: "thenM (ensureM e b) g db = (if b then g db else Inl e)"
  by (simp add: evalM)

lemma createStateTransition_run:
  "createStateTransition digest cmd dto db =
     (case transitionUnits cmd dto db of Inl e \<Rightarrow> Inl e
      | Inr u \<Rightarrow> catchM (\<lambda>e. e = DuplicateEntry) (transitionTransaction cmd dto u (digest (transitionRequest dto u)))
          (\<lambda>_. afterDuplicate (findMovement (cm_tenant cmd) (cm_key cmd)) (replayMovement (digest (transitionRequest dto u)))) db)"
  unfolding createStateTransition_def ensureM_run policy_run transitionUnits_def normalized_def transitionRequest_def
  by (simp add: normalizeM_run liftE_run ensureM_run bindE_def Let_def split: option.split sum.split)

lemma createStateTransition_Inr:
  assumes "createStateTransition digest cmd dto db = Inr (res, db')"
  obtains u where "transitionUnits cmd dto db = Inr u"
    "(\<exists>m. findMovement (cm_tenant cmd) (cm_key cmd) db = Some m \<and> mv_fingerprint m = digest (transitionRequest dto u) \<and> res = (m, True) \<and> db' = db) \<or>
     (\<exists>db0 b. findMovement (cm_tenant cmd) (cm_key cmd) db = None \<and>
        ensureBalance (cm_tenant cmd, td_product dto, td_location dto) db = Inr ((), db0) \<and>
        selectBalance (cm_tenant cmd, td_product dto, td_location dto) db0 = Some b \<and>
        changeState cmd dto u (digest (transitionRequest dto u)) b db0 = Inr (res, db'))"
proof -
  obtain u where c: "transitionUnits cmd dto db = Inr u"
    using assms by (auto simp: createStateTransition_run split: sum.splits)
  let ?f = "digest (transitionRequest dto u)"
  have "transitionTransaction cmd dto u ?f db = Inr (res, db') \<or>
    (\<exists>m. findMovement (cm_tenant cmd) (cm_key cmd) db = Some m \<and> replayMovement ?f m db = Inr (res, db'))"
    using assms c by (auto simp: createStateTransition_run catch_duplicate_Inr)
  then show ?thesis
  proof
    assume "transitionTransaction cmd dto u ?f db = Inr (res, db')"
    then show ?thesis
      by (cases rule: transitionTransaction_Inr) (rule that [OF c], blast)+
  next
    assume "\<exists>m. findMovement (cm_tenant cmd) (cm_key cmd) db = Some m \<and> replayMovement ?f m db = Inr (res, db')"
    then show ?thesis by (intro that [OF c]) auto
  qed
qed

lemma changeState_inv:
  assumes M: "changeState cmd dto u f b db = Inr (res, db')" and inv: "stock_inv db"
    and b: "selectBalance (cm_tenant cmd, td_product dto, td_location dto) db = Some b"
  shows "stock_inv db'"
proof (rule changeState_Inr [OF M])
  fix r and db1 :: inv_db
  assume U: "updateBalance (cm_tenant cmd, td_product dto, td_location dto)
       (\<lambda>b'. setStateColumn (td_to dto) (stateColumn (td_to dto) b + u) (setStateColumn (td_from dto) (stateColumn (td_from dto) b - u) b')) db = Inr ((), db1)"
    and P: "postMovement (transitionFor cmd dto f u (ba_quantity b) (env_uuid db1 (ticks db1)) (env_clock db1 (ticks db1)))
       noLotOptions (noSerialOptions\<lparr>so_serials := td_serials dto\<rparr>) (db1\<lparr>ticks := Suc (ticks db1)\<rparr>) = Inr ((), db')"
  have same: "ticks db1 = ticks db" "env_uuid db1 = env_uuid db" using U by (simp_all add: updateBalance_Inr)
  show ?thesis
    by (rule stock_step [OF inv b U _ P]) (use fresh_tick [OF inv] in \<open>simp_all add: same\<close>)
qed

lemma createStateTransition_inv: "preserves stock_inv (createStateTransition digest cmd dto)"
proof (rule preservesI)
  fix db res db'
  assume inv: "stock_inv db" and run: "createStateTransition digest cmd dto db = Inr (res, db')"
  show "stock_inv db'"
    by (rule createStateTransition_Inr [OF run]) (use inv changeState_inv ensureBalance_inv in blast)
qed

lemma createStateTransition_catalogue:
  assumes "createStateTransition digest cmd dto db = Inr (res, db')"
  shows "catalogue db' = catalogue db"
proof -
  obtain u where C: "db' = db \<or>
     (\<exists>db0 b. ensureBalance (cm_tenant cmd, td_product dto, td_location dto) db = Inr ((), db0) \<and>
        changeState cmd dto u (digest (transitionRequest dto u)) b db0 = Inr (res, db'))"
    by (rule createStateTransition_Inr [OF assms]) blast
  then show ?thesis
    by (elim disjE exE conjE changeState_Inr)
      (simp_all add: ensureBalance_same(2) updateBalance_catalogue postMovement_catalogue)
qed

lemma changeState_stores:
  assumes "changeState cmd dto u f b db = Inr ((r, flag), db')"
  shows "findMovement (cm_tenant cmd) (cm_key cmd) db' = Some r" "mv_fingerprint r = f"
proof -
  obtain i now db1 lo so where P: "postMovement (transitionFor cmd dto f u (ba_quantity b) i now) lo so db1 = Inr ((), db')"
    and r: "findMovement (cm_tenant cmd) (cm_key cmd) db' = Some r"
    by (rule changeState_Inr [OF assms]) (simp add: that)
  show "findMovement (cm_tenant cmd) (cm_key cmd) db' = Some r" by (rule r)
  have "movementCore r = movementCore (transitionFor cmd dto f u (ba_quantity b) i now)"
    by (rule findMovement_posted [OF P]) (use r in simp)
  then show "mv_fingerprint r = f" by (metis core_props(6) transitionFor_simps(7))
qed

interpretation transition_command: idempotent_command
  "\<lambda>(cmd, dto). createStateTransition digest cmd dto" "\<lambda>(cmd, dto). findMovement (cm_tenant cmd) (cm_key cmd)" mv_fingerprint
  "\<lambda>(cmd, dto) db. bindE (transitionUnits cmd dto db) (\<lambda>u. Inr (digest (transitionRequest dto u)))"
  IdempotencyConflictError for digest
proof (unfold_locales; clarsimp split: prod.splits)
  fix cmd dto db e
  assume "bindE (transitionUnits cmd dto db) (\<lambda>u. Inr (digest (transitionRequest dto u))) = Inl e"
  then show "createStateTransition digest cmd dto db = Inl e"
    by (auto simp: createStateTransition_run bindE_def split: sum.splits)
next
  fix cmd dto db f r
  assume "bindE (transitionUnits cmd dto db) (\<lambda>u. Inr (digest (transitionRequest dto u))) = Inr f"
    "findMovement (cm_tenant cmd) (cm_key cmd) db = Some r"
  then show "(mv_fingerprint r = f \<longrightarrow> createStateTransition digest cmd dto db = Inr ((r, True), db)) \<and>
      (mv_fingerprint r \<noteq> f \<longrightarrow> createStateTransition digest cmd dto db = Inl IdempotencyConflictError)"
    by (auto simp: createStateTransition_run bindE_Inr transitionTransaction_def replayMovement_def Let_def evalM)
next
  fix cmd dto db f r b db'
  assume f: "bindE (transitionUnits cmd dto db) (\<lambda>u. Inr (digest (transitionRequest dto u))) = Inr f"
    and run: "createStateTransition digest cmd dto db = Inr ((r, b), db')"
  show "findMovement (cm_tenant cmd) (cm_key cmd) db' = Some r \<and> mv_fingerprint r = f"
    by (rule createStateTransition_Inr [OF run]) (use f changeState_stores in \<open>auto simp: bindE_Inr\<close>)
next
  fix cmd dto db r b db' cmd' dto'
  assume "createStateTransition digest cmd dto db = Inr ((r, b), db')"
  then show "bindE (transitionUnits cmd' dto' db') (\<lambda>u. Inr (digest (transitionRequest dto' u))) =
      bindE (transitionUnits cmd' dto' db) (\<lambda>u. Inr (digest (transitionRequest dto' u)))"
    using normalized_cong [OF createStateTransition_catalogue] by (simp add: transitionUnits_def)
qed

section \<open>createCount\<close>

lemma insertCount_Inr:
  "insertCount c db = Inr (x, db') \<longleftrightarrow>
     (\<forall>r\<in>set (counts db). \<not> (co_tenant r = co_tenant c \<and> co_key r = co_key c) \<and> \<not> (co_movement c \<noteq> None \<and> co_movement r = co_movement c)) \<and>
     0 \<le> co_snapshot c \<and> 0 \<le> co_counted c \<and> db' = db\<lparr>counts := counts db @ [c]\<rparr>"
  by (auto simp: insertCount_def runM)

lemma adjustToCount_Inr:
  assumes "adjustToCount cmd dto counted variance resulting f db = Inr (res, db')"
  obtains (same) "variance = 0" "res = None" "db' = db"
  | (adjusted) db1 where "variance \<noteq> 0"
    "updateBalance (cm_tenant cmd, cd_product dto, cd_location dto) (\<lambda>b. b\<lparr>ba_quantity := resulting, ba_available := counted\<rparr>)
       (db\<lparr>ticks := Suc (ticks db)\<rparr>) = Inr ((), db1)"
    "postMovement (adjustmentFor cmd dto f variance resulting (env_uuid db (ticks db)) (env_clock db (ticks db)))
       noLotOptions noSerialOptions db1 = Inr ((), db')" "res = Some (env_uuid db (ticks db))"
  using assms unfolding adjustToCount_def Let_def
  by (auto simp: runM split: if_splits)

definition countRow :: "command \<Rightarrow> count_dto \<Rightarrow> int \<Rightarrow> int \<Rightarrow> int \<Rightarrow> string \<Rightarrow> id option \<Rightarrow> id \<Rightarrow> count_row" where
  "countRow cmd dto snapshot counted variance f movementId i =
     \<lparr>co_id = i, co_tenant = cm_tenant cmd, co_product = cd_product dto, co_location = cd_location dto,
      co_snapshot = snapshot, co_counted = counted, co_variance = variance, co_reason = cd_reason dto,
      co_reference = cd_reference dto, co_captured_at = cd_captured dto, co_user = cm_user cmd, co_movement = movementId,
      co_key = cm_key cmd, co_fingerprint = f\<rparr>"

lemma recordCount_Inr:
  assumes "recordCount cmd dto snapshot counted f b db = Inr (res, db')"
  obtains mid db1 r where "ba_available b = snapshot" "0 \<le> ba_quantity b + (counted - snapshot)"
    "adjustToCount cmd dto counted (counted - snapshot) (ba_quantity b + (counted - snapshot)) f db = Inr (mid, db1)"
    "insertCount (countRow cmd dto snapshot counted (counted - snapshot) f mid (env_uuid db1 (ticks db1))) (db1\<lparr>ticks := Suc (ticks db1)\<rparr>) = Inr ((), db')"
    "findCount (cm_tenant cmd) (cm_key cmd) db' = Some r" "res = (r, False)"
  using assms unfolding recordCount_def Let_def countRow_def
  by (auto simp: runM not_less)

lemma findCount_cong:
  assumes "counts db' = counts db" "catalogue db' = catalogue db"
  shows "findCount t k db' = findCount t k db"
  by (simp add: findCount_def exists_catalogue [OF assms(2)] assms(1))

lemma replayCount_Inr [simp]: "replayCount f m db = Inr (res, db') \<longleftrightarrow> co_fingerprint m = f \<and> res = (m, True) \<and> db' = db"
  by (auto simp: replayCount_def runM)

lemma countTransaction_Inr:
  assumes "countTransaction cmd dto snapshot counted f db = Inr (res, db')"
  obtains (replayed) m where "findCount (cm_tenant cmd) (cm_key cmd) db = Some m" "co_fingerprint m = f" "res = (m, True)" "db' = db"
  | (recorded) db0 b where "findCount (cm_tenant cmd) (cm_key cmd) db = None"
      "ensureBalance (cm_tenant cmd, cd_product dto, cd_location dto) db = Inr ((), db0)"
      "selectBalance (cm_tenant cmd, cd_product dto, cd_location dto) db0 = Some b" "recordCount cmd dto snapshot counted f b db0 = Inr (res, db')"
proof (cases "findCount (cm_tenant cmd) (cm_key cmd) db")
  case (Some m)
  then show ?thesis using assms replayed by (simp add: countTransaction_def Let_def bindM_Inr)
next
  case None
  let ?k = "(cm_tenant cmd, cd_product dto, cd_location dto)"
  from assms None obtain db0 b where S: "ensureBalance ?k db = Inr ((), db0)" "selectBalance ?k db0 = Some b"
    and rest: "(case findCount (cm_tenant cmd) (cm_key cmd) db0 of Some stored \<Rightarrow> replayCount f stored
       | None \<Rightarrow> recordCount cmd dto snapshot counted f b) db0 = Inr (res, db')"
    unfolding countTransaction_def Let_def by (auto simp: runM assertTarget_def)
  have "findCount (cm_tenant cmd) (cm_key cmd) db0 = None"
    using findCount_cong [OF ensureBalance_same(5,2) [OF S(1)]] None by simp
  with rest S None show ?thesis using recorded by simp
qed

definition countedUnits :: "command \<Rightarrow> count_dto \<Rightarrow> inv_db \<Rightarrow> inv_error + int \<times> int" where
  "countedUnits cmd dto db =
     bindE (bindE (normalized (cd_snapshot dto) (cm_tenant cmd) (cd_product dto) False False db) stockUnits) (\<lambda>snapshot.
     bindE (bindE (normalized (cd_counted dto) (cm_tenant cmd) (cd_product dto) False False db) stockUnits) (\<lambda>counted.
       Inr (snapshot, counted)))"

definition countRequest :: "count_dto \<Rightarrow> int \<times> int \<Rightarrow> request" where
  "countRequest dto u = CountRequest (cd_product dto) (cd_location dto) (stock_fromUnits (fst u))
     (stock_fromUnits (snd u)) (cd_reason dto) (cd_reference dto) (cd_captured dto)"

lemma countUnits_run:
  "bindM (countUnits policy v) g db =
     (case normalizeProductQuantity v policy False False of Inl e \<Rightarrow> Inl (QuantityRejected e)
      | Inr n \<Rightarrow> (case stockUnits n of Inl e \<Rightarrow> Inl e | Inr u \<Rightarrow> g u db))"
  by (simp add: countUnits_def normalizeM_def evalM split: sum.split)

lemma createCount_run:
  "createCount digest cmd dto db =
     (case countedUnits cmd dto db of Inl e \<Rightarrow> Inl e
      | Inr u \<Rightarrow> catchM (\<lambda>e. e = DuplicateEntry) (countTransaction cmd dto (fst u) (snd u) (digest (countRequest dto u)))
          (\<lambda>_. afterDuplicate (findCount (cm_tenant cmd) (cm_key cmd)) (replayCount (digest (countRequest dto u)))) db)"
  unfolding createCount_def policy_run countedUnits_def normalized_def countRequest_def
  by (simp add: countUnits_run bindE_def Let_def split: option.split sum.split)

lemma createCount_Inr:
  assumes "createCount digest cmd dto db = Inr (res, db')"
  obtains s c where "countedUnits cmd dto db = Inr (s, c)"
    "(\<exists>m. findCount (cm_tenant cmd) (cm_key cmd) db = Some m \<and> co_fingerprint m = digest (countRequest dto (s, c)) \<and> res = (m, True) \<and> db' = db) \<or>
     (\<exists>db0 b. findCount (cm_tenant cmd) (cm_key cmd) db = None \<and>
        ensureBalance (cm_tenant cmd, cd_product dto, cd_location dto) db = Inr ((), db0) \<and>
        selectBalance (cm_tenant cmd, cd_product dto, cd_location dto) db0 = Some b \<and>
        recordCount cmd dto s c (digest (countRequest dto (s, c))) b db0 = Inr (res, db'))"
proof -
  obtain s c where u: "countedUnits cmd dto db = Inr (s, c)"
    using assms by (auto simp: createCount_run split: sum.splits)
  let ?f = "digest (countRequest dto (s, c))"
  have "countTransaction cmd dto s c ?f db = Inr (res, db') \<or>
    (\<exists>m. findCount (cm_tenant cmd) (cm_key cmd) db = Some m \<and> replayCount ?f m db = Inr (res, db'))"
    using assms u by (auto simp: createCount_run catch_duplicate_Inr)
  then show ?thesis
  proof
    assume "countTransaction cmd dto s c ?f db = Inr (res, db')"
    then show ?thesis
      by (cases rule: countTransaction_Inr) (rule that [OF u], blast)+
  next
    assume "\<exists>m. findCount (cm_tenant cmd) (cm_key cmd) db = Some m \<and> replayCount ?f m db = Inr (res, db')"
    then show ?thesis by (intro that [OF u]) auto
  qed
qed

lemma stock_inv_counts [simp]: "stock_inv (db\<lparr>counts := c\<rparr>) = stock_inv db"
  by (simp add: stock_inv_def stock_gap_def issued_def balanceOf_def movedAt_def movedOf_def valuationQuantity_def)

lemma newRow_inv: "stock_inv db \<Longrightarrow> stock_inv (db\<lparr>ticks := Suc (ticks db)\<rparr>)"
  unfolding stock_inv_def by (rule newRow_gap)

lemma selectBalance_ticks [simp]: "selectBalance k (db\<lparr>ticks := n\<rparr>) = selectBalance k db"
  by (simp add: selectBalance_def)

lemma recordCount_inv:
  assumes run: "recordCount cmd dto s c f b db = Inr (res, db')" and inv: "stock_inv db"
    and b: "selectBalance (cm_tenant cmd, cd_product dto, cd_location dto) db = Some b"
  shows "stock_inv db'"
proof (rule recordCount_Inr [OF run])
  fix mid r and db1 :: inv_db
  assume A: "adjustToCount cmd dto c (c - s) (ba_quantity b + (c - s)) f db = Inr (mid, db1)"
    and I: "insertCount (countRow cmd dto s c (c - s) f mid (env_uuid db1 (ticks db1))) (db1\<lparr>ticks := Suc (ticks db1)\<rparr>) = Inr ((), db')"
  have "stock_inv db1"
    using A
  proof (cases rule: adjustToCount_Inr)
    case same
    with inv show ?thesis by simp
  next
    case (adjusted db2)
    have sel: "selectBalance (cm_tenant cmd, cd_product dto, cd_location dto) (db\<lparr>ticks := Suc (ticks db)\<rparr>) = Some b"
      using b by simp
    have t: "db2\<lparr>ticks := Suc (ticks db)\<rparr> = db2" "ticks db2 = Suc (ticks db)"
      using adjusted(2) by (simp_all add: updateBalance_Inr)
    have post: "postMovement (adjustmentFor cmd dto f (c - s) (ba_quantity b + (c - s)) (env_uuid db (ticks db)) (env_clock db (ticks db)))
       noLotOptions noSerialOptions (db2\<lparr>ticks := Suc (ticks db)\<rparr>) = Inr ((), db1)"
      unfolding t(1) by (rule adjusted(3))
    show ?thesis
      by (rule stock_step [OF newRow_inv [OF inv] sel adjusted(2) _ post])
        (use fresh_tick [OF inv] in \<open>simp_all add: t(2)\<close>)
  qed
  then show ?thesis using I newRow_inv by (simp add: insertCount_Inr)
qed

lemma createCount_inv: "preserves stock_inv (createCount digest cmd dto)"
proof (rule preservesI)
  fix db res db'
  assume inv: "stock_inv db" and run: "createCount digest cmd dto db = Inr (res, db')"
  show "stock_inv db'"
    by (rule createCount_Inr [OF run]) (use inv recordCount_inv ensureBalance_inv in blast)
qed

lemma adjustToCount_catalogue: "adjustToCount cmd dto c v q f db = Inr (res, db') \<Longrightarrow> catalogue db' = catalogue db"
  by (erule adjustToCount_Inr) (auto dest!: updateBalance_catalogue postMovement_catalogue)

lemma recordCount_catalogue: "recordCount cmd dto s c f b db = Inr (res, db') \<Longrightarrow> catalogue db' = catalogue db"
  by (erule recordCount_Inr) (auto dest!: adjustToCount_catalogue simp: insertCount_Inr catalogue_def)

lemma createCount_catalogue:
  assumes "createCount digest cmd dto db = Inr (res, db')"
  shows "catalogue db' = catalogue db"
  by (rule createCount_Inr [OF assms]) (auto simp: ensureBalance_same(2) dest!: recordCount_catalogue)

lemma findCount_inserted:
  assumes ins: "insertCount c db = Inr (x, db')" and found: "findCount (co_tenant c) (co_key c) db' = Some r"
  shows "r = c"
proof -
  have "r \<in> set (counts db')" "co_tenant r = co_tenant c" "co_key r = co_key c"
    using find_Some_props [OF found [unfolded findCount_def]] by simp_all
  with ins show ?thesis by (auto simp: insertCount_Inr)
qed

lemma recordCount_stores:
  assumes "recordCount cmd dto s c f b db = Inr ((r, flag), db')"
  shows "findCount (cm_tenant cmd) (cm_key cmd) db' = Some r \<and> co_fingerprint r = f"
proof (rule recordCount_Inr [OF assms])
  fix mid r' and db1 :: inv_db
  assume I: "insertCount (countRow cmd dto s c (c - s) f mid (env_uuid db1 (ticks db1))) (db1\<lparr>ticks := Suc (ticks db1)\<rparr>) = Inr ((), db')"
    and r: "findCount (cm_tenant cmd) (cm_key cmd) db' = Some r'" "(r, flag) = (r', False)"
  have "r' = countRow cmd dto s c (c - s) f mid (env_uuid db1 (ticks db1))"
    by (rule findCount_inserted [OF I]) (simp add: countRow_def r)
  then show ?thesis using r by (simp add: countRow_def)
qed

interpretation count_command: idempotent_command
  "\<lambda>(cmd, dto). createCount digest cmd dto" "\<lambda>(cmd, dto). findCount (cm_tenant cmd) (cm_key cmd)" co_fingerprint
  "\<lambda>(cmd, dto) db. bindE (countedUnits cmd dto db) (\<lambda>u. Inr (digest (countRequest dto u)))"
  IdempotencyConflictError for digest
proof (unfold_locales; clarsimp split: prod.splits)
  fix cmd dto db e
  assume "bindE (countedUnits cmd dto db) (\<lambda>u. Inr (digest (countRequest dto u))) = Inl e"
  then show "createCount digest cmd dto db = Inl e"
    by (auto simp: createCount_run bindE_def split: sum.splits)
next
  fix cmd dto db f r
  assume "bindE (countedUnits cmd dto db) (\<lambda>u. Inr (digest (countRequest dto u))) = Inr f"
    "findCount (cm_tenant cmd) (cm_key cmd) db = Some r"
  then show "(co_fingerprint r = f \<longrightarrow> createCount digest cmd dto db = Inr ((r, True), db)) \<and>
      (co_fingerprint r \<noteq> f \<longrightarrow> createCount digest cmd dto db = Inl IdempotencyConflictError)"
    by (auto simp: createCount_run bindE_Inr countTransaction_def replayCount_def Let_def evalM)
next
  fix cmd dto db f r b db'
  assume f: "bindE (countedUnits cmd dto db) (\<lambda>u. Inr (digest (countRequest dto u))) = Inr f"
    and run: "createCount digest cmd dto db = Inr ((r, b), db')"
  show "findCount (cm_tenant cmd) (cm_key cmd) db' = Some r \<and> co_fingerprint r = f"
    by (rule createCount_Inr [OF run]) (use f recordCount_stores in \<open>auto simp: bindE_Inr\<close>)
next
  fix cmd dto db r b db' cmd' dto'
  assume "createCount digest cmd dto db = Inr ((r, b), db')"
  then show "bindE (countedUnits cmd' dto' db') (\<lambda>u. Inr (digest (countRequest dto' u))) =
      bindE (countedUnits cmd' dto' db) (\<lambda>u. Inr (digest (countRequest dto' u)))"
    using normalized_cong [OF createCount_catalogue] by (simp add: countedUnits_def)
qed

end
