(* ===== verification/StockTheorems.thy ===== *)
theory StockTheorems
  imports StockLaws Fixtures
begin

text \<open>
  The properties of the stock commands, with witnesses on a concrete database: five units of the
  product at location 3, all available.
\<close>

section \<open>A concrete case\<close>

definition stockBalance :: balance_row where
  "stockBalance = (emptyBalance (1, 7, 3))\<lparr>ba_quantity := 5000, ba_available := 5000\<rparr>"

definition stockReceipt :: movement_row where
  "stockReceipt = blankMovement\<lparr>mv_id := 60, mv_type := INITIAL, mv_quantity := 5000, mv_resulting := 5000, mv_key := ''k0''\<rparr>"

definition stockDb :: inv_db where
  "stockDb = sampleDb\<lparr>ticks := 2, balances := [stockBalance], movements := [stockReceipt],
     valuations := [\<lparr>va_tenant = 1, va_product = 7, va_quantity = 5000, va_value = 100000, va_average = 20000, va_version = 1\<rparr>],
     cutovers := [(1, 0)], layers := [sampleLayer\<lparr>fl_id := 61\<rparr>], policies := []\<rparr>"

definition sampleDigest :: "request \<Rightarrow> string" where
  "sampleDigest r = (case r of MovementRequest p l k change reason ref ss \<Rightarrow> ''m'' @ change
     | CountRequest p l s c reason ref at \<Rightarrow> ''c'' @ s @ c | _ \<Rightarrow> ''other'')"

definition sampleCommand :: command where
  "sampleCommand = \<lparr>cm_tenant = 1, cm_warehouse = 2, cm_user = 9, cm_key = ''k1''\<rparr>"

definition exitTwo :: movement_dto where
  "exitTwo = \<lparr>md_product = 7, md_location = 3, md_type = EXIT, md_quantity = ''2'', md_reason = ''r'', md_reference = Some ''x'',
     md_lot_code = None, md_manufactured = None, md_expires = None, md_serials = None\<rparr>"

definition countFour :: count_dto where
  "countFour = \<lparr>cd_product = 7, cd_location = 3, cd_snapshot = ''5'', cd_counted = ''4'', cd_reason = ''r'', cd_reference = ''x'', cd_captured = ''t''\<rparr>"

definition damageOne :: transition_dto where
  "damageOne = \<lparr>td_product = 7, td_location = 3, td_from = AVAILABLE, td_to = DAMAGED, td_quantity = ''1'', td_reason = ''r'',
     td_reference = ''x'', td_serials = None\<rparr>"

lemma exit_runs: "case createMovement sampleDigest sampleCommand exitTwo stockDb of Inl _ \<Rightarrow> False
  | Inr ((m, again), db') \<Rightarrow> \<not> again \<and> map ba_quantity (balances db') = [3000] \<and> mv_quantity m = -2000 \<and> mv_fingerprint m = ''m-2.000''"
  by code_simp

lemma count_runs: "case createCount sampleDigest sampleCommand countFour stockDb of Inl _ \<Rightarrow> False
  | Inr ((c, again), db') \<Rightarrow> \<not> again \<and> map ba_available (balances db') = [4000] \<and> co_counted c = 4000"
  by code_simp

lemma damage_runs: "case createStateTransition sampleDigest sampleCommand damageOne stockDb of Inl _ \<Rightarrow> False
  | Inr ((m, again), db') \<Rightarrow> \<not> again \<and> map ba_damaged (balances db') = [1000] \<and> map ba_available (balances db') = [4000]"
  by code_simp

lemma bindE_simps [simp]: "bindE (Inr x) g = g x" "bindE (Inl e) g = Inl e"
  by (simp_all add: bindE_def)

section \<open>The effect of a command\<close>

lemma command_effect:
  assumes E: "ensureBalance k db = Inr ((), db0)" and b: "selectBalance k db0 = Some b" and U: "updateBalance k u db0 = Inr ((), db1)"
    and key: "\<And>b. balance_key (u b) = balance_key b" and P: "postMovement m lo so (db1\<lparr>ticks := n\<rparr>) = Inr (y, db')"
  shows "b = balanceAt k db" "selectBalance k db' = Some (u (balanceAt k db))" "k' \<noteq> k \<Longrightarrow> selectBalance k' db' = selectBalance k' db"
    "map movementCore (movements db') = map movementCore (movements db) @ [movementCore m]" "0 \<le> ba_available (u (balanceAt k db))"
    "movement_check m"
proof -
  show bb: "b = balanceAt k db" using ensureBalance_same(6) [OF E] b by (simp add: balanceAt_def)
  have bal: "balances db' = balances db1" using postMovement_view [OF P posting_views(1)] by simp
  have sel: "selectBalance k' db' = map_option (\<lambda>b. if balance_key b = k then u b else b) (selectBalance k' db0)" for k'
    using updateBalance_select [OF U key, of k'] bal by (simp add: selectBalance_def)
  show "selectBalance k db' = Some (u (balanceAt k db))"
    using sel [of k] b selectBalance_row [OF b] bb by simp
  show "selectBalance k' db' = selectBalance k' db" if "k' \<noteq> k"
    using sel [of k'] ensureBalance_same(7) [OF E that] selectBalance_row [of k' db] that
    by (cases "selectBalance k' db") simp_all
  have "movements db1 = movements db0" using U by (simp add: updateBalance_Inr)
  then show "map movementCore (movements db') = map movementCore (movements db) @ [movementCore m]"
    using postMovement_movements [OF P] ensureBalance_same(1) [OF E] by simp
  show "0 \<le> ba_available (u (balanceAt k db))"
    using U selectBalance_row [OF b] bb by (auto simp: updateBalance_Inr balance_check_def)
  show "movement_check m" by (rule postMovement_Inr [OF P])
qed

definition signedUnits :: "movement_type \<Rightarrow> int \<Rightarrow> int" where
  "signedUnits kind n = (if kind \<in> {EXIT, LOSS, DAMAGE} then - n else n)"

lemma stockUnits_print [simp]: "stockUnits (stock_fromUnits u) = Inr u"
  by (simp add: stockUnits_def stock_quantity.parse_print)

lemma quantityChange_Inr:
  "quantityChange kind v = Inr c \<longleftrightarrow>
     (\<exists>n. stockUnits v = Inr n \<and> n \<noteq> 0 \<and> (kind \<noteq> ADJUSTMENT \<longrightarrow> 0 < n) \<and> c = stock_fromUnits (signedUnits kind n))"
proof (cases "stockUnits v")
  case (Inr n)
  show ?thesis
    unfolding quantityChange_def Inr bindE_def sum.case signedUnits_def Let_def
    by (cases "n = 0"; cases "kind = ADJUSTMENT"; cases "n < 0"; cases "kind \<in> {EXIT, LOSS, DAMAGE}"; simp; blast)
qed (simp add: quantityChange_def bindE_def)

definition requestedUnits :: "command \<Rightarrow> movement_dto \<Rightarrow> inv_db \<Rightarrow> inv_error + int" where
  "requestedUnits cmd dto db = bindE (normalized (md_quantity dto) (cm_tenant cmd) (md_product dto) True True db) stockUnits"

lemma movementChange_Inr:
  "movementChange cmd dto db = Inr c \<longleftrightarrow>
     (\<exists>n. requestedUnits cmd dto db = Inr n \<and> n \<noteq> 0 \<and> (md_type dto \<noteq> ADJUSTMENT \<longrightarrow> 0 < n) \<and> c = stock_fromUnits (signedUnits (md_type dto) n))"
  by (auto simp: movementChange_def requestedUnits_def bindE_Inr quantityChange_Inr)

lemma stockDb_balance: "balanceAt (1, 7, 3) stockDb = stockBalance"
  by code_simp

lemma exitKey: "(cm_tenant sampleCommand, md_product exitTwo, md_location exitTwo) = (1, 7, 3)"
  by code_simp

text \<open>All three stock commands keep the ledger: afterwards every balance is non-negative and
  the sum of its states, equals the sum of the movements of its product and location, and the
  moving-average quantity of the product equals the sum of its movements.\<close>

theorem stock_commands_preserve_ledger:
  "preserves stock_inv (createMovement digest cmd dto) \<and> preserves stock_inv (createCount digest cmd cdto) \<and>
   preserves stock_inv (createStateTransition digest cmd tdto)"
  by (intro conjI createMovement_inv createCount_inv createStateTransition_inv)

text \<open>C3: What a new movement does: it stores one movement of the requested kind under the
  request key, for the normalised quantity with the sign of the kind, adds that quantity to the
  total and to the available stock of the product at the location, leaves every other balance
  alone, and never drives the available stock below zero; an initial load is accepted only where
  there is no movement yet.\<close>

theorem createMovement_effect:
  assumes run: "createMovement digest cmd dto db = Inr ((m, False), db')"
  shows "let k = (cm_tenant cmd, md_product dto, md_location dto); b = balanceAt k db; q = mv_quantity m in
     (\<exists>n. requestedUnits cmd dto db = Inr n \<and> q = signedUnits (md_type dto) n \<and> (md_type dto \<noteq> ADJUSTMENT \<longrightarrow> 0 < n)) \<and>
     movement_key m = k \<and> mv_key m = cm_key cmd \<and> mv_type m = md_type dto \<and> mv_resulting m = ba_quantity b + q \<and>
     0 \<le> ba_available b + q \<and>
     selectBalance k db' = Some (b\<lparr>ba_quantity := ba_quantity b + q, ba_available := ba_available b + q\<rparr>) \<and>
     (\<forall>k'. k' \<noteq> k \<longrightarrow> selectBalance k' db' = selectBalance k' db) \<and>
     map movementCore (movements db') = map movementCore (movements db) @ [movementCore m] \<and>
     (md_type dto = INITIAL \<longrightarrow> (\<forall>r\<in>set (movements db). movement_key r \<noteq> k))"
proof -
  define k where "k = (cm_tenant cmd, md_product dto, md_location dto)"
  obtain change db0 b where C: "movementChange cmd dto db = Inr change" and E: "ensureBalance k db = Inr ((), db0)"
    and b: "selectBalance k db0 = Some b" and M: "moveStock cmd dto change (digest (movementRequest dto change)) b db0 = Inr ((m, False), db')"
    by (rule createMovement_Inr [OF run]) (auto simp: k_def)
  obtain n where n: "requestedUnits cmd dto db = Inr n" "md_type dto \<noteq> ADJUSTMENT \<longrightarrow> 0 < n" "change = stock_fromUnits (signedUnits (md_type dto) n)"
    using C by (auto simp: movementChange_Inr)
  let ?u = "signedUnits (md_type dto) n"
  obtain db1 so lo i now where U: "updateBalance k (\<lambda>b'. b'\<lparr>ba_quantity := ba_quantity b + ?u, ba_available := ba_available b + ?u\<rparr>) db0 = Inr ((), db1)"
    and P: "postMovement (movementFor cmd dto (digest (movementRequest dto change)) ?u (ba_quantity b + ?u) i now) lo so (db1\<lparr>ticks := Suc (ticks db1)\<rparr>) = Inr ((), db')"
    and found: "findMovement (cm_tenant cmd) (cm_key cmd) db' = Some m"
    by (rule moveStock_Inr [OF M]) (auto simp: n(3) k_def)
  have keys: "balance_key (b'\<lparr>ba_quantity := ba_quantity b + ?u, ba_available := ba_available b + ?u\<rparr>) = balance_key b'" for b'
    by simp
  note eff = command_effect [OF E b U keys P]
  have core: "movementCore m = movementCore (movementFor cmd dto (digest (movementRequest dto change)) ?u (ba_quantity b + ?u) i now)"
    by (rule findMovement_posted [OF P]) (simp add: found)
  have m: "movement_key m = k" "mv_quantity m = ?u" "mv_key m = cm_key cmd" "mv_type m = md_type dto" "mv_resulting m = ba_quantity b + ?u"
    using arg_cong [OF core, of mv_quantity] arg_cong [OF core, of mv_tenant] arg_cong [OF core, of mv_product] arg_cong [OF core, of mv_location]
      arg_cong [OF core, of mv_key] arg_cong [OF core, of mv_type] arg_cong [OF core, of mv_resulting] by (simp_all add: k_def)
  have first: "md_type dto = INITIAL \<longrightarrow> (\<forall>r\<in>set (movements db). movement_key r \<noteq> k)"
    using M ensureBalance_same(1) [OF E] by (auto simp: moveStock_def Let_def runM k_def filter_empty_conv)
  have change: "\<exists>n. requestedUnits cmd dto db = Inr n \<and> ?u = signedUnits (md_type dto) n \<and> (md_type dto \<noteq> ADJUSTMENT \<longrightarrow> 0 < n)"
    using n(1,2) by blast
  have after: "selectBalance k db' = Some ((balanceAt k db)\<lparr>ba_quantity := ba_quantity (balanceAt k db) + ?u, ba_available := ba_available (balanceAt k db) + ?u\<rparr>)"
    "0 \<le> ba_available (balanceAt k db) + ?u" "mv_resulting m = ba_quantity (balanceAt k db) + ?u"
    using eff(2,5) m(5) unfolding eff(1) by simp_all
  have others: "\<forall>k'. k' \<noteq> k \<longrightarrow> selectBalance k' db' = selectBalance k' db" using eff(3) by blast
  show ?thesis
    unfolding Let_def k_def [symmetric] m(2)
    by (intro conjI change m(1,3,4) after others eff(4) [folded core] first)
qed

theorem createMovement_effect_witness:
  "case createMovement sampleDigest sampleCommand exitTwo stockDb of
     Inr ((m, False), db') \<Rightarrow> selectBalance (1, 7, 3) db' = Some (stockBalance\<lparr>ba_quantity := 3000, ba_available := 3000\<rparr>)
   | _ \<Rightarrow> False"
proof -
  obtain m db' where run: "createMovement sampleDigest sampleCommand exitTwo stockDb = Inr ((m, False), db')" and q: "mv_quantity m = -2000"
    using exit_runs by (auto split: sum.splits)
  have "selectBalance (1, 7, 3) db' = Some (stockBalance\<lparr>ba_quantity := ba_quantity stockBalance + - 2000, ba_available := ba_available stockBalance + - 2000\<rparr>)"
    using createMovement_effect [OF run] unfolding Let_def exitKey stockDb_balance q by blast
  then show ?thesis using run by (simp add: stockBalance_def)
qed

text \<open>C26: Stock commands are idempotent: sending a movement, a count or a state transition again
  under the same key returns the stored result, marks it as a replay and changes nothing.\<close>

theorem stock_commands_replay:
  "(createMovement digest cmd dto db = Inr ((m, b), db') \<longrightarrow> createMovement digest cmd dto db' = Inr ((m, True), db')) \<and>
   (createCount digest cmd cdto db = Inr ((c, b), db') \<longrightarrow> createCount digest cmd cdto db' = Inr ((c, True), db')) \<and>
   (createStateTransition digest cmd tdto db = Inr ((m, b), db') \<longrightarrow> createStateTransition digest cmd tdto db' = Inr ((m, True), db'))"
  using movement_command.again [of digest "(cmd, dto)" db m b db'] count_command.again [of digest "(cmd, cdto)" db c b db']
    transition_command.again [of digest "(cmd, tdto)" db m b db'] by simp

theorem stock_commands_replay_witness:
  "case createMovement sampleDigest sampleCommand exitTwo stockDb of
     Inr ((m, False), db') \<Rightarrow> createMovement sampleDigest sampleCommand exitTwo db' = Inr ((m, True), db')
   | _ \<Rightarrow> False"
  using exit_runs stock_commands_replay [of sampleDigest sampleCommand exitTwo stockDb]
  by (auto split: sum.splits)

text \<open>A key that is in use for another request is refused: once a movement, a count or a
  transition is stored under a key, a request of the same command with the same key and a
  different fingerprint fails with the conflict error (and so changes nothing).\<close>

theorem stock_commands_key_reuse:
  assumes "cm_tenant cmd' = cm_tenant cmd" "cm_key cmd' = cm_key cmd"
  shows "(createMovement digest cmd dto db = Inr ((m, b), db') \<and> movementChange cmd' dto' db = Inr c' \<and>
      digest (movementRequest dto' c') \<noteq> mv_fingerprint m \<longrightarrow> createMovement digest cmd' dto' db' = Inl IdempotencyConflictError) \<and>
   (createCount digest cmd cdto db = Inr ((r, b), db') \<and> countedUnits cmd' cdto' db = Inr u' \<and>
      digest (countRequest cdto' u') \<noteq> co_fingerprint r \<longrightarrow> createCount digest cmd' cdto' db' = Inl IdempotencyConflictError) \<and>
   (createStateTransition digest cmd tdto db = Inr ((m, b), db') \<and> transitionUnits cmd' tdto' db = Inr v' \<and>
      digest (transitionRequest tdto' v') \<noteq> mv_fingerprint m \<longrightarrow> createStateTransition digest cmd' tdto' db' = Inl IdempotencyConflictError)"
proof (intro conjI impI; elim conjE)
  assume run: "createMovement digest cmd dto db = Inr ((m, b), db')" and c: "movementChange cmd' dto' db = Inr c'"
    and f: "digest (movementRequest dto' c') \<noteq> mv_fingerprint m"
  show "createMovement digest cmd' dto' db' = Inl IdempotencyConflictError"
    by (rule movement_command.conflicting [where req = "(cmd, dto)" and req' = "(cmd', dto')", simplified])
      (rule run, use c f assms in simp_all)
next
  assume run: "createCount digest cmd cdto db = Inr ((r, b), db')" and c: "countedUnits cmd' cdto' db = Inr u'"
    and f: "digest (countRequest cdto' u') \<noteq> co_fingerprint r"
  show "createCount digest cmd' cdto' db' = Inl IdempotencyConflictError"
    by (rule count_command.conflicting [where req = "(cmd, cdto)" and req' = "(cmd', cdto')", simplified])
      (rule run, use c f assms in simp_all)
next
  assume run: "createStateTransition digest cmd tdto db = Inr ((m, b), db')" and c: "transitionUnits cmd' tdto' db = Inr v'"
    and f: "digest (transitionRequest tdto' v') \<noteq> mv_fingerprint m"
  show "createStateTransition digest cmd' tdto' db' = Inl IdempotencyConflictError"
    by (rule transition_command.conflicting [where req = "(cmd, tdto)" and req' = "(cmd', tdto')", simplified])
      (rule run, use c f assms in simp_all)
qed

theorem stock_commands_key_reuse_witness:
  "case createMovement sampleDigest sampleCommand exitTwo stockDb of
     Inr ((m, False), db') \<Rightarrow> createMovement sampleDigest sampleCommand (exitTwo\<lparr>md_quantity := ''1''\<rparr>) db' = Inl IdempotencyConflictError
   | _ \<Rightarrow> False"
proof -
  obtain m db' where run: "createMovement sampleDigest sampleCommand exitTwo stockDb = Inr ((m, False), db')" and q: "mv_fingerprint m = ''m-2.000''"
    using exit_runs by (auto split: sum.splits)
  have c: "movementChange sampleCommand (exitTwo\<lparr>md_quantity := ''1''\<rparr>) stockDb = Inr ''-1.000''" by code_simp
  have f: "sampleDigest (movementRequest (exitTwo\<lparr>md_quantity := ''1''\<rparr>) ''-1.000'') \<noteq> mv_fingerprint m"
    unfolding q by code_simp
  show ?thesis
    using conjunct1 [OF stock_commands_key_reuse [OF refl refl], of sampleDigest sampleCommand exitTwo stockDb m False db'] run c f by simp
qed

text \<open>The fingerprint of a movement leaves out its lot: a movement that names another lot code,
  manufacturing date or expiry date under a used key is not refused as a conflict but answered with
  the stored movement of the first lot, as a replay.\<close>

theorem createMovement_replay_ignores_lot:
  assumes "createMovement digest cmd dto db = Inr ((m, b), db')"
  shows "createMovement digest cmd (dto\<lparr>md_lot_code := code, md_manufactured := made, md_expires := expires\<rparr>) db' = Inr ((m, True), db')"
proof -
  let ?dto = "dto\<lparr>md_lot_code := code, md_manufactured := made, md_expires := expires\<rparr>"
  have "movementChange cmd ?dto db' = movementChange cmd dto db'" "movementRequest ?dto = movementRequest dto"
    by (simp_all add: movementChange_def movementRequest_def fun_eq_iff)
  moreover obtain c where "movementChange cmd dto db' = Inr c" "findMovement (cm_tenant cmd) (cm_key cmd) db' = Some m"
    "mv_fingerprint m = digest (movementRequest dto c)"
    using movement_command.accepted [of digest "(cmd, dto)" db] movement_command.stable [of digest "(cmd, dto)" db "(m, b)" db' "(cmd, dto)"]
      movement_command.stores [of digest "(cmd, dto)" db _ m b db'] assms by (auto simp: bindE_Inr)
  ultimately show ?thesis
    using movement_command.replays [of digest "(cmd, ?dto)" db' _ m] by (simp add: bindE_Inr)
qed

theorem createMovement_replay_ignores_lot_witness:
  "case createMovement sampleDigest sampleCommand exitTwo stockDb of
     Inr ((m, False), db') \<Rightarrow> createMovement sampleDigest sampleCommand (exitTwo\<lparr>md_lot_code := Some ''L2''\<rparr>) db' = Inr ((m, True), db')
   | _ \<Rightarrow> False"
proof -
  obtain m db' where run: "createMovement sampleDigest sampleCommand exitTwo stockDb = Inr ((m, False), db')"
    using exit_runs by (auto split: sum.splits)
  have "exitTwo\<lparr>md_lot_code := Some ''L2'', md_manufactured := None, md_expires := None\<rparr> = exitTwo\<lparr>md_lot_code := Some ''L2''\<rparr>"
    by (simp add: exitTwo_def)
  then show ?thesis using createMovement_replay_ignores_lot [OF run, where code = "Some ''L2''" and made = None and expires = None] run by simp
qed

text \<open>What a count does: a count is accepted only if the available stock still is what the
  counter saw; it sets the available stock to the counted quantity, moves the total by the variance
  and leaves the other states and the other balances alone; it posts one adjustment for the
  variance, and none when there is no variance.\<close>

theorem createCount_effect:
  assumes run: "createCount digest cmd dto db = Inr ((c, False), db')"
  shows "let k = (cm_tenant cmd, cd_product dto, cd_location dto); b = balanceAt k db in
     countedUnits cmd dto db = Inr (ba_available b, co_counted c) \<and> co_snapshot c = ba_available b \<and> 
     co_variance c = co_counted c - ba_available b \<and>
     selectBalance k db' = Some (b\<lparr>ba_quantity := ba_quantity b + co_variance c, ba_available := co_counted c\<rparr>) \<and>
     (\<forall>k'. k' \<noteq> k \<longrightarrow> selectBalance k' db' = selectBalance k' db) \<and>
     (if co_variance c = 0 then co_movement c = None \<and> movements db' = movements db
      else \<exists>m. co_movement c = Some (mv_id m) \<and> mv_type m = ADJUSTMENT \<and> mv_quantity m = co_variance c \<and> movement_key m = k \<and>
             map movementCore (movements db') = map movementCore (movements db) @ [movementCore m])"
proof -
  define k where "k = (cm_tenant cmd, cd_product dto, cd_location dto)"
  obtain s n db0 b where U: "countedUnits cmd dto db = Inr (s, n)" and E: "ensureBalance k db = Inr ((), db0)" and b: "selectBalance k db0 = Some b"
    and R: "recordCount cmd dto s n (digest (countRequest dto (s, n))) b db0 = Inr ((c, False), db')"
    by (rule createCount_Inr [OF run]) (auto simp: k_def)
  let ?v = "n - s" and ?f = "digest (countRequest dto (s, n))"
  obtain mid db1 where s: "ba_available b = s" and A: "adjustToCount cmd dto n ?v (ba_quantity b + ?v) ?f db0 = Inr (mid, db1)"
    and I: "insertCount (countRow cmd dto s n ?v ?f mid (env_uuid db1 (ticks db1))) (db1\<lparr>ticks := Suc (ticks db1)\<rparr>) = Inr ((), db')"
    and c: "findCount (cm_tenant cmd) (cm_key cmd) db' = Some c"
    by (rule recordCount_Inr [OF R]) auto
  have bb: "b = balanceAt k db" using ensureBalance_same(6) [OF E] b by (simp add: balanceAt_def)
  have c_row: "c = countRow cmd dto s n ?v ?f mid (env_uuid db1 (ticks db1))"
    by (rule findCount_inserted [OF I]) (simp add: countRow_def c)
  then have row: "co_counted c = n" "co_snapshot c = s" "co_variance c = ?v" "co_movement c = mid" by (simp_all add: countRow_def)
  have same: "balances db' = balances db1" "movements db' = movements db1" using I by (simp_all add: insertCount_Inr)
  have bal: "selectBalance k' db' = selectBalance k' db1" for k' by (simp add: selectBalance_def same)
  have "selectBalance k db' = Some (b\<lparr>ba_quantity := ba_quantity b + ?v, ba_available := n\<rparr>) \<and>
    (\<forall>k'. k' \<noteq> k \<longrightarrow> selectBalance k' db' = selectBalance k' db) \<and>
    (if ?v = 0 then mid = None \<and> movements db' = movements db
     else \<exists>m. mid = Some (mv_id m) \<and> mv_type m = ADJUSTMENT \<and> mv_quantity m = ?v \<and> movement_key m = k \<and>
             map movementCore (movements db') = map movementCore (movements db) @ [movementCore m])"
    using A
  proof (cases rule: adjustToCount_Inr)
    case same
    then show ?thesis
      using b s ensureBalance_same(1) [OF E] ensureBalance_same(7) [OF E] \<open>movements db' = movements db1\<close> by (simp add: bal)
  next
    case (adjusted db2)
    let ?m = "adjustmentFor cmd dto ?f ?v (ba_quantity b + ?v) (env_uuid db0 (ticks db0)) (env_clock db0 (ticks db0))"
    have upd: "updateBalance k (\<lambda>b'. b'\<lparr>ba_quantity := ba_quantity b + ?v, ba_available := n\<rparr>) db0 = Inr ((), db2\<lparr>ticks := ticks db0\<rparr>)"
      using adjusted(2) by (simp add: updateBalance_Inr k_def)
    have post: "postMovement ?m noLotOptions noSerialOptions (db2\<lparr>ticks := ticks db0, ticks := ticks db2\<rparr>) = Inr ((), db1)"
      using adjusted(3) by simp
    have keys: "balance_key (b'\<lparr>ba_quantity := ba_quantity b + ?v, ba_available := n\<rparr>) = balance_key b'" for b' by simp
    note eff = command_effect [OF E b upd keys post]
    have "\<exists>m. mid = Some (mv_id m) \<and> mv_type m = ADJUSTMENT \<and> mv_quantity m = ?v \<and> movement_key m = k \<and>
             map movementCore (movements db') = map movementCore (movements db) @ [movementCore m]"
      by (rule exI [of _ ?m]) (use adjusted(4) eff(4) same(2) in \<open>simp add: adjustmentFor_def movementRow_def k_def\<close>)
    with adjusted(1) show ?thesis using eff(2,3) by (simp add: bal bb [symmetric])
  qed
  then show ?thesis
    unfolding Let_def k_def [symmetric] row bb [symmetric] using U s by simp
qed

theorem createCount_effect_witness:
  "case createCount sampleDigest sampleCommand countFour stockDb of
     Inr ((c, False), db') \<Rightarrow> co_snapshot c = 5000 \<and> (\<exists>b. selectBalance (1, 7, 3) db' = Some b \<and> ba_available b = 4000)
   | _ \<Rightarrow> False"
proof -
  obtain c db' where run: "createCount sampleDigest sampleCommand countFour stockDb = Inr ((c, False), db')" and q: "co_counted c = 4000"
    using count_runs by (auto split: sum.splits)
  have k: "(cm_tenant sampleCommand, cd_product countFour, cd_location countFour) = (1, 7, 3)" by code_simp
  have "co_snapshot c = ba_available stockBalance \<and> (\<exists>b. selectBalance (1, 7, 3) db' = Some b \<and> ba_available b = 4000)"
    using createCount_effect [OF run] unfolding Let_def k stockDb_balance q by auto
  then show ?thesis using run by (simp add: stockBalance_def)
qed

text \<open>A stale count is refused: when the available stock is no longer what the counter saw, the
  count fails with the conflict error, which carries the current available stock.\<close>

theorem createCount_conflict:
  assumes units: "countedUnits cmd dto db = Inr (s, n)" and new: "findCount (cm_tenant cmd) (cm_key cmd) db = None"
    and target: "assertTarget (cm_tenant cmd) (cm_warehouse cmd) (cd_product dto) (cd_location dto) db = Inr ((), db)"
    and stale: "ba_available (balanceAt (cm_tenant cmd, cd_product dto, cd_location dto) db) \<noteq> s"
  shows "createCount digest cmd dto db =
    Inl (InventoryCountConflictError (ba_available (balanceAt (cm_tenant cmd, cd_product dto, cd_location dto) db)))"
proof -
  define k where "k = (cm_tenant cmd, cd_product dto, cd_location dto)"
  obtain db0 where E: "ensureBalance k db = Inr ((), db0)" by (simp add: ensureBalance_def)
  have b: "lockBalance k db0 = Inr (balanceAt k db, db0)" using ensureBalance_same(6) [OF E] by (simp add: balanceAt_def)
  have again: "findCount (cm_tenant cmd) (cm_key cmd) db0 = None"
    using findCount_cong [OF ensureBalance_same(5,2) [OF E]] new by simp
  have stop: "recordCount cmd dto s n f (balanceAt k db) db0 = Inl (InventoryCountConflictError (ba_available (balanceAt k db)))" for f
    using stale by (simp add: recordCount_def Let_def ensureM_run k_def)
  have "countTransaction cmd dto s n f db = Inl (InventoryCountConflictError (ba_available (balanceAt k db)))" for f
    unfolding countTransaction_def Let_def k_def [symmetric]
    by (simp add: thenM_def bindM_def readM_def new target E b again stop)
  then show ?thesis
    by (simp add: createCount_run units catchM_def k_def)
qed

theorem createCount_conflict_witness:
  "createCount sampleDigest sampleCommand (countFour\<lparr>cd_snapshot := ''6''\<rparr>) stockDb = Inl (InventoryCountConflictError 5000)"
proof -
  have 1: "countedUnits sampleCommand (countFour\<lparr>cd_snapshot := ''6''\<rparr>) stockDb = Inr (6000, 4000)" by code_simp
  have 2: "findCount (cm_tenant sampleCommand) (cm_key sampleCommand) stockDb = None" by code_simp
  have 3: "assertTarget (cm_tenant sampleCommand) (cm_warehouse sampleCommand) (cd_product (countFour\<lparr>cd_snapshot := ''6''\<rparr>))
     (cd_location (countFour\<lparr>cd_snapshot := ''6''\<rparr>)) stockDb = Inr ((), stockDb)"
    by (auto simp: assertTarget_def runM sampleCommand_def countFour_def stockDb_def sampleDb_def sampleProduct_def)
  have 4: "ba_available (balanceAt (cm_tenant sampleCommand, cd_product (countFour\<lparr>cd_snapshot := ''6''\<rparr>),
     cd_location (countFour\<lparr>cd_snapshot := ''6''\<rparr>)) stockDb) = 5000" by code_simp
  show ?thesis using createCount_conflict [OF 1 2 3, of sampleDigest] unfolding 4 by simp
qed

text \<open>What a state transition does: it takes the requested units from one stock state of the
  product at the location and adds them to another, one of the two being the available state; it
  leaves the total, the other states and the other balances alone, and posts one movement of
  quantity zero that records the two states and the units.\<close>

theorem createStateTransition_effect:
  assumes run: "createStateTransition digest cmd dto db = Inr ((m, False), db')"
  shows "let k = (cm_tenant cmd, td_product dto, td_location dto); b = balanceAt k db in
     \<exists>u b'. transitionUnits cmd dto db = Inr u \<and> 0 < u \<and> u \<le> stateColumn (td_from dto) b \<and> td_from dto \<noteq> td_to dto \<and>
     AVAILABLE \<in> {td_from dto, td_to dto} \<and>
     selectBalance k db' = Some b' \<and> ba_quantity b' = ba_quantity b \<and>
     (\<forall>s. stateColumn s b' = stateColumn s b + (if s = td_to dto then u else if s = td_from dto then - u else 0)) \<and>
     (\<forall>k'. k' \<noteq> k \<longrightarrow> selectBalance k' db' = selectBalance k' db) \<and>
     movement_key m = k \<and> mv_type m = STATE_TRANSITION \<and> mv_quantity m = 0 \<and> mv_state_quantity m = Some u \<and>
     mv_from m = Some (td_from dto) \<and> mv_to m = Some (td_to dto) \<and>
     map movementCore (movements db') = map movementCore (movements db) @ [movementCore m]"
proof -
  define k where "k = (cm_tenant cmd, td_product dto, td_location dto)"
  obtain u db0 b where T: "transitionUnits cmd dto db = Inr u" and E: "ensureBalance k db = Inr ((), db0)"
    and b: "selectBalance k db0 = Some b" and M: "changeState cmd dto u (digest (transitionRequest dto u)) b db0 = Inr ((m, False), db')"
    by (rule createStateTransition_Inr [OF run]) (auto simp: k_def)
  let ?u = "\<lambda>b'. setStateColumn (td_to dto) (stateColumn (td_to dto) b + u) (setStateColumn (td_from dto) (stateColumn (td_from dto) b - u) b')"
  obtain db1 so lo i now where enough: "u \<le> stateColumn (td_from dto) b" and U: "updateBalance k ?u db0 = Inr ((), db1)"
    and P: "postMovement (transitionFor cmd dto (digest (transitionRequest dto u)) u (ba_quantity b) i now) lo so (db1\<lparr>ticks := Suc (ticks db1)\<rparr>) = Inr ((), db')"
    and found: "findMovement (cm_tenant cmd) (cm_key cmd) db' = Some m"
    by (rule changeState_Inr [OF M]) (auto simp: k_def)
  have keys: "balance_key (?u b') = balance_key b'" for b' by simp
  note eff = command_effect [OF E b U keys P]
  have core: "movementCore m = movementCore (transitionFor cmd dto (digest (transitionRequest dto u)) u (ba_quantity b) i now)"
    by (rule findMovement_posted [OF P]) (simp add: found)
  have m: "movement_key m = k" "mv_quantity m = 0" "mv_type m = STATE_TRANSITION" "mv_state_quantity m = Some u"
    "mv_from m = Some (td_from dto)" "mv_to m = Some (td_to dto)"
    using arg_cong [OF core, of mv_quantity] arg_cong [OF core, of mv_tenant] arg_cong [OF core, of mv_product] arg_cong [OF core, of mv_location]
      arg_cong [OF core, of mv_from] arg_cong [OF core, of mv_to] arg_cong [OF core, of mv_type] arg_cong [OF core, of mv_state_quantity] by (simp_all add: k_def)
  have kind: "0 < u" "td_from dto \<noteq> td_to dto" "AVAILABLE \<in> {td_from dto, td_to dto}"
    using T by (auto simp: transitionUnits_def bindE_Inr split: if_splits)
  have others: "\<forall>k'. k' \<noteq> k \<longrightarrow> selectBalance k' db' = selectBalance k' db" using eff(3) by blast
  have cols: "\<forall>s. stateColumn s (?u b) = stateColumn s b + (if s = td_to dto then u else if s = td_from dto then - u else 0)"
    by simp
  show ?thesis
    unfolding Let_def k_def [symmetric] eff(1) [symmetric]
    by (rule exI [of _ u], rule exI [of _ "?u b"])
      (intro conjI T kind enough eff(2) [folded eff(1)] cols others m eff(4) [folded core]; simp)
qed

theorem createStateTransition_effect_witness:
  "case createStateTransition sampleDigest sampleCommand damageOne stockDb of
     Inr ((m, False), db') \<Rightarrow> mv_state_quantity m = Some 1000 \<and> (\<exists>b. selectBalance (1, 7, 3) db' = Some b \<and> ba_quantity b = 5000)
   | _ \<Rightarrow> False"
proof -
  obtain m db' where run: "createStateTransition sampleDigest sampleCommand damageOne stockDb = Inr ((m, False), db')"
    using damage_runs by (auto split: sum.splits)
  have k: "(cm_tenant sampleCommand, td_product damageOne, td_location damageOne) = (1, 7, 3)" by code_simp
  have u: "transitionUnits sampleCommand damageOne stockDb = Inr 1000" by code_simp
  have "mv_state_quantity m = Some 1000 \<and> (\<exists>b. selectBalance (1, 7, 3) db' = Some b \<and> ba_quantity b = ba_quantity stockBalance)"
    using createStateTransition_effect [OF run] unfolding Let_def k stockDb_balance u by auto
  then show ?thesis using run by (simp add: stockBalance_def)
qed

text \<open>Stock cannot be overdrawn: a movement that would take more than is available, or a
  transition that would take more than the source state holds, is refused with its error.\<close>

theorem stock_commands_shortage:
  assumes new: "findMovement (cm_tenant cmd) (cm_key cmd) db = None"
    and target: "assertTarget (cm_tenant cmd) (cm_warehouse cmd) p l db = Inr ((), db)"
  shows "(md_product dto = p \<and> md_location dto = l \<and> md_type dto \<noteq> INITIAL \<and> hasText (md_reference dto) \<and>
       movementChange cmd dto db = Inr change \<and> stockUnits change = Inr q \<and> ba_available (balanceAt (cm_tenant cmd, p, l) db) + q < 0 \<longrightarrow>
       createMovement digest cmd dto db = Inl InsufficientStockError) \<and>
    (td_product tdto = p \<and> td_location tdto = l \<and> transitionUnits cmd tdto db = Inr u \<and>
       stateColumn (td_from tdto) (balanceAt (cm_tenant cmd, p, l) db) < u \<longrightarrow>
       createStateTransition digest cmd tdto db = Inl InsufficientStockStateError)"
proof -
  define k where "k = (cm_tenant cmd, p, l)"
  obtain db0 where E: "ensureBalance k db = Inr ((), db0)" by (simp add: ensureBalance_def)
  have b: "lockBalance k db0 = Inr (balanceAt k db, db0)" using ensureBalance_same(6) [OF E] by (simp add: balanceAt_def)
  have again: "findMovement (cm_tenant cmd) (cm_key cmd) db0 = None"
    using findMovement_cong [OF ensureBalance_same(1,2) [OF E]] new by simp
  show ?thesis
  proof (intro conjI impI; elim conjE)
    assume dto: "md_product dto = p" "md_location dto = l" "md_type dto \<noteq> INITIAL" "hasText (md_reference dto)"
      and c: "movementChange cmd dto db = Inr change" "stockUnits change = Inr q" and less: "ba_available (balanceAt (cm_tenant cmd, p, l) db) + q < 0"
    have stop: "moveStock cmd dto change f (balanceAt k db) db0 = Inl InsufficientStockError" for f
      using dto c(2) less by (simp add: moveStock_def Let_def evalM k_def)
    have "movementTransaction cmd dto change f db = Inl InsufficientStockError" for f
      unfolding movementTransaction_def Let_def dto k_def [symmetric]
      by (simp add: thenM_def bindM_def readM_def new target E b again stop)
    then show "createMovement digest cmd dto db = Inl InsufficientStockError" by (simp add: createMovement_run c catchM_def)
  next
    assume dto: "td_product tdto = p" "td_location tdto = l" and c: "transitionUnits cmd tdto db = Inr u"
      and less: "stateColumn (td_from tdto) (balanceAt (cm_tenant cmd, p, l) db) < u"
    have stop: "changeState cmd tdto u f (balanceAt k db) db0 = Inl InsufficientStockStateError" for f
      using less by (simp add: changeState_def Let_def evalM k_def)
    have "transitionTransaction cmd tdto u f db = Inl InsufficientStockStateError" for f
      unfolding transitionTransaction_def Let_def dto k_def [symmetric]
      by (simp add: thenM_def bindM_def readM_def new target E b again stop)
    then show "createStateTransition digest cmd tdto db = Inl InsufficientStockStateError" by (simp add: createStateTransition_run c catchM_def)
  qed
qed

theorem stock_commands_shortage_witness:
  "createMovement sampleDigest sampleCommand (exitTwo\<lparr>md_quantity := ''6''\<rparr>) stockDb = Inl InsufficientStockError \<and>
   createStateTransition sampleDigest sampleCommand (damageOne\<lparr>td_quantity := ''6''\<rparr>) stockDb = Inl InsufficientStockStateError"
proof -
  have 1: "findMovement (cm_tenant sampleCommand) (cm_key sampleCommand) stockDb = None" by code_simp
  have 2: "assertTarget (cm_tenant sampleCommand) (cm_warehouse sampleCommand) 7 3 stockDb = Inr ((), stockDb)"
    by (auto simp: assertTarget_def runM sampleCommand_def stockDb_def sampleDb_def sampleProduct_def)
  have 3: "movementChange sampleCommand (exitTwo\<lparr>md_quantity := ''6''\<rparr>) stockDb = Inr ''-6.000''" "stockUnits ''-6.000'' = Inr (- 6000)"
    "transitionUnits sampleCommand (damageOne\<lparr>td_quantity := ''6''\<rparr>) stockDb = Inr 6000" by code_simp+
  have 4: "ba_available (balanceAt (cm_tenant sampleCommand, 7, 3) stockDb) = 5000" "hasText (md_reference exitTwo)" "md_type exitTwo = EXIT"
    "md_product exitTwo = 7" "md_location exitTwo = 3" "td_product damageOne = 7" "td_location damageOne = 3" "td_from damageOne = AVAILABLE"
    by code_simp+
  show ?thesis
    using stock_commands_shortage [OF 1 2, of "exitTwo\<lparr>md_quantity := ''6''\<rparr>" "''-6.000''" "- 6000" sampleDigest "damageOne\<lparr>td_quantity := ''6''\<rparr>" 6000] 3 4
    by (simp add: stateColumn_def)
qed

end
