(* ===== verification/Transfers.thy ===== *)
theory Transfers
  imports StockLaws
begin

text \<open>
  Stock transfers between warehouses, after \<open>src/inventory/inventory-transfer.repository.ts\<close>: a
  draft is created, dispatched (the stock leaves the source locations and is in transit at the
  destinations), received in one or more receipts (with discrepancies), or cancelled.

  \<open>digest\<close> stands for \<open>createHash('sha256')\<close> on the serialised object, as in theory
  \<open>StockCommands\<close>. Users and the times of dispatch and cancellation are not modelled.
\<close>

section \<open>Requests and documents\<close>

record transfer_line_dto =
  ld_product :: id
  ld_source :: id
  ld_destination :: id
  ld_quantity :: string
  ld_serials :: "string list option"

record transfer_dto =
  xd_destination :: id
  xd_reference :: string
  xd_reason :: string
  xd_lines :: "transfer_line_dto list"

record receipt_line_dto =
  el_line :: id
  el_received :: string
  el_discrepancy :: string
  el_received_serials :: "string list option"
  el_discrepancy_serials :: "string list option"

record receipt_dto =
  ed_reason :: "string option"
  ed_lines :: "receipt_line_dto list"

text \<open>A line with the joined columns of its product and its two locations.\<close>

record transfer_line_view =
  tv_line :: transfer_line_row
  tv_product_active :: bool
  tv_source_active :: bool
  tv_source_warehouse :: id
  tv_destination_active :: bool
  tv_destination_warehouse :: id

record transfer_document =
  dc_header :: transfer_row
  dc_lines :: "transfer_line_row list"
  dc_receipts :: "(transfer_receipt_row \<times> transfer_receipt_line_row list) list"

section \<open>Reads\<close>

definition transferUnits :: "string \<Rightarrow> inv_error + int" where
  "transferUnits value = (case transfer_toUnits value of None \<Rightarrow> Inl (Failure ''SyntaxError'') | Some u \<Rightarrow> Inr u)"

definition lineView :: "inv_db \<Rightarrow> transfer_line_row \<Rightarrow> transfer_line_view option" where
  "lineView db l =
     (case (selectProduct (tr_tenant l) (tr_product l) db,
            List.find (\<lambda>r. lo_id r = tr_source l \<and> lo_tenant r = tr_tenant l) (locations db),
            List.find (\<lambda>r. lo_id r = tr_destination l \<and> lo_tenant r = tr_tenant l) (locations db)) of
        (Some p, Some s, Some d) \<Rightarrow>
          Some \<lparr>tv_line = l, tv_product_active = pr_active p, tv_source_active = lo_active s, tv_source_warehouse = lo_warehouse s,
            tv_destination_active = lo_active d, tv_destination_warehouse = lo_warehouse d\<rparr>
      | _ \<Rightarrow> None)"

definition findLineRows :: "id \<Rightarrow> id \<Rightarrow> inv_db \<Rightarrow> transfer_line_view list" where
  "findLineRows t transferId db =
     sort_key (\<lambda>v. (tr_number (tv_line v), tr_id (tv_line v)))
       (List.map_filter (lineView db) (filter (\<lambda>l. tr_tenant l = t \<and> tr_transfer l = transferId) (transfer_lines db)))"

definition findReceipts :: "id \<Rightarrow> id \<Rightarrow> inv_db \<Rightarrow> (transfer_receipt_row \<times> transfer_receipt_line_row list) list" where
  "findReceipts t transferId db =
     map (\<lambda>r. (r, sort_key (\<lambda>e. (te_number e, te_id e))
         (filter (\<lambda>e. te_tenant e = t \<and> te_receipt e = tc_id r) (transfer_receipt_lines db))))
       (sort_key (\<lambda>r. (tc_created_at r, tc_id r))
         (filter (\<lambda>r. tc_tenant r = t \<and> tc_transfer r = transferId) (transfer_receipts db)))"

definition warehouseBranch :: "id \<Rightarrow> id \<Rightarrow> inv_db \<Rightarrow> bool" where
  "warehouseBranch t w db \<longleftrightarrow> (\<exists>r\<in>set (warehouses db). wh_id r = w \<and> wh_tenant r = t \<and>
     (\<exists>b\<in>set (branches db). br_id b = wh_branch r \<and> br_tenant b = t))"

definition findDocument :: "id \<Rightarrow> id \<Rightarrow> inv_db \<Rightarrow> transfer_document option" where
  "findDocument t transferId db =
     (case List.find (\<lambda>h. tf_id h = transferId \<and> tf_tenant h = t) (transfers db) of
        None \<Rightarrow> None
      | Some h \<Rightarrow>
          if warehouseBranch t (tf_origin h) db \<and> warehouseBranch t (tf_destination h) db
          then Some \<lparr>dc_header = h, dc_lines = map tv_line (findLineRows t transferId db), dc_receipts = findReceipts t transferId db\<rparr>
          else None)"

definition findByCreationKey :: "id \<Rightarrow> string \<Rightarrow> inv_db \<Rightarrow> (transfer_document \<times> string) option" where
  "findByCreationKey t key db =
     (case List.find (\<lambda>h. tf_tenant h = t \<and> tf_key h = key) (transfers db) of
        None \<Rightarrow> None
      | Some h \<Rightarrow> map_option (\<lambda>d. (d, tf_fingerprint h)) (findDocument t (tf_id h) db))"

definition findReceiptByKey :: "id \<Rightarrow> string \<Rightarrow> inv_db \<Rightarrow> (id \<times> string) option" where
  "findReceiptByKey t key db =
     map_option (\<lambda>r. (tc_transfer r, tc_fingerprint r))
       (List.find (\<lambda>r. tc_tenant r = t \<and> tc_key r = key) (transfer_receipts db))"

definition documentOf :: "inv_error \<Rightarrow> id \<Rightarrow> id \<Rightarrow> transfer_document act" where
  "documentOf e t transferId = bindM (readM (findDocument t transferId)) (requireM e)"

section \<open>Checks\<close>

definition assertWarehouses :: "id \<Rightarrow> id \<Rightarrow> id \<Rightarrow> unit act" where
  "assertWarehouses t origin destination =
     bindM (readM (\<lambda>db. (\<exists>r\<in>set (warehouses db). wh_id r = origin \<and> wh_tenant r = t \<and> wh_active r) \<and>
        (\<exists>r\<in>set (warehouses db). wh_id r = destination \<and> wh_tenant r = t \<and> wh_active r) \<and> origin \<noteq> destination))
       (ensureM InvalidInventoryTransferTargetError)"

text \<open>\<open>admin_users\<close> are the (tenant, user) pairs with the role \<open>ADMIN\<close>, \<open>branch_access\<close> the
  (tenant, user, branch) rows of \<open>user_branch_access\<close>.\<close>

definition assertWarehouseAccess :: "id \<Rightarrow> id \<Rightarrow> id \<Rightarrow> unit act" where
  "assertWarehouseAccess t user warehouse =
     bindM (readM (\<lambda>db. \<exists>w\<in>set (warehouses db). wh_id w = warehouse \<and> wh_tenant w = t \<and> wh_active w \<and>
        ((t, user) \<in> set (admin_users db) \<or> (t, user, wh_branch w) \<in> set (branch_access db))))
       (ensureM InvalidInventoryTransferTargetError)"

definition assertLineTarget :: "id \<Rightarrow> id \<Rightarrow> id \<Rightarrow> id \<Rightarrow> id \<Rightarrow> id \<Rightarrow> unit act" where
  "assertLineTarget t origin destination p s d =
     bindM (readM (\<lambda>db. (\<exists>r\<in>set (products db). pr_id r = p \<and> pr_tenant r = t \<and> pr_active r \<and> \<not> pr_has_variants r) \<and>
        (\<exists>r\<in>set (locations db). lo_id r = s \<and> lo_tenant r = t \<and> lo_warehouse r = origin \<and> lo_active r) \<and>
        (\<exists>r\<in>set (locations db). lo_id r = d \<and> lo_tenant r = t \<and> lo_warehouse r = destination \<and> lo_active r)))
       (ensureM InvalidInventoryTransferTargetError)"

definition assertDistinctLines :: "transfer_dto \<Rightarrow> unit act" where
  "assertDistinctLines dto =
     ensureM DuplicateInventoryTransferLineError (distinct (map (\<lambda>l. (ld_product l, ld_source l, ld_destination l)) (xd_lines dto)))"

section \<open>create\<close>

definition activePolicy :: "id \<Rightarrow> id \<Rightarrow> inv_db \<Rightarrow> product_quantity_policy option" where
  "activePolicy t p db = map_option pr_policy (List.find (\<lambda>r. pr_id r = p \<and> pr_tenant r = t \<and> pr_active r) (products db))"

definition listOr :: "'a list option \<Rightarrow> 'a list" where
  "listOr v = (case v of None \<Rightarrow> [] | Some xs \<Rightarrow> xs)"

definition normalizeTransferLine :: "id \<Rightarrow> transfer_line_dto \<Rightarrow> transfer_line_dto act" where
  "normalizeTransferLine t l =
     bindM (readM (activePolicy t (ld_product l))) (\<lambda>found.
     bindM (requireM InvalidInventoryTransferTargetError found) (\<lambda>policy.
     bindM (normalizeM (ld_quantity l) policy False True) (\<lambda>q.
     returnM (l\<lparr>ld_quantity := q, ld_serials := Some (map trim (listOr (ld_serials l)))\<rparr>))))"

text \<open>Unique \<open>(tenant_id, creation_idempotency_key)\<close> and \<open>ck_inventory_transfers_distinct\<close>.\<close>

definition insertTransfer :: "transfer_row \<Rightarrow> unit act" where
  "insertTransfer h =
     bindM (readM transfers) (\<lambda>rows.
     thenM (ensureM DuplicateEntry (\<forall>r\<in>set rows. \<not> (tf_tenant r = tf_tenant h \<and> tf_key r = tf_key h)))
     (thenM (ensureM CheckViolated (tf_origin h \<noteq> tf_destination h))
       (writeM (\<lambda>db. db\<lparr>transfers := transfers db @ [h]\<rparr>))))"

definition line_check :: "transfer_line_row \<Rightarrow> bool" where
  "line_check l \<longleftrightarrow> 0 < tr_quantity l \<and> 0 \<le> tr_received l \<and> 0 \<le> tr_discrepancy l \<and> tr_received l + tr_discrepancy l \<le> tr_quantity l"

definition insertTransferLine :: "transfer_line_row \<Rightarrow> unit act" where
  "insertTransferLine l =
     bindM (readM transfer_lines) (\<lambda>rows.
     thenM (ensureM DuplicateEntry (\<forall>r\<in>set rows. \<not> (tr_transfer r = tr_transfer l \<and> tr_number r = tr_number l)))
     (thenM (ensureM CheckViolated (line_check l))
       (writeM (\<lambda>db. db\<lparr>transfer_lines := transfer_lines db @ [l]\<rparr>))))"

definition createLine :: "id \<Rightarrow> id \<Rightarrow> nat \<times> transfer_line_dto \<Rightarrow> unit act" where
  "createLine t transferId = (\<lambda>(index, l).
     bindM (liftE (transferUnits (ld_quantity l))) (\<lambda>q.
     bindM newRow (\<lambda>(i, now).
     insertTransferLine \<lparr>tr_id = i, tr_tenant = t, tr_transfer = transferId, tr_number = index + 1, tr_product = ld_product l,
       tr_source = ld_source l, tr_destination = ld_destination l, tr_quantity = q, tr_serials = listOr (ld_serials l),
       tr_received = 0, tr_discrepancy = 0\<rparr>)))"

definition createDraft :: "command \<Rightarrow> transfer_dto \<Rightarrow> transfer_line_dto list \<Rightarrow> string \<Rightarrow> (transfer_document \<times> bool) act" where
  "createDraft cmd dto lines fingerprint =
     (let t = cm_tenant cmd in
      thenM (assertWarehouses t (cm_warehouse cmd) (xd_destination dto))
      (thenM (forM (\<lambda>l. assertLineTarget t (cm_warehouse cmd) (xd_destination dto) (ld_product l) (ld_source l) (ld_destination l)) lines)
      (bindM newRow (\<lambda>(i, now).
      thenM (insertTransfer \<lparr>tf_id = i, tf_tenant = t, tf_origin = cm_warehouse cmd, tf_destination = xd_destination dto,
          tf_status = TransferDraft, tf_reference = xd_reference dto, tf_reason = xd_reason dto, tf_key = cm_key cmd,
          tf_fingerprint = fingerprint, tf_dispatch_key = None, tf_user = cm_user cmd\<rparr>)
      (thenM (forM (createLine t i) (List.enumerate 0 lines))
      (bindM (documentOf (Failure ''CREATED_TRANSFER_NOT_FOUND'') t i) (\<lambda>d. returnM (d, False))))))))"

definition replayCreation :: "string \<Rightarrow> transfer_document \<times> string \<Rightarrow> (transfer_document \<times> bool) act" where
  "replayCreation fingerprint stored =
     thenM (ensureM InventoryTransferIdempotencyConflictError (snd stored = fingerprint)) (returnM (fst stored, True))"

definition createTransaction :: "command \<Rightarrow> transfer_dto \<Rightarrow> transfer_line_dto list \<Rightarrow> string \<Rightarrow> (transfer_document \<times> bool) act" where
  "createTransaction cmd dto lines fingerprint =
     thenM (assertWarehouseAccess (cm_tenant cmd) (cm_user cmd) (xd_destination dto))
     (bindM (readM (findByCreationKey (cm_tenant cmd) (cm_key cmd))) (\<lambda>replay.
      case replay of Some stored \<Rightarrow> replayCreation fingerprint stored | None \<Rightarrow> createDraft cmd dto lines fingerprint))"

definition transferRequest :: "command \<Rightarrow> transfer_dto \<Rightarrow> transfer_line_dto list \<Rightarrow> request" where
  "transferRequest cmd dto lines = TransferRequest (cm_warehouse cmd) (xd_destination dto) (xd_reference dto) (xd_reason dto)
     (map (\<lambda>l. (ld_product l, ld_source l, ld_destination l, ld_quantity l, listOr (ld_serials l))) lines)"

definition createTransfer :: "(request \<Rightarrow> string) \<Rightarrow> command \<Rightarrow> transfer_dto \<Rightarrow> (transfer_document \<times> bool) act" where
  "createTransfer digest cmd dto =
     thenM (ensureM InvalidInventoryTransferTargetError (cm_warehouse cmd \<noteq> xd_destination dto))
     (thenM (assertDistinctLines dto)
     (bindM (mapM (normalizeTransferLine (cm_tenant cmd)) (xd_lines dto)) (\<lambda>lines.
      let fingerprint = digest (transferRequest cmd dto lines) in
      catchM (\<lambda>e. e = DuplicateEntry) (createTransaction cmd dto lines fingerprint)
        (\<lambda>_. bindM (readM (findByCreationKey (cm_tenant cmd) (cm_key cmd))) (\<lambda>found.
             bindM (requireM InventoryTransferIdempotencyConflictError found) (replayCreation fingerprint))))))"

section \<open>The balances in memory\<close>

text \<open>\<open>dispatch\<close> and \<open>receive\<close> lock the balances of all their lines, keep them in a \<open>Map\<close> keyed
  by product and location, change the objects of the map line by line and write each changed object
  to the table.\<close>

type_synonym balance_cache = "id \<times> id \<Rightarrow> balance_row option"

definition lockLine :: "id \<Rightarrow> id \<times> id \<Rightarrow> ((id \<times> id) \<times> balance_row) act" where
  "lockLine t = (\<lambda>(p, l).
     thenM (ensureBalance (t, p, l)) (bindM (lockBalance (t, p, l)) (\<lambda>b. returnM ((p, l), b))))"

definition cached :: "balance_cache \<Rightarrow> id \<times> id \<Rightarrow> balance_row act" where
  "cached bal k = requireM (Failure ''TypeError'') (bal k)"

text \<open>\<open>updateBalance\<close> writes all five columns.\<close>

definition writeBalance :: "id \<times> id \<times> id \<Rightarrow> balance_row \<Rightarrow> unit act" where
  "writeBalance k b = updateBalance k (\<lambda>r. r\<lparr>ba_quantity := ba_quantity b, ba_available := ba_available b,
     ba_reserved := ba_reserved b, ba_damaged := ba_damaged b, ba_in_transit := ba_in_transit b\<rparr>)"

section \<open>Movements of transfers\<close>

definition movementTypeText :: "movement_type \<Rightarrow> string" where
  "movementTypeText k = (case k of INITIAL \<Rightarrow> ''INITIAL'' | ENTRY \<Rightarrow> ''ENTRY'' | EXIT \<Rightarrow> ''EXIT'' | RETURN \<Rightarrow> ''RETURN'' | LOSS \<Rightarrow> ''LOSS''
     | DAMAGE \<Rightarrow> ''DAMAGE'' | ADJUSTMENT \<Rightarrow> ''ADJUSTMENT'' | STATE_TRANSITION \<Rightarrow> ''STATE_TRANSITION'' | SALE \<Rightarrow> ''SALE''
     | SALE_VOID \<Rightarrow> ''SALE_VOID'' | SALE_RETURN \<Rightarrow> ''SALE_RETURN'' | TRANSFER_OUT \<Rightarrow> ''TRANSFER_OUT'' | TRANSFER_IN \<Rightarrow> ''TRANSFER_IN''
     | TRANSFER_RECEIPT \<Rightarrow> ''TRANSFER_RECEIPT'' | TRANSFER_DISCREPANCY \<Rightarrow> ''TRANSFER_DISCREPANCY'' | IMPORT \<Rightarrow> ''IMPORT''
     | PURCHASE_RECEIPT \<Rightarrow> ''PURCHASE_RECEIPT'' | SUPPLIER_RETURN \<Rightarrow> ''SUPPLIER_RETURN'')"

definition lineKey :: "string \<Rightarrow> id \<Rightarrow> nat \<Rightarrow> movement_type \<Rightarrow> string" where
  "lineKey prefix i number kind =
     prefix @ string_of_nat i @ '':'' @ string_of_nat number @ '':'' @ movementTypeText kind"

definition transferMovement :: "(request \<Rightarrow> string) \<Rightarrow> command \<Rightarrow> transfer_row \<Rightarrow> transfer_line_row \<Rightarrow> movement_type \<Rightarrow> id \<Rightarrow> int \<Rightarrow> int \<Rightarrow> id \<Rightarrow> nat \<Rightarrow> movement_row" where
  "transferMovement digest cmd h l kind location q resulting i now =
     (movementRow i now (cm_tenant cmd, tr_product l, location) kind q resulting)
       \<lparr>mv_reason := tf_reason h, mv_reference := Some (tf_reference h), mv_key := lineKey ''transfer:'' (tf_id h) (tr_number l) kind,
        mv_fingerprint := digest (TransferMovementRequest (tf_id h) (tr_id l) kind location (stock_fromUnits q)),
        mv_user := cm_user cmd, mv_transfer := Some (tf_id h), mv_transfer_line := Some (tr_id l)\<rparr>"

definition postTransfer :: "(request \<Rightarrow> string) \<Rightarrow> command \<Rightarrow> transfer_row \<Rightarrow> transfer_line_row \<Rightarrow> movement_type \<Rightarrow> id \<Rightarrow> int \<Rightarrow> int \<Rightarrow> unit act" where
  "postTransfer digest cmd h l kind location q resulting =
     bindM newRow (\<lambda>(i, now).
     postMovement (transferMovement digest cmd h l kind location q resulting i now) noLotOptions
       \<lparr>so_serials = (if kind = TRANSFER_OUT then Some (tr_serials l) else None), so_destination = Some (tr_destination l)\<rparr>)"

definition receiptMovement :: "(request \<Rightarrow> string) \<Rightarrow> command \<Rightarrow> transfer_row \<Rightarrow> transfer_line_row \<Rightarrow> id \<Rightarrow> id \<Rightarrow> movement_type \<Rightarrow> int \<Rightarrow> int \<Rightarrow> string \<Rightarrow> id \<Rightarrow> nat \<Rightarrow> movement_row" where
  "receiptMovement digest cmd h l receipt receiptLine kind q resulting reason i now =
     (let isReceipt = (kind = TRANSFER_RECEIPT) in
      (movementRow i now (cm_tenant cmd, tr_product l, tr_destination l) kind (if isReceipt then 0 else - q) resulting)
        \<lparr>mv_from := (if isReceipt then Some IN_TRANSIT else None), mv_to := (if isReceipt then Some AVAILABLE else None),
         mv_state_quantity := (if isReceipt then Some q else None), mv_reason := reason, mv_reference := Some (tf_reference h),
         mv_key := lineKey ''receipt:'' receipt (tr_number l) kind,
         mv_fingerprint := digest (ReceiptMovementRequest receipt receiptLine kind (stock_fromUnits q)),
         mv_user := cm_user cmd, mv_transfer := Some (tf_id h), mv_transfer_line := Some (tr_id l)\<rparr>)"

definition postReceipt :: "(request \<Rightarrow> string) \<Rightarrow> command \<Rightarrow> transfer_row \<Rightarrow> transfer_line_row \<Rightarrow> id \<Rightarrow> id \<Rightarrow> movement_type \<Rightarrow> int \<Rightarrow> int \<Rightarrow> string \<Rightarrow> string list \<Rightarrow> unit act" where
  "postReceipt digest cmd h l receipt receiptLine kind q resulting reason numbers =
     bindM newRow (\<lambda>(i, now).
     postMovement (receiptMovement digest cmd h l receipt receiptLine kind q resulting reason i now) noLotOptions
       \<lparr>so_serials = Some numbers, so_destination = None\<rparr>)"

section \<open>dispatch\<close>

definition dispatchTarget :: "transfer_row \<Rightarrow> transfer_line_view \<Rightarrow> unit act" where
  "dispatchTarget h v =
     ensureM InvalidInventoryTransferTargetError
       (tv_product_active v \<and> tv_source_active v \<and> tv_destination_active v \<and>
        tv_source_warehouse v = tf_origin h \<and> tv_destination_warehouse v = tf_destination h)"

definition dispatchKeys :: "transfer_line_view list \<Rightarrow> (id \<times> id) list" where
  "dispatchKeys vs = sort (remdups (concat (map (\<lambda>v. [(tr_product (tv_line v), tr_source (tv_line v)), (tr_product (tv_line v), tr_destination (tv_line v))]) vs)))"

definition dispatchLine :: "(request \<Rightarrow> string) \<Rightarrow> command \<Rightarrow> transfer_row \<Rightarrow> transfer_line_row \<Rightarrow> balance_cache \<Rightarrow> balance_cache act" where
  "dispatchLine digest cmd h l bal =
     (let t = cm_tenant cmd; q = tr_quantity l; sk = (tr_product l, tr_source l); dk = (tr_product l, tr_destination l) in
      bindM (cached bal sk) (\<lambda>source.
      thenM (ensureM InventoryTransferInsufficientStockError (\<not> ba_available source < q))
      (let bal1 = bal(sk \<mapsto> source\<lparr>ba_available := ba_available source - q, ba_quantity := ba_quantity source - q\<rparr>) in
      bindM (cached bal1 dk) (\<lambda>destination.
      let bal2 = bal1(dk \<mapsto> destination\<lparr>ba_in_transit := ba_in_transit destination + q, ba_quantity := ba_quantity destination + q\<rparr>) in
      bindM (cached bal2 sk) (\<lambda>source'.
      bindM (cached bal2 dk) (\<lambda>destination'.
      thenM (writeBalance (t, sk) source')
      (thenM (writeBalance (t, dk) destination')
      (thenM (postTransfer digest cmd h l TRANSFER_OUT (tr_source l) (- q) (ba_quantity source'))
      (thenM (postTransfer digest cmd h l TRANSFER_IN (tr_destination l) q (ba_quantity destination'))
        (returnM bal2))))))))))"

fun dispatchLines :: "(request \<Rightarrow> string) \<Rightarrow> command \<Rightarrow> transfer_row \<Rightarrow> transfer_line_row list \<Rightarrow> balance_cache \<Rightarrow> unit act" where
  "dispatchLines digest cmd h [] bal = returnM ()"
| "dispatchLines digest cmd h (l # ls) bal = bindM (dispatchLine digest cmd h l bal) (dispatchLines digest cmd h ls)"

text \<open>The header update; unique \<open>(tenant_id, dispatch_idempotency_key)\<close>.\<close>

definition markDispatched :: "command \<Rightarrow> id \<Rightarrow> unit act" where
  "markDispatched cmd transferId =
     bindM (readM transfers) (\<lambda>rows.
     thenM (ensureM DuplicateEntry (\<forall>r\<in>set rows. tf_id r \<noteq> transferId \<longrightarrow> \<not> (tf_tenant r = cm_tenant cmd \<and> tf_dispatch_key r = Some (cm_key cmd))))
       (writeM (\<lambda>db. db\<lparr>transfers := update_where (\<lambda>r. tf_id r = transferId \<and> tf_tenant r = cm_tenant cmd)
          (\<lambda>r. r\<lparr>tf_status := TransferDispatched, tf_dispatch_key := Some (cm_key cmd)\<rparr>) (transfers db)\<rparr>)))"

definition dispatchDraft :: "(request \<Rightarrow> string) \<Rightarrow> command \<Rightarrow> transfer_row \<Rightarrow> (transfer_document \<times> bool) act" where
  "dispatchDraft digest cmd h =
     (let t = cm_tenant cmd in
      thenM (assertWarehouses t (tf_origin h) (tf_destination h))
      (bindM (readM (findLineRows t (tf_id h))) (\<lambda>lines.
      thenM (ensureM InventoryTransferNotFoundError (lines \<noteq> []))
      (thenM (forM (dispatchTarget h) lines)
      (bindM (mapM (lockLine t) (dispatchKeys lines)) (\<lambda>rows.
      thenM (dispatchLines digest cmd h (map tv_line lines) (map_of rows))
      (thenM (markDispatched cmd (tf_id h))
      (bindM (documentOf InventoryTransferNotFoundError t (tf_id h)) (\<lambda>d. returnM (d, False)))))))))) "

definition dispatchTransaction :: "(request \<Rightarrow> string) \<Rightarrow> command \<Rightarrow> id \<Rightarrow> (transfer_document \<times> bool) act" where
  "dispatchTransaction digest cmd transferId =
     bindM (readM (\<lambda>db. List.find (\<lambda>h. tf_id h = transferId \<and> tf_tenant h = cm_tenant cmd \<and> tf_origin h = cm_warehouse cmd) (transfers db))) (\<lambda>found.
     bindM (requireM InventoryTransferNotFoundError found) (\<lambda>h.
     if tf_status h = TransferDispatched
     then thenM (ensureM InventoryTransferStatusConflictError (tf_dispatch_key h = Some (cm_key cmd)))
            (bindM (documentOf InventoryTransferNotFoundError (cm_tenant cmd) transferId) (\<lambda>d. returnM (d, True)))
     else thenM (ensureM InventoryTransferStatusConflictError (tf_status h = TransferDraft)) (dispatchDraft digest cmd h)))"

definition dispatchTransfer :: "(request \<Rightarrow> string) \<Rightarrow> command \<Rightarrow> id \<Rightarrow> (transfer_document \<times> bool) act" where
  "dispatchTransfer digest cmd transferId =
     catchM (\<lambda>e. e = DuplicateEntry) (dispatchTransaction digest cmd transferId)
       (\<lambda>_. throwM InventoryTransferIdempotencyConflictError)"

section \<open>receive\<close>

record receipt_line =
  rq_line :: id
  rq_received :: string
  rq_discrepancy :: string
  rq_received_serials :: "string list"
  rq_discrepancy_serials :: "string list"

text \<open>A requested line joined with its transfer line, its quantities in units.\<close>

record receipt_item =
  ri_line :: transfer_line_row
  ri_received :: int
  ri_discrepancy :: int
  ri_received_serials :: "string list"
  ri_discrepancy_serials :: "string list"

definition transferLinePolicy :: "id \<Rightarrow> id \<Rightarrow> id \<Rightarrow> inv_db \<Rightarrow> product_quantity_policy option" where
  "transferLinePolicy t transferId lineId db =
     (case List.find (\<lambda>l. tr_id l = lineId \<and> tr_tenant l = t \<and> tr_transfer l = transferId) (transfer_lines db) of
        None \<Rightarrow> None | Some l \<Rightarrow> map_option pr_policy (selectProduct t (tr_product l) db))"

definition normalizeReceiptLine :: "id \<Rightarrow> id \<Rightarrow> receipt_line_dto \<Rightarrow> receipt_line act" where
  "normalizeReceiptLine t transferId l =
     bindM (readM (transferLinePolicy t transferId (el_line l))) (\<lambda>found.
     bindM (requireM InvalidInventoryTransferReceiptError found) (\<lambda>policy.
     bindM (normalizeM (el_received l) policy False False) (\<lambda>received.
     bindM (normalizeM (el_discrepancy l) policy False False) (\<lambda>discrepancy.
     returnM \<lparr>rq_line = el_line l, rq_received = received, rq_discrepancy = discrepancy,
       rq_received_serials = map trim (listOr (el_received_serials l)), rq_discrepancy_serials = map trim (listOr (el_discrepancy_serials l))\<rparr>))))"

definition isZero :: "receipt_line \<Rightarrow> bool" where
  "isZero l \<longleftrightarrow> transferUnits (rq_received l) = Inr 0 \<and> transferUnits (rq_discrepancy l) = Inr 0"

definition isShort :: "receipt_line \<Rightarrow> bool" where
  "isShort l \<longleftrightarrow> (case transferUnits (rq_discrepancy l) of Inl _ \<Rightarrow> False | Inr u \<Rightarrow> 0 < u)"

definition receiptRequest :: "id \<Rightarrow> receipt_dto \<Rightarrow> receipt_line list \<Rightarrow> request" where
  "receiptRequest transferId dto lines = ReceiptRequest transferId
     (map (\<lambda>l. (rq_line l, rq_received l, rq_discrepancy l, rq_received_serials l, rq_discrepancy_serials l)) (sort_key rq_line lines))
     (ed_reason dto)"

definition receiptItem :: "transfer_line_view list \<Rightarrow> receipt_line \<Rightarrow> receipt_item act" where
  "receiptItem views l =
     bindM (requireM InvalidInventoryTransferReceiptError (List.find (\<lambda>v. tr_id (tv_line v) = rq_line l) views)) (\<lambda>v.
     bindM (liftE (transferUnits (rq_received l))) (\<lambda>received.
     bindM (liftE (transferUnits (rq_discrepancy l))) (\<lambda>discrepancy.
     let line = tv_line v; processed = received + discrepancy; pending = tr_quantity line - tr_received line - tr_discrepancy line in
     thenM (ensureM InvalidInventoryTransferReceiptError (\<not> processed \<le> 0))
     (thenM (ensureM InventoryTransferReceiptExceedsPendingError (\<not> pending < processed))
       (returnM \<lparr>ri_line = line, ri_received = received, ri_discrepancy = discrepancy,
          ri_received_serials = rq_received_serials l, ri_discrepancy_serials = rq_discrepancy_serials l\<rparr>)))))"

definition receiptKeys :: "receipt_item list \<Rightarrow> (id \<times> id) list" where
  "receiptKeys xs = sort (remdups (map (\<lambda>x. (tr_product (ri_line x), tr_destination (ri_line x))) xs))"

text \<open>The balance must exist here: nothing is inserted.\<close>

definition lockReceiptLine :: "id \<Rightarrow> id \<times> id \<Rightarrow> ((id \<times> id) \<times> balance_row) act" where
  "lockReceiptLine t = (\<lambda>(p, l).
     bindM (readM (selectBalance (t, p, l))) (\<lambda>found.
     bindM (requireM InvalidInventoryTransferReceiptError found) (\<lambda>b. returnM ((p, l), b))))"

definition insertReceipt :: "transfer_receipt_row \<Rightarrow> unit act" where
  "insertReceipt r =
     bindM (readM transfer_receipts) (\<lambda>rows.
     thenM (ensureM DuplicateEntry (\<forall>x\<in>set rows. \<not> (tc_tenant x = tc_tenant r \<and> tc_key x = tc_key r)))
       (writeM (\<lambda>db. db\<lparr>transfer_receipts := transfer_receipts db @ [r]\<rparr>)))"

definition insertReceiptLine :: "transfer_receipt_line_row \<Rightarrow> unit act" where
  "insertReceiptLine e =
     bindM (readM transfer_receipt_lines) (\<lambda>rows.
     thenM (ensureM DuplicateEntry (\<forall>x\<in>set rows. \<not> (te_receipt x = te_receipt e \<and> (te_number x = te_number e \<or> te_line x = te_line e))))
     (thenM (ensureM CheckViolated (0 \<le> te_received e \<and> 0 \<le> te_discrepancy e \<and> 0 < te_received e + te_discrepancy e))
       (writeM (\<lambda>db. db\<lparr>transfer_receipt_lines := transfer_receipt_lines db @ [e]\<rparr>))))"

definition addProgress :: "id \<Rightarrow> id \<Rightarrow> int \<Rightarrow> int \<Rightarrow> unit act" where
  "addProgress t lineId received discrepancy =
     (let u = (\<lambda>l. l\<lparr>tr_received := tr_received l + received, tr_discrepancy := tr_discrepancy l + discrepancy\<rparr>) in
      bindM (readM transfer_lines) (\<lambda>rows.
      thenM (ensureM CheckViolated (\<forall>l\<in>set rows. tr_id l = lineId \<and> tr_tenant l = t \<longrightarrow> line_check (u l)))
        (writeM (\<lambda>db. db\<lparr>transfer_lines := update_where (\<lambda>l. tr_id l = lineId \<and> tr_tenant l = t) u (transfer_lines db)\<rparr>))))"

text \<open>``Recepci(o acute)n'', in the characters of the source file.\<close>

definition receiptReason :: "transfer_row \<Rightarrow> string" where
  "receiptReason h = ''Recepci'' @ [CHR 0xF3] @ ''n '' @ tf_reference h"

definition receiveLine :: "(request \<Rightarrow> string) \<Rightarrow> command \<Rightarrow> transfer_row \<Rightarrow> string option \<Rightarrow> id \<Rightarrow> nat \<times> receipt_item \<Rightarrow> balance_cache \<Rightarrow> balance_cache act" where
  "receiveLine digest cmd h reason receipt item bal =
     (let (index, x) = item; t = cm_tenant cmd; l = ri_line x; processed = ri_received x + ri_discrepancy x; k = (tr_product l, tr_destination l) in
      bindM (cached bal k) (\<lambda>b.
      thenM (ensureM InvalidInventoryTransferReceiptError (\<not> ba_in_transit b < processed))
      (let b' = b\<lparr>ba_in_transit := ba_in_transit b - processed, ba_available := ba_available b + ri_received x,
                  ba_quantity := ba_quantity b - ri_discrepancy x\<rparr> in
      thenM (writeBalance (t, k) b')
      (thenM (addProgress t (tr_id l) (ri_received x) (ri_discrepancy x))
      (bindM newRow (\<lambda>(i, now).
      thenM (insertReceiptLine \<lparr>te_id = i, te_tenant = t, te_receipt = receipt, te_line = tr_id l, te_number = index + 1,
         te_received = ri_received x, te_discrepancy = ri_discrepancy x\<rparr>)
      (thenM (whenM (0 < ri_received x) (postReceipt digest cmd h l receipt i TRANSFER_RECEIPT (ri_received x) (ba_quantity b')
         (receiptReason h) (ri_received_serials x)))
      (thenM (whenM (0 < ri_discrepancy x) (postReceipt digest cmd h l receipt i TRANSFER_DISCREPANCY (ri_discrepancy x) (ba_quantity b')
         (case reason of None \<Rightarrow> [] | Some r \<Rightarrow> r) (ri_discrepancy_serials x)))
        (returnM (bal(k \<mapsto> b')))))))))))"

fun receiveLines :: "(request \<Rightarrow> string) \<Rightarrow> command \<Rightarrow> transfer_row \<Rightarrow> string option \<Rightarrow> id \<Rightarrow> (nat \<times> receipt_item) list \<Rightarrow> balance_cache \<Rightarrow> unit act" where
  "receiveLines digest cmd h reason receipt [] bal = returnM ()"
| "receiveLines digest cmd h reason receipt (x # xs) bal =
     bindM (receiveLine digest cmd h reason receipt x bal) (receiveLines digest cmd h reason receipt xs)"

definition isComplete :: "id \<Rightarrow> id \<Rightarrow> inv_db \<Rightarrow> bool" where
  "isComplete t transferId db \<longleftrightarrow>
     filter (\<lambda>l. tr_tenant l = t \<and> tr_transfer l = transferId \<and> tr_received l + tr_discrepancy l < tr_quantity l) (transfer_lines db) = []"

definition markProgress :: "id \<Rightarrow> id \<Rightarrow> unit act" where
  "markProgress t transferId =
     bindM (readM (isComplete t transferId)) (\<lambda>complete.
     writeM (\<lambda>db. db\<lparr>transfers := update_where (\<lambda>r. tf_id r = transferId \<and> tf_tenant r = t)
       (\<lambda>r. r\<lparr>tf_status := (if complete then TransferReceived else TransferPartiallyReceived)\<rparr>) (transfers db)\<rparr>))"

text \<open>The part of the transaction after the replay check.\<close>

definition receiveItems :: "(request \<Rightarrow> string) \<Rightarrow> command \<Rightarrow> transfer_row \<Rightarrow> string option \<Rightarrow> receipt_item list \<Rightarrow> string \<Rightarrow> (transfer_document \<times> bool) act" where
  "receiveItems digest cmd h reason items fingerprint =
     (let t = cm_tenant cmd in
      bindM (mapM (lockReceiptLine t) (receiptKeys items)) (\<lambda>rows.
      bindM newRow (\<lambda>(i, now).
      thenM (insertReceipt \<lparr>tc_id = i, tc_tenant = t, tc_transfer = tf_id h, tc_reason = reason, tc_key = cm_key cmd,
        tc_fingerprint = fingerprint, tc_user = cm_user cmd, tc_created_at = now\<rparr>)
      (thenM (receiveLines digest cmd h reason i (List.enumerate 0 items) (map_of rows))
      (thenM (markProgress t (tf_id h))
      (bindM (documentOf InventoryTransferNotFoundError t (tf_id h)) (\<lambda>d. returnM (d, False))))))))"

definition receiveNew :: "(request \<Rightarrow> string) \<Rightarrow> command \<Rightarrow> id \<Rightarrow> receipt_dto \<Rightarrow> receipt_line list \<Rightarrow> string \<Rightarrow> (transfer_document \<times> bool) act" where
  "receiveNew digest cmd transferId dto lines fingerprint =
     bindM (readM (\<lambda>db. List.find (\<lambda>h. tf_id h = transferId \<and> tf_tenant h = cm_tenant cmd) (transfers db))) (\<lambda>found.
     bindM (requireM InventoryTransferNotFoundError found) (\<lambda>h.
     thenM (ensureM InvalidInventoryTransferTargetError (tf_destination h = cm_warehouse cmd))
     (thenM (ensureM InventoryTransferStatusConflictError (tf_status h \<in> {TransferDispatched, TransferPartiallyReceived}))
     (bindM (readM (findLineRows (cm_tenant cmd) transferId)) (\<lambda>views.
      bindM (mapM (receiptItem views) lines) (\<lambda>items.
      receiveItems digest cmd h (ed_reason dto) items fingerprint))))))"

definition receiveTransaction :: "(request \<Rightarrow> string) \<Rightarrow> command \<Rightarrow> id \<Rightarrow> receipt_dto \<Rightarrow> receipt_line list \<Rightarrow> string \<Rightarrow> (transfer_document \<times> bool) act" where
  "receiveTransaction digest cmd transferId dto lines fingerprint =
     bindM (readM (findReceiptByKey (cm_tenant cmd) (cm_key cmd))) (\<lambda>existing.
     case existing of
       Some stored \<Rightarrow>
         thenM (ensureM InventoryTransferIdempotencyConflictError (stored = (transferId, fingerprint)))
         (bindM (documentOf InventoryTransferNotFoundError (cm_tenant cmd) transferId) (\<lambda>d.
          thenM (ensureM InventoryTransferNotFoundError (tf_destination (dc_header d) = cm_warehouse cmd)) (returnM (d, True))))
     | None \<Rightarrow> receiveNew digest cmd transferId dto lines fingerprint)"

definition receiveTransfer :: "(request \<Rightarrow> string) \<Rightarrow> command \<Rightarrow> id \<Rightarrow> receipt_dto \<Rightarrow> (transfer_document \<times> bool) act" where
  "receiveTransfer digest cmd transferId dto =
     thenM (ensureM InvalidInventoryTransferReceiptError (distinct (map el_line (ed_lines dto))))
     (bindM (readM (\<lambda>db. List.find (\<lambda>h. tf_id h = transferId \<and> tf_tenant h = cm_tenant cmd) (transfers db))) (\<lambda>target.
      bindM (requireM InventoryTransferNotFoundError target) (\<lambda>_.
      bindM (mapM (normalizeReceiptLine (cm_tenant cmd) transferId) (ed_lines dto)) (\<lambda>lines.
      thenM (ensureM InvalidInventoryTransferReceiptError (\<not> list_all isZero lines))
      (thenM (ensureM InventoryTransferDiscrepancyReasonRequiredError (\<not> (list_ex isShort lines \<and> \<not> hasText (ed_reason dto))))
      (let fingerprint = digest (receiptRequest transferId dto lines) in
       catchM (\<lambda>e. e = DuplicateEntry) (receiveTransaction digest cmd transferId dto lines fingerprint)
         (\<lambda>_. bindM (readM (findReceiptByKey (cm_tenant cmd) (cm_key cmd))) (\<lambda>existing.
              thenM (ensureM InventoryTransferIdempotencyConflictError (existing = Some (transferId, fingerprint)))
              (bindM (documentOf InventoryTransferNotFoundError (cm_tenant cmd) transferId) (\<lambda>d. returnM (d, True)))))))))))"

section \<open>cancel\<close>

definition cancelTransfer :: "command \<Rightarrow> id \<Rightarrow> transfer_document act" where
  "cancelTransfer cmd transferId =
     bindM (readM (\<lambda>db. List.find (\<lambda>h. tf_id h = transferId \<and> tf_tenant h = cm_tenant cmd \<and> tf_origin h = cm_warehouse cmd) (transfers db))) (\<lambda>found.
     bindM (requireM InventoryTransferNotFoundError found) (\<lambda>h.
     thenM (ensureM InventoryTransferStatusConflictError (tf_status h \<noteq> TransferDispatched))
     (thenM (whenM (tf_status h = TransferDraft)
        (writeM (\<lambda>db. db\<lparr>transfers := update_where (\<lambda>r. tf_id r = transferId \<and> tf_tenant r = cm_tenant cmd)
           (\<lambda>r. r\<lparr>tf_status := TransferCancelled\<rparr>) (transfers db)\<rparr>)))
       (documentOf InventoryTransferNotFoundError (cm_tenant cmd) transferId))))"

end
