(* ===== verification/TransferLaws.thy ===== *)
theory TransferLaws
  imports Transfers
begin

text \<open>
  The laws of transfers (theory \<open>Transfers\<close>): what the loops over the lines do to the balances,
  that the balances in memory are those of the table, and the invariant of the documents.
\<close>

section \<open>Balances\<close>

definition shiftBalance :: "int \<Rightarrow> int \<Rightarrow> int \<Rightarrow> balance_row \<Rightarrow> balance_row" where
  "shiftBalance dq da dt b = b\<lparr>ba_quantity := ba_quantity b + dq, ba_available := ba_available b + da, ba_in_transit := ba_in_transit b + dt\<rparr>"

lemma shiftBalance_simps [simp]:
  "shiftBalance 0 0 0 b = b" "shiftBalance dq da dt (shiftBalance eq ea et b) = shiftBalance (eq + dq) (ea + da) (et + dt) b"
  "balance_key (shiftBalance dq da dt b) = balance_key b" "ba_quantity (shiftBalance dq da dt b) = ba_quantity b + dq"
  "ba_tenant (shiftBalance dq da dt b) = ba_tenant b" "ba_product (shiftBalance dq da dt b) = ba_product b" "ba_location (shiftBalance dq da dt b) = ba_location b"
  "ba_available (shiftBalance dq da dt b) = ba_available b + da" "ba_in_transit (shiftBalance dq da dt b) = ba_in_transit b + dt"
  by (simp_all add: shiftBalance_def add.assoc)

text \<open>The cache agrees with the table.\<close>

definition cache_ok :: "id \<Rightarrow> balance_cache \<Rightarrow> inv_db \<Rightarrow> bool" where
  "cache_ok t bal db \<longleftrightarrow> (\<forall>k r. bal k = Some r \<longrightarrow> selectBalance (t, k) db = Some r)"

lemma cacheD: "cache_ok t bal db \<Longrightarrow> bal k = Some r \<Longrightarrow> selectBalance (t, k) db = Some r"
  unfolding cache_ok_def by blast

lemma cached_Inr [simp]: "cached bal k db = Inr (b, db') \<longleftrightarrow> bal k = Some b \<and> db' = db"
  by (auto simp: cached_def)

lemma writeBalance_effect:
  assumes run: "writeBalance k b db = Inr (x, db')" and sel: "selectBalance k db = Some r" and key: "balance_key b = k"
  shows "selectBalance k' db' = (if k' = k then Some b else selectBalance k' db)"
    "stock_gap g db \<Longrightarrow> stock_gap (g(k := g k + ba_quantity b - ba_quantity r)) db'"
    "db' = db\<lparr>balances := balances db'\<rparr>" "balance_check b"
proof -
  let ?u = "\<lambda>r. r\<lparr>ba_quantity := ba_quantity b, ba_available := ba_available b,
     ba_reserved := ba_reserved b, ba_damaged := ba_damaged b, ba_in_transit := ba_in_transit b\<rparr>"
  have u: "updateBalance k ?u db = Inr (x, db')" using run by (simp add: writeBalance_def)
  have keys: "balance_key (?u r') = balance_key r'" for r' by simp
  have same: "?u r' = b" if "balance_key r' = k" for r' using that key by (auto intro: balance_row.equality)
  note row = selectBalance_row [OF sel]
  show "selectBalance k' db' = (if k' = k then Some b else selectBalance k' db)"
    unfolding updateBalance_select [OF u keys] using sel row same selectBalance_row [of k' db]
    by (cases "selectBalance k' db") (auto split: if_splits)
  show "stock_gap (g(k := g k + ba_quantity b - ba_quantity r)) db'" if "stock_gap g db"
    using updateBalance_gap [OF u that sel keys] by simp
  show "db' = db\<lparr>balances := balances db'\<rparr>" using u by (simp add: updateBalance_Inr)
  show "balance_check b" using u row same by (auto simp: updateBalance_Inr)
qed

text \<open>The part of the database that posting does not touch: the balances, and the documents.\<close>

definition documents where
  "documents db = ((transfers db, transfer_lines db), (transfer_receipts db, transfer_receipt_lines db), catalogue db, (warehouses db, branches db), env_uuid db)"

definition standing where
  "standing db = (balances db, documents db)"

lemma standing_views [simp]:
  "posting_view standing" "standing (db\<lparr>movements := ms\<rparr>) = standing db" "documents (db\<lparr>balances := bs\<rparr>) = documents db"
  "documents (db\<lparr>ticks := n\<rparr>) = documents db"
  by (simp_all add: view_defs standing_def documents_def catalogue_def)

text \<open>Posting a movement under a fresh id.\<close>

lemma post_new:
  assumes run: "bindM newRow (\<lambda>(i, now). postMovement (m i now) lo so) db = Inr (x, db')" and id: "\<And>i now. mv_id (m i now) = i"
  obtains i now where "\<And>g. stock_gap g db \<Longrightarrow> stock_gap (g(movement_key (m i now) := g (movement_key (m i now)) - mv_quantity (m i now))) db'"
    "map movementCore (movements db') = map movementCore (movements db) @ [movementCore (m i now)]"
    "standing db' = standing db"
proof -
  let ?m = "m (env_uuid db (ticks db)) (env_clock db (ticks db))" and ?db = "db\<lparr>ticks := Suc (ticks db)\<rparr>"
  have P: "postMovement ?m lo so ?db = Inr (x, db')" using run by (simp add: bindM_Inr)
  have gap: "stock_gap (g(movement_key ?m := g (movement_key ?m) - mv_quantity ?m)) db'" if g: "stock_gap g db" for g
  proof (rule postMovement_gap [OF P newRow_gap [OF g]])
    show "mv_id ?m \<notin> mv_id ` set (movements ?db)"
      using fresh_not_issued [of db] stock_gapD(1,2) [OF g] id by auto
    show "mv_id ?m \<in> issued ?db" by (simp add: id issued_def)
  qed
  have view: "standing db' = standing db"
    using postMovement_view [OF P standing_views(1)] posting_viewD(1) [OF standing_views(1)] by simp
  show ?thesis by (rule that [OF gap _ view]) (use postMovement_movements [OF P] in simp_all)
qed

section \<open>dispatch\<close>

lemma transferMovement_simps [simp]:
  "mv_id (transferMovement digest cmd h l kind loc q r i now) = i" "mv_tenant (transferMovement digest cmd h l kind loc q r i now) = cm_tenant cmd"
  "mv_product (transferMovement digest cmd h l kind loc q r i now) = tr_product l" "mv_location (transferMovement digest cmd h l kind loc q r i now) = loc"
  "mv_quantity (transferMovement digest cmd h l kind loc q r i now) = q"
  by (simp_all add: transferMovement_def movementRow_def)

text \<open>What the lines take from and add to the balance \<open>k\<close>.\<close>

definition outgoing :: "id \<Rightarrow> id \<times> id \<times> id \<Rightarrow> transfer_line_row list \<Rightarrow> int" where
  "outgoing t k ls = sum_where (\<lambda>l. (t, tr_product l, tr_source l) = k) tr_quantity ls"

definition incoming :: "id \<Rightarrow> id \<times> id \<times> id \<Rightarrow> transfer_line_row list \<Rightarrow> int" where
  "incoming t k ls = sum_where (\<lambda>l. (t, tr_product l, tr_destination l) = k) tr_quantity ls"

lemma flow_Nil [simp]: "outgoing t k [] = 0" "incoming t k [] = 0"
  by (simp_all add: outgoing_def incoming_def)

lemma flow_Cons: "outgoing t k (l # ls) = outgoing t k [l] + outgoing t k ls" "incoming t k (l # ls) = incoming t k [l] + incoming t k ls"
  by (simp_all add: outgoing_def incoming_def)

lemma flow_one:
  "outgoing t k [l] = (if (t, tr_product l, tr_source l) = k then tr_quantity l else 0)"
  "incoming t k [l] = (if (t, tr_product l, tr_destination l) = k then tr_quantity l else 0)"
  by (simp_all add: outgoing_def incoming_def)

lemma dispatchLine_Inr:
  assumes "dispatchLine digest cmd h l bal db = Inr (bal', db')" and "tr_source l \<noteq> tr_destination l"
  obtains s d db1 db2 db3 where "bal (tr_product l, tr_source l) = Some s" "bal (tr_product l, tr_destination l) = Some d" "tr_quantity l \<le> ba_available s"
    "writeBalance (cm_tenant cmd, tr_product l, tr_source l) (shiftBalance (- tr_quantity l) (- tr_quantity l) 0 s) db = Inr ((), db1)"
    "writeBalance (cm_tenant cmd, tr_product l, tr_destination l) (shiftBalance (tr_quantity l) 0 (tr_quantity l) d) db1 = Inr ((), db2)"
    "postTransfer digest cmd h l TRANSFER_OUT (tr_source l) (- tr_quantity l) (ba_quantity s - tr_quantity l) db2 = Inr ((), db3)"
    "postTransfer digest cmd h l TRANSFER_IN (tr_destination l) (tr_quantity l) (ba_quantity d + tr_quantity l) db3 = Inr ((), db')"
    "bal' = bal((tr_product l, tr_source l) \<mapsto> shiftBalance (- tr_quantity l) (- tr_quantity l) 0 s,
                (tr_product l, tr_destination l) \<mapsto> shiftBalance (tr_quantity l) 0 (tr_quantity l) d)"
proof -
  have eq: "s\<lparr>ba_available := ba_available s - q, ba_quantity := ba_quantity s - q\<rparr> = shiftBalance (- q) (- q) 0 s"
    "d\<lparr>ba_in_transit := ba_in_transit d + q, ba_quantity := ba_quantity d + q\<rparr> = shiftBalance q 0 q d" for s d :: balance_row and q
    by (simp_all add: shiftBalance_def)
  show ?thesis
    using assms unfolding dispatchLine_def Let_def eq
    by (auto simp: runM not_less intro: that)
qed

lemma posted_moved:
  assumes "map movementCore (movements db') = map movementCore (movements db) @ [movementCore m]"
  shows "movedOf tp db' = movedOf tp db + (if (mv_tenant m, mv_product m) = tp then mv_quantity m else 0)"
  unfolding movedOf_core assms by simp

lemma movedOf_balances [simp]: "movedOf tp (db\<lparr>balances := bs\<rparr>) = movedOf tp db"
  by (simp add: movedOf_def)

lemma dispatchLine_effect:
  assumes run: "dispatchLine digest cmd h l bal db = Inr (bal', db')" and ne: "tr_source l \<noteq> tr_destination l"
    and cache: "cache_ok (cm_tenant cmd) bal db"
  shows "stock_inv db \<Longrightarrow> stock_inv db'" "cache_ok (cm_tenant cmd) bal' db'" 
    "selectBalance k db' = map_option (shiftBalance (incoming (cm_tenant cmd) k [l] - outgoing (cm_tenant cmd) k [l])
       (- outgoing (cm_tenant cmd) k [l]) (incoming (cm_tenant cmd) k [l])) (selectBalance k db)"
    "movedOf tp db' = movedOf tp db" "documents db' = documents db"
    "selectBalance k db = None \<Longrightarrow> outgoing (cm_tenant cmd) k [l] = 0 \<and> incoming (cm_tenant cmd) k [l] = 0"
proof -
  let ?t = "cm_tenant cmd" and ?q = "tr_quantity l" and ?S = "(cm_tenant cmd, tr_product l, tr_source l)" and ?D = "(cm_tenant cmd, tr_product l, tr_destination l)"
  obtain s d db1 db2 db3 where bal: "bal (tr_product l, tr_source l) = Some s" "bal (tr_product l, tr_destination l) = Some d" "?q \<le> ba_available s"
    and W: "writeBalance ?S (shiftBalance (- ?q) (- ?q) 0 s) db = Inr ((), db1)" "writeBalance ?D (shiftBalance ?q 0 ?q d) db1 = Inr ((), db2)"
    and P: "postTransfer digest cmd h l TRANSFER_OUT (tr_source l) (- ?q) (ba_quantity s - ?q) db2 = Inr ((), db3)"
      "postTransfer digest cmd h l TRANSFER_IN (tr_destination l) ?q (ba_quantity d + ?q) db3 = Inr ((), db')"
    and bal': "bal' = bal((tr_product l, tr_source l) \<mapsto> shiftBalance (- ?q) (- ?q) 0 s, (tr_product l, tr_destination l) \<mapsto> shiftBalance ?q 0 ?q d)"
    by (rule dispatchLine_Inr [OF run ne]) blast
  note sel = cacheD [OF cache bal(1)] cacheD [OF cache bal(2)]
  have keys: "balance_key s = ?S" "balance_key d = ?D" using selectBalance_row sel by blast+
  note w1 = writeBalance_effect [OF W(1) sel(1), simplified, OF keys(1) [simplified]]
  have sel2: "selectBalance ?D db1 = Some d" using w1(1) [of ?D] sel(2) ne by simp
  note w2 = writeBalance_effect [OF W(2) sel2, simplified, OF keys(2) [simplified]]
  obtain i1 now1 where p1: "\<And>g. stock_gap g db2 \<Longrightarrow> stock_gap (g(?S := g ?S + ?q)) db3"
    "map movementCore (movements db3) = map movementCore (movements db2) @ [movementCore (transferMovement digest cmd h l TRANSFER_OUT (tr_source l) (- ?q) (ba_quantity s - ?q) i1 now1)]"
    "standing db3 = standing db2"
    by (rule post_new [OF P(1) [unfolded postTransfer_def] transferMovement_simps(1)]) (rule that, simp, assumption, assumption)
  obtain i2 now2 where p2: "\<And>g. stock_gap g db3 \<Longrightarrow> stock_gap (g(?D := g ?D - ?q)) db'"
    "map movementCore (movements db') = map movementCore (movements db3) @ [movementCore (transferMovement digest cmd h l TRANSFER_IN (tr_destination l) ?q (ba_quantity d + ?q) i2 now2)]"
    "standing db' = standing db3"
    by (rule post_new [OF P(2) [unfolded postTransfer_def] transferMovement_simps(1)]) (rule that, simp, assumption, assumption)
  have same: "balances db' = balances db2" using p1(3) p2(3) by (simp add: standing_def)
  have after: "selectBalance k db' = (if k = ?D then Some (shiftBalance ?q 0 ?q d) else if k = ?S then Some (shiftBalance (- ?q) (- ?q) 0 s) else selectBalance k db)" for k
  proof -
    have "selectBalance k db' = selectBalance k db2" by (simp add: selectBalance_def same)
    then show ?thesis using w1(1) [of k] w2(1) [of k] by simp
  qed
  show "stock_inv db'" if inv: "stock_inv db"
  proof -
    have "stock_gap ((\<lambda>_. 0)(?S := - ?q)) db1" using w1(2) [OF inv [unfolded stock_inv_def]] by simp
    from w2(2) [OF this] have "stock_gap ((\<lambda>_. 0)(?S := - ?q, ?D := ?q)) db2" using ne by simp
    from p1(1) [OF this] have "stock_gap ((\<lambda>_. 0)(?S := - ?q, ?D := ?q, ?S := 0)) db3" using ne by simp
    from p2(1) [OF this] have "stock_gap ((\<lambda>_. 0)(?S := - ?q, ?D := ?q, ?S := 0, ?D := 0)) db'" using ne by simp
    moreover have "(\<lambda>_. 0)(?S := - ?q, ?D := ?q, ?S := 0, ?D := 0) = (\<lambda>_. 0)" by auto
    ultimately show ?thesis by (simp add: stock_inv_def)
  qed
  show "cache_ok ?t bal' db'"
    unfolding cache_ok_def bal' after using cacheD [OF cache] by auto
  show "selectBalance k db' = map_option (shiftBalance (incoming ?t k [l] - outgoing ?t k [l]) (- outgoing ?t k [l]) (incoming ?t k [l])) (selectBalance k db)"
    unfolding after flow_one using sel ne by (cases "selectBalance k db") auto
  show "selectBalance k db = None \<Longrightarrow> outgoing ?t k [l] = 0 \<and> incoming ?t k [l] = 0"
    using sel by (auto simp: flow_one)
  have "movedOf tp db2 = movedOf tp db" using w1(3) w2(3) by (metis movedOf_balances)
  then show "movedOf tp db' = movedOf tp db"
    unfolding posted_moved [OF p2(2)] posted_moved [OF p1(2)] by simp
  have "documents db2 = documents db" using w1(3) w2(3) standing_views(3) by metis
  then show "documents db' = documents db"
    using p1(3) p2(3) by (simp add: standing_def)
qed

lemma balanceAt_shift:
  assumes "selectBalance k db' = map_option (shiftBalance dq da dt) (selectBalance k db)" "selectBalance k db = None \<Longrightarrow> dq = 0 \<and> da = 0 \<and> dt = 0"
  shows "balanceAt k db' = shiftBalance dq da dt (balanceAt k db)"
  using assms by (cases "selectBalance k db") (simp_all add: balanceAt_def)

lemma dispatchLines_effect:
  assumes "dispatchLines digest cmd h ls bal db = Inr (x, db')" "\<forall>l\<in>set ls. tr_source l \<noteq> tr_destination l" "cache_ok (cm_tenant cmd) bal db"
  shows "(stock_inv db \<longrightarrow> stock_inv db') \<and> documents db' = documents db \<and> movedOf tp db' = movedOf tp db \<and>
    balanceAt k db' = shiftBalance (incoming (cm_tenant cmd) k ls - outgoing (cm_tenant cmd) k ls) (- outgoing (cm_tenant cmd) k ls)
       (incoming (cm_tenant cmd) k ls) (balanceAt k db)"
  using assms
proof (induction ls arbitrary: bal db)
  case (Cons l ls)
  obtain bal1 db1 where L: "dispatchLine digest cmd h l bal db = Inr (bal1, db1)" and rest: "dispatchLines digest cmd h ls bal1 db1 = Inr (x, db')"
    using Cons.prems(1) by (auto simp: bindM_Inr)
  have ne: "tr_source l \<noteq> tr_destination l" using Cons.prems(2) by simp
  note E = dispatchLine_effect [OF L ne Cons.prems(3)]
  have at: "balanceAt k db1 = shiftBalance (incoming (cm_tenant cmd) k [l] - outgoing (cm_tenant cmd) k [l]) (- outgoing (cm_tenant cmd) k [l])
     (incoming (cm_tenant cmd) k [l]) (balanceAt k db)"
    by (rule balanceAt_shift [OF E(3)]) (use E(6) in simp)
  have "(stock_inv db1 \<longrightarrow> stock_inv db') \<and> documents db' = documents db1 \<and> movedOf tp db' = movedOf tp db1 \<and>
    balanceAt k db' = shiftBalance (incoming (cm_tenant cmd) k ls - outgoing (cm_tenant cmd) k ls) (- outgoing (cm_tenant cmd) k ls)
       (incoming (cm_tenant cmd) k ls) (balanceAt k db1)"
    by (rule Cons.IH [OF rest _ E(2)]) (use Cons.prems(2) in simp)
  then show ?case
    using E(1,4,5) unfolding at flow_Cons [of "cm_tenant cmd" k l ls] by (simp add: algebra_simps)
qed simp

lemma lockLine_Inr:
  "lockLine t k db = Inr (r, db') \<longleftrightarrow>
     ensureBalance (t, k) db = Inr ((), db') \<and> (\<exists>b. selectBalance (t, k) db' = Some b \<and> r = (k, b))"
  by (cases k) (auto simp: lockLine_def runM)

lemma lockLines:
  assumes "mapM (lockLine t) ks db = Inr (rows, db')"
  shows "map fst rows = ks" "cache_ok t (map_of rows) db'" "balanceAt k db' = balanceAt k db" "stock_inv db \<Longrightarrow> stock_inv db'"
    "documents db' = documents db" "movedOf tp db' = movedOf tp db" "selectBalance k db = Some r \<Longrightarrow> selectBalance k db' = Some r"
proof -
  have "map fst rows = ks \<and> cache_ok t (map_of rows) db' \<and> balanceAt k db' = balanceAt k db \<and> (stock_inv db \<longrightarrow> stock_inv db') \<and>
    documents db' = documents db \<and> movedOf tp db' = movedOf tp db \<and> (\<forall>k r. selectBalance k db = Some r \<longrightarrow> selectBalance k db' = Some r)"
    using assms
  proof (induction ks arbitrary: db rows)
    case Nil
    then show ?case by (simp add: cache_ok_def)
  next
    case (Cons a ks)
    obtain b rows' db1 where E: "ensureBalance (t, a) db = Inr ((), db1)" "selectBalance (t, a) db1 = Some b"
      and rest: "mapM (lockLine t) ks db1 = Inr (rows', db')" and rows: "rows = (a, b) # rows'"
      using Cons.prems by (auto simp: bindM_Inr lockLine_Inr)
    note IH = Cons.IH [OF rest]
    have same: "balanceAt k db1 = balanceAt k db" "selectBalance k db = Some r \<longrightarrow> selectBalance k db1 = Some r" for k r
      using ensureBalance_same(6) [OF E(1)] ensureBalance_same(7) [OF E(1), of k] by (cases "k = (t, a)"; simp add: balanceAt_def split: option.splits)+
    have "documents db1 = documents db" "movedOf tp db1 = movedOf tp db" using E(1) by (auto simp: ensureBalance_Inr documents_def catalogue_def movedOf_def)
    then show ?case
      using IH E(2) same ensureBalance_inv [OF E(1)] rows by (auto simp: cache_ok_def)
  qed
  then show "map fst rows = ks" "cache_ok t (map_of rows) db'" "balanceAt k db' = balanceAt k db" "stock_inv db \<Longrightarrow> stock_inv db'"
    "documents db' = documents db" "movedOf tp db' = movedOf tp db" "selectBalance k db = Some r \<Longrightarrow> selectBalance k db' = Some r" by blast+
qed

text \<open>A line whose locations are in the two different warehouses has two different locations.\<close>

lemma lineView_Some:
  assumes "lineView db l = Some v"
  shows "tv_line v = l" "tr_source l = tr_destination l \<Longrightarrow> tv_source_warehouse v = tv_destination_warehouse v"
  using assms by (auto simp: lineView_def split: option.splits)

lemma findLineRows_mem:
  assumes "v \<in> set (findLineRows t i db)"
  shows "lineView db (tv_line v) = Some v" "tv_line v \<in> set (transfer_lines db)" "tr_tenant (tv_line v) = t" "tr_transfer (tv_line v) = i"
proof -
  obtain l where l: "l \<in> set (transfer_lines db)" "tr_tenant l = t" "tr_transfer l = i" "lineView db l = Some v"
    using assms by (auto simp: findLineRows_def List.map_filter_def)
  with lineView_Some(1) [OF l(4)] show "lineView db (tv_line v) = Some v" "tv_line v \<in> set (transfer_lines db)"
    "tr_tenant (tv_line v) = t" "tr_transfer (tv_line v) = i" by simp_all
qed

text \<open>The lines of a transfer, in order.\<close>

definition linesOf :: "id \<Rightarrow> id \<Rightarrow> inv_db \<Rightarrow> transfer_line_row list" where
  "linesOf t i db = map tv_line (findLineRows t i db)"

lemma documentOf_Inr [simp]: "documentOf e t i db = Inr (d, db') \<longleftrightarrow> findDocument t i db = Some d \<and> db' = db"
  by (auto simp: documentOf_def bindM_Inr)

lemma forM_ensure_Inr: "forM (\<lambda>x. ensureM e (p x)) xs db = Inr (u, db') \<longleftrightarrow> (\<forall>x\<in>set xs. p x) \<and> db' = db"
  by (induction xs) (auto simp: thenM_Inr)

lemma markDispatched_Inr:
  assumes "markDispatched cmd i db = Inr (x, db')"
  shows "db' = db\<lparr>transfers := update_where (\<lambda>r. tf_id r = i \<and> tf_tenant r = cm_tenant cmd)
      (\<lambda>r. r\<lparr>tf_status := TransferDispatched, tf_dispatch_key := Some (cm_key cmd)\<rparr>) (transfers db)\<rparr>"
  using assms by (auto simp: markDispatched_def runM)

lemma frame_transfers [simp]:
  "stock_inv (db\<lparr>transfers := x\<rparr>) = stock_inv db" "movedOf tp (db\<lparr>transfers := x\<rparr>) = movedOf tp db" "balanceAt k (db\<lparr>transfers := x\<rparr>) = balanceAt k db"
  "stock_inv (db\<lparr>transfer_lines := y\<rparr>) = stock_inv db" "movedOf tp (db\<lparr>transfer_lines := y\<rparr>) = movedOf tp db" "balanceAt k (db\<lparr>transfer_lines := y\<rparr>) = balanceAt k db"
  "stock_inv (db\<lparr>transfer_receipts := z\<rparr>) = stock_inv db" "movedOf tp (db\<lparr>transfer_receipts := z\<rparr>) = movedOf tp db" "balanceAt k (db\<lparr>transfer_receipts := z\<rparr>) = balanceAt k db"
  "stock_inv (db\<lparr>transfer_receipt_lines := w\<rparr>) = stock_inv db" "movedOf tp (db\<lparr>transfer_receipt_lines := w\<rparr>) = movedOf tp db" "balanceAt k (db\<lparr>transfer_receipt_lines := w\<rparr>) = balanceAt k db"
  "movedOf tp (db\<lparr>ticks := n\<rparr>) = movedOf tp db" "balanceAt k (db\<lparr>ticks := n\<rparr>) = balanceAt k db"
  by (simp_all add: stock_inv_def stock_gap_def issued_def balanceOf_def movedAt_def movedOf_def valuationQuantity_def balanceAt_def selectBalance_def)

lemma dispatchDraft_Inr:
  assumes "dispatchDraft digest cmd h db = Inr (res, db')"
  obtains rows db0 db1 d where "tf_origin h \<noteq> tf_destination h" "linesOf (cm_tenant cmd) (tf_id h) db \<noteq> []"
    "\<forall>l\<in>set (linesOf (cm_tenant cmd) (tf_id h) db). tr_source l \<noteq> tr_destination l"
    "mapM (lockLine (cm_tenant cmd)) (dispatchKeys (findLineRows (cm_tenant cmd) (tf_id h) db)) db = Inr (rows, db0)"
    "dispatchLines digest cmd h (linesOf (cm_tenant cmd) (tf_id h) db) (map_of rows) db0 = Inr ((), db1)"
    "markDispatched cmd (tf_id h) db1 = Inr ((), db')" "findDocument (cm_tenant cmd) (tf_id h) db' = Some d" "res = (d, False)"
proof -
  have "tr_source (tv_line v) \<noteq> tr_destination (tv_line v)"
    if "v \<in> set (findLineRows (cm_tenant cmd) (tf_id h) db)" "tv_source_warehouse v = tf_origin h" "tv_destination_warehouse v = tf_destination h" "tf_origin h \<noteq> tf_destination h" for v
    using lineView_Some(2) [OF findLineRows_mem(1) [OF that(1)]] that(2-4) by auto
  moreover from assms obtain rows db0 db1 d where R: "tf_origin h \<noteq> tf_destination h" "findLineRows (cm_tenant cmd) (tf_id h) db \<noteq> []"
    "\<forall>v\<in>set (findLineRows (cm_tenant cmd) (tf_id h) db). tv_source_warehouse v = tf_origin h \<and> tv_destination_warehouse v = tf_destination h"
    "mapM (lockLine (cm_tenant cmd)) (dispatchKeys (findLineRows (cm_tenant cmd) (tf_id h) db)) db = Inr (rows, db0)"
    "dispatchLines digest cmd h (map tv_line (findLineRows (cm_tenant cmd) (tf_id h) db)) (map_of rows) db0 = Inr ((), db1)"
    "markDispatched cmd (tf_id h) db1 = Inr ((), db')" "findDocument (cm_tenant cmd) (tf_id h) db' = Some d" "res = (d, False)"
    unfolding dispatchDraft_def Let_def dispatchTarget_def by (auto simp: runM forM_ensure_Inr assertWarehouses_def)
  ultimately have ne: "\<forall>l\<in>set (linesOf (cm_tenant cmd) (tf_id h) db). tr_source l \<noteq> tr_destination l" by (auto simp: linesOf_def)
  show ?thesis
    by (rule that [OF R(1) _ ne R(4) _ R(6-8)]) (use R in \<open>simp_all add: linesOf_def\<close>)
qed

lemma dispatchTransfer_Inr:
  assumes "dispatchTransfer digest cmd i db = Inr (res, db')"
  obtains (replayed) h d where "h \<in> set (transfers db)" "tf_id h = i" "tf_tenant h = cm_tenant cmd" "tf_origin h = cm_warehouse cmd" "tf_status h = TransferDispatched"
      "tf_dispatch_key h = Some (cm_key cmd)" "res = (d, True)" "findDocument (cm_tenant cmd) i db = Some d" "db' = db"
  | (dispatched) h where "h \<in> set (transfers db)" "tf_id h = i" "tf_tenant h = cm_tenant cmd" "tf_origin h = cm_warehouse cmd" "tf_status h = TransferDraft"
      "dispatchDraft digest cmd h db = Inr (res, db')"
proof -
  have "dispatchTransaction digest cmd i db = Inr (res, db')"
    using assms by (auto simp: dispatchTransfer_def catchM_def split: sum.splits if_splits)
  then obtain h where h: "List.find (\<lambda>h. tf_id h = i \<and> tf_tenant h = cm_tenant cmd \<and> tf_origin h = cm_warehouse cmd) (transfers db) = Some h"
    and rest: "(if tf_status h = TransferDispatched
     then thenM (ensureM InventoryTransferStatusConflictError (tf_dispatch_key h = Some (cm_key cmd)))
            (bindM (documentOf InventoryTransferNotFoundError (cm_tenant cmd) i) (\<lambda>d. returnM (d, True)))
     else thenM (ensureM InventoryTransferStatusConflictError (tf_status h = TransferDraft)) (dispatchDraft digest cmd h)) db = Inr (res, db')"
    by (auto simp: dispatchTransaction_def bindM_Inr)
  note f = find_Some_props [OF h]
  show ?thesis
    using rest f replayed [of h] dispatched [of h] by (auto simp: runM split: if_splits)
qed

text \<open>What a dispatch did.\<close>

lemma dispatchDraft_effect:
  assumes run: "dispatchDraft digest cmd h db = Inr (res, db')"
  shows "stock_inv db \<Longrightarrow> stock_inv db'" "movedOf tp db' = movedOf tp db"
    "balanceAt k db' = shiftBalance (incoming (cm_tenant cmd) k (linesOf (cm_tenant cmd) (tf_id h) db) - outgoing (cm_tenant cmd) k (linesOf (cm_tenant cmd) (tf_id h) db))
       (- outgoing (cm_tenant cmd) k (linesOf (cm_tenant cmd) (tf_id h) db)) (incoming (cm_tenant cmd) k (linesOf (cm_tenant cmd) (tf_id h) db)) (balanceAt k db)"
    "documents db' = documents (db\<lparr>transfers := update_where (\<lambda>r. tf_id r = tf_id h \<and> tf_tenant r = cm_tenant cmd)
      (\<lambda>r. r\<lparr>tf_status := TransferDispatched, tf_dispatch_key := Some (cm_key cmd)\<rparr>) (transfers db)\<rparr>)"
proof -
  obtain rows db0 db1 where R: "\<forall>l\<in>set (linesOf (cm_tenant cmd) (tf_id h) db). tr_source l \<noteq> tr_destination l"
    "mapM (lockLine (cm_tenant cmd)) (dispatchKeys (findLineRows (cm_tenant cmd) (tf_id h) db)) db = Inr (rows, db0)"
    "dispatchLines digest cmd h (linesOf (cm_tenant cmd) (tf_id h) db) (map_of rows) db0 = Inr ((), db1)"
    "markDispatched cmd (tf_id h) db1 = Inr ((), db')"
    by (rule dispatchDraft_Inr [OF run]) blast
  note L = lockLines [OF R(2)]
  note D = dispatchLines_effect [OF R(3,1) L(2)]
  note M = markDispatched_Inr [OF R(4)]
  show "stock_inv db \<Longrightarrow> stock_inv db'" using L(4) D M by simp
  show "movedOf tp db' = movedOf tp db" using L(6) D M by simp
  show "balanceAt k db' = shiftBalance (incoming (cm_tenant cmd) k (linesOf (cm_tenant cmd) (tf_id h) db) - outgoing (cm_tenant cmd) k (linesOf (cm_tenant cmd) (tf_id h) db))
       (- outgoing (cm_tenant cmd) k (linesOf (cm_tenant cmd) (tf_id h) db)) (incoming (cm_tenant cmd) k (linesOf (cm_tenant cmd) (tf_id h) db)) (balanceAt k db)"
    using D [of _ k] L(3) [of k] M by simp
  show "documents db' = documents (db\<lparr>transfers := update_where (\<lambda>r. tf_id r = tf_id h \<and> tf_tenant r = cm_tenant cmd)
      (\<lambda>r. r\<lparr>tf_status := TransferDispatched, tf_dispatch_key := Some (cm_key cmd)\<rparr>) (transfers db)\<rparr>)"
    using D L(5) unfolding M by (simp add: documents_def catalogue_def)
qed

section \<open>receive\<close>

lemma receiptMovement_simps [simp]:
  "mv_id (receiptMovement digest cmd h l rc rl kind q r reason i now) = i" "mv_tenant (receiptMovement digest cmd h l rc rl kind q r reason i now) = cm_tenant cmd"
  "mv_product (receiptMovement digest cmd h l rc rl kind q r reason i now) = tr_product l" "mv_location (receiptMovement digest cmd h l rc rl kind q r reason i now) = tr_destination l"
  "mv_quantity (receiptMovement digest cmd h l rc rl kind q r reason i now) = (if kind = TRANSFER_RECEIPT then 0 else - q)"
  by (simp_all add: receiptMovement_def movementRow_def Let_def)

lemma postReceipt_effect:
  assumes run: "whenM c (postReceipt digest cmd h l rc rl kind q r reason ns) db = Inr (x, db')"
    and d: "d = (if c \<and> kind \<noteq> TRANSFER_RECEIPT then q else 0)"
  shows "stock_gap g db \<Longrightarrow> stock_gap (g((cm_tenant cmd, tr_product l, tr_destination l) := g (cm_tenant cmd, tr_product l, tr_destination l) + d)) db'"
    "standing db' = standing db" "movedOf tp db' = movedOf tp db - (if (cm_tenant cmd, tr_product l) = tp then d else 0)"
proof -
  have "(stock_gap g db \<longrightarrow> stock_gap (g((cm_tenant cmd, tr_product l, tr_destination l) := g (cm_tenant cmd, tr_product l, tr_destination l) + d)) db') \<and>
    standing db' = standing db \<and> movedOf tp db' = movedOf tp db - (if (cm_tenant cmd, tr_product l) = tp then d else 0)"
  proof (cases c)
    case True
    then have run': "postReceipt digest cmd h l rc rl kind q r reason ns db = Inr (x, db')" using run by (simp add: whenM_def)
    obtain i now where P: "\<And>g. stock_gap g db \<Longrightarrow> stock_gap (g((cm_tenant cmd, tr_product l, tr_destination l) :=
        g (cm_tenant cmd, tr_product l, tr_destination l) - (if kind = TRANSFER_RECEIPT then 0 else - q))) db'"
      "map movementCore (movements db') = map movementCore (movements db) @ [movementCore (receiptMovement digest cmd h l rc rl kind q r reason i now)]"
      "standing db' = standing db"
      by (rule post_new [OF run' [unfolded postReceipt_def] receiptMovement_simps(1)]) (rule that, simp, assumption, assumption)
    show ?thesis using P(1) [of g] P(3) True by (auto simp: posted_moved [OF P(2)] d)
  qed (use run d in \<open>auto simp: whenM_def\<close>)
  then show "stock_gap g db \<Longrightarrow> stock_gap (g((cm_tenant cmd, tr_product l, tr_destination l) := g (cm_tenant cmd, tr_product l, tr_destination l) + d)) db'"
    "standing db' = standing db" "movedOf tp db' = movedOf tp db - (if (cm_tenant cmd, tr_product l) = tp then d else 0)" by blast+
qed

definition progressLine :: "int \<Rightarrow> int \<Rightarrow> transfer_line_row \<Rightarrow> transfer_line_row" where
  "progressLine r d l = l\<lparr>tr_received := tr_received l + r, tr_discrepancy := tr_discrepancy l + d\<rparr>"

lemma receiveLine_Inr:
  assumes "receiveLine digest cmd h reason rc (n, x) bal db = Inr (bal', db')"
  obtains b db1 db2 db3 i where "bal (tr_product (ri_line x), tr_destination (ri_line x)) = Some b" "ri_received x + ri_discrepancy x \<le> ba_in_transit b"
    "writeBalance (cm_tenant cmd, tr_product (ri_line x), tr_destination (ri_line x))
       (shiftBalance (- ri_discrepancy x) (ri_received x) (- (ri_received x + ri_discrepancy x)) b) db = Inr ((), db1)"
    "addProgress (cm_tenant cmd) (tr_id (ri_line x)) (ri_received x) (ri_discrepancy x) db1 = Inr ((), db2)"
    "0 \<le> ri_received x" "0 \<le> ri_discrepancy x" "0 < ri_received x + ri_discrepancy x"
    "whenM (0 < ri_received x) (postReceipt digest cmd h (ri_line x) rc i TRANSFER_RECEIPT (ri_received x) (ba_quantity b - ri_discrepancy x)
       (receiptReason h) (ri_received_serials x)) (db2\<lparr>ticks := Suc (ticks db2), transfer_receipt_lines := transfer_receipt_lines db2 @
         [\<lparr>te_id = i, te_tenant = cm_tenant cmd, te_receipt = rc, te_line = tr_id (ri_line x), te_number = n + 1, te_received = ri_received x, te_discrepancy = ri_discrepancy x\<rparr>]\<rparr>) = Inr ((), db3)"
    "whenM (0 < ri_discrepancy x) (postReceipt digest cmd h (ri_line x) rc i TRANSFER_DISCREPANCY (ri_discrepancy x) (ba_quantity b - ri_discrepancy x)
       (case reason of None \<Rightarrow> [] | Some r \<Rightarrow> r) (ri_discrepancy_serials x)) db3 = Inr ((), db')"
    "bal' = bal((tr_product (ri_line x), tr_destination (ri_line x)) \<mapsto> shiftBalance (- ri_discrepancy x) (ri_received x) (- (ri_received x + ri_discrepancy x)) b)"
proof -
  have eq: "b\<lparr>ba_in_transit := ba_in_transit b - (r + d), ba_available := ba_available b + r, ba_quantity := ba_quantity b - d\<rparr> = shiftBalance (- d) r (- (r + d)) b"
    for b :: balance_row and r d by (simp add: shiftBalance_def)
  show ?thesis
    using assms unfolding receiveLine_def Let_def prod.case eq
    by (simp only: bindM_Inr thenM_Inr cached_Inr ensureM_Inr not_less newRow_Inr insertReceiptLine_def)
      (auto simp: runM intro: that)
qed

lemma addProgress_Inr:
  "addProgress t i r d db = Inr (x, db') \<longleftrightarrow>
     (\<forall>l\<in>set (transfer_lines db). tr_id l = i \<and> tr_tenant l = t \<longrightarrow> line_check (progressLine r d l)) \<and>
     db' = db\<lparr>transfer_lines := update_where (\<lambda>l. tr_id l = i \<and> tr_tenant l = t) (progressLine r d) (transfer_lines db)\<rparr>"
  by (auto simp: addProgress_def runM Let_def progressLine_def [abs_def])

lemma gap_documents [simp]:
  "stock_gap g (db\<lparr>transfer_lines := y\<rparr>) = stock_gap g db" "stock_gap g (db\<lparr>transfer_receipt_lines := w\<rparr>) = stock_gap g db"
  "selectBalance k (db\<lparr>transfer_lines := y\<rparr>) = selectBalance k db" "selectBalance k (db\<lparr>transfer_receipt_lines := w\<rparr>) = selectBalance k db"
  by (simp_all add: stock_gap_def issued_def balanceOf_def movedAt_def movedOf_def valuationQuantity_def selectBalance_def)

definition headers where
  "headers db = (transfers db, transfer_receipts db, catalogue db, warehouses db, branches db, env_uuid db)"

lemma standing_parts:
  "standing db' = standing db \<Longrightarrow> balances db' = balances db \<and> transfer_lines db' = transfer_lines db \<and> headers db' = headers db"
  by (simp add: standing_def documents_def headers_def)

lemma receiveLine_effect:
  assumes run: "receiveLine digest cmd h reason rc (n, x) bal db = Inr (bal', db')" and cache: "cache_ok (cm_tenant cmd) bal db"
  defines "t \<equiv> cm_tenant cmd" and "k \<equiv> (cm_tenant cmd, tr_product (ri_line x), tr_destination (ri_line x))" and "r \<equiv> ri_received x" and "d \<equiv> ri_discrepancy x"
  shows "stock_inv db \<Longrightarrow> stock_inv db'" "cache_ok t bal' db'"
    "selectBalance k' db' = map_option (if k' = k then shiftBalance (- d) r (- (r + d)) else id) (selectBalance k' db)" "selectBalance k db \<noteq> None"
    "movedOf tp db' = movedOf tp db - (if (t, tr_product (ri_line x)) = tp then d else 0)"
    "transfer_lines db' = update_where (\<lambda>l. tr_id l = tr_id (ri_line x) \<and> tr_tenant l = t) (progressLine r d) (transfer_lines db)"
    "\<forall>l\<in>set (transfer_lines db). tr_id l = tr_id (ri_line x) \<and> tr_tenant l = t \<longrightarrow> line_check (progressLine r d l)"
    "headers db' = headers db" "0 \<le> r" "0 \<le> d"
proof -
  let ?b' = "shiftBalance (- d) r (- (r + d))"
  obtain b db1 db2 db3 i where R: "bal (tr_product (ri_line x), tr_destination (ri_line x)) = Some b"
    "writeBalance k (?b' b) db = Inr ((), db1)" "addProgress t (tr_id (ri_line x)) r d db1 = Inr ((), db2)" "0 \<le> r" "0 \<le> d"
    and P1: "whenM (0 < r) (postReceipt digest cmd h (ri_line x) rc i TRANSFER_RECEIPT r (ba_quantity b - d)
       (receiptReason h) (ri_received_serials x)) (db2\<lparr>ticks := Suc (ticks db2), transfer_receipt_lines := transfer_receipt_lines db2 @
         [\<lparr>te_id = i, te_tenant = cm_tenant cmd, te_receipt = rc, te_line = tr_id (ri_line x), te_number = n + 1, te_received = r, te_discrepancy = d\<rparr>]\<rparr>) = Inr ((), db3)"
    and P2: "whenM (0 < d) (postReceipt digest cmd h (ri_line x) rc i TRANSFER_DISCREPANCY d (ba_quantity b - d)
       (case reason of None \<Rightarrow> [] | Some r \<Rightarrow> r) (ri_discrepancy_serials x)) db3 = Inr ((), db')"
    and bal': "bal' = bal((tr_product (ri_line x), tr_destination (ri_line x)) \<mapsto> ?b' b)"
    by (rule receiveLine_Inr [OF run]) (simp add: t_def k_def r_def d_def)
  have sel: "selectBalance k db = Some b" unfolding k_def using cacheD [OF cache R(1)] .
  have key: "balance_key (?b' b) = k" using selectBalance_row [OF sel] by simp
  note w = writeBalance_effect [OF R(2) sel key]
  note p1 = postReceipt_effect [OF P1 refl] and p2 = postReceipt_effect [OF P2 refl]
  note s1 = standing_parts [OF p1(2)] and s2 = standing_parts [OF p2(2)]
  have db2: "db2 = db1\<lparr>transfer_lines := update_where (\<lambda>l. tr_id l = tr_id (ri_line x) \<and> tr_tenant l = t) (progressLine r d) (transfer_lines db1)\<rparr>"
    using R(3) by (simp add: addProgress_Inr)
  have db1: "transfer_lines db1 = transfer_lines db" "headers db1 = headers db" "movedOf tp db1 = movedOf tp db"
    by (subst w(3), simp add: headers_def catalogue_def)+
  have after: "selectBalance k' db' = (if k' = k then Some (?b' b) else selectBalance k' db)" for k'
  proof -
    have "selectBalance k' db' = selectBalance k' db1" using s1 s2 db2 by (simp add: selectBalance_def)
    then show ?thesis using w(1) by simp
  qed
  show "stock_inv db'" if inv: "stock_inv db"
  proof -
    have g1: "stock_gap ((\<lambda>_. 0)(k := - d)) db1" using w(2) [OF inv [unfolded stock_inv_def]] by simp
    have g2: "stock_gap ((\<lambda>_. 0)(k := - d)) (db2\<lparr>ticks := Suc (ticks db2), transfer_receipt_lines := w\<rparr>)" for w
      using newRow_gap [of _ db2] g1 unfolding db2 by simp
    have "stock_gap ((\<lambda>_. 0)(k := - d)) db3" using p1(1) [OF g2] by (simp add: k_def fun_upd_idem)
    moreover have "(if 0 < d then d else 0) = d" using R(5) by simp
    ultimately have "stock_gap ((\<lambda>_. 0)(k := 0)) db'" using p2(1) [of "(\<lambda>_. 0)(k := - d)"] by (simp add: k_def)
    moreover have "(\<lambda>_. 0)(k := 0) = (\<lambda>_. 0 :: int)" by auto
    ultimately show ?thesis by (simp add: stock_inv_def)
  qed
  show "cache_ok t bal' db'" unfolding cache_ok_def bal' after k_def t_def using cacheD [OF cache] by auto
  show "selectBalance k' db' = map_option (if k' = k then ?b' else id) (selectBalance k' db)" unfolding after using sel by (simp add: option.map_id)
  show "selectBalance k db \<noteq> None" by (simp add: sel)
  show "movedOf tp db' = movedOf tp db - (if (t, tr_product (ri_line x)) = tp then d else 0)"
    using p1(3) [of tp] p2(3) [of tp] R(5) by (simp add: db2 db1 t_def)
  show "transfer_lines db' = update_where (\<lambda>l. tr_id l = tr_id (ri_line x) \<and> tr_tenant l = t) (progressLine r d) (transfer_lines db)"
    using s1 s2 by (simp add: db2 db1)
  show "\<forall>l\<in>set (transfer_lines db). tr_id l = tr_id (ri_line x) \<and> tr_tenant l = t \<longrightarrow> line_check (progressLine r d l)"
    using R(3) by (simp add: addProgress_Inr db1)
  show "headers db' = headers db" using s1 s2 db1 by (simp add: db2 headers_def catalogue_def)
  show "0 \<le> r" "0 \<le> d" by (rule R(4), rule R(5))
qed

text \<open>What the items add to and take from the balance \<open>k\<close>, and the lines after them.\<close>

definition goodAt :: "id \<Rightarrow> id \<times> id \<times> id \<Rightarrow> receipt_item list \<Rightarrow> int" where
  "goodAt t k xs = sum_where (\<lambda>x. (t, tr_product (ri_line x), tr_destination (ri_line x)) = k) ri_received xs"

definition shortAt :: "id \<Rightarrow> id \<times> id \<times> id \<Rightarrow> receipt_item list \<Rightarrow> int" where
  "shortAt t k xs = sum_where (\<lambda>x. (t, tr_product (ri_line x), tr_destination (ri_line x)) = k) ri_discrepancy xs"

definition progressed :: "id \<Rightarrow> receipt_item list \<Rightarrow> transfer_line_row \<Rightarrow> transfer_line_row" where
  "progressed t xs l = (if tr_tenant l = t
     then progressLine (sum_where (\<lambda>x. tr_id (ri_line x) = tr_id l) ri_received xs) (sum_where (\<lambda>x. tr_id (ri_line x) = tr_id l) ri_discrepancy xs) l
     else l)"

lemma progressLine_simps [simp]:
  "progressLine 0 0 l = l" "progressLine r d (progressLine r' d' l) = progressLine (r' + r) (d' + d) l"
  "tr_id (progressLine r d l) = tr_id l" "tr_tenant (progressLine r d l) = tr_tenant l" "tr_transfer (progressLine r d l) = tr_transfer l"
  "tr_quantity (progressLine r d l) = tr_quantity l" "tr_received (progressLine r d l) = tr_received l + r" "tr_discrepancy (progressLine r d l) = tr_discrepancy l + d"
  by (simp_all add: progressLine_def add.assoc)

lemma progressed_Cons:
  "map (progressed t (x # xs)) ls = map (progressed t xs) (update_where (\<lambda>l. tr_id l = tr_id (ri_line x) \<and> tr_tenant l = t) (progressLine (ri_received x) (ri_discrepancy x)) ls)"
  by (induction ls) (auto simp: progressed_def)

lemma progressed_Nil [simp]: "progressed t [] = (\<lambda>l. l)"
  by (simp add: progressed_def fun_eq_iff)

lemma progressed_same [simp]: "tr_id (progressed t xs l) = tr_id l" "tr_tenant (progressed t xs l) = tr_tenant l"
  "tr_transfer (progressed t xs l) = tr_transfer l" "tr_quantity (progressed t xs l) = tr_quantity l"
  by (simp_all add: progressed_def)

lemma receiveLines_effect:
  assumes "receiveLines digest cmd h reason rc (List.enumerate n xs) bal db = Inr (u, db')" "cache_ok (cm_tenant cmd) bal db"
  shows "(stock_inv db \<longrightarrow> stock_inv db') \<and> headers db' = headers db \<and>
    balanceAt k db' = shiftBalance (- shortAt (cm_tenant cmd) k xs) (goodAt (cm_tenant cmd) k xs)
       (- (goodAt (cm_tenant cmd) k xs + shortAt (cm_tenant cmd) k xs)) (balanceAt k db) \<and>
    movedOf tp db' = movedOf tp db - sum_where (\<lambda>x. (cm_tenant cmd, tr_product (ri_line x)) = tp) ri_discrepancy xs \<and>
    transfer_lines db' = map (progressed (cm_tenant cmd) xs) (transfer_lines db) \<and>
    ((\<forall>l\<in>set (transfer_lines db). line_check l) \<longrightarrow> (\<forall>l\<in>set (transfer_lines db'). line_check l))"
  using assms
proof (induction xs arbitrary: n bal db)
  case Nil
  then show ?case by (simp add: goodAt_def shortAt_def)
next
  case (Cons x xs)
  let ?t = "cm_tenant cmd"
  obtain bal1 db1 where L: "receiveLine digest cmd h reason rc (n, x) bal db = Inr (bal1, db1)"
    and rest: "receiveLines digest cmd h reason rc (List.enumerate (Suc n) xs) bal1 db1 = Inr (u, db')"
    using Cons.prems(1) by (auto simp: bindM_Inr)
  note E = receiveLine_effect [OF L Cons.prems(2)]
  note IH = Cons.IH [OF rest E(2)]
  have at: "balanceAt k db1 = (if k = (?t, tr_product (ri_line x), tr_destination (ri_line x))
     then shiftBalance (- ri_discrepancy x) (ri_received x) (- (ri_received x + ri_discrepancy x)) (balanceAt k db) else balanceAt k db)"
    using E(3) [of k] E(4) by (cases "selectBalance k db") (auto simp: balanceAt_def)
  have bal: "balanceAt k db' = shiftBalance (- shortAt ?t k (x # xs)) (goodAt ?t k (x # xs)) (- (goodAt ?t k (x # xs) + shortAt ?t k (x # xs))) (balanceAt k db)"
    using IH unfolding at by (auto simp: goodAt_def shortAt_def algebra_simps)
  have moved: "movedOf tp db' = movedOf tp db - sum_where (\<lambda>x. (?t, tr_product (ri_line x)) = tp) ri_discrepancy (x # xs)"
    using IH E(5) [of tp] by simp
  have lines: "transfer_lines db' = map (progressed ?t (x # xs)) (transfer_lines db)"
    using IH unfolding progressed_Cons E(6) by simp
  have "(\<forall>l\<in>set (transfer_lines db). line_check l) \<longrightarrow> (\<forall>l\<in>set (transfer_lines db1). line_check l)"
    using E(7) unfolding E(6) by (auto simp: set_update_where)
  then have checks: "(\<forall>l\<in>set (transfer_lines db). line_check l) \<longrightarrow> (\<forall>l\<in>set (transfer_lines db'). line_check l)" using IH by blast
  have "stock_inv db \<longrightarrow> stock_inv db'" "headers db' = headers db" using IH E(1,8) by (blast, simp)
  then show ?case by (intro conjI bal moved lines checks)
qed

lemma lockReceiptLine_Inr:
  "lockReceiptLine t k db = Inr (r, db') \<longleftrightarrow> db' = db \<and> (\<exists>b. selectBalance (t, k) db = Some b \<and> r = (k, b))"
  by (cases k) (auto simp: lockReceiptLine_def bindM_Inr)

lemma lockReceiptLines:
  "mapM (lockReceiptLine t) ks db = Inr (rows, db') \<Longrightarrow> db' = db \<and> cache_ok t (map_of rows) db"
proof (induction ks arbitrary: rows)
  case Nil
  then show ?case by (simp add: cache_ok_def)
next
  case (Cons k ks)
  obtain b rows' where b: "selectBalance (t, k) db = Some b" "rows = (k, b) # rows'" "mapM (lockReceiptLine t) ks db = Inr (rows', db')"
    using Cons.prems by (auto simp: lockReceiptLine_Inr bindM_Inr)
  then show ?case using Cons.IH [OF b(3)] by (auto simp: cache_ok_def)
qed

lemma markProgress_Inr:
  "markProgress t i db = Inr (x, db') \<longleftrightarrow>
     db' = db\<lparr>transfers := update_where (\<lambda>r. tf_id r = i \<and> tf_tenant r = t)
       (\<lambda>r. r\<lparr>tf_status := (if isComplete t i db then TransferReceived else TransferPartiallyReceived)\<rparr>) (transfers db)\<rparr>"
  by (auto simp: markProgress_def bindM_Inr)

lemma isComplete_lines:
  "isComplete t i db \<longleftrightarrow> (\<forall>l\<in>set (transfer_lines db). tr_tenant l = t \<and> tr_transfer l = i \<longrightarrow> tr_quantity l \<le> tr_received l + tr_discrepancy l)"
  by (auto simp: isComplete_def filter_empty_conv)

lemma receiveItems_effect:
  assumes run: "receiveItems digest cmd h reason xs f db = Inr (res, db')"
  defines "t \<equiv> cm_tenant cmd"
  shows "stock_inv db \<Longrightarrow> stock_inv db'"
    "balanceAt k db' = shiftBalance (- shortAt t k xs) (goodAt t k xs) (- (goodAt t k xs + shortAt t k xs)) (balanceAt k db)"
    "movedOf tp db' = movedOf tp db - sum_where (\<lambda>x. (t, tr_product (ri_line x)) = tp) ri_discrepancy xs"
    "transfer_lines db' = map (progressed t xs) (transfer_lines db)"
    "\<forall>l\<in>set (transfer_lines db). line_check l \<Longrightarrow> \<forall>l\<in>set (transfer_lines db'). line_check l"
    "transfers db' = update_where (\<lambda>r. tf_id r = tf_id h \<and> tf_tenant r = t)
       (\<lambda>r. r\<lparr>tf_status := (if isComplete t (tf_id h) db' then TransferReceived else TransferPartiallyReceived)\<rparr>) (transfers db)"
    "\<exists>d. findDocument t (tf_id h) db' = Some d \<and> res = (d, False)" "catalogue db' = catalogue db" "env_uuid db' = env_uuid db"
    "\<exists>i now. transfer_receipts db' = transfer_receipts db @ [\<lparr>tc_id = i, tc_tenant = t, tc_transfer = tf_id h, tc_reason = reason, tc_key = cm_key cmd,
        tc_fingerprint = f, tc_user = cm_user cmd, tc_created_at = now\<rparr>]"
proof -
  obtain rows i now db1 d where K: "cache_ok t (map_of rows) db"
    and L: "receiveLines digest cmd h reason i (List.enumerate 0 xs) (map_of rows)
      (db\<lparr>ticks := Suc (ticks db), transfer_receipts := transfer_receipts db @ [\<lparr>tc_id = i, tc_tenant = t, tc_transfer = tf_id h, tc_reason = reason, tc_key = cm_key cmd,
        tc_fingerprint = f, tc_user = cm_user cmd, tc_created_at = now\<rparr>]\<rparr>) = Inr ((), db1)"
    and M: "markProgress t (tf_id h) db1 = Inr ((), db')" and D: "findDocument t (tf_id h) db' = Some d" "res = (d, False)"
    using run unfolding receiveItems_def Let_def insertReceipt_def t_def
    by (auto simp: runM dest!: lockReceiptLines)
  let ?db = "db\<lparr>ticks := Suc (ticks db), transfer_receipts := transfer_receipts db @ [\<lparr>tc_id = i, tc_tenant = t, tc_transfer = tf_id h, tc_reason = reason, tc_key = cm_key cmd,
        tc_fingerprint = f, tc_user = cm_user cmd, tc_created_at = now\<rparr>]\<rparr>"
  have cache: "cache_ok t (map_of rows) ?db" using K by (simp add: cache_ok_def selectBalance_def)
  have E: "(stock_inv ?db \<longrightarrow> stock_inv db1) \<and> headers db1 = headers ?db \<and>
    balanceAt k db1 = shiftBalance (- shortAt t k xs) (goodAt t k xs) (- (goodAt t k xs + shortAt t k xs)) (balanceAt k ?db) \<and>
    movedOf tp db1 = movedOf tp ?db - sum_where (\<lambda>x. (t, tr_product (ri_line x)) = tp) ri_discrepancy xs \<and>
    transfer_lines db1 = map (progressed t xs) (transfer_lines ?db) \<and>
    ((\<forall>l\<in>set (transfer_lines ?db). line_check l) \<longrightarrow> (\<forall>l\<in>set (transfer_lines db1). line_check l))" for k tp
    using receiveLines_effect [OF L] cache unfolding t_def by blast
  have m: "db' = db1\<lparr>transfers := update_where (\<lambda>r. tf_id r = tf_id h \<and> tf_tenant r = t)
       (\<lambda>r. r\<lparr>tf_status := (if isComplete t (tf_id h) db1 then TransferReceived else TransferPartiallyReceived)\<rparr>) (transfers db1)\<rparr>"
    using M by (simp only: markProgress_Inr)
  have complete: "isComplete t (tf_id h) db' = isComplete t (tf_id h) db1" by (simp add: isComplete_def m)
  show "stock_inv db \<Longrightarrow> stock_inv db'" using E newRow_inv [of db] by (simp add: m)
  show "balanceAt k db' = shiftBalance (- shortAt t k xs) (goodAt t k xs) (- (goodAt t k xs + shortAt t k xs)) (balanceAt k db)"
    using E [of k] by (simp add: m)
  show "movedOf tp db' = movedOf tp db - sum_where (\<lambda>x. (t, tr_product (ri_line x)) = tp) ri_discrepancy xs"
    using E [of _ tp] by (simp add: m)
  show "transfer_lines db' = map (progressed t xs) (transfer_lines db)" using E by (simp add: m)
  show "\<forall>l\<in>set (transfer_lines db). line_check l \<Longrightarrow> \<forall>l\<in>set (transfer_lines db'). line_check l" using E by (simp add: m)
  have h: "headers db1 = headers ?db" using E by blast
  show "transfers db' = update_where (\<lambda>r. tf_id r = tf_id h \<and> tf_tenant r = t)
       (\<lambda>r. r\<lparr>tf_status := (if isComplete t (tf_id h) db' then TransferReceived else TransferPartiallyReceived)\<rparr>) (transfers db)"
    unfolding complete using h by (simp add: m headers_def)
  show "\<exists>d. findDocument t (tf_id h) db' = Some d \<and> res = (d, False)" using D by blast
  show "catalogue db' = catalogue db" "env_uuid db' = env_uuid db" using h by (simp_all add: m headers_def catalogue_def)
  show "\<exists>i now. transfer_receipts db' = transfer_receipts db @ [\<lparr>tc_id = i, tc_tenant = t, tc_transfer = tf_id h, tc_reason = reason, tc_key = cm_key cmd,
        tc_fingerprint = f, tc_user = cm_user cmd, tc_created_at = now\<rparr>]"
    using h by (simp add: m headers_def)
qed

text \<open>Actions that only read.\<close>

lemma readsD: "keeps (\<lambda>db. db) m \<Longrightarrow> m db = Inr (x, db') \<Longrightarrow> db' = db"
  by (drule keepsD) simp_all

lemma reads_normalize [keeps_intros]: "keeps (\<lambda>db. db) (normalizeM v policy neg enf)"
  unfolding normalizeM_def by (auto intro!: keeps_intros split: sum.split)

lemma reads_lines:
  "keeps (\<lambda>db. db) (normalizeReceiptLine t i l)" "keeps (\<lambda>db. db) (receiptItem vs x)" "keeps (\<lambda>db. db) (normalizeTransferLine t d)"
  unfolding normalizeReceiptLine_def receiptItem_def normalizeTransferLine_def Let_def by (intro keeps_intros)+

lemma receiptItem_Inr:
  assumes "receiptItem vs l db = Inr (x, db')"
  shows "\<exists>v\<in>set vs. ri_line x = tv_line v \<and> tr_id (tv_line v) = rq_line l" "0 < ri_received x + ri_discrepancy x"
    "ri_received x + ri_discrepancy x \<le> tr_quantity (ri_line x) - tr_received (ri_line x) - tr_discrepancy (ri_line x)"
  using assms by (auto simp: receiptItem_def runM Let_def dest!: find_Some_props)

lemma mapM_Inr:
  assumes "mapM f xs db = Inr (ys, db')" "\<And>x. keeps (\<lambda>db. db) (f x)"
  shows "db' = db \<and> list_all2 (\<lambda>x y. f x db = Inr (y, db)) xs ys"
  using assms(1)
proof (induction xs arbitrary: ys db)
  case (Cons x xs)
  then obtain y ys' db1 where "f x db = Inr (y, db1)" "mapM f xs db1 = Inr (ys', db')" "ys = y # ys'"
    by (auto simp: bindM_Inr)
  with Cons.IH readsD [OF assms(2)] show ?case by fastforce
qed simp

text \<open>The items of a receipt: transfer lines of the transfer, each with a positive quantity that is
  still pending.\<close>

definition receivable :: "id \<Rightarrow> id \<Rightarrow> inv_db \<Rightarrow> receipt_item \<Rightarrow> bool" where
  "receivable t i db x \<longleftrightarrow> ri_line x \<in> set (linesOf t i db) \<and> 0 < ri_received x + ri_discrepancy x \<and>
     ri_received x + ri_discrepancy x \<le> tr_quantity (ri_line x) - tr_received (ri_line x) - tr_discrepancy (ri_line x)"

definition requestedItem :: "id \<Rightarrow> id \<Rightarrow> inv_db \<Rightarrow> receipt_line_dto \<Rightarrow> receipt_item \<Rightarrow> bool" where
  "requestedItem t i db e x \<longleftrightarrow> tr_id (ri_line x) = el_line e \<and> (\<exists>policy r d. transferLinePolicy t i (el_line e) db = Some policy \<and>
     normalizeProductQuantity (el_received e) policy False False = Inr r \<and> transferUnits r = Inr (ri_received x) \<and>
     normalizeProductQuantity (el_discrepancy e) policy False False = Inr d \<and> transferUnits d = Inr (ri_discrepancy x))"

lemma normalizeM_Inr [simp]:
  "normalizeM v policy neg enf db = Inr r \<longleftrightarrow> (\<exists>n. normalizeProductQuantity v policy neg enf = Inr n \<and> r = (n, db))"
  by (auto simp: normalizeM_def split: sum.split)

lemma requestedItem_intro:
  assumes "normalizeReceiptLine t i e db = Inr (l, db)" "receiptItem vs l db = Inr (x, db)"
  shows "requestedItem t i db e x"
proof -
  obtain policy r d where N: "transferLinePolicy t i (el_line e) db = Some policy" "normalizeProductQuantity (el_received e) policy False False = Inr r"
    "normalizeProductQuantity (el_discrepancy e) policy False False = Inr d" "rq_line l = el_line e" "rq_received l = r" "rq_discrepancy l = d"
    using assms(1) unfolding normalizeReceiptLine_def by (auto simp: bindM_Inr)
  moreover have "transferUnits (rq_received l) = Inr (ri_received x)" "transferUnits (rq_discrepancy l) = Inr (ri_discrepancy x)" "tr_id (ri_line x) = rq_line l"
    using assms(2) unfolding receiptItem_def Let_def by (auto simp: bindM_Inr thenM_Inr dest!: find_Some_props)
  ultimately show ?thesis unfolding requestedItem_def by auto
qed

lemma receiveTransfer_Inr:
  assumes "receiveTransfer digest cmd i dto db = Inr (res, db')"
  obtains (replayed) d where "res = (d, True)" "db' = db" "findDocument (cm_tenant cmd) i db = Some d"
  | (received) h lines xs where "h \<in> set (transfers db)" "tf_id h = i" "tf_tenant h = cm_tenant cmd" "tf_destination h = cm_warehouse cmd"
      "tf_status h \<in> {TransferDispatched, TransferPartiallyReceived}" "\<forall>x\<in>set xs. receivable (cm_tenant cmd) i db x"
      "distinct (map (\<lambda>x. tr_id (ri_line x)) xs)" "list_all2 (requestedItem (cm_tenant cmd) i db) (ed_lines dto) xs" "xs \<noteq> []"
      "receiveItems digest cmd h (ed_reason dto) xs (digest (receiptRequest i dto lines)) db = Inr (res, db')"
proof -
  obtain lines s1 where D: "distinct (map el_line (ed_lines dto))" and N1: "mapM (normalizeReceiptLine (cm_tenant cmd) i) (ed_lines dto) db = Inr (lines, s1)"
    and zero: "\<not> list_all isZero lines"
    and rest1: "catchM (\<lambda>e. e = DuplicateEntry) (receiveTransaction digest cmd i dto lines (digest (receiptRequest i dto lines)))
         (\<lambda>_. bindM (readM (findReceiptByKey (cm_tenant cmd) (cm_key cmd))) (\<lambda>existing.
              thenM (ensureM InventoryTransferIdempotencyConflictError (existing = Some (i, digest (receiptRequest i dto lines))))
              (bindM (documentOf InventoryTransferNotFoundError (cm_tenant cmd) i) (\<lambda>d. returnM (d, True))))) s1 = Inr (res, db')"
    using assms unfolding receiveTransfer_def Let_def by (simp only: bindM_Inr thenM_Inr) auto
  have s1: "s1 = db" using mapM_Inr [OF N1 reads_lines(1)] by blast
  note N = N1 [unfolded s1] and rest = rest1 [unfolded s1]
  consider (stored) d where "res = (d, True)" "db' = db" "findDocument (cm_tenant cmd) i db = Some d"
    | (fresh) "receiveNew digest cmd i dto lines (digest (receiptRequest i dto lines)) db = Inr (res, db')"
    using rest by (auto simp: catchM_def receiveTransaction_def runM split: sum.splits if_splits option.splits)
  then show ?thesis
  proof cases
    case stored
    then show ?thesis by (rule replayed)
  next
    case fresh
    then obtain h xs s2 where h: "List.find (\<lambda>h. tf_id h = i \<and> tf_tenant h = cm_tenant cmd) (transfers db) = Some h"
      and ok: "tf_destination h = cm_warehouse cmd" "tf_status h \<in> {TransferDispatched, TransferPartiallyReceived}"
      and xs: "mapM (receiptItem (findLineRows (cm_tenant cmd) i db)) lines db = Inr (xs, s2)"
      and run2: "receiveItems digest cmd h (ed_reason dto) xs (digest (receiptRequest i dto lines)) s2 = Inr (res, db')"
      unfolding receiveNew_def by (simp only: bindM_Inr thenM_Inr) auto
    have s2: "s2 = db" using mapM_Inr [OF xs reads_lines(2)] by blast
    note run = run2 [unfolded s2]
    note f = find_Some_props [OF h]
    have each: "list_all2 (\<lambda>l x. receiptItem (findLineRows (cm_tenant cmd) i db) l db = Inr (x, db)) lines xs"
      using mapM_Inr [OF xs reads_lines(2)] by blast
    have items: "list_all2 (requestedItem (cm_tenant cmd) i db) (ed_lines dto) xs"
      by (rule list_all2_trans [OF _ conjunct2 [OF mapM_Inr [OF N reads_lines(1)]] each]) (rule requestedItem_intro)
    then have "map (\<lambda>x. tr_id (ri_line x)) xs = map el_line (ed_lines dto)"
      by (induction rule: list_all2_induct) (auto simp: requestedItem_def)
    then have ids: "distinct (map (\<lambda>x. tr_id (ri_line x)) xs)" using D by simp
    have good: "\<forall>x\<in>set xs. receivable (cm_tenant cmd) i db x"
    proof
      fix x assume "x \<in> set xs"
      then obtain l where "receiptItem (findLineRows (cm_tenant cmd) i db) l db = Inr (x, db)"
        using each by (auto simp: list_all2_conv_all_nth in_set_conv_nth)
      from receiptItem_Inr [OF this] show "receivable (cm_tenant cmd) i db x" by (auto simp: receivable_def linesOf_def)
    qed
    have "xs \<noteq> []" using zero each by auto
    then show ?thesis using received [OF _ _ _ ok good ids items _ run] f by simp
  qed
qed

section \<open>create and cancel\<close>

lemma createLines_effect:
  assumes "forM (createLine t i) xs db = Inr (u, db')"
  shows "\<exists>ls. db' = db\<lparr>ticks := ticks db + length ls, transfer_lines := transfer_lines db @ ls\<rparr> \<and>
    map tr_id ls = map (env_uuid db) [ticks db..<ticks db + length ls] \<and>
    (\<forall>l\<in>set ls. tr_tenant l = t \<and> tr_transfer l = i \<and> line_check l \<and> tr_received l = 0 \<and> tr_discrepancy l = 0)"
  using assms
proof (induction xs arbitrary: db)
  case Nil
  then show ?case by (intro exI [of _ "[]"]) simp
next
  case (Cons x xs)
  obtain n d where x: "x = (n, d)" by (cases x)
  obtain q db1 l where l: "l = \<lparr>tr_id = env_uuid db (ticks db), tr_tenant = t, tr_transfer = i, tr_number = n + 1, tr_product = ld_product d,
       tr_source = ld_source d, tr_destination = ld_destination d, tr_quantity = q, tr_serials = listOr (ld_serials d), tr_received = 0, tr_discrepancy = 0\<rparr>" and L: "line_check l"
    and db1: "db1 = db\<lparr>ticks := Suc (ticks db), transfer_lines := transfer_lines db @ [l]\<rparr>" and rest: "forM (createLine t i) xs db1 = Inr (u, db')"
    using Cons.prems unfolding x by (auto simp: runM createLine_def insertTransferLine_def)
  obtain ls where ls: "db' = db1\<lparr>ticks := ticks db1 + length ls, transfer_lines := transfer_lines db1 @ ls\<rparr>"
    "map tr_id ls = map (env_uuid db1) [ticks db1..<ticks db1 + length ls]"
    "\<forall>l\<in>set ls. tr_tenant l = t \<and> tr_transfer l = i \<and> line_check l \<and> tr_received l = 0 \<and> tr_discrepancy l = 0"
    using Cons.IH [OF rest] by blast
  have "map tr_id (l # ls) = map (env_uuid db) [ticks db..<ticks db + length (l # ls)]"
    using ls(2) unfolding db1 by (simp add: l upt_conv_Cons del: upt_Suc)
  then show ?case using ls(1,3) L unfolding db1 by (intro exI [of _ "l # ls"]) (simp add: l)
qed

lemma createTransfer_Inr:
  assumes "createTransfer digest cmd dto db = Inr (res, db')"
  obtains (replayed) d where "res = (d, True)" "db' = db"
  | (created) h ls d where "db' = db\<lparr>transfers := transfers db @ [h], ticks := Suc (ticks db) + length ls, transfer_lines := transfer_lines db @ ls\<rparr>"
      "tf_id h = env_uuid db (ticks db)" "tf_tenant h = cm_tenant cmd" "tf_status h = TransferDraft" "tf_key h = cm_key cmd" "tf_origin h = cm_warehouse cmd" "tf_destination h = xd_destination dto"
      "map tr_id ls = map (env_uuid db) [Suc (ticks db)..<Suc (ticks db) + length ls]"
      "\<forall>l\<in>set ls. tr_tenant l = cm_tenant cmd \<and> tr_transfer l = tf_id h \<and> line_check l \<and> tr_received l = 0 \<and> tr_discrepancy l = 0"
      "findDocument (cm_tenant cmd) (tf_id h) db' = Some d" "res = (d, False)"
proof -
  obtain lines s1 where N: "mapM (normalizeTransferLine (cm_tenant cmd)) (xd_lines dto) db = Inr (lines, s1)"
    and rest: "catchM (\<lambda>e. e = DuplicateEntry) (createTransaction cmd dto lines (digest (transferRequest cmd dto lines)))
        (\<lambda>_. bindM (readM (findByCreationKey (cm_tenant cmd) (cm_key cmd))) (\<lambda>found.
             bindM (requireM InventoryTransferIdempotencyConflictError found) (replayCreation (digest (transferRequest cmd dto lines))))) s1 = Inr (res, db')"
    using assms unfolding createTransfer_def assertDistinctLines_def Let_def by (simp only: bindM_Inr thenM_Inr) auto
  have s1: "s1 = db" using mapM_Inr [OF N reads_lines(3)] by blast
  consider (stored) d where "res = (d, True)" "db' = db" | (fresh) "createDraft cmd dto lines (digest (transferRequest cmd dto lines)) db = Inr (res, db')"
    using rest unfolding s1 by (auto simp: catchM_def createTransaction_def replayCreation_def assertWarehouseAccess_def runM split: sum.splits if_splits option.splits)
  then show ?thesis
  proof cases
    case fresh
    have reads: "keeps (\<lambda>db. db) (forM (\<lambda>l. assertLineTarget (cm_tenant cmd) (cm_warehouse cmd) (xd_destination dto) (ld_product l) (ld_source l) (ld_destination l)) lines)"
      unfolding assertLineTarget_def by (intro keeps_intros)
    let ?h = "\<lparr>tf_id = env_uuid db (ticks db), tf_tenant = cm_tenant cmd, tf_origin = cm_warehouse cmd, tf_destination = xd_destination dto,
          tf_status = TransferDraft, tf_reference = xd_reference dto, tf_reason = xd_reason dto, tf_key = cm_key cmd,
          tf_fingerprint = digest (transferRequest cmd dto lines), tf_dispatch_key = None, tf_user = cm_user cmd\<rparr>"
    obtain d where L: "forM (createLine (cm_tenant cmd) (env_uuid db (ticks db))) (List.enumerate 0 lines) (db\<lparr>ticks := Suc (ticks db), transfers := transfers db @ [?h]\<rparr>) = Inr ((), db')"
      and d: "findDocument (cm_tenant cmd) (env_uuid db (ticks db)) db' = Some d" "res = (d, False)"
      using fresh unfolding createDraft_def Let_def assertWarehouses_def insertTransfer_def
      by (auto simp: runM dest!: readsD [OF reads])
    from createLines_effect [OF L] obtain ls where "db' = db\<lparr>transfers := transfers db @ [?h], ticks := Suc (ticks db) + length ls, transfer_lines := transfer_lines db @ ls\<rparr>"
      "map tr_id ls = map (env_uuid db) [Suc (ticks db)..<Suc (ticks db) + length ls]"
      "\<forall>l\<in>set ls. tr_tenant l = cm_tenant cmd \<and> tr_transfer l = env_uuid db (ticks db) \<and> line_check l \<and> tr_received l = 0 \<and> tr_discrepancy l = 0"
      by (auto simp del: upt_Suc)
    with d show ?thesis using created [where h = ?h and ls = ls] by (simp del: upt_Suc)
  qed (rule replayed)
qed

lemma cancelTransfer_Inr:
  assumes "cancelTransfer cmd i db = Inr (d, db')"
  obtains h where "h \<in> set (transfers db)" "tf_id h = i" "tf_tenant h = cm_tenant cmd" "tf_origin h = cm_warehouse cmd" "tf_status h \<noteq> TransferDispatched"
    "db' = (if tf_status h = TransferDraft then db\<lparr>transfers := update_where (\<lambda>r. tf_id r = i \<and> tf_tenant r = cm_tenant cmd)
           (\<lambda>r. r\<lparr>tf_status := TransferCancelled\<rparr>) (transfers db)\<rparr> else db)"
    "findDocument (cm_tenant cmd) i db' = Some d"
proof -
  obtain h where h: "List.find (\<lambda>h. tf_id h = i \<and> tf_tenant h = cm_tenant cmd \<and> tf_origin h = cm_warehouse cmd) (transfers db) = Some h"
    and run: "thenM (ensureM InventoryTransferStatusConflictError (tf_status h \<noteq> TransferDispatched))
     (thenM (whenM (tf_status h = TransferDraft)
        (writeM (\<lambda>db. db\<lparr>transfers := update_where (\<lambda>r. tf_id r = i \<and> tf_tenant r = cm_tenant cmd)
           (\<lambda>r. r\<lparr>tf_status := TransferCancelled\<rparr>) (transfers db)\<rparr>)))
       (documentOf InventoryTransferNotFoundError (cm_tenant cmd) i)) db = Inr (d, db')"
    using assms unfolding cancelTransfer_def bindM_Inr by auto
  have ok: "tf_status h \<noteq> TransferDispatched" and d: "findDocument (cm_tenant cmd) i db' = Some d"
    using run by (simp_all add: thenM_Inr)
  have rest: "db' = (if tf_status h = TransferDraft then db\<lparr>transfers := update_where (\<lambda>r. tf_id r = i \<and> tf_tenant r = cm_tenant cmd)
           (\<lambda>r. r\<lparr>tf_status := TransferCancelled\<rparr>) (transfers db)\<rparr> else db)"
    using run by (simp add: thenM_Inr whenM_Inr split: if_splits)
  show ?thesis by (rule that [OF _ _ _ _ ok rest d]) (use find_Some_props [OF h] in simp_all)
qed

section \<open>The state machine of a transfer\<close>

inductive transfer_step :: "transfer_status \<Rightarrow> transfer_status \<Rightarrow> bool" where
  draft_dispatched: "transfer_step TransferDraft TransferDispatched"
| draft_cancelled: "transfer_step TransferDraft TransferCancelled"
| dispatched_part: "transfer_step TransferDispatched TransferPartiallyReceived"
| dispatched_all: "transfer_step TransferDispatched TransferReceived"
| part_part: "transfer_step TransferPartiallyReceived TransferPartiallyReceived"
| part_all: "transfer_step TransferPartiallyReceived TransferReceived"

inductive_simps transfer_step_from [simp]:
  "transfer_step TransferDraft s" "transfer_step TransferDispatched s" "transfer_step TransferPartiallyReceived s"
  "transfer_step TransferReceived s" "transfer_step TransferCancelled s"

section \<open>The documents\<close>

definition transferLines :: "transfer_row \<Rightarrow> inv_db \<Rightarrow> transfer_line_row list" where
  "transferLines h db = filter (\<lambda>l. tr_tenant l = tf_tenant h \<and> tr_transfer l = tf_id h) (transfer_lines db)"

text \<open>What the status says about the lines.\<close>

definition status_ok :: "transfer_status \<Rightarrow> transfer_line_row list \<Rightarrow> bool" where
  "status_ok s ls = (case s of
     TransferReceived \<Rightarrow> (\<forall>l\<in>set ls. tr_received l + tr_discrepancy l = tr_quantity l)
   | TransferPartiallyReceived \<Rightarrow> (\<exists>l\<in>set ls. tr_received l + tr_discrepancy l < tr_quantity l)
   | _ \<Rightarrow> (\<forall>l\<in>set ls. tr_received l = 0 \<and> tr_discrepancy l = 0))"

definition transfer_inv :: "inv_db \<Rightarrow> bool" where
  "transfer_inv db \<longleftrightarrow> inj (env_uuid db) \<and> tf_id ` set (transfers db) \<subseteq> issued db \<and> tr_id ` set (transfer_lines db) \<subseteq> issued db \<and>
     tr_transfer ` set (transfer_lines db) \<subseteq> issued db \<and> distinct (map tf_id (transfers db)) \<and> distinct (map tr_id (transfer_lines db)) \<and>
     (\<forall>l\<in>set (transfer_lines db). line_check l) \<and> (\<forall>h\<in>set (transfers db). status_ok (tf_status h) (transferLines h db))"

lemma transfer_invD:
  assumes "transfer_inv db"
  shows "inj (env_uuid db)" "tf_id ` set (transfers db) \<subseteq> issued db" "tr_id ` set (transfer_lines db) \<subseteq> issued db"
    "tr_transfer ` set (transfer_lines db) \<subseteq> issued db" "distinct (map tf_id (transfers db))" "distinct (map tr_id (transfer_lines db))"
    "l \<in> set (transfer_lines db) \<Longrightarrow> line_check l" "h \<in> set (transfers db) \<Longrightarrow> status_ok (tf_status h) (transferLines h db)"
  using assms unfolding transfer_inv_def by blast+

lemma same_transfer: "transfer_inv db \<Longrightarrow> h \<in> set (transfers db) \<Longrightarrow> h' \<in> set (transfers db) \<Longrightarrow> tf_id h' = tf_id h \<Longrightarrow> h' = h"
  using transfer_invD(5) by (metis distinct_map_key_inj)

text \<open>Receiving items of one transfer leaves the lines of the others.\<close>

lemma progressed_other:
  assumes inv: "transfer_inv db" and xs: "\<forall>x\<in>set xs. receivable t i db x" and l: "l \<in> set (transfer_lines db)" and other: "\<not> (tr_tenant l = t \<and> tr_transfer l = i)"
  shows "progressed t xs l = l"
proof (cases "tr_tenant l = t")
  case True
  have "tr_id (ri_line x) \<noteq> tr_id l" if "x \<in> set xs" for x
  proof
    assume same: "tr_id (ri_line x) = tr_id l"
    have m: "ri_line x \<in> set (transfer_lines db)" "tr_tenant (ri_line x) = t" "tr_transfer (ri_line x) = i"
      using xs that findLineRows_mem by (auto simp: receivable_def linesOf_def)
    then have "ri_line x = l" using distinct_map_key_inj [OF transfer_invD(6) [OF inv] m(1) l same] by simp
    with m other show False by simp
  qed
  then have "sum_where (\<lambda>x. tr_id (ri_line x) = tr_id l) f xs = 0" for f by (intro sum_where_none) blast
  then show ?thesis by (simp add: progressed_def True)
qed (simp add: progressed_def)

text \<open>One transfer changes its status, and its lines progress.\<close>

lemma transfer_inv_change:
  assumes inv: "transfer_inv db" and env: "env_uuid db' = env_uuid db" "ticks db \<le> ticks db'"
    and h: "h \<in> set (transfers db)"
    and hs: "transfers db' = update_where (\<lambda>r. tf_id r = tf_id h \<and> tf_tenant r = tf_tenant h) u (transfers db)"
    and u: "\<And>r. tf_id (u r) = tf_id r" "\<And>r. tf_tenant (u r) = tf_tenant r"
    and ls: "transfer_lines db' = map (progressed (tf_tenant h) xs) (transfer_lines db)" and xs: "\<forall>x\<in>set xs. receivable (tf_tenant h) (tf_id h) db x"
    and checks: "\<forall>l\<in>set (transfer_lines db'). line_check l" and ok: "status_ok (tf_status (u h)) (transferLines h db')"
  shows "transfer_inv db'"
proof -
  have iss: "issued db \<subseteq> issued db'" using issued_mono [OF env(2,1)] .
  have ids: "map tf_id (transfers db') = map tf_id (transfers db)" "map tr_id (transfer_lines db') = map tr_id (transfer_lines db)"
    "map tr_transfer (transfer_lines db') = map tr_transfer (transfer_lines db)"
    unfolding hs ls by (simp_all add: u comp_def)
  have sets: "tf_id ` set (transfers db') = tf_id ` set (transfers db)" "tr_id ` set (transfer_lines db') = tr_id ` set (transfer_lines db)"
    "tr_transfer ` set (transfer_lines db') = tr_transfer ` set (transfer_lines db)"
    unfolding set_map [symmetric] ids by (rule refl)+
  have status: "status_ok (tf_status r') (transferLines r' db')" if r': "r' \<in> set (transfers db')" for r'
  proof -
    obtain r where r: "r \<in> set (transfers db)" "r' = (if tf_id r = tf_id h \<and> tf_tenant r = tf_tenant h then u r else r)"
      using r' unfolding hs set_update_where by blast
    show ?thesis
    proof (cases "tf_id r = tf_id h \<and> tf_tenant r = tf_tenant h")
      case True
      then have "r = h" using same_transfer [OF inv h r(1)] by simp
      then show ?thesis using ok r(2) by (simp add: transferLines_def u)
    next
      case False
      have "transferLines r db' = transferLines r db"
        unfolding transferLines_def ls filter_map comp_def progressed_same
        by (rule map_idI) (use False in \<open>auto intro!: progressed_other [OF inv xs]\<close>)
      then show ?thesis using transfer_invD(8) [OF inv r(1)] r(2) False by simp
    qed
  qed
  show ?thesis
    unfolding transfer_inv_def using transfer_invD(1-6) [OF inv] iss checks status ids by (auto simp: env sets)
qed

lemma since_transfers:
  "preserves (since N) (dispatchDraft digest cmd h)" "preserves (since N) (receiveItems digest cmd h reason xs f)"
proof -
  have lock: "preserves (since N) (lockLine t k)" for t k
    unfolding lockLine_def ensureBalance_def lockBalance_def by (intro preserves_intros since_intros; simp)
  have bal: "preserves (since N) (writeBalance k b)" for k b
    unfolding writeBalance_def updateBalance_def by (intro preserves_intros since_intros; simp)
  have post: "preserves (since N) (postTransfer digest cmd h l kind loc q r)" "preserves (since N) (postReceipt digest cmd h l rc rl kind q r reason ns)"
    for l kind loc q r rc rl reason ns
    unfolding postTransfer_def postReceipt_def by (intro preserves_intros since_intros)+
  have line: "preserves (since N) (dispatchLine digest cmd h l bal)" "preserves (since N) (receiveLine digest cmd h reason rc x bal)" for l bal rc x
    unfolding dispatchLine_def receiveLine_def cached_def addProgress_def insertReceiptLine_def Let_def
    by (intro preserves_intros since_intros bal post; simp)+
  have lines: "preserves (since N) (dispatchLines digest cmd h ls bal)" for ls bal
    by (induction ls arbitrary: bal) (simp_all add: preserves_bindM line)
  have items: "preserves (since N) (receiveLines digest cmd h reason rc xs bal)" for rc xs bal
    by (induction xs arbitrary: bal) (simp_all add: preserves_bindM line)
  show "preserves (since N) (dispatchDraft digest cmd h)"
    unfolding dispatchDraft_def assertWarehouses_def dispatchTarget_def markDispatched_def documentOf_def Let_def
    by (intro preserves_intros since_intros lock lines; simp)
  have "preserves (since N) (lockReceiptLine t k)" for t k
    unfolding lockReceiptLine_def by (intro preserves_intros since_intros)
  then show "preserves (since N) (receiveItems digest cmd h reason xs f)"
    unfolding receiveItems_def insertReceipt_def markProgress_def documentOf_def Let_def
    by (intro preserves_intros since_intros items; simp)
qed

lemma dispatchDraft_documents:
  assumes run: "dispatchDraft digest cmd h db = Inr (res, db')"
  shows "transfers db' = update_where (\<lambda>r. tf_id r = tf_id h \<and> tf_tenant r = cm_tenant cmd)
      (\<lambda>r. r\<lparr>tf_status := TransferDispatched, tf_dispatch_key := Some (cm_key cmd)\<rparr>) (transfers db)"
    "transfer_lines db' = transfer_lines db" "env_uuid db' = env_uuid db" "ticks db \<le> ticks db'" "\<exists>d. res = (d, False)"
  using dispatchDraft_effect(4) [OF run] preservesD [OF since_transfers(1) _ run, of "ticks db"]
  by (simp_all add: documents_def) (rule dispatchDraft_Inr [OF run], blast)

lemma dispatchTransfer_keeps: "preserves transfer_inv (dispatchTransfer digest cmd i)"
proof (rule preservesI)
  fix db res db'
  assume inv: "transfer_inv db" and "dispatchTransfer digest cmd i db = Inr (res, db')"
  from this(2) show "transfer_inv db'"
  proof (cases rule: dispatchTransfer_Inr)
    case replayed
    with inv show ?thesis by simp
  next
    case (dispatched h)
    note D = dispatchDraft_documents [OF dispatched(6)]
    have ok: "status_ok TransferDispatched (transferLines h db')"
      using transfer_invD(8) [OF inv dispatched(1)] dispatched(5) by (simp add: status_ok_def transferLines_def D(2))
    show ?thesis
      by (rule transfer_inv_change [OF inv D(3,4) dispatched(1), where xs = "[]" and
            u = "\<lambda>r. r\<lparr>tf_status := TransferDispatched, tf_dispatch_key := Some (cm_key cmd)\<rparr>"])
        (use D dispatched ok transfer_invD(7) [OF inv] in simp_all)
  qed
qed

lemma cancelTransfer_keeps: "preserves transfer_inv (cancelTransfer cmd i)"
proof (rule preservesI)
  fix db d db'
  assume inv: "transfer_inv db" and "cancelTransfer cmd i db = Inr (d, db')"
  from this(2) obtain h where h: "h \<in> set (transfers db)" "tf_id h = i" "tf_tenant h = cm_tenant cmd"
    and db': "db' = (if tf_status h = TransferDraft then db\<lparr>transfers := update_where (\<lambda>r. tf_id r = i \<and> tf_tenant r = cm_tenant cmd)
           (\<lambda>r. r\<lparr>tf_status := TransferCancelled\<rparr>) (transfers db)\<rparr> else db)"
    by (rule cancelTransfer_Inr) blast
  show "transfer_inv db'"
  proof (cases "tf_status h = TransferDraft")
    case True
    have ok: "status_ok TransferCancelled (transferLines h db)"
      using transfer_invD(8) [OF inv h(1)] True by (simp add: status_ok_def)
    show ?thesis
      by (rule transfer_inv_change [OF inv _ _ h(1), where xs = "[]" and u = "\<lambda>r. r\<lparr>tf_status := TransferCancelled\<rparr>"])
        (use h db' True ok transfer_invD(7) [OF inv] in \<open>simp_all add: transferLines_def\<close>)
  qed (use inv db' in simp)
qed

lemma receiveTransfer_keeps: "preserves transfer_inv (receiveTransfer digest cmd i dto)"
proof (rule preservesI)
  fix db res db'
  assume inv: "transfer_inv db" and "receiveTransfer digest cmd i dto db = Inr (res, db')"
  from this(2) show "transfer_inv db'"
  proof (cases rule: receiveTransfer_Inr)
    case replayed
    with inv show ?thesis by simp
  next
    case (received h lines xs)
    note R = receiveItems_effect [OF received(10)]
    have checks: "\<forall>l\<in>set (transfer_lines db'). line_check l" using R(5) transfer_invD(7) [OF inv] by blast
    have ok: "status_ok (if isComplete (cm_tenant cmd) i db' then TransferReceived else TransferPartiallyReceived) (transferLines h db')"
      using checks received(2,3) by (fastforce simp: status_ok_def isComplete_lines transferLines_def line_check_def)
    show ?thesis
      by (rule transfer_inv_change [OF inv R(9) _ received(1), where xs = xs and
            u = "\<lambda>r. r\<lparr>tf_status := (if isComplete (cm_tenant cmd) i db' then TransferReceived else TransferPartiallyReceived)\<rparr>"])
        (use R(4,6) received ok checks preservesD [OF since_transfers(2) _ received(10), of "ticks db"] in simp_all)
  qed
qed

lemma createTransfer_keeps: "preserves transfer_inv (createTransfer digest cmd dto)"
proof (rule preservesI)
  fix db res db'
  assume inv: "transfer_inv db" and "createTransfer digest cmd dto db = Inr (res, db')"
  from this(2) show "transfer_inv db'"
  proof (cases rule: createTransfer_Inr)
    case replayed
    with inv show ?thesis by simp
  next
    case (created h ls d)
    have iss: "issued db' = issued db \<union> {env_uuid db (ticks db)} \<union> env_uuid db ` {Suc (ticks db)..<Suc (ticks db) + length ls}"
    proof -
      have "{..<Suc (ticks db) + length ls} = {..<ticks db} \<union> {ticks db} \<union> {Suc (ticks db)..<Suc (ticks db) + length ls}" by auto
      then show ?thesis using created(1) by (simp add: issued_def image_Un del: lessThan_Suc)
    qed
    have new: "tr_id ` set ls = env_uuid db ` {Suc (ticks db)..<Suc (ticks db) + length ls}"
      using arg_cong [OF created(8), of set] by (simp only: set_map set_upt)
    have fresh: "env_uuid db n \<notin> issued db" if "ticks db \<le> n" for n
      using that by (auto simp: issued_def dest!: injD [OF transfer_invD(1) [OF inv]])
    have dist: "distinct (map tr_id ls)"
      unfolding created(8) using transfer_invD(1) [OF inv] by (simp add: distinct_map inj_on_subset [OF _ subset_UNIV] del: upt_Suc)
    have apart: "tr_id ` set ls \<inter> tr_id ` set (transfer_lines db) = {}"
    proof -
      have "env_uuid db n \<notin> tr_id ` set (transfer_lines db)" if "Suc (ticks db) \<le> n" for n
        using transfer_invD(3) [OF inv] fresh [of n] that by auto
      then have "env_uuid db n \<noteq> tr_id l" if "Suc (ticks db) \<le> n" "l \<in> set (transfer_lines db)" for n l
        using that by (metis imageI)
      then show ?thesis unfolding new by auto
    qed
    have old: "transferLines r db' = transferLines r db" if "r \<in> set (transfers db)" for r
      using that created(1,2,9) transfer_invD(2) [OF inv] fresh [of "ticks db"] by (force simp: transferLines_def filter_empty_conv)
    have mine: "transferLines h db' = ls"
      using created(1,2,3,9) transfer_invD(4) [OF inv] fresh [of "ticks db"] by (force simp: transferLines_def filter_empty_conv filter_id_conv)
    show ?thesis
      unfolding transfer_inv_def
    proof (intro conjI)
      show "inj (env_uuid db')" using transfer_invD(1) [OF inv] created(1) by simp
      show "tf_id ` set (transfers db') \<subseteq> issued db'" using transfer_invD(2) [OF inv] created(1,2) iss by auto
      show "tr_id ` set (transfer_lines db') \<subseteq> issued db'" using transfer_invD(3) [OF inv] created(1) iss new by auto
      show "tr_transfer ` set (transfer_lines db') \<subseteq> issued db'" using transfer_invD(4) [OF inv] created(1,2,9) iss by auto
      show "distinct (map tf_id (transfers db'))" using transfer_invD(2,5) [OF inv] created(1,2) fresh [of "ticks db"] by auto
      show "distinct (map tr_id (transfer_lines db'))"
        using transfer_invD(6) [OF inv] created(1) dist apart by (simp add: Int_commute)
      show "\<forall>l\<in>set (transfer_lines db'). line_check l" using transfer_invD(7) [OF inv] created(1,9) by auto
      show "\<forall>r\<in>set (transfers db'). status_ok (tf_status r) (transferLines r db')"
      proof
        fix r assume "r \<in> set (transfers db')"
        then have "r \<in> set (transfers db) \<or> r = h" using created(1) by auto
        moreover have "status_ok (tf_status h) (transferLines h db')" using created(4,9) by (simp add: mine status_ok_def)
        ultimately show "status_ok (tf_status r) (transferLines r db')" using transfer_invD(8) [OF inv] old by auto
      qed
    qed
  qed
qed

end
