(* ===== verification/TransferTheorems.thy ===== *)
theory TransferTheorems
  imports TransferLaws Fixtures
begin

text \<open>
  The properties of transfers, with witnesses on a concrete database: five units at location 3 of
  warehouse 2, a second warehouse 12 with location 5, and a draft transfer of two units.
\<close>

section \<open>A concrete case\<close>

definition transferDb :: inv_db where
  "transferDb = sampleDb\<lparr>ticks := 5,
     warehouses := [\<lparr>wh_id = 2, wh_tenant = 1, wh_branch = 1, wh_active = True, wh_name = ''S''\<rparr>, \<lparr>wh_id = 12, wh_tenant = 1, wh_branch = 1, wh_active = True, wh_name = ''D''\<rparr>],
     locations := [\<lparr>lo_id = 3, lo_tenant = 1, lo_warehouse = 2, lo_active = True\<rparr>, \<lparr>lo_id = 5, lo_tenant = 1, lo_warehouse = 12, lo_active = True\<rparr>],
     admin_users := [(1, 9)],
     balances := [(emptyBalance (1, 7, 3))\<lparr>ba_quantity := 5000, ba_available := 5000\<rparr>],
     movements := [blankMovement\<lparr>mv_id := 60, mv_type := INITIAL, mv_quantity := 5000, mv_resulting := 5000, mv_key := ''k0''\<rparr>],
     valuations := [\<lparr>va_tenant = 1, va_product = 7, va_quantity = 5000, va_value = 100000, va_average = 20000, va_version = 1\<rparr>],
     cutovers := [(1, 0)], layers := [sampleLayer\<lparr>fl_id := 61\<rparr>],
     transfers := [\<lparr>tf_id = 62, tf_tenant = 1, tf_origin = 2, tf_destination = 12, tf_status = TransferDraft, tf_reference = ''ref'', tf_reason = ''move'',
       tf_key = ''t0'', tf_fingerprint = ''f0'', tf_dispatch_key = None, tf_user = 9\<rparr>],
     transfer_lines := [\<lparr>tr_id = 63, tr_tenant = 1, tr_transfer = 62, tr_number = 1, tr_product = 7, tr_source = 3, tr_destination = 5,
       tr_quantity = 2000, tr_serials = [], tr_received = 0, tr_discrepancy = 0\<rparr>]\<rparr>"

definition originCommand :: command where
  "originCommand = \<lparr>cm_tenant = 1, cm_warehouse = 2, cm_user = 9, cm_key = ''d1''\<rparr>"

definition destinationCommand :: command where
  "destinationCommand = \<lparr>cm_tenant = 1, cm_warehouse = 12, cm_user = 9, cm_key = ''r1''\<rparr>"

definition plainDigest :: "request \<Rightarrow> string" where
  "plainDigest r = ''f''"

definition receiveOne :: receipt_dto where
  "receiveOne = \<lparr>ed_reason = Some ''lost'', ed_lines = [\<lparr>el_line = 63, el_received = ''1'', el_discrepancy = ''1'', el_received_serials = None, el_discrepancy_serials = None\<rparr>]\<rparr>"

definition dispatchedDb :: inv_db where
  "dispatchedDb = transferDb\<lparr>ticks := 12,
     balances := [(emptyBalance (1, 7, 3))\<lparr>ba_quantity := 3000, ba_available := 3000\<rparr>, (emptyBalance (1, 7, 5))\<lparr>ba_quantity := 2000, ba_in_transit := 2000\<rparr>],
     movements := [blankMovement\<lparr>mv_id := 60, mv_type := INITIAL, mv_quantity := 5000, mv_resulting := 5000, mv_key := ''k0''\<rparr>,
       blankMovement\<lparr>mv_id := 65, mv_type := TRANSFER_OUT, mv_quantity := -2000, mv_resulting := 3000, mv_key := ''k1'', mv_transfer_line := Some 63\<rparr>,
       blankMovement\<lparr>mv_id := 66, mv_type := TRANSFER_IN, mv_location := 5, mv_quantity := 2000, mv_resulting := 2000, mv_key := ''k2'', mv_transfer_line := Some 63\<rparr>],
     layers := [sampleLayer\<lparr>fl_id := 61, fl_remaining := 3000\<rparr>, sampleLayer\<lparr>fl_id := 67, fl_location := 5, fl_source_movement := Some 66, fl_original := 2000, fl_remaining := 2000\<rparr>],
     transfers := [\<lparr>tf_id = 62, tf_tenant = 1, tf_origin = 2, tf_destination = 12, tf_status = TransferDispatched, tf_reference = ''ref'', tf_reason = ''move'',
       tf_key = ''t0'', tf_fingerprint = ''f0'', tf_dispatch_key = Some ''d1'', tf_user = 9\<rparr>]\<rparr>"

lemma dispatch_runs: "case dispatchTransfer plainDigest originCommand 62 transferDb of Inl _ \<Rightarrow> False
  | Inr ((d, again), db') \<Rightarrow> \<not> again \<and> map ba_quantity (balances db') = [3000, 2000] \<and> map ba_in_transit (balances db') = [0, 2000]"
  by code_simp

lemma receive_runs: "case receiveTransfer plainDigest destinationCommand 62 receiveOne dispatchedDb of Inl _ \<Rightarrow> False
  | Inr ((d, again), db') \<Rightarrow> \<not> again \<and> map ba_quantity (balances db') = [3000, 1000] \<and> map ba_available (balances db') = [3000, 1000]
      \<and> map tf_status (transfers db') = [TransferReceived]"
  by code_simp

text \<open>A variation: the destination also has two available units of its own, acquired later than the
  units in transit, and one sells two units there.\<close>

definition busyDb :: inv_db where
  "busyDb = dispatchedDb\<lparr>
     balances := [(emptyBalance (1, 7, 3))\<lparr>ba_quantity := 3000, ba_available := 3000\<rparr>,
       (emptyBalance (1, 7, 5))\<lparr>ba_quantity := 4000, ba_available := 2000, ba_in_transit := 2000\<rparr>],
     valuations := [\<lparr>va_tenant = 1, va_product = 7, va_quantity = 7000, va_value = 140000, va_average = 20000, va_version = 1\<rparr>],
     layers := layers dispatchedDb @ [sampleLayer\<lparr>fl_id := 68, fl_location := 5, fl_original := 2000, fl_remaining := 2000, fl_acquired_at := 3\<rparr>]\<rparr>"

definition exitThere :: movement_dto where
  "exitThere = \<lparr>md_product = 7, md_location = 5, md_type = EXIT, md_quantity = ''2'', md_reason = ''r'', md_reference = Some ''x'',
     md_lot_code = None, md_manufactured = None, md_expires = None, md_serials = None\<rparr>"

lemma busy_receive: "case receiveTransfer plainDigest destinationCommand 62 receiveOne busyDb of Inl _ \<Rightarrow> False | Inr _ \<Rightarrow> True"
  by code_simp

lemma busy_exit: "case createMovement plainDigest (destinationCommand\<lparr>cm_key := ''e1''\<rparr>) exitThere busyDb of Inl _ \<Rightarrow> False
  | Inr ((m, again), db') \<Rightarrow> (case receiveTransfer plainDigest destinationCommand 62 receiveOne db' of
        Inl e \<Rightarrow> e = InventoryFifoLayerShortageError | Inr _ \<Rightarrow> False)"
  by code_simp

section \<open>dispatch\<close>

text \<open>C5: Dispatching a draft takes the quantities of its lines out of the available stock at the
  source locations and puts them in transit at the destination locations, line by line, changes no
  other column of any balance, keeps the moved quantity of every product, and marks this transfer
  alone as dispatched under the key of the request.\<close>

theorem dispatchTransfer_effect:
  assumes run: "dispatchTransfer digest cmd i db = Inr ((d, False), db')"
  shows "let t = cm_tenant cmd; ls = linesOf t i db in
     (\<exists>h\<in>set (transfers db). tf_id h = i \<and> tf_tenant h = t \<and> tf_origin h = cm_warehouse cmd \<and> tf_status h = TransferDraft) \<and> ls \<noteq> [] \<and>
     (\<forall>k. balanceAt k db' = (balanceAt k db)
        \<lparr>ba_quantity := ba_quantity (balanceAt k db) + incoming t k ls - outgoing t k ls,
         ba_available := ba_available (balanceAt k db) - outgoing t k ls,
         ba_in_transit := ba_in_transit (balanceAt k db) + incoming t k ls\<rparr>) \<and>
     (\<forall>tp. movedOf tp db' = movedOf tp db) \<and>
     transfers db' = update_where (\<lambda>r. tf_id r = i \<and> tf_tenant r = t)
       (\<lambda>r. r\<lparr>tf_status := TransferDispatched, tf_dispatch_key := Some (cm_key cmd)\<rparr>) (transfers db)"
  using run
proof (cases rule: dispatchTransfer_Inr)
  case (dispatched h)
  note E = dispatchDraft_effect [OF dispatched(6)] and D = dispatchDraft_documents [OF dispatched(6)]
  have "linesOf (cm_tenant cmd) i db \<noteq> []"
    by (rule dispatchDraft_Inr [OF dispatched(6)]) (simp add: dispatched(2))
  moreover have "balanceAt k db' = (balanceAt k db)
        \<lparr>ba_quantity := ba_quantity (balanceAt k db) + incoming (cm_tenant cmd) k (linesOf (cm_tenant cmd) i db) - outgoing (cm_tenant cmd) k (linesOf (cm_tenant cmd) i db),
         ba_available := ba_available (balanceAt k db) - outgoing (cm_tenant cmd) k (linesOf (cm_tenant cmd) i db),
         ba_in_transit := ba_in_transit (balanceAt k db) + incoming (cm_tenant cmd) k (linesOf (cm_tenant cmd) i db)\<rparr>" for k
    using E(3) [of k] by (simp add: shiftBalance_def dispatched(2) algebra_simps)
  ultimately show ?thesis
    unfolding Let_def using dispatched(1-5) E(2) D(1) by auto
qed simp

theorem dispatchTransfer_effect_witness:
  "\<exists>d db'. dispatchTransfer plainDigest originCommand 62 transferDb = Inr ((d, False), db') \<and>
     ba_available (balanceAt (1, 7, 3) db') = 3000 \<and> ba_in_transit (balanceAt (1, 7, 5) db') = 2000"
proof -
  obtain d db' where run: "dispatchTransfer plainDigest originCommand 62 transferDb = Inr ((d, False), db')"
    using dispatch_runs by (auto split: sum.splits prod.splits)
  have flow: "outgoing 1 (1, 7, 3) (linesOf 1 62 transferDb) = 2000" "incoming 1 (1, 7, 5) (linesOf 1 62 transferDb) = 2000"
    "ba_available (balanceAt (1, 7, 3) transferDb) = 5000" "ba_in_transit (balanceAt (1, 7, 5) transferDb) = 0"
    "cm_tenant originCommand = 1"
    by code_simp+
  have at: "ba_available (balanceAt k db') = ba_available (balanceAt k transferDb) - outgoing 1 k (linesOf 1 62 transferDb)"
    "ba_in_transit (balanceAt k db') = ba_in_transit (balanceAt k transferDb) + incoming 1 k (linesOf 1 62 transferDb)" for k
    using dispatchTransfer_effect [OF run] unfolding Let_def flow(5) by (auto simp del: split_paired_All)
  show ?thesis
    using at(1) [of "(1, 7, 3)"] at(2) [of "(1, 7, 5)"] flow(1-4)
    by (intro exI [of _ d] exI [of _ db'] conjI run) linarith+
qed

section \<open>receive\<close>

text \<open>C6: A new receipt is made of lines of the transfer, each asked for once with a positive quantity
  that is still pending, and of exactly the normalised quantities of the request. At each destination the
  received quantity leaves transit and becomes available, the discrepancy leaves transit and the total;
  the moved quantity of a product falls by its discrepancies; the lines advance by what was received
  and lost, and the transfer is received when nothing is pending, partially received otherwise.\<close>

theorem receiveTransfer_effect:
  assumes run: "receiveTransfer digest cmd i dto db = Inr ((d, False), db')"
  shows "let t = cm_tenant cmd in \<exists>xs.
     list_all2 (requestedItem t i db) (ed_lines dto) xs \<and> (\<forall>x\<in>set xs. receivable t i db x) \<and> xs \<noteq> [] \<and> distinct (map (\<lambda>x. tr_id (ri_line x)) xs) \<and>
     (\<forall>k. balanceAt k db' = (balanceAt k db)
        \<lparr>ba_quantity := ba_quantity (balanceAt k db) - shortAt t k xs,
         ba_available := ba_available (balanceAt k db) + goodAt t k xs,
         ba_in_transit := ba_in_transit (balanceAt k db) - goodAt t k xs - shortAt t k xs\<rparr>) \<and>
     (\<forall>p. movedOf (t, p) db' = movedOf (t, p) db - sum_where (\<lambda>x. tr_product (ri_line x) = p) ri_discrepancy xs) \<and>
     transfer_lines db' = map (progressed t xs) (transfer_lines db) \<and>
     transfers db' = update_where (\<lambda>r. tf_id r = i \<and> tf_tenant r = t)
       (\<lambda>r. r\<lparr>tf_status := (if isComplete t i db' then TransferReceived else TransferPartiallyReceived)\<rparr>) (transfers db)"
  using run
proof (cases rule: receiveTransfer_Inr)
  case (received h lines xs)
  note R = receiveItems_effect [OF received(10)]
  have "balanceAt k db' = (balanceAt k db)
        \<lparr>ba_quantity := ba_quantity (balanceAt k db) - shortAt (cm_tenant cmd) k xs,
         ba_available := ba_available (balanceAt k db) + goodAt (cm_tenant cmd) k xs,
         ba_in_transit := ba_in_transit (balanceAt k db) - goodAt (cm_tenant cmd) k xs - shortAt (cm_tenant cmd) k xs\<rparr>" for k
    using R(2) [of k] by (simp add: shiftBalance_def algebra_simps)
  moreover have "movedOf (cm_tenant cmd, p) db' = movedOf (cm_tenant cmd, p) db - sum_where (\<lambda>x. tr_product (ri_line x) = p) ri_discrepancy xs" for p
    using R(3) [of "(cm_tenant cmd, p)"] by simp
  ultimately show ?thesis
    unfolding Let_def using received(6-9) R(4) R(6) [unfolded received(2)] by (intro exI [of _ xs] conjI) blast+
qed simp

theorem receiveTransfer_effect_witness:
  "\<exists>d db'. receiveTransfer plainDigest destinationCommand 62 receiveOne dispatchedDb = Inr ((d, False), db') \<and>
     (\<exists>xs. length xs = 1 \<and> transfer_lines db' = map (progressed 1 xs) (transfer_lines dispatchedDb))"
proof -
  obtain d db' where run: "receiveTransfer plainDigest destinationCommand 62 receiveOne dispatchedDb = Inr ((d, False), db')"
    using receive_runs by (auto split: sum.splits prod.splits)
  have len: "length (ed_lines receiveOne) = 1" "cm_tenant destinationCommand = 1" by code_simp+
  show ?thesis
    using receiveTransfer_effect [OF run] run len(1) unfolding Let_def len(2) by (auto dest!: list_all2_lengthD)
qed

section \<open>The state machine\<close>

text \<open>C7: Every successful command on a transfer, other than a replay, is one step of the state
  machine DRAFT to DISPATCHED or CANCELLED, DISPATCHED or PARTIALLY_RECEIVED to PARTIALLY_RECEIVED
  or RECEIVED, for the transfer it names, and leaves the other transfers as they were; a
  cancellation of a transfer that is no longer a draft changes nothing.\<close>

theorem transfer_commands_step:
  assumes inv: "transfer_inv db"
    and run: "(dispatchTransfer digest cmd i db = Inr ((d, again), db') \<or> receiveTransfer digest cmd i dto db = Inr ((d, again), db')) \<and> \<not> again \<or>
      cancelTransfer cmd i db = Inr (d, db')"
  shows "\<exists>h\<in>set (transfers db). tf_id h = i \<and>
     (\<exists>h'\<in>set (transfers db'). tf_id h' = i \<and>
       (transfer_step (tf_status h) (tf_status h') \<or> h' = h \<and> db' = db \<and> tf_status h \<notin> {TransferDraft, TransferDispatched})) \<and>
     (\<forall>r. tf_id r \<noteq> i \<longrightarrow> (r \<in> set (transfers db') \<longleftrightarrow> r \<in> set (transfers db)))"
proof -
  have step: ?thesis if h: "h \<in> set (transfers db)" "tf_id h = i" "tf_tenant h = cm_tenant cmd"
    and hs: "transfers db' = update_where (\<lambda>r. tf_id r = i \<and> tf_tenant r = cm_tenant cmd) u (transfers db)"
    and u: "\<And>r. tf_id (u r) = tf_id r" and s: "transfer_step (tf_status h) (tf_status (u h))" for h u
  proof (rule bexI [OF _ h(1)], intro conjI)
    have "u h \<in> set (transfers db')" unfolding hs set_update_where using h by force
    then show "\<exists>h'\<in>set (transfers db'). tf_id h' = i \<and>
       (transfer_step (tf_status h) (tf_status h') \<or> h' = h \<and> db' = db \<and> tf_status h \<notin> {TransferDraft, TransferDispatched})"
      using h u s by (intro bexI [of _ "u h"]) auto
    show "\<forall>r. tf_id r \<noteq> i \<longrightarrow> (r \<in> set (transfers db') \<longleftrightarrow> r \<in> set (transfers db))"
      unfolding hs set_update_where using u by (auto split: if_splits)
  qed (rule h(2))
  from run consider (dispatch) "dispatchTransfer digest cmd i db = Inr ((d, False), db')"
    | (receive) "receiveTransfer digest cmd i dto db = Inr ((d, False), db')" | (cancel) "cancelTransfer cmd i db = Inr (d, db')" by auto
  then show ?thesis
  proof cases
    case dispatch
    then show ?thesis
    proof (cases rule: dispatchTransfer_Inr)
      case (dispatched h)
      show ?thesis
        by (rule step [OF dispatched(1-3) dispatchDraft_documents(1) [OF dispatched(6), unfolded dispatched(2)]])
          (simp_all add: dispatched(5))
    qed simp
  next
    case receive
    then show ?thesis
    proof (cases rule: receiveTransfer_Inr)
      case (received h lines xs)
      show ?thesis
        by (rule step [OF received(1-3) receiveItems_effect(6) [OF received(10), unfolded received(2)]]) (use received(5) in auto)
    qed simp
  next
    case cancel
    obtain h where h: "h \<in> set (transfers db)" "tf_id h = i" "tf_tenant h = cm_tenant cmd" "tf_status h \<noteq> TransferDispatched"
      and db': "db' = (if tf_status h = TransferDraft then db\<lparr>transfers := update_where (\<lambda>r. tf_id r = i \<and> tf_tenant r = cm_tenant cmd)
           (\<lambda>r. r\<lparr>tf_status := TransferCancelled\<rparr>) (transfers db)\<rparr> else db)"
      by (rule cancelTransfer_Inr [OF cancel]) blast
    show ?thesis
    proof (cases "tf_status h = TransferDraft")
      case True
      show ?thesis by (rule step [OF h(1-3), of "\<lambda>r. r\<lparr>tf_status := TransferCancelled\<rparr>"]) (simp_all add: db' True)
    next
      case False
      then show ?thesis using h db' by auto
    qed
  qed
qed

lemma transferDb_inv: "transfer_inv transferDb"
proof -
  have "env_uuid transferDb = (\<lambda>n. 60 + n)" by (simp add: transferDb_def sampleDb_def)
  then have "inj (env_uuid transferDb)" "issued transferDb = (\<lambda>n. 60 + n) ` {..<5}"
    by (auto simp: inj_def issued_def transferDb_def)
  moreover have "{62, 63} \<subseteq> (\<lambda>n::nat. 60 + n) ` {..<5}" by (auto simp: image_iff intro: bexI [of _ 2] bexI [of _ 3])
  ultimately show ?thesis
    by (simp add: transfer_inv_def) (simp add: transferDb_def line_check_def status_ok_def transferLines_def)
qed

theorem transfer_commands_step_witness:
  "\<exists>d db' h. dispatchTransfer plainDigest originCommand 62 transferDb = Inr ((d, False), db') \<and>
     h \<in> set (transfers db') \<and> tf_id h = 62 \<and> tf_status h \<in> {TransferDispatched, TransferCancelled}"
proof -
  obtain d db' where run: "dispatchTransfer plainDigest originCommand 62 transferDb = Inr ((d, False), db')"
    using dispatch_runs by (auto split: sum.splits prod.splits)
  have draft: "\<forall>h\<in>set (transfers transferDb). tf_status h = TransferDraft" by (simp add: transferDb_def)
  obtain h h' where "h \<in> set (transfers transferDb)" "h' \<in> set (transfers db')" "tf_id h' = 62"
    "transfer_step (tf_status h) (tf_status h') \<or> tf_status h \<notin> {TransferDraft, TransferDispatched}"
    using transfer_commands_step [OF transferDb_inv, of plainDigest originCommand 62 d False db'] run by blast
  then show ?thesis using run draft by (intro exI [of _ d] exI [of _ db'] exI [of _ h']) auto
qed

section \<open>Where the code does not do what it means to\<close>

text \<open>A transfer that has been received, in part or in full, can be ``cancelled'': the command
  rejects only the status DISPATCHED and answers with the unchanged document for every later one.\<close>

theorem cancel_accepts_received:
  assumes "List.find (\<lambda>h. tf_id h = i \<and> tf_tenant h = cm_tenant cmd \<and> tf_origin h = cm_warehouse cmd) (transfers db) = Some h"
    and "tf_status h \<in> {TransferPartiallyReceived, TransferReceived}" and "findDocument (cm_tenant cmd) i db = Some d"
  shows "cancelTransfer cmd i db = Inr (d, db)"
  using assms by (auto simp: cancelTransfer_def bindM_def readM_def requireM_def returnM_def thenM_def ensureM_def whenM_def documentOf_def)

definition receivedDb :: inv_db where
  "receivedDb = dispatchedDb\<lparr>transfers := map (\<lambda>h. h\<lparr>tf_status := TransferReceived\<rparr>) (transfers dispatchedDb)\<rparr>"

theorem cancel_accepts_received_witness:
  "\<exists>d. cancelTransfer originCommand 62 receivedDb = Inr (d, receivedDb) \<and> tf_status (dc_header d) = TransferReceived"
proof -
  have h: "List.find (\<lambda>h. tf_id h = 62 \<and> tf_tenant h = cm_tenant originCommand \<and> tf_origin h = cm_warehouse originCommand) (transfers receivedDb)
      = Some (hd (transfers receivedDb))" "tf_status (hd (transfers receivedDb)) \<in> {TransferPartiallyReceived, TransferReceived}"
    by (simp_all add: receivedDb_def dispatchedDb_def transferDb_def originCommand_def)
  have "case findDocument (cm_tenant originCommand) 62 receivedDb of None \<Rightarrow> False | Some d \<Rightarrow> tf_status (dc_header d) = TransferReceived"
    by code_simp
  then obtain d where d: "findDocument (cm_tenant originCommand) 62 receivedDb = Some d" "tf_status (dc_header d) = TransferReceived"
    by (auto split: option.splits)
  show ?thesis using cancel_accepts_received [OF h d(1)] d(2) by blast
qed

text \<open>Units in transit can be sold under FIFO. Their cost layers are created at the destination by
  the dispatch and are consumed by any exit there, whatever units it takes; on a destination with
  two units in transit and two of its own, an exit of two units is accepted, and the receipt with one lost unit
  that would have been accepted before it is refused for lack of layers.\<close>

theorem exit_consumes_layers_in_transit:
  "(case receiveTransfer plainDigest destinationCommand 62 receiveOne busyDb of Inl _ \<Rightarrow> False | Inr _ \<Rightarrow> True) \<and>
   (case createMovement plainDigest (destinationCommand\<lparr>cm_key := ''e1''\<rparr>) exitThere busyDb of Inl _ \<Rightarrow> False
    | Inr ((m, again), db') \<Rightarrow> (case receiveTransfer plainDigest destinationCommand 62 receiveOne db' of
        Inl e \<Rightarrow> e = InventoryFifoLayerShortageError | Inr _ \<Rightarrow> False))"
  by (rule conjI [OF busy_receive busy_exit])

end
