(* ===== verification/Reservations.thy ===== *)
theory Reservations
  imports TransferLaws
begin

text \<open>
  Product reservations for customers, after \<open>src/reservations/product-reservation.repository.ts\<close>
  and its service: a reservation moves the quantities of its lines from available to reserved at
  one location; it is released by a user, expires, or is consumed by a sale (not modelled here).

  \<open>digest\<close> stands for \<open>createHash('sha256')\<close> on the serialised object; \<open>collate\<close> gives the
  collation key by which \<open>localeCompare\<close> compares serial numbers. An id prints as its decimal
  text; the order of ids is the order of their texts, so \<open>localeCompare\<close> on product ids and
  \<open>ORDER BY product_id\<close> are the order of ids. Users are not modelled, so the join with the
  table of users is left out.
\<close>

section \<open>Requests and documents\<close>

record reservation_line_dto =
  nd_product :: id
  nd_quantity :: string
  nd_serials :: "string list option"

record reservation_dto =
  vd_customer :: id
  vd_location :: id
  vd_hours :: nat
  vd_lines :: "reservation_line_dto list"

record canonical_line =
  cl_product :: id
  cl_quantity :: string
  cl_serials :: "string list"

record reservation_document =
  do_header :: reservation_row
  do_lines :: "reservation_line_row list"

section \<open>Reads\<close>

definition reservationUnits :: "string \<Rightarrow> inv_error + int" where
  "reservationUnits value = (case reservation_units value of None \<Rightarrow> Inl (Failure ''SyntaxError'') | Some u \<Rightarrow> Inr u)"

text \<open>The inner joins of \<open>rows\<close>.\<close>

definition reservationJoined :: "inv_db \<Rightarrow> reservation_row \<Rightarrow> bool" where
  "reservationJoined db r \<longleftrightarrow>
     (\<exists>c\<in>set (customers db). cu_id c = rv_customer r \<and> cu_tenant c = rv_tenant r) \<and>
     (\<exists>b\<in>set (branches db). br_id b = rv_branch r \<and> br_tenant b = rv_tenant r) \<and>
     (\<exists>w\<in>set (warehouses db). wh_id w = rv_warehouse r \<and> wh_tenant w = rv_tenant r) \<and>
     (\<exists>l\<in>set (locations db). lo_id l = rv_location r \<and> lo_tenant l = rv_tenant r)"

definition reservationRows :: "(reservation_row \<Rightarrow> bool) \<Rightarrow> inv_db \<Rightarrow> reservation_row list" where
  "reservationRows sel db =
     rev (sort_key (\<lambda>r. (rv_created_at r, rv_id r)) (filter (\<lambda>r. sel r \<and> reservationJoined db r) (reservations db)))"

definition reservationData :: "inv_db \<Rightarrow> reservation_row \<Rightarrow> reservation_document" where
  "reservationData db r = \<lparr>do_header = r, do_lines = sort_key rn_number
     (filter (\<lambda>l. rn_reservation l = rv_id r \<and> rn_tenant l = rv_tenant r \<and> selectProduct (rn_tenant l) (rn_product l) db \<noteq> None)
       (reservation_lines db))\<rparr>"

definition findReservationByKey :: "id \<Rightarrow> string \<Rightarrow> inv_db \<Rightarrow> (reservation_document \<times> string) option" where
  "findReservationByKey t key db =
     (case reservationRows (\<lambda>r. rv_tenant r = t \<and> rv_key r = key) db of
        [] \<Rightarrow> None | r # _ \<Rightarrow> Some (reservationData db r, rv_fingerprint r))"

definition findReservationById :: "id \<Rightarrow> id \<Rightarrow> inv_db \<Rightarrow> reservation_document option" where
  "findReservationById t i db =
     (case reservationRows (\<lambda>r. rv_tenant r = t \<and> rv_id r = i) db of [] \<Rightarrow> None | r # _ \<Rightarrow> Some (reservationData db r))"

definition listReservations :: "id \<Rightarrow> id \<Rightarrow> reservation_document list act" where
  "listReservations t branch =
     readM (\<lambda>db. map (reservationData db) (reservationRows (\<lambda>r. rv_tenant r = t \<and> rv_branch r = branch) db))"

section \<open>create\<close>

definition canonicalLine :: "(string \<Rightarrow> string) \<Rightarrow> reservation_line_dto \<Rightarrow> inv_error + canonical_line" where
  "canonicalLine collate line =
     bindE (reservationUnits (nd_quantity line)) (\<lambda>u.
       Inr \<lparr>cl_product = nd_product line, cl_quantity = reservation_decimal u,
            cl_serials = sort_key collate (map trim (case nd_serials line of None \<Rightarrow> [] | Some s \<Rightarrow> s))\<rparr>)"

definition canonicalLines :: "(string \<Rightarrow> string) \<Rightarrow> reservation_dto \<Rightarrow> inv_error + canonical_line list" where
  "canonicalLines collate dto =
     bindE (mapE (canonicalLine collate) (vd_lines dto)) (\<lambda>lines. Inr (sort_key cl_product lines))"

definition reservationRequest :: "reservation_dto \<Rightarrow> canonical_line list \<Rightarrow> request" where
  "reservationRequest dto lines = ReservationRequest (vd_customer dto) (vd_location dto) (vd_hours dto)
     (map (\<lambda>l. (cl_product l, cl_quantity l, cl_serials l)) lines)"

definition replayReservation :: "string \<Rightarrow> reservation_document \<times> string \<Rightarrow> (reservation_document \<times> bool) act" where
  "replayReservation fingerprint stored =
     thenM (ensureM ProductReservationIdempotencyConflictError (snd stored = fingerprint)) (returnM (fst stored, True))"

definition assertReservationTarget :: "id \<Rightarrow> id \<Rightarrow> id \<Rightarrow> reservation_dto \<Rightarrow> unit act" where
  "assertReservationTarget t branch warehouse dto =
     bindM (readM (\<lambda>db.
        (\<exists>b\<in>set (branches db). br_id b = branch \<and> br_tenant b = t \<and> br_active b) \<and>
        (\<exists>w\<in>set (warehouses db). wh_id w = warehouse \<and> wh_branch w = branch \<and> wh_tenant w = t \<and> wh_active w) \<and>
        (\<exists>l\<in>set (locations db). lo_id l = vd_location dto \<and> lo_warehouse l = warehouse \<and> lo_tenant l = t \<and> lo_active l) \<and>
        (\<exists>c\<in>set (customers db). cu_id c = vd_customer dto \<and> cu_tenant c = t \<and> cu_active c)))
       (ensureM ProductReservationTargetNotFoundError)"

text \<open>\<open>ck_product_reservations_expiry\<close> and \<open>ck_product_reservations_closure\<close>\<close>

definition reservation_check :: "reservation_row \<Rightarrow> bool" where
  "reservation_check r \<longleftrightarrow> int (rv_created_at r) < rv_expires_at r \<and>
     (case rv_status r of
        ReservationActive \<Rightarrow> rv_closed_by r = None \<and> rv_closed_at r = None \<and> rv_closure_reason r = None \<and>
          rv_closed_key r = None \<and> rv_closed_fingerprint r = None \<and> rv_sale r = None
      | ReservationConsumed \<Rightarrow> rv_closed_by r \<noteq> None \<and> rv_closed_at r \<noteq> None \<and> rv_closure_reason r \<noteq> None \<and>
          rv_closed_key r \<noteq> None \<and> rv_closed_fingerprint r \<noteq> None \<and> rv_sale r \<noteq> None
      | _ \<Rightarrow> rv_closed_by r \<noteq> None \<and> rv_closed_at r \<noteq> None \<and> rv_closure_reason r \<noteq> None \<and>
          rv_closed_key r \<noteq> None \<and> rv_closed_fingerprint r \<noteq> None \<and> rv_sale r = None)"

text \<open>The primary key and the unique keys \<open>(tenant_id, reservation_number)\<close> and
  \<open>(tenant_id, idempotency_key)\<close>.\<close>

definition insertReservation :: "reservation_row \<Rightarrow> unit act" where
  "insertReservation r =
     bindM (readM reservations) (\<lambda>rows.
     thenM (ensureM DuplicateEntry (\<forall>x\<in>set rows. rv_id x \<noteq> rv_id r \<and>
        \<not> (rv_tenant x = rv_tenant r \<and> (rv_number x = rv_number r \<or> rv_key x = rv_key r))))
     (thenM (ensureM CheckViolated (reservation_check r))
       (writeM (\<lambda>db. db\<lparr>reservations := reservations db @ [r]\<rparr>))))"

text \<open>Unique \<open>(reservation_id, line_number)\<close> and \<open>(reservation_id, product_id)\<close>.\<close>

definition insertReservationLine :: "reservation_line_row \<Rightarrow> unit act" where
  "insertReservationLine l =
     bindM (readM reservation_lines) (\<lambda>rows.
     thenM (ensureM DuplicateEntry (\<forall>x\<in>set rows. \<not> (rn_reservation x = rn_reservation l \<and>
        (rn_number x = rn_number l \<or> rn_product x = rn_product l))))
     (thenM (ensureM CheckViolated (0 < rn_quantity l))
       (writeM (\<lambda>db. db\<lparr>reservation_lines := reservation_lines db @ [l]\<rparr>))))"

definition reservationKey :: "string \<Rightarrow> id \<Rightarrow> nat \<Rightarrow> string" where
  "reservationKey prefix i number = prefix @ string_of_nat i @ '':'' @ string_of_nat number"

definition reserveMovement :: "command \<Rightarrow> reservation_row \<Rightarrow> reservation_line_row \<Rightarrow> int \<Rightarrow> id \<Rightarrow> nat \<Rightarrow> movement_row" where
  "reserveMovement cmd r l resulting i now =
     (movementRow i now (cm_tenant cmd, rn_product l, rv_location r) STATE_TRANSITION 0 resulting)
       \<lparr>mv_from := Some AVAILABLE, mv_to := Some RESERVED, mv_state_quantity := Some (rn_quantity l), mv_reason := ''Reserva de cliente'',
        mv_reference := Some (rv_number r), mv_key := reservationKey ''reservation:'' (rv_id r) (rn_number l),
        mv_fingerprint := rv_fingerprint r, mv_user := cm_user cmd, mv_reservation := Some (rv_id r), mv_reservation_line := Some (rn_id l)\<rparr>"

definition reserveLine :: "command \<Rightarrow> reservation_row \<Rightarrow> nat \<times> canonical_line \<Rightarrow> unit act" where
  "reserveLine cmd r item =
     (let (index, line) = item; t = cm_tenant cmd; k = (t, cl_product line, rv_location r) in
      bindM (liftE (reservationUnits (cl_quantity line))) (\<lambda>units.
      thenM (ensureM ProductReservationTargetNotFoundError (\<not> units \<le> 0))
      (bindM (readM (\<lambda>db. \<exists>p\<in>set (products db). pr_id p = cl_product line \<and> pr_tenant p = t \<and> pr_active p \<and> \<not> pr_has_variants p)) (\<lambda>product.
      thenM (ensureM ProductReservationTargetNotFoundError product)
      (thenM (ensureBalance k)
      (bindM (lockBalance k) (\<lambda>balance.
      thenM (ensureM (ProductReservationInsufficientStockError (cl_product line)) (\<not> ba_available balance < units))
      (bindM newRow (\<lambda>(lineId, _).
      let l = \<lparr>rn_id = lineId, rn_tenant = t, rn_reservation = rv_id r, rn_number = index + 1, rn_product = cl_product line,
                rn_quantity = units, rn_serials = cl_serials line\<rparr> in
      thenM (insertReservationLine l)
      (thenM (updateBalance k (\<lambda>b. b\<lparr>ba_available := ba_available balance - units, ba_reserved := ba_reserved balance + units\<rparr>))
      (bindM newRow (\<lambda>(i, now).
       postMovement (reserveMovement cmd r l (ba_quantity balance) i now) noLotOptions
         (noSerialOptions\<lparr>so_serials := Some (cl_serials line)\<rparr>)))))))))))))"

text \<open>\<open>Date.now()\<close> counts milliseconds.\<close>

definition expiry :: "nat \<Rightarrow> nat \<Rightarrow> int" where
  "expiry now hours = int now div 1000 * 1000 + int hours * 60 * 60 * 1000000"

definition reservationNumber :: "id \<Rightarrow> string" where
  "reservationNumber i = ''R-'' @ take 12 (string_of_nat i)"

definition newReservation :: "command \<Rightarrow> id \<Rightarrow> reservation_dto \<Rightarrow> string \<Rightarrow> id \<Rightarrow> nat \<Rightarrow> reservation_row" where
  "newReservation cmd branch dto fingerprint i now =
     \<lparr>rv_id = i, rv_tenant = cm_tenant cmd, rv_branch = branch, rv_warehouse = cm_warehouse cmd, rv_location = vd_location dto,
      rv_customer = vd_customer dto, rv_number = reservationNumber i, rv_status = ReservationActive,
      rv_expires_at = expiry now (vd_hours dto), rv_user = cm_user cmd, rv_key = cm_key cmd, rv_fingerprint = fingerprint,
      rv_created_at = now, rv_closed_by = None, rv_closed_at = None, rv_closed_key = None, rv_closed_fingerprint = None,
      rv_closure_reason = None, rv_sale = None\<rparr>"

definition reserveLines :: "command \<Rightarrow> id \<Rightarrow> reservation_dto \<Rightarrow> canonical_line list \<Rightarrow> string \<Rightarrow> (reservation_document \<times> bool) act" where
  "reserveLines cmd branch dto lines fingerprint =
     bindM newRow (\<lambda>(i, now).
     let r = newReservation cmd branch dto fingerprint i now in
     thenM (insertReservation r)
     (thenM (forM (reserveLine cmd r) (List.enumerate 0 lines))
     (bindM (readM (findReservationById (cm_tenant cmd) i)) (\<lambda>found.
      bindM (requireM (Failure ''CREATED_RESERVATION_NOT_FOUND'') found) (\<lambda>d. returnM (d, False))))))"

definition reservationTransaction :: "command \<Rightarrow> id \<Rightarrow> reservation_dto \<Rightarrow> canonical_line list \<Rightarrow> string \<Rightarrow> (reservation_document \<times> bool) act" where
  "reservationTransaction cmd branch dto lines fingerprint =
     bindM (readM (findReservationByKey (cm_tenant cmd) (cm_key cmd))) (\<lambda>existing.
     case existing of Some stored \<Rightarrow> replayReservation fingerprint stored
     | None \<Rightarrow> thenM (assertReservationTarget (cm_tenant cmd) branch (cm_warehouse cmd) dto)
         (reserveLines cmd branch dto lines fingerprint))"

definition createReservation :: "(request \<Rightarrow> string) \<Rightarrow> (string \<Rightarrow> string) \<Rightarrow> command \<Rightarrow> id \<Rightarrow> reservation_dto \<Rightarrow> (reservation_document \<times> bool) act" where
  "createReservation digest collate cmd branch dto =
     bindM (liftE (canonicalLines collate dto)) (\<lambda>lines.
     let fingerprint = digest (reservationRequest dto lines) in
     catchM (\<lambda>e. e = DuplicateEntry) (reservationTransaction cmd branch dto lines fingerprint)
       (\<lambda>e. bindM (readM (findReservationByKey (cm_tenant cmd) (cm_key cmd))) (\<lambda>found.
        case found of None \<Rightarrow> throwM e | Some stored \<Rightarrow> replayReservation fingerprint stored)))"

text \<open>The service checks the key and that every product appears once.\<close>

definition createProductReservation ::
  "(request \<Rightarrow> string) \<Rightarrow> (string \<Rightarrow> string) \<Rightarrow> command \<Rightarrow> string option \<Rightarrow> id \<Rightarrow> reservation_dto \<Rightarrow> (reservation_document \<times> bool) act" where
  "createProductReservation digest collate cmd value branch dto =
     bindM (assertIdempotencyKey value) (\<lambda>key.
     thenM (ensureM DuplicateReservationProduct (distinct (map nd_product (vd_lines dto))))
       (createReservation digest collate (cmd\<lparr>cm_key := key\<rparr>) branch dto))"

section \<open>release and expireDue\<close>

record closing =
  cz_reservation :: id
  cz_key :: string
  cz_reason :: string
  cz_status :: reservation_status
  cz_fingerprint :: string

definition releaseMovement :: "command \<Rightarrow> closing \<Rightarrow> reservation_row \<Rightarrow> nat \<Rightarrow> reservation_line_row \<Rightarrow> int \<Rightarrow> id \<Rightarrow> nat \<Rightarrow> movement_row" where
  "releaseMovement cmd c r index l resulting i now =
     (movementRow i now (cm_tenant cmd, rn_product l, rv_location r) STATE_TRANSITION 0 resulting)
       \<lparr>mv_from := Some RESERVED, mv_to := Some AVAILABLE, mv_state_quantity := Some (rn_quantity l), mv_reason := cz_reason c,
        mv_reference := Some (string_of_nat (cz_reservation c)), mv_key := reservationKey ''reservation-close:'' (cz_reservation c) (index + 1),
        mv_fingerprint := cz_fingerprint c, mv_user := cm_user cmd, mv_reservation := Some (rv_id r), mv_reservation_line := Some (rn_id l)\<rparr>"

definition closeLine :: "command \<Rightarrow> closing \<Rightarrow> reservation_row \<Rightarrow> nat \<times> reservation_line_row \<Rightarrow> unit act" where
  "closeLine cmd c r item =
     (let (index, l) = item; k = (cm_tenant cmd, rn_product l, rv_location r) in
      bindM (readM (selectBalance k)) (\<lambda>found.
      bindM (requireM (ProductReservationInsufficientStockError (rn_product l)) found) (\<lambda>balance.
      thenM (ensureM (ProductReservationInsufficientStockError (rn_product l)) (\<not> ba_reserved balance < rn_quantity l))
      (thenM (updateBalance k (\<lambda>b. b\<lparr>ba_available := ba_available balance + rn_quantity l, ba_reserved := ba_reserved balance - rn_quantity l\<rparr>))
      (bindM newRow (\<lambda>(i, now).
       postMovement (releaseMovement cmd c r index l (ba_quantity balance) i now) noLotOptions
         (noSerialOptions\<lparr>so_serials := Some (rn_serials l)\<rparr>)))))))"

text \<open>Unique \<open>(tenant_id, closed_idempotency_key)\<close>, and the \<open>CHECK\<close>.\<close>

definition markClosed :: "command \<Rightarrow> closing \<Rightarrow> id \<Rightarrow> unit act" where
  "markClosed cmd c i =
     bindM nowM (\<lambda>now.
     let hit = (\<lambda>r. rv_id r = i \<and> rv_tenant r = cm_tenant cmd \<and> rv_status r = ReservationActive);
         upd = (\<lambda>r. r\<lparr>rv_status := cz_status c, rv_closed_by := Some (cm_user cmd), rv_closed_at := Some now,
           rv_closed_key := Some (cz_key c), rv_closed_fingerprint := Some (cz_fingerprint c), rv_closure_reason := Some (cz_reason c)\<rparr>) in
     bindM (readM reservations) (\<lambda>rows.
     thenM (ensureM CheckViolated (\<forall>r\<in>set rows. hit r \<longrightarrow> reservation_check (upd r)))
     (thenM (ensureM DuplicateEntry (\<forall>r\<in>set rows. rv_id r \<noteq> i \<longrightarrow> \<not> (rv_tenant r = cm_tenant cmd \<and> rv_closed_key r = Some (cz_key c))))
       (writeM (\<lambda>db. db\<lparr>reservations := update_where hit upd (reservations db)\<rparr>)))))"

definition closeActive :: "command \<Rightarrow> closing \<Rightarrow> reservation_row \<Rightarrow> (reservation_document \<times> bool) act" where
  "closeActive cmd c r =
     bindM (readM (\<lambda>db. sort_key rn_product (filter (\<lambda>l. rn_reservation l = rv_id r \<and> rn_tenant l = cm_tenant cmd) (reservation_lines db)))) (\<lambda>lines.
     thenM (forM (closeLine cmd c r) (List.enumerate 0 lines))
     (thenM (markClosed cmd c (rv_id r))
     (bindM (readM (findReservationById (cm_tenant cmd) (rv_id r))) (\<lambda>found.
      bindM (requireM (Failure ''CLOSED_RESERVATION_NOT_FOUND'') found) (\<lambda>d. returnM (d, False))))))"

definition closeReservation :: "command \<Rightarrow> id \<Rightarrow> closing \<Rightarrow> (reservation_document \<times> bool) act" where
  "closeReservation cmd branch c =
     bindM (readM (\<lambda>db. List.find (\<lambda>r. rv_id r = cz_reservation c \<and> rv_tenant r = cm_tenant cmd \<and> rv_branch r = branch) (reservations db))) (\<lambda>found.
     bindM (requireM ProductReservationTargetNotFoundError found) (\<lambda>r.
     if rv_status r \<noteq> ReservationActive
     then if rv_status r = cz_status c \<and> rv_closed_key r = Some (cz_key c) \<and> rv_closed_fingerprint r = Some (cz_fingerprint c)
       then bindM (readM (findReservationById (cm_tenant cmd) (rv_id r))) (\<lambda>stored.
            bindM (requireM (Failure ''CLOSED_RESERVATION_NOT_FOUND'') stored) (\<lambda>d. returnM (d, True)))
       else throwM (ProductReservationNotActiveError (rv_status r))
     else closeActive cmd c r))"

definition closeFingerprint :: "(request \<Rightarrow> string) \<Rightarrow> reservation_status \<Rightarrow> string \<Rightarrow> string" where
  "closeFingerprint digest status reason = digest (CloseRequest status reason)"

definition releaseReservation :: "(request \<Rightarrow> string) \<Rightarrow> command \<Rightarrow> id \<Rightarrow> id \<Rightarrow> string \<Rightarrow> (reservation_document \<times> bool) act" where
  "releaseReservation digest cmd branch i reason =
     catchM (\<lambda>e. e = DuplicateEntry)
       (closeReservation cmd branch \<lparr>cz_reservation = i, cz_key = cm_key cmd, cz_reason = reason, cz_status = ReservationReleased,
          cz_fingerprint = closeFingerprint digest ReservationReleased reason\<rparr>)
       (\<lambda>_. throwM ProductReservationIdempotencyConflictError)"

definition releaseProductReservation :: "(request \<Rightarrow> string) \<Rightarrow> command \<Rightarrow> string option \<Rightarrow> id \<Rightarrow> id \<Rightarrow> string \<Rightarrow> (reservation_document \<times> bool) act" where
  "releaseProductReservation digest cmd value branch i reason =
     bindM (assertIdempotencyKey value) (\<lambda>key. releaseReservation digest (cmd\<lparr>cm_key := key\<rparr>) branch i reason)"

definition expireReason :: string where
  "expireReason = ''Vencimiento autom'' @ [CHR 0xE1] @ ''tico''"

definition expiration :: "(request \<Rightarrow> string) \<Rightarrow> id \<Rightarrow> closing" where
  "expiration digest i = \<lparr>cz_reservation = i, cz_key = ''expire:'' @ string_of_nat i, cz_reason = expireReason,
     cz_status = ReservationExpired, cz_fingerprint = closeFingerprint digest ReservationExpired expireReason\<rparr>"

definition dueReservations :: "id \<Rightarrow> id \<Rightarrow> inv_db \<Rightarrow> id list" where
  "dueReservations t branch db =
     map rv_id (sort_key (\<lambda>r. (rv_expires_at r, rv_id r))
       (filter (\<lambda>r. rv_tenant r = t \<and> rv_branch r = branch \<and> rv_status r = ReservationActive \<and> rv_expires_at r \<le> int (env_clock db (ticks db)))
         (reservations db)))"

text \<open>Each reservation is closed in its own transaction: what is done stays done when a later one
  fails. The result is the error, or the documents of the expired reservations, with the state.\<close>

fun expireEach :: "(request \<Rightarrow> string) \<Rightarrow> command \<Rightarrow> id \<Rightarrow> id list \<Rightarrow> inv_db \<Rightarrow> (inv_error + reservation_document list) \<times> inv_db" where
  "expireEach digest cmd branch [] db = (Inr [], db)"
| "expireEach digest cmd branch (i # is) db =
     (case commit (closeReservation cmd branch (expiration digest i)) db of
        (Inl (ProductReservationNotActiveError status), db') \<Rightarrow> expireEach digest cmd branch is db'
      | (Inl e, db') \<Rightarrow> (Inl e, db')
      | (Inr (d, replayed), db') \<Rightarrow>
          (case expireEach digest cmd branch is db' of
             (Inl e, db'') \<Rightarrow> (Inl e, db'')
           | (Inr ds, db'') \<Rightarrow> (Inr (if replayed then ds else d # ds), db'')))"

definition expireDue :: "(request \<Rightarrow> string) \<Rightarrow> command \<Rightarrow> id \<Rightarrow> inv_db \<Rightarrow> (inv_error + reservation_document list) \<times> inv_db" where
  "expireDue digest cmd branch db = expireEach digest cmd branch (dueReservations (cm_tenant cmd) branch db) db"

end
