(* ===== verification/ReservationLaws.thy ===== *)
theory ReservationLaws
  imports Reservations "HOL-Library.Multiset"
begin

text \<open>
  The laws of reservations (theory \<open>Reservations\<close>): what reserving and releasing a line does to
  the balances, the loops over the lines, the invariant of the tables, and the contract of an
  idempotent command for \<open>create\<close>.
\<close>

section \<open>One line\<close>

definition shiftReserved :: "int \<Rightarrow> balance_row \<Rightarrow> balance_row" where
  "shiftReserved u b = b\<lparr>ba_available := ba_available b - u, ba_reserved := ba_reserved b + u\<rparr>"

lemma shiftReserved_simps [simp]:
  "shiftReserved 0 b = b" "shiftReserved u (shiftReserved v b) = shiftReserved (v + u) b" "balance_key (shiftReserved u b) = balance_key b"
  "ba_quantity (shiftReserved u b) = ba_quantity b" "ba_available (shiftReserved u b) = ba_available b - u"
  "ba_tenant (shiftReserved u b) = ba_tenant b" "ba_product (shiftReserved u b) = ba_product b" "ba_location (shiftReserved u b) = ba_location b"
  "ba_reserved (shiftReserved u b) = ba_reserved b + u"
  by (simp_all add: shiftReserved_def algebra_simps)

text \<open>What the lines hold of the balance \<open>k\<close> at the location.\<close>

definition heldAt :: "id \<Rightarrow> id \<Rightarrow> id \<times> id \<times> id \<Rightarrow> reservation_line_row list \<Rightarrow> int" where
  "heldAt t loc k ls = sum_where (\<lambda>l. (t, rn_product l, loc) = k) rn_quantity ls"

lemma heldAt_simps [simp]: "heldAt t loc k [] = 0"
  "heldAt t loc k (l # ls) = (if (t, rn_product l, loc) = k then rn_quantity l else 0) + heldAt t loc k ls"
  by (simp_all add: heldAt_def)

lemma post_new_view:
  assumes "bindM newRow (\<lambda>(i, now). postMovement (m i now) lo so) db = Inr (x, db')" "posting_view f"
    "\<And>db x. f (db\<lparr>movements := x\<rparr>) = f db"
  shows "f db' = f db"
  using assms(1) postMovement_view [OF _ assms(2)] posting_viewD(1) [OF assms(2)] assms(3) by (auto simp: bindM_Inr)

text \<open>Moving units between available and reserved and posting the transition.\<close>

lemma transition_step:
  assumes b: "selectBalance K db = Some b"
    and U: "updateBalance K (\<lambda>b'. b'\<lparr>ba_available := ba_available b - u, ba_reserved := ba_reserved b + u\<rparr>) db = Inr (y, db1)"
    and P: "bindM newRow (\<lambda>(i, now). postMovement (m i now) lo so) db1 = Inr (x, db')"
    and m: "\<And>i now. mv_id (m i now) = i" "\<And>i now. movement_key (m i now) = K" "\<And>i now. mv_quantity (m i now) = 0"
  shows "stock_inv db \<Longrightarrow> stock_inv db'" "balanceAt k db' = (if k = K then shiftReserved u (balanceAt k db) else balanceAt k db)"
    "movedOf tp db' = movedOf tp db" "posting_view f \<Longrightarrow> (\<And>db x. f (db\<lparr>balances := x\<rparr>) = f db) \<Longrightarrow> (\<And>db x. f (db\<lparr>movements := x\<rparr>) = f db) \<Longrightarrow> f db' = f db"
proof -
  let ?u = "\<lambda>b'. b'\<lparr>ba_available := ba_available b - u, ba_reserved := ba_reserved b + u\<rparr>"
  have keys: "balance_key (?u r) = balance_key r" for r by simp
  have db1: "db1 = db\<lparr>balances := update_where (\<lambda>b. balance_key b = K) ?u (balances db)\<rparr>"
    using U by (simp add: updateBalance_Inr)
  obtain i now where p: "\<And>g. stock_gap g db1 \<Longrightarrow> stock_gap (g(K := g K)) db'"
    "map movementCore (movements db') = map movementCore (movements db1) @ [movementCore (m i now)]" "standing db' = standing db1"
    by (rule post_new [OF P m(1)]) (rule that, simp_all add: m [simplified])
  show "stock_inv db'" if "stock_inv db"
  proof -
    have "stock_gap ((\<lambda>_. 0)(K := 0 + ba_quantity (?u b) - ba_quantity b)) db1"
      using updateBalance_gap [OF U that [unfolded stock_inv_def] b keys] by simp
    from p(1) [OF this] show ?thesis by (simp add: stock_inv_def fun_upd_idem)
  qed
  have same: "balances db' = balances db1" using p(3) by (simp add: standing_def)
  have sel: "selectBalance k db' = (if k = K then Some (shiftReserved u b) else selectBalance k db)"
  proof -
    have "selectBalance k db' = selectBalance k db1" by (simp add: selectBalance_def same)
    then show ?thesis unfolding updateBalance_select [OF U keys] using b selectBalance_row [of k db]
      by (cases "selectBalance k db") (auto simp: shiftReserved_def)
  qed
  show "balanceAt k db' = (if k = K then shiftReserved u (balanceAt k db) else balanceAt k db)"
    unfolding balanceAt_def sel using b by simp
  show "movedOf tp db' = movedOf tp db"
    unfolding posted_moved [OF p(2)] by (simp add: m db1)
  show "f db' = f db" if "posting_view f" "\<And>db x. f (db\<lparr>balances := x\<rparr>) = f db" "\<And>db x. f (db\<lparr>movements := x\<rparr>) = f db"
    using post_new_view [OF P that(1,3)] that(2) by (simp add: db1)
qed

text \<open>The tables that reserving does not write, and those of reservations.\<close>

definition aside where
  "aside db = (documents db, customers db)"

definition reserved where
  "reserved db = (aside db, reservations db, reservation_lines db)"

lemma aside_views [simp]:
  "posting_view aside" "posting_view reserved" "aside (db\<lparr>balances := bs\<rparr>) = aside db" "aside (db\<lparr>ticks := n\<rparr>) = aside db"
  "reserved (db\<lparr>balances := bs\<rparr>) = reserved db" "reserved (db\<lparr>movements := ms\<rparr>) = reserved db" "aside (db\<lparr>reservations := rs\<rparr>) = aside db" "aside (db\<lparr>reservation_lines := ls\<rparr>) = aside db"
  by (simp_all add: view_defs aside_def reserved_def documents_def catalogue_def)

lemma stock_inv_reservations [simp]:
  "stock_inv (db\<lparr>reservations := rs\<rparr>) = stock_inv db" "stock_inv (db\<lparr>reservation_lines := ls\<rparr>) = stock_inv db"
  "balanceAt k (db\<lparr>reservations := rs\<rparr>) = balanceAt k db" "balanceAt k (db\<lparr>reservation_lines := ls\<rparr>) = balanceAt k db"
  "movedOf tp (db\<lparr>reservations := rs\<rparr>) = movedOf tp db" "movedOf tp (db\<lparr>reservation_lines := ls\<rparr>) = movedOf tp db"
  "balanceAt k (db\<lparr>ticks := n\<rparr>) = balanceAt k db" "movedOf tp (db\<lparr>ticks := n\<rparr>) = movedOf tp db"
  by (simp_all add: stock_inv_def stock_gap_def issued_def balanceOf_def movedAt_def movedOf_def valuationQuantity_def balanceAt_def selectBalance_def)

lemma insertReservationLine_Inr:
  "insertReservationLine l db = Inr (x, db') \<longleftrightarrow>
     (\<forall>y\<in>set (reservation_lines db). \<not> (rn_reservation y = rn_reservation l \<and> (rn_number y = rn_number l \<or> rn_product y = rn_product l))) \<and>
     0 < rn_quantity l \<and> db' = db\<lparr>reservation_lines := reservation_lines db @ [l]\<rparr>"
  by (auto simp: insertReservationLine_def runM)

lemma insertReservation_Inr:
  "insertReservation r db = Inr (x, db') \<longleftrightarrow>
     (\<forall>y\<in>set (reservations db). rv_id y \<noteq> rv_id r \<and> \<not> (rv_tenant y = rv_tenant r \<and> (rv_number y = rv_number r \<or> rv_key y = rv_key r))) \<and>
     reservation_check r \<and> db' = db\<lparr>reservations := reservations db @ [r]\<rparr>"
  by (auto simp: insertReservation_def runM)

lemma reserveMovement_simps [simp]:
  "mv_id (reserveMovement cmd r l q i now) = i" "mv_quantity (reserveMovement cmd r l q i now) = 0"
  "mv_tenant (reserveMovement cmd r l q i now) = cm_tenant cmd" "mv_product (reserveMovement cmd r l q i now) = rn_product l"
  "mv_location (reserveMovement cmd r l q i now) = rv_location r"
  by (simp_all add: reserveMovement_def movementRow_def)

lemma releaseMovement_simps [simp]:
  "mv_id (releaseMovement cmd c r n l q i now) = i" "mv_quantity (releaseMovement cmd c r n l q i now) = 0"
  "mv_tenant (releaseMovement cmd c r n l q i now) = cm_tenant cmd" "mv_product (releaseMovement cmd c r n l q i now) = rn_product l"
  "mv_location (releaseMovement cmd c r n l q i now) = rv_location r"
  by (simp_all add: releaseMovement_def movementRow_def)

text \<open>The row that a canonical line becomes.\<close>

definition rowOf :: "id \<Rightarrow> id \<Rightarrow> nat \<times> canonical_line \<Rightarrow> reservation_line_row \<Rightarrow> bool" where
  "rowOf t i item l \<longleftrightarrow> rn_tenant l = t \<and> rn_reservation l = i \<and> rn_number l = fst item + 1 \<and> rn_product l = cl_product (snd item) \<and>
     reservationUnits (cl_quantity (snd item)) = Inr (rn_quantity l) \<and> rn_serials l = cl_serials (snd item) \<and> 0 < rn_quantity l"

lemma reserveLine_effect:
  assumes run: "reserveLine cmd r item db = Inr (x, db')"
  obtains l where "rowOf (cm_tenant cmd) (rv_id r) item l" "rn_quantity l \<le> ba_available (balanceAt (cm_tenant cmd, rn_product l, rv_location r) db)"
    "\<exists>p\<in>set (products db). pr_id p = rn_product l \<and> pr_tenant p = cm_tenant cmd"
    "\<forall>y\<in>set (reservation_lines db). rn_reservation y = rv_id r \<longrightarrow> rn_number y \<noteq> rn_number l \<and> rn_product y \<noteq> rn_product l"
    "reservation_lines db' = reservation_lines db @ [l]" "reservations db' = reservations db" "aside db' = aside db" "stock_inv db \<Longrightarrow> stock_inv db'"
    "\<And>k. balanceAt k db' = shiftReserved (heldAt (cm_tenant cmd) (rv_location r) k [l]) (balanceAt k db)" "\<And>tp. movedOf tp db' = movedOf tp db"
proof -
  obtain index line where item: "item = (index, line)" by (cases item)
  let ?t = "cm_tenant cmd" and ?K = "(cm_tenant cmd, cl_product line, rv_location r)"
  let ?l = "\<lambda>i units. \<lparr>rn_id = i, rn_tenant = ?t, rn_reservation = rv_id r, rn_number = index + 1, rn_product = cl_product line,
                rn_quantity = units, rn_serials = cl_serials line\<rparr>"
  have "\<exists>units db0 b i db1 db2. reservationUnits (cl_quantity line) = Inr units \<and> 0 < units \<and>
      (\<exists>p\<in>set (products db). pr_id p = cl_product line \<and> pr_tenant p = ?t) \<and>
      ensureBalance ?K db = Inr ((), db0) \<and> selectBalance ?K db0 = Some b \<and> units \<le> ba_available b \<and>
      insertReservationLine (?l i units) (db0\<lparr>ticks := Suc (ticks db0)\<rparr>) = Inr ((), db1) \<and>
      updateBalance ?K (\<lambda>b'. b'\<lparr>ba_available := ba_available b - units, ba_reserved := ba_reserved b + units\<rparr>) db1 = Inr ((), db2) \<and>
      bindM newRow (\<lambda>(i', now). postMovement (reserveMovement cmd r (?l i units) (ba_quantity b) i' now) noLotOptions
         (noSerialOptions\<lparr>so_serials := Some (cl_serials line)\<rparr>)) db2 = Inr (x, db')"
    using run unfolding reserveLine_def item Let_def
    by (clarsimp simp: runM not_less not_le) blast
  then obtain units db0 b i db1 db2 where
    units: "reservationUnits (cl_quantity line) = Inr units" "0 < units"
    and product: "\<exists>p\<in>set (products db). pr_id p = cl_product line \<and> pr_tenant p = ?t"
    and E: "ensureBalance ?K db = Inr ((), db0)" and b: "selectBalance ?K db0 = Some b" "units \<le> ba_available b"
    and L: "insertReservationLine (?l i units) (db0\<lparr>ticks := Suc (ticks db0)\<rparr>) = Inr ((), db1)"
    and U: "updateBalance ?K (\<lambda>b'. b'\<lparr>ba_available := ba_available b - units, ba_reserved := ba_reserved b + units\<rparr>) db1 = Inr ((), db2)"
    and P: "bindM newRow (\<lambda>(i', now). postMovement (reserveMovement cmd r (?l i units) (ba_quantity b) i' now) noLotOptions
         (noSerialOptions\<lparr>so_serials := Some (cl_serials line)\<rparr>)) db2 = Inr (x, db')"
    by blast
  note E' = ensureBalance_same [OF E]
  have b1: "selectBalance ?K db1 = Some b" using L b(1) by (simp add: insertReservationLine_Inr selectBalance_def)
  note S = transition_step [OF b1 U P]
  have at: "balanceAt k db1 = balanceAt k db" for k
    using L E'(6) E'(7) [of k] by (cases "k = ?K") (auto simp: insertReservationLine_Inr balanceAt_def selectBalance_def split: option.splits)
  have lines: "reservation_lines db0 = reservation_lines db" "reservations db0 = reservations db" "aside db0 = aside db" "\<And>tp. movedOf tp db0 = movedOf tp db"
    using E by (auto simp: ensureBalance_Inr split: if_splits)
  have R: "reserved db' = reserved db1" by (rule S(4)) simp_all
  have b_at: "b = balanceAt ?K db" using b(1) E'(6) by (simp add: balanceAt_def split: option.splits)
  show ?thesis
  proof (rule that [of "?l i units"])
    show "rowOf ?t (rv_id r) item (?l i units)" by (simp add: rowOf_def item units)
    show "rn_quantity (?l i units) \<le> ba_available (balanceAt (?t, rn_product (?l i units), rv_location r) db)" using b(2) by (simp add: b_at)
    show "\<exists>p\<in>set (products db). pr_id p = rn_product (?l i units) \<and> pr_tenant p = ?t" using product by simp
    show "\<forall>y\<in>set (reservation_lines db). rn_reservation y = rv_id r \<longrightarrow> rn_number y \<noteq> rn_number (?l i units) \<and> rn_product y \<noteq> rn_product (?l i units)"
      using L lines(1) by (auto simp: insertReservationLine_Inr)
    show "reservation_lines db' = reservation_lines db @ [?l i units]" "reservations db' = reservations db" "aside db' = aside db"
      using R L lines by (simp_all add: reserved_def insertReservationLine_Inr)
    show "stock_inv db'" if "stock_inv db"
    proof (rule S(1))
      show "stock_inv db1" using L newRow_inv [OF ensureBalance_inv [OF E that]] by (simp add: insertReservationLine_Inr)
    qed simp_all
    show "balanceAt k db' = shiftReserved (heldAt ?t (rv_location r) k [?l i units]) (balanceAt k db)" for k
      using S(2) [of k] at [of k] by auto
    show "movedOf tp db' = movedOf tp db" for tp
      using S(3) [of tp] L lines(4) by (simp add: insertReservationLine_Inr)
  qed
qed

lemma closeLine_effect:
  assumes run: "closeLine cmd c r item db = Inr (x, db')"
  shows "rn_quantity (snd item) \<le> ba_reserved (balanceAt (cm_tenant cmd, rn_product (snd item), rv_location r) db)"
    "stock_inv db \<Longrightarrow> stock_inv db'" "balanceAt k db' = shiftReserved (- heldAt (cm_tenant cmd) (rv_location r) k [snd item]) (balanceAt k db)"
    "movedOf tp db' = movedOf tp db" "reserved db' = reserved db"
proof -
  obtain n l where item: "item = (n, l)" by (cases item)
  let ?K = "(cm_tenant cmd, rn_product l, rv_location r)"
  have "\<exists>b db1. selectBalance ?K db = Some b \<and> rn_quantity l \<le> ba_reserved b \<and>
      updateBalance ?K (\<lambda>b'. b'\<lparr>ba_available := ba_available b + rn_quantity l, ba_reserved := ba_reserved b - rn_quantity l\<rparr>) db = Inr ((), db1) \<and>
      bindM newRow (\<lambda>(i, now). postMovement (releaseMovement cmd c r n l (ba_quantity b) i now) noLotOptions
         (noSerialOptions\<lparr>so_serials := Some (rn_serials l)\<rparr>)) db1 = Inr (x, db')"
    using run unfolding closeLine_def item Let_def by (clarsimp simp: runM not_less)
  then obtain b db1 where b: "selectBalance ?K db = Some b" "rn_quantity l \<le> ba_reserved b"
    and U: "updateBalance ?K (\<lambda>b'. b'\<lparr>ba_available := ba_available b - - rn_quantity l, ba_reserved := ba_reserved b + - rn_quantity l\<rparr>) db = Inr ((), db1)"
    and P: "bindM newRow (\<lambda>(i, now). postMovement (releaseMovement cmd c r n l (ba_quantity b) i now) noLotOptions
         (noSerialOptions\<lparr>so_serials := Some (rn_serials l)\<rparr>)) db1 = Inr (x, db')"
    by auto
  note S = transition_step [OF b(1) U P]
  show "rn_quantity (snd item) \<le> ba_reserved (balanceAt (cm_tenant cmd, rn_product (snd item), rv_location r) db)"
    using b by (simp add: balanceAt_def item)
  show "stock_inv db \<Longrightarrow> stock_inv db'" by (rule S(1)) simp_all
  show "balanceAt k db' = shiftReserved (- heldAt (cm_tenant cmd) (rv_location r) k [snd item]) (balanceAt k db)"
    using S(2) [of k] by (auto simp: item)
  show "movedOf tp db' = movedOf tp db" by (rule S(3)) simp_all
  show "reserved db' = reserved db" by (rule S(4)) simp_all
qed

section \<open>The loops\<close>

lemma reserveLines_effect:
  assumes "forM (reserveLine cmd r) items db = Inr (x, db')"
  shows "\<exists>ls. list_all2 (rowOf (cm_tenant cmd) (rv_id r)) items ls \<and> reservation_lines db' = reservation_lines db @ ls \<and>
    reservations db' = reservations db \<and> aside db' = aside db \<and> (stock_inv db \<longrightarrow> stock_inv db') \<and> (\<forall>tp. movedOf tp db' = movedOf tp db) \<and>
    (\<forall>k. balanceAt k db' = shiftReserved (heldAt (cm_tenant cmd) (rv_location r) k ls) (balanceAt k db)) \<and>
    (\<forall>l\<in>set ls. rn_quantity l \<le> ba_available (balanceAt (cm_tenant cmd, rn_product l, rv_location r) db) \<and>
       (\<exists>p\<in>set (products db). pr_id p = rn_product l \<and> pr_tenant p = cm_tenant cmd) \<and>
       (\<forall>y\<in>set (reservation_lines db). rn_reservation y = rv_id r \<longrightarrow> rn_product y \<noteq> rn_product l)) \<and> distinct (map rn_product ls)"
  using assms
proof (induction items arbitrary: db)
  case Nil
  then show ?case by simp
next
  case (Cons item items)
  let ?t = "cm_tenant cmd" and ?loc = "rv_location r"
  obtain y db1 where one: "reserveLine cmd r item db = Inr (y, db1)" and rest: "forM (reserveLine cmd r) items db1 = Inr (x, db')"
    using Cons.prems by (auto simp: thenM_Inr)
  obtain l where l: "rowOf ?t (rv_id r) item l" "rn_quantity l \<le> ba_available (balanceAt (?t, rn_product l, ?loc) db)"
    "\<exists>p\<in>set (products db). pr_id p = rn_product l \<and> pr_tenant p = ?t"
    "\<forall>y\<in>set (reservation_lines db). rn_reservation y = rv_id r \<longrightarrow> rn_number y \<noteq> rn_number l \<and> rn_product y \<noteq> rn_product l"
    "reservation_lines db1 = reservation_lines db @ [l]" "reservations db1 = reservations db" "aside db1 = aside db" "stock_inv db \<longrightarrow> stock_inv db1"
    "\<forall>k. balanceAt k db1 = shiftReserved (heldAt ?t ?loc k [l]) (balanceAt k db)" "\<forall>tp. movedOf tp db1 = movedOf tp db"
    by (rule reserveLine_effect [OF one]) blast
  obtain ls where ls: "list_all2 (rowOf ?t (rv_id r)) items ls" "reservation_lines db' = reservation_lines db1 @ ls"
    "reservations db' = reservations db1" "aside db' = aside db1" "stock_inv db1 \<longrightarrow> stock_inv db'" "\<forall>tp. movedOf tp db' = movedOf tp db1"
    "\<forall>k. balanceAt k db' = shiftReserved (heldAt ?t ?loc k ls) (balanceAt k db1)"
    "\<forall>l\<in>set ls. rn_quantity l \<le> ba_available (balanceAt (?t, rn_product l, ?loc) db1) \<and>
       (\<exists>p\<in>set (products db1). pr_id p = rn_product l \<and> pr_tenant p = ?t) \<and>
       (\<forall>y\<in>set (reservation_lines db1). rn_reservation y = rv_id r \<longrightarrow> rn_product y \<noteq> rn_product l)" "distinct (map rn_product ls)"
    using Cons.IH [OF rest] by blast
  have pos: "0 < rn_quantity l" "rn_reservation l = rv_id r" using l(1) by (simp_all add: rowOf_def)
  have less: "ba_available (balanceAt k db1) \<le> ba_available (balanceAt k db)" for k
    using l(9) [rule_format, of k] pos by simp
  have cat: "catalogue db1 = catalogue db" using l(7) by (simp add: aside_def documents_def)
  have apart: "rn_product l \<notin> rn_product ` set ls" using ls(8) l(5) pos(2) by auto
  show ?case
  proof (intro exI [of _ "l # ls"] conjI)
    show "\<forall>l'\<in>set (l # ls). rn_quantity l' \<le> ba_available (balanceAt (?t, rn_product l', ?loc) db) \<and>
       (\<exists>p\<in>set (products db). pr_id p = rn_product l' \<and> pr_tenant p = ?t) \<and>
       (\<forall>y\<in>set (reservation_lines db). rn_reservation y = rv_id r \<longrightarrow> rn_product y \<noteq> rn_product l')"
    proof
      fix l' assume "l' \<in> set (l # ls)"
      then consider "l' = l" | "l' \<in> set ls" by auto
      then show "rn_quantity l' \<le> ba_available (balanceAt (?t, rn_product l', ?loc) db) \<and>
       (\<exists>p\<in>set (products db). pr_id p = rn_product l' \<and> pr_tenant p = ?t) \<and>
       (\<forall>y\<in>set (reservation_lines db). rn_reservation y = rv_id r \<longrightarrow> rn_product y \<noteq> rn_product l')"
      proof cases
        case 2
        with ls(8) have "rn_quantity l' \<le> ba_available (balanceAt (?t, rn_product l', ?loc) db1)"
          "\<exists>p\<in>set (products db1). pr_id p = rn_product l' \<and> pr_tenant p = ?t"
          "\<forall>y\<in>set (reservation_lines db1). rn_reservation y = rv_id r \<longrightarrow> rn_product y \<noteq> rn_product l'" by blast+
        then show ?thesis using less [of "(?t, rn_product l', ?loc)"] exists_catalogue(1) [OF cat] l(5) by auto
      qed (use l in blast)
    qed
    show "distinct (map rn_product (l # ls))" using ls(9) apart by simp
  qed (use l ls in \<open>auto simp: algebra_simps\<close>)
qed

lemma closeLines_effect:
  assumes "forM (closeLine cmd c r) items db = Inr (x, db')"
  shows "(stock_inv db \<longrightarrow> stock_inv db') \<and> (\<forall>tp. movedOf tp db' = movedOf tp db) \<and> reserved db' = reserved db \<and>
    (\<forall>k. balanceAt k db' = shiftReserved (- heldAt (cm_tenant cmd) (rv_location r) k (map snd items)) (balanceAt k db))"
  using assms
proof (induction items arbitrary: db)
  case Nil
  then show ?case by simp
next
  case (Cons item items)
  obtain y db1 where one: "closeLine cmd c r item db = Inr (y, db1)" and rest: "forM (closeLine cmd c r) items db1 = Inr (x, db')"
    using Cons.prems by (auto simp: thenM_Inr)
  note E = closeLine_effect [OF one]
  show ?case using Cons.IH [OF rest] E(2,4,5) E(3) by (auto simp: algebra_simps)
qed

section \<open>Reading documents back\<close>

lemma reservationRows_set: "set (reservationRows sel db) = {r \<in> set (reservations db). sel r \<and> reservationJoined db r}"
  by (auto simp: reservationRows_def)

lemma findReservationById_Some:
  assumes "findReservationById t i db = Some d"
  shows "\<exists>r\<in>set (reservations db). rv_tenant r = t \<and> rv_id r = i \<and> d = reservationData db r"
proof -
  obtain r rs where "reservationRows (\<lambda>r. rv_tenant r = t \<and> rv_id r = i) db = r # rs" "d = reservationData db r"
    using assms by (auto simp: findReservationById_def split: list.splits)
  then show ?thesis using reservationRows_set [of "\<lambda>r. rv_tenant r = t \<and> rv_id r = i" db] by auto
qed

lemma findReservationByKey_Some:
  assumes "findReservationByKey t k db = Some (d, f)"
  shows "\<exists>r\<in>set (reservations db). rv_tenant r = t \<and> rv_key r = k \<and> d = reservationData db r \<and> f = rv_fingerprint r"
proof -
  obtain r rs where "reservationRows (\<lambda>r. rv_tenant r = t \<and> rv_key r = k) db = r # rs" "d = reservationData db r" "f = rv_fingerprint r"
    using assms by (auto simp: findReservationByKey_def split: list.splits)
  then show ?thesis using reservationRows_set [of "\<lambda>r. rv_tenant r = t \<and> rv_key r = k" db] by auto
qed

lemma reservationData_header [simp]: "do_header (reservationData db r) = r"
  by (simp add: reservationData_def)

section \<open>The invariant of the tables\<close>

text \<open>Ids are unique, the \<open>CHECK\<close>s hold, and every line belongs to a reservation of its tenant,
  holds a positive quantity, and is the only one of its product there.\<close>

definition reservation_inv :: "inv_db \<Rightarrow> bool" where
  "reservation_inv db \<longleftrightarrow> distinct (map rv_id (reservations db)) \<and> (\<forall>r\<in>set (reservations db). reservation_check r) \<and>
     (\<forall>l\<in>set (reservation_lines db). 0 < rn_quantity l \<and> (\<exists>r\<in>set (reservations db). rv_id r = rn_reservation l \<and> rv_tenant r = rn_tenant l)) \<and>
     distinct (map (\<lambda>l. (rn_reservation l, rn_product l)) (reservation_lines db))"

lemma reservation_invD:
  assumes "reservation_inv db"
  shows "distinct (map rv_id (reservations db))" "r \<in> set (reservations db) \<Longrightarrow> reservation_check r"
    "l \<in> set (reservation_lines db) \<Longrightarrow> 0 < rn_quantity l"
    "l \<in> set (reservation_lines db) \<Longrightarrow> \<exists>r\<in>set (reservations db). rv_id r = rn_reservation l \<and> rv_tenant r = rn_tenant l"
    "distinct (map (\<lambda>l. (rn_reservation l, rn_product l)) (reservation_lines db))"
  using assms unfolding reservation_inv_def by blast+

lemma reservation_inv_cong:
  "reservations db' = reservations db \<Longrightarrow> reservation_lines db' = reservation_lines db \<Longrightarrow> reservation_inv db' = reservation_inv db"
  by (simp add: reservation_inv_def)

section \<open>create\<close>

lemma replayReservation_Inr [simp]:
  "replayReservation f stored db = Inr (res, db') \<longleftrightarrow> snd stored = f \<and> res = (fst stored, True) \<and> db' = db"
  by (auto simp: replayReservation_def runM)

lemma createReservation_Inr:
  assumes "createReservation digest collate cmd branch dto db = Inr (res, db')"
  obtains (replayed) lines d where "canonicalLines collate dto = Inr lines" 
      "findReservationByKey (cm_tenant cmd) (cm_key cmd) db = Some (d, digest (reservationRequest dto lines))" "res = (d, True)" "db' = db"
  | (created) lines where "canonicalLines collate dto = Inr lines" "findReservationByKey (cm_tenant cmd) (cm_key cmd) db = None"
      "reserveLines cmd branch dto lines (digest (reservationRequest dto lines)) db = Inr (res, db')"
proof -
  obtain lines where lines: "canonicalLines collate dto = Inr lines"
    using assms by (auto simp: createReservation_def bindM_Inr)
  let ?f = "digest (reservationRequest dto lines)" and ?st = "findReservationByKey (cm_tenant cmd) (cm_key cmd) db"
  have again: thesis if "?st = Some stored" "replayReservation ?f stored db = Inr (res, db')" for stored
    using that replayed [OF lines] by (cases stored) auto
  have "reservationTransaction cmd branch dto lines ?f db = Inr (res, db') \<or>
    (\<exists>stored. ?st = Some stored \<and> replayReservation ?f stored db = Inr (res, db'))"
    using assms lines by (auto simp: createReservation_def bindM_Inr Let_def catchM_def split: sum.splits if_splits option.splits)
  then show ?thesis
  proof
    assume run: "reservationTransaction cmd branch dto lines ?f db = Inr (res, db')"
    show ?thesis
    proof (cases ?st)
      case None
      then show ?thesis using run created [OF lines] by (auto simp: reservationTransaction_def runM assertReservationTarget_def)
    next
      case (Some stored)
      then show ?thesis using run again by (simp add: reservationTransaction_def bindM_Inr)
    qed
  qed (use again in blast)
qed

lemma list_all2_map: "list_all2 P xs ys \<Longrightarrow> (\<And>x y. P x y \<Longrightarrow> f x = g y) \<Longrightarrow> map f xs = map g ys"
  by (induction rule: list_all2_induct) auto

lemma rows_sorted:
  assumes "list_all2 (rowOf t i) (List.enumerate n lines) ls"
  shows "sort_key rn_number ls = ls" "map (\<lambda>l. (rn_product l, rn_serials l)) ls = map (\<lambda>l. (cl_product l, cl_serials l)) lines"
    "map (\<lambda>l. Inr (rn_quantity l)) ls = map (\<lambda>l. reservationUnits (cl_quantity l)) lines" "\<forall>l\<in>set ls. rn_tenant l = t \<and> rn_reservation l = i \<and> 0 < rn_quantity l"
proof -
  let ?items = "List.enumerate n lines"
  have "map (\<lambda>x. fst x + 1) ?items = map rn_number ls" by (rule list_all2_map [OF assms]) (simp add: rowOf_def)
  moreover have "sorted (map (\<lambda>x. fst x + 1) ?items)"
    using sorted_upt [of n "n + length lines"] by (simp only: sorted_map map_fst_enumerate [symmetric] flip: map_map) (simp add: sorted_wrt_map)
  ultimately have "sorted (map rn_number ls)" by simp
  then show "sort_key rn_number ls = ls" by (rule sort_key_id_if_sorted)
  have "map (\<lambda>x. (cl_product (snd x), cl_serials (snd x))) ?items = map (\<lambda>l. (rn_product l, rn_serials l)) ls"
    by (rule list_all2_map [OF assms]) (simp add: rowOf_def)
  moreover have "map (\<lambda>x. (cl_product (snd x), cl_serials (snd x))) ?items = map (\<lambda>l. (cl_product l, cl_serials l)) (map snd ?items)" by (simp only: map_map o_def)
  ultimately show "map (\<lambda>l. (rn_product l, rn_serials l)) ls = map (\<lambda>l. (cl_product l, cl_serials l)) lines" by (metis map_snd_enumerate)
  have "map (\<lambda>x. reservationUnits (cl_quantity (snd x))) ?items = map (\<lambda>l. Inr (rn_quantity l)) ls"
    by (rule list_all2_map [OF assms]) (simp add: rowOf_def)
  moreover have "map (\<lambda>x. reservationUnits (cl_quantity (snd x))) ?items = map (\<lambda>l. reservationUnits (cl_quantity l)) (map snd ?items)" by (simp only: map_map o_def)
  ultimately show "map (\<lambda>l. Inr (rn_quantity l)) ls = map (\<lambda>l. reservationUnits (cl_quantity l)) lines" by (metis map_snd_enumerate)
  show "\<forall>l\<in>set ls. rn_tenant l = t \<and> rn_reservation l = i \<and> 0 < rn_quantity l"
    using assms by (auto simp: list_all2_conv_all_nth in_set_conv_nth rowOf_def)
qed

lemma selectProduct_exists: "(\<exists>p\<in>set (products db). pr_id p = i \<and> pr_tenant p = t) \<longleftrightarrow> selectProduct t i db \<noteq> None"
  by (auto simp: selectProduct_def find_None_iff)

lemma reserveLines_Inr:
  assumes run: "reserveLines cmd branch dto lines f db = Inr (res, db')" and inv: "reservation_inv db"
  obtains d ls where "res = (d, False)" "do_lines d = ls" "do_header d = newReservation cmd branch dto f (env_uuid db (ticks db)) (env_clock db (ticks db))"
    "reservations db' = reservations db @ [do_header d]" "reservation_lines db' = reservation_lines db @ ls" "aside db' = aside db"
    "list_all2 (rowOf (cm_tenant cmd) (env_uuid db (ticks db))) (List.enumerate 0 lines) ls" "stock_inv db \<Longrightarrow> stock_inv db'"
    "\<And>k. balanceAt k db' = shiftReserved (heldAt (cm_tenant cmd) (vd_location dto) k ls) (balanceAt k db)" "\<And>tp. movedOf tp db' = movedOf tp db"
    "\<And>l. l \<in> set ls \<Longrightarrow> rn_quantity l \<le> ba_available (balanceAt (cm_tenant cmd, rn_product l, vd_location dto) db)"
    "findReservationById (cm_tenant cmd) (env_uuid db (ticks db)) db' = Some d" "reservation_inv db'"
proof -
  let ?i = "env_uuid db (ticks db)" and ?t = "cm_tenant cmd"
  let ?r = "newReservation cmd branch dto f ?i (env_clock db (ticks db))"
  let ?db1 = "db\<lparr>ticks := Suc (ticks db), reservations := reservations db @ [?r]\<rparr>"
  have r: "rv_id ?r = ?i" "rv_location ?r = vd_location dto" "rv_tenant ?r = ?t" "rv_number ?r = reservationNumber ?i" by (simp_all add: newReservation_def)
  obtain d where I: "\<forall>y\<in>set (reservations db). rv_id y \<noteq> ?i" "reservation_check ?r"
    and L: "forM (reserveLine cmd ?r) (List.enumerate 0 lines) ?db1 = Inr ((), db')"
    and d: "findReservationById ?t ?i db' = Some d" "res = (d, False)"
    using run unfolding reserveLines_def Let_def by (auto simp: runM insertReservation_Inr r)
  obtain ls where ls: "list_all2 (rowOf ?t ?i) (List.enumerate 0 lines) ls" "reservation_lines db' = reservation_lines db @ ls"
    "reservations db' = reservations db @ [?r]" "aside db' = aside db" "stock_inv ?db1 \<longrightarrow> stock_inv db'" "\<forall>tp. movedOf tp db' = movedOf tp db"
    "\<forall>k. balanceAt k db' = shiftReserved (heldAt ?t (vd_location dto) k ls) (balanceAt k db)"
    "\<forall>l\<in>set ls. rn_quantity l \<le> ba_available (balanceAt (?t, rn_product l, vd_location dto) db) \<and>
       (\<exists>p\<in>set (products db). pr_id p = rn_product l \<and> pr_tenant p = ?t)" "distinct (map rn_product ls)"
    using reserveLines_effect [OF L] by (auto simp: r)
  note rows = rows_sorted [OF ls(1)]
  have old: "rn_reservation l \<noteq> ?i" if "l \<in> set (reservation_lines db)" for l
    using reservation_invD(4) [OF inv that] I(1) by auto
  have header: "d = reservationData db' ?r"
    using findReservationById_Some [OF d(1)] ls(3) I(1) by (auto simp: r)
  have cat: "catalogue db' = catalogue db" using ls(4) by (simp add: aside_def documents_def)
  have found: "selectProduct (rn_tenant l) (rn_product l) db' \<noteq> None" if "l \<in> set ls" for l
  proof -
    have "\<exists>p\<in>set (products db). pr_id p = rn_product l \<and> pr_tenant p = ?t" "rn_tenant l = ?t" using that ls(8) rows(4) by auto
    then have "\<exists>p\<in>set (products db'). pr_id p = rn_product l \<and> pr_tenant p = rn_tenant l"
      using exists_catalogue(1) [OF cat] by simp
    then show ?thesis unfolding selectProduct_exists .
  qed
  have lines: "do_lines d = ls"
  proof -
    let ?P = "\<lambda>l. rn_reservation l = ?i \<and> rn_tenant l = ?t \<and> selectProduct (rn_tenant l) (rn_product l) db' \<noteq> None"
    have "filter ?P (reservation_lines db) = []" "filter ?P ls = ls"
      using old rows(4) found by (auto simp: filter_empty_conv filter_id_conv)
    then have "filter ?P (reservation_lines db') = ls" by (simp add: ls(2))
    then show ?thesis using rows(1) by (simp only: header reservationData_def r reservation_document.simps)
  qed
  have inv': "reservation_inv db'"
    unfolding reservation_inv_def
  proof (intro conjI)
    show "distinct (map rv_id (reservations db'))" using reservation_invD(1) [OF inv] I(1) by (auto simp: ls(3) r)
    show "\<forall>r\<in>set (reservations db'). reservation_check r" using reservation_invD(2) [OF inv] I(2) by (auto simp: ls(3))
    show "\<forall>l\<in>set (reservation_lines db'). 0 < rn_quantity l \<and> (\<exists>r\<in>set (reservations db'). rv_id r = rn_reservation l \<and> rv_tenant r = rn_tenant l)"
      using reservation_invD(3,4) [OF inv] rows(4) by (fastforce simp: ls(2,3) r)
    have "map (\<lambda>l. (rn_reservation l, rn_product l)) ls = map (Pair ?i) (map rn_product ls)" using rows(4) by simp
    then have "distinct (map (\<lambda>l. (rn_reservation l, rn_product l)) ls)" using ls(9) by (simp add: distinct_map inj_on_def)
    then show "distinct (map (\<lambda>l. (rn_reservation l, rn_product l)) (reservation_lines db'))"
      using reservation_invD(5) [OF inv] old rows(4) by (auto simp: ls(2))
  qed
  note at = ls(7) [rule_format] and moved = ls(6) [rule_format]
  show ?thesis
    by (rule that [OF d(2) lines _ _ _ _ ls(1) _ at moved])
      (use ls(2-5,8) d(1) header inv' newRow_inv in simp_all)
qed

lemma find_sole: "filter P xs = [x] \<Longrightarrow> rev (sort_key f (filter P xs)) = [x]"
  by simp

text \<open>The document is found under the key of the request.\<close>

lemma reserveLines_stores:
  assumes run: "reserveLines cmd branch dto lines f db = Inr ((d, flag), db')"
  shows "findReservationByKey (cm_tenant cmd) (cm_key cmd) db' = Some (d, f)" "rv_fingerprint (do_header d) = f"
proof -
  let ?i = "env_uuid db (ticks db)" and ?t = "cm_tenant cmd"
  let ?r = "newReservation cmd branch dto f ?i (env_clock db (ticks db))"
  have r: "rv_id ?r = ?i" "rv_tenant ?r = ?t" "rv_key ?r = cm_key cmd" "rv_fingerprint ?r = f" by (simp_all add: newReservation_def)
  obtain I: "\<forall>y\<in>set (reservations db). rv_id y \<noteq> ?i \<and> \<not> (rv_tenant y = ?t \<and> rv_key y = cm_key cmd)"
    and L: "forM (reserveLine cmd ?r) (List.enumerate 0 lines) (db\<lparr>ticks := Suc (ticks db), reservations := reservations db @ [?r]\<rparr>) = Inr ((), db')"
    and d: "findReservationById ?t ?i db' = Some d"
    using run unfolding reserveLines_def Let_def by (auto simp: runM insertReservation_Inr r)
  have rows: "reservations db' = reservations db @ [?r]" using reserveLines_effect [OF L] by auto
  have "filter (\<lambda>r. (rv_tenant r = ?t \<and> rv_id r = ?i) \<and> reservationJoined db' r) (reservations db') = (if reservationJoined db' ?r then [?r] else [])"
    using I by (auto simp: rows r filter_empty_conv)
  then have joined: "reservationJoined db' ?r" "d = reservationData db' ?r"
    using d by (auto simp: findReservationById_def reservationRows_def split: if_splits)
  have "filter (\<lambda>r. (rv_tenant r = ?t \<and> rv_key r = cm_key cmd) \<and> reservationJoined db' r) (reservations db') = [?r]"
    using I joined(1) by (auto simp: rows r filter_empty_conv)
  then have "reservationRows (\<lambda>r. rv_tenant r = ?t \<and> rv_key r = cm_key cmd) db' = [?r]"
    unfolding reservationRows_def by (rule find_sole)
  then show "findReservationByKey ?t (cm_key cmd) db' = Some (d, f)" by (simp add: findReservationByKey_def r joined(2))
  show "rv_fingerprint (do_header d) = f" by (simp add: joined(2) r)
qed

definition reservationPrint :: "(request \<Rightarrow> string) \<Rightarrow> (string \<Rightarrow> string) \<Rightarrow> reservation_dto \<Rightarrow> inv_error + string" where
  "reservationPrint digest collate dto = bindE (canonicalLines collate dto) (\<lambda>lines. Inr (digest (reservationRequest dto lines)))"

lemma findReservationByKey_print: "findReservationByKey t k db = Some (d, f) \<Longrightarrow> rv_fingerprint (do_header d) = f"
  using findReservationByKey_Some [of t k db d f] by auto

interpretation reservation_command: idempotent_command
  "\<lambda>(cmd, branch, dto). createReservation digest collate cmd branch dto"
  "\<lambda>(cmd, branch, dto) db. map_option fst (findReservationByKey (cm_tenant cmd) (cm_key cmd) db)" "\<lambda>d. rv_fingerprint (do_header d)"
  "\<lambda>(cmd, branch, dto) db. reservationPrint digest collate dto" ProductReservationIdempotencyConflictError for digest collate
proof (unfold_locales; clarsimp split: prod.splits)
  fix cmd :: command and branch :: id and dto :: reservation_dto and db :: inv_db and e
  assume "reservationPrint digest collate dto = Inl e"
  then show "createReservation digest collate cmd branch dto db = Inl e"
    by (auto simp: createReservation_def reservationPrint_def bindE_def evalM split: sum.splits)
next
  fix cmd :: command and branch :: id and dto :: reservation_dto and db :: inv_db and f r f'
  assume "reservationPrint digest collate dto = Inr f" "findReservationByKey (cm_tenant cmd) (cm_key cmd) db = Some (r, f')"
  then show "(rv_fingerprint (do_header r) = f \<longrightarrow> createReservation digest collate cmd branch dto db = Inr ((r, True), db)) \<and>
      (rv_fingerprint (do_header r) \<noteq> f \<longrightarrow> createReservation digest collate cmd branch dto db = Inl ProductReservationIdempotencyConflictError)"
    using findReservationByKey_print
    by (auto simp: createReservation_def reservationPrint_def bindE_Inr reservationTransaction_def replayReservation_def Let_def evalM)
next
  fix cmd :: command and branch :: id and dto :: reservation_dto and db :: inv_db and f r b and db' :: inv_db
  assume f: "reservationPrint digest collate dto = Inr f" and run: "createReservation digest collate cmd branch dto db = Inr ((r, b), db')"
  from run show "(\<exists>f'. findReservationByKey (cm_tenant cmd) (cm_key cmd) db' = Some (r, f')) \<and> rv_fingerprint (do_header r) = f"
  proof (cases rule: createReservation_Inr)
    case (replayed lines d)
    then show ?thesis using f findReservationByKey_print by (auto simp: reservationPrint_def bindE_Inr)
  next
    case (created lines)
    then show ?thesis using f reserveLines_stores [OF created(3)] by (auto simp: reservationPrint_def bindE_Inr)
  qed
qed

section \<open>release and expireDue\<close>

definition closedRow :: "command \<Rightarrow> closing \<Rightarrow> nat \<Rightarrow> reservation_row \<Rightarrow> reservation_row" where
  "closedRow cmd c now r = r\<lparr>rv_status := cz_status c, rv_closed_by := Some (cm_user cmd), rv_closed_at := Some now,
     rv_closed_key := Some (cz_key c), rv_closed_fingerprint := Some (cz_fingerprint c), rv_closure_reason := Some (cz_reason c)\<rparr>"

definition activeRow :: "id \<Rightarrow> id \<Rightarrow> reservation_row \<Rightarrow> bool" where
  "activeRow t i r \<longleftrightarrow> rv_id r = i \<and> rv_tenant r = t \<and> rv_status r = ReservationActive"

definition linesHeld :: "id \<Rightarrow> id \<Rightarrow> inv_db \<Rightarrow> reservation_line_row list" where
  "linesHeld t i db = filter (\<lambda>l. rn_reservation l = i \<and> rn_tenant l = t) (reservation_lines db)"

lemma closedRow_simps [simp]:
  "rv_id (closedRow cmd c now r) = rv_id r" "rv_tenant (closedRow cmd c now r) = rv_tenant r" "rv_status (closedRow cmd c now r) = cz_status c"
  "rv_branch (closedRow cmd c now r) = rv_branch r" "rv_location (closedRow cmd c now r) = rv_location r" "rv_closed_key (closedRow cmd c now r) = Some (cz_key c)"
  "rv_closed_fingerprint (closedRow cmd c now r) = Some (cz_fingerprint c)"
  by (simp_all add: closedRow_def)

lemma markClosed_Inr:
  "markClosed cmd c i db = Inr (x, db') \<longleftrightarrow>
     (\<forall>r\<in>set (reservations db). activeRow (cm_tenant cmd) i r \<longrightarrow> reservation_check (closedRow cmd c (env_clock db (ticks db)) r)) \<and>
     (\<forall>r\<in>set (reservations db). rv_id r \<noteq> i \<longrightarrow> \<not> (rv_tenant r = cm_tenant cmd \<and> rv_closed_key r = Some (cz_key c))) \<and>
     db' = db\<lparr>reservations := update_where (activeRow (cm_tenant cmd) i) (closedRow cmd c (env_clock db (ticks db))) (reservations db)\<rparr>"
  unfolding markClosed_def Let_def closedRow_def [symmetric] activeRow_def [symmetric] by (auto simp: runM)

lemma heldAt_sort: "heldAt t loc k (sort_key f ls) = heldAt t loc k ls"
proof -
  have "mset (map rn_quantity (filter P (sort_key f ls))) = mset (map rn_quantity (filter P ls))" for P by simp
  then show ?thesis unfolding heldAt_def sum_where_def by (metis sum_mset_sum_list)
qed

lemma closeActive_Inr:
  assumes run: "closeActive cmd c r db = Inr (res, db')"
  obtains d now where "res = (d, False)" "findReservationById (cm_tenant cmd) (rv_id r) db' = Some d"
    "reservations db' = update_where (activeRow (cm_tenant cmd) (rv_id r)) (closedRow cmd c now) (reservations db)"
    "\<forall>x\<in>set (reservations db). activeRow (cm_tenant cmd) (rv_id r) x \<longrightarrow> reservation_check (closedRow cmd c now x)"
    "reservation_lines db' = reservation_lines db" "aside db' = aside db" "stock_inv db \<Longrightarrow> stock_inv db'" "\<And>tp. movedOf tp db' = movedOf tp db"
    "\<And>k. balanceAt k db' = shiftReserved (- heldAt (cm_tenant cmd) (rv_location r) k (linesHeld (cm_tenant cmd) (rv_id r) db)) (balanceAt k db)"
proof -
  let ?t = "cm_tenant cmd" and ?lines = "sort_key rn_product (linesHeld (cm_tenant cmd) (rv_id r) db)"
  obtain db1 d where L: "forM (closeLine cmd c r) (List.enumerate 0 ?lines) db = Inr ((), db1)"
    and M: "markClosed cmd c (rv_id r) db1 = Inr ((), db')" and d: "findReservationById ?t (rv_id r) db' = Some d" "res = (d, False)"
    using run unfolding closeActive_def linesHeld_def by (auto simp: runM)
  from closeLines_effect [OF L] have E: "stock_inv db \<Longrightarrow> stock_inv db1" "\<And>tp. movedOf tp db1 = movedOf tp db" "reserved db1 = reserved db"
    "\<And>k. balanceAt k db1 = shiftReserved (- heldAt ?t (rv_location r) k ?lines) (balanceAt k db)" by auto
  show ?thesis
    by (rule that [OF d(2,1), of "env_clock db1 (ticks db1)"]) (use E M in \<open>simp_all add: markClosed_Inr reserved_def heldAt_sort\<close>)
qed

lemma closeReservation_Inr:
  assumes "closeReservation cmd branch c db = Inr (res, db')"
  obtains (replayed) r d where "r \<in> set (reservations db)" "rv_id r = cz_reservation c" "rv_tenant r = cm_tenant cmd" "rv_status r = cz_status c" "rv_status r \<noteq> ReservationActive"
      "res = (d, True)" "db' = db"
  | (closed) r where "r \<in> set (reservations db)" "rv_id r = cz_reservation c" "rv_tenant r = cm_tenant cmd" "rv_branch r = branch" "rv_status r = ReservationActive"
      "closeActive cmd c r db = Inr (res, db')"
proof -
  obtain r where f: "List.find (\<lambda>r. rv_id r = cz_reservation c \<and> rv_tenant r = cm_tenant cmd \<and> rv_branch r = branch) (reservations db) = Some r"
    using assms by (auto simp: closeReservation_def bindM_Inr)
  have r: "r \<in> set (reservations db)" "rv_id r = cz_reservation c" "rv_tenant r = cm_tenant cmd" "rv_branch r = branch"
    using find_Some_props [OF f] by auto
  show ?thesis
    using assms f closed [OF r] replayed [OF r(1-3)]
    by (cases "rv_status r = ReservationActive") (auto simp: closeReservation_def bindM_Inr split: if_splits)
qed

lemma closeReservation_stock: "preserves stock_inv (closeReservation cmd branch c)"
proof (rule preservesI)
  fix db res db'
  assume inv: "stock_inv db" and "closeReservation cmd branch c db = Inr (res, db')"
  from this(2) show "stock_inv db'"
  proof (cases rule: closeReservation_Inr)
    case (closed r)
    show ?thesis by (rule closeActive_Inr [OF closed(6)]) (simp add: inv)
  qed (use inv in simp)
qed

lemma closeReservation_keeps: "preserves reservation_inv (closeReservation cmd branch c)"
proof (rule preservesI)
  fix db res db'
  assume inv: "reservation_inv db" and "closeReservation cmd branch c db = Inr (res, db')"
  from this(2) show "reservation_inv db'"
  proof (cases rule: closeReservation_Inr)
    case (closed r)
    obtain now where C: "reservations db' = update_where (activeRow (cm_tenant cmd) (rv_id r)) (closedRow cmd c now) (reservations db)"
      "\<forall>x\<in>set (reservations db). activeRow (cm_tenant cmd) (rv_id r) x \<longrightarrow> reservation_check (closedRow cmd c now x)"
      "reservation_lines db' = reservation_lines db"
      by (rule closeActive_Inr [OF closed(6)]) blast
    show ?thesis
      unfolding reservation_inv_def C(3)
    proof (intro conjI)
      show "distinct (map rv_id (reservations db'))" using reservation_invD(1) [OF inv] by (simp add: C(1))
      show "\<forall>r\<in>set (reservations db'). reservation_check r" using reservation_invD(2) [OF inv] C(2) by (auto simp: C(1) set_update_where)
      show "\<forall>l\<in>set (reservation_lines db). 0 < rn_quantity l \<and> (\<exists>r\<in>set (reservations db'). rv_id r = rn_reservation l \<and> rv_tenant r = rn_tenant l)"
      proof (intro ballI conjI)
        fix l assume l: "l \<in> set (reservation_lines db)"
        show "0 < rn_quantity l" by (rule reservation_invD(3) [OF inv l])
        obtain x where "x \<in> set (reservations db)" "rv_id x = rn_reservation l" "rv_tenant x = rn_tenant l" using reservation_invD(4) [OF inv l] by blast
        then show "\<exists>r\<in>set (reservations db'). rv_id r = rn_reservation l \<and> rv_tenant r = rn_tenant l"
          by (intro bexI [of _ "if activeRow (cm_tenant cmd) (rv_id r) x then closedRow cmd c now x else x"]) (auto simp: C(1) set_update_where)
      qed
      show "distinct (map (\<lambda>l. (rn_reservation l, rn_product l)) (reservation_lines db))" by (rule reservation_invD(5) [OF inv])
    qed
  qed (use inv in simp)
qed

lemma releaseReservation_Inr:
  "releaseReservation digest cmd branch i reason db = Inr r \<longleftrightarrow>
     closeReservation cmd branch \<lparr>cz_reservation = i, cz_key = cm_key cmd, cz_reason = reason, cz_status = ReservationReleased,
        cz_fingerprint = closeFingerprint digest ReservationReleased reason\<rparr> db = Inr r"
  by (auto simp: releaseReservation_def catchM_def split: sum.splits if_splits)

lemma release_keeps: "preserves reservation_inv (releaseReservation digest cmd branch i reason)" "preserves stock_inv (releaseReservation digest cmd branch i reason)"
  using closeReservation_keeps closeReservation_stock unfolding preserves_def releaseReservation_Inr by blast+

lemma createReservation_keeps: "preserves (\<lambda>db. reservation_inv db) (createReservation digest collate cmd branch dto)"
proof (rule preservesI)
  fix db res db'
  assume inv: "reservation_inv db" and "createReservation digest collate cmd branch dto db = Inr (res, db')"
  from this(2) show "reservation_inv db'"
  proof (cases rule: createReservation_Inr)
    case (created lines)
    show ?thesis by (rule reserveLines_Inr [OF created(3) inv])
  qed (use inv in simp)
qed

end
