(* ===== verification/ExpiryLaws.thy ===== *)
theory ExpiryLaws
  imports ReservationLaws
begin

text \<open>
  The loop of \<open>expireDue\<close> goes on after a \<open>ProductReservationNotActiveError\<close>. The first
  part shows that closing an active reservation never fails with it, through every step of posting
  a movement; so the loop skips exactly the reservations that are closed already. The second part
  is the effect of the loop.
\<close>

section \<open>Where the error comes from\<close>

definition notActive :: "inv_error \<Rightarrow> bool" where
  "notActive e \<longleftrightarrow> (\<exists>s. e = ProductReservationNotActiveError s)"

definition avoids :: "'a act \<Rightarrow> bool" where
  "avoids m \<longleftrightarrow> (\<forall>db e. m db = Inl e \<longrightarrow> \<not> notActive e)"

named_theorems avoids_intros \<open>actions that never fail with that error\<close>

lemma avoidsD: "avoids m \<Longrightarrow> m db = Inl e \<Longrightarrow> \<not> notActive e"
  unfolding avoids_def by blast

lemma notActive_simps [simp]:
  "notActive (ProductReservationNotActiveError s)" "\<not> notActive (Failure t)" "\<not> notActive CheckViolated" "\<not> notActive DuplicateEntry"
  by (simp_all add: notActive_def)

lemma avoids_basic [avoids_intros]:
  "avoids (returnM x)" "avoids (readM f)" "avoids (writeM w)" "avoids newRow" "avoids nowM"
  by (simp_all add: avoids_def nowM_def)

lemma avoids_throws [avoids_intros]:
  "\<not> notActive e \<Longrightarrow> avoids (throwM e)" "\<not> notActive e \<Longrightarrow> avoids (ensureM e b)" "\<not> notActive e \<Longrightarrow> avoids (requireM e v)"
  by (auto simp: avoids_def)

lemma avoids_liftE [avoids_intros]: "(\<And>e. r = Inl e \<Longrightarrow> \<not> notActive e) \<Longrightarrow> avoids (liftE r)"
  by (auto simp: avoids_def liftE_def split: sum.splits)

lemma avoids_bindM [avoids_intros]: "avoids m \<Longrightarrow> (\<And>x. avoids (f x)) \<Longrightarrow> avoids (bindM m f)"
  unfolding avoids_def bindM_Inl by blast

lemma avoids_thenM [avoids_intros]: "avoids m \<Longrightarrow> avoids n \<Longrightarrow> avoids (thenM m n)"
  unfolding avoids_def thenM_Inl by blast

lemma avoids_whenM [avoids_intros]: "avoids m \<Longrightarrow> avoids (whenM b m)"
  by (auto simp: avoids_def whenM_def)

lemma avoids_forM [avoids_intros]: "(\<And>x. avoids (f x)) \<Longrightarrow> avoids (forM f xs)"
  by (induction xs) (simp_all add: avoids_basic avoids_thenM)

lemma avoids_mapM [avoids_intros]: "(\<And>x. avoids (f x)) \<Longrightarrow> avoids (mapM f xs)"
  by (induction xs) (simp_all add: avoids_basic avoids_bindM)

lemma avoids_if [avoids_intros]: "(b \<Longrightarrow> avoids m) \<Longrightarrow> (\<not> b \<Longrightarrow> avoids n) \<Longrightarrow> avoids (if b then m else n)"
  by simp

lemma avoids_option [avoids_intros]: "avoids m \<Longrightarrow> (\<And>x. avoids (f x)) \<Longrightarrow> avoids (case v of None \<Rightarrow> m | Some x \<Rightarrow> f x)"
  by (cases v) simp_all

lemma avoids_prod [avoids_intros]: "(\<And>x y. avoids (f x y)) \<Longrightarrow> avoids (case p of (x, y) \<Rightarrow> f x y)"
  by (cases p) simp

lemma avoids_consume_loop [avoids_intros]: "(\<And>l c. avoids (body l c)) \<Longrightarrow> avoids (consume_loop avail body ls r acc)"
proof (induction ls arbitrary: r acc)
  case (Cons l ls)
  then show ?case by (auto simp: Let_def intro!: avoids_intros)
qed (simp add: avoids_basic)

lemma avoids_update [avoids_intros]: "avoids (updateMovement t i u)" "avoids (insertMovement m)" "avoids (updateBalance k v)"
  unfolding updateMovement_def insertMovement_def updateBalance_def by (intro avoids_intros; simp)+

lemma divideRounded_error: "divideRounded t n d = Inl e \<Longrightarrow> \<not> notActive e"
  by (auto simp: divideRounded_def Let_def split: if_splits)

lemma avoids_fifo: "avoids (applyInventoryFifoValuation mid)"
proof -
  have a: "avoids (insertAllocation m L q c cur mode src)" for m L q c cur mode src
    unfolding insertAllocation_def Let_def by (intro avoids_intros; simp)
  have s: "avoids (setRemaining t L q)" for t L q
    unfolding setRemaining_def by (intro avoids_intros; simp)
  have c: "avoids (createLayer m q c cur orig acq mode srcl rl srca)" for m q c cur orig acq mode srcl rl srca
    unfolding createLayer_def assertCurrency_def Let_def by (intro avoids_intros a; simp add: notActive_def)
  have one: "avoids (restoreAllocation m x n)" for m x n
    unfolding restoreAllocation_def Let_def by (intro avoids_intros s a; simp add: notActive_def)
  have r: "avoids (restoreLoop m q xs r tot)" for m q xs r tot
  proof (induction xs arbitrary: r tot)
    case (Cons p xs)
    then show ?case by (cases p) (simp add: Let_def avoids_bindM avoids_basic one)
  qed (simp add: avoids_basic)
  have t: "avoids (transferLoop m xs r tot)" for m xs r tot
  proof (induction xs arbitrary: r tot)
    case (Cons p xs)
    then show ?case by (cases p) (simp add: Let_def avoids_bindM avoids_basic c)
  qed (simp add: avoids_basic)
  show ?thesis
    unfolding applyInventoryFifoValuation_def fifoValueChange_def restoreSale_def transferLayers_def consumeLayers_def consumeLayer_def
      sourceCost_def receiptLineForReturn_def updateMovementSummary_def ensureCutover_def Let_def
    by (intro avoids_intros a s c r t; auto simp: notActive_def divideRounded_def Let_def split: if_splits)
qed

lemma movingAverage_error: "movingAverage v q b c = Inl e \<Longrightarrow> \<not> notActive e"
  by (auto simp: movingAverage_def Let_def bindE_def split: if_splits sum.splits dest: divideRounded_error)

lemma avoids_valuation: "avoids (applyInventoryValuation mid)"
proof -
  have src: "avoids (resolveSourceCost m c)" for m c
    unfolding resolveSourceCost_def Let_def
    by (intro avoids_intros; (erule divideRounded_error | auto simp: notActive_def bindE_def divideRounded_def Let_def split: if_splits sum.splits))
  show ?thesis
    unfolding applyInventoryValuation_def assertInventoryReconciliationOperational_def movingAverageStep_def valuationFor_def
      sealInventoryMovementValuation_def recordValuation_def loadInventoryValuationPolicy_def ensureValuation_def
      updateValuation_def updateCatalogCost_def movementCost_def Let_def
    by (intro avoids_intros avoids_fifo src; (erule divideRounded_error | erule movingAverage_error | auto simp: notActive_def split: option.splits))
qed

lemma helper_errors:
  "normalizeLotCode v = Inl e \<Longrightarrow> \<not> notActive e" "normalizedDate d = Inl e \<Longrightarrow> \<not> notActive e" "lotDates p mf ex = Inl e \<Longrightarrow> \<not> notActive e"
  "requestedSerials ns n = Inl e \<Longrightarrow> \<not> notActive e" "serialCount m = Inl e \<Longrightarrow> \<not> notActive e"
  by (auto simp: normalizeLotCode_def normalizedDate_def lotDates_def requestedSerials_def serialCount_def serialUnits_def notActive_def Let_def bindE_def
      split: if_splits option.splits sum.splits)

lemma avoids_lots: "avoids (applyInventoryLotTracking mid options)"
proof -
  have change: "avoids (changeLotBalance movement L q mode cs)" for movement L q mode cs
    unfolding changeLotBalance_def ensureLotBalance_def revalueLot_def setLotBalance_def insertMovementLot_def Let_def
    by (intro avoids_intros; (erule divideRounded_error | simp add: notActive_def))
  have restore: "avoids (restoreLots movement partial mode xs r)" for movement partial mode xs r
    by (induction xs arbitrary: r) (simp_all add: Let_def avoids_bindM avoids_thenM avoids_basic change)
  have consume: "avoids (consumeLots movement tz q pid pc cs ae)" for movement tz q pid pc cs ae
    unfolding consumeLots_def lotsToConsume_def consumeLot_def
    by (auto simp: notActive_def bindE_def normalizeLotCode_def Let_def split: option.splits prod.splits sum.splits if_splits intro!: avoids_intros change)
  have create: "avoids (findOrCreateLot movement code cost cur mf ex)" for movement code cost cur mf ex
    unfolding findOrCreateLot_def insertLot_def Let_def by (intro avoids_intros; (erule helper_errors | simp add: notActive_def))
  show ?thesis
    unfolding applyInventoryLotTracking_def allocateLots_def receiveLot_def restoreAllocations_def enterLot_def exitLots_def
      supplierReturnSource_def finalizeSpecificLotMovementValuation_def settleSpecificLots_def Let_def
    by (intro avoids_intros change restore consume create;
      (erule divideRounded_error | auto simp: notActive_def divideRounded_def Let_def split: if_splits))
qed

lemma avoids_catchM [avoids_intros]: "avoids m \<Longrightarrow> (\<And>e. avoids (h e)) \<Longrightarrow> avoids (catchM sel m h)"
  unfolding avoids_def catchM_def by (auto split: sum.splits if_splits)

lemma avoids_serials: "avoids (applyInventorySerialTracking mid options)"
proof -
  have event: "avoids (insertSerialEvent m s a b c d)" for m s a b c d
    unfolding insertSerialEvent_def by (intro avoids_intros; simp)
  have target: "avoids (serialTarget m d)" for m d
    unfolding serialTarget_def Let_def by (auto simp: notActive_def split: movement_type.splits intro!: avoids_intros)
  have move: "avoids (moveSerial m d s)" for m d s
    unfolding moveSerial_def appendEvent_def by (intro avoids_intros event target; simp add: notActive_def)
  have reg: "avoids (registerSerial m u v)" for m u v
    unfolding registerSerial_def by (intro avoids_intros event; simp add: notActive_def)
  have sel: "avoids (selectSerials m ns)" for m ns
    unfolding selectSerials_def Let_def by (intro avoids_intros; simp add: notActive_def)
  show ?thesis
    unfolding applyInventorySerialTracking_def trackSerials_def registerSerials_def
    by (intro avoids_intros move reg sel; (erule helper_errors | simp add: notActive_def))
qed

lemma avoids_postMovement [avoids_intros]: "avoids (postMovement m lo so)"
  unfolding postMovement_def by (intro avoids_intros avoids_valuation avoids_lots avoids_serials)

text \<open>Closing fails with this error only for a reservation that is not active.\<close>

lemma closeActive_avoids: "avoids (closeActive cmd c r)"
  unfolding closeActive_def closeLine_def markClosed_def Let_def
  by (intro avoids_intros; simp add: notActive_def)

lemma closeReservation_notActive:
  assumes "closeReservation cmd branch c db = Inl (ProductReservationNotActiveError s)"
  shows "\<exists>r\<in>set (reservations db). rv_id r = cz_reservation c \<and> rv_tenant r = cm_tenant cmd \<and> rv_status r \<noteq> ReservationActive"
proof -
  obtain r where f: "List.find (\<lambda>r. rv_id r = cz_reservation c \<and> rv_tenant r = cm_tenant cmd \<and> rv_branch r = branch) (reservations db) = Some r"
    and rest: "rv_status r = ReservationActive \<longrightarrow> closeActive cmd c r db = Inl (ProductReservationNotActiveError s)"
    using assms by (auto simp: closeReservation_def bindM_Inl split: if_splits)
  have "rv_status r \<noteq> ReservationActive" using rest avoidsD [OF closeActive_avoids] by fastforce
  then show ?thesis using find_Some_props [OF f] by blast
qed

section \<open>The loop\<close>

text \<open>Closing a reservation, or finding it closed, leaves no active row under its id and changes no
  other row.\<close>

lemma closeReservation_rows:
  assumes run: "closeReservation cmd branch c db = Inr (res, db')" and inv: "reservation_inv db"
  shows "\<exists>now. reservations db' = update_where (activeRow (cm_tenant cmd) (cz_reservation c)) (closedRow cmd c now) (reservations db)"
  using run
proof (cases rule: closeReservation_Inr)
  case (replayed r d)
  have "\<not> activeRow (cm_tenant cmd) (cz_reservation c) x" if "x \<in> set (reservations db)" for x
    using distinct_map_key_inj [OF reservation_invD(1) [OF inv] that replayed(1)] replayed(2,5) by (auto simp: activeRow_def)
  then have "update_where (activeRow (cm_tenant cmd) (cz_reservation c)) (closedRow cmd c now) (reservations db) = reservations db" for now
    by (rule update_where_none)
  then show ?thesis using replayed(7) by simp
next
  case (closed r)
  obtain now where "reservations db' = update_where (activeRow (cm_tenant cmd) (rv_id r)) (closedRow cmd c now) (reservations db)"
    by (rule closeActive_Inr [OF closed(6)]) blast
  then show ?thesis using closed(2) by auto
qed

text \<open>A row that is active at the end was active at the start and is not among the ids; every row that
  is not an active one among the ids is unchanged.\<close>

definition expired_rows :: "id \<Rightarrow> id list \<Rightarrow> reservation_row list \<Rightarrow> reservation_row list \<Rightarrow> bool" where
  "expired_rows t is rows rows' \<longleftrightarrow>
     list_all2 (\<lambda>r r'. r' = r \<or> (rv_id r \<in> set is \<and> rv_tenant r = t \<and> rv_status r = ReservationActive \<and>
        rv_id r' = rv_id r \<and> rv_tenant r' = rv_tenant r \<and> rv_branch r' = rv_branch r \<and> rv_status r' = ReservationExpired)) rows rows' \<and>
     (\<forall>r\<in>set rows'. rv_id r \<in> set is \<longrightarrow> rv_tenant r = t \<longrightarrow> rv_status r \<noteq> ReservationActive)"

lemma expired_rows_none: "(\<And>r. r \<in> set rows \<Longrightarrow> \<not> activeRow t i r) \<Longrightarrow> expired_rows t [i] rows rows"
  by (auto simp: expired_rows_def activeRow_def list_all2_same)

lemma expired_rows_one: "expired_rows (cm_tenant cmd) [i] rows (update_where (activeRow (cm_tenant cmd) i) (closedRow cmd (expiration digest i) now) rows)"
proof -
  let ?c = "closedRow cmd (expiration digest i) now"
  have cz: "cz_status (expiration digest j) = ReservationExpired" for j by (simp add: expiration_def)
  have st: "rv_status (?c r) = ReservationExpired" for r by (simp add: cz)
  show ?thesis
    unfolding expired_rows_def
  proof (intro conjI ballI impI)
    fix r assume "r \<in> set (update_where (activeRow (cm_tenant cmd) i) ?c rows)" and id: "rv_id r \<in> set [i]" "rv_tenant r = cm_tenant cmd"
    then obtain x where r: "r = (if activeRow (cm_tenant cmd) i x then ?c x else x)" unfolding set_update_where by (elim imageE)
    show "rv_status r \<noteq> ReservationActive"
    proof (cases "activeRow (cm_tenant cmd) i x")
      case True
      then show ?thesis using st [of x] by (simp add: r)
    next
      case False
      then have "r = x" by (simp add: r)
      with False id show ?thesis by (simp add: activeRow_def)
    qed
  qed (auto simp: update_where_def list_all2_map2 list_all2_same activeRow_def cz)
qed

lemma expired_rows_append:
  assumes "expired_rows t is rows rows1" "expired_rows t js rows1 rows2"
  shows "expired_rows t (is @ js) rows rows2"
  unfolding expired_rows_def
proof (intro conjI ballI impI)
  let ?P = "\<lambda>ids r r'. r' = r \<or> (rv_id r \<in> set ids \<and> rv_tenant r = t \<and> rv_status r = ReservationActive \<and>
        rv_id r' = rv_id r \<and> rv_tenant r' = rv_tenant r \<and> rv_branch r' = rv_branch r \<and> rv_status r' = ReservationExpired)"
  have one: "list_all2 (?P is) rows rows1" and two: "list_all2 (?P js) rows1 rows2"
    using assms by (simp_all add: expired_rows_def)
  show "list_all2 (?P (is @ js)) rows rows2"
    by (rule list_all2_trans [OF _ one two]) auto
  fix r assume r: "r \<in> set rows2" "rv_id r \<in> set (is @ js)" "rv_tenant r = t"
  show "rv_status r \<noteq> ReservationActive"
  proof (cases "rv_id r \<in> set js")
    case True
    then show ?thesis using assms(2) r by (simp add: expired_rows_def)
  next
    case False
    obtain n where n: "n < length rows2" "r = rows2 ! n" using r(1) by (auto simp: in_set_conv_nth)
    have len: "length rows1 = length rows2" by (rule list_all2_lengthD [OF two])
    have "?P js (rows1 ! n) r" unfolding n(2) by (rule list_all2_nthD2 [OF two n(1)])
    then consider "r = rows1 ! n" | "rv_status r = ReservationExpired" by blast
    then show ?thesis
    proof cases
      case 1
      then have "r \<in> set rows1" using n(1) len by simp
      moreover have "rv_id r \<in> set is" using r(2) False by simp
      ultimately show ?thesis using assms(1) r(3) unfolding expired_rows_def by blast
    qed simp
  qed
qed

lemma expireEach_effect:
  assumes "expireEach digest cmd branch is db = (Inr ds, db')" "reservation_inv db"
  shows "expired_rows (cm_tenant cmd) is (reservations db) (reservations db') \<and> reservation_inv db'"
  using assms
proof (induction "is" arbitrary: db ds)
  case Nil
  then show ?case by (simp add: expired_rows_def list_all2_same)
next
  case (Cons i "is")
  let ?t = "cm_tenant cmd" and ?close = "closeReservation cmd branch (expiration digest i)"
  have id: "cz_reservation (expiration digest i) = i" by (simp add: expiration_def)
  obtain db1 ds1 where rest: "expireEach digest cmd branch is db1 = (Inr ds1, db')" and inv: "reservation_inv db1"
    and one: "expired_rows ?t [i] (reservations db) (reservations db1)"
  proof (cases "?close db")
    case (Inl e)
    then obtain s where e: "e = ProductReservationNotActiveError s" and go: "expireEach digest cmd branch is db = (Inr ds, db')"
      using Cons.prems(1) by (cases e) (simp_all add: commit_def)
    obtain r where r: "r \<in> set (reservations db)" "rv_id r = i" "rv_status r \<noteq> ReservationActive"
      using closeReservation_notActive [OF Inl [unfolded e]] id by auto
    have "\<not> activeRow ?t i x" if "x \<in> set (reservations db)" for x
      using distinct_map_key_inj [OF reservation_invD(1) [OF Cons.prems(2)] that r(1)] r(2,3) by (auto simp: activeRow_def)
    then show ?thesis by (intro that [OF go Cons.prems(2)] expired_rows_none)
  next
    case (Inr p)
    then obtain d again db1 where run: "?close db = Inr ((d, again), db1)" by (cases p) auto
    then obtain ds1 where go: "expireEach digest cmd branch is db1 = (Inr ds1, db')"
      using Cons.prems(1) by (auto simp: commit_def split: prod.splits sum.splits)
    obtain now where "reservations db1 = update_where (activeRow ?t i) (closedRow cmd (expiration digest i) now) (reservations db)"
      using closeReservation_rows [OF run Cons.prems(2)] id by auto
    then show ?thesis
      using that [OF go preservesD [OF closeReservation_keeps Cons.prems(2) run]] expired_rows_one by simp
  qed
  show ?case using Cons.IH [OF rest inv] expired_rows_append [OF one] by fastforce
qed

text \<open>Every invariant that closing a reservation keeps is kept by the whole run, whether it ends with
  an error or not.\<close>

lemma expireEach_keeps:
  assumes I: "\<And>i. preserves I (closeReservation cmd branch (expiration digest i))" and "I db"
  shows "I (snd (expireEach digest cmd branch is db))"
  using assms(2)
proof (induction "is" arbitrary: db)
  case (Cons i "is")
  show ?case
  proof (cases "closeReservation cmd branch (expiration digest i) db")
    case (Inl e)
    then show ?thesis using Cons by (cases e) (simp_all add: commit_def)
  next
    case (Inr p)
    then obtain d again db1 where run: "closeReservation cmd branch (expiration digest i) db = Inr ((d, again), db1)" by (cases p) auto
    have "I (snd (expireEach digest cmd branch is db1))" by (rule Cons.IH [OF preservesD [OF I Cons.prems run]])
    then show ?thesis using run by (auto simp: commit_def split: prod.splits sum.splits)
  qed
qed simp

end
