(* ===== verification/Reconciliation.thy ===== *)
theory Reconciliation
  imports Transfers
begin

text \<open>
  The reconciliation of the inventory, after \<open>src/inventory/inventory-reconciliation.service.ts\<close>:
  a run compares the balances with the movements, the states, the valuations, the FIFO layers, the
  lots and the serials of a tenant, stores what it finds, and blocks the operations of the tenant
  (\<open>inventory_reconciliation_guards\<close>, read by every valuation) when a finding says so.

  The thresholds 0.0005 and 0.00005 of the queries are half a unit of the last decimal of the
  columns they compare, so on scaled integers they say that two numbers differ. Names, SKUs and
  texts of findings are not modelled, nor are the telemetry and the audit record of a run.
\<close>

section \<open>Findings\<close>

text \<open>The order of the codes is that of their texts (\<open>ORDER BY f.code\<close>).\<close>

definition code_rank :: "finding_code \<Rightarrow> nat" where
  "code_rank c = (case c of BALANCE_MOVEMENT_MISMATCH \<Rightarrow> 0 | BALANCE_STATE_MISMATCH \<Rightarrow> 1 | FIFO_LAYER_MISMATCH \<Rightarrow> 2
     | LOT_BALANCE_MISMATCH \<Rightarrow> 3 | LOT_LEDGER_MISMATCH \<Rightarrow> 4 | SERIAL_CUSTODY_INVALID \<Rightarrow> 5 | SERIAL_HISTORY_MISMATCH \<Rightarrow> 6
     | SERIAL_STATE_MISMATCH \<Rightarrow> 7 | VALUATION_QUANTITY_MISMATCH \<Rightarrow> 8 | VALUATION_VALUE_MISMATCH \<Rightarrow> 9)"

lemma code_rank_inj: "code_rank c = code_rank d \<Longrightarrow> c = d"
  by (cases c; cases d) (simp_all add: code_rank_def)

instantiation finding_code :: linorder
begin

definition less_eq_finding_code :: "finding_code \<Rightarrow> finding_code \<Rightarrow> bool" where
  "less_eq_finding_code c d \<longleftrightarrow> code_rank c \<le> code_rank d"

definition less_finding_code :: "finding_code \<Rightarrow> finding_code \<Rightarrow> bool" where
  "less_finding_code c d \<longleftrightarrow> code_rank c < code_rank d"

instance
  by standard (auto simp: less_eq_finding_code_def less_finding_code_def intro: code_rank_inj)

end

text \<open>A row of one of the comparing queries.\<close>

record mismatch =
  mm_product :: id
  mm_location :: "id option"
  mm_subject :: "string option"
  mm_expected :: int
  mm_actual :: int

definition findingFromRow :: "finding_code \<Rightarrow> finding_scope \<Rightarrow> finding_severity \<Rightarrow> bool \<Rightarrow> mismatch \<Rightarrow> finding" where
  "findingFromRow code scope severity blocks row =
     \<lparr>fi_code = code, fi_severity = severity, fi_scope = scope, fi_product = Some (mm_product row), fi_location = mm_location row,
      fi_subject = mm_subject row, fi_expected = Some (mm_expected row), fi_actual = Some (mm_actual row),
      fi_difference = Some (mm_actual row - mm_expected row), fi_blocks = blocks\<rparr>"

definition addQuantityRows :: "finding_code \<Rightarrow> finding_scope \<Rightarrow> finding_severity \<Rightarrow> bool \<Rightarrow> mismatch list \<Rightarrow> finding list" where
  "addQuantityRows code scope severity blocks rows = map (findingFromRow code scope severity blocks) rows"

section \<open>Balances and valuations\<close>

text \<open>The scope keys of a query that have a product and a location: the union of the keys of two
  tables.\<close>

definition hasLocation :: "id \<Rightarrow> id \<Rightarrow> inv_db \<Rightarrow> bool" where
  "hasLocation t l db \<longleftrightarrow> (\<exists>r\<in>set (locations db). lo_id r = l \<and> lo_tenant r = t)"

definition scopeKeys :: "id \<Rightarrow> (id \<times> id \<times> id) list \<Rightarrow> inv_db \<Rightarrow> (id \<times> id \<times> id) list" where
  "scopeKeys t ks db = filter (\<lambda>(t', p, l). t' = t \<and> selectProduct t p db \<noteq> None \<and> hasLocation t l db) (remdups ks)"

definition rowFor :: "id \<times> id \<times> id \<Rightarrow> int \<Rightarrow> int \<Rightarrow> mismatch" where
  "rowFor k expected actual = \<lparr>mm_product = fst (snd k), mm_location = Some (snd (snd k)), mm_subject = None, mm_expected = expected, mm_actual = actual\<rparr>"

definition mismatches :: "mismatch list \<Rightarrow> mismatch list" where
  "mismatches rows = filter (\<lambda>r. mm_actual r \<noteq> mm_expected r) rows"

definition movementRows :: "id \<Rightarrow> inv_db \<Rightarrow> mismatch list" where
  "movementRows t db = mismatches (map (\<lambda>k. rowFor k (movedAt k db) (balanceOf k db))
     (scopeKeys t (map balance_key (balances db) @ map movement_key (movements db)) db))"

definition stateSum :: "balance_row \<Rightarrow> int" where
  "stateSum b = ba_available b + ba_reserved b + ba_damaged b + ba_in_transit b"

definition stateRows :: "id \<Rightarrow> inv_db \<Rightarrow> mismatch list" where
  "stateRows t db = mismatches (map (\<lambda>b. rowFor (balance_key b) (ba_quantity b) (stateSum b))
     (filter (\<lambda>b. ba_tenant b = t \<and> selectProduct t (ba_product b) db \<noteq> None \<and> hasLocation t (ba_location b) db) (balances db)))"

text \<open>\<open>SUM\<close> over the balances and over the non-null value changes of a product, and the columns
  of its valuation.\<close>

definition heldOf :: "id \<Rightarrow> id \<Rightarrow> inv_db \<Rightarrow> int" where
  "heldOf t p db = sum_where (\<lambda>b. ba_tenant b = t \<and> ba_product b = p) ba_quantity (balances db)"

definition valueMoved :: "id \<Rightarrow> id \<Rightarrow> inv_db \<Rightarrow> int" where
  "valueMoved t p db = sum_where (\<lambda>m. mv_tenant m = t \<and> mv_product m = p)
     (\<lambda>m. case mv_value_change m of None \<Rightarrow> 0 | Some v \<Rightarrow> v) (movements db)"

definition valuedQuantity :: "id \<Rightarrow> id \<Rightarrow> inv_db \<Rightarrow> int" where
  "valuedQuantity t p db = (case selectValuation t p db of None \<Rightarrow> 0 | Some v \<Rightarrow> va_quantity v)"

definition valuedAmount :: "id \<Rightarrow> id \<Rightarrow> inv_db \<Rightarrow> int" where
  "valuedAmount t p db = (case selectValuation t p db of None \<Rightarrow> 0 | Some v \<Rightarrow> va_value v)"

definition productRow :: "id \<Rightarrow> int \<Rightarrow> int \<Rightarrow> mismatch" where
  "productRow p expected actual = \<lparr>mm_product = p, mm_location = None, mm_subject = None, mm_expected = expected, mm_actual = actual\<rparr>"

definition productFindings :: "id \<Rightarrow> id \<Rightarrow> inv_db \<Rightarrow> finding list" where
  "productFindings t p db =
     addQuantityRows VALUATION_QUANTITY_MISMATCH ScopeValuation FindingCritical True
       (mismatches [productRow p (heldOf t p db) (valuedQuantity t p db)]) @
     addQuantityRows VALUATION_VALUE_MISMATCH ScopeValuation FindingCritical True
       (mismatches [productRow p (valueMoved t p db) (valuedAmount t p db)])"

definition valuationFindings :: "id \<Rightarrow> inv_db \<Rightarrow> finding list" where
  "valuationFindings t db = concat (map (\<lambda>p. productFindings t (pr_id p) db) (filter (\<lambda>p. pr_tenant p = t) (products db)))"

section \<open>FIFO layers and lots\<close>

definition layerAt :: "id \<times> id \<times> id \<Rightarrow> inv_db \<Rightarrow> int" where
  "layerAt k db = sum_where (\<lambda>l. (fl_tenant l, fl_product l, fl_location l) = k) fl_remaining (layers db)"

definition collectFifo :: "id \<Rightarrow> valuation_method \<Rightarrow> inv_db \<Rightarrow> finding list" where
  "collectFifo t meth db =
     (let active = (meth = FIFO);
          rows = mismatches (map (\<lambda>k. rowFor k (balanceOf k db) (layerAt k db))
            (scopeKeys t (map balance_key (balances db) @ map (\<lambda>l. (fl_tenant l, fl_product l, fl_location l)) (layers db)) db))
      in addQuantityRows FIFO_LAYER_MISMATCH ScopeValuation (if active then FindingCritical else FindingWarning) active rows)"

text \<open>The lot of a lot balance, and the keys of the lot balances.\<close>

definition lotOf :: "lot_balance \<Rightarrow> inv_db \<Rightarrow> lot_row option" where
  "lotOf b db = List.find (\<lambda>r. lt_id r = lb_lot b \<and> lt_tenant r = lb_tenant b) (lots db)"

definition lotKey :: "inv_db \<Rightarrow> lot_balance \<Rightarrow> (id \<times> id \<times> id) option" where
  "lotKey db b = map_option (\<lambda>r. (lb_tenant b, lt_product r, lb_location b)) (lotOf b db)"

definition lotsAt :: "id \<times> id \<times> id \<Rightarrow> inv_db \<Rightarrow> int" where
  "lotsAt k db = sum_where (\<lambda>b. lotKey db b = Some k) lb_quantity (lot_balances db)"

definition tracksLots :: "id \<Rightarrow> id \<Rightarrow> inv_db \<Rightarrow> bool" where
  "tracksLots t p db \<longleftrightarrow> (case selectProduct t p db of None \<Rightarrow> False | Some r \<Rightarrow> pr_track_lots r)"

definition lotBalanceRows :: "id \<Rightarrow> inv_db \<Rightarrow> mismatch list" where
  "lotBalanceRows t db = mismatches (map (\<lambda>k. rowFor k (balanceOf k db) (lotsAt k db))
     (filter (\<lambda>(t', p, l). tracksLots t p db)
       (scopeKeys t (map balance_key (balances db) @ List.map_filter (lotKey db) (lot_balances db)) db)))"

definition allocatedOf :: "lot_balance \<Rightarrow> inv_db \<Rightarrow> int" where
  "allocatedOf b db = sum_where (\<lambda>a. ml_tenant a = lb_tenant b \<and> ml_lot a = lb_lot b \<and> ml_location a = lb_location b) ml_quantity (movement_lots db)"

definition lotLedgerRow :: "inv_db \<Rightarrow> lot_balance \<Rightarrow> mismatch option" where
  "lotLedgerRow db b =
     (case lotOf b db of
        None \<Rightarrow> None
      | Some r \<Rightarrow>
          if selectProduct (lt_tenant r) (lt_product r) db \<noteq> None \<and> hasLocation (lb_tenant b) (lb_location b) db
          then Some \<lparr>mm_product = lt_product r, mm_location = Some (lb_location b), mm_subject = Some (lt_code r),
                 mm_expected = allocatedOf b db, mm_actual = lb_quantity b\<rparr>
          else None)"

definition lotLedgerRows :: "id \<Rightarrow> inv_db \<Rightarrow> mismatch list" where
  "lotLedgerRows t db = mismatches (List.map_filter (lotLedgerRow db) (filter (\<lambda>b. lb_tenant b = t) (lot_balances db)))"

definition collectLots :: "id \<Rightarrow> inv_db \<Rightarrow> finding list" where
  "collectLots t db =
     addQuantityRows LOT_BALANCE_MISMATCH ScopeLot FindingCritical True (lotBalanceRows t db) @
     addQuantityRows LOT_LEDGER_MISMATCH ScopeLot FindingCritical True (lotLedgerRows t db)"

section \<open>Serials\<close>

text \<open>The serials in a state at the location of a balance, in thousandths of a unit.\<close>

definition serialsIn :: "balance_row \<Rightarrow> stock_state \<Rightarrow> inv_db \<Rightarrow> int" where
  "serialsIn b s db = sum_where (\<lambda>r. sr_tenant r = ba_tenant b \<and> sr_product r = ba_product b \<and> sr_location r = Some (ba_location b) \<and>
     sr_status r = statusOf s) (\<lambda>_. 1000) (serials db)"

definition stateText :: "stock_state \<Rightarrow> string" where
  "stateText s = (case s of AVAILABLE \<Rightarrow> ''AVAILABLE'' | RESERVED \<Rightarrow> ''RESERVED'' | DAMAGED \<Rightarrow> ''DAMAGED'' | IN_TRANSIT \<Rightarrow> ''IN_TRANSIT'')"

definition tracksSerials :: "id \<Rightarrow> id \<Rightarrow> inv_db \<Rightarrow> bool" where
  "tracksSerials t p db \<longleftrightarrow> (case selectProduct t p db of None \<Rightarrow> False | Some r \<Rightarrow> pr_track_serials r)"

definition serialStateRows :: "id \<Rightarrow> inv_db \<Rightarrow> mismatch list" where
  "serialStateRows t db = mismatches (concat (map (\<lambda>b. map (\<lambda>s.
       (rowFor (balance_key b) (case s of AVAILABLE \<Rightarrow> ba_available b | RESERVED \<Rightarrow> ba_reserved b | DAMAGED \<Rightarrow> ba_damaged b | IN_TRANSIT \<Rightarrow> ba_in_transit b)
          (serialsIn b s db))\<lparr>mm_subject := Some (stateText s)\<rparr>) [AVAILABLE, RESERVED, DAMAGED, IN_TRANSIT])
     (filter (\<lambda>b. ba_tenant b = t \<and> tracksSerials t (ba_product b) db \<and> hasLocation t (ba_location b) db) (balances db))))"

text \<open>The newest event of a serial, by time and then id.\<close>

definition newerEvent :: "serial_event \<Rightarrow> serial_event \<Rightarrow> bool" where
  "newerEvent n e \<longleftrightarrow> se_created_at e < se_created_at n \<or> se_created_at n = se_created_at e \<and> se_id e < se_id n"

definition lastEvent :: "serial_row \<Rightarrow> inv_db \<Rightarrow> serial_event option" where
  "lastEvent s db = (let es = filter (\<lambda>e. se_tenant e = sr_tenant s \<and> se_serial e = sr_id s) (serial_events db) in
     List.find (\<lambda>e. \<not> (\<exists>n\<in>set es. newerEvent n e)) es)"

definition currentLocationInvalid :: "inv_db \<Rightarrow> serial_row \<Rightarrow> bool" where
  "currentLocationInvalid db s \<longleftrightarrow>
     (if sr_status s \<in> {SerialAvailable, SerialReserved, SerialDamaged, SerialInTransit}
      then (case sr_location s of None \<Rightarrow> True | Some l \<Rightarrow> selectBalance (sr_tenant s, sr_product s, l) db = None)
      else sr_location s \<noteq> None)"

definition historyInvalid :: "inv_db \<Rightarrow> serial_row \<Rightarrow> bool" where
  "historyInvalid db s \<longleftrightarrow> (case lastEvent s db of None \<Rightarrow> True | Some e \<Rightarrow> se_to e \<noteq> sr_status s \<or> se_to_location e \<noteq> sr_location s)"

definition custodyFinding :: "inv_db \<Rightarrow> serial_row \<Rightarrow> finding" where
  "custodyFinding db s = \<lparr>fi_code = (if currentLocationInvalid db s then SERIAL_CUSTODY_INVALID else SERIAL_HISTORY_MISMATCH),
     fi_severity = FindingCritical, fi_scope = ScopeSerial, fi_product = Some (sr_product s), fi_location = sr_location s,
     fi_subject = Some (sr_number s), fi_expected = None, fi_actual = None, fi_difference = None, fi_blocks = True\<rparr>"

definition collectSerials :: "id \<Rightarrow> inv_db \<Rightarrow> finding list" where
  "collectSerials t db =
     addQuantityRows SERIAL_STATE_MISMATCH ScopeSerial FindingCritical True (serialStateRows t db) @
     map (custodyFinding db) (filter (\<lambda>s. sr_tenant s = t \<and> selectProduct t (sr_product s) db \<noteq> None \<and>
        (currentLocationInvalid db s \<or> historyInvalid db s)) (serials db))"

definition findingsOf :: "id \<Rightarrow> valuation_method \<Rightarrow> inv_db \<Rightarrow> finding list" where
  "findingsOf t meth db =
     addQuantityRows BALANCE_MOVEMENT_MISMATCH ScopeLocation FindingCritical True (movementRows t db) @
     addQuantityRows BALANCE_STATE_MISMATCH ScopeLocation FindingCritical True (stateRows t db) @
     valuationFindings t db @ collectFifo t meth db @ collectLots t db @ collectSerials t db"

definition collect :: "id \<Rightarrow> finding list act" where
  "collect t =
     bindM (readM (\<lambda>db. List.find (\<lambda>p. po_tenant p = t) (policies db))) (\<lambda>found.
     bindM (requireM InventoryValuationPolicyNotFound found) (\<lambda>policy.
     readM (findingsOf t (po_method policy))))"

section \<open>The stored run\<close>

text \<open>A run as it is returned: the row, its findings (critical ones first, then by code and id) and
  the two flags of its policy.\<close>

record run_document =
  rd_run :: reconciliation_run
  rd_findings :: "finding_row list"
  rd_release_blocked :: bool
  rd_operations_blocked :: bool

definition severityRank :: "finding_severity \<Rightarrow> nat" where
  "severityRank s = (case s of FindingCritical \<Rightarrow> 1 | FindingWarning \<Rightarrow> 2)"

definition loadRun :: "id \<Rightarrow> id \<Rightarrow> run_document act" where
  "loadRun t runId =
     bindM (readM (\<lambda>db. List.find (\<lambda>r. rr_id r = runId \<and> rr_tenant r = t) (recon_runs db))) (\<lambda>found.
     bindM (requireM InventoryReconciliationNotFound found) (\<lambda>run.
     bindM (readM (\<lambda>db. sort_key (\<lambda>f. (severityRank (fi_severity (fn_finding f)), fi_code (fn_finding f), fn_id f))
        (filter (\<lambda>f. fn_run f = runId \<and> fn_tenant f = t) (recon_findings db)))) (\<lambda>rows.
     returnM \<lparr>rd_run = run, rd_findings = rows, rd_release_blocked = 0 < rr_critical run, rd_operations_blocked = rr_blocked run\<rparr>)))"

definition findRun :: "id \<Rightarrow> string \<Rightarrow> inv_db \<Rightarrow> reconciliation_run option" where
  "findRun t key db = List.find (\<lambda>r. rr_tenant r = t \<and> rr_key r = key) (recon_runs db)"

text \<open>Unique \<open>(tenant_id, idempotency_key)\<close>.\<close>

definition insertRun :: "reconciliation_run \<Rightarrow> unit act" where
  "insertRun r =
     bindM (readM recon_runs) (\<lambda>rows.
     thenM (ensureM DuplicateEntry (\<forall>x\<in>set rows. \<not> (rr_tenant x = rr_tenant r \<and> rr_key x = rr_key r)))
       (writeM (\<lambda>db. db\<lparr>recon_runs := recon_runs db @ [r]\<rparr>)))"

text \<open>\<open>persistFindings\<close> inserts in batches of 200 rows.\<close>

function batches :: "'a list \<Rightarrow> 'a list list" where
  "batches [] = []"
| "batches (x # xs) = take 200 (x # xs) # batches (drop 200 (x # xs))"
  by pat_completeness auto
termination by (relation "measure length") simp_all

definition newFinding :: "id \<Rightarrow> id \<Rightarrow> finding \<Rightarrow> finding_row act" where
  "newFinding t runId f = bindM newRow (\<lambda>(i, now). returnM \<lparr>fn_id = i, fn_tenant = t, fn_run = runId, fn_finding = f\<rparr>)"

definition insertBatch :: "id \<Rightarrow> id \<Rightarrow> finding list \<Rightarrow> unit act" where
  "insertBatch t runId batch =
     bindM (mapM (newFinding t runId) batch) (\<lambda>rows. writeM (\<lambda>db. db\<lparr>recon_findings := recon_findings db @ rows\<rparr>))"

definition persistFindings :: "id \<Rightarrow> id \<Rightarrow> finding list \<Rightarrow> unit act" where
  "persistFindings t runId findings = forM (insertBatch t runId) (batches findings)"

definition countWarnings :: "finding list \<Rightarrow> nat" where
  "countWarnings findings = length (filter (\<lambda>f. fi_severity f = FindingWarning) findings)"

definition overallStatus :: "nat \<Rightarrow> nat \<Rightarrow> reconciliation_status" where
  "overallStatus critical warnings = (if 0 < critical then Critical else if 0 < warnings then Warning else Healthy)"

definition completeRun :: "id \<Rightarrow> id \<Rightarrow> finding list \<Rightarrow> unit act" where
  "completeRun t runId findings =
     (let warnings = countWarnings findings; critical = length findings - warnings in
      writeM (\<lambda>db. db\<lparr>recon_runs := update_where (\<lambda>r. rr_id r = runId \<and> rr_tenant r = t)
        (\<lambda>r. r\<lparr>rr_completed := True, rr_overall := overallStatus critical warnings, rr_findings := length findings,
           rr_warnings := warnings, rr_critical := critical, rr_blocked := list_ex fi_blocks findings\<rparr>) (recon_runs db)\<rparr>))"

definition setGuard :: "id \<Rightarrow> id \<Rightarrow> bool \<Rightarrow> unit act" where
  "setGuard t runId blocked =
     writeM (\<lambda>db. if list_ex (\<lambda>g. gu_tenant g = t) (guards db)
       then db\<lparr>guards := update_where (\<lambda>g. gu_tenant g = t) (\<lambda>g. g\<lparr>gu_latest_run := runId, gu_blocked := blocked\<rparr>) (guards db)\<rparr>
       else db\<lparr>guards := guards db @ [\<lparr>gu_tenant = t, gu_latest_run = runId, gu_blocked = blocked\<rparr>]\<rparr>)"

section \<open>run\<close>

definition newRun :: "id \<Rightarrow> id \<Rightarrow> string \<Rightarrow> (run_document \<times> bool) act" where
  "newRun t user key =
     bindM newRow (\<lambda>(runId, now).
     thenM (insertRun \<lparr>rr_id = runId, rr_tenant = t, rr_key = key, rr_completed = False, rr_overall = Healthy, rr_findings = 0,
        rr_warnings = 0, rr_critical = 0, rr_blocked = False, rr_user = user, rr_started_at = now\<rparr>)
     (bindM (collect t) (\<lambda>findings.
      thenM (persistFindings t runId findings)
      (thenM (completeRun t runId findings)
      (thenM (setGuard t runId (list_ex fi_blocks findings))
      (bindM (loadRun t runId) (\<lambda>d. returnM (d, False))))))))"

definition reconcileTransaction :: "id \<Rightarrow> id \<Rightarrow> string \<Rightarrow> (run_document \<times> bool) act" where
  "reconcileTransaction t user key =
     bindM (readM (findRun t key)) (\<lambda>replay.
     case replay of
       Some r \<Rightarrow> bindM (loadRun t (rr_id r)) (\<lambda>d. returnM (d, True))
     | None \<Rightarrow> newRun t user key)"

definition reconcile :: "id \<Rightarrow> id \<Rightarrow> string option \<Rightarrow> (run_document \<times> bool) act" where
  "reconcile t user value =
     bindM (assertIdempotencyKey value) (\<lambda>key.
     catchM (\<lambda>e. e = DuplicateEntry) (reconcileTransaction t user key)
       (\<lambda>e. bindM (readM (findRun t key)) (\<lambda>found.
        case found of None \<Rightarrow> throwM e | Some r \<Rightarrow> bindM (loadRun t (rr_id r)) (\<lambda>d. returnM (d, True)))))"

text \<open>\<open>latest\<close>: \<open>ORDER BY started_at DESC, id DESC LIMIT 1\<close>.\<close>

definition latestRun :: "id \<Rightarrow> run_document option act" where
  "latestRun t =
     bindM (readM (\<lambda>db. sort_key (\<lambda>r. (rr_started_at r, rr_id r)) (filter (\<lambda>r. rr_tenant r = t \<and> rr_completed r) (recon_runs db)))) (\<lambda>rows.
     if rows = [] then returnM None else bindM (loadRun t (rr_id (last rows))) (\<lambda>d. returnM (Some d)))"

end
