(* ===== verification/ReconciliationLaws.thy ===== *)
theory ReconciliationLaws
  imports Reconciliation
begin

text \<open>
  The laws of the reconciliation (theory \<open>Reconciliation\<close>): what a ledger, lots and serials that
  satisfy their invariants cannot be reported for, what a run stores, and that a run is an
  idempotent command in the sense of the locale of theory \<open>StockLaws\<close>.
\<close>

section \<open>Consistent tables are not reported\<close>

lemma addQuantityRows_code [simp]: "f \<in> set (addQuantityRows c s v b rows) \<Longrightarrow> fi_code f = c"
  by (auto simp: addQuantityRows_def findingFromRow_def)

lemma addQuantityRows_Nil [simp]: "addQuantityRows c s v b [] = []"
  by (simp add: addQuantityRows_def)

lemma mismatches_Nil: "mismatches rows = [] \<longleftrightarrow> (\<forall>r\<in>set rows. mm_actual r = mm_expected r)"
  by (auto simp: mismatches_def filter_empty_conv)

lemma rowFor_simps [simp]: "mm_expected (rowFor k e a) = e" "mm_actual (rowFor k e a) = a" "mm_expected (productRow p e a) = e" "mm_actual (productRow p e a) = a"
  by (simp_all add: rowFor_def productRow_def)

lemma movementRows_clean: "stock_inv db \<Longrightarrow> movementRows t db = []"
  by (simp add: movementRows_def mismatches_Nil stock_gapD(6) stock_inv_def)

lemma stateRows_clean: "stock_inv db \<Longrightarrow> stateRows t db = []"
  using stock_gapD(4) [of "\<lambda>_. 0" db]
  by (auto simp: stateRows_def mismatches_Nil stock_inv_def balance_check_def stateSum_def)

text \<open>A sum over a product is the sum of the sums over its locations.\<close>

lemma sum_by_location:
  assumes "finite L" "\<And>x. x \<in> set xs \<Longrightarrow> loc x \<in> L"
  shows "sum_where p f xs = (\<Sum>l\<in>L. sum_where (\<lambda>x. p x \<and> loc x = l) f xs)"
  using assms(2)
proof (induction xs)
  case (Cons x xs)
  have "(\<Sum>l\<in>L. if p x \<and> loc x = l then f x else 0) = (if p x then f x else 0)"
    using Cons.prems [of x] assms(1) by (cases "p x") (simp_all add: sum.delta)
  then show ?case using Cons by (simp add: sum.distrib)
qed simp

lemma held_moved:
  assumes "stock_inv db"
  shows "heldOf t p db = movedOf (t, p) db"
proof -
  let ?L = "ba_location ` set (balances db) \<union> mv_location ` set (movements db)"
  have "heldOf t p db = (\<Sum>l\<in>?L. balanceOf (t, p, l) db)"
    unfolding heldOf_def balanceOf_def by (subst sum_by_location [where L = ?L and loc = ba_location]) (auto intro!: sum.cong)
  also have "\<dots> = (\<Sum>l\<in>?L. movedAt (t, p, l) db)"
    using assms by (simp add: stock_inv_def stock_gapD(6))
  also have "\<dots> = movedOf (t, p) db"
    unfolding movedOf_def movedAt_def by (subst sum_by_location [where L = ?L and loc = mv_location]) (auto intro!: sum.cong)
  finally show ?thesis .
qed

lemma sum_where_distinct_key:
  assumes "distinct (map key xs)"
  shows "sum_where (\<lambda>x. key x = k) f xs = (case List.find (\<lambda>x. key x = k) xs of None \<Rightarrow> 0 | Some x \<Rightarrow> f x)"
  using assms
proof (induction xs)
  case (Cons x xs)
  have "key x = k \<Longrightarrow> sum_where (\<lambda>x. key x = k) f xs = 0"
    using Cons.prems by (intro sum_where_none) (auto simp: image_iff)
  then show ?case using Cons by simp
qed simp

lemma valued_quantity: "stock_inv db \<Longrightarrow> valuedQuantity t p db = heldOf t p db"
  using sum_where_distinct_key [of "\<lambda>v. (va_tenant v, va_product v)" "valuations db" "(t, p)" va_quantity] held_moved [of db t p]
  by (simp add: stock_inv_def stock_gap_def valuedQuantity_def selectValuation_def valuationQuantity_def)

lemma lotLedgerRows_clean:
  assumes "lot_inv db"
  shows "lotLedgerRows t db = []"
proof -
  have "lb_quantity b = allocatedOf b db" if b: "b \<in> set (lot_balances db)" for b
  proof -
    have "lotBalanceOf (lot_key b) db = lb_quantity b"
      using find_unique_key [OF lot_invD(1) [OF assms] b, of "\<lambda>x. lot_key x = lot_key b"]
        sum_where_distinct_key [OF lot_invD(1) [OF assms], of "lot_key b" lb_quantity]
      by (simp add: lotBalanceOf_def)
    then show ?thesis using lot_invD(4) [OF assms, of "lot_key b"] by (simp add: lotLedger_def allocatedOf_def)
  qed
  then show ?thesis
    by (auto simp: lotLedgerRows_def mismatches_Nil lotLedgerRow_def List.map_filter_def split: option.splits if_splits)
qed

text \<open>The events of the serials are stored in the order of their times, when the clock advances
  with every row.\<close>

definition event_clock :: "inv_db \<Rightarrow> bool" where
  "event_clock db \<longleftrightarrow> strict_mono (env_clock db) \<and> sorted_wrt (<) (map se_created_at (serial_events db)) \<and>
     (\<forall>e\<in>set (serial_events db). \<exists>n<ticks db. se_created_at e = env_clock db n)"

lemma lastEvent_last:
  assumes "sorted_wrt (<) (map se_created_at es)" "es \<noteq> []"
  shows "List.find (\<lambda>e. \<not> (\<exists>n\<in>set es. newerEvent n e)) es = Some (last es)"
proof -
  obtain xs e where es: "es = xs @ [e]" using assms(2) by (metis rev_exhaust)
  have up: "se_created_at x < se_created_at e" if "x \<in> set xs" for x
    using assms(1) that by (auto simp: es sorted_wrt_append)
  have "List.find (\<lambda>x. \<not> (\<exists>n\<in>set es. newerEvent n x)) xs = None"
    unfolding find_None_iff using up by (auto simp: es newerEvent_def)
  moreover have "\<not> (\<exists>n\<in>set es. newerEvent n e)" using up by (fastforce simp: es newerEvent_def)
  ultimately show ?thesis by (simp add: es find_append)
qed

lemma replay_last: "replay p es = Some q \<Longrightarrow> es \<noteq> [] \<Longrightarrow> q = Some (eventTo (last es))"
  by (induction p es rule: replay.induct) (auto split: if_splits)

lemma history_clean:
  assumes inv: "serial_inv db" and clock: "event_clock db" and s: "s \<in> set (serials db)"
  shows "\<not> historyInvalid db s"
proof -
  let ?h = "history (sr_tenant s) (sr_id s) db"
  note replay = serial_invD(6) [OF inv s]
  then have ne: "?h \<noteq> []" by auto
  have "sorted_wrt (<) (map se_created_at ?h)"
    using clock by (simp add: event_clock_def history_def sorted_wrt_map sorted_wrt_filter)
  from lastEvent_last [OF this ne] have "lastEvent s db = Some (last ?h)"
    by (simp only: lastEvent_def history_def Let_def)
  then show ?thesis
    using replay_last [OF replay ne] by (simp add: historyInvalid_def place_def eventTo_def)
qed

lemma findingsOf_cases:
  assumes "f \<in> set (findingsOf t meth db)"
  shows "fi_code f = BALANCE_MOVEMENT_MISMATCH \<and> movementRows t db \<noteq> [] \<or> fi_code f = BALANCE_STATE_MISMATCH \<and> stateRows t db \<noteq> [] \<or>
    fi_code f = VALUATION_QUANTITY_MISMATCH \<and> (\<exists>p. valuedQuantity t p db \<noteq> heldOf t p db) \<or>
    fi_code f = VALUATION_VALUE_MISMATCH \<and> (\<exists>p. valuedAmount t p db \<noteq> valueMoved t p db) \<or>
    fi_code f = FIFO_LAYER_MISMATCH \<or> fi_code f = LOT_BALANCE_MISMATCH \<or> fi_code f = LOT_LEDGER_MISMATCH \<and> lotLedgerRows t db \<noteq> [] \<or>
    fi_code f = SERIAL_STATE_MISMATCH \<or> fi_code f = SERIAL_CUSTODY_INVALID \<or>
    fi_code f = SERIAL_HISTORY_MISMATCH \<and> (\<exists>s\<in>set (serials db). historyInvalid db s)"
proof -
  consider "f \<in> set (addQuantityRows BALANCE_MOVEMENT_MISMATCH ScopeLocation FindingCritical True (movementRows t db))"
    | "f \<in> set (addQuantityRows BALANCE_STATE_MISMATCH ScopeLocation FindingCritical True (stateRows t db))"
    | "f \<in> set (valuationFindings t db)" | "f \<in> set (collectFifo t meth db)" | "f \<in> set (collectLots t db)" | "f \<in> set (collectSerials t db)"
    using assms unfolding findingsOf_def by auto
  then show ?thesis
  proof cases
    case 1
    then have "movementRows t db \<noteq> []" by auto
    then show ?thesis using addQuantityRows_code [OF 1] by simp
  next
    case 2
    then have "stateRows t db \<noteq> []" by auto
    then show ?thesis using addQuantityRows_code [OF 2] by simp
  next
    case 3
    then have "\<exists>q :: product_row. f \<in> set (productFindings t (pr_id q) db)" by (auto simp: valuationFindings_def)
    then obtain q :: product_row where "f \<in> set (productFindings t (pr_id q) db)" by blast
    then consider (quantity) "f \<in> set (addQuantityRows VALUATION_QUANTITY_MISMATCH ScopeValuation FindingCritical True
         (mismatches [productRow (pr_id q) (heldOf t (pr_id q) db) (valuedQuantity t (pr_id q) db)]))"
      | (amount) "f \<in> set (addQuantityRows VALUATION_VALUE_MISMATCH ScopeValuation FindingCritical True
         (mismatches [productRow (pr_id q) (valueMoved t (pr_id q) db) (valuedAmount t (pr_id q) db)]))"
      unfolding productFindings_def set_append by blast
    then show ?thesis
    proof cases
      case quantity
      then have "valuedQuantity t (pr_id q) db \<noteq> heldOf t (pr_id q) db" by (auto simp: mismatches_def)
      then show ?thesis using addQuantityRows_code [OF quantity] by blast
    next
      case amount
      then have "valuedAmount t (pr_id q) db \<noteq> valueMoved t (pr_id q) db" by (auto simp: mismatches_def)
      then show ?thesis using addQuantityRows_code [OF amount] by blast
    qed
  next
    case 4
    from addQuantityRows_code [OF this [unfolded collectFifo_def Let_def]] show ?thesis by simp
  next
    case 5
    then consider "f \<in> set (addQuantityRows LOT_BALANCE_MISMATCH ScopeLot FindingCritical True (lotBalanceRows t db))"
      | "f \<in> set (addQuantityRows LOT_LEDGER_MISMATCH ScopeLot FindingCritical True (lotLedgerRows t db))"
      unfolding collectLots_def set_append by blast
    then show ?thesis
    proof cases
      case 1
      from addQuantityRows_code [OF 1] show ?thesis by simp
    next
      case 2
      then have "lotLedgerRows t db \<noteq> []" by auto
      then show ?thesis using addQuantityRows_code [OF 2] by simp
    qed
  next
    case 6
    then consider "f \<in> set (addQuantityRows SERIAL_STATE_MISMATCH ScopeSerial FindingCritical True (serialStateRows t db))"
      | s where "s \<in> set (serials db)" "f = custodyFinding db s" "currentLocationInvalid db s \<or> historyInvalid db s"
      unfolding collectSerials_def by auto
    then show ?thesis
    proof cases
      case 1
      from addQuantityRows_code [OF 1] show ?thesis by simp
    next
      case 2
      then show ?thesis by (cases "currentLocationInvalid db s") (auto simp: custodyFinding_def)
    qed
  qed
qed

section \<open>Batches\<close>

lemma concat_batches: "concat (batches xs) = xs"
  by (induction xs rule: batches.induct) (simp_all del: take_Suc_Cons drop_Suc_Cons)

lemma batches_bounds: "b \<in> set (batches xs) \<Longrightarrow> b \<noteq> [] \<and> length b \<le> 200"
  by (induction xs rule: batches.induct) auto

text \<open>The rows of the findings, with ids from the \<open>n\<close>-th on.\<close>

definition findingRows :: "id \<Rightarrow> id \<Rightarrow> (nat \<Rightarrow> id) \<Rightarrow> nat \<Rightarrow> finding list \<Rightarrow> finding_row list" where
  "findingRows t runId uuid n fs = map (\<lambda>(i, f). \<lparr>fn_id = uuid i, fn_tenant = t, fn_run = runId, fn_finding = f\<rparr>) (List.enumerate n fs)"

lemma findingRows_simps [simp]:
  "findingRows t i u n [] = []" "findingRows t i u n (f # fs) = \<lparr>fn_id = u n, fn_tenant = t, fn_run = i, fn_finding = f\<rparr> # findingRows t i u (Suc n) fs"
  "findingRows t i u n (fs @ gs) = findingRows t i u n fs @ findingRows t i u (n + length fs) gs"
  by (simp_all add: findingRows_def enumerate_append_eq)

lemma findingRows_props: "map fn_finding (findingRows t i u n fs) = fs" "r \<in> set (findingRows t i u n fs) \<Longrightarrow> fn_run r = i \<and> fn_tenant r = t"
  by (induction fs arbitrary: n) auto

lemma mapM_newFinding:
  "mapM (newFinding t i) fs db = Inr (findingRows t i (env_uuid db) (ticks db) fs, db\<lparr>ticks := ticks db + length fs\<rparr>)"
  by (induction fs arbitrary: db) (simp_all add: newFinding_def newRow_def evalM)

lemma insertBatch_run:
  "insertBatch t i fs db = Inr ((), db\<lparr>ticks := ticks db + length fs,
     recon_findings := recon_findings db @ findingRows t i (env_uuid db) (ticks db) fs\<rparr>)"
  by (simp add: insertBatch_def bindM_def mapM_newFinding writeM_def)

lemma forM_insertBatch:
  "forM (insertBatch t i) bs db = insertBatch t i (concat bs) db"
proof (induction bs arbitrary: db)
  case Nil
  show ?case by (simp add: insertBatch_run returnM_def)
next
  case (Cons b bs)
  show ?case
    by (simp only: forM.simps thenM_step [OF insertBatch_run] Cons.IH) (simp add: insertBatch_run add.assoc)
qed

lemma persistFindings_run: "persistFindings t i fs = insertBatch t i fs"
  by (rule ext) (simp add: persistFindings_def forM_insertBatch concat_batches)

section \<open>A run\<close>

lemma collect_Inr: "collect t db = Inr (fs, db') \<longleftrightarrow>
   (\<exists>p. List.find (\<lambda>p. po_tenant p = t) (policies db) = Some p \<and> fs = findingsOf t (po_method p) db \<and> db' = db)"
  by (auto simp: collect_def bindM_Inr)

lemma loadRun_Inr: "loadRun t i db = Inr (d, db') \<longleftrightarrow>
   (\<exists>r. List.find (\<lambda>r. rr_id r = i \<and> rr_tenant r = t) (recon_runs db) = Some r \<and> db' = db \<and>
     d = \<lparr>rd_run = r, rd_findings = sort_key (\<lambda>f. (severityRank (fi_severity (fn_finding f)), fi_code (fn_finding f), fn_id f))
        (filter (\<lambda>f. fn_run f = i \<and> fn_tenant f = t) (recon_findings db)),
        rd_release_blocked = 0 < rr_critical r, rd_operations_blocked = rr_blocked r\<rparr>)"
  by (auto simp: loadRun_def bindM_Inr)

definition inventoryTables where
  "inventoryTables db = ((products db, locations db, balances db, movements db, valuations db, layers db),
     (lots db, lot_balances db, movement_lots db, serials db, serial_events db))"

lemma inventoryTables_frame [simp]:
  "inventoryTables (db\<lparr>ticks := n\<rparr>) = inventoryTables db" "inventoryTables (db\<lparr>recon_runs := rs\<rparr>) = inventoryTables db"
  "inventoryTables (db\<lparr>recon_findings := fs\<rparr>) = inventoryTables db" "inventoryTables (db\<lparr>guards := gs\<rparr>) = inventoryTables db"
  by (simp_all add: inventoryTables_def)

lemma inventoryTablesD:
  assumes "inventoryTables db' = inventoryTables db"
  shows "products db' = products db" "locations db' = locations db" "balances db' = balances db" "movements db' = movements db"
    "valuations db' = valuations db" "layers db' = layers db" "lots db' = lots db" "lot_balances db' = lot_balances db"
    "movement_lots db' = movement_lots db" "serials db' = serials db" "serial_events db' = serial_events db"
  using assms by (simp_all add: inventoryTables_def)

text \<open>What is found depends on the inventory tables only.\<close>

lemma findingsOf_cong:
  assumes "inventoryTables db' = inventoryTables db"
  shows "findingsOf t meth db' = findingsOf t meth db"
proof -
  note same = inventoryTablesD [OF assms]
  have reads: "selectProduct t p db' = selectProduct t p db" "hasLocation t l db' = hasLocation t l db" "balanceOf k db' = balanceOf k db" "movedAt k db' = movedAt k db"
    "lotOf b db' = lotOf b db" "lastEvent s db' = lastEvent s db" "selectBalance k db' = selectBalance k db" for t p l k b s
    by (simp_all add: selectProduct_def hasLocation_def balanceOf_def movedAt_def lotOf_def lastEvent_def selectBalance_def same)
  have rows: "scopeKeys t ks db' = scopeKeys t ks db" "lotKey db' = lotKey db" "tracksLots t p db' = tracksLots t p db" "tracksSerials t p db' = tracksSerials t p db"
    "allocatedOf b db' = allocatedOf b db" "serialsIn x st db' = serialsIn x st db" "currentLocationInvalid db' s = currentLocationInvalid db s"
    "historyInvalid db' s = historyInvalid db s" for ks p b x st s
    by (simp_all add: scopeKeys_def fun_eq_iff lotKey_def tracksLots_def tracksSerials_def allocatedOf_def serialsIn_def currentLocationInvalid_def historyInvalid_def reads same
        split: option.split)
  have more: "lotLedgerRow db' = lotLedgerRow db" "custodyFinding db' = custodyFinding db" "productFindings t p db' = productFindings t p db" for p
    by (simp_all add: fun_eq_iff lotLedgerRow_def custodyFinding_def productFindings_def heldOf_def valueMoved_def valuedQuantity_def valuedAmount_def selectValuation_def reads rows same
        split: option.split)
  show ?thesis
    by (simp add: findingsOf_def movementRows_def stateRows_def valuationFindings_def collectFifo_def collectLots_def collectSerials_def lotBalanceRows_def lotLedgerRows_def
        serialStateRows_def layerAt_def lotsAt_def reads rows more same)
qed

lemma findingsOf_frame [simp]:
  "findingsOf t meth (db\<lparr>ticks := n\<rparr>) = findingsOf t meth db" "findingsOf t meth (db\<lparr>recon_runs := rs\<rparr>) = findingsOf t meth db"
  by (rule findingsOf_cong, simp)+

text \<open>What consistent tables never show.\<close>

lemma clean_findings:
  assumes "f \<in> set (findingsOf t meth db)"
  shows "stock_inv db \<Longrightarrow> fi_code f \<notin> {BALANCE_MOVEMENT_MISMATCH, BALANCE_STATE_MISMATCH, VALUATION_QUANTITY_MISMATCH}"
    "lot_inv db \<Longrightarrow> fi_code f \<noteq> LOT_LEDGER_MISMATCH" "serial_inv db \<Longrightarrow> event_clock db \<Longrightarrow> fi_code f \<noteq> SERIAL_HISTORY_MISMATCH"
  using assms movementRows_clean stateRows_clean valued_quantity lotLedgerRows_clean history_clean by (fastforce dest: findingsOf_cases)+

text \<open>The row of a run while it is running and when it is complete, and the guard after it.\<close>

definition openRun :: "id \<Rightarrow> id \<Rightarrow> id \<Rightarrow> string \<Rightarrow> nat \<Rightarrow> reconciliation_run" where
  "openRun i t user key now = \<lparr>rr_id = i, rr_tenant = t, rr_key = key, rr_completed = False, rr_overall = Healthy, rr_findings = 0,
     rr_warnings = 0, rr_critical = 0, rr_blocked = False, rr_user = user, rr_started_at = now\<rparr>"

definition closeRun :: "finding list \<Rightarrow> reconciliation_run \<Rightarrow> reconciliation_run" where
  "closeRun fs r = r\<lparr>rr_completed := True, rr_overall := overallStatus (length fs - countWarnings fs) (countWarnings fs), rr_findings := length fs,
     rr_warnings := countWarnings fs, rr_critical := length fs - countWarnings fs, rr_blocked := list_ex fi_blocks fs\<rparr>"

definition guarded :: "id \<Rightarrow> id \<Rightarrow> bool \<Rightarrow> guard_row list \<Rightarrow> guard_row list" where
  "guarded t i b gs = (if list_ex (\<lambda>g. gu_tenant g = t) gs
     then update_where (\<lambda>g. gu_tenant g = t) (\<lambda>g. g\<lparr>gu_latest_run := i, gu_blocked := b\<rparr>) gs
     else gs @ [\<lparr>gu_tenant = t, gu_latest_run = i, gu_blocked = b\<rparr>])"

lemma guarded_find:
  "List.find (\<lambda>g. gu_tenant g = t) (guarded t i b gs) = Some \<lparr>gu_tenant = t, gu_latest_run = i, gu_blocked = b\<rparr>"
  "t' \<noteq> t \<Longrightarrow> List.find (\<lambda>g. gu_tenant g = t') (guarded t i b gs) = List.find (\<lambda>g. gu_tenant g = t') gs"
proof -
  show "List.find (\<lambda>g. gu_tenant g = t) (guarded t i b gs) = Some \<lparr>gu_tenant = t, gu_latest_run = i, gu_blocked = b\<rparr>"
  proof (cases "List.find (\<lambda>g. gu_tenant g = t) gs")
    case None
    then have "\<not> list_ex (\<lambda>g. gu_tenant g = t) gs" by (auto simp: find_None_iff list_ex_iff)
    then show ?thesis using None by (simp add: guarded_def find_append)
  next
    case (Some g)
    note row = find_Some_props [OF Some]
    then have "list_ex (\<lambda>g. gu_tenant g = t) gs" by (auto simp: list_ex_iff)
    then show ?thesis using Some row by (simp add: guarded_def find_update_where)
  qed
  show "List.find (\<lambda>g. gu_tenant g = t') (guarded t i b gs) = List.find (\<lambda>g. gu_tenant g = t') gs" if "t' \<noteq> t"
    using that by (cases "List.find (\<lambda>g. gu_tenant g = t') gs") (auto simp: guarded_def find_append find_update_where dest: find_Some_props)
qed

definition afterRun :: "id \<Rightarrow> id \<Rightarrow> string \<Rightarrow> finding list \<Rightarrow> inv_db \<Rightarrow> inv_db" where
  "afterRun t user key fs db = (let i = env_uuid db (ticks db) in
     db\<lparr>ticks := Suc (ticks db) + length fs, recon_findings := recon_findings db @ findingRows t i (env_uuid db) (Suc (ticks db)) fs,
       recon_runs := update_where (\<lambda>r. rr_id r = i \<and> rr_tenant r = t) (closeRun fs) (recon_runs db @ [openRun i t user key (env_clock db (ticks db))]),
       guards := guarded t i (list_ex fi_blocks fs) (guards db)\<rparr>)"

lemma newRun_run:
  assumes p: "List.find (\<lambda>p. po_tenant p = t) (policies db) = Some p" and fresh: "findRun t key db = None"
  shows "newRun t user key db = (case loadRun t (env_uuid db (ticks db)) (afterRun t user key (findingsOf t (po_method p) db) db) of
      Inl e \<Rightarrow> Inl e | Inr (d, db') \<Rightarrow> Inr ((d, False), db'))"
proof -
  have dup: "\<forall>x\<in>set (recon_runs db). \<not> (rr_tenant x = t \<and> rr_key x = key)" using fresh by (auto simp: findRun_def find_None_iff)
  show ?thesis
    using p dup unfolding newRun_def afterRun_def collect_def insertRun_def completeRun_def setGuard_def persistFindings_run Let_def
    by (simp add: evalM newRow_def insertBatch_run guarded_def openRun_def closeRun_def [abs_def] cong: if_cong)
qed

lemma newRun_Inr:
  assumes run: "newRun t user key db = Inr (res, db')"
  obtains p d where "List.find (\<lambda>p. po_tenant p = t) (policies db) = Some p" "findRun t key db = None"
    "db' = afterRun t user key (findingsOf t (po_method p) db) db" "loadRun t (env_uuid db (ticks db)) db' = Inr (d, db')" "res = (d, False)"
proof -
  have "findRun t key db = None" and "\<exists>p. List.find (\<lambda>p. po_tenant p = t) (policies db) = Some p"
    using run by (auto simp: newRun_def insertRun_def collect_def runM findRun_def find_None_iff)
  then obtain p where p: "List.find (\<lambda>p. po_tenant p = t) (policies db) = Some p" and none: "findRun t key db = None" by blast
  obtain d s where "loadRun t (env_uuid db (ticks db)) (afterRun t user key (findingsOf t (po_method p) db) db) = Inr (d, s)" "db' = s" "res = (d, False)"
    using run unfolding newRun_run [OF p none] by (auto split: sum.splits)
  moreover from this(1) have "s = afterRun t user key (findingsOf t (po_method p) db) db" by (auto simp: loadRun_Inr)
  ultimately show ?thesis using that [OF p none] by simp
qed

lemma afterRun_tables [simp]: "inventoryTables (afterRun t user key fs db) = inventoryTables db"
  by (simp add: afterRun_def Let_def)

lemma closeRun_simps [simp]: "rr_id (closeRun fs r) = rr_id r" "rr_tenant (closeRun fs r) = rr_tenant r" "rr_key (closeRun fs r) = rr_key r"
  by (simp_all add: closeRun_def)

lemma openRun_simps [simp]: "rr_id (openRun i t user key now) = i" "rr_tenant (openRun i t user key now) = t" "rr_key (openRun i t user key now) = key"
  by (simp_all add: openRun_def)

lemma findRun_after:
  "findRun t key db = None \<Longrightarrow>
   findRun t key (afterRun t user key fs db) = Some (closeRun fs (openRun (env_uuid db (ticks db)) t user key (env_clock db (ticks db))))"
  by (simp add: findRun_def afterRun_def Let_def find_update_where find_append)

lemma find_exists: "x \<in> set xs \<Longrightarrow> p x \<Longrightarrow> \<exists>y. List.find p xs = Some y"
  using find_None_iff [of p xs] by (cases "List.find p xs") auto

lemma loadRun_found: "findRun t key db = Some r \<Longrightarrow> \<exists>d. loadRun t (rr_id r) db = Inr (d, db)"
  using find_Some_props [of "\<lambda>r. rr_tenant r = t \<and> rr_key r = key" "recon_runs db" r]
    find_exists [of r "recon_runs db" "\<lambda>x. rr_id x = rr_id r \<and> rr_tenant x = t"]
  by (auto simp: findRun_def loadRun_Inr)

text \<open>The stored document of a key.\<close>

definition storedRun :: "id \<Rightarrow> string \<Rightarrow> inv_db \<Rightarrow> run_document option" where
  "storedRun t key db = (case findRun t key db of None \<Rightarrow> None
     | Some r \<Rightarrow> (case loadRun t (rr_id r) db of Inl e \<Rightarrow> None | Inr (d, _) \<Rightarrow> Some d))"

lemma reconcile_invalid: "\<not> (\<exists>key. value = Some key \<and> validKey key) \<Longrightarrow> reconcile t user value db = Inl InvalidIdempotencyKey"
  by (auto simp: reconcile_def assertIdempotencyKey_def evalM split: option.split)

lemma reconcile_valid:
  "validKey key \<Longrightarrow> reconcile t user (Some key) db =
     (case findRun t key db of
        Some r \<Rightarrow> catchM (\<lambda>e. e = DuplicateEntry) (bindM (loadRun t (rr_id r)) (\<lambda>d. returnM (d, True))) (\<lambda>e. bindM (loadRun t (rr_id r)) (\<lambda>d. returnM (d, True))) db
      | None \<Rightarrow> catchM (\<lambda>e. e = DuplicateEntry) (newRun t user key) throwM db)"
  by (auto simp: reconcile_def assertIdempotencyKey_def reconcileTransaction_def bindM_def thenM_def ensureM_def returnM_def readM_def catchM_def
      split: option.split sum.split)

lemma reconcile_stored: "validKey key \<Longrightarrow> storedRun t key db = Some d \<Longrightarrow> reconcile t user (Some key) db = Inr ((d, True), db)"
  by (auto simp: reconcile_valid storedRun_def loadRun_Inr catchM_def bindM_def returnM_def split: option.splits sum.splits)

lemma storedRun_None: "storedRun t key db = None \<longleftrightarrow> findRun t key db = None"
  using loadRun_found [of t key db] by (auto simp: storedRun_def split: option.split sum.split)

lemma newRun_no_duplicate: "findRun t key db = None \<Longrightarrow> newRun t user key db \<noteq> Inl DuplicateEntry"
proof
  assume none: "findRun t key db = None" and e: "newRun t user key db = Inl DuplicateEntry"
  show False
  proof (cases "List.find (\<lambda>p. po_tenant p = t) (policies db)")
    case None
    have "\<forall>x\<in>set (recon_runs db). \<not> (rr_tenant x = t \<and> rr_key x = key)" using none by (auto simp: findRun_def find_None_iff)
    then have "newRun t user key db = Inl InventoryValuationPolicyNotFound"
      using None by (simp add: newRun_def insertRun_def collect_def newRow_def evalM)
    then show False using e by simp
  next
    case (Some p)
    then show False using e loadRun_found [OF findRun_after [OF none, where user = user and fs = "findingsOf t (po_method p) db"]]
      unfolding newRun_run [OF Some none] by (auto split: sum.splits)
  qed
qed

lemma reconcile_fresh:
  "validKey key \<Longrightarrow> findRun t key db = None \<Longrightarrow> reconcile t user (Some key) db = newRun t user key db"
  using newRun_no_duplicate [of t key db user] by (auto simp: reconcile_valid catchM_def split: sum.split)

lemma reconcile_Inr:
  assumes "reconcile t user (Some key) db = Inr (res, db')"
  obtains (replayed) d where "storedRun t key db = Some d" "res = (d, True)" "db' = db"
  | (stored) p d where "validKey key" "List.find (\<lambda>p. po_tenant p = t) (policies db) = Some p" "findRun t key db = None"
    "db' = afterRun t user key (findingsOf t (po_method p) db) db" "loadRun t (env_uuid db (ticks db)) db' = Inr (d, db')" "res = (d, False)"
proof -
  have v: "validKey key" using assms reconcile_invalid by (metis Inl_Inr_False option.inject)
  show ?thesis
  proof (cases "storedRun t key db")
    case (Some d)
    have "(res, db') = ((d, True), db)" using assms reconcile_stored [OF v Some, of user] by simp
    then show ?thesis using replayed [OF Some] by simp
  next
    case None
    then have none: "findRun t key db = None" by (simp add: storedRun_None)
    from assms reconcile_fresh [OF v none] have "newRun t user key db = Inr (res, db')" by simp
    then show ?thesis by (rule newRun_Inr) (use stored v in blast)
  qed
qed

interpretation reconcile_command: idempotent_command
  "\<lambda>(t, user, value). reconcile t user value" "\<lambda>(t, user, value) db. storedRun t (case value of None \<Rightarrow> [] | Some k \<Rightarrow> k) db" "\<lambda>d. []"
  "\<lambda>(t, user, value) db. if \<exists>key. value = Some key \<and> validKey key then Inr [] else Inl InvalidIdempotencyKey" IdempotencyConflictError
proof (unfold_locales; clarsimp split: if_splits prod.splits)
  fix t user and v :: "string option" and db
  assume "\<forall>key. v = Some key \<longrightarrow> \<not> validKey key"
  then show "reconcile t user v db = Inl InvalidIdempotencyKey" by (intro reconcile_invalid) blast
next
  fix t user key db d
  assume "storedRun t key db = Some d" "validKey key"
  then show "reconcile t user (Some key) db = Inr ((d, True), db)" by (rule reconcile_stored [rotated])
next
  fix t user key db d b db'
  assume run: "reconcile t user (Some key) db = Inr ((d, b), db')"
  then show "storedRun t key db' = Some d"
  proof (cases rule: reconcile_Inr)
    case (stored p d')
    have "findRun t key db' = Some (closeRun (findingsOf t (po_method p) db) (openRun (env_uuid db (ticks db)) t user key (env_clock db (ticks db))))"
      unfolding stored(4) by (rule findRun_after [OF stored(3)])
    then show ?thesis using stored(5,6) by (simp add: storedRun_def)
  qed simp
qed

end
