(* ===== verification/CommandLaws.thy ===== *)
theory CommandLaws
  imports ExpiryLaws ReconciliationLaws
begin

text \<open>
  The contract between an invariant of the database and the commands. Every command reads, writes
  the tables of its own documents, changes balances, issues ids, and posts movements; so whoever
  keeps the invariant under these steps keeps it under the whole commands. The locales name the
  steps: \<open>posting_law\<close> those common to all commands, its extensions the tables of each family.
  The invariant may be about one tenant \<open>t\<close>, and posting may count on a property \<open>fresh\<close> of
  the ids that are issued while it holds.
\<close>

named_theorems law_intros \<open>actions that keep the invariant of a law\<close>

lemma reads_preserves: "keeps (\<lambda>db. db) m \<Longrightarrow> preserves I m"
  by (rule preservesI) (auto dest: readsD)

lemma preserves_nowM [law_intros]: "preserves I nowM"
  by (simp add: preserves_def)

lemma preserves_mapM: "(\<And>x. preserves I (body x)) \<Longrightarrow> preserves I (mapM body xs)"
  by (rule since_mapM)

lemmas law_rules = preserves_intros preserves_mapM since_case_prod since_catchM

section \<open>What all commands share\<close>

locale posting_law =
  fixes I :: "inv_db \<Rightarrow> bool" and t :: id and fresh :: "id \<Rightarrow> bool"
  assumes I_newRow: "I db \<Longrightarrow> I (db\<lparr>ticks := Suc (ticks db)\<rparr>) \<and> fresh (env_uuid db (ticks db))"
    and I_posting: "mv_tenant m = t \<Longrightarrow> fresh (mv_id m) \<Longrightarrow> preserves I (postMovement m lo so)"
    and I_balances [simp]: "I (db\<lparr>balances := bs\<rparr>) = I db"
begin

lemma law_newRow: "preserves I newRow"
  by (simp add: preserves_def I_newRow)

lemma law_writeM [law_intros]: "(\<And>db. I (f db) = I db) \<Longrightarrow> preserves I (writeM f)"
  by (simp add: preserves_def)

lemma law_newRow_bind [law_intros]:
  assumes "\<And>i now. fresh i \<Longrightarrow> preserves I (f i now)"
  shows "preserves I (bindM newRow (\<lambda>(i, now). f i now))"
proof (rule preservesI)
  fix db x db'
  assume I: "I db" and "bindM newRow (\<lambda>(i, now). f i now) db = Inr (x, db')"
  then have run: "f (env_uuid db (ticks db)) (env_clock db (ticks db)) (db\<lparr>ticks := Suc (ticks db)\<rparr>) = Inr (x, db')" by (auto simp: bindM_Inr)
  show "I db'" by (rule preservesD [OF assms _ run]) (use I_newRow [OF I] in simp_all)
qed

lemmas law_posting [law_intros] = I_posting

lemma law_balance [law_intros]: "preserves I (ensureBalance k)" "preserves I (lockBalance k)" "preserves I (updateBalance k u)"
  unfolding ensureBalance_def lockBalance_def updateBalance_def by (intro law_rules law_intros; simp)+

lemma law_reads [law_intros]:
  "preserves I (productQuantityPolicy t' p)" "preserves I (normalizeM v policy neg enf)" "preserves I (assertTarget t' w p l)"
  "preserves I (replayMovement f m)" "preserves I (replayCount f c)" "preserves I (countUnits policy v)"
  unfolding productQuantityPolicy_def assertTarget_def replayMovement_def replayCount_def countUnits_def
  by (intro law_rules law_intros reads_preserves [OF reads_normalize])+

end

section \<open>The stock commands\<close>

locale stock_law = posting_law +
  assumes I_counts [simp]: "I (db\<lparr>counts := cs\<rparr>) = I db"
begin

lemma stock_commands:
  assumes [simp]: "cm_tenant cmd = t"
  shows "preserves I (createMovement digest cmd dto)" "preserves I (createCount digest cmd cdto)" "preserves I (createStateTransition digest cmd tdto)"
proof -
  have move: "preserves I (moveStock cmd dto c f b)" for c f b
    unfolding moveStock_def Let_def by (intro law_rules law_intros; simp)
  show "preserves I (createMovement digest cmd dto)"
    unfolding createMovement_def movementTransaction_def afterDuplicate_def Let_def by (intro law_rules law_intros move)
  have adjust: "preserves I (adjustToCount cmd cdto c v r f)" for c v r f
    unfolding adjustToCount_def Let_def by (intro law_rules law_intros; simp)
  have count: "preserves I (recordCount cmd cdto s c f b)" for s c f b
    unfolding recordCount_def insertCount_def Let_def by (intro law_rules law_intros adjust; simp)
  show "preserves I (createCount digest cmd cdto)"
    unfolding createCount_def countTransaction_def afterDuplicate_def Let_def by (intro law_rules law_intros count)
  have change: "preserves I (changeState cmd tdto u f b)" for u f b
    unfolding changeState_def Let_def by (intro law_rules law_intros; simp)
  show "preserves I (createStateTransition digest cmd tdto)"
    unfolding createStateTransition_def transitionTransaction_def afterDuplicate_def Let_def by (intro law_rules law_intros change)
qed

end

section \<open>The transfer commands\<close>

locale transfer_law = posting_law +
  assumes I_transfers [simp]: "I (db\<lparr>transfers := hs\<rparr>) = I db" and I_transfer_lines [simp]: "I (db\<lparr>transfer_lines := ls\<rparr>) = I db"
    and I_receipts [simp]: "I (db\<lparr>transfer_receipts := rs\<rparr>) = I db" and I_receipt_lines [simp]: "I (db\<lparr>transfer_receipt_lines := rls\<rparr>) = I db"
begin

lemma transfer_parts [law_intros]:
  "preserves I (documentOf e t' i)" "preserves I (assertWarehouses t' o1 o2)" "preserves I (assertWarehouseAccess t' us w)"
  "preserves I (assertLineTarget t' w1 w2 p s d)" "preserves I (dispatchTarget h v)" "preserves I (cached bal kk)"
  "preserves I (writeBalance k b)" "preserves I (lockLine t' kk)" "preserves I (lockReceiptLine t' kk)"
  unfolding documentOf_def assertWarehouses_def assertWarehouseAccess_def assertLineTarget_def dispatchTarget_def cached_def writeBalance_def lockLine_def lockReceiptLine_def
  by (intro law_rules law_intros)+

lemma transfer_posts:
  assumes [simp]: "cm_tenant cmd = t"
  shows "preserves I (postTransfer digest cmd h l kind loc q r)" "preserves I (postReceipt digest cmd h l rc rl kind q r reason ns)"
  unfolding postTransfer_def postReceipt_def by (intro law_rules law_intros; simp)+

lemma transfer_loops:
  assumes [simp]: "cm_tenant cmd = t"
  shows "preserves I (dispatchLines digest cmd h ls bal)" "preserves I (receiveLines digest cmd h reason rc xs bal)"
proof -
  note posts = transfer_posts [OF assms]
  have line: "preserves I (dispatchLine digest cmd h l bal)" for l bal
    unfolding dispatchLine_def Let_def by (intro law_rules law_intros posts)
  show "preserves I (dispatchLines digest cmd h ls bal)"
    by (induction ls arbitrary: bal) (simp_all add: preserves_bindM line)
  have item: "preserves I (receiveLine digest cmd h reason rc x bal)" for x bal
    unfolding receiveLine_def addProgress_def insertReceiptLine_def Let_def by (intro law_rules law_intros posts; simp)
  show "preserves I (receiveLines digest cmd h reason rc xs bal)"
    by (induction xs arbitrary: bal) (simp_all add: preserves_bindM item)
qed

lemma transfer_commands:
  assumes "cm_tenant cmd = t"
  shows "preserves I (createTransfer digest cmd xdto)" "preserves I (dispatchTransfer digest cmd i)"
    "preserves I (receiveTransfer digest cmd i rdto)" "preserves I (cancelTransfer cmd i)"
proof -
  note lines = reads_lines [THEN reads_preserves] and loops = transfer_loops [OF assms]
  show "preserves I (createTransfer digest cmd xdto)"
    unfolding createTransfer_def assertDistinctLines_def createTransaction_def replayCreation_def createDraft_def insertTransfer_def createLine_def insertTransferLine_def Let_def
    by (intro law_rules law_intros lines; simp)
  show "preserves I (dispatchTransfer digest cmd i)"
    unfolding dispatchTransfer_def dispatchTransaction_def dispatchDraft_def markDispatched_def Let_def
    by (intro law_rules law_intros loops; simp)
  show "preserves I (receiveTransfer digest cmd i rdto)"
    unfolding receiveTransfer_def receiveTransaction_def receiveNew_def receiveItems_def insertReceipt_def markProgress_def Let_def
    by (intro law_rules law_intros lines loops; simp)
  show "preserves I (cancelTransfer cmd i)"
    unfolding cancelTransfer_def by (intro law_rules law_intros; simp)
qed

end

section \<open>The reservation commands\<close>

locale reservation_law = posting_law +
  assumes I_reservations [simp]: "I (db\<lparr>reservations := rs\<rparr>) = I db" and I_reservation_lines [simp]: "I (db\<lparr>reservation_lines := ls\<rparr>) = I db"
begin

lemma close_law:
  assumes [simp]: "cm_tenant cmd = t"
  shows "preserves I (closeReservation cmd branch c)"
proof -
  have line: "preserves I (closeLine cmd c r item)" for r item
    unfolding closeLine_def Let_def by (intro law_rules law_intros since_case_prod; simp)
  have "preserves I (markClosed cmd c i)" for i
    unfolding markClosed_def Let_def by (intro law_rules law_intros; simp)
  then show ?thesis
    unfolding closeReservation_def closeActive_def by (intro law_rules law_intros line)
qed

lemma reservation_commands:
  assumes [simp]: "cm_tenant cmd = t"
  shows "preserves I (createReservation digest collate cmd branch dto)" "preserves I (releaseReservation digest cmd branch i reason)"
proof -
  have line: "preserves I (reserveLine cmd r item)" for r item
    unfolding reserveLine_def insertReservationLine_def Let_def by (intro law_rules law_intros; simp)
  have "preserves I (reserveLines cmd branch dto lines f)" for lines f
    unfolding reserveLines_def insertReservation_def Let_def by (intro law_rules law_intros line; simp)
  then show "preserves I (createReservation digest collate cmd branch dto)"
    unfolding createReservation_def reservationTransaction_def replayReservation_def assertReservationTarget_def Let_def by (intro law_rules law_intros)
  show "preserves I (releaseReservation digest cmd branch i reason)"
    unfolding releaseReservation_def by (intro law_rules law_intros close_law assms)
qed

text \<open>\<open>expireDue\<close> is a sequence of transactions, each of which is kept or undone as a whole.\<close>

lemma expireDue_law: "cm_tenant cmd = t \<Longrightarrow> I db \<Longrightarrow> I (snd (expireDue digest cmd branch db))"
  unfolding expireDue_def by (rule expireEach_keeps [OF close_law])

end

section \<open>The reconciliation\<close>

locale reconciliation_law =
  fixes I :: "inv_db \<Rightarrow> bool"
  assumes I_row: "I db \<Longrightarrow> I (db\<lparr>ticks := Suc (ticks db)\<rparr>)"
    and I_runs [simp]: "I (db\<lparr>recon_runs := rs\<rparr>) = I db" and I_findings [simp]: "I (db\<lparr>recon_findings := fs\<rparr>) = I db"
    and I_guards [simp]: "I (db\<lparr>guards := gs\<rparr>) = I db"
begin

lemma recon_basic: "preserves I newRow" "(\<And>db. I (f db) = I db) \<Longrightarrow> preserves I (writeM f)"
  by (simp_all add: preserves_def I_row)

lemma reconcile_law: "preserves I (reconcile tenant user value)"
proof -
  have load: "preserves I (loadRun tenant' i)" for tenant' i
    unfolding loadRun_def by (intro law_rules)
  show ?thesis
    unfolding reconcile_def reconcileTransaction_def newRun_def assertIdempotencyKey_def insertRun_def collect_def persistFindings_def
      newFinding_def insertBatch_def completeRun_def setGuard_def Let_def
    by (intro law_rules law_intros recon_basic load; simp)
qed

end

end
