(* ===== verification/GuardLaws.thy ===== *)
theory GuardLaws
  imports CommandLaws
begin

text \<open>
  What a blocked reconciliation guard stops: while it stands, no command of the tenant posts a
  movement. The invariant \<open>frozen\<close> satisfies the laws of the stock, transfer and reservation
  commands, because posting a movement of the tenant fails.
\<close>

definition blocked :: "id \<Rightarrow> inv_db \<Rightarrow> bool" where
  "blocked t db \<longleftrightarrow> (case List.find (\<lambda>g. gu_tenant g = t) (guards db) of None \<Rightarrow> False | Some g \<Rightarrow> gu_blocked g)"

definition frozen :: "id \<Rightarrow> movement_row list \<Rightarrow> inv_db \<Rightarrow> bool" where
  "frozen t ms db \<longleftrightarrow> movements db = ms \<and> blocked t db \<and> inj (env_uuid db) \<and> mv_id ` set ms \<subseteq> issued db"

lemma valuation_blocked: "selectMovement i db = Some m \<Longrightarrow> blocked (mv_tenant m) db \<Longrightarrow> applyInventoryValuation i db \<noteq> Inr r"
  by (cases r) (auto simp: applyInventoryValuation_def assertInventoryReconciliationOperational_def blocked_def runM split: option.splits)

lemma frozen_posting:
  assumes "mv_tenant m = t" "mv_id m \<notin> mv_id ` set ms"
  shows "preserves (frozen t ms) (postMovement m lo so)"
proof (rule preservesI)
  fix db x db'
  assume I: "frozen t ms db" and run: "postMovement m lo so db = Inr (x, db')"
  obtain u db1 where "applyInventoryValuation (mv_id m) (db\<lparr>movements := movements db @ [m]\<rparr>) = Inr (u, db1)"
    using run unfolding postMovement_def by (auto simp: thenM_Inr insertMovement_Inr)
  moreover have "selectMovement (mv_id m) (db\<lparr>movements := movements db @ [m]\<rparr>) = Some m"
    by (rule selectMovement_new) (use I assms(2) in \<open>simp add: frozen_def\<close>)
  moreover have "blocked (mv_tenant m) (db\<lparr>movements := movements db @ [m]\<rparr>)"
    using I assms(1) by (simp add: frozen_def blocked_def)
  ultimately show "frozen t ms db'" using valuation_blocked by blast
qed

lemma frozen_newRow: "frozen t ms db \<Longrightarrow> frozen t ms (db\<lparr>ticks := Suc (ticks db)\<rparr>) \<and> env_uuid db (ticks db) \<notin> mv_id ` set ms"
  using fresh_not_issued [of db] by (auto simp: frozen_def blocked_def issued_def)

lemma frozen_tables:
  "frozen t ms (db\<lparr>balances := bs\<rparr>) = frozen t ms db" "frozen t ms (db\<lparr>counts := cs\<rparr>) = frozen t ms db"
  "frozen t ms (db\<lparr>transfers := hs\<rparr>) = frozen t ms db" "frozen t ms (db\<lparr>transfer_lines := ls\<rparr>) = frozen t ms db"
  "frozen t ms (db\<lparr>transfer_receipts := rs\<rparr>) = frozen t ms db" "frozen t ms (db\<lparr>transfer_receipt_lines := rls\<rparr>) = frozen t ms db"
  "frozen t ms (db\<lparr>reservations := vs\<rparr>) = frozen t ms db" "frozen t ms (db\<lparr>reservation_lines := vls\<rparr>) = frozen t ms db"
  by (simp_all add: frozen_def blocked_def issued_def)

interpretation blocked_stock: stock_law "frozen t ms" t "\<lambda>i. i \<notin> mv_id ` set ms" for t ms
  by unfold_locales (simp_all add: frozen_newRow frozen_posting frozen_tables)

interpretation blocked_transfer: transfer_law "frozen t ms" t "\<lambda>i. i \<notin> mv_id ` set ms" for t ms
  by unfold_locales (simp_all add: frozen_tables)

interpretation blocked_reservation: reservation_law "frozen t ms" t "\<lambda>i. i \<notin> mv_id ` set ms" for t ms
  by unfold_locales (simp_all add: frozen_tables)

end
