(* ===== verification/ReconciliationTheorems.thy ===== *)
theory ReconciliationTheorems
  imports GuardLaws Fixtures "HOL-Library.Multiset"
begin

text \<open>
  The properties of the reconciliation, with witnesses on a concrete FIFO company: four units in
  two layers of different cost, entered by two movements, and consistent in every table.
\<close>

section \<open>A concrete case\<close>

definition costDb :: inv_db where
  "costDb = sampleDb\<lparr>ticks := 4,
     balances := [(emptyBalance (1, 7, 3))\<lparr>ba_quantity := 4000, ba_available := 4000\<rparr>],
     movements := [blankMovement\<lparr>mv_id := 60, mv_quantity := 2000, mv_resulting := 2000, mv_key := ''k0'', mv_value_change := Some 40000\<rparr>,
       blankMovement\<lparr>mv_id := 61, mv_quantity := 2000, mv_resulting := 4000, mv_key := ''k1'', mv_value_change := Some 80000\<rparr>],
     valuations := [\<lparr>va_tenant = 1, va_product = 7, va_quantity = 4000, va_value = 120000, va_average = 30000, va_version = 2\<rparr>],
     policies := [\<lparr>po_tenant = 1, po_method = FIFO, po_version = 1, po_effective_at = 0\<rparr>],
     cutovers := [(1, 0)],
     layers := [sampleLayer\<lparr>fl_id := 62, fl_original := 2000, fl_remaining := 2000, fl_unit_cost := 20000\<rparr>,
       sampleLayer\<lparr>fl_id := 63, fl_original := 2000, fl_remaining := 2000, fl_unit_cost := 40000, fl_acquired_at := 1\<rparr>]\<rparr>"

definition costCommand :: command where
  "costCommand = \<lparr>cm_tenant = 1, cm_warehouse = 2, cm_user = 9, cm_key = ''e1''\<rparr>"

definition flatDigest :: "request \<Rightarrow> string" where
  "flatDigest r = ''f''"

definition exitOne :: movement_dto where
  "exitOne = \<lparr>md_product = 7, md_location = 3, md_type = EXIT, md_quantity = ''1'', md_reason = ''r'', md_reference = Some ''x'',
     md_lot_code = None, md_manufactured = None, md_expires = None, md_serials = None\<rparr>"

definition adjustOne :: movement_dto where
  "adjustOne = exitOne\<lparr>md_type := ADJUSTMENT\<rparr>"

lemma cost_run: "case reconcile 1 9 (Some ''reconcile-1'') costDb of Inl _ \<Rightarrow> False
  | Inr ((d, again), db') \<Rightarrow> \<not> again \<and> rd_findings d = [] \<and> rr_overall (rd_run d) = Healthy"
  by code_simp

lemma cost_blocked: "case createMovement flatDigest costCommand exitOne costDb of Inl _ \<Rightarrow> False
  | Inr ((m, again), db') \<Rightarrow> (case reconcile 1 9 (Some ''reconcile-1'') db' of Inl _ \<Rightarrow> False
     | Inr ((d, again), db2) \<Rightarrow> map (\<lambda>f. fi_code (fn_finding f)) (rd_findings d) = [VALUATION_VALUE_MISMATCH] \<and> rd_operations_blocked d \<and>
        (case createMovement flatDigest (costCommand\<lparr>cm_key := ''e2''\<rparr>) adjustOne db2 of
           Inl e \<Rightarrow> e = InventoryReconciliationBlocked (rr_id (rd_run d)) | Inr _ \<Rightarrow> False))"
  by code_simp

text \<open>The same company with a lot and a serial.\<close>

definition tracedDb :: inv_db where
  "tracedDb = costDb\<lparr>ticks := 8,
     lots := [\<lparr>lt_id = 64, lt_tenant = 1, lt_product = 7, lt_code = ''A'', lt_normalized = ''A'', lt_manufactured = None,
       lt_expires = None, lt_unit_cost = 20000, lt_currency = ''CLP'', lt_user = 9, lt_created_at = 0\<rparr>],
     lot_balances := [\<lparr>lb_tenant = 1, lb_lot = 64, lb_location = 3, lb_quantity = 2000\<rparr>],
     movement_lots := [\<lparr>ml_id = 65, ml_tenant = 1, ml_movement = 60, ml_lot = 64, ml_location = 3, ml_quantity = 2000,
       ml_unit_cost = 20000, ml_currency = ''CLP'', ml_value = 40000, ml_mode = LotManual, ml_created_at = 0\<rparr>],
     serials := [\<lparr>sr_id = 66, sr_tenant = 1, sr_product = 7, sr_number = ''a'', sr_normalized = ''A'', sr_status = SerialAvailable, sr_location = Some 3\<rparr>],
     serial_events := [\<lparr>se_id = 67, se_tenant = 1, se_serial = 66, se_movement = 60, se_from = None,
       se_to = SerialAvailable, se_from_location = None, se_to_location = Some 3, se_created_at = 7\<rparr>]\<rparr>"

lemmas tracedDb_simps = tracedDb_def costDb_def sampleDb_def blankMovement_def

lemma tracedDb_issued: "inj (env_uuid tracedDb)" "issued tracedDb = {60, 61, 62, 63, 64, 65, 66, 67}"
  by (auto simp: tracedDb_simps issued_def inj_def lessThan_Suc lessThan_nat_numeral)

lemma tracedDb_inv: "stock_inv tracedDb" "lot_inv tracedDb" "serial_inv tracedDb" "event_clock tracedDb"
proof -
  show "stock_inv tracedDb"
    unfolding stock_inv_def stock_gap_def tracedDb_issued(2) using tracedDb_issued(1)
    by (auto simp: balanceOf_def movedAt_def movedOf_def valuationQuantity_def balance_check_def tracedDb_simps emptyBalance_def)
  show "lot_inv tracedDb"
    unfolding lot_inv_def tracedDb_issued(2) using tracedDb_issued(1)
    by (auto simp: tracedDb_simps lotBalanceOf_def lotLedger_def)
  show "serial_inv tracedDb"
    unfolding serial_inv_def tracedDb_issued(2) using tracedDb_issued(1)
    by (auto simp: tracedDb_simps history_def gone_def place_def eventFrom_def eventTo_def serial_step_simps)
  show "event_clock tracedDb"
    by (auto simp: event_clock_def tracedDb_simps strict_mono_def)
qed

section \<open>What a run finds\<close>

text \<open>Consistent tables are never reported: while the stock ledger is in order no run, under any
  valuation method, finds a balance that differs from its movements, states that do not add up, or a
  valuation quantity that differs from the stock; while the lot ledger is in order no lot differs from
  its allocations; and while the histories of the serials are in order no serial differs from its
  newest event.\<close>

theorem consistent_tables_not_reported:
  "(stock_inv db \<longrightarrow> (\<forall>f\<in>set (findingsOf t meth db).
       fi_code f \<notin> {BALANCE_MOVEMENT_MISMATCH, BALANCE_STATE_MISMATCH, VALUATION_QUANTITY_MISMATCH})) \<and>
   (lot_inv db \<longrightarrow> (\<forall>f\<in>set (findingsOf t meth db). fi_code f \<noteq> LOT_LEDGER_MISMATCH)) \<and>
   (serial_inv db \<and> event_clock db \<longrightarrow> (\<forall>f\<in>set (findingsOf t meth db). fi_code f \<noteq> SERIAL_HISTORY_MISMATCH))"
  by (intro conjI impI ballI; blast dest: clean_findings)

theorem consistent_tables_not_reported_witness:
  "set (map fi_code (findingsOf 1 SPECIFIC_LOT tracedDb)) \<inter>
     {BALANCE_MOVEMENT_MISMATCH, BALANCE_STATE_MISMATCH, VALUATION_QUANTITY_MISMATCH, LOT_LEDGER_MISMATCH, SERIAL_HISTORY_MISMATCH} = {}"
  using consistent_tables_not_reported [of tracedDb 1 SPECIFIC_LOT] tracedDb_inv by auto

section \<open>What a run stores\<close>

lemma count_split: "length fs - countWarnings fs = length (filter (\<lambda>f. fi_severity f = FindingCritical) fs)"
proof -
  have "filter (\<lambda>f. fi_severity f = FindingCritical) fs = filter (\<lambda>f. \<not> fi_severity f = FindingWarning) fs"
    by (rule filter_cong [OF refl]) (metis finding_severity.exhaust finding_severity.distinct(1))
  then show ?thesis using sum_length_filter_compl [of "\<lambda>f. fi_severity f = FindingWarning" fs] by (simp add: countWarnings_def)
qed

text \<open>C27: A new run returns exactly the findings of the tables as they are (as a multiset; stored under the
  run, critical ones first), with their counts; it blocks the tenant if and only if one of them blocks
  operations, and replaces an earlier verdict either way; it changes no inventory table and no guard
  of another tenant. The id of the run must not be in use.\<close>

theorem reconcile_effect:
  assumes run: "reconcile t user (Some key) db = Inr ((d, False), db')"
    and fresh: "env_uuid db (ticks db) \<notin> rr_id ` set (recon_runs db) \<union> fn_run ` set (recon_findings db)"
  shows "\<exists>p. List.find (\<lambda>p. po_tenant p = t) (policies db) = Some p \<and>
     (let fs = findingsOf t (po_method p) db; r = rd_run d in
      mset (map fn_finding (rd_findings d)) = mset fs \<and> sorted (map (\<lambda>f. severityRank (fi_severity (fn_finding f))) (rd_findings d)) \<and>
      rr_key r = key \<and> rr_completed r \<and> rr_findings r = length fs \<and>
      rr_critical r = length (filter (\<lambda>f. fi_severity f = FindingCritical) fs) \<and> rr_warnings r = length (filter (\<lambda>f. fi_severity f = FindingWarning) fs) \<and>
      rd_release_blocked d = list_ex (\<lambda>f. fi_severity f = FindingCritical) fs \<and> rd_operations_blocked d = list_ex fi_blocks fs \<and>
      blocked t db' = list_ex fi_blocks fs) \<and>
     inventoryTables db' = inventoryTables db \<and> (\<forall>t'. t' \<noteq> t \<longrightarrow> blocked t' db' = blocked t' db)"
  using run
proof (cases rule: reconcile_Inr)
  case (stored p d0)
  let ?i = "env_uuid db (ticks db)" and ?fs = "findingsOf t (po_method p) db"
  let ?r = "closeRun ?fs (openRun ?i t user key (env_clock db (ticks db)))"
  have d: "d = d0" using stored(6) by simp
  have "List.find (\<lambda>r. rr_id r = ?i \<and> rr_tenant r = t) (recon_runs db) = None"
    unfolding find_None_iff using fresh by (metis UnCI imageI)
  then have row: "List.find (\<lambda>r. rr_id r = ?i \<and> rr_tenant r = t) (recon_runs db') = Some ?r"
    by (simp add: stored(4) afterRun_def Let_def find_update_where find_append)
  have rows: "filter (\<lambda>f. fn_run f = ?i \<and> fn_tenant f = t) (recon_findings db') = findingRows t ?i (env_uuid db) (Suc (ticks db)) ?fs"
    using fresh findingRows_props(2) by (force simp: stored(4) afterRun_def Let_def filter_empty_conv filter_id_conv)
  have load: "rd_run d = ?r" "rd_findings d = sort_key (\<lambda>f. (severityRank (fi_severity (fn_finding f)), fi_code (fn_finding f), fn_id f))
      (findingRows t ?i (env_uuid db) (Suc (ticks db)) ?fs)" "rd_release_blocked d = (0 < rr_critical ?r)" "rd_operations_blocked d = rr_blocked ?r"
    using stored(5) row rows by (simp_all add: loadRun_Inr d)
  have "map fn_finding (findingRows t ?i (env_uuid db) (Suc (ticks db)) ?fs) = ?fs" by (rule findingRows_props)
  then have "mset (map fn_finding (rd_findings d)) = mset ?fs"
    unfolding load(2) mset_map mset_sort by (simp flip: mset_map)
  moreover have "sorted (map (\<lambda>f. severityRank (fi_severity (fn_finding f))) (rd_findings d))"
  proof -
    have "sorted (map fst (map (\<lambda>f. (severityRank (fi_severity (fn_finding f)), fi_code (fn_finding f), fn_id f)) (rd_findings d)))"
      by (rule sorted_map_mono [OF _ mono_onI]) (auto simp: load(2) less_eq_prod_def)
    then show ?thesis by (simp add: comp_def)
  qed
  moreover have "blocked t db' = list_ex fi_blocks ?fs" "\<forall>t'. t' \<noteq> t \<longrightarrow> blocked t' db' = blocked t' db"
    by (simp_all add: blocked_def stored(4) afterRun_def Let_def guarded_find)
  moreover have "rr_critical ?r = length (filter (\<lambda>f. fi_severity f = FindingCritical) ?fs)" by (simp add: closeRun_def count_split)
  moreover have "rd_release_blocked d = list_ex (\<lambda>f. fi_severity f = FindingCritical) ?fs"
    unfolding load(3) by (simp add: closeRun_def count_split list_ex_iff filter_empty_conv)
  moreover have "rd_operations_blocked d = list_ex fi_blocks ?fs" "rr_completed (rd_run d)" "rr_findings (rd_run d) = length ?fs"
    "rr_warnings (rd_run d) = length (filter (\<lambda>f. fi_severity f = FindingWarning) ?fs)" "rr_key (rd_run d) = key"
    unfolding load(1,4) by (simp_all add: closeRun_def countWarnings_def openRun_def)
  moreover have "inventoryTables db' = inventoryTables db" by (simp add: stored(4))
  ultimately show ?thesis
    unfolding Let_def using stored(2) load(1) by (intro exI [of _ p]) simp
qed simp

theorem reconcile_effect_witness:
  "\<exists>d db'. reconcile 1 9 (Some ''reconcile-1'') costDb = Inr ((d, False), db') \<and> mset (map fn_finding (rd_findings d)) = mset (findingsOf 1 FIFO costDb)"
proof -
  obtain d db' where run: "reconcile 1 9 (Some ''reconcile-1'') costDb = Inr ((d, False), db')"
    using cost_run by (auto split: sum.splits prod.splits)
  have "env_uuid costDb (ticks costDb) \<notin> rr_id ` set (recon_runs costDb) \<union> fn_run ` set (recon_findings costDb)"
    "List.find (\<lambda>p. po_tenant p = 1) (policies costDb) = Some \<lparr>po_tenant = 1, po_method = FIFO, po_version = 1, po_effective_at = 0\<rparr>"
    by (simp_all add: costDb_def sampleDb_def)
  then show ?thesis using reconcile_effect [OF run] run unfolding Let_def by auto
qed

text \<open>C28: A run always returns: with a well-formed key, for a tenant with a valuation policy, the
  reconciliation succeeds on every database, with a new run or with the stored one.\<close>

theorem reconcile_returns:
  assumes "validKey key" and "\<exists>p\<in>set (policies db). po_tenant p = t"
  shows "\<exists>d again db'. reconcile t user (Some key) db = Inr ((d, again), db')"
proof (cases "storedRun t key db")
  case (Some d)
  with reconcile_stored [OF assms(1)] show ?thesis by blast
next
  case None
  then have none: "findRun t key db = None" by (simp add: storedRun_None)
  obtain p where p: "List.find (\<lambda>p. po_tenant p = t) (policies db) = Some p"
    using assms(2) find_exists [of _ "policies db" "\<lambda>p. po_tenant p = t"] by blast
  obtain d s where "loadRun t (env_uuid db (ticks db)) (afterRun t user key (findingsOf t (po_method p) db) db) = Inr (d, s)"
    using loadRun_found [OF findRun_after [OF none, where user = user and fs = "findingsOf t (po_method p) db"]] by auto
  then show ?thesis
    unfolding reconcile_fresh [OF assms(1) none] newRun_run [OF p none] by auto
qed

theorem reconcile_returns_witness:
  "\<exists>d again db'. reconcile 1 9 (Some ''reconcile-1'') costDb = Inr ((d, again), db')"
proof (rule reconcile_returns)
  show "validKey ''reconcile-1''" by code_simp
  show "\<exists>p\<in>set (policies costDb). po_tenant p = 1" by (simp add: costDb_def)
qed

text \<open>A run is idempotent: repeating it under its key returns the same document, marked as a replay,
  whatever has happened to the inventory in between, as long as the runs and findings are those that
  it left.\<close>

theorem reconcile_replay:
  assumes "reconcile t user (Some key) db = Inr ((d, b), db')" and "recon_runs db2 = recon_runs db'" and "recon_findings db2 = recon_findings db'"
  shows "reconcile t user' (Some key) db2 = Inr ((d, True), db2)"
proof -
  have "reconcile t user (Some key) db' = Inr ((d, True), db')"
    using reconcile_command.again [of "(t, user, Some key)" db d b db'] assms(1) by simp
  then have "storedRun t key db' = Some d"
    by (cases rule: reconcile_Inr) auto
  then have "storedRun t key db2 = Some d"
    by (auto simp: storedRun_def findRun_def loadRun_Inr loadRun_def readM_def bindM_def requireM_def returnM_def throwM_def assms(2,3) split: option.splits sum.splits)
  moreover have "validKey key" using assms(1) reconcile_invalid by (metis Inl_Inr_False option.inject)
  ultimately show ?thesis by (rule reconcile_stored [rotated])
qed

theorem reconcile_replay_witness:
  "\<exists>d db'. reconcile 1 9 (Some ''reconcile-1'') costDb = Inr ((d, False), db') \<and>
     reconcile 1 5 (Some ''reconcile-1'') (db'\<lparr>balances := []\<rparr>) = Inr ((d, True), db'\<lparr>balances := []\<rparr>)"
proof -
  obtain d db' where run: "reconcile 1 9 (Some ''reconcile-1'') costDb = Inr ((d, False), db')"
    using cost_run by (auto split: sum.splits prod.splits)
  then show ?thesis using reconcile_replay [OF run, of "db'\<lparr>balances := []\<rparr>" 5] by auto
qed

text \<open>Storing the findings in batches of 200 rows is storing them all at once: the batches are
  not empty and at most 200 rows long, their concatenation is the list, and the rows and ids written are
  those of a single insert.\<close>

theorem persistFindings_batches:
  "concat (batches fs) = fs \<and> list_all (\<lambda>b. b \<noteq> [] \<and> length b \<le> 200) (batches fs) \<and>
   persistFindings t i fs db = Inr ((), db\<lparr>ticks := ticks db + length fs,
     recon_findings := recon_findings db @ findingRows t i (env_uuid db) (ticks db) fs\<rparr>)"
  unfolding persistFindings_run insertBatch_run using concat_batches batches_bounds by (auto simp: list_all_iff)

section \<open>The guard\<close>

text \<open>C29: While a reconciliation blocks a tenant, no stock, transfer or reservation command of it, and no
  expiration, posts a movement: whatever succeeds (a replay, a count without variance, a draft, a cancellation) leaves the
  movements and the guard as they are.\<close>

theorem blocked_tenant_posts_nothing:
  "preserves (frozen (cm_tenant cmd) ms) (createMovement digest cmd mdto) \<and> preserves (frozen (cm_tenant cmd) ms) (createCount digest cmd cdto) \<and>
   preserves (frozen (cm_tenant cmd) ms) (createStateTransition digest cmd sdto) \<and> preserves (frozen (cm_tenant cmd) ms) (createTransfer digest cmd xdto) \<and>
   preserves (frozen (cm_tenant cmd) ms) (dispatchTransfer digest cmd i) \<and> preserves (frozen (cm_tenant cmd) ms) (receiveTransfer digest cmd i rdto) \<and>
   preserves (frozen (cm_tenant cmd) ms) (cancelTransfer cmd i) \<and> preserves (frozen (cm_tenant cmd) ms) (createReservation digest collate cmd branch vdto) \<and>
   preserves (frozen (cm_tenant cmd) ms) (releaseReservation digest cmd branch i reason) \<and>
   preserves (frozen (cm_tenant cmd) ms) (closeReservation cmd branch (expiration digest i))"
  by (intro conjI blocked_stock.stock_commands blocked_transfer.transfer_commands blocked_reservation.reservation_commands
      blocked_reservation.close_law refl)

text \<open>The reconciliation of a FIFO tenant compares values of two methods: the stored valuation is
  the moving average, the value changes of the movements are those of the layers. On a consistent
  tenant with layers of different cost one sale of one unit makes the next run report
  \<open>VALUATION_VALUE_MISMATCH\<close> and block the tenant, and the adjustment that a finding recommends is then refused.\<close>

theorem fifo_sale_blocks_tenant:
  "case createMovement flatDigest costCommand exitOne costDb of Inl _ \<Rightarrow> False
   | Inr ((m, again), db') \<Rightarrow> (case reconcile 1 9 (Some ''reconcile-1'') db' of Inl _ \<Rightarrow> False
      | Inr ((d, again), db2) \<Rightarrow> map (\<lambda>f. fi_code (fn_finding f)) (rd_findings d) = [VALUATION_VALUE_MISMATCH] \<and> rd_operations_blocked d \<and>
         (case createMovement flatDigest (costCommand\<lparr>cm_key := ''e2''\<rparr>) adjustOne db2 of
            Inl e \<Rightarrow> e = InventoryReconciliationBlocked (rr_id (rd_run d)) | Inr _ \<Rightarrow> False))"
  by (rule cost_blocked)

end
