(* ===== verification/ReservationTheorems.thy ===== *)
theory ReservationTheorems
  imports ExpiryLaws Fixtures
begin

text \<open>
  The properties of reservations, with witnesses on a concrete database: five units of product 7 at
  location 3, customer 20, and a reservation of two units.
\<close>

section \<open>A concrete case\<close>

definition reservationDb :: inv_db where
  "reservationDb = sampleDb\<lparr>ticks := 5,
     balances := [(emptyBalance (1, 7, 3))\<lparr>ba_quantity := 5000, ba_available := 5000\<rparr>],
     movements := [blankMovement\<lparr>mv_id := 900, mv_type := INITIAL, mv_quantity := 5000, mv_resulting := 5000, mv_key := ''k0''\<rparr>],
     valuations := [\<lparr>va_tenant = 1, va_product = 7, va_quantity = 5000, va_value = 100000, va_average = 20000, va_version = 1\<rparr>],
     cutovers := [(1, 0)], layers := [sampleLayer\<lparr>fl_id := 31\<rparr>], customers := [\<lparr>cu_id = 20, cu_tenant = 1, cu_active = True, cu_name = ''Client'', cu_privacy_active = True\<rparr>]\<rparr>"

definition sellerCommand :: command where
  "sellerCommand = \<lparr>cm_tenant = 1, cm_warehouse = 2, cm_user = 9, cm_key = ''reserve1''\<rparr>"

definition reserveTwo :: reservation_dto where
  "reserveTwo = \<lparr>vd_customer = 20, vd_location = 3, vd_hours = 1, vd_lines = [\<lparr>nd_product = 7, nd_quantity = ''2'', nd_serials = None\<rparr>]\<rparr>"

definition fixedDigest :: "request \<Rightarrow> string" where
  "fixedDigest r = ''f''"

text \<open>The database after the reservation, with the reservation of two units due at time 7.\<close>

definition activeRow1 :: reservation_row where
  "activeRow1 = \<lparr>rv_id = 65, rv_tenant = 1, rv_branch = 1, rv_warehouse = 2, rv_location = 3, rv_customer = 20, rv_number = ''R-1005'',
     rv_status = ReservationActive, rv_expires_at = 7, rv_user = 9, rv_key = ''reserve1'', rv_fingerprint = ''f'', rv_created_at = 5, rv_closed_by = None,
     rv_closed_at = None, rv_closed_key = None, rv_closed_fingerprint = None, rv_closure_reason = None, rv_sale = None\<rparr>"

definition reservedDb :: inv_db where
  "reservedDb = reservationDb\<lparr>ticks := 8,
     balances := [(emptyBalance (1, 7, 3))\<lparr>ba_quantity := 5000, ba_available := 3000, ba_reserved := 2000\<rparr>],
     reservations := [activeRow1],
     reservation_lines := [\<lparr>rn_id = 66, rn_tenant = 1, rn_reservation = 65, rn_number = 1, rn_product = 7, rn_quantity = 2000, rn_serials = []\<rparr>]\<rparr>"

lemma round_trip_runs: "case createReservation fixedDigest id sellerCommand 1 reserveTwo reservationDb of Inl _ \<Rightarrow> False
  | Inr ((d, again), db1) \<Rightarrow> \<not> again \<and> (case releaseReservation fixedDigest (sellerCommand\<lparr>cm_key := ''release1''\<rparr>) 1 (rv_id (do_header d)) ''changed mind'' db1 of
      Inl _ \<Rightarrow> False | Inr ((d', again'), db2) \<Rightarrow> \<not> again')"
  by code_simp

lemma reservation_runs: "\<exists>d db'. createReservation fixedDigest id sellerCommand 1 reserveTwo reservationDb = Inr ((d, False), db')"
  using round_trip_runs by (auto split: sum.splits prod.splits)

lemma release_runs: "case releaseReservation fixedDigest (sellerCommand\<lparr>cm_key := ''release1''\<rparr>) 1 65 ''changed mind'' reservedDb of Inl _ \<Rightarrow> False
  | Inr ((d, again), db') \<Rightarrow> \<not> again \<and> map ba_available (balances db') = [5000] \<and> map rv_status (reservations db') = [ReservationReleased]"
  by code_simp

lemma reservation_inv_sample: "reservation_inv reservationDb" "reservation_inv reservedDb"
  by (simp_all add: reservation_inv_def reservedDb_def reservationDb_def sampleDb_def activeRow1_def reservation_check_def)

section \<open>create\<close>

text \<open>C12: A new reservation stores an active document under the key and the fingerprint of the request,
  with the requested lines in the order of their products; every line was covered by the available
  stock at the location, and its quantity moves from available to reserved; no other balance
  changes, and no quantity is moved in or out.\<close>

theorem createReservation_effect:
  assumes run: "createReservation digest collate cmd branch dto db = Inr ((d, False), db')" and inv: "reservation_inv db"
  shows "\<exists>lines. canonicalLines collate dto = Inr lines \<and>
     reservations db' = reservations db @ [do_header d] \<and> reservation_lines db' = reservation_lines db @ do_lines d \<and>
     rv_status (do_header d) = ReservationActive \<and> rv_key (do_header d) = cm_key cmd \<and> rv_tenant (do_header d) = cm_tenant cmd \<and>
     rv_fingerprint (do_header d) = digest (reservationRequest dto lines) \<and>
     map (\<lambda>l. (rn_product l, rn_serials l)) (do_lines d) = map (\<lambda>l. (cl_product l, cl_serials l)) lines \<and>
     map (\<lambda>l. Inr (rn_quantity l)) (do_lines d) = map (\<lambda>l. reservationUnits (cl_quantity l)) lines \<and>
     (\<forall>l\<in>set (do_lines d). 0 < rn_quantity l \<and> rn_quantity l \<le> ba_available (balanceAt (cm_tenant cmd, rn_product l, vd_location dto) db)) \<and>
     (\<forall>k. balanceAt k db' = shiftReserved (heldAt (cm_tenant cmd) (vd_location dto) k (do_lines d)) (balanceAt k db)) \<and>
     (\<forall>tp. movedOf tp db' = movedOf tp db)"
  using run
proof (cases rule: createReservation_Inr)
  case (created lines)
  obtain d' ls where E: "(d, False) = (d', False)" "do_lines d' = ls"
    "do_header d' = newReservation cmd branch dto (digest (reservationRequest dto lines)) (env_uuid db (ticks db)) (env_clock db (ticks db))"
    "reservations db' = reservations db @ [do_header d']" "reservation_lines db' = reservation_lines db @ ls"
    "list_all2 (rowOf (cm_tenant cmd) (env_uuid db (ticks db))) (List.enumerate 0 lines) ls"
    "\<forall>k. balanceAt k db' = shiftReserved (heldAt (cm_tenant cmd) (vd_location dto) k ls) (balanceAt k db)" "\<forall>tp. movedOf tp db' = movedOf tp db"
    "\<forall>l\<in>set ls. rn_quantity l \<le> ba_available (balanceAt (cm_tenant cmd, rn_product l, vd_location dto) db)"
    by (rule reserveLines_Inr [OF created(3) inv]) blast
  note rows = rows_sorted [OF E(6)]
  have "rv_status (do_header d) = ReservationActive \<and> rv_key (do_header d) = cm_key cmd \<and> rv_tenant (do_header d) = cm_tenant cmd \<and>
     rv_fingerprint (do_header d) = digest (reservationRequest dto lines)"
    using E(1,3) by (simp add: newReservation_def)
  then show ?thesis
    using created(1) E(1,2,4,5,7,8,9) rows(2-4) by (intro exI [of _ lines]) simp
qed simp

theorem createReservation_effect_witness:
  "case createReservation fixedDigest id sellerCommand 1 reserveTwo reservationDb of Inl _ \<Rightarrow> False
   | Inr ((d, again), db') \<Rightarrow> balanceAt (1, 7, 3) db' = shiftReserved (heldAt 1 3 (1, 7, 3) (do_lines d)) (balanceAt (1, 7, 3) reservationDb)"
proof -
  obtain d db' where run: "createReservation fixedDigest id sellerCommand 1 reserveTwo reservationDb = Inr ((d, False), db')"
    using reservation_runs by blast
  from createReservation_effect [OF this reservation_inv_sample(1)]
  have "balanceAt (1, 7, 3) db' = shiftReserved (heldAt (cm_tenant sellerCommand) (vd_location reserveTwo) (1, 7, 3) (do_lines d)) (balanceAt (1, 7, 3) reservationDb)"
    by blast
  moreover have "cm_tenant sellerCommand = 1" "vd_location reserveTwo = 3" by (simp_all add: sellerCommand_def reserveTwo_def)
  ultimately show ?thesis by (simp add: run del: One_nat_def)
qed

text \<open>Sending a reservation request again answers with the stored document and changes nothing;
  another request under the same key is refused as a conflict.\<close>

theorem createReservation_replay:
  assumes "createReservation digest collate cmd branch dto db = Inr ((d, again), db')"
  shows "createReservation digest collate cmd branch dto db' = Inr ((d, True), db') \<and>
     (\<forall>branch' dto' f. reservationPrint digest collate dto' = Inr f \<longrightarrow> f \<noteq> rv_fingerprint (do_header d) \<longrightarrow>
        createReservation digest collate cmd branch' dto' db' = Inl ProductReservationIdempotencyConflictError)"
proof (intro conjI allI impI)
  show "createReservation digest collate cmd branch dto db' = Inr ((d, True), db')"
    using reservation_command.again [of digest collate "(cmd, branch, dto)" db d again db'] assms by simp
  fix branch' dto' f
  assume "reservationPrint digest collate dto' = Inr f" "f \<noteq> rv_fingerprint (do_header d)"
  then show "createReservation digest collate cmd branch' dto' db' = Inl ProductReservationIdempotencyConflictError"
    using reservation_command.conflicting [of digest collate "(cmd, branch, dto)" db d again db' "(cmd, branch', dto')" f] assms by simp
qed

theorem createReservation_replay_witness:
  "case createReservation fixedDigest id sellerCommand 1 reserveTwo reservationDb of Inl _ \<Rightarrow> False
   | Inr ((d, again), db') \<Rightarrow> createReservation fixedDigest id sellerCommand 1 reserveTwo db' = Inr ((d, True), db')"
proof -
  obtain d db' where run: "createReservation fixedDigest id sellerCommand 1 reserveTwo reservationDb = Inr ((d, False), db')"
    using reservation_runs by blast
  from createReservation_replay [OF this] show ?thesis by (simp add: run del: One_nat_def)
qed

section \<open>release\<close>

definition releasing :: "(request \<Rightarrow> string) \<Rightarrow> command \<Rightarrow> id \<Rightarrow> string \<Rightarrow> closing" where
  "releasing digest cmd i reason = \<lparr>cz_reservation = i, cz_key = cm_key cmd, cz_reason = reason, cz_status = ReservationReleased,
     cz_fingerprint = closeFingerprint digest ReservationReleased reason\<rparr>"

text \<open>Releasing an active reservation of the branch moves the quantities of its lines back from
  reserved to available at its location, closes this reservation alone, and moves nothing in or
  out.\<close>

theorem releaseReservation_effect:
  assumes run: "releaseReservation digest cmd branch i reason db = Inr ((d, False), db')" and inv: "reservation_inv db"
  shows "\<exists>r\<in>set (reservations db). \<exists>now. rv_id r = i \<and> rv_tenant r = cm_tenant cmd \<and> rv_branch r = branch \<and> rv_status r = ReservationActive \<and>
     reservations db' = update_where (\<lambda>x. x = r) (closedRow cmd (releasing digest cmd i reason) now) (reservations db) \<and>
     reservation_lines db' = reservation_lines db \<and> do_header d = closedRow cmd (releasing digest cmd i reason) now r \<and>
     (\<forall>k. balanceAt k db' = shiftReserved (- heldAt (cm_tenant cmd) (rv_location r) k (linesHeld (cm_tenant cmd) i db)) (balanceAt k db)) \<and>
     (\<forall>tp. movedOf tp db' = movedOf tp db)"
proof -
  let ?c = "releasing digest cmd i reason" and ?t = "cm_tenant cmd"
  have id: "cz_reservation ?c = i" by (simp add: releasing_def)
  have "closeReservation cmd branch ?c db = Inr ((d, False), db')" using run by (simp add: releaseReservation_Inr releasing_def)
  then show ?thesis
  proof (cases rule: closeReservation_Inr)
    case (closed r)
    obtain d' now where C: "(d, False) = (d', False)" "findReservationById ?t (rv_id r) db' = Some d'"
      "reservations db' = update_where (activeRow ?t (rv_id r)) (closedRow cmd ?c now) (reservations db)"
      "reservation_lines db' = reservation_lines db" "\<forall>tp. movedOf tp db' = movedOf tp db"
      "\<forall>k. balanceAt k db' = shiftReserved (- heldAt ?t (rv_location r) k (linesHeld ?t (rv_id r) db)) (balanceAt k db)"
      by (rule closeActive_Inr [OF closed(6)]) blast
    have sole: "x = r" if "x \<in> set (reservations db)" "rv_id x = rv_id r" for x
      by (rule distinct_map_key_inj [OF reservation_invD(1) [OF inv] that(1) closed(1) that(2)])
    have upd: "update_where (activeRow ?t (rv_id r)) u (reservations db) = update_where (\<lambda>x. x = r) u (reservations db)" for u
      unfolding update_where_def by (rule map_cong [OF refl]) (use sole closed(3,5) in \<open>auto simp: activeRow_def\<close>)
    obtain x where x: "x \<in> set (reservations db')" "rv_id x = rv_id r" "do_header d' = x"
      using findReservationById_Some [OF C(2)] by auto
    then obtain y where y: "y \<in> set (reservations db)" "x = (if y = r then closedRow cmd ?c now y else y)"
      unfolding C(3) upd set_update_where by blast
    then have "y = r" using x(2) sole by (auto split: if_splits)
    then have "do_header d = closedRow cmd ?c now r" using x(3) y(2) C(1) by simp
    moreover have "reservations db' = update_where (\<lambda>x. x = r) (closedRow cmd ?c now) (reservations db)" unfolding C(3) by (rule upd)
    ultimately show ?thesis using closed C(4-6) id by (intro bexI [of _ r] exI [of _ now]) simp_all
  qed simp
qed

theorem releaseReservation_effect_witness:
  "case releaseReservation fixedDigest (sellerCommand\<lparr>cm_key := ''release1''\<rparr>) 1 65 ''changed mind'' reservedDb of Inl _ \<Rightarrow> False
   | Inr ((d, again), db') \<Rightarrow> rv_status (do_header d) = ReservationReleased"
proof -
  obtain d db' where run: "releaseReservation fixedDigest (sellerCommand\<lparr>cm_key := ''release1''\<rparr>) 1 65 ''changed mind'' reservedDb = Inr ((d, False), db')"
    using release_runs by (auto split: sum.splits prod.splits)
  from releaseReservation_effect [OF this reservation_inv_sample(2)] have "rv_status (do_header d) = ReservationReleased"
    by (auto simp: releasing_def)
  then show ?thesis by (simp add: run del: One_nat_def)
qed

text \<open>C23: A round trip: releasing a reservation straight after creating it restores every balance.\<close>

theorem reservation_round_trip:
  assumes "createReservation digest collate cmd branch dto db = Inr ((d, False), db1)" "reservation_inv db"
    and "releaseReservation digest cmd' branch' (rv_id (do_header d)) reason db1 = Inr ((d', False), db2)" "cm_tenant cmd' = cm_tenant cmd"
  shows "balanceAt k db2 = balanceAt k db"
  using assms(1)
proof (cases rule: createReservation_Inr)
  case (created lines)
  let ?t = "cm_tenant cmd" and ?i = "env_uuid db (ticks db)"
  obtain d1 ls where E: "(d, False) = (d1, False)" "do_lines d1 = ls"
    "do_header d1 = newReservation cmd branch dto (digest (reservationRequest dto lines)) ?i (env_clock db (ticks db))"
    "reservations db1 = reservations db @ [do_header d1]" "reservation_lines db1 = reservation_lines db @ ls"
    "list_all2 (rowOf ?t ?i) (List.enumerate 0 lines) ls"
    "\<forall>k. balanceAt k db1 = shiftReserved (heldAt ?t (vd_location dto) k ls) (balanceAt k db)" "reservation_inv db1"
    by (rule reserveLines_Inr [OF created(3) assms(2)]) blast
  have head: "rv_id (do_header d) = ?i" "rv_location (do_header d) = vd_location dto" using E(1,3) by (simp_all add: newReservation_def)
  obtain r where r: "r \<in> set (reservations db1)" "rv_id r = ?i"
    "balanceAt k db2 = shiftReserved (- heldAt ?t (rv_location r) k (linesHeld ?t ?i db1)) (balanceAt k db1)"
    using releaseReservation_effect [OF assms(3) E(8)] unfolding head(1) assms(4) by blast
  have "r = do_header d"
    by (rule distinct_map_key_inj [OF reservation_invD(1) [OF E(8)] r(1)]) (use E(1,4) r(2) head(1) in auto)
  have new: "?i \<notin> rv_id ` set (reservations db)"
    using reservation_invD(1) [OF E(8)] E(1,4) head(1) by auto
  then have "\<forall>l\<in>set (reservation_lines db). rn_reservation l \<noteq> ?i"
    using reservation_invD(4) [OF assms(2)] by force
  then have "linesHeld ?t ?i db1 = ls"
    using rows_sorted(4) [OF E(6)] by (auto simp: linesHeld_def E(5) filter_id_conv filter_empty_conv)
  then show ?thesis using r(3) E(7) \<open>r = do_header d\<close> head(2) by simp
qed simp

theorem reservation_round_trip_witness:
  "case createReservation fixedDigest id sellerCommand 1 reserveTwo reservationDb of Inl _ \<Rightarrow> False
   | Inr ((d, again), db1) \<Rightarrow> (case releaseReservation fixedDigest (sellerCommand\<lparr>cm_key := ''release1''\<rparr>) 1 (rv_id (do_header d)) ''changed mind'' db1 of
      Inl _ \<Rightarrow> False | Inr ((d', again'), db2) \<Rightarrow> balanceAt (1, 7, 3) db2 = balanceAt (1, 7, 3) reservationDb)"
proof -
  obtain d db1 d' db2 where run: "createReservation fixedDigest id sellerCommand 1 reserveTwo reservationDb = Inr ((d, False), db1)"
    "releaseReservation fixedDigest (sellerCommand\<lparr>cm_key := ''release1''\<rparr>) 1 (rv_id (do_header d)) ''changed mind'' db1 = Inr ((d', False), db2)"
    using round_trip_runs by (auto split: sum.splits prod.splits)
  from reservation_round_trip [OF run(1) reservation_inv_sample(1) run(2)] show ?thesis by (simp add: run del: One_nat_def)
qed

section \<open>expireDue\<close>

text \<open>C13: Liveness of the expiry: when \<open>expireDue\<close> returns, no reservation of the branch that was due
  when it started is active any more, and no other reservation has changed.\<close>

theorem expireDue_closes_due:
  assumes run: "expireDue digest cmd branch db = (Inr ds, db')" and inv: "reservation_inv db"
  shows "list_all2 (\<lambda>r r'. if rv_tenant r = cm_tenant cmd \<and> rv_branch r = branch \<and> rv_status r = ReservationActive \<and> rv_expires_at r \<le> int (env_clock db (ticks db))
       then rv_id r' = rv_id r \<and> rv_status r' = ReservationExpired else r' = r) (reservations db) (reservations db')"
proof -
  let ?t = "cm_tenant cmd" and ?is = "dueReservations (cm_tenant cmd) branch db"
  let ?due = "\<lambda>r. rv_tenant r = ?t \<and> rv_branch r = branch \<and> rv_status r = ReservationActive \<and> rv_expires_at r \<le> int (env_clock db (ticks db))"
  have E: "expired_rows ?t ?is (reservations db) (reservations db')"
    using expireEach_effect [OF run [unfolded expireDue_def] inv] by blast
  have due: "rv_id r \<in> set ?is \<longleftrightarrow> ?due r" if r: "r \<in> set (reservations db)" for r
  proof
    assume "rv_id r \<in> set ?is"
    then obtain x where "x \<in> set (reservations db)" "rv_id x = rv_id r" "?due x" by (auto simp: dueReservations_def)
    moreover from this have "x = r" by (intro distinct_map_key_inj [OF reservation_invD(1) [OF inv] _ r])
    ultimately show "?due r" by simp
  qed (use r in \<open>auto simp: dueReservations_def\<close>)
  let ?Q = "\<lambda>r r'. if ?due r then rv_id r' = rv_id r \<and> rv_status r' = ReservationExpired else r' = r"
  show ?thesis
  proof (rule list_all2_all_nthI)
    show "length (reservations db) = length (reservations db')" using E list_all2_lengthD unfolding expired_rows_def by blast
    fix n assume n: "n < length (reservations db)"
    let ?r = "reservations db ! n" and ?r' = "reservations db' ! n"
    have r: "?r \<in> set (reservations db)" "?r' \<in> set (reservations db')" using n \<open>length (reservations db) = length (reservations db')\<close> by simp_all
    have step: "?r' = ?r \<or> (rv_id ?r \<in> set ?is \<and> rv_tenant ?r = ?t \<and> rv_status ?r = ReservationActive \<and>
        rv_id ?r' = rv_id ?r \<and> rv_tenant ?r' = rv_tenant ?r \<and> rv_branch ?r' = rv_branch ?r \<and> rv_status ?r' = ReservationExpired)"
      using E n unfolding expired_rows_def by (auto dest: list_all2_nthD)
    have "\<not> ?due ?r" if "?r' = ?r"
      using E r(2) due [OF r(1)] that unfolding expired_rows_def by metis
    with step due [OF r(1)] show "?Q ?r ?r'" by auto
  qed
qed

lemma expire_runs: "case expireDue fixedDigest sellerCommand 1 reservedDb of (Inl _, _) \<Rightarrow> False
  | (Inr ds, db') \<Rightarrow> map rv_status (reservations db') = [ReservationExpired] \<and> map ba_available (balances db') = [5000]"
  by code_simp

theorem expireDue_closes_due_witness:
  "case expireDue fixedDigest sellerCommand 1 reservedDb of (Inl _, _) \<Rightarrow> False
   | (Inr ds, db') \<Rightarrow> list_all2 (\<lambda>r r'. rv_id r' = rv_id r \<and> rv_status r' = ReservationExpired) (reservations reservedDb) (reservations db')"
proof -
  obtain ds db' where run: "expireDue fixedDigest sellerCommand 1 reservedDb = (Inr ds, db')"
    using expire_runs by (cases "expireDue fixedDigest sellerCommand 1 reservedDb"; cases "fst (expireDue fixedDigest sellerCommand 1 reservedDb)") (simp_all del: One_nat_def)
  have rows: "reservations reservedDb = [activeRow1]" by (simp add: reservedDb_def)
  from expireDue_closes_due [OF run reservation_inv_sample(2)] show ?thesis
    unfolding run rows by (simp add: list_all2_Cons1 activeRow1_def sellerCommand_def reservedDb_def reservationDb_def sampleDb_def)
qed

definition takeBack :: transition_dto where
  "takeBack = \<lparr>td_product = 7, td_location = 3, td_from = RESERVED, td_to = AVAILABLE, td_quantity = ''1'', td_reason = ''r'', td_reference = ''x'', td_serials = None\<rparr>"

definition twoReservations :: inv_db where
  "twoReservations = reservedDb\<lparr>ticks := 20,
     products := [sampleProduct, sampleProduct\<lparr>pr_id := 8\<rparr>],
     balances := [(emptyBalance (1, 7, 3))\<lparr>ba_quantity := 5000, ba_available := 3000, ba_reserved := 2000\<rparr>,
       (emptyBalance (1, 8, 3))\<lparr>ba_quantity := 1000, ba_reserved := 1000\<rparr>],
     valuations := [\<lparr>va_tenant = 1, va_product = 7, va_quantity = 5000, va_value = 100000, va_average = 20000, va_version = 1\<rparr>,
       \<lparr>va_tenant = 1, va_product = 8, va_quantity = 1000, va_value = 20000, va_average = 20000, va_version = 1\<rparr>],
     layers := [sampleLayer\<lparr>fl_id := 31\<rparr>, sampleLayer\<lparr>fl_id := 32, fl_product := 8, fl_original := 1000, fl_remaining := 1000\<rparr>],
     reservations := [activeRow1, activeRow1\<lparr>rv_id := 67, rv_number := ''R-1007'', rv_key := ''reserve2'', rv_expires_at := 8\<rparr>],
     reservation_lines := [\<lparr>rn_id = 66, rn_tenant = 1, rn_reservation = 65, rn_number = 1, rn_product = 7, rn_quantity = 2000, rn_serials = []\<rparr>,
       \<lparr>rn_id = 68, rn_tenant = 1, rn_reservation = 67, rn_number = 1, rn_product = 8, rn_quantity = 1000, rn_serials = []\<rparr>]\<rparr>"

text \<open>A reservation whose stock was taken out of the reserved state by hand cannot be closed any
  more: a transition from \<open>RESERVED\<close> to \<open>AVAILABLE\<close> is accepted although the units belong to an
  active reservation; releasing it then fails, and so does every later run of \<open>expireDue\<close>, which
  stops at it and leaves the reservations that are due after it active.\<close>

theorem taken_reservation_stops_expiry:
  "case createStateTransition fixedDigest (sellerCommand\<lparr>cm_key := ''take1''\<rparr>) takeBack twoReservations of Inl _ \<Rightarrow> False
   | Inr (_, db1) \<Rightarrow>
      (case releaseReservation fixedDigest (sellerCommand\<lparr>cm_key := ''release1''\<rparr>) 1 65 ''changed mind'' db1 of
         Inr _ \<Rightarrow> False | Inl e \<Rightarrow> e = ProductReservationInsufficientStockError 7) \<and>
      (case expireDue fixedDigest sellerCommand 1 db1 of
         (Inr _, _) \<Rightarrow> False | (Inl e, db2) \<Rightarrow> e = ProductReservationInsufficientStockError 7 \<and>
            map rv_status (reservations db2) = [ReservationActive, ReservationActive])"
  by code_simp

end
