(* ===== verification/PostingLaws.thy ===== *)
theory PostingLaws
  imports GuardLaws ValuationLaws
begin

text \<open>
  What posting a movement does to the movements as a whole: it appends one row, and of that row the
  journal sees all columns. For tenants that value by moving average, the value change stored on the
  row is the change of the valuation.
\<close>

section \<open>Only the posted movement is written\<close>

definition otherMovements :: "id \<Rightarrow> inv_db \<Rightarrow> movement_row list" where
  "otherMovements i db = filter (\<lambda>r. mv_id r \<noteq> i) (movements db)"

lemma keeps_others: "keeps movements m \<Longrightarrow> keeps (otherMovements i) m"
  by (simp add: keeps_def otherMovements_def)

lemma others_update [simp]:
  "(\<And>r. mv_id (u r) = mv_id r) \<Longrightarrow>
     filter (\<lambda>r. mv_id r \<noteq> i) (update_where (\<lambda>m. mv_id m = i \<and> mv_tenant m = t) u ms) = filter (\<lambda>r. mv_id r \<noteq> i) ms"
  by (rule filter_update_where_disjoint) auto

lemma keeps_others_update: "(\<And>r. mv_id (u r) = mv_id r) \<Longrightarrow> keeps (otherMovements i) (updateMovement t i u)"
  by (auto simp: keeps_def otherMovements_def)

lemma others_valuation:
  assumes "applyInventoryValuation mid db = Inr (u, db')"
  shows "otherMovements mid db' = otherMovements mid db"
proof -
  obtain m db1 db2 meth where R: "selectMovement mid db = Some m" "movingAverageStep m db = Inr ((), db1)"
    "applyInventoryFifoValuation mid db1 = Inr ((), db2)" "sealInventoryMovementValuation mid db2 = Inr (meth, db')"
    by (rule applyInventoryValuation_run [OF assms])
  have id: "mv_id m = mid" by (rule selectMovement_id [OF R(1)])
  obtain w dbv c where S: "ensureValuation (mv_tenant m) (mv_product m) db = Inr ((), dbv)" "recordValuation m w c dbv = Inr ((), db1)"
    by (rule movingAverageStep_Inr [OF R(2)])
  have "otherMovements mid db1 = otherMovements mid dbv"
    by (rule recordValuation_Inr [OF S(2)])
      (simp add: otherMovements_def id costWrite_def)
  also have "\<dots> = otherMovements mid db" using ensureValuation_frame(1) [OF S(1)] by (simp add: otherMovements_def)
  finally have one: "otherMovements mid db1 = otherMovements mid db" .
  have two: "otherMovements mid db2 = otherMovements mid db1"
    using R(3)
  proof (cases rule: applyFifo_run)
    case (ran movement country db3 v db4)
    have "mv_id movement = mid" by (rule selectMovement_id [OF ran(1)])
    moreover have "movements db4 = movements db1"
      using keepsD [OF keeps_movements_valuations(1) ran(4)] ensureCutover_same_layers(3) [OF ran(3)] by simp
    ultimately show ?thesis
      by - (rule updateMovementSummary_Inr [OF ran(5)], simp add: otherMovements_def)
  qed simp
  have "keeps movements (loadInventoryValuationPolicy t)" for t
    by (rule keepsI) (rule loadPolicy_frame(1))
  then have "keeps (otherMovements mid) (sealInventoryMovementValuation mid)"
    unfolding sealInventoryMovementValuation_def by (intro keeps_intros keeps_others_update) (simp_all add: keeps_others)
  from keepsD [OF this R(4)] one two show ?thesis by simp
qed

lemma others_lots: "keeps (otherMovements mid) (applyInventoryLotTracking mid options)"
proof -
  have final: "keeps (otherMovements mid) (finalizeSpecificLotMovementValuation mid)"
  proof (rule keepsI)
    fix db x db'
    assume run: "finalizeSpecificLotMovementValuation mid db = Inr (x, db')"
    show "otherMovements mid db' = otherMovements mid db"
    proof (cases "selectMovement mid db")
      case (Some m)
      have "keeps (otherMovements (mv_id m)) (settleSpecificLots m)"
        unfolding settleSpecificLots_def Let_def by (intro keeps_intros keeps_others_update) simp
      then show ?thesis
        using run Some selectMovement_id [OF Some]
        by (auto simp: finalizeSpecificLotMovementValuation_def runM split: if_splits dest: keepsD)
    qed (use run in \<open>simp add: finalizeSpecificLotMovementValuation_def runM\<close>)
  qed
  show ?thesis
    unfolding applyInventoryLotTracking_def
    by (intro keeps_intros final keeps_others [OF keeps_allocateLots_movements])
qed

lemma posting_appends:
  assumes "postMovement m lo so db = Inr (x, db')"
  obtains r where "movements db' = movements db @ [r]" "movementCore r = movementCore m" "selectMovement (mv_id m) db' = Some r"
proof -
  have fresh: "mv_id m \<notin> mv_id ` set (movements db)" by (rule postMovement_Inr [OF assms])
  obtain db1 db2 where P: "applyInventoryValuation (mv_id m) (db\<lparr>movements := movements db @ [m]\<rparr>) = Inr ((), db1)"
    "applyInventoryLotTracking (mv_id m) lo db1 = Inr ((), db2)" "applyInventorySerialTracking (mv_id m) so db2 = Inr (x, db')"
    by (rule postMovement_Inr [OF assms]) (use that in auto)
  have "otherMovements (mv_id m) db' = otherMovements (mv_id m) (db\<lparr>movements := movements db @ [m]\<rparr>)"
    using others_valuation [OF P(1)] keepsD [OF others_lots P(2)] keepsD [OF keeps_others [OF keeps_applySerial] P(3)] by simp
  also have "\<dots> = movements db"
    using fresh by (auto simp: otherMovements_def filter_id_conv image_iff)
  finally have others: "otherMovements (mv_id m) db' = movements db" .
  from postMovement_movements [OF assms] obtain xs r where xs: "movements db' = xs @ [r]"
    "map movementCore xs = map movementCore (movements db)" "movementCore r = movementCore m"
    by (auto simp: map_eq_append_conv)
  have "mv_id y \<noteq> mv_id m" if "y \<in> set xs" for y
  proof -
    have "mv_id (movementCore y) \<in> mv_id ` set (map movementCore (movements db))" using that xs(2) by (metis image_eqI list.set_map)
    then show ?thesis using fresh by (auto simp: movementCore_def)
  qed
  moreover have id: "mv_id r = mv_id m" using arg_cong [OF xs(3), of mv_id] by (simp add: movementCore_def)
  ultimately have "xs = movements db" using others by (simp add: otherMovements_def xs(1) filter_id_conv)
  moreover have "List.find (\<lambda>y. mv_id y = mv_id m) (movements db) = None"
    using fresh by (auto simp: find_None_iff) (metis imageI)
  ultimately show thesis
    using xs(1,3) id by (intro that [of r]) (simp_all add: selectMovement_def find_append)
qed

section \<open>The journal\<close>

text \<open>The movements of \<open>base\<close>, column by column, and more.\<close>

definition journal :: "movement_row list \<Rightarrow> inv_db \<Rightarrow> bool" where
  "journal base db \<longleftrightarrow> (\<exists>ms. movements db = base @ ms)"

lemma journal_tables:
  "journal b (db\<lparr>balances := bs\<rparr>) = journal b db" "journal b (db\<lparr>ticks := n\<rparr>) = journal b db" "journal b (db\<lparr>counts := cs\<rparr>) = journal b db"
  "journal b (db\<lparr>transfers := hs\<rparr>) = journal b db" "journal b (db\<lparr>transfer_lines := ls\<rparr>) = journal b db"
  "journal b (db\<lparr>transfer_receipts := rs\<rparr>) = journal b db" "journal b (db\<lparr>transfer_receipt_lines := rls\<rparr>) = journal b db"
  "journal b (db\<lparr>reservations := vs\<rparr>) = journal b db" "journal b (db\<lparr>reservation_lines := vls\<rparr>) = journal b db"
  "journal b (db\<lparr>recon_runs := us\<rparr>) = journal b db" "journal b (db\<lparr>recon_findings := fs\<rparr>) = journal b db" "journal b (db\<lparr>guards := gs\<rparr>) = journal b db"
  by (simp_all add: journal_def)

lemma journal_posting: "preserves (journal b) (postMovement m lo so)"
  by (rule preservesI) (auto simp: journal_def elim!: posting_appends)

section \<open>The value of the stock\<close>

lemma lots_same_movement:
  assumes "selectMovement mid db = Some m" "mv_method m \<noteq> Some SPECIFIC_LOT" "applyInventoryLotTracking mid options db = Inr (x, db')"
  shows "movements db' = movements db"
proof -
  have final: "movements db2 = movements db1"
    if "selectMovement mid db1 = Some m" "finalizeSpecificLotMovementValuation mid db1 = Inr (y, db2)" for y db1 db2
    using that assms(2) by (simp add: finalizeSpecificLotMovementValuation_def runM)
  have alloc: "movements db1 = movements db" if "allocateLots movement country tz options db = Inr (y, db1)" for movement country tz y db1
    using keepsD [OF keeps_allocateLots_movements that] .
  show ?thesis
  proof (cases "lotMovement mid db")
    case None
    then show ?thesis using assms(3) by (simp add: applyInventoryLotTracking_def runM)
  next
    case (Some q)
    obtain movement product country tz where q: "q = (movement, product, country, tz)" by (cases q)
    from assms(3) obtain c y db1 where W: "whenM c (allocateLots movement country tz options) db = Inr (y, db1)"
      "finalizeSpecificLotMovementValuation mid db1 = Inr (x, db')"
      unfolding applyInventoryLotTracking_def by (auto simp: Some q bindM_Inr thenM_Inr)
    have "movements db1 = movements db"
      using W(1) alloc by (cases c) (auto simp: whenM_def)
    then show ?thesis using final [OF _ W(2)] assms(1) by (simp add: selectMovement_def)
  qed
qed

definition valueOf :: "movement_row \<Rightarrow> int" where
  "valueOf m = (case mv_value_change m of None \<Rightarrow> 0 | Some v \<Rightarrow> v)"

lemma valueMoved_rows: "valueMoved t p db = sum_where (\<lambda>m. mv_tenant m = t \<and> mv_product m = p) valueOf (movements db)"
  by (simp add: valueMoved_def valueOf_def [abs_def])

lemma posting_value:
  assumes run: "postMovement m lo so db = Inr (x, db')"
  obtains r where "movements db' = movements db @ [r]" "mv_tenant r = mv_tenant m" "mv_product r = mv_product m"
    "\<forall>t. policyMethod t db' = policyMethod t db"
    "\<forall>t p. (t, p) \<noteq> (mv_tenant m, mv_product m) \<longrightarrow> valuedAmount t p db' = valuedAmount t p db"
    "policyMethod (mv_tenant m) db = MOVING_AVERAGE \<longrightarrow>
       valuedAmount (mv_tenant m) (mv_product m) db' = valuedAmount (mv_tenant m) (mv_product m) db + valueOf r"
proof -
  let ?db = "db\<lparr>movements := movements db @ [m]\<rparr>"
  have fresh: "mv_id m \<notin> mv_id ` set (movements db)" by (rule postMovement_Inr [OF run])
  obtain db1 db2 where P: "applyInventoryValuation (mv_id m) ?db = Inr ((), db1)"
    "applyInventoryLotTracking (mv_id m) lo db1 = Inr ((), db2)" "applyInventorySerialTracking (mv_id m) so db2 = Inr (x, db')"
    by (rule postMovement_Inr [OF run]) (use that in auto)
  obtain r where r: "movements db' = movements db @ [r]" "movementCore r = movementCore m" "selectMovement (mv_id m) db' = Some r"
    by (rule posting_appends [OF run])
  have found: "selectMovement (mv_id m) ?db = Some m" by (rule selectMovement_new [OF fresh])
  obtain w w' m' where E: "openingValuation (mv_tenant m) (mv_product m) ?db = Some w"
    "selectValuation (mv_tenant m) (mv_product m) db1 = Some w'" "selectMovement (mv_id m) db1 = Some m'"
    "mv_method m' = Some (policyMethod (mv_tenant m) ?db)"
    "policyMethod (mv_tenant m) ?db \<noteq> FIFO \<longrightarrow> mv_value_change m' = Some (va_value w' - va_value w)"
    "\<forall>t p. (t, p) \<noteq> (mv_tenant m, mv_product m) \<longrightarrow> selectValuation t p db1 = selectValuation t p ?db"
    "\<forall>t. policyMethod t db1 = policyMethod t ?db"
    by (rule applyInventoryValuation_effect [OF P(1) found]) (use that in blast)
  have later: "valuations db' = valuations db1" "policies db' = policies db1"
  proof -
    have "lots_view valuations" "serials_view valuations" "lots_view policies" "serials_view policies" by (simp_all add: view_defs)
    then show "valuations db' = valuations db1" "policies db' = policies db1"
      using keepsD [OF keeps_lots_view P(2)] keepsD [OF keeps_serials_view P(3)] by metis+
  qed
  show thesis
  proof (rule that [OF r(1)])
    show "mv_tenant r = mv_tenant m" "mv_product r = mv_product m"
      using arg_cong [OF r(2), of mv_tenant] arg_cong [OF r(2), of mv_product] by (simp_all add: movementCore_def)
    show "\<forall>t. policyMethod t db' = policyMethod t db" using E(7) later(2) by (simp add: policyMethod_def)
    show "\<forall>t p. (t, p) \<noteq> (mv_tenant m, mv_product m) \<longrightarrow> valuedAmount t p db' = valuedAmount t p db"
      using E(6) later(1) by (simp add: valuedAmount_def selectValuation_def)
    show "policyMethod (mv_tenant m) db = MOVING_AVERAGE \<longrightarrow>
       valuedAmount (mv_tenant m) (mv_product m) db' = valuedAmount (mv_tenant m) (mv_product m) db + valueOf r"
    proof
      assume "policyMethod (mv_tenant m) db = MOVING_AVERAGE"
      then have meth: "policyMethod (mv_tenant m) ?db = MOVING_AVERAGE" by (simp add: policyMethod_def)
      have "movements db2 = movements db1"
        by (rule lots_same_movement [OF E(3) _ P(2)]) (use E(4) meth in simp)
      moreover have "movements db' = movements db2" by (rule keepsD [OF keeps_applySerial P(3)]) simp_all
      ultimately have "m' = r" using E(3) r(3) by (simp add: selectMovement_def)
      then have "valueOf r = va_value w' - va_value w" using E(5) meth by (simp add: valueOf_def)
      moreover have "valuedAmount (mv_tenant m) (mv_product m) db = va_value w"
        using E(1) by (auto simp: openingValuation_def valuedAmount_def selectValuation_def split: option.splits)
      moreover have "valuedAmount (mv_tenant m) (mv_product m) db' = va_value w'"
        using E(2) later(1) by (simp add: valuedAmount_def selectValuation_def)
      ultimately show "valuedAmount (mv_tenant m) (mv_product m) db' = valuedAmount (mv_tenant m) (mv_product m) db + valueOf r" by simp
    qed
  qed
qed

text \<open>The value of every product of a tenant that values by moving average is the sum of the value
  changes of its movements.\<close>

definition worth_inv :: "id \<Rightarrow> inv_db \<Rightarrow> bool" where
  "worth_inv t db \<longleftrightarrow> (policyMethod t db = MOVING_AVERAGE \<longrightarrow> (\<forall>p. valuedAmount t p db = valueMoved t p db))"

lemma worth_posting: "preserves (worth_inv t) (postMovement m lo so)"
proof (rule preservesI)
  fix db x db'
  assume I: "worth_inv t db" and run: "postMovement m lo so db = Inr (x, db')"
  obtain r where R: "movements db' = movements db @ [r]" "mv_tenant r = mv_tenant m" "mv_product r = mv_product m"
    "\<forall>t. policyMethod t db' = policyMethod t db"
    "\<forall>t p. (t, p) \<noteq> (mv_tenant m, mv_product m) \<longrightarrow> valuedAmount t p db' = valuedAmount t p db"
    "policyMethod (mv_tenant m) db = MOVING_AVERAGE \<longrightarrow>
       valuedAmount (mv_tenant m) (mv_product m) db' = valuedAmount (mv_tenant m) (mv_product m) db + valueOf r"
    by (rule posting_value [OF run])
  have moved: "valueMoved t p db' = valueMoved t p db + (if mv_tenant m = t \<and> mv_product m = p then valueOf r else 0)" for p
    by (simp add: valueMoved_rows R(1-3))
  show "worth_inv t db'"
    unfolding worth_inv_def
  proof (intro impI allI)
    fix p
    assume "policyMethod t db' = MOVING_AVERAGE"
    then have meth: "policyMethod t db = MOVING_AVERAGE" using R(4) by simp
    then have before: "valuedAmount t p db = valueMoved t p db" using I by (simp add: worth_inv_def)
    show "valuedAmount t p db' = valueMoved t p db'"
    proof (cases "(t, p) = (mv_tenant m, mv_product m)")
      case True
      then show ?thesis using R(6) meth before moved [of p] by simp
    next
      case False
      then show ?thesis using R(5) before moved [of p] by auto
    qed
  qed
qed

lemma worth_frame:
  "valuations db' = valuations db \<Longrightarrow> movements db' = movements db \<Longrightarrow> policies db' = policies db \<Longrightarrow> worth_inv t db' = worth_inv t db"
  by (simp add: worth_inv_def policyMethod_def valuedAmount_def valueMoved_def selectValuation_def)

lemma worth_tables:
  "worth_inv t (db\<lparr>balances := bs\<rparr>) = worth_inv t db" "worth_inv t (db\<lparr>ticks := n\<rparr>) = worth_inv t db" "worth_inv t (db\<lparr>counts := cs\<rparr>) = worth_inv t db"
  "worth_inv t (db\<lparr>transfers := hs\<rparr>) = worth_inv t db" "worth_inv t (db\<lparr>transfer_lines := ls\<rparr>) = worth_inv t db"
  "worth_inv t (db\<lparr>transfer_receipts := rs\<rparr>) = worth_inv t db" "worth_inv t (db\<lparr>transfer_receipt_lines := rls\<rparr>) = worth_inv t db"
  "worth_inv t (db\<lparr>reservations := vs\<rparr>) = worth_inv t db" "worth_inv t (db\<lparr>reservation_lines := vls\<rparr>) = worth_inv t db"
  "worth_inv t (db\<lparr>recon_runs := us\<rparr>) = worth_inv t db" "worth_inv t (db\<lparr>recon_findings := fs\<rparr>) = worth_inv t db" "worth_inv t (db\<lparr>guards := gs\<rparr>) = worth_inv t db"
  by (rule worth_frame; simp)+

end
