(* ===== verification/SystemLaws.thy ===== *)
theory SystemLaws
  imports PostingLaws
begin

text \<open>
  The invariants of the components as instances of the laws of the commands: the cost ledgers, the
  lots, the serials, the journal of movements, the documents of the transfers and of the reservations.
  The stock ledger, whose balances every command writes, has its own proofs per command.
\<close>

section \<open>What posting keeps\<close>

lemma preserves_frame:
  assumes "keeps view m" "\<And>N. preserves (since N) m" "\<And>db db'. view db' = view db \<Longrightarrow> ticks db \<le> ticks db' \<Longrightarrow> I db \<Longrightarrow> I db'"
  shows "preserves I m"
proof (rule preservesI)
  fix db x db'
  assume I: "I db" and run: "m db = Inr (x, db')"
  show "I db'"
    by (rule assms(3) [OF keepsD [OF assms(1) run] _ I]) (use preservesD [OF assms(2) _ run, of "ticks db"] in simp)
qed

lemma preserves_posting:
  assumes "\<And>db ms. I (db\<lparr>movements := ms\<rparr>) = I db" "\<And>i. preserves I (applyInventoryValuation i)"
    "\<And>i options. preserves I (applyInventoryLotTracking i options)" "\<And>i options. preserves I (applyInventorySerialTracking i options)"
  shows "preserves I (postMovement m lo so)"
  unfolding postMovement_def by (intro preserves_intros assms(2-4)) (auto simp: preserves_def insertMovement_Inr assms(1))

text \<open>The cost ledgers.\<close>

definition cost_inv :: "inv_db \<Rightarrow> bool" where
  "cost_inv db \<longleftrightarrow> valuation_inv db \<and> fifo_inv db"

definition costTables where
  "costTables db = (env_uuid db, valuations db, products db, layers db, allocs db)"

lemma cost_frame: "costTables db' = costTables db \<Longrightarrow> ticks db \<le> ticks db' \<Longrightarrow> cost_inv db \<Longrightarrow> cost_inv db'"
  using issued_mono [of db db'] by (auto simp: costTables_def cost_inv_def valuation_inv_def fifo_inv_def layerLedger_def)

lemma cost_tables:
  "cost_inv (db\<lparr>balances := bs\<rparr>) = cost_inv db" "cost_inv (db\<lparr>movements := ms\<rparr>) = cost_inv db" "cost_inv (db\<lparr>counts := cs\<rparr>) = cost_inv db"
  "cost_inv (db\<lparr>transfers := hs\<rparr>) = cost_inv db" "cost_inv (db\<lparr>transfer_lines := ls\<rparr>) = cost_inv db"
  "cost_inv (db\<lparr>transfer_receipts := rs\<rparr>) = cost_inv db" "cost_inv (db\<lparr>transfer_receipt_lines := rls\<rparr>) = cost_inv db"
  "cost_inv (db\<lparr>reservations := vs\<rparr>) = cost_inv db" "cost_inv (db\<lparr>reservation_lines := vls\<rparr>) = cost_inv db"
  "cost_inv (db\<lparr>recon_runs := us\<rparr>) = cost_inv db" "cost_inv (db\<lparr>recon_findings := fs\<rparr>) = cost_inv db" "cost_inv (db\<lparr>guards := gs\<rparr>) = cost_inv db"
  by (simp_all add: cost_inv_def valuation_inv_def fifo_inv_def layerLedger_def issued_def)

lemma cost_row: "cost_inv db \<Longrightarrow> cost_inv (db\<lparr>ticks := Suc (ticks db)\<rparr>)"
  by (rule cost_frame [of _ db]) (simp_all add: costTables_def)

lemma cost_posting: "preserves cost_inv (postMovement m lo so)"
proof (rule preserves_posting)
  show "preserves cost_inv (applyInventoryValuation i)" for i
    by (rule preservesI) (simp add: cost_inv_def, metis applyInventoryValuation_inv applyInventoryValuation_fifo_inv)
  show "preserves cost_inv (applyInventoryLotTracking i options)" for i options
    by (rule preserves_frame [where view = costTables, OF keeps_lots_view since_lots cost_frame]) (simp_all add: lots_view_def costTables_def)
  show "preserves cost_inv (applyInventorySerialTracking i options)" for i options
    by (rule preserves_frame [where view = costTables, OF keeps_serials_view since_serials cost_frame]) (simp_all add: serials_view_def costTables_def)
qed (rule cost_tables)

text \<open>The lots.\<close>

definition lotTables where
  "lotTables db = (env_uuid db, lots db, lot_balances db, movement_lots db)"

lemma lot_frame: "lotTables db' = lotTables db \<Longrightarrow> ticks db \<le> ticks db' \<Longrightarrow> lot_inv db \<Longrightarrow> lot_inv db'"
  using issued_mono [of db db'] by (auto simp: lotTables_def lot_inv_def lotBalanceOf_def lotLedger_def)

lemma lot_tables:
  "lot_inv (db\<lparr>balances := bs\<rparr>) = lot_inv db" "lot_inv (db\<lparr>counts := cs\<rparr>) = lot_inv db"
  "lot_inv (db\<lparr>transfers := hs\<rparr>) = lot_inv db" "lot_inv (db\<lparr>transfer_lines := ls\<rparr>) = lot_inv db"
  "lot_inv (db\<lparr>transfer_receipts := rs\<rparr>) = lot_inv db" "lot_inv (db\<lparr>transfer_receipt_lines := rls\<rparr>) = lot_inv db"
  "lot_inv (db\<lparr>reservations := vs\<rparr>) = lot_inv db" "lot_inv (db\<lparr>reservation_lines := vls\<rparr>) = lot_inv db"
  "lot_inv (db\<lparr>recon_runs := us\<rparr>) = lot_inv db" "lot_inv (db\<lparr>recon_findings := fs\<rparr>) = lot_inv db" "lot_inv (db\<lparr>guards := gs\<rparr>) = lot_inv db"
  by (simp_all add: lot_inv_def lotBalanceOf_def lotLedger_def issued_def)

lemma lot_row: "lot_inv db \<Longrightarrow> lot_inv (db\<lparr>ticks := Suc (ticks db)\<rparr>)"
  by (rule lot_frame [of _ db]) (simp_all add: lotTables_def)

lemma lot_posting: "preserves lot_inv (postMovement m lo so)"
proof (rule preserves_posting)
  show "preserves lot_inv (applyInventoryValuation i)" for i
    by (rule preserves_frame [where view = lotTables, OF keeps_valuation_view since_valuation lot_frame]) (simp_all add: valuing_view_def lotTables_def)
  show "preserves lot_inv (applyInventorySerialTracking i options)" for i options
    by (rule preserves_frame [where view = lotTables, OF keeps_serials_view since_serials lot_frame]) (simp_all add: serials_view_def lotTables_def)
qed (simp, rule applyLotTracking_inv)

text \<open>The serials, with the clock of their events.\<close>

definition serialTables where
  "serialTables db = (env_uuid db, env_clock db, serials db, serial_events db)"

definition traced_inv :: "inv_db \<Rightarrow> bool" where
  "traced_inv db \<longleftrightarrow> serial_inv db \<and> event_clock db"

lemma event_clock_new:
  assumes "event_clock db"
  shows "event_clock (db\<lparr>ticks := Suc (ticks db), serial_events := serial_events db @ [e\<lparr>se_created_at := env_clock db (ticks db)\<rparr>]\<rparr>)"
proof -
  have "se_created_at x < env_clock db (ticks db)" if "x \<in> set (serial_events db)" for x
    using assms that by (auto simp: event_clock_def strict_mono_def)
  moreover have "\<exists>n<Suc (ticks db). se_created_at x = env_clock db n" if "x \<in> set (serial_events db)" for x
    using assms that unfolding event_clock_def by (meson less_SucI)
  ultimately show ?thesis using assms by (auto simp: event_clock_def sorted_wrt_append)
qed

lemma event_clock_frame: "serialTables db' = serialTables db \<Longrightarrow> ticks db \<le> ticks db' \<Longrightarrow> event_clock db \<Longrightarrow> event_clock db'"
  by (force simp: serialTables_def event_clock_def)

lemma event_clock_insert: "preserves event_clock (insertSerialEvent movement i from to floc tloc)"
proof (rule preservesI)
  fix db x db'
  assume I: "event_clock db" and run: "insertSerialEvent movement i from to floc tloc db = Inr (x, db')"
  show "event_clock db'"
    using event_clock_new [OF I, of "\<lparr>se_id = env_uuid db (ticks db), se_tenant = mv_tenant movement, se_serial = i, se_movement = mv_id movement,
      se_from = from, se_to = to, se_from_location = floc, se_to_location = tloc, se_created_at = 0\<rparr>"] run
    by (auto simp: insertSerialEvent_def runM)
qed

lemma event_clock_serials: "preserves event_clock (applyInventorySerialTracking i options)"
proof -
  have row: "preserves event_clock newRow"
    by (rule preservesI) (auto intro: event_clock_frame [rotated 2] simp: serialTables_def)
  have target: "preserves event_clock (serialTarget m d)" for m d
    by (rule preservesI) (auto dest: serialTarget_Inr)
  have move: "preserves event_clock (moveSerial m d s)" for m d s
    unfolding moveSerial_def appendEvent_def
    by (intro preserves_intros since_case_prod event_clock_insert target) (auto simp: preserves_def event_clock_def)
  have reg: "preserves event_clock (registerSerial m u v)" for m u v
    unfolding registerSerial_def
    by (intro preserves_intros since_case_prod since_catchM event_clock_insert row) (auto simp: preserves_def event_clock_def)
  have sel: "preserves event_clock (selectSerials m ns)" for m ns
    by (rule preservesI) (drule selectSerials_Inr(1), simp)
  show ?thesis
    unfolding applyInventorySerialTracking_def trackSerials_def registerSerials_def
    by (intro preserves_intros since_case_prod move reg sel)
qed

lemma serial_frame: "serialTables db' = serialTables db \<Longrightarrow> ticks db \<le> ticks db' \<Longrightarrow> traced_inv db \<Longrightarrow> traced_inv db'"
  using issued_mono [of db db'] event_clock_frame [of db' db]
  by (auto simp: serialTables_def traced_inv_def serial_inv_def history_def)

lemma serial_tables:
  "traced_inv (db\<lparr>balances := bs\<rparr>) = traced_inv db" "traced_inv (db\<lparr>movements := ms\<rparr>) = traced_inv db" "traced_inv (db\<lparr>counts := cs\<rparr>) = traced_inv db"
  "traced_inv (db\<lparr>transfers := hs\<rparr>) = traced_inv db" "traced_inv (db\<lparr>transfer_lines := ls\<rparr>) = traced_inv db"
  "traced_inv (db\<lparr>transfer_receipts := rs\<rparr>) = traced_inv db" "traced_inv (db\<lparr>transfer_receipt_lines := rls\<rparr>) = traced_inv db"
  "traced_inv (db\<lparr>reservations := vs\<rparr>) = traced_inv db" "traced_inv (db\<lparr>reservation_lines := vls\<rparr>) = traced_inv db"
  "traced_inv (db\<lparr>recon_runs := us\<rparr>) = traced_inv db" "traced_inv (db\<lparr>recon_findings := fs\<rparr>) = traced_inv db" "traced_inv (db\<lparr>guards := gs\<rparr>) = traced_inv db"
  by (simp_all add: traced_inv_def serial_inv_def event_clock_def history_def issued_def)

lemma serial_row: "traced_inv db \<Longrightarrow> traced_inv (db\<lparr>ticks := Suc (ticks db)\<rparr>)"
  by (rule serial_frame [of _ db]) (simp_all add: serialTables_def)

lemma serial_posting: "preserves traced_inv (postMovement m lo so)"
proof (rule preserves_posting)
  show "preserves traced_inv (applyInventoryValuation i)" for i
    by (rule preserves_frame [where view = serialTables, OF keeps_valuation_view since_valuation serial_frame]) (simp_all add: valuing_view_def serialTables_def)
  show "preserves traced_inv (applyInventoryLotTracking i options)" for i options
    by (rule preserves_frame [where view = serialTables, OF keeps_lots_view since_lots serial_frame]) (simp_all add: lots_view_def serialTables_def)
  show "preserves traced_inv (applyInventorySerialTracking i options)" for i options
    using applySerial_inv event_clock_serials unfolding traced_inv_def preserves_def by blast
qed (rule serial_tables)

text \<open>The documents of transfers and of reservations.\<close>

definition transferTables where
  "transferTables db = (env_uuid db, transfers db, transfer_lines db)"

lemma transfer_frame: "transferTables db' = transferTables db \<Longrightarrow> ticks db \<le> ticks db' \<Longrightarrow> transfer_inv db \<Longrightarrow> transfer_inv db'"
  using issued_mono [of db db'] by (auto simp: transferTables_def transfer_inv_def transferLines_def)

lemma transfer_posting: "preserves transfer_inv (postMovement m lo so)"
proof (rule preserves_frame [where view = transferTables, OF keepsI since_postMovement transfer_frame])
  fix db x db' assume "postMovement m lo so db = Inr (x, db')"
  from postMovement_view [OF this, where f = transferTables] show "transferTables db' = transferTables db"
    by (simp add: view_defs transferTables_def)
qed

lemma transfer_tables:
  "transfer_inv (db\<lparr>balances := bs\<rparr>) = transfer_inv db" "transfer_inv (db\<lparr>counts := cs\<rparr>) = transfer_inv db"
  "transfer_inv (db\<lparr>reservations := vs\<rparr>) = transfer_inv db" "transfer_inv (db\<lparr>reservation_lines := vls\<rparr>) = transfer_inv db"
  "transfer_inv (db\<lparr>recon_runs := us\<rparr>) = transfer_inv db" "transfer_inv (db\<lparr>recon_findings := fs\<rparr>) = transfer_inv db" "transfer_inv (db\<lparr>guards := gs\<rparr>) = transfer_inv db"
  by (simp_all add: transfer_inv_def transferLines_def issued_def)

lemma transfer_row_law: "transfer_inv db \<Longrightarrow> transfer_inv (db\<lparr>ticks := Suc (ticks db)\<rparr>)"
  by (rule transfer_frame [of _ db]) (simp_all add: transferTables_def)

lemma reservation_tables:
  "reservation_inv (db\<lparr>balances := bs\<rparr>) = reservation_inv db" "reservation_inv (db\<lparr>ticks := n\<rparr>) = reservation_inv db" "reservation_inv (db\<lparr>counts := cs\<rparr>) = reservation_inv db"
  "reservation_inv (db\<lparr>transfers := hs\<rparr>) = reservation_inv db" "reservation_inv (db\<lparr>transfer_lines := ls\<rparr>) = reservation_inv db"
  "reservation_inv (db\<lparr>transfer_receipts := rs\<rparr>) = reservation_inv db" "reservation_inv (db\<lparr>transfer_receipt_lines := rls\<rparr>) = reservation_inv db"
  "reservation_inv (db\<lparr>recon_runs := us\<rparr>) = reservation_inv db" "reservation_inv (db\<lparr>recon_findings := fs\<rparr>) = reservation_inv db" "reservation_inv (db\<lparr>guards := gs\<rparr>) = reservation_inv db"
  by (simp_all add: reservation_inv_def)

lemma reservation_posting: "preserves reservation_inv (postMovement m lo so)"
proof (rule preservesI)
  fix db x db' assume inv: "reservation_inv db" and "postMovement m lo so db = Inr (x, db')"
  from postMovement_view [OF this(2), where f = "\<lambda>db. (reservations db, reservation_lines db)"] show "reservation_inv db'"
    using inv reservation_inv_cong [of db' db] by (simp add: view_defs)
qed

section \<open>The components satisfy the laws\<close>

text \<open>Every commands' law for what no command writes by itself.\<close>

interpretation cost_stock: stock_law cost_inv t "\<lambda>_. True" for t
  by unfold_locales (simp_all add: cost_row cost_posting cost_tables)

interpretation cost_transfer: transfer_law cost_inv t "\<lambda>_. True" for t
  by unfold_locales (simp_all add: cost_tables)

interpretation cost_reservation: reservation_law cost_inv t "\<lambda>_. True" for t
  by unfold_locales (simp_all add: cost_tables)

interpretation cost_reconciliation: reconciliation_law cost_inv
  by unfold_locales (simp_all add: cost_row cost_tables)

interpretation lot_stock: stock_law lot_inv t "\<lambda>_. True" for t
  by unfold_locales (simp_all add: lot_row lot_posting lot_tables)

interpretation lot_transfer: transfer_law lot_inv t "\<lambda>_. True" for t
  by unfold_locales (simp_all add: lot_tables)

interpretation lot_reservation: reservation_law lot_inv t "\<lambda>_. True" for t
  by unfold_locales (simp_all add: lot_tables)

interpretation lot_reconciliation: reconciliation_law lot_inv
  by unfold_locales (simp_all add: lot_row lot_tables)

interpretation serial_stock: stock_law traced_inv t "\<lambda>_. True" for t
  by unfold_locales (simp_all add: serial_row serial_posting serial_tables)

interpretation serial_transfer: transfer_law traced_inv t "\<lambda>_. True" for t
  by unfold_locales (simp_all add: serial_tables)

interpretation serial_reservation: reservation_law traced_inv t "\<lambda>_. True" for t
  by unfold_locales (simp_all add: serial_tables)

interpretation serial_reconciliation: reconciliation_law traced_inv
  by unfold_locales (simp_all add: serial_row serial_tables)

interpretation journal_stock: stock_law "journal b" t "\<lambda>_. True" for b t
  by unfold_locales (simp_all add: journal_posting journal_tables)

interpretation journal_transfer: transfer_law "journal b" t "\<lambda>_. True" for b t
  by unfold_locales (simp_all add: journal_tables)

interpretation journal_reservation: reservation_law "journal b" t "\<lambda>_. True" for b t
  by unfold_locales (simp_all add: journal_tables)

interpretation journal_reconciliation: reconciliation_law "journal b" for b
  by unfold_locales (simp_all add: journal_tables)

interpretation worth_stock: stock_law "worth_inv w" t "\<lambda>_. True" for w t
  by unfold_locales (simp_all add: worth_posting worth_tables)

interpretation worth_transfer: transfer_law "worth_inv w" t "\<lambda>_. True" for w t
  by unfold_locales (simp_all add: worth_tables)

interpretation worth_reservation: reservation_law "worth_inv w" t "\<lambda>_. True" for w t
  by unfold_locales (simp_all add: worth_tables)

interpretation worth_reconciliation: reconciliation_law "worth_inv w" for w
  by unfold_locales (simp_all add: worth_tables)

interpretation transfers_stock: stock_law transfer_inv t "\<lambda>_. True" for t
  by unfold_locales (simp_all add: transfer_row_law transfer_posting transfer_tables)

interpretation transfers_reservation: reservation_law transfer_inv t "\<lambda>_. True" for t
  by unfold_locales (simp_all add: transfer_tables)

interpretation transfers_reconciliation: reconciliation_law transfer_inv
  by unfold_locales (simp_all add: transfer_row_law transfer_tables)

interpretation reservations_stock: stock_law reservation_inv t "\<lambda>_. True" for t
  by unfold_locales (simp_all add: reservation_posting reservation_tables)

interpretation reservations_transfer: transfer_law reservation_inv t "\<lambda>_. True" for t
  by unfold_locales (simp_all add: reservation_tables)

interpretation reservations_reconciliation: reconciliation_law reservation_inv
  by unfold_locales (simp_all add: reservation_tables)

end
