(* ===== verification/System.thy ===== *)
theory System
  imports SystemLaws Fixtures
begin

text \<open>
  The inventory as a whole: the commands that the API offers on the database, what a client can
  reach with any sequence of them, and the invariants that hold in every state so reached.
  Transactions are atomic, so a concurrent execution is one of these sequences.
\<close>

section \<open>Commands and reachable states\<close>

datatype inventory_command =
    CreateMovement command movement_dto
  | CreateCount command count_dto
  | CreateStateTransition command transition_dto
  | CreateTransfer command transfer_dto
  | DispatchTransfer command id
  | ReceiveTransfer command id receipt_dto
  | CancelTransfer command id
  | CreateReservation command id reservation_dto
  | ReleaseReservation command id id string
  | ExpireDue command id
  | Reconcile id id "string option"

text \<open>The database after a request: committed, or rolled back when the handler throws.\<close>

fun execute :: "(request \<Rightarrow> string) \<Rightarrow> (string \<Rightarrow> string) \<Rightarrow> inventory_command \<Rightarrow> inv_db \<Rightarrow> inv_db" where
  "execute digest collate (CreateMovement cmd dto) db = snd (commit (createMovement digest cmd dto) db)"
| "execute digest collate (CreateCount cmd dto) db = snd (commit (createCount digest cmd dto) db)"
| "execute digest collate (CreateStateTransition cmd dto) db = snd (commit (createStateTransition digest cmd dto) db)"
| "execute digest collate (CreateTransfer cmd dto) db = snd (commit (createTransfer digest cmd dto) db)"
| "execute digest collate (DispatchTransfer cmd i) db = snd (commit (dispatchTransfer digest cmd i) db)"
| "execute digest collate (ReceiveTransfer cmd i dto) db = snd (commit (receiveTransfer digest cmd i dto) db)"
| "execute digest collate (CancelTransfer cmd i) db = snd (commit (cancelTransfer cmd i) db)"
| "execute digest collate (CreateReservation cmd branch dto) db = snd (commit (createReservation digest collate cmd branch dto) db)"
| "execute digest collate (ReleaseReservation cmd branch i reason) db = snd (commit (releaseReservation digest cmd branch i reason) db)"
| "execute digest collate (ExpireDue cmd branch) db = snd (expireDue digest cmd branch db)"
| "execute digest collate (Reconcile t user value) db = snd (commit (reconcile t user value) db)"

inductive reachable :: "(request \<Rightarrow> string) \<Rightarrow> (string \<Rightarrow> string) \<Rightarrow> inv_db \<Rightarrow> inv_db \<Rightarrow> bool"
  for digest collate start where
  start: "reachable digest collate start start"
| step: "reachable digest collate start db \<Longrightarrow> reachable digest collate start (execute digest collate c db)"

text \<open>The database of new companies: master data, but no stock and no documents.\<close>

definition opening_db :: "inv_db \<Rightarrow> bool" where
  "opening_db db \<longleftrightarrow> inj (env_uuid db) \<and> strict_mono (env_clock db) \<and> (\<forall>p\<in>set (products db). 0 \<le> pr_cost p) \<and>
     movements db = [] \<and> balances db = [] \<and> valuations db = [] \<and> layers db = [] \<and> allocs db = [] \<and>
     lots db = [] \<and> lot_balances db = [] \<and> movement_lots db = [] \<and> serials db = [] \<and> serial_events db = [] \<and>
     transfers db = [] \<and> transfer_lines db = [] \<and> reservations db = [] \<and> reservation_lines db = []"

definition system_inv :: "inv_db \<Rightarrow> bool" where
  "system_inv db \<longleftrightarrow> stock_inv db \<and> cost_inv db \<and> lot_inv db \<and> traced_inv db \<and> transfer_inv db \<and> reservation_inv db"

lemma system_invD:
  assumes "system_inv db"
  shows "stock_inv db" "cost_inv db" "lot_inv db" "traced_inv db" "transfer_inv db" "reservation_inv db"
  using assms by (simp_all add: system_inv_def)

lemma commit_keeps: "preserves I m \<Longrightarrow> I db \<Longrightarrow> I (snd (commit m db))"
  by (auto simp: commit_def preserves_def split: sum.splits)

section \<open>The stock ledger under the transfers and the reservations\<close>

lemma transfers_keep_stock:
  "preserves stock_inv (createTransfer digest cmd xdto)" "preserves stock_inv (dispatchTransfer digest cmd i)"
  "preserves stock_inv (receiveTransfer digest cmd i rdto)" "preserves stock_inv (cancelTransfer cmd i)"
proof -
  have ticks: "stock_inv (db\<lparr>ticks := n\<rparr>)" if "stock_inv db" "ticks db \<le> n" for db n
    using that issued_mono [of db "db\<lparr>ticks := n\<rparr>"]
    by (auto simp: stock_inv_def stock_gap_def balanceOf_def movedAt_def movedOf_def valuationQuantity_def)
  show "preserves stock_inv (createTransfer digest cmd xdto)"
    by (rule preservesI, erule createTransfer_Inr) (simp_all add: ticks)
  show "preserves stock_inv (dispatchTransfer digest cmd i)"
    by (rule preservesI, erule dispatchTransfer_Inr) (simp_all add: dispatchDraft_effect(1))
  show "preserves stock_inv (receiveTransfer digest cmd i rdto)"
    by (rule preservesI, erule receiveTransfer_Inr) (simp_all add: receiveItems_effect(1))
  show "preserves stock_inv (cancelTransfer cmd i)"
    by (rule preservesI, erule cancelTransfer_Inr) simp
qed

lemma createReservation_stock: "preserves (\<lambda>db. stock_inv db \<and> reservation_inv db) (createReservation digest collate cmd branch dto)"
proof (rule preservesI)
  fix db res db'
  assume inv: "stock_inv db \<and> reservation_inv db" and "createReservation digest collate cmd branch dto db = Inr (res, db')"
  from this(2) show "stock_inv db' \<and> reservation_inv db'"
  proof (cases rule: createReservation_Inr)
    case (created lines)
    with inv show ?thesis by (elim reserveLines_Inr) simp_all
  qed (use inv in simp)
qed

lemma stock_frame:
  assumes "env_uuid db' = env_uuid db" "movements db' = movements db" "balances db' = balances db" "valuations db' = valuations db" "ticks db \<le> ticks db'" "stock_inv db"
  shows "stock_inv db'"
  using assms issued_mono [of db db'] by (auto simp: stock_inv_def stock_gap_def balanceOf_def movedAt_def movedOf_def valuationQuantity_def)

interpretation stock_reconciliation: reconciliation_law stock_inv
  by unfold_locales (rule stock_frame, simp_all add: stock_inv_def stock_gap_def issued_def balanceOf_def movedAt_def movedOf_def valuationQuantity_def)

section \<open>Every command keeps every invariant\<close>

lemma execute_keeps:
  assumes "\<And>cmd dto. preserves I (createMovement digest cmd dto)" "\<And>cmd dto. preserves I (createCount digest cmd dto)"
    "\<And>cmd dto. preserves I (createStateTransition digest cmd dto)" "\<And>cmd dto. preserves I (createTransfer digest cmd dto)"
    "\<And>cmd i. preserves I (dispatchTransfer digest cmd i)" "\<And>cmd i dto. preserves I (receiveTransfer digest cmd i dto)" "\<And>cmd i. preserves I (cancelTransfer cmd i)"
    "\<And>cmd branch dto. preserves I (createReservation digest collate cmd branch dto)" "\<And>cmd branch i reason. preserves I (releaseReservation digest cmd branch i reason)"
    "\<And>cmd branch i. preserves I (closeReservation cmd branch (expiration digest i))" "\<And>t user value. preserves I (reconcile t user value)" and I: "I db"
  shows "I (execute digest collate c db)"
proof (cases c)
  case (ExpireDue cmd branch)
  show ?thesis unfolding ExpireDue execute.simps expireDue_def by (rule expireEach_keeps [OF assms(10) I])
qed (simp_all add: commit_keeps [of I, OF _ I] assms(1-9,11))

lemma preserves_conj: "preserves I m \<Longrightarrow> preserves J m \<Longrightarrow> preserves (\<lambda>db. I db \<and> J db) m"
  unfolding preserves_def by blast

lemma execute_stock: "stock_inv db \<and> reservation_inv db \<Longrightarrow> stock_inv (execute digest collate c db) \<and> reservation_inv (execute digest collate c db)"
  by (rule execute_keeps [where I = "\<lambda>db. stock_inv db \<and> reservation_inv db"])
    (simp_all add: createReservation_stock preserves_conj createMovement_inv createCount_inv createStateTransition_inv transfers_keep_stock release_keeps
      closeReservation_stock stock_reconciliation.reconcile_law reservations_stock.stock_commands [OF refl] reservations_transfer.transfer_commands [OF refl]
      closeReservation_keeps reservations_reconciliation.reconcile_law)

lemma execute_cost: "cost_inv db \<Longrightarrow> cost_inv (execute digest collate c db)"
  by (rule execute_keeps [where I = cost_inv]) (simp_all add: cost_stock.stock_commands [OF refl] cost_transfer.transfer_commands [OF refl] cost_reservation.reservation_commands [OF refl]
    cost_reservation.close_law [OF refl] cost_reconciliation.reconcile_law)

lemma execute_lots: "lot_inv db \<Longrightarrow> lot_inv (execute digest collate c db)"
  by (rule execute_keeps [where I = lot_inv]) (simp_all add: lot_stock.stock_commands [OF refl] lot_transfer.transfer_commands [OF refl] lot_reservation.reservation_commands [OF refl]
    lot_reservation.close_law [OF refl] lot_reconciliation.reconcile_law)

lemma execute_serials: "traced_inv db \<Longrightarrow> traced_inv (execute digest collate c db)"
  by (rule execute_keeps [where I = traced_inv]) (simp_all add: serial_stock.stock_commands [OF refl] serial_transfer.transfer_commands [OF refl] serial_reservation.reservation_commands [OF refl]
    serial_reservation.close_law [OF refl] serial_reconciliation.reconcile_law)

lemma execute_journal: "journal b db \<Longrightarrow> journal b (execute digest collate c db)"
  by (rule execute_keeps [where I = "journal b"]) (simp_all add: journal_stock.stock_commands [OF refl] journal_transfer.transfer_commands [OF refl] journal_reservation.reservation_commands [OF refl]
    journal_reservation.close_law [OF refl] journal_reconciliation.reconcile_law)

lemma execute_worth: "worth_inv t db \<Longrightarrow> worth_inv t (execute digest collate c db)"
  by (rule execute_keeps [where I = "worth_inv t"]) (simp_all add: worth_stock.stock_commands [OF refl] worth_transfer.transfer_commands [OF refl]
    worth_reservation.reservation_commands [OF refl] worth_reservation.close_law [OF refl] worth_reconciliation.reconcile_law)

lemma execute_transfers: "transfer_inv db \<Longrightarrow> transfer_inv (execute digest collate c db)"
  by (rule execute_keeps [where I = transfer_inv]) (simp_all add: transfers_stock.stock_commands [OF refl] createTransfer_keeps dispatchTransfer_keeps receiveTransfer_keeps
    cancelTransfer_keeps transfers_reservation.reservation_commands [OF refl] transfers_reservation.close_law [OF refl] transfers_reconciliation.reconcile_law)

lemma execute_system: "system_inv db \<Longrightarrow> system_inv (execute digest collate c db)"
  using execute_stock [of db digest collate c] execute_cost [of db digest collate c] execute_lots [of db digest collate c]
    execute_serials [of db digest collate c] execute_transfers [of db digest collate c]
  by (simp add: system_inv_def)

lemma opening_system: "opening_db db \<Longrightarrow> system_inv db"
  by (simp add: opening_db_def system_inv_def stock_inv_def stock_gap_def balanceOf_def movedAt_def movedOf_def valuationQuantity_def
      cost_inv_def valuation_inv_def fifo_inv_def lot_inv_def lotBalanceOf_def lotLedger_def traced_inv_def serial_inv_def event_clock_def
      transfer_inv_def reservation_inv_def)

lemma reachable_system: "reachable digest collate start db \<Longrightarrow> opening_db start \<Longrightarrow> system_inv db"
  by (induction rule: reachable.induct) (simp_all add: opening_system execute_system)

lemma reachable_worth: "reachable digest collate start db \<Longrightarrow> opening_db start \<Longrightarrow> worth_inv t db"
  by (induction rule: reachable.induct)
    (simp_all add: execute_worth, simp add: opening_db_def worth_inv_def valuedAmount_def valueMoved_def selectValuation_def)

section \<open>A concrete case\<close>

definition systemCommand :: command where
  "systemCommand = \<lparr>cm_tenant = 1, cm_warehouse = 2, cm_user = 9, cm_key = ''initial1''\<rparr>"

definition initialFive :: movement_dto where
  "initialFive = \<lparr>md_product = 7, md_location = 3, md_type = INITIAL, md_quantity = ''5'', md_reason = ''r'', md_reference = None,
     md_lot_code = None, md_manufactured = None, md_expires = None, md_serials = None\<rparr>"

definition afterInitial :: inv_db where
  "afterInitial = execute (\<lambda>_. ''f'') id (CreateMovement systemCommand initialFive) sampleDb"

lemma opening_sample: "opening_db sampleDb"
  by (simp add: opening_db_def sampleDb_def sampleProduct_def inj_def strict_mono_def)

lemma afterInitial_reachable: "reachable (\<lambda>_. ''f'') id sampleDb afterInitial"
  unfolding afterInitial_def by (rule reachable.step [OF reachable.start])

lemma afterInitial_stock: "map ba_quantity (balances afterInitial) = [5000] \<and> map mv_quantity (movements afterInitial) = [5000]"
  by code_simp

text \<open>Two units are lost.\<close>

definition lossOfTwo :: movement_dto where
  "lossOfTwo = initialFive\<lparr>md_type := LOSS, md_quantity := ''2'', md_reference := Some ''R''\<rparr>"

definition afterLoss :: inv_db where
  "afterLoss = execute (\<lambda>_. ''f'') id (CreateMovement (systemCommand\<lparr>cm_key := ''loss0001''\<rparr>) lossOfTwo) afterInitial"

lemma afterLoss_later: "reachable (\<lambda>_. ''f'') id afterInitial afterLoss"
  unfolding afterLoss_def by (rule reachable.step [OF reachable.start])

lemma afterLoss_reachable: "reachable (\<lambda>_. ''f'') id sampleDb afterLoss"
  unfolding afterLoss_def by (rule reachable.step [OF afterInitial_reachable])

lemma afterLoss_facts:
  "map mv_quantity (movements afterLoss) = [5000, - 2000] \<and> length (movements afterInitial) = 1 \<and> policyMethod 1 afterLoss = MOVING_AVERAGE"
  by code_simp

section \<open>Properties\<close>

text \<open>C1: In every state that any sequence of commands reaches from a database without stock, the ledgers
  agree: the quantity of a balance is the sum of its states, none of them negative, and the sum of its
  movements; the valuation of a product counts what its movements moved; a cost layer has left what its
  allocations left, between nothing and its original quantity; a lot has at a location what its
  allocations brought there; and replaying the events of a serial gives its status and place.\<close>

theorem reachable_ledgers_agree:
  assumes "reachable digest collate start db" "opening_db start"
  shows "(\<forall>b\<in>set (balances db). balance_check b \<and> balanceOf (balance_key b) db = ba_quantity b) \<and>
     (\<forall>k. balanceOf k db = movedAt k db) \<and> (\<forall>tp. valuationQuantity tp db = movedOf tp db) \<and>
     (\<forall>l\<in>set (layers db). layer_check l \<and> fl_remaining l = layerLedger l db) \<and>
     (\<forall>b\<in>set (lot_balances db). 0 \<le> lb_quantity b) \<and> (\<forall>k. lotBalanceOf k db = lotLedger k db) \<and>
     (\<forall>s\<in>set (serials db). replay None (history (sr_tenant s) (sr_id s) db) = Some (Some (place s)))"
proof (intro conjI)
  note inv = system_invD [OF reachable_system [OF assms]]
  note gap = inv(1) [unfolded stock_inv_def] and fifo = inv(2) [unfolded cost_inv_def, THEN conjunct2]
  show "\<forall>b\<in>set (balances db). balance_check b \<and> balanceOf (balance_key b) db = ba_quantity b"
    using stock_gapD(4) [OF gap] sum_where_key [OF stock_gapD(3) [OF gap]] by (simp add: balanceOf_def)
  show "\<forall>k. balanceOf k db = movedAt k db" "\<forall>tp. valuationQuantity tp db = movedOf tp db"
    using stock_gapD(6,7) [OF gap] by simp_all
  show "\<forall>l\<in>set (layers db). layer_check l \<and> fl_remaining l = layerLedger l db" using fifo_invD(7,8) [OF fifo] by blast
  show "\<forall>b\<in>set (lot_balances db). 0 \<le> lb_quantity b" "\<forall>k. lotBalanceOf k db = lotLedger k db" using lot_invD(2,4) [OF inv(3)] by blast+
  show "\<forall>s\<in>set (serials db). replay None (history (sr_tenant s) (sr_id s) db) = Some (Some (place s))"
    using serial_invD(6) inv(4) by (auto simp: traced_inv_def)
qed

theorem reachable_ledgers_agree_witness:
  "map ba_quantity (balances afterInitial) = [5000] \<and> balanceOf (1, 7, 3) afterInitial = movedAt (1, 7, 3) afterInitial"
  using afterInitial_stock reachable_ledgers_agree [OF afterInitial_reachable opening_sample] by blast

text \<open>C24: What the daily reconciliation cannot accuse the commands of: in every reachable state it reports
  no balance that differs from its movements or whose states do not add up, no valuation quantity that
  differs from the stock, no lot balance that differs from its allocations, and no serial that differs
  from its newest event; and, for a tenant that values by moving average, no valuation value that differs
  from the value changes of the movements. (For FIFO tenants that last finding is reported after an
  ordinary sale, see \<open>fifo_sale_blocks_tenant\<close>; the codes of the FIFO layers, of the sums of the lots and
  of the states and places of the serials are not covered.)\<close>

theorem reachable_not_reported:
  assumes "reachable digest collate start db" "opening_db start" "f \<in> set (findingsOf t meth db)"
  shows "fi_code f \<notin> {BALANCE_MOVEMENT_MISMATCH, BALANCE_STATE_MISMATCH, VALUATION_QUANTITY_MISMATCH, LOT_LEDGER_MISMATCH, SERIAL_HISTORY_MISMATCH} \<and>
    (policyMethod t db = MOVING_AVERAGE \<longrightarrow> fi_code f \<noteq> VALUATION_VALUE_MISMATCH)"
  using system_invD [OF reachable_system [OF assms(1,2)]] clean_findings [OF assms(3)] findingsOf_cases [OF assms(3)]
    reachable_worth [OF assms(1,2), of t]
  by (auto simp: traced_inv_def worth_inv_def)

theorem reachable_not_reported_witness:
  "policyMethod 1 afterLoss = MOVING_AVERAGE \<and> BALANCE_MOVEMENT_MISMATCH \<notin> fi_code ` set (findingsOf 1 MOVING_AVERAGE afterLoss) \<and>
   VALUATION_VALUE_MISMATCH \<notin> fi_code ` set (findingsOf 1 MOVING_AVERAGE afterLoss)"
proof -
  have meth: "policyMethod 1 afterLoss = MOVING_AVERAGE" using afterLoss_facts by blast
  have "fi_code f \<noteq> BALANCE_MOVEMENT_MISMATCH \<and> fi_code f \<noteq> VALUATION_VALUE_MISMATCH"
    if "f \<in> set (findingsOf 1 MOVING_AVERAGE afterLoss)" for f
    using reachable_not_reported [OF afterLoss_reachable opening_sample that] meth by blast
  then show ?thesis using meth by (metis imageE)
qed

text \<open>C25: Movements are never changed or deleted: whatever sequence of commands is executed, the movements
  that were stored stay as they are, in all their columns and in their order, and new ones follow them.\<close>

theorem movements_append_only:
  assumes "reachable digest collate start db"
  shows "\<exists>ms. movements db = movements start @ ms"
  using assms
proof (induction rule: reachable.induct)
  case (step db c)
  then show ?case
    using execute_journal [of "movements start" db digest collate c] by (simp add: journal_def)
qed simp

theorem movements_append_only_witness:
  "\<exists>r. movements afterLoss = movements afterInitial @ [r] \<and> mv_quantity r = - 2000 \<and> length (movements afterInitial) = 1"
proof -
  obtain ms where ms: "movements afterLoss = movements afterInitial @ ms" using movements_append_only [OF afterLoss_later] by blast
  have one: "length (movements afterInitial) = 1" and qs: "map mv_quantity (movements afterInitial @ ms) = [5000, - 2000]"
    using afterLoss_facts by (simp_all add: ms)
  obtain first where "movements afterInitial = [first]" using one by (auto simp: length_Suc_conv)
  then obtain r where "ms = [r]" "mv_quantity r = - 2000" using qs by auto
  with ms one show ?thesis by simp
qed

end
