(* ===== verification/TradeSchema.thy ===== *)
theory TradeSchema
  imports Schema
begin

text \<open>
  The tables of the selling side (price lists, promotions, kits, cash registers, sales and the
  loyalty programme), as the migrations create them, next to the inventory tables: \<open>trade_db\<close>
  extends \<open>inv_db\<close>, so products, branches, customers, balances and the environment (ids and
  clock) are the same rows. Amounts of money are integers of cents, quantities of thousandths,
  percentages of ten-thousandths of a percent point (\<open>DECIMAL(7,4)\<close>).

  \<open>sale_row\<close> holds the columns that the modelled queries read. Also here are the division of
  \<open>bigint\<close>s (a \<open>RangeError\<close> when the divisor is zero) and \<open>roundDivide\<close>, which the
  promotion engine, the catalogue of the point of sale and the cart have in common.
\<close>

section \<open>Enumerations\<close>

datatype price_channel = ChannelPos | ChannelWeb | ChannelMobile | ChannelDesktop

datatype promotion_type = BUY_X_GET_Y | SECOND_UNIT_PERCENT | BUNDLE_FIXED | QUANTITY_PERCENT

datatype kit_mode = DERIVED | ASSEMBLED

datatype kit_price_rule = FIXED_PRICE | COMPONENT_SUM

datatype cash_type = INCOME | WITHDRAWAL | REVERSAL

text \<open>The \<open>method\<close> column; \<open>CREDIT\<close> only occurs in stored payments.\<close>

datatype payment_method = CASH | CARD | TRANSFER | VOUCHER | CREDIT

datatype payment_status = PaymentCompleted | PaymentPending | PaymentReversed

datatype settlement_method = Refund payment_method | StoreCredit

datatype settlement_mode = REFUND | STORE_CREDIT

datatype settlement_status = SettlementPending | PartiallySettled | Settled

datatype sale_status = SaleCompleted | SaleVoided

datatype loyalty_type =
    EARN | REDEEM | EXPIRE | VOID_EARN_REVERSAL | VOID_REDEEM_RESTORE
  | RETURN_EARN_REVERSAL | RETURN_REDEEM_RESTORE

text \<open>The errors that the handlers throw. \<open>Code\<close> is \<open>new Error(code)\<close> and an HTTP exception
  with that code; then the error classes, and what the runtime and the database throw by
  themselves: division by zero, a property of \<open>undefined\<close>, an empty \<open>IN ()\<close>, a broken unique
  key, a broken \<open>CHECK\<close> and text that is no decimal number in a decimal column.\<close>

datatype trade_error =
    Code string
  | RangeErrorDivision
  | TypeErrorUndefined
  | SqlSyntaxError
  | SqlIncorrectValue
  | TradeDuplicateEntry
  | TradeCheckViolated
  | LoyaltyInsufficientBalanceError int int
  | LoyaltyRuleChangedError
  | CashRegisterShiftContextError
  | CashRegisterShiftConflictError
  | CashRegisterShiftIdempotencyConflictError
  | CashRegisterMovementNotFoundError
  | CashRegisterMovementAlreadyReversedError
  | CashRegisterMovementInsufficientBalanceError
  | CashRegisterMovementIdempotencyConflictError
  | CashRegisterClosureNotFoundError
  | CashRegisterAlreadyClosedError
  | CashRegisterClosureReasonRequiredError
  | CashRegisterClosureIdempotencyConflictError
  | PosContextNotFoundError
  | PosProductNotAvailableError nat
  | PosInsufficientStockError nat
  | PosReservationNotAvailableError
  | PosLotNotFoundError
  | CartQuantityRejected quantity_error
  | PosIdempotencyConflictError
  | SaleReturnSettlementAmountError
  | SaleReturnSettlementPaymentError
  | SaleReturnSettlementCustomerError
  | SaleReturnSettlementCashError
  | SaleReturnSettlementShiftError
  | PaymentMethodUnavailableError
  | PaymentDeclinedError

section \<open>Rows\<close>

record user_row =
  us_id :: id
  us_tenant :: id
  us_email :: string

record price_list_row =
  pl_id :: id
  pl_tenant :: id
  pl_name :: string
  pl_currency :: string
  pl_branch :: "id option"
  pl_customer :: "id option"
  pl_channel :: "price_channel option"
  pl_priority :: int
  pl_valid_from :: nat
  pl_valid_to :: "nat option"
  pl_active :: bool
  pl_version :: nat
  pl_created_at :: nat
  pl_updated_at :: nat

record price_item_row =
  pi_id :: id
  pi_tenant :: id
  pi_list :: id
  pi_product :: id
  pi_price :: int

record promotion_row =
  pm_id :: id
  pm_tenant :: id
  pm_name :: string
  pm_type :: promotion_type
  pm_branch :: "id option"
  pm_customer :: "id option"
  pm_channel :: "price_channel option"
  pm_priority :: int
  pm_stackable :: bool
  pm_valid_from :: nat
  pm_valid_to :: "nat option"
  pm_active :: bool
  pm_percent :: "int option"
  pm_fixed_price :: "int option"
  pm_buy :: "int option"
  pm_reward :: "int option"
  pm_version :: nat
  pm_created_at :: nat
  pm_updated_at :: nat

record promotion_product_row =
  pp_id :: id
  pp_tenant :: id
  pp_promotion :: id
  pp_product :: id
  pp_quantity :: int
  pp_position :: nat

record promotion_tier_row =
  pt_id :: id
  pt_tenant :: id
  pt_promotion :: id
  pt_minimum :: int
  pt_percent :: int

record kit_row =
  ki_product :: id
  ki_tenant :: id
  ki_mode :: kit_mode
  ki_price_rule :: kit_price_rule
  ki_from :: "string option"
  ki_to :: "string option"

record kit_component_row =
  kc_id :: id
  kc_tenant :: id
  kc_kit :: id
  kc_component :: id
  kc_quantity :: int
  kc_position :: nat

record cash_register_row =
  cr_id :: id
  cr_tenant :: id
  cr_branch :: id
  cr_name :: string
  cr_code :: string

record shift_row =
  sh_id :: id
  sh_tenant :: id
  sh_branch :: id
  sh_register :: id
  sh_user :: id
  sh_closed_by :: "id option"
  sh_opening :: int
  sh_counted :: "int option"
  sh_expected :: "int option"
  sh_difference :: "int option"
  sh_reason :: "string option"
  sh_denominations :: "(int \<times> nat) list"
  sh_currency :: string
  sh_open :: bool
  sh_key :: string
  sh_closing_key :: "string option"
  sh_fingerprint :: string
  sh_closing_fingerprint :: "string option"
  sh_opened_at :: nat
  sh_closed_at :: "nat option"

record cash_movement_row =
  cv_id :: id
  cv_tenant :: id
  cv_shift :: id
  cv_user :: id
  cv_type :: cash_type
  cv_amount :: int
  cv_reason :: string
  cv_reversal_of :: "id option"
  cv_key :: string
  cv_fingerprint :: string
  cv_created_at :: nat

record sale_row =
  sa_id :: id
  sa_tenant :: id
  sa_branch :: id
  sa_currency :: string
  sa_shift :: "id option"
  sa_customer :: "id option"
  sa_status :: sale_status
  sa_total :: int
  sa_points_redeemed :: int
  sa_points_earned :: int

record sale_payment_row =
  sp_id :: id
  sp_tenant :: id
  sp_sale :: id
  sp_method :: payment_method
  sp_status :: payment_status
  sp_currency :: string
  sp_external :: "string option"
  sp_reference :: "string option"
  sp_applied :: int

record sale_return_row =
  rt_id :: id
  rt_tenant :: id
  rt_sale :: id
  rt_total :: int
  rt_loyalty_restored :: int
  rt_settlement :: settlement_status

record settlement_row =
  sm_id :: id
  sm_tenant :: id
  sm_return :: id
  sm_payment :: "id option"
  sm_shift :: "id option"
  sm_mode :: settlement_mode
  sm_method :: settlement_method
  sm_completed :: bool
  sm_currency :: string
  sm_amount :: int
  sm_provider :: string
  sm_reference :: "string option"
  sm_failure :: "string option"
  sm_key :: string
  sm_fingerprint :: string
  sm_user :: id
  sm_created_at :: nat

record credit_row =
  ck_id :: id
  ck_tenant :: id
  ck_customer :: id
  ck_settlement :: id
  ck_currency :: string
  ck_amount :: int
  ck_user :: id
  ck_created_at :: nat

record loyalty_rule_row =
  lr_id :: id
  lr_tenant :: id
  lr_version :: nat
  lr_active :: bool
  lr_earn_amount :: int
  lr_earn_points :: int
  lr_redeem_points :: int
  lr_redeem_amount :: int
  lr_expiration_days :: "nat option"
  lr_user :: id
  lr_created_at :: nat

text \<open>\<open>rule_snapshot\<close> is the JSON text of the rule an entry was made under: the seven fields
  of \<open>snapshot\<close> in \<open>loyalty.repository.ts\<close>.\<close>

record loyalty_snapshot =
  ls_id :: id
  ls_version :: nat
  ls_earn_amount :: int
  ls_earn_points :: int
  ls_redeem_points :: int
  ls_redeem_amount :: int
  ls_expiration_days :: "nat option"

record loyalty_entry_row =
  le_id :: id
  le_tenant :: id
  le_customer :: id
  le_rule :: id
  le_sale :: "id option"
  le_return :: "id option"
  le_type :: loyalty_type
  le_points :: int
  le_value :: int
  le_key :: string
  le_snapshot :: loyalty_snapshot
  le_expires_at :: "nat option"
  le_user :: id
  le_created_at :: nat

record loyalty_allocation_row =
  la_id :: id
  la_tenant :: id
  la_debit :: id
  la_credit :: id
  la_points :: int

record trade_db = inv_db +
  users :: "user_row list"
  price_lists :: "price_list_row list"
  price_items :: "price_item_row list"
  promotions :: "promotion_row list"
  promotion_products :: "promotion_product_row list"
  promotion_tiers :: "promotion_tier_row list"
  kits :: "kit_row list"
  kit_components :: "kit_component_row list"
  cash_registers :: "cash_register_row list"
  shifts :: "shift_row list"
  cash_movements :: "cash_movement_row list"
  sales :: "sale_row list"
  sale_payments :: "sale_payment_row list"
  sale_returns :: "sale_return_row list"
  settlements :: "settlement_row list"
  customer_credits :: "credit_row list"
  loyalty_rules :: "loyalty_rule_row list"
  loyalty_entries :: "loyalty_entry_row list"
  loyalty_allocations :: "loyalty_allocation_row list"

type_synonym 'a tact = "(trade_db, trade_error, 'a) action"

section \<open>Shared operations\<close>

text \<open>A fresh row, as in the inventory: the next id and the time of its creation.\<close>

definition newTradeRow :: "(id \<times> nat) tact" where
  "newTradeRow = (\<lambda>db. Inr ((env_uuid db (ticks db), env_clock db (ticks db)), db\<lparr>ticks := Suc (ticks db)\<rparr>))"

text \<open>\<open>CURRENT_TIMESTAMP(6)\<close> in a query, and \<open>new Date()\<close>\<close>

definition currentTime :: "nat tact" where
  "currentTime = readM (\<lambda>db. env_clock db (ticks db))"

text \<open>\<open>a / b\<close> of two \<open>bigint\<close>s.\<close>

definition divB :: "int \<Rightarrow> int \<Rightarrow> trade_error + int" where
  "divB a b = (if b = 0 then Inl RangeErrorDivision else Inr (bigint_div a b))"

definition roundDivide :: "int \<Rightarrow> int \<Rightarrow> int" where
  "roundDivide numerator denominator = bigint_div (numerator + bigint_div denominator 2) denominator"

definition roundDivideE :: "int \<Rightarrow> int \<Rightarrow> trade_error + int" where
  "roundDivideE numerator denominator =
     (if denominator = 0 then Inl RangeErrorDivision else Inr (roundDivide numerator denominator))"

text \<open>A value the code reads a property of: \<open>undefined\<close> and \<open>null\<close> throw.\<close>

definition presentE :: "'a option \<Rightarrow> trade_error + 'a" where
  "presentE m = (case m of None \<Rightarrow> Inl TypeErrorUndefined | Some x \<Rightarrow> Inr x)"

definition posCurrencyFor :: "string \<Rightarrow> string" where
  "posCurrencyFor country = (if country = ''MX'' then ''MXN'' else if country = ''CL'' then ''CLP'' else ''USD'')"

text \<open>The test of the queries on a scope column: \<open>column IS NULL OR column = ?\<close>. A missing
  customer is the empty string, which no id equals.\<close>

definition in_scope :: "'a option \<Rightarrow> 'a option \<Rightarrow> bool" where
  "in_scope column wanted \<longleftrightarrow> column = None \<or> column = wanted"

text \<open>\<open>(branch_id IS NOT NULL) + (customer_id IS NOT NULL) + (channel IS NOT NULL)\<close>\<close>

definition specificity :: "'a option \<Rightarrow> 'b option \<Rightarrow> 'c option \<Rightarrow> nat" where
  "specificity branch customer channel =
     (if branch = None then 0 else 1) + (if customer = None then 0 else 1) + (if channel = None then 0 else 1)"

text \<open>\<open>SELECT COUNT(*) FROM products WHERE ... AND id IN (...)\<close>, the same in the price lists.\<close>

definition availableProducts :: "id \<Rightarrow> id list \<Rightarrow> 'z inv_db_scheme \<Rightarrow> nat" where
  "availableProducts t ps db =
     length (filter (\<lambda>r. pr_tenant r = t \<and> pr_active r \<and> \<not> pr_has_variants r \<and> pr_id r \<in> set ps) (products db))"

definition branchAvailable :: "id \<Rightarrow> id option \<Rightarrow> 'z inv_db_scheme \<Rightarrow> bool" where
  "branchAvailable t b db \<longleftrightarrow>
     (case b of None \<Rightarrow> True | Some i \<Rightarrow> \<exists>r\<in>set (branches db). br_tenant r = t \<and> br_id r = i \<and> br_active r)"

definition customerAvailable :: "id \<Rightarrow> id option \<Rightarrow> 'z inv_db_scheme \<Rightarrow> bool" where
  "customerAvailable t c db \<longleftrightarrow>
     (case c of None \<Rightarrow> True | Some i \<Rightarrow> \<exists>r\<in>set (customers db). cu_tenant r = t \<and> cu_id r = i \<and> cu_active r)"

section \<open>Facts\<close>

lemma presentE_simps [simp]: "presentE (Some x) = Inr x" "presentE None = Inl TypeErrorUndefined"
  by (simp_all add: presentE_def)

lemma presentE_Inr [simp]: "presentE m = Inr x \<longleftrightarrow> m = Some x"
  by (simp add: presentE_def split: option.splits)

lemma newTradeRow_Inr [simp]:
  "newTradeRow db = Inr (r, db') \<longleftrightarrow>
     r = (env_uuid db (ticks db), env_clock db (ticks db)) \<and> db' = db\<lparr>ticks := Suc (ticks db)\<rparr>"
  by (auto simp: newTradeRow_def)

lemma newTradeRow_not_Inl [simp]: "newTradeRow db \<noteq> Inl e"
  by (simp add: newTradeRow_def)

lemma currentTime_Inr [simp]: "currentTime db = Inr (r, db') \<longleftrightarrow> r = env_clock db (ticks db) \<and> db' = db"
  by (auto simp: currentTime_def)

lemma currentTime_not_Inl [simp]: "currentTime db \<noteq> Inl e"
  by (simp add: currentTime_def)

lemma divB_pos: "0 \<le> a \<Longrightarrow> 0 < b \<Longrightarrow> divB a b = Inr (a div b)"
  by (simp add: divB_def bigint_nonneg)

lemma roundDivide_nonneg_eq: "0 \<le> a \<Longrightarrow> 0 < b \<Longrightarrow> roundDivide a b = (a + b div 2) div b"
  by (simp add: roundDivide_def bigint_nonneg)

text \<open>Rounding to the nearest: the result is within half a unit, never negative, monotone, and at
  most any bound that the exact quotient respects.\<close>

lemma roundDivide_nonneg: "0 \<le> a \<Longrightarrow> 0 < b \<Longrightarrow> 0 \<le> roundDivide a b"
  by (simp add: roundDivide_nonneg_eq pos_imp_zdiv_nonneg_iff)

lemma roundDivide_mono: "0 \<le> a \<Longrightarrow> a \<le> a' \<Longrightarrow> 0 < b \<Longrightarrow> roundDivide a b \<le> roundDivide a' b"
  by (simp add: roundDivide_nonneg_eq zdiv_mono1)

lemma roundDivide_bound:
  assumes "0 \<le> a" "0 < b" "a \<le> k * b"
  shows "roundDivide a b \<le> k"
proof -
  have "(a + b div 2) div b \<le> (k * b + b div 2) div b"
    using assms by (intro zdiv_mono1) simp_all
  also have "\<dots> = k + (b div 2) div b"
    using assms(2) by simp
  also have "(b div 2) div b = 0"
    using assms(2) by (intro div_pos_pos_trivial) auto
  finally show ?thesis using assms by (simp add: roundDivide_nonneg_eq)
qed

lemma roundDivide_error:
  assumes "0 \<le> a" "0 < b"
  shows "2 * \<bar>roundDivide a b * b - a\<bar> \<le> b"
proof -
  define h r where "h = b div 2" and "r = (a + h) mod b"
  have split: "(a + h) div b * b = a + h - r"
    by (simp add: r_def minus_mod_eq_div_mult [symmetric])
  have "0 \<le> r" "r < b" "2 * h \<le> b" "b \<le> 2 * h + 1"
    using assms(2) by (simp_all add: h_def r_def)
  then have "2 * \<bar>(a + h) div b * b - a\<bar> \<le> b"
    unfolding split by (simp add: abs_if)
  then show ?thesis using assms by (simp add: roundDivide_nonneg_eq h_def)
qed

lemma roundDivide_exact: "0 \<le> k \<Longrightarrow> 0 < b \<Longrightarrow> roundDivide (k * b) b = k"
  by (simp add: roundDivide_nonneg_eq div_pos_pos_trivial)

end
