(* ===== verification/PromotionEngine.thy ===== *)
theory PromotionEngine
  imports TradeSchema Codecs "HOL-Library.AList"
begin

text \<open>
  \<open>promotions/promotion-engine.service.ts\<close>: which promotions apply to the lines of a cart and
  how much each line gets. \<open>resolveRules\<close> is the loop of \<open>resolve\<close> over the rules that the
  repository found (theory \<open>Promotions\<close>), in their order; the \<open>Map\<close>s are association lists in
  insertion order. Quantities, prices and percentages are the integers that the engine's own
  \<open>quantity\<close>, \<open>moneyUnits\<close> and \<open>percent\<close> compute. A null field of a rule and a missing line
  throw as they do at run time.
\<close>

section \<open>Data\<close>

record item_ref =
  it_id :: id
  it_name :: string
  it_sku :: string

text \<open>\<open>PromotionData\<close>\<close>

record promotion_data =
  pd_id :: id
  pd_name :: string
  pd_type :: promotion_type
  pd_branch :: "(id \<times> string option) option"
  pd_customer :: "(id \<times> string option) option"
  pd_channel :: "price_channel option"
  pd_priority :: int
  pd_stackable :: bool
  pd_valid_from :: nat
  pd_valid_to :: "nat option"
  pd_active :: bool
  pd_percent :: "int option"
  pd_fixed_price :: "int option"
  pd_buy :: "int option"
  pd_reward :: "int option"
  pd_version :: nat
  pd_products :: "(item_ref \<times> int) list"
  pd_tiers :: "(int \<times> int) list"
  pd_created_at :: nat
  pd_updated_at :: nat

record promotion_line =
  ln_product :: id
  ln_quantity :: int
  ln_unit_price :: int
  ln_gross :: int

record promotion_snapshot =
  ss_type :: promotion_type
  ss_priority :: int
  ss_stackable :: bool
  ss_percent :: "int option"
  ss_fixed_price :: "int option"
  ss_buy :: "int option"
  ss_reward :: "int option"
  ss_products :: "(id \<times> int) list"
  ss_tiers :: "(int \<times> int) list"

record allocation =
  al_product :: id
  al_amount :: int
  al_explanation :: string

record applied_promotion =
  ap_id :: id
  ap_name :: string
  ap_type :: promotion_type
  ap_priority :: int
  ap_amount :: int
  ap_explanation :: string
  ap_snapshot :: promotion_snapshot

section \<open>Texts\<close>

text \<open>\<open>qty\<close>, and the texts of the columns \<open>discount_percent\<close> and \<open>fixed_price\<close>.\<close>

definition promotionQty :: "int \<Rightarrow> string" where
  "promotionQty v = bigint_text (bigint_div v 1000) @ ''.'' @ padStart0 3 (bigint_text (bigint_mod v 1000))"

definition percentText :: "int \<Rightarrow> string" where
  "percentText v = fromScaled v 4"

definition moneyText :: "int \<Rightarrow> string" where
  "moneyText v = fromScaled v 2"

section \<open>Allocations\<close>

definition percentDenominator :: int where
  "percentDenominator = 1000 * 1000000"

text \<open>The first half of \<open>singleAllocation\<close>: the quantity that the rule discounts, by how much and
  why; \<open>None\<close> is an early \<open>return []\<close>.\<close>

definition eligible :: "promotion_data \<Rightarrow> int \<Rightarrow> trade_error + (int \<times> int \<times> string) option" where
  "eligible rule quantity =
     (case pd_type rule of
        BUY_X_GET_Y \<Rightarrow>
          bindE (presentE (pd_buy rule)) (\<lambda>buy.
          bindE (presentE (pd_reward rule)) (\<lambda>reward.
          bindE (divB quantity (buy + reward)) (\<lambda>cycles.
          if cycles = 0 then Inr None
          else bindE (presentE (pd_percent rule)) (\<lambda>percent.
            Inr (Some (cycles * reward, percent,
              pd_name rule @ '': '' @ promotionQty reward @ '' sin costo parcial por cada '' @ promotionQty buy @ '' comprada(s).''))))))
      | SECOND_UNIT_PERCENT \<Rightarrow>
          bindE (presentE (if pd_products rule = [] then None else Some (snd (hd (pd_products rule))))) (\<lambda>unit.
          bindE (divB quantity (unit * 2)) (\<lambda>cycles.
          if cycles = 0 then Inr None
          else bindE (presentE (pd_percent rule)) (\<lambda>percent.
            Inr (Some (cycles * unit, percent, pd_name rule @ '': '' @ percentText percent @ ''% en la segunda unidad.'')))))
      | QUANTITY_PERCENT \<Rightarrow>
          (case List.find (\<lambda>tier. fst tier \<le> quantity) (rev (pd_tiers rule)) of
             None \<Rightarrow> Inr None
           | Some (minimum, percent) \<Rightarrow>
               Inr (Some (quantity, percent,
                 pd_name rule @ '': '' @ percentText percent @ ''% desde '' @ promotionQty minimum @ '' unidad(es).'')))
      | BUNDLE_FIXED \<Rightarrow> Inr None)"

definition singleAllocation :: "promotion_data \<Rightarrow> promotion_line \<Rightarrow> trade_error + allocation list" where
  "singleAllocation rule line =
     bindE (eligible rule (ln_quantity line)) (\<lambda>m.
     case m of None \<Rightarrow> Inr []
     | Some (eligibleQuantity, percent, explanation) \<Rightarrow>
         let amount = roundDivide (ln_unit_price line * eligibleQuantity * percent) percentDenominator
         in Inr (if 0 < amount
                 then [\<lparr>al_product = ln_product line, al_amount = amount, al_explanation = explanation\<rparr>] else []))"

text \<open>\<open>new Map(input.lines.map(...))\<close>: the last line of a product counts.\<close>

definition lineOf :: "promotion_line list \<Rightarrow> id \<Rightarrow> promotion_line option" where
  "lineOf lines p = List.find (\<lambda>l. ln_product l = p) (rev lines)"

text \<open>The \<open>reduce\<close> of \<open>bundleAllocations\<close>: how many bundles the lines contain.\<close>

fun bundleCount :: "promotion_line list \<Rightarrow> int option \<Rightarrow> (item_ref \<times> int) list \<Rightarrow> trade_error + int option" where
  "bundleCount lines current [] = Inr current"
| "bundleCount lines current ((item, quantity) # rest) =
     bindE (presentE (lineOf lines (it_id item))) (\<lambda>line.
     bindE (divB (ln_quantity line) quantity) (\<lambda>supported.
     bundleCount lines
       (case current of None \<Rightarrow> Some supported | Some c \<Rightarrow> if supported < c then Some supported else current) rest))"

definition contribution :: "promotion_line list \<Rightarrow> int \<Rightarrow> (item_ref \<times> int) \<Rightarrow> trade_error + (id \<times> int)" where
  "contribution lines bundles item =
     bindE (presentE (lineOf lines (it_id (fst item)))) (\<lambda>line.
       Inr (it_id (fst item), roundDivide (ln_unit_price line * snd item * bundles) 1000))"

text \<open>The last \<open>map\<close>, with \<open>assigned\<close> as its accumulator: every contribution gets its rounded
  share of the discount, the last one what is left.\<close>

fun shareDiscount :: "int \<Rightarrow> int \<Rightarrow> int \<Rightarrow> (id \<times> int) list \<Rightarrow> trade_error + (id \<times> int) list" where
  "shareDiscount discount regular assigned [] = Inr []"
| "shareDiscount discount regular assigned [item] = Inr [(fst item, discount - assigned)]"
| "shareDiscount discount regular assigned (item # next # rest) =
     bindE (roundDivideE (discount * snd item) regular) (\<lambda>amount.
     bindE (shareDiscount discount regular (assigned + amount) (next # rest)) (\<lambda>shares.
     Inr ((fst item, amount) # shares)))"

definition bundleAllocations :: "promotion_data \<Rightarrow> promotion_line list \<Rightarrow> trade_error + allocation list" where
  "bundleAllocations rule lines =
     bindE (bundleCount lines None (pd_products rule)) (\<lambda>count.
     case count of None \<Rightarrow> Inr []
     | Some bundles \<Rightarrow>
         if bundles = 0 then Inr []
         else bindE (mapE (contribution lines bundles) (pd_products rule)) (\<lambda>contributions.
           bindE (presentE (pd_fixed_price rule)) (\<lambda>fixedPrice.
           let regular = sum_list (map snd contributions);
               promotional = fixedPrice * bundles;
               discount = regular - promotional
           in if discount \<le> 0 then Inr []
              else bindE (shareDiscount discount regular 0 contributions) (\<lambda>shares.
                Inr (map (\<lambda>(p, amount). \<lparr>al_product = p, al_amount = amount,
                       al_explanation = pd_name rule @ '': '' @ bigint_text bundles @ '' combo(s) a '' @ moneyText fixedPrice @ ''.''\<rparr>)
                     shares)))))"

section \<open>resolve\<close>

definition ruleSnapshot :: "promotion_data \<Rightarrow> promotion_snapshot" where
  "ruleSnapshot rule =
     \<lparr>ss_type = pd_type rule, ss_priority = pd_priority rule, ss_stackable = pd_stackable rule,
      ss_percent = pd_percent rule, ss_fixed_price = pd_fixed_price rule, ss_buy = pd_buy rule,
      ss_reward = pd_reward rule, ss_products = map (\<lambda>(item, q). (it_id item, q)) (pd_products rule),
      ss_tiers = pd_tiers rule\<rparr>"

definition appliedOf :: "promotion_data \<Rightarrow> allocation \<Rightarrow> applied_promotion" where
  "appliedOf rule a =
     \<lparr>ap_id = pd_id rule, ap_name = pd_name rule, ap_type = pd_type rule, ap_priority = pd_priority rule,
      ap_amount = al_amount a, ap_explanation = al_explanation a, ap_snapshot = ruleSnapshot rule\<rparr>"

type_synonym applied_map = "(id \<times> applied_promotion list) list"

definition appliedTo :: "applied_map \<Rightarrow> id \<Rightarrow> applied_promotion list" where
  "appliedTo applied p = (case map_of applied p of None \<Rightarrow> [] | Some ps \<Rightarrow> ps)"

definition applyAllocations :: "promotion_data \<Rightarrow> allocation list \<Rightarrow> applied_map \<Rightarrow> applied_map" where
  "applyAllocations rule allocations applied =
     fold (\<lambda>a m. AList.update (al_product a) (appliedTo m (al_product a) @ [appliedOf rule a]) m) allocations applied"

definition ruleProducts :: "promotion_data \<Rightarrow> id list" where
  "ruleProducts rule = map (\<lambda>(item, _). it_id item) (pd_products rule)"

definition allocationsOf :: "promotion_line list \<Rightarrow> promotion_data \<Rightarrow> trade_error + allocation list" where
  "allocationsOf lines rule =
     (if pd_type rule = BUNDLE_FIXED then bundleAllocations rule lines
      else bindE (presentE (case ruleProducts rule of [] \<Rightarrow> None | p # _ \<Rightarrow> lineOf lines p)) (singleAllocation rule))"

text \<open>\<open>exclusive\<close> and \<open>used\<close> are the two \<open>Set\<close>s; a \<open>continue\<close> goes on with the same state.\<close>

fun resolveRules ::
  "promotion_line list \<Rightarrow> promotion_data list \<Rightarrow> id list \<Rightarrow> id list \<Rightarrow> applied_map \<Rightarrow> trade_error + applied_map" where
  "resolveRules lines [] exclusive used applied = Inr applied"
| "resolveRules lines (rule # rules) exclusive used applied =
     (if (\<exists>p\<in>set (ruleProducts rule). lineOf lines p = None)
         \<or> (\<exists>p\<in>set (ruleProducts rule). p \<in> set exclusive)
         \<or> (\<not> pd_stackable rule \<and> (\<exists>p\<in>set (ruleProducts rule). p \<in> set used))
      then resolveRules lines rules exclusive used applied
      else bindE (allocationsOf lines rule) (\<lambda>allocations.
        if allocations = [] then resolveRules lines rules exclusive used applied
        else resolveRules lines rules
          (if pd_stackable rule then exclusive else ruleProducts rule @ exclusive)
          (ruleProducts rule @ used) (applyAllocations rule allocations applied)))"

end
