(* ===== verification/PromotionLaws.thy ===== *)
theory PromotionLaws
  imports PromotionEngine "HOL-Library.Sublist"
begin

text \<open>
  Facts on the promotion engine: well-formed rules (what the repository stores, theory
  \<open>Promotions\<close>) never make it throw, what a rule of one product and a bundle give, and the
  invariant of the loop over the rules.
\<close>

section \<open>Well-formed rules and lines\<close>

definition percent_ok :: "int \<Rightarrow> bool" where
  "percent_ok p \<longleftrightarrow> 0 < p \<and> p \<le> 1000000"

definition products_ok :: "promotion_type \<Rightarrow> (item_ref \<times> int) list \<Rightarrow> bool" where
  "products_ok kind items \<longleftrightarrow>
     (if kind = BUNDLE_FIXED then 2 \<le> length items else length items = 1) \<and>
     distinct (map (\<lambda>(item, _). it_id item) items) \<and> (\<forall>(item, q)\<in>set items. 0 < q)"

definition terms_ok :: "promotion_data \<Rightarrow> bool" where
  "terms_ok rule \<longleftrightarrow>
     (case pd_type rule of
        BUY_X_GET_Y \<Rightarrow>
          (\<exists>buy reward percent. pd_buy rule = Some buy \<and> pd_reward rule = Some reward \<and> pd_percent rule = Some percent \<and>
             0 < reward \<and> reward \<le> buy \<and> percent_ok percent)
      | SECOND_UNIT_PERCENT \<Rightarrow> (\<exists>percent. pd_percent rule = Some percent \<and> percent_ok percent)
      | BUNDLE_FIXED \<Rightarrow> (\<exists>price. pd_fixed_price rule = Some price \<and> 0 < price)
      | QUANTITY_PERCENT \<Rightarrow>
          (\<forall>(minimum, percent)\<in>set (pd_tiers rule). 0 < minimum \<and> 0 < percent \<and> percent \<le> 500000))"

definition rule_ok :: "promotion_data \<Rightarrow> bool" where
  "rule_ok rule \<longleftrightarrow> products_ok (pd_type rule) (pd_products rule) \<and> terms_ok rule"

definition lines_ok :: "promotion_line list \<Rightarrow> bool" where
  "lines_ok lines \<longleftrightarrow> (\<forall>l\<in>set lines. 0 \<le> ln_quantity l \<and> 0 \<le> ln_unit_price l)"

lemma lineOf_Some: "lineOf lines p = Some l \<Longrightarrow> l \<in> set lines \<and> ln_product l = p"
  unfolding lineOf_def by (drule find_Some_props) simp

section \<open>Rules of one product\<close>

text \<open>At most half of the quantity is free, or all of it is half price: either way the product of
  quantity and percentage is at most half of the line.\<close>

lemma half_quantity:
  fixes buy reward quantity :: int
  assumes "0 < reward" "reward \<le> buy" "0 \<le> quantity"
  shows "2 * (quantity div (buy + reward) * reward) \<le> quantity"
proof -
  let ?c = "quantity div (buy + reward)"
  have c: "0 \<le> ?c" using assms by (simp add: pos_imp_zdiv_nonneg_iff)
  have "2 * (?c * reward) \<le> ?c * (buy + reward)"
    using mult_left_mono [OF assms(2) c] by (simp add: algebra_simps)
  also have "\<dots> \<le> quantity"
    using assms by (simp add: minus_mod_eq_div_mult [symmetric])
  finally show ?thesis .
qed

lemma eligible_half:
  assumes "rule_ok rule" "0 \<le> quantity" "eligible rule quantity = Inr (Some (n, percent, why))"
  shows "0 \<le> n" "0 < percent" "2 * (n * percent) \<le> quantity * 1000000"
proof -
  have *: "2 * (k * p) \<le> quantity * 1000000" if "0 \<le> k" "2 * k \<le> quantity" "percent_ok p" for k p
  proof -
    have "2 * (k * p) \<le> 2 * (k * 1000000)"
      using that mult_left_mono [of p 1000000 k] by (simp add: percent_ok_def)
    also have "\<dots> \<le> quantity * 1000000" using that(2) by simp
    finally show ?thesis .
  qed
  have "0 \<le> n \<and> 0 < percent \<and> 2 * (n * percent) \<le> quantity * 1000000"
  proof (cases "pd_type rule")
    case BUY_X_GET_Y
    then obtain buy reward where r: "0 < reward" "reward \<le> buy" "percent_ok percent" "n = quantity div (buy + reward) * reward"
      using assms by (auto simp: rule_ok_def terms_ok_def eligible_def bindE_Inr divB_pos split: if_splits)
    then have "0 \<le> n" using assms(2) by (simp add: pos_imp_zdiv_nonneg_iff)
    moreover have "2 * n \<le> quantity" using r(4) half_quantity [OF r(1,2) assms(2)] by simp
    ultimately show ?thesis using * [of n percent] r(3) by (simp add: percent_ok_def)
  next
    case SECOND_UNIT_PERCENT
    then obtain u where u: "0 < u" "percent_ok percent" "n = quantity div (u * 2) * u"
      using assms by (cases "pd_products rule") (auto simp: rule_ok_def products_ok_def terms_ok_def eligible_def bindE_Inr divB_pos split: if_splits)
    then have "0 \<le> n" using assms(2) by (simp add: pos_imp_zdiv_nonneg_iff)
    moreover have "2 * n \<le> quantity"
      using u(3) half_quantity [OF u(1) order_refl assms(2)] by (simp add: mult_2 [symmetric] mult.commute)
    ultimately show ?thesis using * [of n percent] u(2) by (simp add: percent_ok_def)
  next
    case BUNDLE_FIXED
    then show ?thesis using assms(3) by (simp add: eligible_def)
  next
    case QUANTITY_PERCENT
    then obtain minimum where "(minimum, percent) \<in> set (pd_tiers rule)" "n = quantity"
      using assms(3) find_Some_props by (fastforce simp: eligible_def split: option.splits)
    then have "0 < percent" "percent \<le> 500000" "n = quantity"
      using assms(1) QUANTITY_PERCENT by (auto simp: rule_ok_def terms_ok_def)
    then show ?thesis
      using assms(2) mult_left_mono [of percent 500000 quantity] by (simp add: mult.commute)
  qed
  then show "0 \<le> n" "0 < percent" "2 * (n * percent) \<le> quantity * 1000000" by simp_all
qed

lemma eligible_returns:
  assumes "rule_ok rule" "0 \<le> quantity"
  shows "\<exists>m. eligible rule quantity = Inr m"
  using assms
  by (cases "pd_type rule"; cases "pd_products rule")
    (auto simp: rule_ok_def products_ok_def terms_ok_def eligible_def bindE_def divB_pos split: option.splits prod.splits)

text \<open>The amount of a rule of one product is positive and at most half of the line, rounded.\<close>

lemma singleAllocation_amount:
  assumes "rule_ok rule" "0 \<le> ln_quantity line" "0 \<le> ln_unit_price line"
    and "singleAllocation rule line = Inr as" "a \<in> set as"
  shows "al_product a = ln_product line" "0 < al_amount a"
    "al_amount a \<le> roundDivide (ln_unit_price line * ln_quantity line) 2000" "as = [a]"
proof -
  obtain n percent why where e: "eligible rule (ln_quantity line) = Inr (Some (n, percent, why))"
    and a: "as = [a]" "al_product a = ln_product line" "0 < al_amount a"
      "al_amount a = roundDivide (ln_unit_price line * n * percent) percentDenominator"
  proof -
    obtain m where m: "eligible rule (ln_quantity line) = Inr m"
      using assms(4) by (auto simp: singleAllocation_def bindE_Inr)
    then obtain x where "m = Some x" using assms(4,5) by (cases m) (auto simp: singleAllocation_def bindE_def)
    then show thesis using that m assms(4,5)
      by (cases x) (auto simp: singleAllocation_def bindE_def Let_def split: if_splits)
  qed
  note half = eligible_half [OF assms(1,2) e]
  let ?p = "ln_unit_price line" and ?q = "ln_quantity line"
  have nonneg: "0 \<le> ?p * n * percent" using assms(3) half by simp
  have "?p * (2 * (n * percent)) \<le> ?p * (?q * 1000000)"
    using mult_left_mono [OF half(3) assms(3)] .
  then have le: "?p * n * percent \<le> ?p * ?q * 500000" by (simp add: algebra_simps)
  have "roundDivide (?p * n * percent) percentDenominator \<le> roundDivide (?p * ?q * 500000) percentDenominator"
    by (rule roundDivide_mono [OF nonneg le]) (simp add: percentDenominator_def)
  also have "\<dots> = roundDivide (?p * ?q) 2000"
  proof -
    have "0 \<le> ?p * ?q" using assms by simp
    then have "roundDivide (?p * ?q * 500000) percentDenominator = (?p * ?q * 500000 + 1000 * 500000) div (2000 * 500000)"
      by (simp add: roundDivide_nonneg_eq percentDenominator_def)
    also have "\<dots> = ((?p * ?q + 1000) * 500000) div (2000 * 500000)" by (simp add: algebra_simps)
    also have "\<dots> = (?p * ?q + 1000) div 2000" by (rule div_mult_mult2) simp
    finally show ?thesis using \<open>0 \<le> ?p * ?q\<close> by (simp add: roundDivide_nonneg_eq)
  qed
  finally show "al_product a = ln_product line" "0 < al_amount a"
    "al_amount a \<le> roundDivide (ln_unit_price line * ln_quantity line) 2000" "as = [a]"
    using a by simp_all
qed

section \<open>Bundles\<close>

definition contains_bundles :: "promotion_line list \<Rightarrow> (item_ref \<times> int) list \<Rightarrow> int \<Rightarrow> bool" where
  "contains_bundles lines items k \<longleftrightarrow>
     (\<forall>(item, q)\<in>set items. \<forall>l. lineOf lines (it_id item) = Some l \<longrightarrow> k * q \<le> ln_quantity l)"

definition all_present :: "promotion_line list \<Rightarrow> (item_ref \<times> int) list \<Rightarrow> bool" where
  "all_present lines items \<longleftrightarrow> (\<forall>(item, q)\<in>set items. lineOf lines (it_id item) \<noteq> None)"

lemma le_div_iff: "0 < q \<Longrightarrow> k \<le> a div q \<longleftrightarrow> k * q \<le> (a::int)"
proof
  assume "0 < q" "k \<le> a div q"
  then have "k * q \<le> a div q * q" by (simp add: mult_right_mono)
  also have "\<dots> \<le> a" using \<open>0 < q\<close> by (simp add: minus_mod_eq_div_mult [symmetric])
  finally show "k * q \<le> a" .
next
  assume q: "0 < q" and "k * q \<le> a"
  then have "k * q div q \<le> a div q" using q zdiv_mono1 by blast
  then show "k \<le> a div q" using q by simp
qed

text \<open>The number of bundles is the greatest that the lines contain.\<close>

lemma bundleCount_greatest:
  assumes "lines_ok lines" "all_present lines items" "\<forall>(item, q)\<in>set items. 0 < q"
  shows "\<exists>count. bundleCount lines current items = Inr count \<and>
    (count = None \<longleftrightarrow> current = None \<and> items = []) \<and>
    (\<forall>b k. count = Some b \<longrightarrow>
       (k \<le> b \<longleftrightarrow> (\<forall>c. current = Some c \<longrightarrow> k \<le> c) \<and> contains_bundles lines items k))"
  using assms
proof (induction items arbitrary: current)
  case Nil
  then show ?case by (auto simp: contains_bundles_def)
next
  case (Cons x rest)
  obtain item q where x: "x = (item, q)" by (cases x)
  obtain l where l: "lineOf lines (it_id item) = Some l"
    using Cons.prems(2) by (auto simp: all_present_def x)
  have q: "0 < q" and nonneg: "0 \<le> ln_quantity l"
    using Cons.prems(1,3) lineOf_Some [OF l] by (auto simp: x lines_ok_def)
  define new where "new = (case current of None \<Rightarrow> ln_quantity l div q
     | Some c \<Rightarrow> if ln_quantity l div q < c then ln_quantity l div q else c)"
  have new: "k \<le> new \<longleftrightarrow> (\<forall>c. current = Some c \<longrightarrow> k \<le> c) \<and> k * q \<le> ln_quantity l" for k
    using le_div_iff [OF q, of k "ln_quantity l"] by (auto simp: new_def split: option.splits)
  have step: "bundleCount lines current (x # rest) = bundleCount lines (Some new) rest"
    by (auto simp: x l bindE_def divB_pos q nonneg new_def split: option.splits)
  have "lines_ok lines" "all_present lines rest" "\<forall>(item, q)\<in>set rest. 0 < q"
    using Cons.prems by (auto simp: all_present_def)
  from Cons.IH [OF this, of "Some new"] obtain count where c:
    "bundleCount lines (Some new) rest = Inr count" "count \<noteq> None"
    "\<And>b k. count = Some b \<Longrightarrow> (k \<le> b \<longleftrightarrow> k \<le> new \<and> contains_bundles lines rest k)" by auto
  show ?case
    unfolding step c(1) using c(2,3) new l
    by (intro exI [of _ count]) (auto simp: x contains_bundles_def)
qed

lemma contribution_value:
  "contribution lines b (item, q) = Inr y \<longleftrightarrow>
     (\<exists>l. lineOf lines (it_id item) = Some l \<and> y = (it_id item, roundDivide (ln_unit_price l * q * b) 1000))"
  by (auto simp: contribution_def bindE_Inr)

lemma mapE_Inr_Cons: "mapE f (x # xs) = Inr zs \<longleftrightarrow> (\<exists>y ys. f x = Inr y \<and> mapE f xs = Inr ys \<and> zs = y # ys)"
  by (auto simp: bindE_Inr)

lemma mapE_total: "(\<And>x. x \<in> set xs \<Longrightarrow> \<exists>y. f x = Inr y) \<Longrightarrow> \<exists>ys. mapE f xs = Inr ys"
proof (induction xs)
  case (Cons x xs)
  then obtain y ys where "f x = Inr y" "mapE f xs = Inr ys" by (meson list.set_intros)
  then show ?case by (simp add: bindE_def)
qed simp

text \<open>The regular price of the products in \<open>b\<close> bundles, each line rounded to cents.\<close>

definition regularPrice :: "promotion_line list \<Rightarrow> int \<Rightarrow> (item_ref \<times> int) list \<Rightarrow> int" where
  "regularPrice lines b items =
     (\<Sum>(item, q)\<leftarrow>items. case lineOf lines (it_id item) of None \<Rightarrow> 0
        | Some l \<Rightarrow> roundDivide (ln_unit_price l * q * b) 1000)"

lemma contributions_value:
  "mapE (contribution lines b) items = Inr cs \<Longrightarrow>
     map fst cs = map (\<lambda>(item, _). it_id item) items \<and> sum_list (map snd cs) = regularPrice lines b items"
proof (induction items arbitrary: cs)
  case (Cons x items)
  obtain item q where x: "x = (item, q)" by (cases x)
  then obtain y ys where "contribution lines b (item, q) = Inr y" "mapE (contribution lines b) items = Inr ys" "cs = y # ys"
    using Cons.prems unfolding mapE_Inr_Cons by blast
  then show ?case using Cons.IH [of ys] by (auto simp: x contribution_value regularPrice_def)
qed (simp add: regularPrice_def)

lemma shareDiscount_total: "regular \<noteq> 0 \<Longrightarrow> \<exists>shares. shareDiscount discount regular assigned items = Inr shares"
proof (induction discount regular assigned items rule: shareDiscount.induct)
  case (3 discount regular assigned item "next" rest)
  obtain shares where "shareDiscount discount regular (assigned + roundDivide (discount * snd item) regular) (next # rest) = Inr shares"
    using "3.IH" "3.prems" by blast
  then show ?case using "3.prems" by (simp add: roundDivideE_def bindE_def)
qed simp_all

lemma shareDiscount_sum:
  "shareDiscount discount regular assigned items = Inr shares \<Longrightarrow>
     map fst shares = map fst items \<and> (items \<noteq> [] \<longrightarrow> sum_list (map snd shares) = discount - assigned)"
  by (induction discount regular assigned items arbitrary: shares rule: shareDiscount.induct)
    (auto simp: bindE_Inr)

lemma bundleAllocations_exact:
  assumes "rule_ok rule" "pd_type rule = BUNDLE_FIXED" "lines_ok lines" "all_present lines (pd_products rule)"
  shows "\<exists>as. bundleAllocations rule lines = Inr as \<and>
    (as \<noteq> [] \<longrightarrow> map al_product as = ruleProducts rule \<and>
       (\<exists>b price. pd_fixed_price rule = Some price \<and> 0 < b \<and>
          (\<forall>k. k \<le> b \<longleftrightarrow> contains_bundles lines (pd_products rule) k) \<and>
          price * b < regularPrice lines b (pd_products rule) \<and>
          sum_list (map al_amount as) = regularPrice lines b (pd_products rule) - price * b))"
proof -
  have items: "pd_products rule \<noteq> []" "\<forall>(item, q)\<in>set (pd_products rule). 0 < q"
    using assms(1,2) by (auto simp: rule_ok_def products_ok_def)
  obtain price where price: "pd_fixed_price rule = Some price" "0 < price"
    using assms(1,2) by (auto simp: rule_ok_def terms_ok_def)
  obtain b where count: "bundleCount lines None (pd_products rule) = Inr (Some b)"
    and greatest: "\<And>k. k \<le> b \<longleftrightarrow> contains_bundles lines (pd_products rule) k"
    using bundleCount_greatest [OF assms(3,4) items(2), of None] items(1) by auto
  have "contains_bundles lines (pd_products rule) 0"
    using assms(3) lineOf_Some by (fastforce simp: contains_bundles_def lines_ok_def)
  then have b0: "0 \<le> b" using greatest by blast
  obtain cs where cs: "mapE (contribution lines b) (pd_products rule) = Inr cs"
    using mapE_total [of "pd_products rule" "contribution lines b"] assms(4)
    by (fastforce simp: all_present_def contribution_value)
  note cv = contributions_value [OF cs]
  let ?regular = "regularPrice lines b (pd_products rule)"
  show ?thesis
  proof (cases "b = 0 \<or> ?regular - price * b \<le> 0")
    case True
    then show ?thesis
      using count cs cv price by (auto simp: bundleAllocations_def bindE_def Let_def)
  next
    case False
    then have pos: "0 < b" "price * b < ?regular" "0 < ?regular"
      using b0 price(2) mult_nonneg_nonneg [of price b] by linarith+
    obtain shares where shares: "shareDiscount (?regular - price * b) ?regular 0 cs = Inr shares"
      using shareDiscount_total [of ?regular "?regular - price * b" 0 cs] pos(3) by auto
    note sums = shareDiscount_sum [OF shares]
    have "cs \<noteq> []" using cv items(1) by auto
    then show ?thesis
      using count cs cv price False shares sums greatest pos
      by (auto simp: bundleAllocations_def bindE_def Let_def ruleProducts_def comp_def case_prod_beta)
  qed
qed

lemma contributions_shares:
  "mapE (contribution lines b) items = Inr cs \<Longrightarrow> map snd cs = map (\<lambda>i. regularPrice lines b [i]) items"
proof (induction items arbitrary: cs)
  case (Cons x items)
  obtain item q where x: "x = (item, q)" by (cases x)
  then obtain y ys where "contribution lines b (item, q) = Inr y" "mapE (contribution lines b) items = Inr ys" "cs = y # ys"
    using Cons.prems unfolding mapE_Inr_Cons by blast
  then show ?case using Cons.IH [of ys] by (auto simp: x contribution_value regularPrice_def)
qed simp

lemma regularPrice_zero: "regularPrice lines 0 items = 0"
  by (induction items) (auto simp: regularPrice_def roundDivide_nonneg_eq split: option.splits)

lemma roundDivideE_Inr: "roundDivideE n d = Inr a \<Longrightarrow> a = roundDivide n d"
  by (simp add: roundDivideE_def split: if_splits)

lemma shareDiscount_butlast:
  "shareDiscount discount regular assigned items = Inr shares \<Longrightarrow>
     map snd (butlast shares) = map (\<lambda>c. roundDivide (discount * c) regular) (butlast (map snd items))"
proof (induction discount regular assigned items arbitrary: shares rule: shareDiscount.induct)
  case (3 discount regular assigned item "next" rest)
  from "3.prems" obtain amount tail where run: "roundDivideE (discount * snd item) regular = Inr amount"
    "shareDiscount discount regular (assigned + amount) (next # rest) = Inr tail" "shares = (fst item, amount) # tail"
    by (auto simp: bindE_Inr)
  have "map fst tail = map fst (next # rest)" using shareDiscount_sum [OF run(2)] by blast
  then have "tail \<noteq> []" by auto
  then show ?case using "3.IH" [OF run(2)] run(3) roundDivideE_Inr [OF run(1)] by simp
qed auto

text \<open>The whole result of \<open>bundleAllocations\<close>: nothing when the bundles cost no less than their
  products; otherwise the rounded share of every product but the last, which gets what is left.\<close>

definition bundleResult :: "promotion_line list \<Rightarrow> int \<Rightarrow> int \<Rightarrow> (item_ref \<times> int) list \<Rightarrow> allocation list \<Rightarrow> bool" where
  "bundleResult lines b discount items as \<longleftrightarrow>
     (if discount \<le> 0 then as = []
      else map al_product as = map (\<lambda>(item, _). it_id item) items \<and>
        sum_list (map al_amount as) = discount \<and>
        map al_amount (butlast as)
          = map (\<lambda>i. roundDivide (discount * regularPrice lines b [i]) (regularPrice lines b items)) (butlast items))"

lemma bundleAllocations_value:
  assumes "rule_ok rule" "pd_type rule = BUNDLE_FIXED" "lines_ok lines" "all_present lines (pd_products rule)"
  shows "\<exists>as b price. bundleAllocations rule lines = Inr as \<and> pd_fixed_price rule = Some price \<and> 0 \<le> b \<and>
    (\<forall>k. k \<le> b \<longleftrightarrow> contains_bundles lines (pd_products rule) k) \<and>
    bundleResult lines b (regularPrice lines b (pd_products rule) - price * b) (pd_products rule) as"
proof -
  have items: "pd_products rule \<noteq> []" "\<forall>(item, q)\<in>set (pd_products rule). 0 < q"
    using assms(1,2) by (auto simp: rule_ok_def products_ok_def)
  obtain price where price: "pd_fixed_price rule = Some price" "0 < price"
    using assms(1,2) by (auto simp: rule_ok_def terms_ok_def)
  obtain b where count: "bundleCount lines None (pd_products rule) = Inr (Some b)"
    and greatest: "\<And>k. k \<le> b \<longleftrightarrow> contains_bundles lines (pd_products rule) k"
    using bundleCount_greatest [OF assms(3,4) items(2), of None] items(1) by auto
  have "contains_bundles lines (pd_products rule) 0"
    using assms(3) lineOf_Some by (fastforce simp: contains_bundles_def lines_ok_def)
  then have b0: "0 \<le> b" using greatest by blast
  obtain cs where cs: "mapE (contribution lines b) (pd_products rule) = Inr cs"
    using mapE_total [of "pd_products rule" "contribution lines b"] assms(4)
    by (fastforce simp: all_present_def contribution_value)
  note cv = contributions_value [OF cs] contributions_shares [OF cs]
  let ?regular = "regularPrice lines b (pd_products rule)"
  have "\<exists>as. bundleAllocations rule lines = Inr as \<and> bundleResult lines b (?regular - price * b) (pd_products rule) as"
  proof (cases "b = 0 \<or> ?regular - price * b \<le> 0")
    case True
    have "?regular = 0" if "b = 0"
      by (simp add: that regularPrice_zero)
    then have "?regular - price * b \<le> 0" using True by auto
    then show ?thesis
      using True count cs cv price by (auto simp: bundleAllocations_def bindE_def Let_def bundleResult_def)
  next
    case False
    then have pos: "0 < b" "0 < ?regular - price * b" "0 < ?regular"
      using b0 price(2) mult_nonneg_nonneg [of price b] by linarith+
    obtain shares where shares: "shareDiscount (?regular - price * b) ?regular 0 cs = Inr shares"
      using shareDiscount_total [of ?regular "?regular - price * b" 0 cs] pos(3) by auto
    note sums = shareDiscount_sum [OF shares] shareDiscount_butlast [OF shares]
    have "cs \<noteq> []" using cv items(1) by auto
    then show ?thesis
      using count cs cv price False shares sums pos
      by (auto simp: bundleAllocations_def bindE_def Let_def comp_def case_prod_beta bundleResult_def map_butlast)
  qed
  then show ?thesis using price(1) b0 greatest by blast
qed

text \<open>Cent articles: every product of the bundle costs one cent and is in the cart once.\<close>

lemma cents_regularPrice:
  assumes "\<forall>(item, q)\<in>set items. q = 1000 \<and> (\<exists>l. lineOf lines (it_id item) = Some l \<and> ln_unit_price l = 1 \<and> ln_quantity l = 1000)"
  shows "regularPrice lines 1 items = int (length items)"
  using assms by (induction items) (auto simp: regularPrice_def roundDivide_nonneg_eq)

lemma cents_bundles:
  assumes "items \<noteq> []" "\<forall>(item, q)\<in>set items. q = 1000 \<and> (\<exists>l. lineOf lines (it_id item) = Some l \<and> ln_unit_price l = 1 \<and> ln_quantity l = 1000)"
  shows "contains_bundles lines items k \<longleftrightarrow> k \<le> (1::int)"
proof -
  obtain x xs where items: "items = x # xs" using assms(1) by (cases items) auto
  show ?thesis using assms(2) by (cases x) (fastforce simp: items contains_bundles_def)
qed

lemma cents_share:
  assumes "1 < price" "2 * price \<le> (n::int)"
  shows "roundDivide (n - price) n = 1"
proof -
  have "(n - price + n div 2) div n = 1"
    using assms by (subst div_pos_geq) (simp_all add: div_pos_pos_trivial)
  then show ?thesis using assms by (simp add: roundDivide_nonneg_eq)
qed

lemma bundleAllocations_cents:
  assumes "rule_ok rule" "pd_type rule = BUNDLE_FIXED" "lines_ok lines" "pd_fixed_price rule = Some price"
    "\<forall>(item, q)\<in>set (pd_products rule). q = 1000 \<and> (\<exists>l. lineOf lines (it_id item) = Some l \<and> ln_unit_price l = 1 \<and> ln_quantity l = 1000)"
    "1 < price" "2 * price \<le> int (length (pd_products rule))"
  shows "\<exists>as. bundleAllocations rule lines = Inr as \<and> map al_product as = ruleProducts rule \<and>
    map al_amount as = replicate (length (pd_products rule) - 1) 1 @ [1 - price]"
proof -
  let ?items = "pd_products rule"
  have items: "?items \<noteq> []" using assms(6,7) by auto
  have "all_present lines ?items" using assms(5) by (fastforce simp: all_present_def)
  from bundleAllocations_value [OF assms(1-3) this] obtain as b where run: "bundleAllocations rule lines = Inr as"
    and b: "\<forall>k. k \<le> b \<longleftrightarrow> contains_bundles lines ?items k"
    and result: "bundleResult lines b (regularPrice lines b ?items - price * b) ?items as"
    using assms(4) by auto
  have "b = 1" using b cents_bundles [OF items assms(5)] by (meson order.antisym order.refl)
  then have shares: "map al_product as = map (\<lambda>(item, _). it_id item) ?items"
    "sum_list (map al_amount as) = int (length ?items) - price"
    "map al_amount (butlast as)
       = map (\<lambda>i. roundDivide ((int (length ?items) - price) * regularPrice lines 1 [i]) (int (length ?items))) (butlast ?items)"
    using result cents_regularPrice [OF assms(5)] assms(6,7) by (auto simp: bundleResult_def split: if_splits)
  have "regularPrice lines 1 [i] = 1" if "i \<in> set ?items" for i
    using cents_regularPrice [of "[i]"] assms(5) that by auto
  then have "map al_amount (butlast as) = map (\<lambda>_. 1) (butlast ?items)"
    unfolding shares(3) using cents_share [OF assms(6,7)] by (auto dest: in_set_butlastD)
  then have firsts: "map al_amount (butlast as) = replicate (length ?items - 1) 1"
    by (simp add: map_replicate_const)
  have "as \<noteq> []" using shares(1) items by auto
  then have split: "map al_amount as = map al_amount (butlast as) @ [al_amount (last as)]"
    by (metis append_butlast_last_id list.simps(8,9) map_append)
  have "al_amount (last as) = 1 - price"
    using shares(2) items unfolding split firsts by (cases ?items) (simp_all add: sum_list_replicate)
  then show ?thesis using run split firsts shares(1) by (simp add: ruleProducts_def)
qed

section \<open>Any rule\<close>

lemma allocationsOf_products:
  assumes "rule_ok rule" "lines_ok lines" "all_present lines (pd_products rule)"
  shows "\<exists>as. allocationsOf lines rule = Inr as \<and> distinct (map al_product as) \<and>
    set (map al_product as) \<subseteq> set (ruleProducts rule)"
proof (cases "pd_type rule = BUNDLE_FIXED")
  case True
  have "distinct (ruleProducts rule)"
    using assms(1) by (auto simp: rule_ok_def products_ok_def ruleProducts_def)
  then show ?thesis
    using bundleAllocations_exact [OF assms(1) True assms(2,3)] True
    by (auto simp: allocationsOf_def simp flip: set_map)
next
  case False
  then obtain item q where items: "pd_products rule = [(item, q)]"
    using assms(1) by (auto simp: rule_ok_def products_ok_def length_Suc_conv)
  obtain l where l: "lineOf lines (it_id item) = Some l"
    using assms(3) by (auto simp: all_present_def items)
  have line: "0 \<le> ln_quantity l" "0 \<le> ln_unit_price l" "ln_product l = it_id item"
    using lineOf_Some [OF l] assms(2) by (auto simp: lines_ok_def)
  obtain m where "eligible rule (ln_quantity l) = Inr m"
    using eligible_returns [OF assms(1) line(1)] by blast
  then obtain as where as: "singleAllocation rule l = Inr as"
    by (cases m) (auto simp: singleAllocation_def bindE_def Let_def)
  have "as = [] \<or> (\<exists>a. as = [a] \<and> al_product a = it_id item)"
    using singleAllocation_amount [OF assms(1) line(1,2) as] line(3) by (cases as) auto
  then show ?thesis
    using as l False by (auto simp: allocationsOf_def ruleProducts_def items bindE_def)
qed

section \<open>The loop over the rules\<close>

lemma appliedTo_update [simp]:
  "appliedTo (AList.update p ps m) q = (if q = p then ps else appliedTo m q)"
  by (simp add: appliedTo_def update_conv')

lemma appliedTo_Nil [simp]: "appliedTo [] p = []"
  by (simp add: appliedTo_def)

lemma applyAllocations_appliedTo:
  "appliedTo (applyAllocations rule as m) p = appliedTo m p @ map (appliedOf rule) (filter (\<lambda>a. al_product a = p) as)"
proof (induction as arbitrary: m)
  case (Cons a as)
  have "applyAllocations rule (a # as) m
      = applyAllocations rule as (AList.update (al_product a) (appliedTo m (al_product a) @ [appliedOf rule a]) m)"
    by (simp add: applyAllocations_def)
  then show ?case using Cons.IH by simp
qed (simp add: applyAllocations_def)

lemma filter_distinct_key: "distinct (map f xs) \<Longrightarrow> filter (\<lambda>x. f x = k) xs = [] \<or> (\<exists>x. f x = k \<and> filter (\<lambda>x. f x = k) xs = [x])"
proof (induction xs)
  case (Cons x xs)
  then show ?case by (cases "f x = k") (auto simp: filter_empty_conv image_iff)
qed simp

text \<open>\<open>used\<close> holds every product that has a promotion; a product with a promotion that does not
  stack is in \<open>exclusive\<close> and has no other; the promotions of a product are in the order of the
  rules.\<close>

definition loop_inv :: "promotion_data list \<Rightarrow> id list \<Rightarrow> id list \<Rightarrow> applied_map \<Rightarrow> bool" where
  "loop_inv past exclusive used applied \<longleftrightarrow>
     (\<forall>p. p \<notin> set used \<longrightarrow> appliedTo applied p = []) \<and>
     (\<forall>p a. a \<in> set (appliedTo applied p) \<longrightarrow> \<not> ss_stackable (ap_snapshot a) \<longrightarrow>
        p \<in> set exclusive \<and> appliedTo applied p = [a]) \<and>
     (\<forall>p. subseq (map ap_id (appliedTo applied p)) (map pd_id past))"

lemma appliedOf_simps [simp]:
  "ap_id (appliedOf rule a) = pd_id rule" "ss_stackable (ap_snapshot (appliedOf rule a)) = pd_stackable rule"
  "ap_amount (appliedOf rule a) = al_amount a"
  by (simp_all add: appliedOf_def ruleSnapshot_def)

lemma loop_inv_skip: "loop_inv past ex us m \<Longrightarrow> loop_inv (past @ [rule]) ex us m"
  by (simp add: loop_inv_def subseq_rev_drop_many)

lemma loop_inv_apply:
  assumes inv: "loop_inv past ex us m"
    and free: "\<not> (\<exists>p\<in>set (ruleProducts rule). p \<in> set ex)" "\<not> (\<not> pd_stackable rule \<and> (\<exists>p\<in>set (ruleProducts rule). p \<in> set us))"
    and as: "distinct (map al_product as)" "set (map al_product as) \<subseteq> set (ruleProducts rule)"
  shows "loop_inv (past @ [rule]) (if pd_stackable rule then ex else ruleProducts rule @ ex)
     (ruleProducts rule @ us) (applyAllocations rule as m)" (is "loop_inv _ ?ex ?us ?m")
proof -
  define added where "added p = map (appliedOf rule) (filter (\<lambda>a. al_product a = p) as)" for p
  have to: "appliedTo ?m p = appliedTo m p @ added p" for p
    by (simp add: applyAllocations_appliedTo added_def)
  have new: "added p = [] \<or> (\<exists>a. added p = [appliedOf rule a] \<and> p \<in> set (ruleProducts rule))" for p
  proof (cases "filter (\<lambda>a. al_product a = p) as = []")
    case False
    then have "p \<in> set (ruleProducts rule)" using as(2) by (auto simp: filter_empty_conv)
    then show ?thesis using filter_distinct_key [OF as(1), of p] by (auto simp: added_def)
  qed (simp add: added_def)
  have "appliedTo ?m p = []" if "p \<notin> set ?us" for p
    using that inv new [of p] by (auto simp: loop_inv_def to)
  moreover have "p \<in> set ?ex \<and> appliedTo ?m p = [a]"
    if "a \<in> set (appliedTo ?m p)" "\<not> ss_stackable (ap_snapshot a)" for p a
    using new [of p]
  proof
    assume "added p = []"
    then show ?thesis using that inv by (auto simp: loop_inv_def to)
  next
    assume "\<exists>a. added p = [appliedOf rule a] \<and> p \<in> set (ruleProducts rule)"
    then obtain x where x: "added p = [appliedOf rule x]" "p \<in> set (ruleProducts rule)" by blast
    then have "a = appliedOf rule x" using that inv free(1) by (auto simp: loop_inv_def to)
    then show ?thesis using x that(2) inv free(2) by (auto simp: loop_inv_def to)
  qed
  moreover have "subseq (map ap_id (appliedTo ?m p)) (map pd_id (past @ [rule]))" for p
    using inv new [of p] by (auto simp: loop_inv_def to intro: list_emb_append_mono subseq_rev_drop_many)
  ultimately show ?thesis unfolding loop_inv_def by blast
qed

lemma resolveRules_inv:
  assumes "\<forall>r\<in>set rules. rule_ok r" "lines_ok lines" "loop_inv past ex us m"
  shows "\<exists>ex' us' m'. resolveRules lines rules ex us m = Inr m' \<and> loop_inv (past @ rules) ex' us' m'"
  using assms(1,3)
proof (induction rules arbitrary: past ex us m)
  case Nil
  then show ?case by auto
next
  case (Cons rule rules)
  note go_on = Cons.IH [OF _ loop_inv_skip [OF Cons.prems(2), of rule]]
  show ?case
  proof (cases "(\<exists>p\<in>set (ruleProducts rule). lineOf lines p = None) \<or> (\<exists>p\<in>set (ruleProducts rule). p \<in> set ex)
      \<or> (\<not> pd_stackable rule \<and> (\<exists>p\<in>set (ruleProducts rule). p \<in> set us))")
    case True
    then show ?thesis using go_on Cons.prems(1) by simp
  next
    case False
    then have "all_present lines (pd_products rule)"
      by (auto simp: all_present_def ruleProducts_def)
    then obtain as where as: "allocationsOf lines rule = Inr as" "distinct (map al_product as)"
        "set (map al_product as) \<subseteq> set (ruleProducts rule)"
      using allocationsOf_products [of rule lines] Cons.prems(1) assms(2) by auto
    show ?thesis
    proof (cases "as = []")
      case True
      then show ?thesis using False as(1) go_on Cons.prems(1) by (simp add: bindE_def)
    next
      case nonempty: False
      have step: "resolveRules lines (rule # rules) ex us m
          = resolveRules lines rules (if pd_stackable rule then ex else ruleProducts rule @ ex) (ruleProducts rule @ us) (applyAllocations rule as m)"
        unfolding resolveRules.simps if_not_P [OF False] as(1) bindE_def using nonempty by simp
      show ?thesis
        unfolding step
        using False Cons.prems(1) Cons.IH [OF _ loop_inv_apply [OF Cons.prems(2) _ _ as(2,3)]] by simp
    qed
  qed
qed

end
