(* ===== verification/Promotions.thy ===== *)
theory Promotions
  imports PromotionLaws
begin

text \<open>
  \<open>promotions/promotion.repository.ts\<close>: creating and updating promotions, reading them, and the
  query for the promotions that apply to a cart, whose answer the engine works through. Requests
  have passed the decorators of \<open>save-promotion.dto.ts\<close> (every quantity, percentage and price is a
  positive decimal); what the repository itself relies on is checked again by \<open>validate\<close> and by
  the \<open>CHECK\<close>s of the tables.
\<close>

section \<open>Requests\<close>

record promotion_dto =
  dp_name :: string
  dp_type :: promotion_type
  dp_branch :: "id option"
  dp_customer :: "id option"
  dp_channel :: "price_channel option"
  dp_priority :: int
  dp_stackable :: bool
  dp_valid_from :: nat
  dp_valid_to :: "nat option"
  dp_active :: bool
  dp_percent :: "int option"
  dp_fixed_price :: "int option"
  dp_buy :: "int option"
  dp_reward :: "int option"
  dp_products :: "(id \<times> int) list"
  dp_tiers :: "(int \<times> int) list"

section \<open>Constraints\<close>

text \<open>\<open>ck_promotions_validity\<close> and \<open>ck_promotions_values\<close>\<close>

definition promotion_check :: "promotion_row \<Rightarrow> bool" where
  "promotion_check r \<longleftrightarrow>
     (case pm_valid_to r of None \<Rightarrow> True | Some to \<Rightarrow> pm_valid_from r < to) \<and>
     (case pm_percent r of None \<Rightarrow> True | Some p \<Rightarrow> 0 < p \<and> p \<le> 1000000) \<and>
     (case pm_fixed_price r of None \<Rightarrow> True | Some p \<Rightarrow> 0 < p) \<and>
     (case pm_buy r of None \<Rightarrow> True | Some q \<Rightarrow> 0 < q) \<and>
     (case pm_reward r of None \<Rightarrow> True | Some q \<Rightarrow> 0 < q)"

text \<open>\<open>ck_promotion_tier_values\<close>\<close>

definition tier_check :: "promotion_tier_row \<Rightarrow> bool" where
  "tier_check r \<longleftrightarrow> 0 < pt_minimum r \<and> 0 < pt_percent r \<and> pt_percent r < 1000000"

section \<open>Validation\<close>

definition validRule :: "promotion_dto \<Rightarrow> bool" where
  "validRule dto \<longleftrightarrow>
     (case dp_type dto of
        BUY_X_GET_Y \<Rightarrow> (case (dp_buy dto, dp_reward dto, dp_percent dto) of
            (Some buy, Some reward, Some _) \<Rightarrow> reward \<le> buy | _ \<Rightarrow> False)
      | SECOND_UNIT_PERCENT \<Rightarrow> dp_percent dto \<noteq> None
      | BUNDLE_FIXED \<Rightarrow> dp_fixed_price dto \<noteq> None
      | QUANTITY_PERCENT \<Rightarrow> dp_tiers dto \<noteq> []) \<and>
     (dp_type dto = QUANTITY_PERCENT \<or> dp_tiers dto = [])"

definition validatePromotion :: "id \<Rightarrow> promotion_dto \<Rightarrow> unit tact" where
  "validatePromotion t dto =
     thenM (ensureM (Code ''PROMOTION_INVALID_VALIDITY'') (case dp_valid_to dto of None \<Rightarrow> True | Some to \<Rightarrow> dp_valid_from dto < to))
     (thenM (ensureM (Code ''PROMOTION_INVALID_PRODUCTS'')
        (if dp_type dto \<noteq> BUNDLE_FIXED then length (dp_products dto) = 1 else 2 \<le> length (dp_products dto)))
     (thenM (ensureM (Code ''PROMOTION_INVALID_RULE'') (validRule dto))
     (thenM (ensureM (Code ''PROMOTION_MARGIN_LIMIT'') (dp_type dto \<noteq> QUANTITY_PERCENT \<or> (\<forall>(m, p)\<in>set (dp_tiers dto). p \<le> 500000)))
     (bindM (readM (\<lambda>db. (availableProducts t (map fst (dp_products dto)) db,
          branchAvailable t (dp_branch dto) db, customerAvailable t (dp_customer dto) db))) (\<lambda>(found, branch, customer).
     thenM (ensureM (Code ''PROMOTION_PRODUCT_NOT_AVAILABLE'') (found = length (dp_products dto)))
     (thenM (ensureM (Code ''PROMOTION_BRANCH_NOT_AVAILABLE'') branch)
       (ensureM (Code ''PROMOTION_CUSTOMER_NOT_AVAILABLE'') customer)))))))"

section \<open>Reading promotions\<close>

text \<open>The two \<open>LEFT JOIN\<close>s for the names of the scope.\<close>

definition branchName :: "id \<Rightarrow> id \<Rightarrow> 'z inv_db_scheme \<Rightarrow> string option" where
  "branchName t i db = map_option br_name (List.find (\<lambda>b. br_id b = i \<and> br_tenant b = t) (branches db))"

definition customerName :: "id \<Rightarrow> id \<Rightarrow> 'z inv_db_scheme \<Rightarrow> string option" where
  "customerName t i db = map_option cu_name (List.find (\<lambda>c. cu_id c = i \<and> cu_tenant c = t) (customers db))"

definition itemRef :: "id \<Rightarrow> id \<Rightarrow> 'z inv_db_scheme \<Rightarrow> item_ref option" where
  "itemRef t p db = map_option (\<lambda>r. \<lparr>it_id = pr_id r, it_name = pr_name r, it_sku = pr_sku r\<rparr>)
     (List.find (\<lambda>r. pr_id r = p \<and> pr_tenant r = t) (products db))"

text \<open>\<open>rows\<close>: one promotion or all of a tenant.\<close>

definition promotionRows :: "id \<Rightarrow> id option \<Rightarrow> trade_db \<Rightarrow> promotion_row list" where
  "promotionRows t i db =
     sort_key (\<lambda>r. (- pm_priority r, - int (pm_updated_at r), pm_id r))
       (filter (\<lambda>r. pm_tenant r = t \<and> (case i of None \<Rightarrow> True | Some j \<Rightarrow> pm_id r = j)) (promotions db))"

text \<open>\<open>hydrate\<close>: the products (an inner join) and the tiers of the rows, read in two queries and
  distributed over the rows.\<close>

definition promotionProducts :: "id \<Rightarrow> id list \<Rightarrow> trade_db \<Rightarrow> (id \<times> item_ref \<times> int) list" where
  "promotionProducts t ids db =
     List.map_filter (\<lambda>r. map_option (\<lambda>item. (pp_promotion r, item, pp_quantity r)) (itemRef t (pp_product r) db))
       (sort_key (\<lambda>r. (pp_promotion r, pp_position r, pp_id r))
         (filter (\<lambda>r. pp_tenant r = t \<and> pp_promotion r \<in> set ids) (promotion_products db)))"

definition promotionTiers :: "id \<Rightarrow> id list \<Rightarrow> trade_db \<Rightarrow> (id \<times> int \<times> int) list" where
  "promotionTiers t ids db =
     map (\<lambda>r. (pt_promotion r, pt_minimum r, pt_percent r))
       (sort_key (\<lambda>r. (pt_promotion r, pt_minimum r))
         (filter (\<lambda>r. pt_tenant r = t \<and> pt_promotion r \<in> set ids) (promotion_tiers db)))"

definition promotionData ::
  "trade_db \<Rightarrow> (id \<times> item_ref \<times> int) list \<Rightarrow> (id \<times> int \<times> int) list \<Rightarrow> promotion_row \<Rightarrow> promotion_data" where
  "promotionData db items tiers r =
     \<lparr>pd_id = pm_id r, pd_name = pm_name r, pd_type = pm_type r,
      pd_branch = map_option (\<lambda>i. (i, branchName (pm_tenant r) i db)) (pm_branch r),
      pd_customer = map_option (\<lambda>i. (i, customerName (pm_tenant r) i db)) (pm_customer r),
      pd_channel = pm_channel r, pd_priority = pm_priority r, pd_stackable = pm_stackable r,
      pd_valid_from = pm_valid_from r, pd_valid_to = pm_valid_to r, pd_active = pm_active r,
      pd_percent = pm_percent r, pd_fixed_price = pm_fixed_price r, pd_buy = pm_buy r, pd_reward = pm_reward r,
      pd_version = pm_version r,
      pd_products = map snd (filter (\<lambda>x. fst x = pm_id r) items),
      pd_tiers = map snd (filter (\<lambda>x. fst x = pm_id r) tiers),
      pd_created_at = pm_created_at r, pd_updated_at = pm_updated_at r\<rparr>"

definition hydrate :: "id \<Rightarrow> promotion_row list \<Rightarrow> trade_db \<Rightarrow> promotion_data list" where
  "hydrate t rows db =
     (if rows = [] then []
      else map (promotionData db (promotionProducts t (map pm_id rows) db) (promotionTiers t (map pm_id rows) db)) rows)"

definition findPromotion :: "id \<Rightarrow> id \<Rightarrow> trade_db \<Rightarrow> promotion_data option" where
  "findPromotion t i db =
     (case promotionRows t (Some i) db of [] \<Rightarrow> None
      | r # rs \<Rightarrow> Some (hd (hydrate t (r # rs) db)))"

definition listPromotions :: "id \<Rightarrow> trade_db \<Rightarrow> promotion_data list" where
  "listPromotions t db = hydrate t (promotionRows t None db) db"

text \<open>\<open>applicable\<close>\<close>

definition applicableRow :: "id \<Rightarrow> id \<Rightarrow> id option \<Rightarrow> price_channel \<Rightarrow> nat \<Rightarrow> id list \<Rightarrow> trade_db \<Rightarrow> promotion_row \<Rightarrow> bool" where
  "applicableRow t branch customer channel now ps db r \<longleftrightarrow>
     pm_tenant r = t \<and> pm_active r \<and> pm_valid_from r \<le> now \<and>
     (case pm_valid_to r of None \<Rightarrow> True | Some to \<Rightarrow> now < to) \<and>
     in_scope (pm_branch r) (Some branch) \<and> in_scope (pm_customer r) customer \<and> in_scope (pm_channel r) (Some channel) \<and>
     (\<exists>x\<in>set (promotion_products db). pp_tenant x = pm_tenant r \<and> pp_promotion x = pm_id r \<and> pp_product x \<in> set ps)"

definition applicable :: "id \<Rightarrow> id \<Rightarrow> id option \<Rightarrow> price_channel \<Rightarrow> nat \<Rightarrow> id list \<Rightarrow> trade_db \<Rightarrow> promotion_data list" where
  "applicable t branch customer channel now ps db =
     (if ps = [] then []
      else hydrate t
        (sort_key (\<lambda>r. (- pm_priority r, - int (specificity (pm_branch r) (pm_customer r) (pm_channel r)),
             - int (pm_valid_from r), pm_id r))
          (filter (applicableRow t branch customer channel now ps db) (promotions db))) db)"

text \<open>\<open>PromotionEngineService.resolve\<close>: the query, then the loop.\<close>

definition resolvePromotions ::
  "id \<Rightarrow> id \<Rightarrow> id option \<Rightarrow> price_channel \<Rightarrow> nat \<Rightarrow> promotion_line list \<Rightarrow> trade_db \<Rightarrow> trade_error + applied_map" where
  "resolvePromotions t branch customer channel now lines db =
     resolveRules lines (applicable t branch customer channel now (map ln_product lines) db) [] [] []"

section \<open>Writing promotions\<close>

definition insertPromotion :: "promotion_row \<Rightarrow> unit tact" where
  "insertPromotion r =
     thenM (ensureM TradeCheckViolated (promotion_check r))
       (writeM (\<lambda>db. db\<lparr>promotions := promotions db @ [r]\<rparr>))"

text \<open>One row of the two multi-row \<open>INSERT\<close>s: the unique keys and the \<open>CHECK\<close>s.\<close>

definition insertPromotionProduct :: "promotion_product_row \<Rightarrow> unit tact" where
  "insertPromotionProduct r =
     bindM (readM promotion_products) (\<lambda>rows.
     thenM (ensureM TradeCheckViolated (0 < pp_quantity r))
     (thenM (ensureM TradeDuplicateEntry (\<forall>x\<in>set rows. \<not> (pp_tenant x = pp_tenant r \<and> pp_promotion x = pp_promotion r \<and> pp_product x = pp_product r)))
       (writeM (\<lambda>db. db\<lparr>promotion_products := promotion_products db @ [r]\<rparr>))))"

definition insertPromotionTier :: "promotion_tier_row \<Rightarrow> unit tact" where
  "insertPromotionTier r =
     bindM (readM promotion_tiers) (\<lambda>rows.
     thenM (ensureM TradeCheckViolated (tier_check r))
     (thenM (ensureM TradeDuplicateEntry (\<forall>x\<in>set rows. \<not> (pt_tenant x = pt_tenant r \<and> pt_promotion x = pt_promotion r \<and> pt_minimum x = pt_minimum r)))
       (writeM (\<lambda>db. db\<lparr>promotion_tiers := promotion_tiers db @ [r]\<rparr>))))"

text \<open>\<open>replaceRules\<close>; the ids are drawn while the parameters of the statement are built.\<close>

definition ruleRow :: "id \<Rightarrow> id \<Rightarrow> (nat \<times> id \<times> int) \<Rightarrow> unit tact" where
  "ruleRow t i = (\<lambda>(position, p, q).
     bindM newTradeRow (\<lambda>(rid, _).
       insertPromotionProduct \<lparr>pp_id = rid, pp_tenant = t, pp_promotion = i, pp_product = p, pp_quantity = q, pp_position = position\<rparr>))"

definition tierRow :: "id \<Rightarrow> id \<Rightarrow> (int \<times> int) \<Rightarrow> unit tact" where
  "tierRow t i = (\<lambda>(minimum, percent).
     bindM newTradeRow (\<lambda>(rid, _).
       insertPromotionTier \<lparr>pt_id = rid, pt_tenant = t, pt_promotion = i, pt_minimum = minimum, pt_percent = percent\<rparr>))"

definition replaceRules :: "id \<Rightarrow> id \<Rightarrow> promotion_dto \<Rightarrow> unit tact" where
  "replaceRules t i dto =
     thenM (ensureM SqlSyntaxError (dp_products dto \<noteq> []))
     (thenM (forM (ruleRow t i) (enumerate 0 (dp_products dto)))
       (forM (tierRow t i) (dp_tiers dto)))"

definition createPromotion :: "id \<Rightarrow> promotion_dto \<Rightarrow> promotion_data option tact" where
  "createPromotion t dto =
     thenM (validatePromotion t dto)
     (bindM newTradeRow (\<lambda>(i, now).
     thenM (insertPromotion
       \<lparr>pm_id = i, pm_tenant = t, pm_name = dp_name dto, pm_type = dp_type dto, pm_branch = dp_branch dto,
        pm_customer = dp_customer dto, pm_channel = dp_channel dto, pm_priority = dp_priority dto,
        pm_stackable = dp_stackable dto, pm_valid_from = dp_valid_from dto, pm_valid_to = dp_valid_to dto,
        pm_active = dp_active dto, pm_percent = dp_percent dto, pm_fixed_price = dp_fixed_price dto,
        pm_buy = dp_buy dto, pm_reward = dp_reward dto, pm_version = 1, pm_created_at = now, pm_updated_at = now\<rparr>)
     (thenM (replaceRules t i dto)
       (readM (findPromotion t i)))))"

text \<open>The outcome of an update: the promotion, \<open>'CONFLICT'\<close> or \<open>null\<close>; the service turns the
  last two into errors.\<close>

datatype 'a updated = Updated 'a | Conflict | Missing

definition updatedPromotion :: "promotion_dto \<Rightarrow> nat \<Rightarrow> promotion_row \<Rightarrow> promotion_row" where
  "updatedPromotion dto now r =
     r\<lparr>pm_name := dp_name dto, pm_type := dp_type dto, pm_branch := dp_branch dto,
       pm_customer := dp_customer dto, pm_channel := dp_channel dto, pm_priority := dp_priority dto,
       pm_stackable := dp_stackable dto, pm_valid_from := dp_valid_from dto, pm_valid_to := dp_valid_to dto,
       pm_active := dp_active dto, pm_percent := dp_percent dto, pm_fixed_price := dp_fixed_price dto,
       pm_buy := dp_buy dto, pm_reward := dp_reward dto, pm_version := pm_version r + 1, pm_updated_at := now\<rparr>"

definition updatePromotion :: "id \<Rightarrow> id \<Rightarrow> nat \<Rightarrow> promotion_dto \<Rightarrow> promotion_data option updated tact" where
  "updatePromotion t i version dto =
     thenM (validatePromotion t dto)
     (bindM currentTime (\<lambda>now.
     bindM (readM (\<lambda>db. filter (\<lambda>r. pm_id r = i \<and> pm_tenant r = t \<and> pm_version r = version) (promotions db))) (\<lambda>hit.
     if hit = [] then bindM (readM (findPromotion t i)) (\<lambda>found. returnM (if found = None then Missing else Conflict))
     else thenM (ensureM TradeCheckViolated (\<forall>r\<in>set hit. promotion_check (updatedPromotion dto now r)))
       (thenM (writeM (\<lambda>db. db\<lparr>promotions := update_where (\<lambda>r. pm_id r = i \<and> pm_tenant r = t \<and> pm_version r = version)
            (updatedPromotion dto now) (promotions db)\<rparr>))
       (thenM (writeM (\<lambda>db. db\<lparr>promotion_products := filter (\<lambda>r. \<not> (pp_tenant r = t \<and> pp_promotion r = i)) (promotion_products db)\<rparr>))
       (thenM (writeM (\<lambda>db. db\<lparr>promotion_tiers := filter (\<lambda>r. \<not> (pt_tenant r = t \<and> pt_promotion r = i)) (promotion_tiers db)\<rparr>))
       (thenM (replaceRules t i dto)
         (bindM (readM (findPromotion t i)) (\<lambda>found. returnM (Updated found))))))))))"

text \<open>\<open>PromotionService.update\<close>\<close>

definition updatePromotionRequest :: "id \<Rightarrow> id \<Rightarrow> nat \<Rightarrow> promotion_dto \<Rightarrow> promotion_data option tact" where
  "updatePromotionRequest t i version dto =
     bindM (updatePromotion t i version dto) (\<lambda>outcome.
     case outcome of Missing \<Rightarrow> throwM (Code ''NOT_FOUND'')
     | Conflict \<Rightarrow> throwM (Code ''PROMOTION_VERSION_CONFLICT'')
     | Updated found \<Rightarrow> returnM found)"

end
