(* ===== verification/PriceLists.thy ===== *)
theory PriceLists
  imports Promotions
begin

text \<open>
  \<open>pricing/price-list.repository.ts\<close>: creating, updating and reading price lists, and
  \<open>resolve\<close>, which finds the price of each product of a cart. The scope and validity tests, the
  order of precedence and the optimistic version check are those of the queries. Texts of money
  are cents.
\<close>

section \<open>Requests and data\<close>

record price_list_dto =
  dl_name :: string
  dl_currency :: string
  dl_branch :: "id option"
  dl_customer :: "id option"
  dl_channel :: "price_channel option"
  dl_priority :: int
  dl_valid_from :: nat
  dl_valid_to :: "nat option"
  dl_active :: bool
  dl_items :: "(id \<times> int) list"

text \<open>\<open>PriceListData\<close>\<close>

record price_list_data =
  ld_id :: id
  ld_name :: string
  ld_currency :: string
  ld_branch :: "(id \<times> string option) option"
  ld_customer :: "(id \<times> string option) option"
  ld_channel :: "price_channel option"
  ld_priority :: int
  ld_valid_from :: nat
  ld_valid_to :: "nat option"
  ld_active :: bool
  ld_version :: nat
  ld_items :: "(id \<times> item_ref \<times> int) list"
  ld_created_at :: nat
  ld_updated_at :: nat

record resolved_price =
  rp_price :: int
  rp_list :: id
  rp_list_name :: string

section \<open>resolve\<close>

text \<open>One row of the join of items and lists that the \<open>WHERE\<close> clause keeps.\<close>

definition eligibleList :: "id \<Rightarrow> id \<Rightarrow> id option \<Rightarrow> price_channel \<Rightarrow> string \<Rightarrow> nat \<Rightarrow> price_list_row \<Rightarrow> bool" where
  "eligibleList t branch customer channel currency now l \<longleftrightarrow>
     pl_tenant l = t \<and> pl_currency l = currency \<and> pl_active l \<and> pl_valid_from l \<le> now \<and>
     (case pl_valid_to l of None \<Rightarrow> True | Some to \<Rightarrow> now < to) \<and>
     in_scope (pl_branch l) (Some branch) \<and> in_scope (pl_customer l) customer \<and> in_scope (pl_channel l) (Some channel)"

definition priceCandidates ::
  "id \<Rightarrow> id \<Rightarrow> id option \<Rightarrow> price_channel \<Rightarrow> string \<Rightarrow> id list \<Rightarrow> nat \<Rightarrow> trade_db \<Rightarrow> (price_item_row \<times> price_list_row) list" where
  "priceCandidates t branch customer channel currency ps now db =
     concat (map (\<lambda>i. map (\<lambda>l. (i, l))
        (filter (\<lambda>l. pl_id l = pi_list i \<and> pl_tenant l = pi_tenant i \<and> eligibleList t branch customer channel currency now l \<and>
            pi_product i \<in> set ps) (price_lists db))) (price_items db))"

text \<open>The \<open>ORDER BY\<close>: by product, then priority, specificity and start of validity downwards, then
  the id of the list.\<close>

definition precedence :: "price_list_row \<Rightarrow> int \<times> int \<times> int \<times> id" where
  "precedence l = (- pl_priority l, - int (specificity (pl_branch l) (pl_customer l) (pl_channel l)),
     - int (pl_valid_from l), pl_id l)"

definition priceOf :: "price_item_row \<times> price_list_row \<Rightarrow> resolved_price" where
  "priceOf x = \<lparr>rp_price = pi_price (fst x), rp_list = pl_id (snd x), rp_list_name = pl_name (snd x)\<rparr>"

text \<open>The loop over the rows: the first row of a product is kept.\<close>

definition firstPrices :: "(price_item_row \<times> price_list_row) list \<Rightarrow> (id \<times> resolved_price) list" where
  "firstPrices rows =
     fold (\<lambda>x resolved. if map_of resolved (pi_product (fst x)) \<noteq> None then resolved
        else resolved @ [(pi_product (fst x), priceOf x)]) rows []"

definition resolvePrices ::
  "id \<Rightarrow> id \<Rightarrow> id option \<Rightarrow> price_channel \<Rightarrow> string \<Rightarrow> id list \<Rightarrow> nat \<Rightarrow> trade_db \<Rightarrow> (id \<times> resolved_price) list" where
  "resolvePrices t branch customer channel currency ps now db =
     (if ps = [] then []
      else firstPrices (sort_key (\<lambda>(i, l). (pi_product i, precedence l))
        (priceCandidates t branch customer channel currency ps now db)))"

section \<open>Reading\<close>

definition priceListRows :: "id \<Rightarrow> id option \<Rightarrow> trade_db \<Rightarrow> price_list_row list" where
  "priceListRows t i db =
     sort_key (\<lambda>r. (- pl_priority r, - int (pl_updated_at r), pl_id r))
       (filter (\<lambda>r. pl_tenant r = t \<and> (case i of None \<Rightarrow> True | Some j \<Rightarrow> pl_id r = j)) (price_lists db))"

text \<open>\<open>withItems\<close>: the items of all the lists, ordered by name and SKU of the product.\<close>

definition listItems :: "id \<Rightarrow> id list \<Rightarrow> trade_db \<Rightarrow> (id \<times> id \<times> item_ref \<times> int) list" where
  "listItems t ids db =
     sort_key (\<lambda>(_, _, item, _). (it_name item, it_sku item))
       (List.map_filter (\<lambda>r. map_option (\<lambda>item. (pi_list r, pi_id r, item, pi_price r)) (itemRef t (pi_product r) db))
         (filter (\<lambda>r. pi_tenant r = t \<and> pi_list r \<in> set ids) (price_items db)))"

definition priceListData :: "trade_db \<Rightarrow> (id \<times> id \<times> item_ref \<times> int) list \<Rightarrow> price_list_row \<Rightarrow> price_list_data" where
  "priceListData db items r =
     \<lparr>ld_id = pl_id r, ld_name = pl_name r, ld_currency = pl_currency r,
      ld_branch = map_option (\<lambda>i. (i, branchName (pl_tenant r) i db)) (pl_branch r),
      ld_customer = map_option (\<lambda>i. (i, customerName (pl_tenant r) i db)) (pl_customer r),
      ld_channel = pl_channel r, ld_priority = pl_priority r, ld_valid_from = pl_valid_from r,
      ld_valid_to = pl_valid_to r, ld_active = pl_active r, ld_version = pl_version r,
      ld_items = map snd (filter (\<lambda>x. fst x = pl_id r) items),
      ld_created_at = pl_created_at r, ld_updated_at = pl_updated_at r\<rparr>"

definition withItems :: "id \<Rightarrow> price_list_row list \<Rightarrow> trade_db \<Rightarrow> price_list_data list" where
  "withItems t rows db =
     (if rows = [] then [] else map (priceListData db (listItems t (map pl_id rows) db)) rows)"

definition findPriceList :: "id \<Rightarrow> id \<Rightarrow> trade_db \<Rightarrow> price_list_data option" where
  "findPriceList t i db =
     (case priceListRows t (Some i) db of [] \<Rightarrow> None | r # rs \<Rightarrow> Some (hd (withItems t (r # rs) db)))"

definition listPriceLists :: "id \<Rightarrow> trade_db \<Rightarrow> price_list_data list" where
  "listPriceLists t db = withItems t (priceListRows t None db) db"

section \<open>Writing\<close>

definition assertPriceReferences :: "id \<Rightarrow> price_list_dto \<Rightarrow> unit tact" where
  "assertPriceReferences t dto =
     thenM (ensureM (Code ''PRICE_LIST_INVALID_VALIDITY'') (case dl_valid_to dto of None \<Rightarrow> True | Some to \<Rightarrow> dl_valid_from dto < to))
     (thenM (ensureM SqlSyntaxError (dl_items dto \<noteq> []))
     (bindM (readM (\<lambda>db. (availableProducts t (map fst (dl_items dto)) db,
          branchAvailable t (dl_branch dto) db, customerAvailable t (dl_customer dto) db))) (\<lambda>(found, branch, customer).
     thenM (ensureM (Code ''PRICE_LIST_PRODUCT_NOT_AVAILABLE'') (found = length (dl_items dto)))
     (thenM (ensureM (Code ''PRICE_LIST_BRANCH_NOT_AVAILABLE'') branch)
       (ensureM (Code ''PRICE_LIST_CUSTOMER_NOT_AVAILABLE'') customer)))))"

text \<open>The parts of \<open>ck_price_lists_values\<close> that the request does not fix by its type, and
  \<open>ck_price_list_items_price\<close>.\<close>

definition upper :: "char \<Rightarrow> bool" where
  "upper c \<longleftrightarrow> 65 \<le> (of_char c :: nat) \<and> (of_char c :: nat) \<le> 90"

definition price_list_check :: "price_list_row \<Rightarrow> bool" where
  "price_list_check r \<longleftrightarrow>
     2 \<le> length (pl_name r) \<and> length (pl_name r) \<le> 120 \<and> length (pl_currency r) = 3 \<and> list_all upper (pl_currency r) \<and>
     - 100000 \<le> pl_priority r \<and> pl_priority r \<le> 100000 \<and>
     (case pl_valid_to r of None \<Rightarrow> True | Some to \<Rightarrow> pl_valid_from r < to) \<and> 0 < pl_version r"

definition insertPriceItem :: "price_item_row \<Rightarrow> unit tact" where
  "insertPriceItem r =
     bindM (readM price_items) (\<lambda>rows.
     thenM (ensureM TradeCheckViolated (0 < pi_price r))
     (thenM (ensureM TradeDuplicateEntry (\<forall>x\<in>set rows. \<not> (pi_tenant x = pi_tenant r \<and> pi_list x = pi_list r \<and> pi_product x = pi_product r)))
       (writeM (\<lambda>db. db\<lparr>price_items := price_items db @ [r]\<rparr>))))"

definition itemRow :: "id \<Rightarrow> id \<Rightarrow> (id \<times> int) \<Rightarrow> unit tact" where
  "itemRow t i = (\<lambda>(p, price).
     bindM newTradeRow (\<lambda>(rid, _).
       insertPriceItem \<lparr>pi_id = rid, pi_tenant = t, pi_list = i, pi_product = p, pi_price = price\<rparr>))"

definition replaceItems :: "id \<Rightarrow> id \<Rightarrow> (id \<times> int) list \<Rightarrow> unit tact" where
  "replaceItems t i items =
     thenM (ensureM SqlSyntaxError (items \<noteq> [])) (forM (itemRow t i) items)"

definition createPriceList :: "id \<Rightarrow> price_list_dto \<Rightarrow> price_list_data option tact" where
  "createPriceList t dto =
     thenM (assertPriceReferences t dto)
     (bindM newTradeRow (\<lambda>(i, now).
     let r = \<lparr>pl_id = i, pl_tenant = t, pl_name = dl_name dto, pl_currency = dl_currency dto, pl_branch = dl_branch dto,
        pl_customer = dl_customer dto, pl_channel = dl_channel dto, pl_priority = dl_priority dto,
        pl_valid_from = dl_valid_from dto, pl_valid_to = dl_valid_to dto, pl_active = dl_active dto,
        pl_version = 1, pl_created_at = now, pl_updated_at = now\<rparr>
     in thenM (ensureM TradeCheckViolated (price_list_check r))
       (thenM (writeM (\<lambda>db. db\<lparr>price_lists := price_lists db @ [r]\<rparr>))
       (thenM (replaceItems t i (dl_items dto))
         (readM (findPriceList t i))))))"

definition updatedPriceList :: "price_list_dto \<Rightarrow> nat \<Rightarrow> price_list_row \<Rightarrow> price_list_row" where
  "updatedPriceList dto now r =
     r\<lparr>pl_name := dl_name dto, pl_currency := dl_currency dto, pl_branch := dl_branch dto,
       pl_customer := dl_customer dto, pl_channel := dl_channel dto, pl_priority := dl_priority dto,
       pl_valid_from := dl_valid_from dto, pl_valid_to := dl_valid_to dto, pl_active := dl_active dto,
       pl_version := pl_version r + 1, pl_updated_at := now\<rparr>"

definition updatePriceList :: "id \<Rightarrow> id \<Rightarrow> nat \<Rightarrow> price_list_dto \<Rightarrow> price_list_data option updated tact" where
  "updatePriceList t i version dto =
     thenM (assertPriceReferences t dto)
     (bindM currentTime (\<lambda>now.
     bindM (readM (\<lambda>db. filter (\<lambda>r. pl_id r = i \<and> pl_tenant r = t \<and> pl_version r = version) (price_lists db))) (\<lambda>hit.
     if hit = [] then bindM (readM (findPriceList t i)) (\<lambda>found. returnM (if found = None then Missing else Conflict))
     else thenM (ensureM TradeCheckViolated (\<forall>r\<in>set hit. price_list_check (updatedPriceList dto now r)))
       (thenM (writeM (\<lambda>db. db\<lparr>price_lists := update_where (\<lambda>r. pl_id r = i \<and> pl_tenant r = t \<and> pl_version r = version)
            (updatedPriceList dto now) (price_lists db)\<rparr>))
       (thenM (writeM (\<lambda>db. db\<lparr>price_items := filter (\<lambda>r. \<not> (pi_tenant r = t \<and> pi_list r = i)) (price_items db)\<rparr>))
       (thenM (replaceItems t i (dl_items dto))
         (bindM (readM (findPriceList t i)) (\<lambda>found. returnM (Updated found)))))))))"

text \<open>\<open>PriceListService.update\<close>\<close>

definition updatePriceListRequest :: "id \<Rightarrow> id \<Rightarrow> nat \<Rightarrow> price_list_dto \<Rightarrow> price_list_data option tact" where
  "updatePriceListRequest t i version dto =
     bindM (updatePriceList t i version dto) (\<lambda>outcome.
     case outcome of Missing \<Rightarrow> throwM (Code ''NOT_FOUND'')
     | Conflict \<Rightarrow> throwM (Code ''PRICE_LIST_VERSION_CONFLICT'')
     | Updated found \<Rightarrow> returnM found)"

end
