(* ===== verification/TradeLaws.thy ===== *)
theory TradeLaws
  imports PriceLists
begin

text \<open>
  Two contracts that several repositories of the selling side share.

  \<open>appended_rows\<close>: a multi-row \<open>INSERT\<close> into a table with a unique key and a \<open>CHECK\<close>. Its
  lemma says what a successful statement adds; it is interpreted for the products and the tiers of
  promotions and for the items of price lists.

  \<open>versioned\<close>: an update with an optimistic version check. Its lemmas say that of two updates
  made from the same version only one succeeds; it is interpreted for promotions and price lists.
\<close>

section \<open>Tables that rows are appended to\<close>

locale appended_rows =
  fixes tbl :: "trade_db \<Rightarrow> 'r list"
    and upd :: "('r list \<Rightarrow> 'r list) \<Rightarrow> trade_db \<Rightarrow> trade_db"
    and insert_row :: "'r \<Rightarrow> unit tact"
    and ok :: "'r \<Rightarrow> bool"
    and clash :: "'r \<Rightarrow> 'r \<Rightarrow> bool"
  assumes insert_Inr: "insert_row r db = Inr ((), db') \<longleftrightarrow>
      ok r \<and> (\<forall>x\<in>set (tbl db). \<not> clash x r) \<and> db' = upd (\<lambda>rs. rs @ [r]) db"
    and tbl_upd: "tbl (upd f db) = f (tbl db)"
    and upd_upd: "upd f (upd g db) = upd (\<lambda>rs. f (g rs)) db"
    and upd_id: "upd (\<lambda>rs. rs) db = db"
    and upd_ticks: "upd f (db\<lparr>ticks := n\<rparr>) = (upd f db)\<lparr>ticks := n\<rparr>" "ticks (upd f db) = ticks db"
    and tbl_ticks: "tbl (db\<lparr>ticks := n\<rparr>) = tbl db"
    and upd_uuid: "env_uuid (upd f db) = env_uuid db"
begin

definition statement :: "(id \<Rightarrow> 'x \<Rightarrow> 'r) \<Rightarrow> 'x list \<Rightarrow> unit tact" where
  "statement mk xs = forM (\<lambda>x. bindM newTradeRow (\<lambda>(rid, _). insert_row (mk rid x))) xs"

lemma statement_adds:
  assumes "statement mk xs db = Inr ((), db')"
  shows "\<exists>rs. db' = (upd (\<lambda>old. old @ rs) db)\<lparr>ticks := ticks db + length xs\<rparr> \<and>
    list_all2 (\<lambda>r x. \<exists>i. r = mk i x) rs xs \<and>
    (\<forall>r\<in>set rs. ok r \<and> (\<forall>x\<in>set (tbl db). \<not> clash x r)) \<and> sorted_wrt (\<lambda>x y. \<not> clash x y) rs"
  using assms
proof (induction xs arbitrary: db)
  case Nil
  then have "db' = db" by (simp add: statement_def)
  then show ?case by (intro exI [of _ "[]"]) (simp add: upd_id)
next
  case (Cons x xs)
  let ?r = "mk (env_uuid db (ticks db)) x"
  let ?db1 = "upd (\<lambda>rs. rs @ [?r]) (db\<lparr>ticks := Suc (ticks db)\<rparr>)"
  from Cons.prems have r: "ok ?r" "\<forall>y\<in>set (tbl db). \<not> clash y ?r" and rest: "statement mk xs ?db1 = Inr ((), db')"
    by (auto simp: statement_def runM insert_Inr tbl_ticks)
  obtain rs where rs: "db' = (upd (\<lambda>old. old @ rs) ?db1)\<lparr>ticks := ticks ?db1 + length xs\<rparr>"
    "list_all2 (\<lambda>r x. \<exists>i. r = mk i x) rs xs" "\<forall>r\<in>set rs. ok r \<and> (\<forall>x\<in>set (tbl ?db1). \<not> clash x r)"
    "sorted_wrt (\<lambda>x y. \<not> clash x y) rs"
    using Cons.IH [OF rest] by blast
  show ?case
    by (intro exI [of _ "?r # rs"]) (use rs r in \<open>auto simp: upd_ticks upd_upd tbl_upd tbl_ticks\<close>)
qed

end

lemma insert_promotion_product:
  "insertPromotionProduct r db = Inr ((), db') \<longleftrightarrow>
     0 < pp_quantity r \<and>
     (\<forall>x\<in>set (promotion_products db). \<not> (pp_tenant x = pp_tenant r \<and> pp_promotion x = pp_promotion r \<and> pp_product x = pp_product r)) \<and>
     db' = promotion_products_update (\<lambda>rs. rs @ [r]) db"
  by (cases db) (auto simp: insertPromotionProduct_def runM)

interpretation products: appended_rows promotion_products promotion_products_update insertPromotionProduct
    "\<lambda>r. 0 < pp_quantity r" "\<lambda>x r. pp_tenant x = pp_tenant r \<and> pp_promotion x = pp_promotion r \<and> pp_product x = pp_product r"
  by unfold_locales (simp_all add: insert_promotion_product comp_def)

lemma insert_promotion_tier:
  "insertPromotionTier r db = Inr ((), db') \<longleftrightarrow>
     tier_check r \<and>
     (\<forall>x\<in>set (promotion_tiers db). \<not> (pt_tenant x = pt_tenant r \<and> pt_promotion x = pt_promotion r \<and> pt_minimum x = pt_minimum r)) \<and>
     db' = promotion_tiers_update (\<lambda>rs. rs @ [r]) db"
  by (cases db) (auto simp: insertPromotionTier_def runM)

interpretation tiers: appended_rows promotion_tiers promotion_tiers_update insertPromotionTier
    tier_check "\<lambda>x r. pt_tenant x = pt_tenant r \<and> pt_promotion x = pt_promotion r \<and> pt_minimum x = pt_minimum r"
  by unfold_locales (simp_all add: insert_promotion_tier comp_def)

lemma insert_price_item:
  "insertPriceItem r db = Inr ((), db') \<longleftrightarrow>
     0 < pi_price r \<and>
     (\<forall>x\<in>set (price_items db). \<not> (pi_tenant x = pi_tenant r \<and> pi_list x = pi_list r \<and> pi_product x = pi_product r)) \<and>
     db' = price_items_update (\<lambda>rs. rs @ [r]) db"
  by (cases db) (auto simp: insertPriceItem_def runM)

interpretation items: appended_rows price_items price_items_update insertPriceItem
    "\<lambda>r. 0 < pi_price r" "\<lambda>x r. pi_tenant x = pi_tenant r \<and> pi_list x = pi_list r \<and> pi_product x = pi_product r"
  by unfold_locales (simp_all add: insert_price_item comp_def)

text \<open>The three statements.\<close>

lemma ruleRows_statement:
  "forM (ruleRow t i) xs = products.statement (\<lambda>rid (position, p, q).
     \<lparr>pp_id = rid, pp_tenant = t, pp_promotion = i, pp_product = p, pp_quantity = q, pp_position = position\<rparr>) xs"
  by (simp add: products.statement_def ruleRow_def case_prod_beta')

lemma tierRows_statement:
  "forM (tierRow t i) xs = tiers.statement (\<lambda>rid (minimum, percent).
     \<lparr>pt_id = rid, pt_tenant = t, pt_promotion = i, pt_minimum = minimum, pt_percent = percent\<rparr>) xs"
  by (simp add: tiers.statement_def tierRow_def case_prod_beta')

lemma itemRows_statement:
  "forM (itemRow t i) xs = items.statement (\<lambda>rid (p, price).
     \<lparr>pi_id = rid, pi_tenant = t, pi_list = i, pi_product = p, pi_price = price\<rparr>) xs"
  by (simp add: items.statement_def itemRow_def case_prod_beta')

section \<open>Updates with a version check\<close>

locale versioned =
  fixes inv :: "trade_db \<Rightarrow> bool"
    and version_of :: "trade_db \<Rightarrow> nat option"
    and update :: "nat \<Rightarrow> 'd \<Rightarrow> 'r updated tact"
  assumes hit: "inv db \<Longrightarrow> update v d db = Inr (Updated r, db') \<Longrightarrow> version_of db = Some v \<and> version_of db' = Some (Suc v) \<and> inv db'"
    and conflict: "inv db \<Longrightarrow> update v d db = Inr (Conflict, db') \<Longrightarrow> db' = db \<and> version_of db \<noteq> Some v"
    and missing: "inv db \<Longrightarrow> update v d db = Inr (Missing, db') \<Longrightarrow> db' = db \<and> version_of db = None"
begin

text \<open>Whatever happened before: an update made from a version that is not the current one changes
  nothing.\<close>

lemma stale_update:
  assumes "inv db" "update v d db = Inr (outcome, db')" "version_of db \<noteq> Some v"
  shows "db' = db \<and> (outcome = Conflict \<or> outcome = Missing)"
  using assms hit conflict missing by (cases outcome) blast+

text \<open>Two editors start from the same version: the second one is refused and changes nothing.\<close>

lemma second_update_refused:
  assumes "inv db" "update v d db = Inr (Updated r, db1)" "update v d' db1 = Inr (outcome, db2)"
  shows "outcome = Conflict \<and> db2 = db1"
proof -
  note first = hit [OF assms(1,2)]
  then have "db2 = db1 \<and> (outcome = Conflict \<or> outcome = Missing)"
    using stale_update [OF _ assms(3)] by simp
  moreover have "outcome \<noteq> Missing"
    using first missing [of db1 v d' db2] assms(3) by auto
  ultimately show ?thesis by blast
qed

end

end
