(* ===== verification/PromotionStoreLaws.thy ===== *)
theory PromotionStoreLaws
  imports TradeLaws
begin

text \<open>
  The stored promotions: every row, with its products and tiers, is a well-formed rule, and
  creating and updating promotions keeps that. This is what lets the engine work on whatever
  \<open>applicable\<close> returns without meeting a null field, a missing product or a zero divisor.
\<close>

section \<open>What validation guarantees\<close>

lemma availableProducts_all:
  assumes "distinct (map pr_id (products db))" "availableProducts t ps db = length ps"
  shows "distinct ps \<and> (\<forall>p\<in>set ps. \<exists>item. itemRef t p db = Some item \<and> it_id item = p)"
proof -
  let ?P = "\<lambda>r. pr_tenant r = t \<and> pr_active r \<and> \<not> pr_has_variants r \<and> pr_id r \<in> set ps"
  let ?found = "map pr_id (filter ?P (products db))"
  have d: "distinct ?found"
    using assms(1) by (simp add: distinct_map_filter)
  have "p \<in> set ps" if "p \<in> set ?found" for p using that by auto
  then have sub: "set ?found \<subseteq> set ps" by blast
  have n: "card (set ?found) = length ps"
    using distinct_card [OF d] assms(2) by (simp add: availableProducts_def)
  have "card (set ?found) \<le> card (set ps)"
    by (rule card_mono [OF finite_set sub])
  then have ps: "card (set ps) = length ps" using n card_length [of ps] by simp
  then have "set ?found = set ps"
    using card_subset_eq [OF _ sub] n by simp
  then have "p \<in> set ?found" if "p \<in> set ps" for p
    using that by blast
  then have "\<exists>r\<in>set (products db). pr_id r = p \<and> pr_tenant r = t" if "p \<in> set ps" for p
    using that by fastforce
  then have "\<exists>r. List.find (\<lambda>r. pr_id r = p \<and> pr_tenant r = t) (products db) = Some r" if "p \<in> set ps" for p
    using that find_None_props [of "\<lambda>r. pr_id r = p \<and> pr_tenant r = t" "products db"] by fastforce
  then have "\<exists>item. itemRef t p db = Some item \<and> it_id item = p" if "p \<in> set ps" for p
    using that find_Some_props by (fastforce simp: itemRef_def)
  then show ?thesis using card_distinct [OF ps] by blast
qed

lemma validatePromotion_Inr:
  "validatePromotion t dto db = Inr (u, db') \<longleftrightarrow>
     db' = db \<and> (case dp_valid_to dto of None \<Rightarrow> True | Some to \<Rightarrow> dp_valid_from dto < to) \<and>
     (if dp_type dto \<noteq> BUNDLE_FIXED then length (dp_products dto) = 1 else 2 \<le> length (dp_products dto)) \<and>
     validRule dto \<and> (dp_type dto = QUANTITY_PERCENT \<longrightarrow> (\<forall>(m, p)\<in>set (dp_tiers dto). p \<le> 500000)) \<and>
     availableProducts t (map fst (dp_products dto)) db = length (dp_products dto) \<and>
     branchAvailable t (dp_branch dto) db \<and> customerAvailable t (dp_customer dto) db"
  by (auto simp: validatePromotion_def runM)

section \<open>Stored rules\<close>

text \<open>A row as \<open>hydrate\<close> returns it; the other rows of the query do not matter.\<close>

definition storedItems :: "id \<Rightarrow> id \<Rightarrow> trade_db \<Rightarrow> (item_ref \<times> int) list" where
  "storedItems t i db =
     List.map_filter (\<lambda>r. map_option (\<lambda>item. (item, pp_quantity r)) (itemRef t (pp_product r) db))
       (sort_key (\<lambda>r. (pp_promotion r, pp_position r, pp_id r))
         (filter (\<lambda>r. pp_tenant r = t \<and> pp_promotion r = i) (promotion_products db)))"

definition storedTiers :: "id \<Rightarrow> id \<Rightarrow> trade_db \<Rightarrow> (int \<times> int) list" where
  "storedTiers t i db =
     map (\<lambda>r. (pt_minimum r, pt_percent r))
       (sort_key (\<lambda>r. (pt_promotion r, pt_minimum r))
         (filter (\<lambda>r. pt_tenant r = t \<and> pt_promotion r = i) (promotion_tiers db)))"

lemma filter_promotionProducts:
  assumes "i \<in> set ids"
  shows "map snd (filter (\<lambda>x. fst x = i) (promotionProducts t ids db)) = storedItems t i db"
proof -
  have *: "map snd (filter (\<lambda>x. fst x = i) (List.map_filter (\<lambda>r. map_option (\<lambda>item. (pp_promotion r, item, pp_quantity r)) (f r)) rows))
      = List.map_filter (\<lambda>r. map_option (\<lambda>item. (item, pp_quantity r)) (f r)) (filter (\<lambda>r. pp_promotion r = i) rows)" for f and rows :: "promotion_product_row list"
    by (induction rows) (auto simp: List.map_filter_simps split: option.splits)
  have "filter (\<lambda>r. pp_promotion r = i) (filter (\<lambda>r. pp_tenant r = t \<and> pp_promotion r \<in> set ids) rows)
      = filter (\<lambda>r. pp_tenant r = t \<and> pp_promotion r = i) rows" for rows :: "promotion_product_row list"
    using assms by (auto simp: filter_filter intro!: filter_cong)
  then show ?thesis
    unfolding promotionProducts_def storedItems_def * filter_sort by (simp only:)
qed

lemma filter_promotionTiers:
  assumes "i \<in> set ids"
  shows "map snd (filter (\<lambda>x. fst x = i) (promotionTiers t ids db)) = storedTiers t i db"
proof -
  have *: "map snd (filter (\<lambda>x. fst x = i) (map (\<lambda>r. (pt_promotion r, pt_minimum r, pt_percent r)) rows))
      = map (\<lambda>r. (pt_minimum r, pt_percent r)) (filter (\<lambda>r. pt_promotion r = i) rows)" for rows :: "promotion_tier_row list"
    by (induction rows) auto
  have "filter (\<lambda>r. pt_promotion r = i) (filter (\<lambda>r. pt_tenant r = t \<and> pt_promotion r \<in> set ids) rows)
      = filter (\<lambda>r. pt_tenant r = t \<and> pt_promotion r = i) rows" for rows :: "promotion_tier_row list"
    using assms by (auto simp: filter_filter intro!: filter_cong)
  then show ?thesis
    unfolding promotionTiers_def storedTiers_def * filter_sort by (simp only:)
qed

definition stored_ok :: "trade_db \<Rightarrow> promotion_row \<Rightarrow> bool" where
  "stored_ok db r \<longleftrightarrow>
     products_ok (pm_type r) (storedItems (pm_tenant r) (pm_id r) db) \<and>
     (case pm_type r of
        BUY_X_GET_Y \<Rightarrow>
          (\<exists>buy reward percent. pm_buy r = Some buy \<and> pm_reward r = Some reward \<and> pm_percent r = Some percent \<and>
             0 < reward \<and> reward \<le> buy \<and> percent_ok percent)
      | SECOND_UNIT_PERCENT \<Rightarrow> (\<exists>percent. pm_percent r = Some percent \<and> percent_ok percent)
      | BUNDLE_FIXED \<Rightarrow> (\<exists>price. pm_fixed_price r = Some price \<and> 0 < price)
      | QUANTITY_PERCENT \<Rightarrow>
          (\<forall>(minimum, percent)\<in>set (storedTiers (pm_tenant r) (pm_id r) db). 0 < minimum \<and> 0 < percent \<and> percent \<le> 500000))"

lemma hydrate_ok:
  assumes "\<forall>r\<in>set rows. pm_tenant r = t \<and> stored_ok db r" "d \<in> set (hydrate t rows db)"
  shows "rule_ok d"
proof -
  obtain r where r: "r \<in> set rows"
    "d = promotionData db (promotionProducts t (map pm_id rows) db) (promotionTiers t (map pm_id rows) db) r"
    using assms(2) by (auto simp: hydrate_def split: if_splits)
  then have i: "pm_id r \<in> set (map pm_id rows)" by simp
  have "pm_tenant r = t" "stored_ok db r" using assms(1) r(1) by blast+
  moreover have "pd_products d = storedItems t (pm_id r) db" "pd_tiers d = storedTiers t (pm_id r) db"
    "pd_type d = pm_type r" "pd_percent d = pm_percent r" "pd_fixed_price d = pm_fixed_price r"
    "pd_buy d = pm_buy r" "pd_reward d = pm_reward r"
    unfolding r(2) by (simp_all add: promotionData_def filter_promotionProducts [OF i] filter_promotionTiers [OF i])
  ultimately show ?thesis
    by (cases "pm_type r") (simp_all add: stored_ok_def rule_ok_def terms_ok_def)
qed

section \<open>The invariant\<close>

definition drawn_ids :: "'z inv_db_scheme \<Rightarrow> id set" where
  "drawn_ids db = env_uuid db ` {..<ticks db}"

definition promotion_inv :: "trade_db \<Rightarrow> bool" where
  "promotion_inv db \<longleftrightarrow> inj (env_uuid db) \<and> distinct (map pr_id (products db)) \<and> distinct (map pm_id (promotions db)) \<and>
     pm_id ` set (promotions db) \<subseteq> drawn_ids db \<and> pp_promotion ` set (promotion_products db) \<subseteq> drawn_ids db \<and>
     pt_promotion ` set (promotion_tiers db) \<subseteq> drawn_ids db \<and> (\<forall>r\<in>set (promotions db). stored_ok db r)"

text \<open>What \<open>replaceRules\<close> adds.\<close>

definition added_products :: "id \<Rightarrow> id \<Rightarrow> promotion_dto \<Rightarrow> promotion_product_row list \<Rightarrow> bool" where
  "added_products t i dto ps \<longleftrightarrow> map (\<lambda>r. (pp_product r, pp_quantity r)) ps = dp_products dto \<and>
     (\<forall>r\<in>set ps. pp_tenant r = t \<and> pp_promotion r = i \<and> 0 < pp_quantity r)"

definition added_tiers :: "id \<Rightarrow> id \<Rightarrow> promotion_dto \<Rightarrow> promotion_tier_row list \<Rightarrow> bool" where
  "added_tiers t i dto ts \<longleftrightarrow> map (\<lambda>r. (pt_minimum r, pt_percent r)) ts = dp_tiers dto \<and>
     (\<forall>r\<in>set ts. pt_tenant r = t \<and> pt_promotion r = i \<and> tier_check r)"

lemma replaceRules_adds:
  assumes "replaceRules t i dto db = Inr ((), db')"
  obtains ps ts n where "ticks db \<le> n"
    "db' = db\<lparr>ticks := n, promotion_products := promotion_products db @ ps, promotion_tiers := promotion_tiers db @ ts\<rparr>"
    "added_products t i dto ps" "added_tiers t i dto ts"
proof -
  obtain db1 where run: "forM (ruleRow t i) (enumerate 0 (dp_products dto)) db = Inr ((), db1)"
    "forM (tierRow t i) (dp_tiers dto) db1 = Inr ((), db')"
    using assms by (auto simp: replaceRules_def runM)
  obtain ps where ps: "db1 = (promotion_products_update (\<lambda>old. old @ ps) db)\<lparr>ticks := ticks db + length (enumerate 0 (dp_products dto))\<rparr>"
    "list_all2 (\<lambda>r x. \<exists>j. r = (\<lambda>(position, p, q). \<lparr>pp_id = j, pp_tenant = t, pp_promotion = i, pp_product = p, pp_quantity = q, pp_position = position\<rparr>) x)
       ps (enumerate 0 (dp_products dto))" "\<forall>r\<in>set ps. 0 < pp_quantity r"
    using products.statement_adds [OF run(1) [unfolded ruleRows_statement]] by blast
  obtain ts where ts: "db' = (promotion_tiers_update (\<lambda>old. old @ ts) db1)\<lparr>ticks := ticks db1 + length (dp_tiers dto)\<rparr>"
    "list_all2 (\<lambda>r x. \<exists>j. r = (\<lambda>(minimum, percent). \<lparr>pt_id = j, pt_tenant = t, pt_promotion = i, pt_minimum = minimum, pt_percent = percent\<rparr>) x)
       ts (dp_tiers dto)" "\<forall>r\<in>set ts. tier_check r"
    using tiers.statement_adds [OF run(2) [unfolded tierRows_statement]] by blast
  have "map (\<lambda>r. (pp_product r, pp_quantity r)) ps = map snd (enumerate 0 (dp_products dto)) \<and>
      (\<forall>r\<in>set ps. pp_tenant r = t \<and> pp_promotion r = i)"
    using ps(2) by (induction rule: list_all2_induct) auto
  then have "added_products t i dto ps" using ps(3) by (simp add: added_products_def)
  moreover have "map (\<lambda>r. (pt_minimum r, pt_percent r)) ts = dp_tiers dto \<and> (\<forall>r\<in>set ts. pt_tenant r = t \<and> pt_promotion r = i)"
    using ts(2) by (induction rule: list_all2_induct) auto
  then have "added_tiers t i dto ts" using ts(3) by (simp add: added_tiers_def)
  moreover have "db' = db\<lparr>ticks := ticks db + length (dp_products dto) + length (dp_tiers dto),
      promotion_products := promotion_products db @ ps, promotion_tiers := promotion_tiers db @ ts\<rparr>"
    unfolding ts(1) ps(1) by (cases db) simp
  ultimately show thesis by (intro that [of "ticks db + length (dp_products dto) + length (dp_tiers dto)"]) simp_all
qed

lemma map_filter_total:
  assumes "\<And>x. x \<in> set xs \<Longrightarrow> f x \<noteq> None"
  shows "List.map_filter f xs = map (\<lambda>x. the (f x)) xs"
  using assms by (induction xs) (auto simp: List.map_filter_simps split: option.splits)

text \<open>The row that a validated request describes is a well-formed rule.\<close>

lemma stored_ok_new:
  assumes valid: "validatePromotion t dto db = Inr ((), db)"
    and cat: "distinct (map pr_id (products db))" "products db' = products db"
    and ps: "filter (\<lambda>r. pp_tenant r = t \<and> pp_promotion r = i) (promotion_products db') = ps" "added_products t i dto ps"
    and ts: "filter (\<lambda>r. pt_tenant r = t \<and> pt_promotion r = i) (promotion_tiers db') = ts" "added_tiers t i dto ts"
    and r: "pm_tenant r = t" "pm_id r = i" "pm_type r = dp_type dto" "pm_percent r = dp_percent dto"
      "pm_fixed_price r = dp_fixed_price dto" "pm_buy r = dp_buy dto" "pm_reward r = dp_reward dto" "promotion_check r"
  shows "stored_ok db' r"
proof -
  let ?sorted = "sort_key (\<lambda>r. (pp_promotion r, pp_position r, pp_id r)) ps"
  let ?item = "\<lambda>r. the (itemRef t (pp_product r) db)"
  note v = valid [unfolded validatePromotion_Inr]
  have wanted: "map fst (dp_products dto) = map pp_product ps"
    using ps(2) by (auto simp: added_products_def dest!: sym [of "map _ ps"])
  have avail: "distinct (map pp_product ps) \<and> (\<forall>p\<in>set (map pp_product ps). \<exists>item. itemRef t p db = Some item \<and> it_id item = p)"
    using availableProducts_all [OF cat(1), of t "map pp_product ps"] v wanted
    by (metis length_map)
  have same: "itemRef t p db' = itemRef t p db" for p by (simp add: itemRef_def cat(2))
  have items: "storedItems t i db' = map (\<lambda>r. (?item r, pp_quantity r)) ?sorted"
  proof -
    have found: "\<exists>item. itemRef t (pp_product x) db = Some item" if "x \<in> set ?sorted" for x
    proof -
      have "pp_product x \<in> set (map pp_product ps)" using that by simp
      then show ?thesis using avail by blast
    qed
    have "storedItems t i db' = map (\<lambda>x. the (map_option (\<lambda>item. (item, pp_quantity x)) (itemRef t (pp_product x) db))) ?sorted"
      unfolding storedItems_def ps(1) same by (rule map_filter_total) (use found in auto)
    also have "\<dots> = map (\<lambda>r. (?item r, pp_quantity r)) ?sorted"
      by (rule map_cong [OF refl]) (drule found, elim exE, simp)
    finally show ?thesis .
  qed
  have len: "length (storedItems t i db') = length (dp_products dto)"
    using arg_cong [OF wanted, of length] by (simp add: items)
  have ids: "map (\<lambda>(item, _). it_id item) (storedItems t i db') = map pp_product ?sorted"
    unfolding items using avail by (auto simp: comp_def)
  have "distinct (map (\<lambda>(item, _). it_id item) (storedItems t i db'))"
    unfolding ids using avail by (simp add: distinct_map)
  moreover have "\<forall>(item, q)\<in>set (storedItems t i db'). 0 < q"
    unfolding items using ps(2) by (auto simp: added_products_def)
  ultimately have "products_ok (dp_type dto) (storedItems t i db')"
    using v len by (simp add: products_ok_def)
  moreover have tiers: "(m, p) \<in> set (dp_tiers dto) \<and> 0 < m \<and> 0 < p" if "(m, p) \<in> set (storedTiers t i db')" for m p
  proof -
    obtain x where x: "x \<in> set ts" "m = pt_minimum x" "p = pt_percent x"
      using \<open>(m, p) \<in> _\<close> by (auto simp: storedTiers_def ts(1))
    moreover have "(pt_minimum x, pt_percent x) \<in> set (dp_tiers dto)"
      using x(1) ts(2) unfolding added_tiers_def by (metis (no_types, lifting) image_eqI list.set_map)
    ultimately show ?thesis using ts(2) by (auto simp: added_tiers_def tier_check_def)
  qed
  moreover have "validRule dto" and margin: "dp_type dto = QUANTITY_PERCENT \<longrightarrow> (\<forall>(m, p)\<in>set (dp_tiers dto). p \<le> 500000)"
    using v by blast+
  ultimately show ?thesis
  proof (cases "dp_type dto")
    case BUY_X_GET_Y
    with \<open>validRule dto\<close> obtain buy reward percent where "dp_buy dto = Some buy" "dp_reward dto = Some reward"
        "dp_percent dto = Some percent" "reward \<le> buy"
      by (auto simp: validRule_def split: option.splits)
    then show ?thesis using \<open>products_ok _ _\<close> r BUY_X_GET_Y by (simp add: stored_ok_def promotion_check_def percent_ok_def)
  next
    case SECOND_UNIT_PERCENT
    with \<open>validRule dto\<close> obtain percent where "dp_percent dto = Some percent" by (auto simp: validRule_def)
    then show ?thesis using \<open>products_ok _ _\<close> r SECOND_UNIT_PERCENT by (simp add: stored_ok_def promotion_check_def percent_ok_def)
  next
    case BUNDLE_FIXED
    with \<open>validRule dto\<close> obtain price where "dp_fixed_price dto = Some price" by (auto simp: validRule_def)
    then show ?thesis using \<open>products_ok _ _\<close> r BUNDLE_FIXED by (simp add: stored_ok_def promotion_check_def)
  next
    case QUANTITY_PERCENT
    then show ?thesis using \<open>products_ok _ _\<close> r margin tiers by (fastforce simp: stored_ok_def)
  qed
qed

section \<open>Creating\<close>

lemma stored_ok_cong:
  assumes "products db' = products db"
    and "filter (\<lambda>x. pp_tenant x = pm_tenant r \<and> pp_promotion x = pm_id r) (promotion_products db')
       = filter (\<lambda>x. pp_tenant x = pm_tenant r \<and> pp_promotion x = pm_id r) (promotion_products db)"
    and "filter (\<lambda>x. pt_tenant x = pm_tenant r \<and> pt_promotion x = pm_id r) (promotion_tiers db')
       = filter (\<lambda>x. pt_tenant x = pm_tenant r \<and> pt_promotion x = pm_id r) (promotion_tiers db)"
  shows "stored_ok db' r = stored_ok db r"
proof -
  have "storedItems (pm_tenant r) (pm_id r) db' = storedItems (pm_tenant r) (pm_id r) db"
    "storedTiers (pm_tenant r) (pm_id r) db' = storedTiers (pm_tenant r) (pm_id r) db"
    using assms by (simp_all add: storedItems_def storedTiers_def itemRef_def)
  then show ?thesis unfolding stored_ok_def by (simp only:)
qed

lemma drawn_ids_mono: "env_uuid db' = env_uuid db \<Longrightarrow> ticks db \<le> ticks db' \<Longrightarrow> drawn_ids db \<subseteq> drawn_ids db'"
  by (auto simp: drawn_ids_def)

lemma fresh_id: "inj (env_uuid db) \<Longrightarrow> env_uuid db (ticks db) \<notin> drawn_ids db"
  by (auto simp: drawn_ids_def inj_def)

definition newPromotion :: "id \<Rightarrow> promotion_dto \<Rightarrow> id \<Rightarrow> nat \<Rightarrow> promotion_row" where
  "newPromotion t dto i now =
     \<lparr>pm_id = i, pm_tenant = t, pm_name = dp_name dto, pm_type = dp_type dto, pm_branch = dp_branch dto,
      pm_customer = dp_customer dto, pm_channel = dp_channel dto, pm_priority = dp_priority dto,
      pm_stackable = dp_stackable dto, pm_valid_from = dp_valid_from dto, pm_valid_to = dp_valid_to dto,
      pm_active = dp_active dto, pm_percent = dp_percent dto, pm_fixed_price = dp_fixed_price dto,
      pm_buy = dp_buy dto, pm_reward = dp_reward dto, pm_version = 1, pm_created_at = now, pm_updated_at = now\<rparr>"

lemma createPromotion_Inr:
  assumes "createPromotion t dto db = Inr (d, db')"
  obtains ps ts n r where "validatePromotion t dto db = Inr ((), db)"
    "r = newPromotion t dto (env_uuid db (ticks db)) (env_clock db (ticks db))" "promotion_check r" "ticks db < n"
    "db' = db\<lparr>ticks := n, promotions := promotions db @ [r], promotion_products := promotion_products db @ ps, promotion_tiers := promotion_tiers db @ ts\<rparr>"
    "added_products t (pm_id r) dto ps" "added_tiers t (pm_id r) dto ts" "d = findPromotion t (pm_id r) db'"
proof -
  let ?r = "newPromotion t dto (env_uuid db (ticks db)) (env_clock db (ticks db))"
  let ?db1 = "db\<lparr>ticks := Suc (ticks db), promotions := promotions db @ [?r]\<rparr>"
  have v: "validatePromotion t dto db = Inr ((), db)" and check: "promotion_check ?r"
    and run: "replaceRules t (pm_id ?r) dto ?db1 = Inr ((), db')" and d: "d = findPromotion t (pm_id ?r) db'"
    using assms by (auto simp: createPromotion_def insertPromotion_def runM validatePromotion_Inr newPromotion_def)
  from replaceRules_adds [OF run] obtain ps ts n where n: "ticks ?db1 \<le> n"
    and db': "db' = ?db1\<lparr>ticks := n, promotion_products := promotion_products ?db1 @ ps, promotion_tiers := promotion_tiers ?db1 @ ts\<rparr>"
    and rows: "added_products t (pm_id ?r) dto ps" "added_tiers t (pm_id ?r) dto ts" by blast
  have "ticks db < n" using n by simp
  moreover have "db' = db\<lparr>ticks := n, promotions := promotions db @ [?r], promotion_products := promotion_products db @ ps,
      promotion_tiers := promotion_tiers db @ ts\<rparr>"
    unfolding db' by (cases db) simp
  ultimately show thesis by (rule that [OF v refl check _ _ rows d])
qed

lemma filter_owner:
  "(\<And>x. x \<in> set xs \<Longrightarrow> g x = i) \<Longrightarrow> k \<noteq> i \<Longrightarrow> filter (\<lambda>x. P x \<and> g x = k) xs = []"
  by (auto simp: filter_empty_conv)

lemma createPromotion_inv:
  assumes inv: "promotion_inv db" and run: "createPromotion t dto db = Inr (d, db')"
  shows "promotion_inv db'"
proof -
  from run obtain ps ts n r where v: "validatePromotion t dto db = Inr ((), db)"
    and r: "r = newPromotion t dto (env_uuid db (ticks db)) (env_clock db (ticks db))" "promotion_check r" and n: "ticks db < n"
    and db': "db' = db\<lparr>ticks := n, promotions := promotions db @ [r], promotion_products := promotion_products db @ ps, promotion_tiers := promotion_tiers db @ ts\<rparr>"
    and ps: "added_products t (pm_id r) dto ps" and ts: "added_tiers t (pm_id r) dto ts"
    by (rule createPromotion_Inr)
  let ?i = "env_uuid db (ticks db)"
  have i: "pm_id r = ?i" "pm_tenant r = t" using r(1) by (simp_all add: newPromotion_def)
  have fresh: "?i \<notin> drawn_ids db" by (rule fresh_id) (use inv in \<open>simp add: promotion_inv_def\<close>)
  have in': "?i \<in> drawn_ids db'" "drawn_ids db \<subseteq> drawn_ids db'"
    using n by (auto simp: db' drawn_ids_def)
  have owners: "pp_promotion x = ?i" if "x \<in> set ps" for x using that ps by (auto simp: added_products_def i)
  have towners: "pt_promotion x = ?i" if "x \<in> set ts" for x using that ts by (auto simp: added_tiers_def i)
  have mine: "filter (\<lambda>x. pp_tenant x = t \<and> pp_promotion x = ?i) (promotion_products db') = ps"
    "filter (\<lambda>x. pt_tenant x = t \<and> pt_promotion x = ?i) (promotion_tiers db') = ts"
    using inv fresh ps ts by (auto simp: db' promotion_inv_def filter_empty_conv filter_id_conv added_products_def added_tiers_def i)
  have "stored_ok db' r"
    using stored_ok_new [OF v, of db' ?i ps ts r] mine ps ts r inv i
    by (simp add: db' promotion_inv_def newPromotion_def)
  moreover have "stored_ok db' x" if "x \<in> set (promotions db)" for x
  proof -
    have x: "pm_id x \<noteq> ?i" "stored_ok db x" using that inv fresh by (auto simp: promotion_inv_def)
    then show ?thesis
      using filter_owner [of ps pp_promotion ?i "pm_id x" "\<lambda>y. pp_tenant y = pm_tenant x"]
        filter_owner [of ts pt_promotion ?i "pm_id x" "\<lambda>y. pt_tenant y = pm_tenant x"] owners towners
      by (subst stored_ok_cong [of db' db x]) (simp_all add: db')
  qed
  ultimately show ?thesis
    using inv fresh in' owners towners i(1) unfolding promotion_inv_def by (auto simp: db')
qed

section \<open>Updating\<close>

definition promotionVersion :: "id \<Rightarrow> id \<Rightarrow> trade_db \<Rightarrow> nat option" where
  "promotionVersion t i db = map_option pm_version (List.find (\<lambda>r. pm_id r = i \<and> pm_tenant r = t) (promotions db))"

lemma findPromotion_None: "findPromotion t i db = None \<longleftrightarrow> promotionVersion t i db = None"
proof -
  have "promotionRows t (Some i) db = [] \<longleftrightarrow> List.find (\<lambda>r. pm_id r = i \<and> pm_tenant r = t) (promotions db) = None"
    unfolding promotionRows_def set_empty [symmetric] by (auto simp: find_None_iff)
  then show ?thesis by (auto simp: findPromotion_def promotionVersion_def split: list.splits)
qed

lemma promotionVersion_iff:
  assumes "distinct (map pm_id (promotions db))"
  shows "promotionVersion t i db = Some v \<longleftrightarrow> (\<exists>r\<in>set (promotions db). pm_id r = i \<and> pm_tenant r = t \<and> pm_version r = v)"
proof
  assume "\<exists>r\<in>set (promotions db). pm_id r = i \<and> pm_tenant r = t \<and> pm_version r = v"
  then obtain r where r: "r \<in> set (promotions db)" "pm_id r = i" "pm_tenant r = t" "pm_version r = v" by blast
  then have "List.find (\<lambda>r. pm_id r = i \<and> pm_tenant r = t) (promotions db) = Some r"
    by (intro find_unique_key [OF assms]) auto
  then show "promotionVersion t i db = Some v" using r by (simp add: promotionVersion_def)
qed (auto simp: promotionVersion_def dest: find_Some_props)

text \<open>A refused update changes nothing.\<close>

lemma updatePromotion_refused:
  assumes "updatePromotion t i v dto db = Inr (outcome, db')" "outcome = Conflict \<or> outcome = Missing"
    and "distinct (map pm_id (promotions db))"
  shows "db' = db" "promotionVersion t i db \<noteq> Some v" "outcome = Missing \<longleftrightarrow> promotionVersion t i db = None"
proof -
  have "db' = db \<and> \<not> (\<exists>r\<in>set (promotions db). pm_id r = i \<and> pm_tenant r = t \<and> pm_version r = v) \<and>
      (outcome = Missing \<longleftrightarrow> findPromotion t i db = None)"
    using assms(1,2) by (auto simp: updatePromotion_def runM validatePromotion_Inr filter_empty_conv split: if_splits)
  then show "db' = db" "promotionVersion t i db \<noteq> Some v" "outcome = Missing \<longleftrightarrow> promotionVersion t i db = None"
    by (simp_all add: promotionVersion_iff [OF assms(3)] findPromotion_None)
qed

text \<open>A successful one replaces the row, its products and its tiers.\<close>

lemma updatePromotion_Updated:
  assumes "updatePromotion t i v dto db = Inr (Updated d, db')"
  obtains ps ts n r now where "validatePromotion t dto db = Inr ((), db)" "ticks db \<le> n"
    "r \<in> set (promotions db)" "pm_id r = i" "pm_tenant r = t" "pm_version r = v" "promotion_check (updatedPromotion dto now r)"
    "db' = db\<lparr>ticks := n,
       promotions := update_where (\<lambda>r. pm_id r = i \<and> pm_tenant r = t \<and> pm_version r = v) (updatedPromotion dto now) (promotions db),
       promotion_products := filter (\<lambda>r. \<not> (pp_tenant r = t \<and> pp_promotion r = i)) (promotion_products db) @ ps,
       promotion_tiers := filter (\<lambda>r. \<not> (pt_tenant r = t \<and> pt_promotion r = i)) (promotion_tiers db) @ ts\<rparr>"
    "added_products t i dto ps" "added_tiers t i dto ts" "d = findPromotion t i db'"
proof -
  define now where "now = env_clock db (ticks db)"
  define hit where "hit = filter (\<lambda>r. pm_id r = i \<and> pm_tenant r = t \<and> pm_version r = v) (promotions db)"
  let ?db1 = "db\<lparr>promotions := update_where (\<lambda>r. pm_id r = i \<and> pm_tenant r = t \<and> pm_version r = v) (updatedPromotion dto now) (promotions db),
       promotion_products := filter (\<lambda>r. \<not> (pp_tenant r = t \<and> pp_promotion r = i)) (promotion_products db),
       promotion_tiers := filter (\<lambda>r. \<not> (pt_tenant r = t \<and> pt_promotion r = i)) (promotion_tiers db)\<rparr>"
  have v: "validatePromotion t dto db = Inr ((), db)" and hits: "hit \<noteq> []" "\<forall>r\<in>set hit. promotion_check (updatedPromotion dto now r)"
    and run: "replaceRules t i dto ?db1 = Inr ((), db')" and d: "d = findPromotion t i db'"
    using assms by (auto simp: updatePromotion_def runM validatePromotion_Inr now_def hit_def split: if_splits)
  obtain r where "r \<in> set hit" using hits(1) by (cases hit) auto
  then have r: "r \<in> set (promotions db)" "pm_id r = i" "pm_tenant r = t" "pm_version r = v" "promotion_check (updatedPromotion dto now r)"
    using hits(2) by (auto simp: hit_def)
  from replaceRules_adds [OF run] obtain ps ts n where n: "ticks ?db1 \<le> n"
    and db': "db' = ?db1\<lparr>ticks := n, promotion_products := promotion_products ?db1 @ ps, promotion_tiers := promotion_tiers ?db1 @ ts\<rparr>"
    and rows: "added_products t i dto ps" "added_tiers t i dto ts" by blast
  have "ticks db \<le> n" using n by simp
  moreover have "db' = db\<lparr>ticks := n,
       promotions := update_where (\<lambda>r. pm_id r = i \<and> pm_tenant r = t \<and> pm_version r = v) (updatedPromotion dto now) (promotions db),
       promotion_products := filter (\<lambda>r. \<not> (pp_tenant r = t \<and> pp_promotion r = i)) (promotion_products db) @ ps,
       promotion_tiers := filter (\<lambda>r. \<not> (pt_tenant r = t \<and> pt_promotion r = i)) (promotion_tiers db) @ ts\<rparr>"
    unfolding db' by (cases db) simp
  ultimately show thesis by (rule that [OF v _ r _ rows d])
qed

lemma updatedPromotion_key [simp]:
  "pm_id (updatedPromotion dto now r) = pm_id r" "pm_tenant (updatedPromotion dto now r) = pm_tenant r"
  "pm_version (updatedPromotion dto now r) = Suc (pm_version r)"
  by (simp_all add: updatedPromotion_def)

lemma updatePromotion_inv:
  assumes inv: "promotion_inv db" and run: "updatePromotion t i v dto db = Inr (Updated d, db')"
  shows "promotion_inv db' \<and> promotionVersion t i db = Some v \<and> promotionVersion t i db' = Some (Suc v)"
proof -
  from run obtain ps ts n r now where valid: "validatePromotion t dto db = Inr ((), db)" and n: "ticks db \<le> n"
    and r: "r \<in> set (promotions db)" "pm_id r = i" "pm_tenant r = t" "pm_version r = v" "promotion_check (updatedPromotion dto now r)"
    and db': "db' = db\<lparr>ticks := n,
       promotions := update_where (\<lambda>r. pm_id r = i \<and> pm_tenant r = t \<and> pm_version r = v) (updatedPromotion dto now) (promotions db),
       promotion_products := filter (\<lambda>r. \<not> (pp_tenant r = t \<and> pp_promotion r = i)) (promotion_products db) @ ps,
       promotion_tiers := filter (\<lambda>r. \<not> (pt_tenant r = t \<and> pt_promotion r = i)) (promotion_tiers db) @ ts\<rparr>"
    and ps: "added_products t i dto ps" and ts: "added_tiers t i dto ts"
    by (rule updatePromotion_Updated)
  let ?new = "updatedPromotion dto now r"
  have d: "distinct (map pm_id (promotions db))" using inv by (simp add: promotion_inv_def)
  have only: "x = r" if "x \<in> set (promotions db)" "pm_id x = i" for x
    using distinct_map_key_inj [OF d that(1) r(1)] that(2) r(2) by simp
  have rows: "x = ?new \<or> x \<in> set (promotions db) \<and> pm_id x \<noteq> i" if "x \<in> set (promotions db')" for x
  proof -
    obtain y where y: "y \<in> set (promotions db)"
      "x = (if pm_id y = i \<and> pm_tenant y = t \<and> pm_version y = v then updatedPromotion dto now y else y)"
      using \<open>x \<in> _\<close> by (auto simp: db' set_update_where)
    then show ?thesis using only [OF y(1)] r by (cases "pm_id y = i") simp_all
  qed
  have "?new \<in> (\<lambda>x. if pm_id x = i \<and> pm_tenant x = t \<and> pm_version x = v then updatedPromotion dto now x else x) ` set (promotions db)"
    using r by (intro image_eqI [of _ _ r]) simp_all
  then have newin: "?new \<in> set (promotions db')" by (simp add: db' set_update_where)
  have mine: "filter (\<lambda>x. pp_tenant x = t \<and> pp_promotion x = i) (promotion_products db') = ps"
    "filter (\<lambda>x. pt_tenant x = t \<and> pt_promotion x = i) (promotion_tiers db') = ts"
    using ps ts by (auto simp: db' filter_empty_conv filter_id_conv added_products_def added_tiers_def)
  have ids: "map pm_id (promotions db') = map pm_id (promotions db)" by (simp add: db')
  have "stored_ok db' ?new"
    by (rule stored_ok_new [OF valid _ _ mine(1) ps mine(2) ts])
      (use inv r in \<open>simp_all add: db' promotion_inv_def updatedPromotion_def\<close>)
  moreover have "stored_ok db' x" if "x \<in> set (promotions db)" "pm_id x \<noteq> i" for x
  proof -
    have "filter (\<lambda>y. pp_tenant y = pm_tenant x \<and> pp_promotion y = pm_id x) ps = []"
      "filter (\<lambda>y. pt_tenant y = pm_tenant x \<and> pt_promotion y = pm_id x) ts = []"
      using ps ts that(2) by (auto simp: filter_empty_conv added_products_def added_tiers_def)
    then have "stored_ok db' x = stored_ok db x"
      using that(2) by (intro stored_ok_cong) (auto simp: db' intro!: filter_cong)
    then show ?thesis using inv that(1) by (simp add: promotion_inv_def)
  qed
  ultimately have ok: "\<forall>x\<in>set (promotions db'). stored_ok db' x" using rows by blast
  have "i \<in> drawn_ids db" using inv r by (auto simp: promotion_inv_def)
  then have "pp_promotion ` set (promotion_products db') \<subseteq> drawn_ids db" "pt_promotion ` set (promotion_tiers db') \<subseteq> drawn_ids db"
    using inv ps ts by (auto simp: db' promotion_inv_def added_products_def added_tiers_def)
  moreover have "pm_id ` set (promotions db') \<subseteq> drawn_ids db"
    using inv arg_cong [OF ids, of set] by (simp add: promotion_inv_def)
  moreover have "drawn_ids db \<subseteq> drawn_ids db'" using n by (auto simp: db' drawn_ids_def)
  ultimately have "promotion_inv db'"
    using inv ok ids unfolding promotion_inv_def by (auto simp: db')
  moreover have "promotionVersion t i db = Some v" using r by (auto simp: promotionVersion_iff [OF d])
  moreover have "promotionVersion t i db' = Some (Suc v)"
    using newin r by (subst promotionVersion_iff) (auto simp: ids d intro!: bexI [OF _ newin])
  ultimately show ?thesis by blast
qed

interpretation promotion_updates: versioned promotion_inv "promotionVersion t i" "updatePromotion t i" for t i
proof unfold_locales
  fix db v r db' and d :: promotion_dto
  assume inv: "promotion_inv db"
  note refused = updatePromotion_refused [OF _ _ conjunct1 [OF conjunct2 [OF conjunct2 [OF inv [unfolded promotion_inv_def]]]]]
  show "promotionVersion t i db = Some v \<and> promotionVersion t i db' = Some (Suc v) \<and> promotion_inv db'"
    if "updatePromotion t i v d db = Inr (Updated r, db')"
    using updatePromotion_inv [OF inv that] by blast
  show "db' = db \<and> promotionVersion t i db \<noteq> Some v" if "updatePromotion t i v d db = Inr (Conflict, db')"
    using refused [OF that] by blast
  show "db' = db \<and> promotionVersion t i db = None" if "updatePromotion t i v d db = Inr (Missing, db')"
    using refused [OF that] by blast
qed

end
