(* ===== verification/PriceListLaws.thy ===== *)
theory PriceListLaws
  imports PromotionStoreLaws
begin

text \<open>
  Price lists: \<open>resolve\<close> picks for every product the price of the list that comes first in the
  order of precedence, and an update with the current version replaces the items of its list and
  nothing else.
\<close>

section \<open>Resolution\<close>

lemma firstPrices_find:
  "map_of (firstPrices rows) p = map_option priceOf (List.find (\<lambda>x. pi_product (fst x) = p) rows)"
proof -
  have "map_of (fold (\<lambda>x resolved. if map_of resolved (pi_product (fst x)) \<noteq> None then resolved
        else resolved @ [(pi_product (fst x), priceOf x)]) rows m) p
      = (case map_of m p of Some r \<Rightarrow> Some r | None \<Rightarrow> map_option priceOf (List.find (\<lambda>x. pi_product (fst x) = p) rows))" for m
    by (induction rows arbitrary: m) (auto simp: map_add_def split: option.splits)
  then show ?thesis by (simp add: firstPrices_def)
qed

lemma sorted_find_least:
  assumes "sorted (map key xs)" "List.find P xs = Some x" "y \<in> set xs" "P y"
  shows "key x \<le> key y"
  using assms by (induction xs) (auto split: if_splits)

lemma resolvePrices_least:
  assumes "map_of (resolvePrices t branch customer channel currency ps now db) p = Some r"
  shows "\<exists>i l. (i, l) \<in> set (priceCandidates t branch customer channel currency ps now db) \<and> pi_product i = p \<and> r = priceOf (i, l) \<and>
    (\<forall>i' l'. (i', l') \<in> set (priceCandidates t branch customer channel currency ps now db) \<longrightarrow> pi_product i' = p \<longrightarrow>
       precedence l \<le> precedence l')"
proof -
  let ?key = "\<lambda>x. (pi_product (fst x), precedence (snd x))"
  let ?rows = "sort_key ?key (priceCandidates t branch customer channel currency ps now db)"
  have "resolvePrices t branch customer channel currency ps now db = (if ps = [] then [] else firstPrices ?rows)"
    by (simp add: resolvePrices_def case_prod_beta')
  then obtain x where x: "List.find (\<lambda>x. pi_product (fst x) = p) ?rows = Some x" "r = priceOf x"
    using assms by (auto simp: firstPrices_find split: if_splits)
  have "?key x \<le> ?key y" if "y \<in> set ?rows" "pi_product (fst y) = p" for y
    by (rule sorted_find_least [OF _ x(1) that(1)]) (simp_all add: that(2))
  then show ?thesis
    using x find_Some_props [OF x(1)] by (cases x) (fastforce simp: less_eq_prod_simp)
qed

lemma resolvePrices_None:
  assumes "map_of (resolvePrices t branch customer channel currency ps now db) p = None"
    and "(i, l) \<in> set (priceCandidates t branch customer channel currency ps now db)"
  shows "pi_product i \<noteq> p"
proof -
  let ?rows = "sort_key (\<lambda>(i, l). (pi_product i, precedence l)) (priceCandidates t branch customer channel currency ps now db)"
  have "ps \<noteq> []" using assms(2) by (auto simp: priceCandidates_def)
  then have "List.find (\<lambda>x. pi_product (fst x) = p) ?rows = None"
    using assms(1) by (simp add: resolvePrices_def firstPrices_find)
  then have "pi_product (fst x) \<noteq> p" if "x \<in> set ?rows" for x
    using that by (rule find_None_props)
  from this [of "(i, l)"] show ?thesis using assms(2) by simp
qed

lemma priceCandidates_iff:
  "(i, l) \<in> set (priceCandidates t branch customer channel currency ps now db) \<longleftrightarrow>
     i \<in> set (price_items db) \<and> l \<in> set (price_lists db) \<and> pl_id l = pi_list i \<and> pl_tenant l = pi_tenant i \<and>
     eligibleList t branch customer channel currency now l \<and> pi_product i \<in> set ps"
  by (auto simp: priceCandidates_def)

section \<open>Updates\<close>

definition priceListVersion :: "id \<Rightarrow> id \<Rightarrow> trade_db \<Rightarrow> nat option" where
  "priceListVersion t i db = map_option pl_version (List.find (\<lambda>r. pl_id r = i \<and> pl_tenant r = t) (price_lists db))"

definition price_list_inv :: "trade_db \<Rightarrow> bool" where
  "price_list_inv db \<longleftrightarrow> distinct (map pl_id (price_lists db)) \<and>
     (\<forall>x\<in>set (price_items db). 0 < pi_price x) \<and>
     distinct (map (\<lambda>x. (pi_tenant x, pi_list x, pi_product x)) (price_items db))"

lemma findPriceList_None: "findPriceList t i db = None \<longleftrightarrow> priceListVersion t i db = None"
proof -
  have "priceListRows t (Some i) db = [] \<longleftrightarrow> List.find (\<lambda>r. pl_id r = i \<and> pl_tenant r = t) (price_lists db) = None"
    unfolding priceListRows_def set_empty [symmetric] by (auto simp: find_None_iff)
  then show ?thesis by (auto simp: findPriceList_def priceListVersion_def split: list.splits)
qed

lemma priceListVersion_iff:
  assumes "distinct (map pl_id (price_lists db))"
  shows "priceListVersion t i db = Some v \<longleftrightarrow> (\<exists>r\<in>set (price_lists db). pl_id r = i \<and> pl_tenant r = t \<and> pl_version r = v)"
proof
  assume "\<exists>r\<in>set (price_lists db). pl_id r = i \<and> pl_tenant r = t \<and> pl_version r = v"
  then obtain r where r: "r \<in> set (price_lists db)" "pl_id r = i" "pl_tenant r = t" "pl_version r = v" by blast
  then have "List.find (\<lambda>r. pl_id r = i \<and> pl_tenant r = t) (price_lists db) = Some r"
    by (intro find_unique_key [OF assms]) auto
  then show "priceListVersion t i db = Some v" using r by (simp add: priceListVersion_def)
qed (auto simp: priceListVersion_def dest: find_Some_props)

lemma assertPriceReferences_Inr: "assertPriceReferences t dto db = Inr ((), db') \<Longrightarrow> db' = db"
  by (auto simp: assertPriceReferences_def runM)

lemma updatePriceList_refused:
  assumes "updatePriceList t i v dto db = Inr (outcome, db')" "outcome = Conflict \<or> outcome = Missing"
    and "distinct (map pl_id (price_lists db))"
  shows "db' = db" "priceListVersion t i db \<noteq> Some v" "outcome = Missing \<longleftrightarrow> priceListVersion t i db = None"
proof -
  have "db' = db \<and> \<not> (\<exists>r\<in>set (price_lists db). pl_id r = i \<and> pl_tenant r = t \<and> pl_version r = v) \<and>
      (outcome = Missing \<longleftrightarrow> findPriceList t i db = None)"
    using assms(1,2) by (auto simp: updatePriceList_def runM filter_empty_conv dest!: assertPriceReferences_Inr split: if_splits)
  then show "db' = db" "priceListVersion t i db \<noteq> Some v" "outcome = Missing \<longleftrightarrow> priceListVersion t i db = None"
    by (simp_all add: priceListVersion_iff [OF assms(3)] findPriceList_None)
qed

text \<open>The items that a request adds.\<close>

definition added_items :: "id \<Rightarrow> id \<Rightarrow> (id \<times> int) list \<Rightarrow> price_item_row list \<Rightarrow> bool" where
  "added_items t i items xs \<longleftrightarrow> map (\<lambda>x. (pi_product x, pi_price x)) xs = items \<and>
     (\<forall>x\<in>set xs. pi_tenant x = t \<and> pi_list x = i \<and> 0 < pi_price x) \<and> distinct (map pi_product xs)"

lemma replaceItems_adds:
  assumes "replaceItems t i items db = Inr ((), db')"
  obtains xs n where "ticks db \<le> n" "db' = db\<lparr>ticks := n, price_items := price_items db @ xs\<rparr>" "added_items t i items xs"
    "\<forall>x\<in>set xs. \<forall>y\<in>set (price_items db). \<not> (pi_tenant y = pi_tenant x \<and> pi_list y = pi_list x \<and> pi_product y = pi_product x)"
proof -
  have run: "forM (itemRow t i) items db = Inr ((), db')"
    using assms by (auto simp: replaceItems_def runM)
  obtain xs where xs: "db' = (price_items_update (\<lambda>old. old @ xs) db)\<lparr>ticks := ticks db + length items\<rparr>"
    "list_all2 (\<lambda>r x. \<exists>j. r = (\<lambda>(p, price). \<lparr>pi_id = j, pi_tenant = t, pi_list = i, pi_product = p, pi_price = price\<rparr>) x) xs items"
    "\<forall>r\<in>set xs. 0 < pi_price r \<and> (\<forall>y\<in>set (price_items db). \<not> (pi_tenant y = pi_tenant r \<and> pi_list y = pi_list r \<and> pi_product y = pi_product r))"
    "sorted_wrt (\<lambda>x y. \<not> (pi_tenant x = pi_tenant y \<and> pi_list x = pi_list y \<and> pi_product x = pi_product y)) xs"
    using items.statement_adds [OF run [unfolded itemRows_statement]] by blast
  have mine: "map (\<lambda>x. (pi_product x, pi_price x)) xs = items \<and> (\<forall>x\<in>set xs. pi_tenant x = t \<and> pi_list x = i)"
    using xs(2) by (induction rule: list_all2_induct) auto
  have "distinct (map pi_product ys)"
    if "sorted_wrt (\<lambda>x y. \<not> (pi_tenant x = pi_tenant y \<and> pi_list x = pi_list y \<and> pi_product x = pi_product y)) ys"
      "\<forall>x\<in>set ys. pi_tenant x = t \<and> pi_list x = i" for ys :: "price_item_row list"
    using that by (induction ys) auto
  then have "added_items t i items xs" using mine xs(3,4) by (simp add: added_items_def)
  moreover have "db' = db\<lparr>ticks := ticks db + length items, price_items := price_items db @ xs\<rparr>"
    unfolding xs(1) by (cases db) simp
  ultimately show thesis using xs(3) by (intro that [of "ticks db + length items" xs]) simp_all
qed

lemma updatePriceList_Updated:
  assumes "updatePriceList t i v dto db = Inr (Updated d, db')"
  obtains xs n r now where "r \<in> set (price_lists db)" "pl_id r = i" "pl_tenant r = t" "pl_version r = v"
    "db' = db\<lparr>ticks := n,
       price_lists := update_where (\<lambda>r. pl_id r = i \<and> pl_tenant r = t \<and> pl_version r = v) (updatedPriceList dto now) (price_lists db),
       price_items := filter (\<lambda>r. \<not> (pi_tenant r = t \<and> pi_list r = i)) (price_items db) @ xs\<rparr>"
    "added_items t i (dl_items dto) xs" "d = findPriceList t i db'"
proof -
  define now where "now = env_clock db (ticks db)"
  define hit where "hit = filter (\<lambda>r. pl_id r = i \<and> pl_tenant r = t \<and> pl_version r = v) (price_lists db)"
  let ?db1 = "db\<lparr>price_lists := update_where (\<lambda>r. pl_id r = i \<and> pl_tenant r = t \<and> pl_version r = v) (updatedPriceList dto now) (price_lists db),
       price_items := filter (\<lambda>r. \<not> (pi_tenant r = t \<and> pi_list r = i)) (price_items db)\<rparr>"
  have hits: "hit \<noteq> []" and run: "replaceItems t i (dl_items dto) ?db1 = Inr ((), db')" and d: "d = findPriceList t i db'"
    using assms by (auto simp: updatePriceList_def runM now_def hit_def dest!: assertPriceReferences_Inr split: if_splits)
  obtain r where "r \<in> set hit" using hits(1) by (cases hit) auto
  then have r: "r \<in> set (price_lists db)" "pl_id r = i" "pl_tenant r = t" "pl_version r = v"
    by (auto simp: hit_def)
  from replaceItems_adds [OF run] obtain xs n where
    db': "db' = ?db1\<lparr>ticks := n, price_items := price_items ?db1 @ xs\<rparr>" and xs: "added_items t i (dl_items dto) xs" by blast
  have "db' = db\<lparr>ticks := n,
       price_lists := update_where (\<lambda>r. pl_id r = i \<and> pl_tenant r = t \<and> pl_version r = v) (updatedPriceList dto now) (price_lists db),
       price_items := filter (\<lambda>r. \<not> (pi_tenant r = t \<and> pi_list r = i)) (price_items db) @ xs\<rparr>"
    unfolding db' by (cases db) simp
  then show thesis by (rule that [OF r _ xs d])
qed

lemma updatedPriceList_key [simp]:
  "pl_id (updatedPriceList dto now r) = pl_id r" "pl_tenant (updatedPriceList dto now r) = pl_tenant r"
  "pl_version (updatedPriceList dto now r) = Suc (pl_version r)"
  by (simp_all add: updatedPriceList_def)

lemma updatePriceList_inv:
  assumes inv: "price_list_inv db" and run: "updatePriceList t i v dto db = Inr (Updated d, db')"
  shows "price_list_inv db' \<and> priceListVersion t i db = Some v \<and> priceListVersion t i db' = Some (Suc v)"
proof -
  from run obtain xs n r now where r: "r \<in> set (price_lists db)" "pl_id r = i" "pl_tenant r = t" "pl_version r = v"
    and db': "db' = db\<lparr>ticks := n,
       price_lists := update_where (\<lambda>r. pl_id r = i \<and> pl_tenant r = t \<and> pl_version r = v) (updatedPriceList dto now) (price_lists db),
       price_items := filter (\<lambda>r. \<not> (pi_tenant r = t \<and> pi_list r = i)) (price_items db) @ xs\<rparr>"
    and xs: "added_items t i (dl_items dto) xs"
    by (rule updatePriceList_Updated)
  have d: "distinct (map pl_id (price_lists db))" using inv by (simp add: price_list_inv_def)
  have ids: "map pl_id (price_lists db') = map pl_id (price_lists db)" by (simp add: db')
  have "updatedPriceList dto now r \<in> (\<lambda>x. if pl_id x = i \<and> pl_tenant x = t \<and> pl_version x = v then updatedPriceList dto now x else x) ` set (price_lists db)"
    using r by (intro image_eqI [of _ _ r]) simp_all
  then have new: "updatedPriceList dto now r \<in> set (price_lists db')" by (simp add: db' set_update_where)
  have old: "distinct (map (\<lambda>x. (pi_tenant x, pi_list x, pi_product x)) (filter (\<lambda>x. \<not> (pi_tenant x = t \<and> pi_list x = i)) (price_items db)))"
    using inv by (simp add: price_list_inv_def distinct_map_filter)
  have "map (\<lambda>x. (pi_tenant x, pi_list x, pi_product x)) xs = map (\<lambda>p. (t, i, p)) (map pi_product xs)"
    using xs by (auto simp: added_items_def)
  then have "distinct (map (\<lambda>x. (pi_tenant x, pi_list x, pi_product x)) xs)"
    using xs by (auto simp: added_items_def distinct_map inj_on_def)
  then have "distinct (map (\<lambda>x. (pi_tenant x, pi_list x, pi_product x)) (price_items db'))"
    using old xs by (auto simp: db' added_items_def)
  then have "price_list_inv db'"
    using inv xs ids by (auto simp: price_list_inv_def db' added_items_def)
  moreover have "priceListVersion t i db = Some v" using r by (auto simp: priceListVersion_iff [OF d])
  moreover have "priceListVersion t i db' = Some (Suc v)"
    using r by (subst priceListVersion_iff) (auto simp: ids d intro!: bexI [OF _ new])
  ultimately show ?thesis by blast
qed

interpretation price_updates: versioned price_list_inv "priceListVersion t i" "updatePriceList t i" for t i
proof unfold_locales
  fix db v r db' and d :: price_list_dto
  assume inv: "price_list_inv db"
  note refused = updatePriceList_refused [OF _ _ conjunct1 [OF inv [unfolded price_list_inv_def]]]
  show "priceListVersion t i db = Some v \<and> priceListVersion t i db' = Some (Suc v) \<and> price_list_inv db'"
    if "updatePriceList t i v d db = Inr (Updated r, db')"
    using updatePriceList_inv [OF inv that] by blast
  show "db' = db \<and> priceListVersion t i db \<noteq> Some v" if "updatePriceList t i v d db = Inr (Conflict, db')"
    using refused [OF that] by blast
  show "db' = db \<and> priceListVersion t i db = None" if "updatePriceList t i v d db = Inr (Missing, db')"
    using refused [OF that] by blast
qed

end
