(* ===== verification/TradeFixtures.thy ===== *)
theory TradeFixtures
  imports TradeSchema Fixtures
begin

text \<open>The company of \<open>Fixtures\<close> with a second and a third product, one cash register and empty
  selling tables, for the witnesses of the selling side.\<close>

definition secondProduct :: product_row where
  "secondProduct = sampleProduct\<lparr>pr_id := 8, pr_name := ''Other'', pr_sku := ''P-8'', pr_price := 500\<rparr>"

definition thirdProduct :: product_row where
  "thirdProduct = sampleProduct\<lparr>pr_id := 9, pr_name := ''Third'', pr_sku := ''P-9'', pr_price := 1, pr_exempt := True\<rparr>"

definition sampleTrade :: trade_db where
  "sampleTrade =
    \<lparr>env_uuid = (\<lambda>n. 60 + n), env_clock = (\<lambda>n. n),
     env_local_date = (\<lambda>_ _. ''2026-01-15''), ticks = 0, tenants = [sampleTenant],
     products = [sampleProduct, secondProduct, thirdProduct],
     branches = [\<lparr>br_id = 1, br_tenant = 1, br_active = True, br_timezone = ''Z'', br_name = ''M''\<rparr>],
     warehouses = [\<lparr>wh_id = 2, wh_tenant = 1, wh_branch = 1, wh_active = True, wh_name = ''S''\<rparr>],
     locations = [\<lparr>lo_id = 3, lo_tenant = 1, lo_warehouse = 2, lo_active = True\<rparr>],
     movements = [], balances = [], valuations = [], policies = [], guards = [], cutovers = [],
     layers = [], allocs = [], lots = [], lot_balances = [], movement_lots = [], lot_origins = [],
     serials = [], serial_events = [], purchase_orders = [], purchase_receipts = [], receipt_lines = [],
     return_lines = [], sale_return_lines = [], counts = [], admin_users = [], branch_access = [], transfers = [], transfer_lines = [],
     transfer_receipts = [], transfer_receipt_lines = [],
     customers = [\<lparr>cu_id = 20, cu_tenant = 1, cu_active = True, cu_name = ''Client'', cu_privacy_active = True\<rparr>],
     reservations = [], reservation_lines = [], recon_runs = [], recon_findings = [],
     users = [\<lparr>us_id = 9, us_tenant = 1, us_email = ''user''\<rparr>],
     price_lists = [], price_items = [], promotions = [], promotion_products = [], promotion_tiers = [], kits = [], kit_components = [],
     cash_registers = [\<lparr>cr_id = 30, cr_tenant = 1, cr_branch = 1, cr_name = ''Till'', cr_code = ''T1''\<rparr>],
     shifts = [], cash_movements = [], sales = [], sale_payments = [], sale_returns = [], settlements = [], customer_credits = [],
     loyalty_rules = [], loyalty_entries = [], loyalty_allocations = []\<rparr>"

end
