(* ===== verification/PricingTheorems.thy ===== *)
theory PricingTheorems
  imports PriceListLaws TradeFixtures
begin

text \<open>The properties of prices and promotions.\<close>

section \<open>Price lists\<close>

definition outranks :: "price_list_row \<Rightarrow> price_list_row \<Rightarrow> bool" where
  "outranks l l' \<longleftrightarrow> precedence l \<le> precedence l'"

lemma outranks_iff:
  "outranks l l' \<longleftrightarrow>
     pl_priority l' < pl_priority l \<or> pl_priority l' = pl_priority l \<and>
       (specificity (pl_branch l') (pl_customer l') (pl_channel l') < specificity (pl_branch l) (pl_customer l) (pl_channel l) \<or>
        specificity (pl_branch l') (pl_customer l') (pl_channel l') = specificity (pl_branch l) (pl_customer l) (pl_channel l) \<and>
          (pl_valid_from l' < pl_valid_from l \<or> pl_valid_from l' = pl_valid_from l \<and> pl_id l \<le> pl_id l'))"
  by (auto simp: outranks_def precedence_def less_eq_prod_simp)

definition listsProduct :: "id \<Rightarrow> price_item_row \<Rightarrow> price_list_row \<Rightarrow> trade_db \<Rightarrow> bool" where
  "listsProduct p i l db \<longleftrightarrow>
     i \<in> set (price_items db) \<and> l \<in> set (price_lists db) \<and> pi_list i = pl_id l \<and> pi_tenant i = pl_tenant l \<and> pi_product i = p"

text \<open>C31: The price of a product in a cart is the one of the applicable price list (same tenant and
  currency, active, within its validity, and matching or not naming the branch, the customer and
  the channel) that comes first: the highest priority, then the most specific scope, then the latest
  start of validity, then the least id. A product without a price in the result is in no applicable
  list.\<close>

theorem resolvePrices_precedence:
  assumes "p \<in> set ps"
  shows "case map_of (resolvePrices t branch customer channel currency ps now db) p of
     None \<Rightarrow> \<forall>i l. listsProduct p i l db \<longrightarrow> \<not> eligibleList t branch customer channel currency now l
   | Some r \<Rightarrow> \<exists>i l. listsProduct p i l db \<and> eligibleList t branch customer channel currency now l \<and>
       r = \<lparr>rp_price = pi_price i, rp_list = pl_id l, rp_list_name = pl_name l\<rparr> \<and>
       (\<forall>i' l'. listsProduct p i' l' db \<longrightarrow> eligibleList t branch customer channel currency now l' \<longrightarrow>
          pl_priority l' < pl_priority l \<or> pl_priority l' = pl_priority l \<and>
            (specificity (pl_branch l') (pl_customer l') (pl_channel l') < specificity (pl_branch l) (pl_customer l) (pl_channel l) \<or>
             specificity (pl_branch l') (pl_customer l') (pl_channel l') = specificity (pl_branch l) (pl_customer l) (pl_channel l) \<and>
               (pl_valid_from l' < pl_valid_from l \<or> pl_valid_from l' = pl_valid_from l \<and> pl_id l \<le> pl_id l')))"
proof (cases "map_of (resolvePrices t branch customer channel currency ps now db) p")
  case None
  then show ?thesis
    using resolvePrices_None [OF None] assms by (fastforce simp: priceCandidates_iff listsProduct_def)
next
  case (Some r)
  from resolvePrices_least [OF Some] obtain i l where
    il: "(i, l) \<in> set (priceCandidates t branch customer channel currency ps now db)" "pi_product i = p" "r = priceOf (i, l)"
    and least: "\<And>i' l'. (i', l') \<in> set (priceCandidates t branch customer channel currency ps now db) \<Longrightarrow> pi_product i' = p \<Longrightarrow> outranks l l'"
    unfolding outranks_def by blast
  have best: "outranks l l'" if "listsProduct p i' l' db" "eligibleList t branch customer channel currency now l'" for i' l'
    using that assms by (intro least [of i']) (auto simp: priceCandidates_iff listsProduct_def)
  have "listsProduct p i l db \<and> eligibleList t branch customer channel currency now l \<and>
      r = \<lparr>rp_price = pi_price i, rp_list = pl_id l, rp_list_name = pl_name l\<rparr>"
    using il by (auto simp: priceCandidates_iff listsProduct_def priceOf_def)
  then show ?thesis
    unfolding Some option.case using best [unfolded outranks_iff] by blast
qed

definition generalList :: price_list_row where
  "generalList = \<lparr>pl_id = 60, pl_tenant = 1, pl_name = ''General'', pl_currency = ''CLP'', pl_branch = None, pl_customer = None,
     pl_channel = None, pl_priority = 0, pl_valid_from = 0, pl_valid_to = None, pl_active = True, pl_version = 1,
     pl_created_at = 0, pl_updated_at = 0\<rparr>"

definition priceTrade :: trade_db where
  "priceTrade = sampleTrade\<lparr>price_lists := [generalList, generalList\<lparr>pl_id := 61, pl_name := ''Branch'', pl_branch := Some 1\<rparr>],
     price_items := [\<lparr>pi_id = 70, pi_tenant = 1, pi_list = 60, pi_product = 7, pi_price = 900\<rparr>,
       \<lparr>pi_id = 71, pi_tenant = 1, pi_list = 61, pi_product = 7, pi_price = 850\<rparr>]\<rparr>"

lemma priceTrade_resolved:
  "map_of (resolvePrices 1 1 None ChannelPos ''CLP'' [7, 8] 5 priceTrade) 7 = Some \<lparr>rp_price = 850, rp_list = 61, rp_list_name = ''Branch''\<rparr>"
  by code_simp

theorem resolvePrices_precedence_witness:
  "map_of (resolvePrices 1 1 None ChannelPos ''CLP'' [7, 8] 5 priceTrade) 7 = Some \<lparr>rp_price = 850, rp_list = 61, rp_list_name = ''Branch''\<rparr> \<and>
   (\<exists>i l. listsProduct 7 i l priceTrade \<and> eligibleList 1 1 None ChannelPos ''CLP'' 5 l \<and> pl_id l = 61)"
proof
  show run: "map_of (resolvePrices 1 1 None ChannelPos ''CLP'' [7, 8] 5 priceTrade) 7 = Some \<lparr>rp_price = 850, rp_list = 61, rp_list_name = ''Branch''\<rparr>"
    by (rule priceTrade_resolved)
  show "\<exists>i l. listsProduct 7 i l priceTrade \<and> eligibleList 1 1 None ChannelPos ''CLP'' 5 l \<and> pl_id l = 61"
    using resolvePrices_precedence [where p = 7 and ps = "[7, 8]" and t = 1 and branch = 1 and customer = None and channel = ChannelPos
        and currency = "''CLP''" and now = 5 and db = priceTrade]
    unfolding run option.case by (auto simp del: One_nat_def)
qed

section \<open>Optimistic updates\<close>

text \<open>C35: Two people edit the same price list or the same promotion from the same version: once the
  first has saved, saving the second is answered with a conflict and changes nothing.\<close>

theorem no_lost_update:
  "(price_list_inv db \<and> updatePriceList t i v dto db = Inr (Updated r, db1) \<and> updatePriceList t i v dto' db1 = Inr (outcome, db2)
      \<longrightarrow> outcome = Conflict \<and> db2 = db1) \<and>
   (promotion_inv db \<and> updatePromotion t i v pdto db = Inr (Updated q, db1) \<and> updatePromotion t i v pdto' db1 = Inr (poutcome, db2)
      \<longrightarrow> poutcome = Conflict \<and> db2 = db1)"
  using price_updates.second_update_refused promotion_updates.second_update_refused by blast

definition generalDto :: price_list_dto where
  "generalDto = \<lparr>dl_name = ''General'', dl_currency = ''CLP'', dl_branch = None, dl_customer = None, dl_channel = None,
     dl_priority = 0, dl_valid_from = 0, dl_valid_to = None, dl_active = True, dl_items = [(8, 400)]\<rparr>"

lemma generalList_updates:
  "case updatePriceList 1 60 1 generalDto priceTrade of
     Inr (Updated _, db1) \<Rightarrow> (case updatePriceList 1 60 1 generalDto db1 of Inl _ \<Rightarrow> False | Inr _ \<Rightarrow> True) | _ \<Rightarrow> False"
  by code_simp

lemma priceTrade_inv: "price_list_inv priceTrade"
  by (simp add: price_list_inv_def priceTrade_def sampleTrade_def generalList_def)

theorem no_lost_update_witness:
  "\<exists>r db1. updatePriceList 1 60 1 generalDto priceTrade = Inr (Updated r, db1) \<and>
     updatePriceList 1 60 1 generalDto db1 = Inr (Conflict, db1)"
proof -
  obtain x db1 where x: "updatePriceList 1 60 1 generalDto priceTrade = Inr (x, db1)"
    using generalList_updates by (auto simp del: One_nat_def split: sum.splits)
  then obtain r where r: "x = Updated r"
    using generalList_updates by (cases x) (auto simp del: One_nat_def)
  then obtain outcome db2 where run: "updatePriceList 1 60 1 generalDto priceTrade = Inr (Updated r, db1)"
    "updatePriceList 1 60 1 generalDto db1 = Inr (outcome, db2)"
    using generalList_updates x by (cases "updatePriceList 1 60 1 generalDto db1") (auto simp del: One_nat_def)
  then show ?thesis
    using conjunct1 [OF no_lost_update [of priceTrade 1 60 1 generalDto r db1 generalDto outcome db2]] priceTrade_inv by auto
qed

section \<open>Promotions\<close>

text \<open>C34: The promotions that can be stored are the ones the engine can work with: creating and
  updating promotions keeps every stored promotion well formed, and then resolving the promotions of
  any cart returns (no missing field, no missing product, no division by zero).\<close>

theorem stored_promotions_resolve:
  assumes "promotion_inv db"
  shows "(lines_ok lines \<longrightarrow> (\<exists>m. resolvePromotions t branch customer channel now lines db = Inr m)) \<and>
    (createPromotion t dto db = Inr (d, db') \<longrightarrow> promotion_inv db') \<and>
    (updatePromotion t i v dto db = Inr (outcome, db') \<longrightarrow> promotion_inv db')"
proof (intro conjI impI)
  assume lines: "lines_ok lines"
  define found where "found = sort_key (\<lambda>r. (- pm_priority r, - int (specificity (pm_branch r) (pm_customer r) (pm_channel r)),
       - int (pm_valid_from r), pm_id r))
     (filter (applicableRow t branch customer channel now (map ln_product lines) db) (promotions db))"
  have "\<forall>r\<in>set found. pm_tenant r = t \<and> stored_ok db r"
    using assms by (simp add: found_def promotion_inv_def applicableRow_def)
  note ok = hydrate_ok [OF this]
  have "rule_ok r" if "r \<in> set (applicable t branch customer channel now (map ln_product lines) db)" for r
    using that ok by (simp add: applicable_def found_def split: if_splits)
  then show "\<exists>m. resolvePromotions t branch customer channel now lines db = Inr m"
    using resolveRules_inv [OF _ lines, of _ "[]" "[]" "[]" "[]"] by (fastforce simp: resolvePromotions_def loop_inv_def)
next
  show "promotion_inv db'" if "createPromotion t dto db = Inr (d, db')"
    using createPromotion_inv [OF assms that] .
  show "promotion_inv db'" if run: "updatePromotion t i v dto db = Inr (outcome, db')"
  proof (cases outcome)
    case (Updated q)
    then show ?thesis using updatePromotion_inv [OF assms] run by blast
  qed (use promotion_updates.conflict promotion_updates.missing assms run in blast)+
qed

definition comboRow :: promotion_row where
  "comboRow = \<lparr>pm_id = 60, pm_tenant = 1, pm_name = ''Combo'', pm_type = BUNDLE_FIXED, pm_branch = None, pm_customer = None,
     pm_channel = None, pm_priority = 0, pm_stackable = False, pm_valid_from = 0, pm_valid_to = None, pm_active = True,
     pm_percent = None, pm_fixed_price = Some 1500, pm_buy = None, pm_reward = None, pm_version = 1, pm_created_at = 0, pm_updated_at = 0\<rparr>"

definition promotionTrade :: trade_db where
  "promotionTrade = sampleTrade\<lparr>ticks := 3, promotions := [comboRow],
     promotion_products := [\<lparr>pp_id = 61, pp_tenant = 1, pp_promotion = 60, pp_product = 7, pp_quantity = 1000, pp_position = 0\<rparr>,
       \<lparr>pp_id = 62, pp_tenant = 1, pp_promotion = 60, pp_product = 8, pp_quantity = 2000, pp_position = 1\<rparr>]\<rparr>"

definition comboLines :: "promotion_line list" where
  "comboLines = [\<lparr>ln_product = 7, ln_quantity = 3000, ln_unit_price = 1000, ln_gross = 3000\<rparr>,
     \<lparr>ln_product = 8, ln_quantity = 4000, ln_unit_price = 500, ln_gross = 2000\<rparr>]"

lemma promotionTrade_inv: "promotion_inv promotionTrade"
proof -
  have items: "storedItems 1 60 promotionTrade = [(\<lparr>it_id = 7, it_name = ''P'', it_sku = ''7''\<rparr>, 1000), (\<lparr>it_id = 8, it_name = ''Other'', it_sku = ''P-8''\<rparr>, 2000)]"
    by code_simp
  have "stored_ok promotionTrade comboRow"
    using items by (simp add: stored_ok_def products_ok_def comboRow_def)
  moreover have "inj (\<lambda>n. 60 + n :: nat)" by (simp add: inj_def)
  moreover have "60 \<in> drawn_ids promotionTrade"
    unfolding drawn_ids_def by (rule image_eqI [of _ _ 0]) (simp_all add: promotionTrade_def sampleTrade_def)
  ultimately show ?thesis
    by (simp add: promotion_inv_def) (simp add: promotionTrade_def sampleTrade_def comboRow_def sampleProduct_def secondProduct_def thirdProduct_def)
qed

lemma comboLines_ok: "lines_ok comboLines"
  by (simp add: lines_ok_def comboLines_def)

lemma combo_resolved:
  "case resolvePromotions 1 1 None ChannelPos 5 comboLines promotionTrade of Inl _ \<Rightarrow> False
   | Inr m \<Rightarrow> map ap_amount (appliedTo m 7) = [500] \<and> map ap_amount (appliedTo m 8) = [500]"
  by code_simp

theorem stored_promotions_resolve_witness:
  "promotion_inv promotionTrade \<and> (\<exists>m. resolvePromotions 1 1 None ChannelPos 5 comboLines promotionTrade = Inr m \<and> map ap_amount (appliedTo m 7) = [500])"
proof -
  have "\<exists>m. resolvePromotions 1 1 None ChannelPos 5 comboLines promotionTrade = Inr m"
    using stored_promotions_resolve [OF promotionTrade_inv] comboLines_ok by blast
  then show ?thesis using combo_resolved promotionTrade_inv by (auto simp del: One_nat_def)
qed

text \<open>C32: A promotion that does not stack is alone on its products, and the promotions of a product
  are in the order of precedence in which the rules were found.\<close>

theorem exclusive_promotions:
  assumes "\<forall>r\<in>set rules. rule_ok r" "lines_ok lines" "resolveRules lines rules [] [] [] = Inr m"
  shows "(a \<in> set (appliedTo m p) \<longrightarrow> \<not> ss_stackable (ap_snapshot a) \<longrightarrow> appliedTo m p = [a]) \<and>
    subseq (map ap_id (appliedTo m p)) (map pd_id rules)"
  using resolveRules_inv [OF assms(1,2), of "[]" "[]" "[]" "[]"] assms(3) by (auto simp: loop_inv_def)

definition comboRule :: promotion_data where
  "comboRule = hd (applicable 1 1 None ChannelPos 5 [7, 8] promotionTrade)"

lemma combo_rules: "applicable 1 1 None ChannelPos 5 [7, 8] promotionTrade = [comboRule]"
  by code_simp

lemma comboRule_ok: "rule_ok comboRule"
proof -
  have "pd_products comboRule = [(\<lparr>it_id = 7, it_name = ''P'', it_sku = ''7''\<rparr>, 1000), (\<lparr>it_id = 8, it_name = ''Other'', it_sku = ''P-8''\<rparr>, 2000)]"
    "pd_type comboRule = BUNDLE_FIXED" "pd_fixed_price comboRule = Some 1500" by code_simp+
  then show ?thesis by (simp add: rule_ok_def products_ok_def terms_ok_def)
qed

theorem exclusive_promotions_witness:
  "case resolveRules comboLines [comboRule, comboRule] [] [] [] of Inl _ \<Rightarrow> False
   | Inr m \<Rightarrow> length (appliedTo m 7) = 1 \<and> appliedTo m 7 = [hd (appliedTo m 7)]"
proof -
  have run: "case resolveRules comboLines [comboRule, comboRule] [] [] [] of Inl _ \<Rightarrow> False
     | Inr m \<Rightarrow> length (appliedTo m 7) = 1 \<and> \<not> ss_stackable (ap_snapshot (hd (appliedTo m 7)))" by code_simp
  then obtain m where m: "resolveRules comboLines [comboRule, comboRule] [] [] [] = Inr m" "length (appliedTo m 7) = 1"
    "\<not> ss_stackable (ap_snapshot (hd (appliedTo m 7)))" by (auto split: sum.splits)
  have "hd (appliedTo m 7) \<in> set (appliedTo m 7)" using m(2) by (cases "appliedTo m 7") simp_all
  then show ?thesis
    using exclusive_promotions [OF _ comboLines_ok m(1), of "hd (appliedTo m 7)" 7] comboRule_ok m by simp
qed

text \<open>C33: A bundle is applied as often as the cart contains it (\<open>b\<close> times), and its discount
  is the regular price of its products less the price of the bundles. When that is not positive
  nothing is discounted. Otherwise every product gets a share: all but the last the discount in
  proportion to its own regular price, rounded to the cent, and the last what is left, so that the
  shares add up to the discount exactly.\<close>

theorem bundle_shares_exact:
  assumes "rule_ok rule" "pd_type rule = BUNDLE_FIXED" "lines_ok lines" "\<forall>(item, q)\<in>set (pd_products rule). lineOf lines (it_id item) \<noteq> None"
  shows "\<exists>as b price. bundleAllocations rule lines = Inr as \<and> pd_fixed_price rule = Some price \<and> 0 \<le> b \<and>
     (\<forall>k. k \<le> b \<longleftrightarrow> (\<forall>(item, q)\<in>set (pd_products rule). \<forall>l. lineOf lines (it_id item) = Some l \<longrightarrow> k * q \<le> ln_quantity l)) \<and>
     (let regular = regularPrice lines b (pd_products rule); discount = regular - price * b
      in if discount \<le> 0 then as = []
         else map al_product as = ruleProducts rule \<and> sum_list (map al_amount as) = discount \<and>
           map al_amount (butlast as)
             = map (\<lambda>i. roundDivide (discount * regularPrice lines b [i]) regular) (butlast (pd_products rule)))"
  using bundleAllocations_value [OF assms(1-3)] assms(4)
  unfolding all_present_def bundleResult_def contains_bundles_def Let_def ruleProducts_def by blast

lemma combo_products:
  "pd_products comboRule = [(\<lparr>it_id = 7, it_name = ''P'', it_sku = ''7''\<rparr>, 1000), (\<lparr>it_id = 8, it_name = ''Other'', it_sku = ''P-8''\<rparr>, 2000)]"
  "pd_type comboRule = BUNDLE_FIXED" "pd_fixed_price comboRule = Some 1500"
  by code_simp+

lemma combo_lineOf:
  "lineOf comboLines 7 = Some \<lparr>ln_product = 7, ln_quantity = 3000, ln_unit_price = 1000, ln_gross = 3000\<rparr>"
  "lineOf comboLines 8 = Some \<lparr>ln_product = 8, ln_quantity = 4000, ln_unit_price = 500, ln_gross = 2000\<rparr>"
  by (simp_all add: lineOf_def comboLines_def)

theorem bundle_shares_exact_witness:
  "\<exists>as. bundleAllocations comboRule comboLines = Inr as \<and> map al_product as = [7, 8] \<and> map al_amount as = [500, 500]"
proof -
  have "\<forall>(item, q)\<in>set (pd_products comboRule). lineOf comboLines (it_id item) \<noteq> None"
    by (simp add: combo_products combo_lineOf)
  from bundle_shares_exact [OF comboRule_ok combo_products(2) comboLines_ok this]
  obtain as b where run: "bundleAllocations comboRule comboLines = Inr as" "0 \<le> b"
    and greatest: "\<forall>k. k \<le> b \<longleftrightarrow> k * 1000 \<le> 3000 \<and> k * 2000 \<le> 4000"
    and shares: "let regular = regularPrice comboLines b (pd_products comboRule); discount = regular - 1500 * b
      in if discount \<le> 0 then as = []
         else map al_product as = ruleProducts comboRule \<and> sum_list (map al_amount as) = discount \<and>
           map al_amount (butlast as)
             = map (\<lambda>i. roundDivide (discount * regularPrice comboLines b [i]) regular) (butlast (pd_products comboRule))"
    by (auto simp: combo_products combo_lineOf)
  have "b = 2" using spec [OF greatest, of 2] spec [OF greatest, of 3] by simp
  then have amounts: "map al_product as = [7, 8]" "sum_list (map al_amount as) = 1000" "map al_amount (butlast as) = [500]"
    using shares by (auto simp: combo_products combo_lineOf regularPrice_def ruleProducts_def roundDivide_nonneg_eq)
  then obtain x y where "as = [x, y]" by (auto simp: length_Suc_conv map_eq_Cons_conv)
  then show ?thesis using run(1) amounts by simp
qed

text \<open>C40: Rounding the shares of a bundle can make the last one negative: when a bundle of articles of
  one cent is sold for more than a cent and at most half its price, every product but the last gets a
  discount of one cent, and the last one a discount of \<open>1 - price\<close> cents, so its line costs
  more than without the promotion.\<close>

theorem bundle_negative_share:
  assumes "rule_ok rule" "pd_type rule = BUNDLE_FIXED" "lines_ok lines" "pd_fixed_price rule = Some price"
    and "\<forall>(item, q)\<in>set (pd_products rule). q = 1000 \<and>
      (\<exists>l. lineOf lines (it_id item) = Some l \<and> ln_unit_price l = 1 \<and> ln_quantity l = 1000)"
    and "1 < price" "2 * price \<le> int (length (pd_products rule))"
  shows "\<exists>as. bundleAllocations rule lines = Inr as \<and> map al_product as = ruleProducts rule \<and>
    map al_amount as = replicate (length (pd_products rule) - 1) 1 @ [1 - price] \<and> 1 - price < 0"
  using bundleAllocations_cents [OF assms] assms(6) by auto

text \<open>A shop whose four articles cost one cent each and that stores a bundle of the four for two cents.\<close>

definition centShop :: trade_db where
  "centShop = sampleTrade\<lparr>products := map (\<lambda>p. sampleProduct\<lparr>pr_id := p, pr_price := 1\<rparr>) [7, 8, 9, 10]\<rparr>"

definition centDto :: promotion_dto where
  "centDto = \<lparr>dp_name = ''Four'', dp_type = BUNDLE_FIXED, dp_branch = None, dp_customer = None, dp_channel = None,
     dp_priority = 0, dp_stackable = False, dp_valid_from = 0, dp_valid_to = None, dp_active = True, dp_percent = None,
     dp_fixed_price = Some 2, dp_buy = None, dp_reward = None,
     dp_products = [(7, 1000), (8, 1000), (9, 1000), (10, 1000)], dp_tiers = []\<rparr>"

definition centTrade :: trade_db where
  "centTrade = (case createPromotion 1 centDto centShop of Inl _ \<Rightarrow> centShop | Inr (_, db) \<Rightarrow> db)"

definition centRule :: promotion_data where
  "centRule = hd (applicable 1 1 None ChannelPos 5 [7, 8, 9, 10] centTrade)"

definition centLines :: "promotion_line list" where
  "centLines = map (\<lambda>p. \<lparr>ln_product = p, ln_quantity = 1000, ln_unit_price = 1, ln_gross = 1\<rparr>) [7, 8, 9, 10]"

lemma centTrade_created: "\<exists>d. createPromotion 1 centDto centShop = Inr (d, centTrade)"
proof -
  have "case createPromotion 1 centDto centShop of Inl _ \<Rightarrow> False | Inr _ \<Rightarrow> True" by code_simp
  then show ?thesis by (auto simp: centTrade_def simp del: One_nat_def split: sum.splits prod.splits)
qed

lemma cent_rules: "applicable 1 1 None ChannelPos 5 [7, 8, 9, 10] centTrade = [centRule]"
  by code_simp

lemma centRule_terms:
  "pd_products centRule = map (\<lambda>p. (\<lparr>it_id = p, it_name = ''P'', it_sku = ''7''\<rparr>, 1000)) [7, 8, 9, 10]"
  "pd_type centRule = BUNDLE_FIXED" "pd_fixed_price centRule = Some 2"
  by code_simp+

theorem bundle_negative_share_witness:
  "\<exists>d as. createPromotion 1 centDto centShop = Inr (d, centTrade) \<and>
     applicable 1 1 None ChannelPos 5 [7, 8, 9, 10] centTrade = [centRule] \<and>
     bundleAllocations centRule centLines = Inr as \<and> map al_amount as = [1, 1, 1, -1]"
proof -
  have "rule_ok centRule" by (simp add: centRule_terms rule_ok_def products_ok_def terms_ok_def)
  moreover have "lines_ok centLines" by (simp add: lines_ok_def centLines_def)
  moreover have "\<forall>(item, q)\<in>set (pd_products centRule). q = 1000 \<and>
      (\<exists>l. lineOf centLines (it_id item) = Some l \<and> ln_unit_price l = 1 \<and> ln_quantity l = 1000)"
    by (simp add: centRule_terms lineOf_def centLines_def)
  ultimately have "\<exists>as. bundleAllocations centRule centLines = Inr as \<and> map al_product as = ruleProducts centRule \<and>
      map al_amount as = replicate (length (pd_products centRule) - 1) 1 @ [1 - 2] \<and> 1 - 2 < (0::int)"
    by (intro bundle_negative_share) (simp_all add: centRule_terms)
  then show ?thesis using centTrade_created cent_rules by (auto simp: centRule_terms eval_nat_numeral)
qed

text \<open>A promotion on a single product (buy X get Y, second unit, quantity) takes a positive amount
  off its line, and at most half of the line, rounded to the cent.\<close>

theorem single_promotion_at_most_half:
  assumes "rule_ok rule" "0 \<le> ln_quantity line" "0 \<le> ln_unit_price line" "singleAllocation rule line = Inr as" "a \<in> set as"
  shows "as = [a] \<and> al_product a = ln_product line \<and> 0 < al_amount a \<and>
    al_amount a \<le> roundDivide (ln_unit_price line * ln_quantity line) 2000"
  using singleAllocation_amount [OF assms] by blast

definition secondUnit :: promotion_data where
  "secondUnit = comboRule\<lparr>pd_type := SECOND_UNIT_PERCENT, pd_percent := Some 1000000,
     pd_products := [(\<lparr>it_id = 7, it_name = ''P'', it_sku = ''7''\<rparr>, 1000)]\<rparr>"

theorem single_promotion_at_most_half_witness:
  "\<exists>as. singleAllocation secondUnit (hd comboLines) = Inr as \<and> map al_amount as = [1000] \<and>
     1000 \<le> roundDivide (ln_unit_price (hd comboLines) * ln_quantity (hd comboLines)) 2000"
proof -
  have run: "case singleAllocation secondUnit (hd comboLines) of Inl _ \<Rightarrow> False | Inr as \<Rightarrow> map al_amount as = [1000]"
    by code_simp
  then obtain a where a: "singleAllocation secondUnit (hd comboLines) = Inr [a]" "al_amount a = 1000"
    by (auto split: sum.splits)
  have "rule_ok secondUnit"
    by (simp add: secondUnit_def rule_ok_def products_ok_def terms_ok_def percent_ok_def)
  from single_promotion_at_most_half [OF this _ _ a(1)] a show ?thesis
    by (auto simp: comboLines_def)
qed

end
