(* ===== verification/CashShifts.thy ===== *)
theory CashShifts
  imports TradeSchema StockCommands
begin

text \<open>
  The shifts of the cash registers, after \<open>src/pos/cash-register-shift.repository.ts\<close> and its
  service: a user opens a shift on a register with an amount of cash. The database admits one open
  shift per register and one per user; a request is answered from its idempotency key when it was
  already executed.

  \<open>digest\<close> stands for \<open>createHash('sha256')\<close> on the serialised object. The texts of amounts in
  requests have one form per amount once \<open>money\<close> has padded the fraction, so the model holds
  the cents. \<open>drawer\<close> is the context that the access guard resolves: tenant, branch, register
  and user.
\<close>

record drawer =
  dr_tenant :: id
  dr_branch :: id
  dr_register :: id
  dr_user :: id

text \<open>The objects that are serialised for the fingerprints of the shift, of its movements and of
  its closure.\<close>

datatype cash_request =
    OpenRequest id id id int string
  | MovementRequest id cash_type int string "id option"
  | CloseRequest id int "string option" "(int \<times> nat) list"

record shift_data =
  sd_id :: id
  sd_open :: bool
  sd_branch :: "id \<times> string"
  sd_register :: "id \<times> string \<times> string"
  sd_user :: "id \<times> string"
  sd_opening :: int
  sd_currency :: string
  sd_opened_at :: nat

section \<open>Reads\<close>

definition branchOf :: "id \<Rightarrow> id \<Rightarrow> trade_db \<Rightarrow> branch_row option" where
  "branchOf t i db = List.find (\<lambda>r. br_id r = i \<and> br_tenant r = t) (branches db)"

definition registerOf :: "id \<Rightarrow> id \<Rightarrow> trade_db \<Rightarrow> cash_register_row option" where
  "registerOf t i db = List.find (\<lambda>r. cr_id r = i \<and> cr_tenant r = t) (cash_registers db)"

definition userOf :: "id \<Rightarrow> id \<Rightarrow> trade_db \<Rightarrow> user_row option" where
  "userOf t i db = List.find (\<lambda>r. us_id r = i \<and> us_tenant r = t) (users db)"

text \<open>\<open>selectShift\<close> with its inner joins, and \<open>toData\<close>.\<close>

definition shiftData :: "trade_db \<Rightarrow> shift_row \<Rightarrow> shift_data option" where
  "shiftData db r =
     (case (branchOf (sh_tenant r) (sh_branch r) db, registerOf (sh_tenant r) (sh_register r) db, userOf (sh_tenant r) (sh_user r) db) of
        (Some b, Some c, Some u) \<Rightarrow> Some
          \<lparr>sd_id = sh_id r, sd_open = sh_open r, sd_branch = (br_id b, br_name b),
           sd_register = (cr_id c, cr_name c, cr_code c), sd_user = (us_id u, us_email u),
           sd_opening = sh_opening r, sd_currency = sh_currency r, sd_opened_at = sh_opened_at r\<rparr>
      | _ \<Rightarrow> None)"

definition selectShift :: "(shift_row \<Rightarrow> bool) \<Rightarrow> trade_db \<Rightarrow> (shift_row \<times> shift_data) option" where
  "selectShift sel db =
     (case List.map_filter (\<lambda>r. map_option (Pair r) (shiftData db r)) (filter sel (shifts db)) of
        [] \<Rightarrow> None | x # _ \<Rightarrow> Some x)"

definition ofDrawer :: "drawer \<Rightarrow> shift_row \<Rightarrow> bool" where
  "ofDrawer d r \<longleftrightarrow> sh_tenant r = dr_tenant d \<and> sh_branch r = dr_branch d \<and>
     sh_register r = dr_register d \<and> sh_user r = dr_user d"

definition findCurrent :: "drawer \<Rightarrow> trade_db \<Rightarrow> shift_data option" where
  "findCurrent d db = map_option snd (selectShift (\<lambda>r. ofDrawer d r \<and> sh_open r) db)"

definition findShiftById :: "id \<Rightarrow> id \<Rightarrow> trade_db \<Rightarrow> shift_data option" where
  "findShiftById t i db = map_option snd (selectShift (\<lambda>r. sh_id r = i \<and> sh_tenant r = t) db)"

definition findShiftByKey :: "id \<Rightarrow> string \<Rightarrow> trade_db \<Rightarrow> (shift_data \<times> string) option" where
  "findShiftByKey t key db =
     map_option (\<lambda>(r, data). (data, sh_fingerprint r)) (selectShift (\<lambda>r. sh_tenant r = t \<and> sh_key r = key) db)"

text \<open>The service: \<open>current\<close> and \<open>requireCurrent\<close>.\<close>

definition requireCurrent :: "drawer \<Rightarrow> shift_data tact" where
  "requireCurrent d = bindM (readM (findCurrent d)) (requireM (Code ''CASH_REGISTER_SHIFT_REQUIRED''))"

section \<open>open\<close>

text \<open>The country of the tenant, when register, branch, tenant and user belong together and the
  branch is active.\<close>

definition openContext :: "drawer \<Rightarrow> trade_db \<Rightarrow> string option" where
  "openContext d db =
     (case (List.find (\<lambda>c. cr_id c = dr_register d \<and> cr_tenant c = dr_tenant d \<and> cr_branch c = dr_branch d) (cash_registers db),
            List.find (\<lambda>b. br_id b = dr_branch d \<and> br_tenant b = dr_tenant d \<and> br_active b) (branches db),
            userOf (dr_tenant d) (dr_user d) db) of
        (Some _, Some _, Some _) \<Rightarrow> map_option tn_country (List.find (\<lambda>t. tn_id t = dr_tenant d) (tenants db))
      | _ \<Rightarrow> None)"

definition openFingerprint :: "(cash_request \<Rightarrow> string) \<Rightarrow> drawer \<Rightarrow> int \<Rightarrow> string \<Rightarrow> string" where
  "openFingerprint digest d amount currency =
     digest (OpenRequest (dr_branch d) (dr_register d) (dr_user d) amount currency)"

text \<open>\<open>ck_cash_register_shifts_amount\<close> and \<open>ck_cash_register_shifts_closed\<close>; then the primary
  key and the four unique keys. A null in a unique key equals nothing.\<close>

definition shift_check :: "shift_row \<Rightarrow> bool" where
  "shift_check r \<longleftrightarrow> 0 \<le> sh_opening r \<and>
     (if sh_open r
      then sh_closed_at r = None \<and> sh_closed_by r = None \<and> sh_counted r = None \<and> sh_expected r = None \<and>
        sh_difference r = None \<and> sh_closing_key r = None \<and> sh_closing_fingerprint r = None
      else sh_closed_at r \<noteq> None \<and> sh_closed_by r \<noteq> None \<and> sh_counted r \<noteq> None \<and> sh_expected r \<noteq> None \<and>
        sh_difference r \<noteq> None \<and> sh_closing_key r \<noteq> None \<and> sh_closing_fingerprint r \<noteq> None)"

definition shift_clash :: "shift_row \<Rightarrow> shift_row \<Rightarrow> bool" where
  "shift_clash x r \<longleftrightarrow> sh_id x = sh_id r \<or>
     (sh_tenant x = sh_tenant r \<and>
       (sh_key x = sh_key r \<or>
        (sh_open x \<and> sh_open r \<and> (sh_register x = sh_register r \<or> sh_user x = sh_user r)) \<or>
        (sh_closing_key x \<noteq> None \<and> sh_closing_key x = sh_closing_key r)))"

definition insertShift :: "shift_row \<Rightarrow> unit tact" where
  "insertShift r =
     bindM (readM shifts) (\<lambda>rows.
     thenM (ensureM TradeDuplicateEntry (\<forall>x\<in>set rows. \<not> shift_clash x r))
     (thenM (ensureM TradeCheckViolated (shift_check r))
       (writeM (\<lambda>db. db\<lparr>shifts := shifts db @ [r]\<rparr>))))"

definition newShift :: "drawer \<Rightarrow> int \<Rightarrow> string \<Rightarrow> string \<Rightarrow> string \<Rightarrow> id \<times> nat \<Rightarrow> shift_row" where
  "newShift d amount currency key fingerprint x =
     \<lparr>sh_id = fst x, sh_tenant = dr_tenant d, sh_branch = dr_branch d, sh_register = dr_register d,
      sh_user = dr_user d, sh_closed_by = None, sh_opening = amount, sh_counted = None, sh_expected = None,
      sh_difference = None, sh_reason = None, sh_denominations = [], sh_currency = currency, sh_open = True,
      sh_key = key, sh_closing_key = None, sh_fingerprint = fingerprint, sh_closing_fingerprint = None,
      sh_opened_at = snd x, sh_closed_at = None\<rparr>"

definition replayShift :: "string \<Rightarrow> shift_data \<times> string \<Rightarrow> (shift_data \<times> bool) tact" where
  "replayShift fingerprint stored =
     thenM (ensureM CashRegisterShiftIdempotencyConflictError (snd stored = fingerprint)) (returnM (fst stored, True))"

definition openTransaction :: "(cash_request \<Rightarrow> string) \<Rightarrow> drawer \<Rightarrow> int \<Rightarrow> string \<Rightarrow> (shift_data \<times> bool) tact" where
  "openTransaction digest d amount key =
     bindM (readM (openContext d)) (\<lambda>context.
     bindM (requireM CashRegisterShiftContextError context) (\<lambda>country.
     let currency = posCurrencyFor country;
         fingerprint = openFingerprint digest d amount currency in
     bindM (readM (findShiftByKey (dr_tenant d) key)) (\<lambda>existing.
     case existing of Some stored \<Rightarrow> replayShift fingerprint stored
     | None \<Rightarrow>
        bindM (readM shifts) (\<lambda>rows.
        thenM (ensureM CashRegisterShiftConflictError
          (\<not> (\<exists>r\<in>set rows. sh_tenant r = dr_tenant d \<and> sh_open r \<and> (sh_register r = dr_register d \<or> sh_user r = dr_user d))))
        (bindM newTradeRow (\<lambda>x.
         thenM (insertShift (newShift d amount currency key fingerprint x))
         (bindM (readM (findShiftById (dr_tenant d) (fst x))) (\<lambda>found.
          bindM (requireM (Code ''CREATED_CASH_REGISTER_SHIFT_NOT_FOUND'') found) (\<lambda>shift.
            returnM (shift, False)))))))))) "

definition openShift :: "(cash_request \<Rightarrow> string) \<Rightarrow> drawer \<Rightarrow> int \<Rightarrow> string \<Rightarrow> (shift_data \<times> bool) tact" where
  "openShift digest d amount key =
     catchM (\<lambda>e. e = TradeDuplicateEntry) (openTransaction digest d amount key)
       (\<lambda>_. bindM (readM (findShiftByKey (dr_tenant d) key)) (\<lambda>found.
        bindM (requireM CashRegisterShiftConflictError found) (\<lambda>stored.
          replayShift (openFingerprint digest d amount (sd_currency (fst stored))) stored)))"

text \<open>The service checks the key first.\<close>

definition requireKey :: "string option \<Rightarrow> string tact" where
  "requireKey value =
     (case value of None \<Rightarrow> throwM (Code ''INVALID_IDEMPOTENCY_KEY'')
      | Some key \<Rightarrow> thenM (ensureM (Code ''INVALID_IDEMPOTENCY_KEY'') (validKey key)) (returnM key))"

definition openShiftRequest :: "(cash_request \<Rightarrow> string) \<Rightarrow> drawer \<Rightarrow> int \<Rightarrow> string option \<Rightarrow> (shift_data \<times> bool) tact" where
  "openShiftRequest digest d amount value = bindM (requireKey value) (openShift digest d amount)"

end
