(* ===== verification/CashMovements.thy ===== *)
theory CashMovements
  imports CashShifts Codecs
begin

text \<open>
  Incomes, withdrawals and reversals of the open shift, after
  \<open>src/pos/cash-register-movement.repository.ts\<close> and its service. The expected cash of a shift is
  computed by one query: the opening amount, plus the cash payments of its completed sales, minus
  the cash refunds paid in it, plus its movements with their signs.

  Amounts are cents. The one place where the text of an amount matters is kept as text: the
  repository parses the expected cash, which can be negative, with a function that has no sign.
\<close>

datatype movement_command =
    CreateMovement cash_type int string
  | ReverseMovement id string

definition reversalOf :: "movement_command \<Rightarrow> id option" where
  "reversalOf cmd = (case cmd of CreateMovement _ _ _ \<Rightarrow> None | ReverseMovement i _ \<Rightarrow> Some i)"

definition movementReason :: "movement_command \<Rightarrow> string" where
  "movementReason cmd = (case cmd of CreateMovement _ _ reason \<Rightarrow> reason | ReverseMovement _ reason \<Rightarrow> reason)"

record cash_movement_data =
  yd_id :: id
  yd_type :: cash_type
  yd_amount :: int
  yd_reason :: string
  yd_user :: "id \<times> string"
  yd_reversal_of :: "(id \<times> cash_type \<times> string) option"
  yd_reversed :: bool
  yd_created_at :: nat

section \<open>Expected cash\<close>

definition originalOf :: "cash_movement_row list \<Rightarrow> cash_movement_row \<Rightarrow> cash_movement_row option" where
  "originalOf rows m =
     (case cv_reversal_of m of None \<Rightarrow> None
      | Some i \<Rightarrow> List.find (\<lambda>x. cv_id x = i \<and> cv_tenant x = cv_tenant m) rows)"

definition signedAmount :: "cash_movement_row list \<Rightarrow> cash_movement_row \<Rightarrow> int" where
  "signedAmount rows m =
     (case cv_type m of INCOME \<Rightarrow> cv_amount m | WITHDRAWAL \<Rightarrow> - cv_amount m
      | REVERSAL \<Rightarrow> (case originalOf rows m of
            None \<Rightarrow> cv_amount m
          | Some x \<Rightarrow> if cv_type x = INCOME then - cv_amount m else cv_amount m))"

definition movementsNet :: "shift_row \<Rightarrow> trade_db \<Rightarrow> int" where
  "movementsNet r db =
     sum_where (\<lambda>m. cv_tenant m = sh_tenant r \<and> cv_shift m = sh_id r) (signedAmount (cash_movements db)) (cash_movements db)"

definition shiftSale :: "shift_row \<Rightarrow> sale_row \<Rightarrow> bool" where
  "shiftSale r s \<longleftrightarrow> sa_tenant s = sh_tenant r \<and> sa_shift s = Some (sh_id r) \<and> sa_status s = SaleCompleted"

definition cashPaid :: "shift_row \<Rightarrow> trade_db \<Rightarrow> int" where
  "cashPaid r db =
     sum_where (shiftSale r)
       (\<lambda>s. sum_where (\<lambda>p. sp_sale p = sa_id s \<and> sp_tenant p = sa_tenant s \<and> sp_method p = CASH) sp_applied (sale_payments db))
       (sales db)"

definition cashRefunded :: "shift_row \<Rightarrow> trade_db \<Rightarrow> int" where
  "cashRefunded r db =
     sum_where (\<lambda>x. sm_tenant x = sh_tenant r \<and> sm_shift x = Some (sh_id r) \<and> sm_method x = Refund CASH \<and> sm_completed x)
       sm_amount (settlements db)"

definition shiftOf :: "id \<Rightarrow> id \<Rightarrow> trade_db \<Rightarrow> shift_row option" where
  "shiftOf t i db = List.find (\<lambda>r. sh_tenant r = t \<and> sh_id r = i) (shifts db)"

definition expectedOf :: "shift_row \<Rightarrow> trade_db \<Rightarrow> int" where
  "expectedOf r db = sh_opening r + cashPaid r db - cashRefunded r db + movementsNet r db"

definition expectedCash :: "id \<Rightarrow> id \<Rightarrow> trade_db \<Rightarrow> trade_error + int" where
  "expectedCash t i db =
     (case shiftOf t i db of None \<Rightarrow> Inl CashRegisterMovementNotFoundError | Some r \<Rightarrow> Inr (expectedOf r db))"

text \<open>The text of a \<open>DECIMAL(15,2)\<close> column, and \<open>money\<close> and \<open>cents\<close> of this repository.\<close>

definition sqlMoney :: "int \<Rightarrow> string" where
  "sqlMoney x = (if x < 0 then ''-'' else []) @ point_text 2 (nat (\<bar>x\<bar> div 100)) (nat (\<bar>x\<bar> mod 100))"

definition movement_money :: "string \<Rightarrow> string" where
  "movement_money s = (let (whole, fraction) = split_point s in whole @ ''.'' @ padEnd0 2 fraction)"

definition movement_cents :: "string \<Rightarrow> int option" where
  "movement_cents s =
     (let (whole, fraction) = split_point s
      in option_map2 (\<lambda>w f. w * 100 + f) (bigint_of whole) (bigint_of (padEnd0 2 fraction)))"

definition readCents :: "int \<Rightarrow> trade_error + int" where
  "readCents x =
     (case movement_cents (movement_money (sqlMoney x)) of None \<Rightarrow> Inl (Code ''SyntaxError'') | Some v \<Rightarrow> Inr v)"

definition assertCashAvailable :: "id \<Rightarrow> id \<Rightarrow> int \<Rightarrow> unit tact" where
  "assertCashAvailable t i amount =
     bindM (readM (expectedCash t i)) (\<lambda>e.
     bindM (liftE e) (\<lambda>expected.
     bindM (liftE (readCents amount)) (\<lambda>wanted.
     bindM (liftE (readCents expected)) (\<lambda>present.
       ensureM CashRegisterMovementInsufficientBalanceError (\<not> present < wanted)))))"

section \<open>Reads\<close>

definition cashMovementData :: "trade_db \<Rightarrow> cash_movement_row \<Rightarrow> cash_movement_data option" where
  "cashMovementData db m =
     map_option (\<lambda>u.
       \<lparr>yd_id = cv_id m, yd_type = cv_type m, yd_amount = cv_amount m, yd_reason = cv_reason m,
        yd_user = (us_id u, us_email u),
        yd_reversal_of = (case originalOf (cash_movements db) m of None \<Rightarrow> None
          | Some x \<Rightarrow> if cv_reason x = [] then None else Some (cv_id x, cv_type x, cv_reason x)),
        yd_reversed = (\<exists>x\<in>set (cash_movements db). cv_tenant x = cv_tenant m \<and> cv_reversal_of x = Some (cv_id m)),
        yd_created_at = cv_created_at m\<rparr>) (userOf (cv_tenant m) (cv_user m) db)"

definition selectCashMovement :: "(cash_movement_row \<Rightarrow> bool) \<Rightarrow> trade_db \<Rightarrow> (cash_movement_row \<times> cash_movement_data) list" where
  "selectCashMovement sel db =
     List.map_filter (\<lambda>m. map_option (Pair m) (cashMovementData db m)) (filter sel (cash_movements db))"

definition findCashMovement :: "id \<Rightarrow> id \<Rightarrow> trade_db \<Rightarrow> cash_movement_data option" where
  "findCashMovement t i db =
     (case selectCashMovement (\<lambda>m. cv_tenant m = t \<and> cv_id m = i) db of [] \<Rightarrow> None | x # _ \<Rightarrow> Some (snd x))"

definition findCashMovementByKey :: "id \<Rightarrow> string \<Rightarrow> trade_db \<Rightarrow> (cash_movement_data \<times> string) option" where
  "findCashMovementByKey t key db =
     (case selectCashMovement (\<lambda>m. cv_tenant m = t \<and> cv_key m = key) db of
        [] \<Rightarrow> None | x # _ \<Rightarrow> Some (snd x, cv_fingerprint (fst x)))"

definition findOriginal :: "id \<Rightarrow> id \<Rightarrow> id \<Rightarrow> trade_db \<Rightarrow> cash_movement_row option" where
  "findOriginal t shift i db =
     List.find (\<lambda>m. cv_id m = i \<and> cv_tenant m = t \<and> cv_shift m = shift \<and> cv_type m \<in> {INCOME, WITHDRAWAL}) (cash_movements db)"

definition listCashMovements :: "drawer \<Rightarrow> (cash_movement_data list \<times> id \<times> string \<times> int) tact" where
  "listCashMovements d =
     bindM (requireCurrent d) (\<lambda>shift.
     bindM (readM (\<lambda>db. rev (sort_key (\<lambda>x. (cv_created_at (fst x), cv_id (fst x)))
        (selectCashMovement (\<lambda>m. cv_tenant m = dr_tenant d \<and> cv_shift m = sd_id shift) db)))) (\<lambda>rows.
     bindM (readM (expectedCash (dr_tenant d) (sd_id shift))) (\<lambda>e.
     bindM (liftE e) (\<lambda>expected.
       returnM (map snd rows, sd_id shift, sd_currency shift, expected)))))"

section \<open>create and reverse\<close>

definition cash_movement_check :: "cash_movement_row \<Rightarrow> bool" where
  "cash_movement_check m \<longleftrightarrow> 0 < cv_amount m \<and> (cv_type m = REVERSAL \<longleftrightarrow> cv_reversal_of m \<noteq> None)"

definition movement_clash :: "cash_movement_row \<Rightarrow> cash_movement_row \<Rightarrow> bool" where
  "movement_clash x m \<longleftrightarrow> cv_id x = cv_id m \<or>
     (cv_tenant x = cv_tenant m \<and>
       (cv_key x = cv_key m \<or> (cv_reversal_of x \<noteq> None \<and> cv_reversal_of x = cv_reversal_of m)))"

definition insertCashMovement :: "cash_movement_row \<Rightarrow> unit tact" where
  "insertCashMovement m =
     bindM (readM cash_movements) (\<lambda>rows.
     thenM (ensureM TradeDuplicateEntry (\<forall>x\<in>set rows. \<not> movement_clash x m))
     (thenM (ensureM TradeCheckViolated (cash_movement_check m))
       (writeM (\<lambda>db. db\<lparr>cash_movements := cash_movements db @ [m]\<rparr>))))"

definition lockShift :: "drawer \<Rightarrow> id \<Rightarrow> unit tact" where
  "lockShift d shift =
     bindM (readM shifts) (\<lambda>rows.
       ensureM CashRegisterMovementNotFoundError (\<exists>r\<in>set rows. sh_id r = shift \<and> ofDrawer d r \<and> sh_open r))"

text \<open>The type and the amount of the new movement, and the movement it reverses.\<close>

definition movementPlan :: "drawer \<Rightarrow> id \<Rightarrow> movement_command \<Rightarrow> (cash_type \<times> int \<times> cash_movement_row option) tact" where
  "movementPlan d shift cmd =
     (case cmd of CreateMovement kind amount _ \<Rightarrow> returnM (kind, amount, None)
      | ReverseMovement i _ \<Rightarrow>
          bindM (readM (findOriginal (dr_tenant d) shift i)) (\<lambda>found.
          bindM (requireM CashRegisterMovementNotFoundError found) (\<lambda>original.
            returnM (REVERSAL, cv_amount original, Some original))))"

definition withExpected :: "drawer \<Rightarrow> id \<Rightarrow> cash_movement_data \<times> bool \<Rightarrow> (cash_movement_data \<times> int \<times> bool) tact" where
  "withExpected d shift x =
     bindM (readM (expectedCash (dr_tenant d) shift)) (\<lambda>e.
     bindM (liftE e) (\<lambda>expected. returnM (fst x, expected, snd x)))"

definition replayCashMovement ::
  "drawer \<Rightarrow> id \<Rightarrow> string \<Rightarrow> cash_movement_data \<times> string \<Rightarrow> (cash_movement_data \<times> int \<times> bool) tact" where
  "replayCashMovement d shift fingerprint stored =
     thenM (ensureM CashRegisterMovementIdempotencyConflictError (snd stored = fingerprint))
       (withExpected d shift (fst stored, True))"

text \<open>A movement is reversed once; a withdrawal, and the reversal of an income, need the cash.\<close>

definition guardMovement :: "drawer \<Rightarrow> id \<Rightarrow> movement_command \<Rightarrow> cash_type \<times> int \<times> cash_movement_row option \<Rightarrow> unit tact" where
  "guardMovement d shift cmd outline =
     (case (outline, reversalOf cmd) of
        ((kind, amount, _), None) \<Rightarrow> whenM (kind = WITHDRAWAL) (assertCashAvailable (dr_tenant d) shift amount)
      | ((kind, amount, reversed), Some i) \<Rightarrow>
          bindM (readM cash_movements) (\<lambda>rows.
          thenM (ensureM CashRegisterMovementAlreadyReversedError
              (\<not> (\<exists>x\<in>set rows. cv_tenant x = dr_tenant d \<and> cv_reversal_of x = Some i)))
            (whenM (case reversed of None \<Rightarrow> False | Some x \<Rightarrow> cv_type x = INCOME)
              (assertCashAvailable (dr_tenant d) shift amount))))"

definition newCashMovement ::
  "drawer \<Rightarrow> id \<Rightarrow> movement_command \<Rightarrow> cash_type \<times> int \<times> cash_movement_row option \<Rightarrow> string \<Rightarrow> string \<Rightarrow> id \<times> nat \<Rightarrow> cash_movement_row" where
  "newCashMovement d shift cmd outline key fingerprint x =
     \<lparr>cv_id = fst x, cv_tenant = dr_tenant d, cv_shift = shift, cv_user = dr_user d, cv_type = fst outline,
      cv_amount = fst (snd outline), cv_reason = movementReason cmd, cv_reversal_of = reversalOf cmd, cv_key = key,
      cv_fingerprint = fingerprint, cv_created_at = snd x\<rparr>"

definition movementTransactionOf ::
  "(cash_request \<Rightarrow> string) \<Rightarrow> drawer \<Rightarrow> id \<Rightarrow> movement_command \<Rightarrow> string \<Rightarrow> (cash_movement_data \<times> int \<times> bool) tact" where
  "movementTransactionOf digest d shift cmd key =
     thenM (lockShift d shift)
     (bindM (movementPlan d shift cmd) (\<lambda>outline.
      let fingerprint = digest (MovementRequest shift (fst outline) (fst (snd outline)) (movementReason cmd) (reversalOf cmd)) in
      bindM (readM (findCashMovementByKey (dr_tenant d) key)) (\<lambda>existing.
      case existing of Some stored \<Rightarrow> replayCashMovement d shift fingerprint stored
      | None \<Rightarrow>
         thenM (guardMovement d shift cmd outline)
         (bindM newTradeRow (\<lambda>x.
          thenM (insertCashMovement (newCashMovement d shift cmd outline key fingerprint x))
          (bindM (readM (findCashMovement (dr_tenant d) (fst x))) (\<lambda>found.
           bindM (requireM (Code ''CREATED_CASH_REGISTER_MOVEMENT_NOT_FOUND'') found) (\<lambda>m.
             withExpected d shift (m, False)))))))))"

definition persistMovement ::
  "(cash_request \<Rightarrow> string) \<Rightarrow> drawer \<Rightarrow> id \<Rightarrow> movement_command \<Rightarrow> string \<Rightarrow> (cash_movement_data \<times> int \<times> bool) tact" where
  "persistMovement digest d shift cmd key =
     catchM (\<lambda>e. e = TradeDuplicateEntry) (movementTransactionOf digest d shift cmd key)
       (\<lambda>_. bindM (readM (findCashMovementByKey (dr_tenant d) key)) (\<lambda>found.
        bindM (requireM CashRegisterMovementAlreadyReversedError found) (\<lambda>stored.
          replayCashMovement d shift
            (digest (MovementRequest shift (case cmd of CreateMovement kind _ _ \<Rightarrow> kind | ReverseMovement _ _ \<Rightarrow> REVERSAL)
               (case cmd of CreateMovement _ amount _ \<Rightarrow> amount | ReverseMovement _ _ \<Rightarrow> yd_amount (fst stored))
               (movementReason cmd) (reversalOf cmd)))
            stored)))"

text \<open>The service: the key, the current shift, and the reason without surrounding blanks.\<close>

definition trimmed :: "movement_command \<Rightarrow> movement_command" where
  "trimmed cmd = (case cmd of CreateMovement kind amount reason \<Rightarrow> CreateMovement kind amount (trim reason)
     | ReverseMovement i reason \<Rightarrow> ReverseMovement i (trim reason))"

definition moveCash ::
  "(cash_request \<Rightarrow> string) \<Rightarrow> drawer \<Rightarrow> movement_command \<Rightarrow> string option \<Rightarrow> (cash_movement_data \<times> int \<times> bool) tact" where
  "moveCash digest d cmd value =
     bindM (requireKey value) (\<lambda>key.
     bindM (requireCurrent d) (\<lambda>shift. persistMovement digest d (sd_id shift) (trimmed cmd) key))"

end
