(* ===== verification/CashClosures.thy ===== *)
theory CashClosures
  imports CashMovements
begin

text \<open>
  Closing a shift, after \<open>src/pos/cash-register-closure.repository.ts\<close> and its service: the user
  counts the cash, the repository computes what should be there, stores both with the difference,
  and asks for a reason when they differ. This module has its own parser of amounts, with a sign,
  and prints the expected cash with \<open>fromCents\<close>, which has none; the text goes to a
  \<open>DECIMAL\<close> column.
\<close>

section \<open>Amounts\<close>

definition closure_cents :: "string \<Rightarrow> int option" where
  "closure_cents s =
     (let (negative, normalized) = strip_minus s;
          (whole, fraction) = split_point normalized
      in map_option (\<lambda>v. if negative then - v else v)
           (option_map2 (\<lambda>w f. w * 100 + f) (bigint_of whole) (bigint_of (padEnd0 2 fraction))))"

definition fromCents :: "int \<Rightarrow> string" where
  "fromCents v = bigint_text (bigint_div v 100) @ ''.'' @ padStart0 2 (bigint_text (bigint_mod v 100))"

definition fromSignedCents :: "int \<Rightarrow> string" where
  "fromSignedCents v = (if v < 0 then ''-'' @ fromCents (- v) else fromCents v)"

text \<open>A decimal column in strict mode: digits, a point and two digits, with a sign, or an error.\<close>

definition sqlDecimal :: "string \<Rightarrow> int option" where
  "sqlDecimal s =
     (let (negative, t) = strip_minus s;
          (whole, fraction) = split_point t
      in if t = whole @ ''.'' @ fraction \<and> whole \<noteq> [] \<and> list_all is_digit whole \<and> length fraction = 2 \<and> list_all is_digit fraction
         then Some (let v = int (nat_of_digits whole) * 100 + int (nat_of_digits fraction) in if negative then - v else v)
         else None)"

definition storeDecimal :: "string \<Rightarrow> trade_error + int" where
  "storeDecimal s = (case sqlDecimal s of None \<Rightarrow> Inl SqlIncorrectValue | Some v \<Rightarrow> Inr v)"

section \<open>Reads\<close>

record closure_summary =
  su_opening :: int
  su_sales_count :: nat
  su_cash_sales :: int
  su_movements_count :: nat
  su_movements_net :: int

definition summaryOf :: "shift_row \<Rightarrow> trade_db \<Rightarrow> closure_summary" where
  "summaryOf r db =
     \<lparr>su_opening = sh_opening r, su_sales_count = length (filter (shiftSale r) (sales db)),
      su_cash_sales = cashPaid r db - cashRefunded r db,
      su_movements_count = length (filter (\<lambda>m. cv_tenant m = sh_tenant r \<and> cv_shift m = sh_id r) (cash_movements db)),
      su_movements_net = movementsNet r db\<rparr>"

definition closureSummary :: "id \<Rightarrow> id \<Rightarrow> closure_summary tact" where
  "closureSummary t i =
     bindM (readM (\<lambda>db. map_option (\<lambda>r. summaryOf r db) (shiftOf t i db))) (requireM CashRegisterClosureNotFoundError)"

record closure_data =
  ud_shift :: shift_data
  ud_closed_by :: "id \<times> string"
  ud_summary :: closure_summary
  ud_expected :: "int option"
  ud_counted :: "int option"
  ud_difference :: "int option"
  ud_reason :: "string option"
  ud_denominations :: "(int \<times> nat) list"
  ud_closed_at :: "nat option"

definition closureData :: "trade_db \<Rightarrow> shift_row \<Rightarrow> closure_data option" where
  "closureData db r =
     (case (shiftData db r, Option.bind (sh_closed_by r) (\<lambda>u. userOf (sh_tenant r) u db)) of
        (Some s, Some u) \<Rightarrow> Some
          \<lparr>ud_shift = s, ud_closed_by = (us_id u, us_email u), ud_summary = summaryOf r db,
           ud_expected = sh_expected r, ud_counted = sh_counted r, ud_difference = sh_difference r,
           ud_reason = sh_reason r, ud_denominations = sh_denominations r, ud_closed_at = sh_closed_at r\<rparr>
      | _ \<Rightarrow> None)"

definition findClosure :: "id \<Rightarrow> id \<Rightarrow> trade_db \<Rightarrow> closure_data option" where
  "findClosure t i db =
     (case List.map_filter (closureData db) (filter (\<lambda>r. sh_tenant r = t \<and> sh_id r = i) (shifts db)) of
        [] \<Rightarrow> None | x # _ \<Rightarrow> Some x)"

text \<open>\<open>latest\<close>: of the closed shifts of the register the one closed last.\<close>

definition latestClosure :: "drawer \<Rightarrow> trade_db \<Rightarrow> closure_data option" where
  "latestClosure d db =
     (case List.map_filter (closureData db)
         (sort_key (\<lambda>r. case sh_closed_at r of None \<Rightarrow> 0 | Some n \<Rightarrow> - int n)
           (filter (\<lambda>r. sh_tenant r = dr_tenant d \<and> sh_branch r = dr_branch d \<and> sh_register r = dr_register d \<and> \<not> sh_open r) (shifts db))) of
        [] \<Rightarrow> None | x # _ \<Rightarrow> Some x)"

section \<open>close\<close>

record closure_input =
  ci_counted :: int
  ci_reason :: "string option"
  ci_denominations :: "(int \<times> nat) list"

text \<open>\<open>localeCompare\<close> on the texts of the denominations is given by collation keys.\<close>

definition closureFingerprint :: "(cash_request \<Rightarrow> string) \<Rightarrow> (string \<Rightarrow> string) \<Rightarrow> closure_input \<Rightarrow> id \<Rightarrow> string" where
  "closureFingerprint digest collate x i =
     digest (CloseRequest i (ci_counted x) (ci_reason x)
       (sort_key (\<lambda>y. collate (fromSignedCents (fst y))) (ci_denominations x)))"

text \<open>The row that the request is about: the one closed under this key before the open one. In
  \<open>ORDER BY (closing_idempotency_key = ?) DESC\<close> a null comes last.\<close>

definition closingRank :: "string \<Rightarrow> shift_row \<Rightarrow> int \<times> int \<times> int" where
  "closingRank key r =
     (case sh_closing_key r of None \<Rightarrow> 0 | Some k \<Rightarrow> if k = key then - 2 else - 1,
      if sh_open r then - 1 else 0, - int (sh_opened_at r))"

definition closingShift :: "drawer \<Rightarrow> string \<Rightarrow> trade_db \<Rightarrow> shift_row option" where
  "closingShift d key db =
     (case sort_key (closingRank key) (filter (\<lambda>r. ofDrawer d r \<and> (sh_open r \<or> sh_closing_key r = Some key)) (shifts db)) of
        [] \<Rightarrow> None | r # _ \<Rightarrow> Some r)"

definition hasClosedShift :: "drawer \<Rightarrow> trade_db \<Rightarrow> bool" where
  "hasClosedShift d db \<longleftrightarrow> (\<exists>r\<in>set (shifts db). ofDrawer d r \<and> \<not> sh_open r)"

definition closedRowOf ::
  "drawer \<Rightarrow> closure_input \<Rightarrow> string \<Rightarrow> string \<Rightarrow> int \<Rightarrow> int \<Rightarrow> nat \<Rightarrow> shift_row \<Rightarrow> shift_row" where
  "closedRowOf d x key fingerprint expected difference now r =
     r\<lparr>sh_open := False, sh_closed_by := Some (dr_user d), sh_counted := Some (ci_counted x),
       sh_expected := Some expected, sh_difference := Some difference, sh_reason := ci_reason x,
       sh_denominations := ci_denominations x, sh_closing_key := Some key,
       sh_closing_fingerprint := Some fingerprint, sh_closed_at := Some now\<rparr>"

text \<open>The \<open>UPDATE\<close>: unique \<open>(tenant_id, closing_idempotency_key)\<close>.\<close>

definition closeRow ::
  "drawer \<Rightarrow> closure_input \<Rightarrow> string \<Rightarrow> string \<Rightarrow> int \<Rightarrow> int \<Rightarrow> nat \<Rightarrow> id \<Rightarrow> unit tact" where
  "closeRow d x key fingerprint expected difference now i =
     bindM (readM shifts) (\<lambda>rows.
     thenM (ensureM TradeDuplicateEntry
        (\<not> (\<exists>r\<in>set rows. sh_tenant r = dr_tenant d \<and> sh_id r \<noteq> i \<and> sh_closing_key r = Some key)))
       (writeM (\<lambda>db. db\<lparr>shifts := update_where (\<lambda>r. sh_id r = i \<and> sh_tenant r = dr_tenant d \<and> sh_open r)
          (closedRowOf d x key fingerprint expected difference now) (shifts db)\<rparr>)))"

text \<open>\<open>!input.differenceReason\<close>: missing or empty.\<close>

definition missingReason :: "string option \<Rightarrow> bool" where
  "missingReason reason \<longleftrightarrow> reason = None \<or> reason = Some []"

definition closeOpenShift ::
  "drawer \<Rightarrow> closure_input \<Rightarrow> string \<Rightarrow> string \<Rightarrow> id \<Rightarrow> (closure_data \<times> bool) tact" where
  "closeOpenShift d x key fingerprint i =
     bindM (closureSummary (dr_tenant d) i) (\<lambda>summary.
     let expected = su_opening summary + su_cash_sales summary + su_movements_net summary;
         difference = ci_counted x - expected in
     thenM (ensureM CashRegisterClosureReasonRequiredError (\<not> (difference \<noteq> 0 \<and> missingReason (ci_reason x))))
     (bindM (liftE (storeDecimal (fromCents expected))) (\<lambda>storedExpected.
      bindM (liftE (storeDecimal (fromSignedCents difference))) (\<lambda>storedDifference.
      bindM currentTime (\<lambda>now.
      thenM (closeRow d x key fingerprint storedExpected storedDifference now i)
      (bindM (readM (findClosure (dr_tenant d) i)) (\<lambda>found.
       bindM (requireM CashRegisterClosureNotFoundError found) (\<lambda>c. returnM (c, False))))))))) "

definition closeShift ::
  "(cash_request \<Rightarrow> string) \<Rightarrow> (string \<Rightarrow> string) \<Rightarrow> drawer \<Rightarrow> closure_input \<Rightarrow> string \<Rightarrow> (closure_data \<times> bool) tact" where
  "closeShift digest collate d x key =
     bindM (readM (closingShift d key)) (\<lambda>found.
     case found of None \<Rightarrow>
       bindM (readM (hasClosedShift d)) (\<lambda>closed.
         throwM (if closed then CashRegisterAlreadyClosedError else CashRegisterClosureNotFoundError))
     | Some r \<Rightarrow>
        let fingerprint = closureFingerprint digest collate x (sh_id r) in
        if \<not> sh_open r then
          thenM (ensureM CashRegisterClosureIdempotencyConflictError (sh_closing_fingerprint r = Some fingerprint))
          (bindM (readM (findClosure (dr_tenant d) (sh_id r))) (\<lambda>stored.
           bindM (requireM CashRegisterClosureNotFoundError stored) (\<lambda>c. returnM (c, True))))
        else closeOpenShift d x key fingerprint (sh_id r))"

text \<open>The service: the key, the denominations, and a trimmed reason or \<open>null\<close>.\<close>

definition trimmedReason :: "string option \<Rightarrow> string option" where
  "trimmedReason reason =
     (case reason of None \<Rightarrow> None | Some s \<Rightarrow> if trim s = [] then None else Some (trim s))"

definition denominationTotal :: "(int \<times> nat) list \<Rightarrow> int" where
  "denominationTotal xs = foldl (\<lambda>acc x. acc + fst x * int (snd x)) 0 xs"

definition closeRequest ::
  "(cash_request \<Rightarrow> string) \<Rightarrow> (string \<Rightarrow> string) \<Rightarrow> drawer \<Rightarrow> closure_input \<Rightarrow> string option \<Rightarrow> (closure_data \<times> bool) tact" where
  "closeRequest digest collate d x value =
     bindM (requireKey value) (\<lambda>key.
     thenM (ensureM (Code ''DENOMINATION_TOTAL_MISMATCH'')
        (ci_denominations x = [] \<or> denominationTotal (ci_denominations x) = ci_counted x))
       (closeShift digest collate d (x\<lparr>ci_reason := trimmedReason (ci_reason x)\<rparr>) key))"

end
