(* ===== verification/Settlements.thy ===== *)
theory Settlements
  imports CashMovements
begin

text \<open>
  Settling a sale return, after \<open>src/pos/sale-return-settlement.repository.ts\<close>,
  \<open>SaleReturnService.settle\<close> and \<open>src/pos/payment-refund.service.ts\<close>: part of the value of a
  return is paid back through one of the payments of the sale, or credited to the customer. A
  failed refund of the provider is stored too, and moves no money.

  \<open>digest\<close> stands for \<open>createHash('sha256')\<close> on the serialised request, \<open>seal\<close> on the
  serialised refund; \<open>provider\<close> is the configured provider of the payments that are not cash.
  The audit event of the transaction is not modelled. \<open>toUpperCase\<close> is that of ASCII text.
\<close>

section \<open>Refunds\<close>

record refund_result =
  rf_completed :: bool
  rf_provider :: string
  rf_reference :: "string option"
  rf_failure :: "string option"

definition upperAscii :: "char \<Rightarrow> char" where
  "upperAscii c = (let n = of_char c :: nat in if 97 \<le> n \<and> n \<le> 122 then char_of (n - 32) else c)"

definition startsWith :: "string \<Rightarrow> string \<Rightarrow> bool" where
  "startsWith prefix s \<longleftrightarrow> take (length prefix) s = prefix"

definition refund ::
  "(string option \<times> int \<times> string \<times> string \<Rightarrow> string) \<Rightarrow> string \<Rightarrow> payment_method \<Rightarrow> string option \<Rightarrow> string option \<Rightarrow>
   int \<Rightarrow> string \<Rightarrow> string \<Rightarrow> refund_result" where
  "refund seal provider meth external reference amount currency key =
     (if meth = CASH then \<lparr>rf_completed = True, rf_provider = ''CASH'', rf_reference = None, rf_failure = None\<rparr>
      else if provider \<noteq> ''SIMULATOR'' then
        \<lparr>rf_completed = False, rf_provider = provider, rf_reference = None, rf_failure = Some ''REFUND_PROVIDER_UNAVAILABLE''\<rparr>
      else if (case external of None \<Rightarrow> False | Some s \<Rightarrow> startsWith ''FAIL-REFUND'' (map upperAscii s)) then
        \<lparr>rf_completed = False, rf_provider = ''SIMULATOR'', rf_reference = None, rf_failure = Some ''SIMULATED_REFUND_FAILURE''\<rparr>
      else \<lparr>rf_completed = True, rf_provider = ''SIMULATOR'',
             rf_reference = Some (''SIM-REF-'' @ map upperAscii (take 20 (seal (reference, amount, currency, key)))), rf_failure = None\<rparr>)"

section \<open>Requests and reads\<close>

datatype settle_request = SettleRequest id id settlement_mode int "id option"

record settle_input =
  si_drawer :: drawer
  si_shift :: "id option"
  si_sale :: id
  si_return :: id
  si_key :: string
  si_fingerprint :: string
  si_mode :: settlement_mode
  si_amount :: int
  si_payment :: "id option"

record settlement_data =
  td_row :: settlement_row
  td_payment_method :: "payment_method option"
  td_processed_by :: "id \<times> string"

definition returnOf :: "id \<Rightarrow> id \<Rightarrow> trade_db \<Rightarrow> sale_return_row option" where
  "returnOf t i db = List.find (\<lambda>r. rt_id r = i \<and> rt_tenant r = t) (sale_returns db)"

definition saleOf :: "id \<Rightarrow> id \<Rightarrow> trade_db \<Rightarrow> sale_row option" where
  "saleOf t i db = List.find (\<lambda>s. sa_id s = i \<and> sa_tenant s = t) (sales db)"

definition paymentOf :: "id \<Rightarrow> id \<Rightarrow> trade_db \<Rightarrow> sale_payment_row option" where
  "paymentOf t i db = List.find (\<lambda>p. sp_id p = i \<and> sp_tenant p = t) (sale_payments db)"

text \<open>\<open>select\<close> with its joins: the row, the return, the sale and the data.\<close>

definition settlementJoined :: "trade_db \<Rightarrow> settlement_row \<Rightarrow> (settlement_row \<times> sale_row \<times> settlement_data) option" where
  "settlementJoined db x =
     (case (returnOf (sm_tenant x) (sm_return x) db, userOf (sm_tenant x) (sm_user x) db) of
        (Some r, Some u) \<Rightarrow> map_option (\<lambda>s. (x, s,
            \<lparr>td_row = x,
             td_payment_method = Option.bind (sm_payment x) (\<lambda>i. map_option sp_method (paymentOf (sm_tenant x) i db)),
             td_processed_by = (us_id u, us_email u)\<rparr>)) (saleOf (rt_tenant r) (rt_sale r) db)
      | _ \<Rightarrow> None)"

definition selectSettlement :: "(settlement_row \<Rightarrow> bool) \<Rightarrow> trade_db \<Rightarrow> (settlement_row \<times> sale_row \<times> settlement_data) list" where
  "selectSettlement sel db = List.map_filter (settlementJoined db) (filter sel (settlements db))"

definition firstOf :: "'a list \<Rightarrow> 'a option" where
  "firstOf xs = (case xs of [] \<Rightarrow> None | x # _ \<Rightarrow> Some x)"

definition findSettlementByKey :: "id \<Rightarrow> string \<Rightarrow> trade_db \<Rightarrow> (settlement_row \<times> sale_row \<times> settlement_data) option" where
  "findSettlementByKey t key db = firstOf (selectSettlement (\<lambda>x. sm_tenant x = t \<and> sm_key x = key) db)"

definition findSettlementById :: "id \<Rightarrow> id \<Rightarrow> trade_db \<Rightarrow> settlement_data option" where
  "findSettlementById t i db = map_option (\<lambda>(_, _, data). data) (firstOf (selectSettlement (\<lambda>x. sm_tenant x = t \<and> sm_id x = i) db))"

definition listSettlements :: "id \<Rightarrow> id \<Rightarrow> trade_db \<Rightarrow> settlement_data list" where
  "listSettlements t i db =
     map (\<lambda>(_, _, data). data)
       (sort_key (\<lambda>(x, _, _). (sm_created_at x, sm_id x)) (selectSettlement (\<lambda>x. sm_tenant x = t \<and> sm_return x = i) db))"

text \<open>The three sums: what a return and a payment have given back, and what is left to give back.\<close>

definition settledOf :: "id \<Rightarrow> id \<Rightarrow> trade_db \<Rightarrow> int" where
  "settledOf t i db = sum_where (\<lambda>x. sm_tenant x = t \<and> sm_return x = i \<and> sm_completed x) sm_amount (settlements db)"

definition refundedOf :: "id \<Rightarrow> id \<Rightarrow> trade_db \<Rightarrow> int" where
  "refundedOf t i db = sum_where (\<lambda>x. sm_tenant x = t \<and> sm_payment x = Some i \<and> sm_completed x) sm_amount (settlements db)"

definition refundable :: "sale_return_row \<Rightarrow> int" where
  "refundable r = rt_total r - rt_loyalty_restored r"

text \<open>\<open>toMoney\<close>, which has no sign either.\<close>

definition settlement_cents :: "string \<Rightarrow> int option" where
  "settlement_cents s =
     (let (whole, fraction) = split_point s
      in option_map2 (\<lambda>w f. w * 100 + f) (bigint_of whole) (bigint_of (take 2 (padEnd0 2 fraction))))"

definition toMoney :: "int \<Rightarrow> trade_error + int" where
  "toMoney x = (case settlement_cents (sqlMoney x) of None \<Rightarrow> Inl (Code ''SyntaxError'') | Some v \<Rightarrow> Inr v)"

section \<open>create\<close>

definition replaySettlement ::
  "settle_input \<Rightarrow> settlement_row \<times> sale_row \<times> settlement_data \<Rightarrow> (settlement_data \<times> bool) option tact" where
  "replaySettlement x stored =
     (case stored of (row, sale, data) \<Rightarrow>
       thenM (ensureM PosIdempotencyConflictError
         (sa_branch sale = dr_branch (si_drawer x) \<and> sa_id sale = si_sale x \<and> sm_return row = si_return x \<and>
          sm_fingerprint row = si_fingerprint x))
       (returnM (Some (data, True))))"

definition settlement_check :: "settlement_row \<Rightarrow> bool" where
  "settlement_check x \<longleftrightarrow> 0 < sm_amount x \<and>
     (case sm_method x of StoreCredit \<Rightarrow> sm_mode x = STORE_CREDIT \<and> sm_payment x = None \<and> sm_shift x = None
      | Refund m \<Rightarrow> m \<noteq> CREDIT \<and> sm_mode x = REFUND \<and> sm_payment x \<noteq> None \<and> (m = CASH \<longrightarrow> sm_shift x \<noteq> None)) \<and>
     (sm_completed x \<longleftrightarrow> sm_failure x = None)"

definition settlement_clash :: "settlement_row \<Rightarrow> settlement_row \<Rightarrow> bool" where
  "settlement_clash x y \<longleftrightarrow> sm_id x = sm_id y \<or> (sm_tenant x = sm_tenant y \<and> sm_key x = sm_key y)"

definition insertSettlement :: "settlement_row \<Rightarrow> unit tact" where
  "insertSettlement x =
     bindM (readM settlements) (\<lambda>rows.
     thenM (ensureM TradeDuplicateEntry (\<forall>y\<in>set rows. \<not> settlement_clash y x))
     (thenM (ensureM TradeCheckViolated (settlement_check x))
       (writeM (\<lambda>db. db\<lparr>settlements := settlements db @ [x]\<rparr>))))"

definition insertCustomerCredit :: "credit_row \<Rightarrow> unit tact" where
  "insertCustomerCredit c =
     bindM (readM customer_credits) (\<lambda>rows.
     thenM (ensureM TradeDuplicateEntry
        (\<forall>y\<in>set rows. ck_id y \<noteq> ck_id c \<and> \<not> (ck_tenant y = ck_tenant c \<and> ck_settlement y = ck_settlement c)))
     (thenM (ensureM TradeCheckViolated (0 < ck_amount c))
       (writeM (\<lambda>db. db\<lparr>customer_credits := customer_credits db @ [c]\<rparr>))))"

text \<open>The return with its sale, in the branch of the request.\<close>

definition settlementTarget :: "settle_input \<Rightarrow> trade_db \<Rightarrow> (sale_return_row \<times> sale_row) option" where
  "settlementTarget x db =
     (case returnOf (dr_tenant (si_drawer x)) (si_return x) db of None \<Rightarrow> None
      | Some r \<Rightarrow> if rt_sale r \<noteq> si_sale x then None
          else (case saleOf (rt_tenant r) (rt_sale r) db of None \<Rightarrow> None
            | Some s \<Rightarrow> if sa_branch s = dr_branch (si_drawer x) then Some (r, s) else None))"

text \<open>A cash refund needs the open shift of the drawer, and the cash in it.\<close>

definition cashRefundShift :: "settle_input \<Rightarrow> id tact" where
  "cashRefundShift x =
     bindM (requireM SaleReturnSettlementShiftError (si_shift x)) (\<lambda>i.
     bindM (readM shifts) (\<lambda>rows.
     thenM (ensureM SaleReturnSettlementShiftError (\<exists>r\<in>set rows. sh_id r = i \<and> ofDrawer (si_drawer x) r \<and> sh_open r))
     (bindM (readM (\<lambda>db. map_option (\<lambda>r. expectedOf r db) (shiftOf (dr_tenant (si_drawer x)) i db))) (\<lambda>found.
      bindM (requireM SaleReturnSettlementCashError found) (\<lambda>expected.
      bindM (liftE (toMoney expected)) (\<lambda>present.
      thenM (ensureM SaleReturnSettlementCashError (\<not> present < si_amount x)) (returnM i)))))))"

definition storeCreditOutcome :: refund_result where
  "storeCreditOutcome = \<lparr>rf_completed = True, rf_provider = ''STORE_CREDIT'', rf_reference = None, rf_failure = None\<rparr>"

text \<open>The method, the payment, the shift and the outcome.\<close>

definition settlementPlan ::
  "(string option \<times> int \<times> string \<times> string \<Rightarrow> string) \<Rightarrow> string \<Rightarrow> settle_input \<Rightarrow> sale_row \<Rightarrow>
   (settlement_method \<times> id option \<times> id option \<times> refund_result) tact" where
  "settlementPlan seal provider x sale =
     (case si_mode x of
        STORE_CREDIT \<Rightarrow>
          thenM (ensureM SaleReturnSettlementCustomerError (si_payment x = None \<and> sa_customer sale \<noteq> None))
            (returnM (StoreCredit, None, None, storeCreditOutcome))
      | REFUND \<Rightarrow>
          bindM (requireM SaleReturnSettlementPaymentError (si_payment x)) (\<lambda>i.
          bindM (readM (\<lambda>db. List.find (\<lambda>p. sp_id p = i \<and> sp_tenant p = dr_tenant (si_drawer x) \<and> sp_sale p = si_sale x) (sale_payments db))) (\<lambda>found.
          bindM (requireM SaleReturnSettlementPaymentError found) (\<lambda>p.
          thenM (ensureM SaleReturnSettlementPaymentError (sp_status p = PaymentCompleted))
          (bindM (readM (refundedOf (dr_tenant (si_drawer x)) (sp_id p))) (\<lambda>refunded.
           thenM (ensureM SaleReturnSettlementPaymentError (\<not> sp_applied p < refunded + si_amount x))
           (bindM (if sp_method p = CASH then bindM (cashRefundShift x) (\<lambda>s. returnM (Some s)) else returnM None) (\<lambda>shift.
             returnM (Refund (sp_method p), Some (sp_id p), shift,
               refund seal provider (sp_method p) (sp_external p) (sp_reference p) (si_amount x) (sp_currency p) (si_key x)))))))))) "

definition newSettlement ::
  "settle_input \<Rightarrow> sale_row \<Rightarrow> settlement_method \<times> id option \<times> id option \<times> refund_result \<Rightarrow> id \<times> nat \<Rightarrow> settlement_row" where
  "newSettlement x sale outline i =
     (case outline of (meth, payment, shift, outcome) \<Rightarrow>
       \<lparr>sm_id = fst i, sm_tenant = dr_tenant (si_drawer x), sm_return = si_return x, sm_payment = payment, sm_shift = shift,
        sm_mode = si_mode x, sm_method = meth, sm_completed = rf_completed outcome, sm_currency = sa_currency sale,
        sm_amount = si_amount x, sm_provider = rf_provider outcome, sm_reference = rf_reference outcome,
        sm_failure = rf_failure outcome, sm_key = si_key x, sm_fingerprint = si_fingerprint x,
        sm_user = dr_user (si_drawer x), sm_created_at = snd i\<rparr>)"

text \<open>The entry of the customer's credit, for a store credit. The customer is the one of the
  sale.\<close>

definition creditCustomer :: "settle_input \<Rightarrow> sale_row \<Rightarrow> settlement_row \<Rightarrow> unit tact" where
  "creditCustomer x sale row =
     whenM (sm_completed row \<and> si_mode x = STORE_CREDIT)
       (case sa_customer sale of None \<Rightarrow> throwM TradeCheckViolated
        | Some c \<Rightarrow> bindM newTradeRow (\<lambda>k. insertCustomerCredit
            \<lparr>ck_id = fst k, ck_tenant = sm_tenant row, ck_customer = c, ck_settlement = sm_id row,
             ck_currency = sa_currency sale, ck_amount = si_amount x, ck_user = dr_user (si_drawer x), ck_created_at = snd k\<rparr>))"

definition markSettled :: "settle_input \<Rightarrow> bool \<Rightarrow> settlement_row \<Rightarrow> unit tact" where
  "markSettled x complete row =
     whenM (sm_completed row)
       (writeM (\<lambda>db. db\<lparr>sale_returns := update_where (\<lambda>r. rt_id r = si_return x \<and> rt_tenant r = dr_tenant (si_drawer x))
          (\<lambda>r. r\<lparr>rt_settlement := (if complete then Settled else PartiallySettled)\<rparr>) (sale_returns db)\<rparr>))"

definition settleReturn ::
  "(string option \<times> int \<times> string \<times> string \<Rightarrow> string) \<Rightarrow> string \<Rightarrow> settle_input \<Rightarrow> sale_return_row \<Rightarrow> sale_row \<Rightarrow>
   (settlement_data \<times> bool) option tact" where
  "settleReturn seal provider x r sale =
     bindM (readM (settledOf (dr_tenant (si_drawer x)) (rt_id r))) (\<lambda>settled.
     thenM (ensureM SaleReturnSettlementAmountError (0 < si_amount x \<and> \<not> refundable r < settled + si_amount x))
     (bindM (settlementPlan seal provider x sale) (\<lambda>outline.
      bindM newTradeRow (\<lambda>i.
      let row = newSettlement x sale outline i in
      thenM (insertSettlement row)
      (thenM (creditCustomer x sale row)
      (thenM (markSettled x (settled + si_amount x = refundable r) row)
      (bindM (readM (findSettlementById (dr_tenant (si_drawer x)) (fst i))) (\<lambda>found.
       bindM (requireM (Code ''SALE_RETURN_SETTLEMENT_NOT_FOUND'') found) (\<lambda>data.
         returnM (Some (data, False)))))))))))"

definition settlementTransaction ::
  "(string option \<times> int \<times> string \<times> string \<Rightarrow> string) \<Rightarrow> string \<Rightarrow> settle_input \<Rightarrow> (settlement_data \<times> bool) option tact" where
  "settlementTransaction seal provider x =
     bindM (readM (findSettlementByKey (dr_tenant (si_drawer x)) (si_key x))) (\<lambda>existing.
     case existing of Some stored \<Rightarrow> replaySettlement x stored
     | None \<Rightarrow>
        bindM (readM (settlementTarget x)) (\<lambda>target.
        case target of None \<Rightarrow> returnM None
        | Some (r, sale) \<Rightarrow>
           bindM (readM (findSettlementByKey (dr_tenant (si_drawer x)) (si_key x))) (\<lambda>concurrent.
           case concurrent of Some stored \<Rightarrow> replaySettlement x stored
           | None \<Rightarrow> settleReturn seal provider x r sale)))"

definition createSettlement ::
  "(string option \<times> int \<times> string \<times> string \<Rightarrow> string) \<Rightarrow> string \<Rightarrow> settle_input \<Rightarrow> (settlement_data \<times> bool) option tact" where
  "createSettlement seal provider x =
     catchM (\<lambda>e. e = TradeDuplicateEntry) (settlementTransaction seal provider x)
       (\<lambda>e. bindM (readM (findSettlementByKey (dr_tenant (si_drawer x)) (si_key x))) (\<lambda>found.
        case found of None \<Rightarrow> throwM e | Some stored \<Rightarrow> replaySettlement x stored))"

text \<open>The service: the key, the fingerprint, and the open shift of the drawer for a refund; no
  return is a 404.\<close>

definition settle ::
  "(settle_request \<Rightarrow> string) \<Rightarrow> (string option \<times> int \<times> string \<times> string \<Rightarrow> string) \<Rightarrow> string \<Rightarrow>
   settle_input \<Rightarrow> string option \<Rightarrow> (settlement_data \<times> bool) tact" where
  "settle digest seal provider x value =
     bindM (requireKey value) (\<lambda>key.
     bindM (readM (\<lambda>db. if si_mode x = REFUND then map_option sd_id (findCurrent (si_drawer x) db) else None)) (\<lambda>shift.
     bindM (createSettlement seal provider (x\<lparr>si_key := key, si_shift := shift,
        si_fingerprint := digest (SettleRequest (si_sale x) (si_return x) (si_mode x) (si_amount x) (si_payment x))\<rparr>))
       (requireM (Code ''NOT_FOUND''))))"

end
