(* ===== verification/DrawerLaws.thy ===== *)
theory DrawerLaws
  imports CashLaws
begin

text \<open>
  The invariants of the cash drawer and what every operation does to the expected cash.

  \<open>drawer_inv\<close>: shifts and movements respect their unique keys and checks, a reversal copies
  the amount of an income or withdrawal of the same shift, payments are not negative, and
  movements, sales and settlements refer to shifts that exist. \<open>solvent\<close>: no shift is
  expected to hold a negative amount of cash.
\<close>

section \<open>Invariants\<close>

definition shifts_ok :: "shift_row list \<Rightarrow> bool" where
  "shifts_ok rows \<longleftrightarrow> sorted_wrt (\<lambda>x y. \<not> shift_clash x y) rows \<and> (\<forall>r\<in>set rows. shift_check r)"

definition reversal_ok :: "cash_movement_row list \<Rightarrow> cash_movement_row \<Rightarrow> bool" where
  "reversal_ok rows m \<longleftrightarrow> (cv_type m = REVERSAL \<longrightarrow>
     (\<exists>x. originalOf rows m = Some x \<and> cv_shift x = cv_shift m \<and> cv_type x \<noteq> REVERSAL \<and> cv_amount x = cv_amount m))"

definition movements_ok :: "cash_movement_row list \<Rightarrow> bool" where
  "movements_ok rows \<longleftrightarrow> sorted_wrt (\<lambda>x y. \<not> movement_clash x y) rows \<and>
     (\<forall>m\<in>set rows. cash_movement_check m \<and> reversal_ok rows m)"

definition shiftKeys :: "trade_db \<Rightarrow> (id \<times> id) set" where
  "shiftKeys db = (\<lambda>r. (sh_tenant r, sh_id r)) ` set (shifts db)"

definition references_ok :: "trade_db \<Rightarrow> bool" where
  "references_ok db \<longleftrightarrow>
     (\<forall>m\<in>set (cash_movements db). (cv_tenant m, cv_shift m) \<in> shiftKeys db) \<and>
     (\<forall>s\<in>set (sales db). case sa_shift s of None \<Rightarrow> True | Some i \<Rightarrow> (sa_tenant s, i) \<in> shiftKeys db) \<and>
     (\<forall>x\<in>set (settlements db). case sm_shift x of None \<Rightarrow> True | Some i \<Rightarrow> (sm_tenant x, i) \<in> shiftKeys db)"

definition drawer_inv :: "trade_db \<Rightarrow> bool" where
  "drawer_inv db \<longleftrightarrow> shifts_ok (shifts db) \<and> movements_ok (cash_movements db) \<and> references_ok db \<and>
     (\<forall>p\<in>set (sale_payments db). 0 \<le> sp_applied p)"

definition solvent :: "trade_db \<Rightarrow> bool" where
  "solvent db \<longleftrightarrow> (\<forall>r\<in>set (shifts db). 0 \<le> expectedOf r db)"

lemma drawer_invD:
  assumes "drawer_inv db"
  shows "shifts_ok (shifts db)" "movements_ok (cash_movements db)" "references_ok db"
    "p \<in> set (sale_payments db) \<Longrightarrow> 0 \<le> sp_applied p"
  using assms by (simp_all add: drawer_inv_def)

lemma sorted_wrt_keys:
  "sorted_wrt (\<lambda>x y. \<not> c x y) rows \<Longrightarrow> (\<And>x y. key x = key y \<Longrightarrow> c x y) \<Longrightarrow> distinct (map key rows)"
  by (induction rows) (auto simp: image_iff)

lemma shift_ids: "shifts_ok rows \<Longrightarrow> distinct (map sh_id rows)"
  unfolding shifts_ok_def by (erule conjE, erule sorted_wrt_keys) (simp add: shift_clash_def)

lemma movement_ids: "movements_ok rows \<Longrightarrow> distinct (map cv_id rows)"
  unfolding movements_ok_def by (erule conjE, erule sorted_wrt_keys) (simp add: movement_clash_def)

lemma shiftOf_row: "shifts_ok (shifts db) \<Longrightarrow> r \<in> set (shifts db) \<Longrightarrow> shiftOf (sh_tenant r) (sh_id r) db = Some r"
  unfolding shiftOf_def by (rule find_unique_key [OF shift_ids]) auto

lemma shiftOf_Some: "shiftOf t i db = Some r \<Longrightarrow> r \<in> set (shifts db) \<and> sh_tenant r = t \<and> sh_id r = i"
  unfolding shiftOf_def by (drule find_Some_props) simp

section \<open>Movements\<close>

lemma movement_types: "cash_movement_check m \<Longrightarrow> cv_type m \<noteq> REVERSAL \<Longrightarrow> cv_reversal_of m = None"
  by (auto simp: cash_movement_check_def)

lemma originalOf_append: "originalOf rows m = Some x \<Longrightarrow> originalOf (rows @ [y]) m = Some x"
  by (auto simp: originalOf_def find_append split: option.splits)

lemma signedAmount_append:
  assumes "movements_ok rows" "x \<in> set rows"
  shows "signedAmount (rows @ [m]) x = signedAmount rows x"
proof (cases "cv_type x")
  case REVERSAL
  then obtain y where "originalOf rows x = Some y"
    using assms by (auto simp: movements_ok_def reversal_ok_def)
  then show ?thesis using originalOf_append [of rows x y m] REVERSAL by (simp add: signedAmount_def)
qed (simp_all add: signedAmount_def)

lemma movements_ok_append:
  assumes "movements_ok rows" "\<forall>x\<in>set rows. \<not> movement_clash x m" "cash_movement_check m" "reversal_ok (rows @ [m]) m"
  shows "movements_ok (rows @ [m])"
proof -
  have "reversal_ok (rows @ [m]) x" if "x \<in> set rows" for x
  proof -
    have "reversal_ok rows x" using assms(1) that by (simp add: movements_ok_def)
    then show ?thesis using originalOf_append unfolding reversal_ok_def by blast
  qed
  then show ?thesis using assms by (auto simp: movements_ok_def sorted_wrt_append)
qed

text \<open>The amount a request adds to the drawer.\<close>

definition planned :: "cash_type \<times> int \<times> cash_movement_row option \<Rightarrow> int" where
  "planned outline =
     (case outline of (kind, amount, source) \<Rightarrow>
       (case kind of INCOME \<Rightarrow> amount | WITHDRAWAL \<Rightarrow> - amount
        | REVERSAL \<Rightarrow> (case source of None \<Rightarrow> amount | Some x \<Rightarrow> if cv_type x = INCOME then - amount else amount)))"

lemma movementPlan_Inr:
  assumes "movementPlan d shift cmd db = Inr (outline, db')"
  obtains (new) kind amount reason where "cmd = CreateMovement kind amount reason" "outline = (kind, amount, None)"
  | (reversal) i reason x where "cmd = ReverseMovement i reason" "outline = (REVERSAL, cv_amount x, Some x)"
      "x \<in> set (cash_movements db)" "cv_id x = i" "cv_tenant x = dr_tenant d" "cv_shift x = shift" "cv_type x \<noteq> REVERSAL"
proof (cases cmd)
  case (CreateMovement kind amount reason)
  then show thesis using assms new by (auto simp: movementPlan_def runM)
next
  case (ReverseMovement i reason)
  then obtain x where x: "findOriginal (dr_tenant d) shift i db = Some x" "outline = (REVERSAL, cv_amount x, Some x)"
    using assms by (auto simp: movementPlan_def runM)
  from find_Some_props [OF x(1) [unfolded findOriginal_def]] show thesis
    using reversal [OF ReverseMovement x(2)] by auto
qed

lemma new_movement:
  assumes ok: "movements_ok (cash_movements db)" and p: "movementPlan d shift cmd db = Inr (outline, db)"
    and m: "m = newCashMovement d shift cmd outline key f i" and check: "cash_movement_check m"
  shows "signedAmount (cash_movements db @ [m]) m = planned outline" "reversal_ok (cash_movements db @ [m]) m"
    "cv_tenant m = dr_tenant d" "cv_shift m = shift"
proof -
  show keys: "cv_tenant m = dr_tenant d" "cv_shift m = shift"
    by (simp_all add: m newCashMovement_def)
  from p show "signedAmount (cash_movements db @ [m]) m = planned outline"
  proof (cases rule: movementPlan_Inr)
    case (new kind amount reason)
    then have "cv_reversal_of m = None" by (simp add: m newCashMovement_def reversalOf_def)
    then have "cv_type m \<noteq> REVERSAL" using check by (simp add: cash_movement_check_def)
    then show ?thesis
      using new by (cases kind) (simp_all add: signedAmount_def planned_def m newCashMovement_def)
  next
    case (reversal i reason x)
    have "List.find (\<lambda>y. cv_id y = cv_id x \<and> cv_tenant y = cv_tenant x) (cash_movements db) = Some x"
      by (rule find_unique_key [OF movement_ids [OF ok] reversal(3)]) auto
    then have "originalOf (cash_movements db @ [m]) m = Some x"
      using reversal keys by (simp add: originalOf_def find_append m newCashMovement_def reversalOf_def)
    then show ?thesis using reversal by (simp add: signedAmount_def planned_def m newCashMovement_def)
  qed
  from p show "reversal_ok (cash_movements db @ [m]) m"
  proof (cases rule: movementPlan_Inr)
    case (new kind amount reason)
    then have "cv_reversal_of m = None" by (simp add: m newCashMovement_def reversalOf_def)
    then show ?thesis using check by (simp add: cash_movement_check_def reversal_ok_def)
  next
    case (reversal i reason x)
    have "List.find (\<lambda>y. cv_id y = cv_id x \<and> cv_tenant y = cv_tenant x) (cash_movements db) = Some x"
      by (rule find_unique_key [OF movement_ids [OF ok] reversal(3)]) auto
    then have "originalOf (cash_movements db @ [m]) m = Some x"
      using reversal keys by (simp add: originalOf_def find_append m newCashMovement_def reversalOf_def)
    then show ?thesis using reversal by (simp add: reversal_ok_def m newCashMovement_def)
  qed
qed

lemma expectedOf_withMovement:
  assumes "movements_ok (cash_movements db)"
  shows "expectedOf r (withMovement m db) = expectedOf r db +
    (if cv_tenant m = sh_tenant r \<and> cv_shift m = sh_id r then signedAmount (cash_movements db @ [m]) m else 0)"
proof -
  have "sum_where (\<lambda>m. cv_tenant m = sh_tenant r \<and> cv_shift m = sh_id r) (signedAmount (cash_movements db @ [m])) (cash_movements db)
      = sum_where (\<lambda>m. cv_tenant m = sh_tenant r \<and> cv_shift m = sh_id r) (signedAmount (cash_movements db)) (cash_movements db)"
    by (rule sum_where_cong) (simp_all add: signedAmount_append [OF assms])
  then show ?thesis
    by (simp add: expectedOf_def movementsNet_def cashPaid_def cashRefunded_def withMovement_def)
qed

text \<open>The guard: what leaves the drawer is in it, when the expected cash is not negative.\<close>

lemma guardMovement_covers:
  assumes g: "guardMovement d shift cmd outline db = Inr ((), db)" and p: "movementPlan d shift cmd db = Inr (outline, db)"
    and ok: "shifts_ok (shifts db)" "movements_ok (cash_movements db)"
    and r: "r \<in> set (shifts db)" "sh_tenant r = dr_tenant d" "sh_id r = shift" and pos: "0 \<le> expectedOf r db" and amount: "0 < fst (snd outline)"
  shows "0 \<le> expectedOf r db + planned outline"
proof -
  have e: "expectedCash (dr_tenant d) shift db = Inr (expectedOf r db)"
    using shiftOf_row [OF ok(1) r(1)] r by (simp add: expectedCash_def)
  have avail: "fst (snd outline) \<le> expectedOf r db" if "assertCashAvailable (dr_tenant d) shift (fst (snd outline)) db = Inr ((), db)"
    using that e readCents_nonneg [OF pos] readCents_nonneg [of "fst (snd outline)"] amount by (auto simp: assertCashAvailable_Inr)
  from p show ?thesis
  proof (cases rule: movementPlan_Inr)
    case (new kind a reason)
    then show ?thesis
      using g avail amount pos by (cases kind) (auto simp: guardMovement_def planned_def reversalOf_def whenM_def)
  next
    case (reversal i reason x)
    then show ?thesis
      using g avail amount pos by (auto simp: guardMovement_def planned_def reversalOf_def whenM_def runM split: if_splits)
  qed
qed

text \<open>What a new movement does: the row is stored, the expected cash of its shift changes by the
  planned amount and that of no other shift.\<close>

lemma persistMovement_fresh:
  assumes run: "persistMovement digest d shift cmd key db = Inr ((data, e, False), db')" and inv: "drawer_inv db"
  obtains r outline m where "r \<in> set (shifts db)" "sh_id r = shift" "ofDrawer d r" "sh_open r"
    "movementPlan d shift cmd db = Inr (outline, db)" "guardMovement d shift cmd outline db = Inr ((), db)"
    "db' = withMovement m db" "cash_movement_check m" "\<forall>x\<in>set (cash_movements db). \<not> movement_clash x m"
    "cv_tenant m = dr_tenant d" "cv_shift m = shift" "fst (snd outline) = cv_amount m" "cv_reversal_of m = reversalOf cmd" "cv_type m = fst outline"
    "movements_ok (cash_movements db')" "e = expectedOf r db'"
    "\<And>q. q \<in> set (shifts db) \<Longrightarrow> expectedOf q db' = expectedOf q db + (if q = r then planned outline else 0)"
  using run
proof (cases rule: persistMovement_Inr)
  case (fresh outline m)
  note inv = drawer_invD [OF inv]
  obtain r where r: "r \<in> set (shifts db)" "sh_id r = shift" "ofDrawer d r" "sh_open r" using fresh(2) by blast
  note M = new_movement [OF inv(2) fresh(3,5,7)]
  have t: "sh_tenant r = dr_tenant d" using r(3) by (simp add: ofDrawer_def)
  have q: "expectedOf q db' = expectedOf q db + (if q = r then planned outline else 0)" if "q \<in> set (shifts db)" for q
  proof -
    have "q = r \<longleftrightarrow> sh_tenant q = dr_tenant d \<and> sh_id q = shift"
      using distinct_map_key_inj [OF shift_ids [OF inv(1)] that r(1)] r(2) t by auto
    then show ?thesis unfolding fresh(8) expectedOf_withMovement [OF inv(2)] M by auto
  qed
  have "shifts db' = shifts db" by (simp add: fresh(8) withMovement_def)
  then have "shiftOf (dr_tenant d) shift db' = Some r"
    using shiftOf_row [OF inv(1) r(1)] r(2) t by (simp add: shiftOf_def)
  then have e: "e = expectedOf r db'" using fresh(10) by (simp add: expectedCash_def)
  have ok: "movements_ok (cash_movements db')"
    using movements_ok_append [OF inv(2) fresh(6,7) M(2)] by (simp add: fresh(8) withMovement_def)
  show thesis
    by (rule that [OF r fresh(3,4,8,7,6) M(3,4) _ _ _ ok e q]) (simp_all add: fresh(5) newCashMovement_def)
qed simp

lemma persistMovement_again: "persistMovement digest d shift cmd key db = Inr ((data, e, True), db') \<Longrightarrow> db' = db"
  by (erule persistMovement_Inr) simp_all

text \<open>Steps that append rows keep the invariant when the rows refer to what exists.\<close>

lemma withMovement_inv:
  assumes "drawer_inv db" "movements_ok (cash_movements (withMovement m db))" "(cv_tenant m, cv_shift m) \<in> shiftKeys db"
  shows "drawer_inv (withMovement m db)"
proof -
  have same: "shiftKeys (withMovement m db) = shiftKeys db" "shifts (withMovement m db) = shifts db"
    "sales (withMovement m db) = sales db" "settlements (withMovement m db) = settlements db"
    "sale_payments (withMovement m db) = sale_payments db" "set (cash_movements (withMovement m db)) = insert m (set (cash_movements db))"
    by (simp_all add: shiftKeys_def withMovement_def)
  show ?thesis
    using assms unfolding drawer_inv_def references_ok_def same by simp
qed

lemma persistMovement_inv:
  assumes run: "persistMovement digest d shift cmd key db = Inr ((data, e, again), db')" and inv: "drawer_inv db"
  shows "drawer_inv db' \<and> (solvent db \<longrightarrow> solvent db')"
proof (cases again)
  case True
  then have "db' = db" using persistMovement_again run by simp
  then show ?thesis using inv by simp
next
  case False
  then have "persistMovement digest d shift cmd key db = Inr ((data, e, False), db')" using run by simp
  then show ?thesis
  proof (rule persistMovement_fresh [OF _ inv])
    fix r outline m
    assume r: "r \<in> set (shifts db)" "sh_id r = shift" "ofDrawer d r" "sh_open r"
      and p: "movementPlan d shift cmd db = Inr (outline, db)" "guardMovement d shift cmd outline db = Inr ((), db)"
      and db': "db' = withMovement m db" "cash_movement_check m" and keys: "cv_tenant m = dr_tenant d" "cv_shift m = shift"
      and a: "fst (snd outline) = cv_amount m" and ok: "movements_ok (cash_movements db')"
      and q: "\<And>q. q \<in> set (shifts db) \<Longrightarrow> expectedOf q db' = expectedOf q db + (if q = r then planned outline else 0)"
    have t: "sh_tenant r = dr_tenant d" using r(3) by (simp add: ofDrawer_def)
    have "(cv_tenant m, cv_shift m) \<in> shiftKeys db" unfolding keys shiftKeys_def using r t by force
    then have "drawer_inv db'" using withMovement_inv [OF inv] ok by (simp add: db')
    moreover have "solvent db'" if s: "solvent db"
    proof -
      have "0 < fst (snd outline)" using db'(2) a by (simp add: cash_movement_check_def)
      then have "0 \<le> expectedOf r db + planned outline"
        using guardMovement_covers [OF p(2,1) drawer_invD(1,2) [OF inv] r(1) t r(2)] s r(1) inv by (simp add: solvent_def)
      moreover have "shifts db' = shifts db" by (simp add: db' withMovement_def)
      ultimately show ?thesis using s q by (auto simp: solvent_def)
    qed
    ultimately show ?thesis by blast
  qed
qed

section \<open>Opening\<close>

lemma no_entries:
  assumes "references_ok db" "(sh_tenant r, sh_id r) \<notin> shiftKeys db"
  shows "cashPaid r db = 0" "cashRefunded r db = 0" "movementsNet r db = 0"
proof -
  show "cashPaid r db = 0" unfolding cashPaid_def
    by (rule sum_where_none) (use assms in \<open>auto simp: references_ok_def shiftSale_def split: option.splits\<close>)
  show "cashRefunded r db = 0" unfolding cashRefunded_def
    by (rule sum_where_none) (use assms in \<open>auto simp: references_ok_def split: option.splits\<close>)
  show "movementsNet r db = 0" unfolding movementsNet_def
    by (rule sum_where_none) (use assms in \<open>auto simp: references_ok_def\<close>)
qed

lemma expectedOf_withShift: "expectedOf q (withShift r db) = expectedOf q db"
  by (simp add: expectedOf_def cashPaid_def cashRefunded_def movementsNet_def withShift_def)

lemma openShift_inv:
  assumes run: "openShift digest d amount key db = Inr ((data, again), db')" and inv: "drawer_inv db"
  shows "drawer_inv db' \<and> (solvent db \<longrightarrow> solvent db')"
  using run
proof (cases rule: openShift_Inr)
  case (stored f)
  then show ?thesis using inv by simp
next
  case (fresh country r)
  note I = drawer_invD [OF inv]
  have "(sh_tenant r, sh_id r) \<notin> shiftKeys db" using fresh(5) by (auto simp: shiftKeys_def shift_clash_def)
  then have "expectedOf r db = sh_opening r" using no_entries [OF I(3)] by (simp add: expectedOf_def)
  then have pos: "0 \<le> expectedOf r db" using fresh(6) by (simp add: shift_check_def)
  have "shifts_ok (shifts db')"
    using I(1) fresh(5,6) by (auto simp: fresh(7) withShift_def shifts_ok_def sorted_wrt_append)
  moreover have "shiftKeys db' = insert (sh_tenant r, sh_id r) (shiftKeys db)"
    by (simp add: shiftKeys_def fresh(7) withShift_def)
  ultimately have "drawer_inv db'"
    using inv unfolding drawer_inv_def references_ok_def by (auto simp: fresh(7) withShift_def split: option.splits)
  moreover have "solvent db'" if "solvent db"
    using that pos expectedOf_withShift by (auto simp: solvent_def fresh(7)) (auto simp: withShift_def)
  ultimately show ?thesis by blast
qed

end
