(* ===== verification/SettlementLaws.thy ===== *)
theory SettlementLaws
  imports DrawerLaws
begin

text \<open>
  What a settlement stores, and the balances it respects: a return is never settled beyond its
  refundable amount, a payment never refunded beyond what it paid.
\<close>

section \<open>Successful requests\<close>

lemma insertSettlement_Inr:
  "insertSettlement x db = Inr ((), db') \<longleftrightarrow>
     (\<forall>y\<in>set (settlements db). \<not> settlement_clash y x) \<and> settlement_check x \<and> db' = db\<lparr>settlements := settlements db @ [x]\<rparr>"
  by (auto simp: insertSettlement_def runM)

lemma insertCustomerCredit_frame:
  "insertCustomerCredit c db = Inr ((), db') \<Longrightarrow> db' = db\<lparr>customer_credits := customer_credits db @ [c]\<rparr>"
  by (auto simp: insertCustomerCredit_def runM)

lemma creditCustomer_frame:
  assumes "creditCustomer x sale row db = Inr ((), db')"
  obtains n cs where "db' = db\<lparr>ticks := n, customer_credits := cs\<rparr>"
proof (cases "sm_completed row \<and> si_mode x = STORE_CREDIT")
  case True
  with assms obtain c where "sa_customer sale = Some c"
    by (cases "sa_customer sale") (auto simp: creditCustomer_def whenM_def)
  with True assms have "db' = db\<lparr>ticks := ticks db', customer_credits := customer_credits db'\<rparr>"
    by (auto simp: creditCustomer_def whenM_def runM dest!: insertCustomerCredit_frame)
  then show thesis by (rule that)
next
  case False
  then have "db' = db" using assms by (auto simp: creditCustomer_def whenM_def)
  then have "db' = db\<lparr>ticks := ticks db, customer_credits := customer_credits db\<rparr>" by (cases db) simp
  then show thesis by (rule that)
qed

definition marked :: "settle_input \<Rightarrow> bool \<Rightarrow> settlement_row \<Rightarrow> sale_return_row list \<Rightarrow> sale_return_row list" where
  "marked x complete row rows =
     (if sm_completed row
      then update_where (\<lambda>r. rt_id r = si_return x \<and> rt_tenant r = dr_tenant (si_drawer x))
        (\<lambda>r. r\<lparr>rt_settlement := (if complete then Settled else PartiallySettled)\<rparr>) rows
      else rows)"

lemma markSettled_Inr: "markSettled x complete row db = Inr ((), db') \<longleftrightarrow> db' = db\<lparr>sale_returns := marked x complete row (sale_returns db)\<rparr>"
  by (cases db) (auto simp: markSettled_def marked_def whenM_def)

lemma cashRefundShift_Inr:
  assumes "cashRefundShift x db = Inr (i, db')"
  shows "db' = db \<and> si_shift x = Some i \<and>
    (\<exists>r\<in>set (shifts db). sh_id r = i \<and> ofDrawer (si_drawer x) r \<and> sh_open r) \<and>
    (\<exists>r v. shiftOf (dr_tenant (si_drawer x)) i db = Some r \<and> toMoney (expectedOf r db) = Inr v \<and> si_amount x \<le> v)"
  using assms by (auto simp: cashRefundShift_def runM not_less)

text \<open>The plan of a settlement: a refund of a completed payment of the sale, within what it has left
  and, in cash, within the drawer; or a store credit of a customer.\<close>

lemma settlementPlan_Inr:
  assumes "settlementPlan seal provider x sale db = Inr (outline, db')"
  obtains (credit) c where "db' = db" "si_mode x = STORE_CREDIT" "si_payment x = None" "sa_customer sale = Some c"
      "outline = (StoreCredit, None, None, storeCreditOutcome)"
  | (refund) p shift where "db' = db" "si_mode x = REFUND" "si_payment x = Some (sp_id p)" "p \<in> set (sale_payments db)"
      "sp_tenant p = dr_tenant (si_drawer x)" "sp_sale p = si_sale x" "sp_status p = PaymentCompleted"
      "refundedOf (dr_tenant (si_drawer x)) (sp_id p) db + si_amount x \<le> sp_applied p"
      "outline = (Refund (sp_method p), Some (sp_id p), shift,
         Settlements.refund seal provider (sp_method p) (sp_external p) (sp_reference p) (si_amount x) (sp_currency p) (si_key x))"
      "sp_method p \<noteq> CASH \<Longrightarrow> shift = None"
      "sp_method p = CASH \<Longrightarrow> \<exists>i. shift = Some i \<and> cashRefundShift x db = Inr (i, db)"
proof (cases "si_mode x")
  case STORE_CREDIT
  with assms show thesis
    by (intro credit [of "the (sa_customer sale)"]) (auto simp: settlementPlan_def runM)
next
  case REFUND
  with assms obtain i p where p: "si_payment x = Some i"
    "List.find (\<lambda>p. sp_id p = i \<and> sp_tenant p = dr_tenant (si_drawer x) \<and> sp_sale p = si_sale x) (sale_payments db) = Some p"
    by (auto simp: settlementPlan_def runM)
  note props = find_Some_props [OF p(2)]
  from props p assms REFUND have guard: "sp_status p = PaymentCompleted"
    "refundedOf (dr_tenant (si_drawer x)) (sp_id p) db + si_amount x \<le> sp_applied p"
    by (auto simp: settlementPlan_def runM not_less)
  from p assms REFUND guard obtain shift where
    s: "(if sp_method p = CASH then bindM (cashRefundShift x) (\<lambda>s. returnM (Some s)) else returnM None) db = Inr (shift, db')"
    and o: "outline = (Refund (sp_method p), Some (sp_id p), shift,
         Settlements.refund seal provider (sp_method p) (sp_external p) (sp_reference p) (si_amount x) (sp_currency p) (si_key x))"
    by (auto simp: settlementPlan_def bindM_Inr thenM_Inr simp del: if_split)
  show thesis
  proof (cases "sp_method p = CASH")
    case True
    then obtain k where k: "cashRefundShift x db = Inr (k, db')" "shift = Some k" using s by (auto simp: runM)
    then have "db' = db" using cashRefundShift_Inr by blast
    then show thesis using refund [of p shift] REFUND p(1) props guard o k True by simp
  next
    case False
    then show thesis using refund [of p shift] REFUND p(1) props guard o s by simp
  qed
qed

lemma settleReturn_Inr:
  assumes "settleReturn seal provider x r sale db = Inr (res, db')"
  obtains data outline row where "res = Some (data, False)" "0 < si_amount x"
    "settledOf (dr_tenant (si_drawer x)) (rt_id r) db + si_amount x \<le> refundable r"
    "settlementPlan seal provider x sale db = Inr (outline, db)" "row = newSettlement x sale outline (freshRow db)"
    "\<forall>y\<in>set (settlements db). \<not> settlement_clash y row" "settlement_check row"
    "settlements db' = settlements db @ [row]" "shifts db' = shifts db" "cash_movements db' = cash_movements db"
    "sales db' = sales db" "sale_payments db' = sale_payments db"
    "sale_returns db' = marked x (settledOf (dr_tenant (si_drawer x)) (rt_id r) db + si_amount x = refundable r) row (sale_returns db)"
proof -
  let ?t = "dr_tenant (si_drawer x)"
  from assms obtain outline db1 where p: "settlementPlan seal provider x sale db = Inr (outline, db1)"
    and g: "0 < si_amount x" "settledOf ?t (rt_id r) db + si_amount x \<le> refundable r"
    by (auto simp: settleReturn_def runM not_less)
  have "db1 = db" using p by (rule settlementPlan_Inr)
  note p = p [unfolded this]
  let ?row = "newSettlement x sale outline (freshRow db)"
  let ?db2 = "db\<lparr>ticks := Suc (ticks db), settlements := settlements db @ [?row]\<rparr>"
  from assms p obtain db3 data where c: "\<forall>y\<in>set (settlements db). \<not> settlement_clash y ?row" "settlement_check ?row"
    and k: "creditCustomer x sale ?row ?db2 = Inr ((), db3)" and res: "res = Some (data, False)"
    and db': "db' = db3\<lparr>sale_returns := marked x (settledOf ?t (rt_id r) db + si_amount x = refundable r) ?row (sale_returns db3)\<rparr>"
    by (auto simp: settleReturn_def runM Let_def insertSettlement_Inr markSettled_Inr freshRow_def)
  obtain n cs where "db3 = ?db2\<lparr>ticks := n, customer_credits := cs\<rparr>" using k by (rule creditCustomer_frame)
  with that [OF res g p refl c] show thesis by (simp add: db')
qed

lemma replaySettlement_Inr:
  "replaySettlement x stored db = Inr (res, db') \<Longrightarrow> db' = db \<and> (\<exists>data. res = Some (data, True))"
  by (auto simp: replaySettlement_def runM split: prod.splits)

text \<open>A request either changes nothing or settles the return that it names.\<close>

lemma createSettlement_Inr:
  assumes "createSettlement seal provider x db = Inr (res, db')"
  obtains (same) "db' = db" "res = None \<or> (\<exists>data. res = Some (data, True))"
  | (fresh) r sale where "returnOf (dr_tenant (si_drawer x)) (si_return x) db = Some r" "rt_sale r = si_sale x"
      "saleOf (rt_tenant r) (rt_sale r) db = Some sale" "sa_branch sale = dr_branch (si_drawer x)"
      "settleReturn seal provider x r sale db = Inr (res, db')"
proof (cases "settlementTransaction seal provider x db")
  case (Inl e)
  with assms show thesis
    by (auto simp: createSettlement_def catchM_def bindM_Inr split: if_splits option.splits dest!: replaySettlement_Inr intro: same)
next
  case (Inr y)
  with assms have run: "settlementTransaction seal provider x db = Inr (res, db')"
    by (simp add: createSettlement_def catchM_def)
  show thesis
  proof (cases "findSettlementByKey (dr_tenant (si_drawer x)) (si_key x) db")
    case (Some s)
    then show thesis using run same by (auto simp: settlementTransaction_def bindM_Inr dest!: replaySettlement_Inr)
  next
    case None
    show thesis
    proof (cases "settlementTarget x db")
      case N: None
      then show thesis using run None same by (simp add: settlementTransaction_def bindM_Inr)
    next
      case (Some p)
      then obtain r sale where p: "p = (r, sale)" "returnOf (dr_tenant (si_drawer x)) (si_return x) db = Some r" "rt_sale r = si_sale x"
        "saleOf (rt_tenant r) (rt_sale r) db = Some sale" "sa_branch sale = dr_branch (si_drawer x)"
        by (auto simp: settlementTarget_def split: option.splits if_splits)
      then show thesis using run None Some fresh by (simp add: settlementTransaction_def bindM_Inr)
    qed
  qed
qed

section \<open>The balances of returns and payments\<close>

text \<open>The returns and payments are identified by their ids; no return has given back more than it
  may and its status says how much, and no payment has been refunded beyond what it paid.\<close>

definition statusOf :: "int \<Rightarrow> sale_return_row \<Rightarrow> settlement_status" where
  "statusOf settled r = (if settled = 0 then SettlementPending else if settled = refundable r then Settled else PartiallySettled)"

definition settlement_inv :: "trade_db \<Rightarrow> bool" where
  "settlement_inv db \<longleftrightarrow>
     distinct (map rt_id (sale_returns db)) \<and> distinct (map sp_id (sale_payments db)) \<and>
     (\<forall>x\<in>set (settlements db). settlement_check x) \<and>
     (\<forall>r\<in>set (sale_returns db). settledOf (rt_tenant r) (rt_id r) db \<le> refundable r \<and>
        rt_settlement r = statusOf (settledOf (rt_tenant r) (rt_id r) db) r) \<and>
     (\<forall>p\<in>set (sale_payments db). refundedOf (sp_tenant p) (sp_id p) db \<le> sp_applied p)"

lemma settledOf_nonneg: "settlement_inv db \<Longrightarrow> 0 \<le> settledOf t i db"
  unfolding settledOf_def by (rule sum_where_nonneg) (auto simp: settlement_inv_def settlement_check_def)

lemma returnOf_row: "returnOf t i db = Some r \<Longrightarrow> r \<in> set (sale_returns db) \<and> rt_id r = i \<and> rt_tenant r = t"
  unfolding returnOf_def by (drule find_Some_props) simp

lemma refundable_marked: "refundable (r\<lparr>rt_settlement := v\<rparr>) = refundable r"
  by (simp add: refundable_def)

lemma settleReturn_inv:
  assumes run: "settleReturn seal provider x r sale db = Inr (res, db')" and inv: "settlement_inv db"
    and r: "returnOf (dr_tenant (si_drawer x)) (si_return x) db = Some r"
  shows "settlement_inv db'"
  using run
proof (rule settleReturn_Inr)
  fix data outline row
  let ?t = "dr_tenant (si_drawer x)"
  assume pos: "0 < si_amount x" and fits: "settledOf ?t (rt_id r) db + si_amount x \<le> refundable r"
    and plan: "settlementPlan seal provider x sale db = Inr (outline, db)" and row: "row = newSettlement x sale outline (freshRow db)"
    and check: "settlement_check row" and s: "settlements db' = settlements db @ [row]" and pays: "sale_payments db' = sale_payments db"
    and returns: "sale_returns db' = marked x (settledOf ?t (rt_id r) db + si_amount x = refundable r) row (sale_returns db)"
  note r = returnOf_row [OF r]
  have keys: "sm_tenant row = ?t" "sm_return row = rt_id r" "sm_amount row = si_amount x" "sm_payment row = fst (snd outline)"
    using r by (simp_all add: row newSettlement_def split: prod.splits)
  have settled: "settledOf t i db' = settledOf t i db + (if t = ?t \<and> i = rt_id r \<and> sm_completed row then si_amount x else 0)" for t i
    unfolding settledOf_def s by (simp add: keys)
  have refunded: "refundedOf t i db' = refundedOf t i db + (if t = ?t \<and> fst (snd outline) = Some i \<and> sm_completed row then si_amount x else 0)" for t i
    unfolding refundedOf_def s by (simp add: keys)
  have I: "distinct (map rt_id (sale_returns db))" "distinct (map sp_id (sale_payments db))" "\<forall>y\<in>set (settlements db). settlement_check y"
    "q \<in> set (sale_returns db) \<Longrightarrow> settledOf (rt_tenant q) (rt_id q) db \<le> refundable q \<and> rt_settlement q = statusOf (settledOf (rt_tenant q) (rt_id q) db) q"
    "p \<in> set (sale_payments db) \<Longrightarrow> refundedOf (sp_tenant p) (sp_id p) db \<le> sp_applied p" for q p
    using inv by (simp_all add: settlement_inv_def)
  have pay: "refundedOf (sp_tenant p) (sp_id p) db' \<le> sp_applied p" if p: "p \<in> set (sale_payments db)" for p
  proof (cases "sp_tenant p = ?t \<and> fst (snd outline) = Some (sp_id p)")
    case True
    from plan have "refundedOf ?t (sp_id p) db + si_amount x \<le> sp_applied p"
    proof (cases rule: settlementPlan_Inr)
      case (refund q shift)
      then have "q = p" using True distinct_map_key_inj [OF I(2) refund(4) p] by simp
      then show ?thesis using refund(8) by simp
    qed (use True in simp)
    then show ?thesis unfolding refunded using True pos by auto
  next
    case False
    then show ?thesis unfolding refunded using I(5) [OF p] by auto
  qed
  have ret: "settledOf (rt_tenant q') (rt_id q') db' \<le> refundable q' \<and> rt_settlement q' = statusOf (settledOf (rt_tenant q') (rt_id q') db') q'"
    if q': "q' \<in> set (sale_returns db')" for q'
  proof (cases "sm_completed row")
    case False
    then show ?thesis using q' I(4) returns by (simp add: marked_def settled)
  next
    case True
    define done' where "done' = (settledOf ?t (rt_id r) db + si_amount x = refundable r)"
    from q' True returns obtain q where q: "q \<in> set (sale_returns db)"
      "q' = (if rt_id q = si_return x \<and> rt_tenant q = ?t then q\<lparr>rt_settlement := if done' then Settled else PartiallySettled\<rparr> else q)"
      by (auto simp: marked_def set_update_where done'_def)
    show ?thesis
    proof (cases "rt_id q = rt_id r")
      case True
      then have "q = r" using distinct_map_key_inj [OF I(1) q(1)] r by simp
      then have q': "q' = r\<lparr>rt_settlement := if done' then Settled else PartiallySettled\<rparr>" using q(2) r by simp
      moreover have "0 < settledOf ?t (rt_id r) db + si_amount x" using pos settledOf_nonneg [OF inv, of ?t "rt_id r"] by simp
      ultimately show ?thesis
        using fits r \<open>sm_completed row\<close> by (auto simp: settled refundable_marked statusOf_def done'_def)
    next
      case False
      then show ?thesis using q I(4) [OF q(1)] r by (simp add: settled)
    qed
  qed
  have "map rt_id (sale_returns db') = map rt_id (sale_returns db)"
    by (simp add: returns marked_def)
  then show "settlement_inv db'"
    unfolding settlement_inv_def using I ret pay check s pays by simp
qed

lemma createSettlement_inv:
  assumes "createSettlement seal provider x db = Inr (res, db')" "settlement_inv db"
  shows "settlement_inv db'"
  using assms(1) by (rule createSettlement_Inr) (use assms(2) settleReturn_inv in blast)+

section \<open>Settlements and the drawer\<close>

lemma expectedOf_settled:
  assumes "settlements db' = settlements db @ [row]" "cash_movements db' = cash_movements db" "sales db' = sales db" "sale_payments db' = sale_payments db"
  shows "expectedOf q db' = expectedOf q db -
    (if sm_tenant row = sh_tenant q \<and> sm_shift row = Some (sh_id q) \<and> sm_method row = Refund CASH \<and> sm_completed row then sm_amount row else 0)"
  using assms by (simp add: expectedOf_def cashPaid_def cashRefunded_def movementsNet_def)

text \<open>A refund in cash is paid from the open shift of the drawer and leaves it solvent.\<close>

lemma settleReturn_drawer:
  assumes run: "settleReturn seal provider x r sale db = Inr (res, db')" and inv: "drawer_inv db"
  shows "drawer_inv db' \<and> (solvent db \<longrightarrow> solvent db')"
  using run
proof (rule settleReturn_Inr)
  fix data outline row
  let ?t = "dr_tenant (si_drawer x)"
  assume plan: "settlementPlan seal provider x sale db = Inr (outline, db)" and row: "row = newSettlement x sale outline (freshRow db)"
    and s: "settlements db' = settlements db @ [row]" and sh: "shifts db' = shifts db" and cm: "cash_movements db' = cash_movements db"
    and sl: "sales db' = sales db" and pays: "sale_payments db' = sale_payments db"
  note I = drawer_invD [OF inv]
  have keys: "sm_tenant row = ?t" "sm_amount row = si_amount x" "sm_method row = fst outline" "sm_shift row = fst (snd (snd outline))"
    by (simp_all add: row newSettlement_def split: prod.splits)
  from plan have cash: "sm_shift row = None \<or> (\<exists>i. sm_shift row = Some i \<and> cashRefundShift x db = Inr (i, db))"
    by (cases rule: settlementPlan_Inr) (auto simp: keys)
  have shift: "\<exists>q\<in>set (shifts db). sh_tenant q = ?t \<and> sh_id q = i" if "sm_shift row = Some i" for i
    using cash that cashRefundShift_Inr [of x db i db] by (auto simp: ofDrawer_def)
  have keep: "shiftKeys db' = shiftKeys db" by (simp add: shiftKeys_def sh)
  have "case sm_shift row of None \<Rightarrow> True | Some i \<Rightarrow> (sm_tenant row, i) \<in> shiftKeys db"
    using shift by (force simp: keys(1) shiftKeys_def split: option.splits)
  then have "drawer_inv db'"
    using inv unfolding drawer_inv_def references_ok_def keep s sh cm sl pays by simp
  moreover have "0 \<le> expectedOf q db'" if q: "q \<in> set (shifts db)" and solvent: "solvent db" for q
  proof (cases "sm_tenant row = sh_tenant q \<and> sm_shift row = Some (sh_id q)")
    case True
    then have "cashRefundShift x db = Inr (sh_id q, db)" using cash by auto
    then obtain p v where p: "shiftOf ?t (sh_id q) db = Some p" "toMoney (expectedOf p db) = Inr v" "si_amount x \<le> v"
      using cashRefundShift_Inr by blast
    have "p = q" using p(1) shiftOf_row [OF I(1) q] True by (simp add: keys)
    moreover have "0 \<le> expectedOf q db" using solvent q by (simp add: solvent_def)
    ultimately have "si_amount x \<le> expectedOf q db" using p(2,3) by (simp add: toMoney_readCents readCents_nonneg)
    then show ?thesis using \<open>0 \<le> expectedOf q db\<close> unfolding expectedOf_settled [OF s cm sl pays] by (simp add: keys)
  next
    case False
    then show ?thesis using solvent q unfolding expectedOf_settled [OF s cm sl pays] by (auto simp: solvent_def)
  qed
  ultimately show ?thesis using sh by (simp add: solvent_def)
qed

lemma createSettlement_drawer:
  assumes "createSettlement seal provider x db = Inr (res, db')" "drawer_inv db"
  shows "drawer_inv db' \<and> (solvent db \<longrightarrow> solvent db')"
  using assms(1) by (rule createSettlement_Inr) (use assms(2) settleReturn_drawer in blast)+

end
