(* ===== verification/DrawerRuns.thy ===== *)
theory DrawerRuns
  imports SettlementLaws
begin

text \<open>
  Closing a shift, and the histories of a drawer: any sequence of openings, movements, closures,
  settlements and sales. A sale is abstracted to the rows it leaves: one completed sale of an open
  shift with its payments.
\<close>

section \<open>Printing for the closure\<close>

lemma split_point_concat:
  assumes "list_all (\<lambda>c. c \<noteq> CHR ''.'') a" "list_all (\<lambda>c. c \<noteq> CHR ''.'') b"
  shows "split_point (a @ ''.'' @ b) = (a, b)"
proof -
  have "takeWhile (\<lambda>c. c \<noteq> CHR ''.'') (a @ CHR ''.'' # b) = a" "dropWhile (\<lambda>c. c \<noteq> CHR ''.'') (a @ CHR ''.'' # b) = CHR ''.'' # b"
    using assms(1) by (induction a) simp_all
  moreover have "takeWhile (\<lambda>c. c \<noteq> CHR ''.'') b = b" using assms(2) by (induction b) simp_all
  ultimately show ?thesis by (simp add: split_point_def)
qed

lemma digits_no_point: "list_all is_digit s \<Longrightarrow> list_all (\<lambda>c. c \<noteq> CHR ''.'') s"
  unfolding list_all_iff using digit_not_point by blast

lemma bigint_text_no_point: "list_all (\<lambda>c. c \<noteq> CHR ''.'') (bigint_text v)"
  by (simp add: bigint_text_def digits_no_point string_of_nat_digits)

lemma padStart0_no_point: "list_all (\<lambda>c. c \<noteq> CHR ''.'') s \<Longrightarrow> list_all (\<lambda>c. c \<noteq> CHR ''.'') (padStart0 n s)"
  by (simp add: padStart0_def list.pred_set set_replicate_conv_if)

text \<open>What a decimal column makes of digits, a point and digits, with or without a sign.\<close>

lemma sqlDecimal_digits:
  assumes "list_all is_digit w" "w \<noteq> []" "list_all is_digit f" "length f = 2"
  shows "sqlDecimal (w @ ''.'' @ f) = Some (int (nat_of_digits w) * 100 + int (nat_of_digits f))"
    "sqlDecimal (''-'' @ w @ ''.'' @ f) = Some (- (int (nat_of_digits w) * 100 + int (nat_of_digits f)))"
proof -
  have split: "split_point (w @ ''.'' @ f) = (w, f)"
    using split_point_concat digits_no_point assms by blast
  have "strip_minus (w @ ''.'' @ f) = (False, w @ ''.'' @ f)"
    using assms(1,2) by (cases w) (auto simp: strip_minus_def)
  then show "sqlDecimal (w @ ''.'' @ f) = Some (int (nat_of_digits w) * 100 + int (nat_of_digits f))"
    unfolding sqlDecimal_def Let_def using assms split by simp
  have "strip_minus (''-'' @ w @ ''.'' @ f) = (True, w @ ''.'' @ f)" by (simp add: strip_minus_def)
  then show "sqlDecimal (''-'' @ w @ ''.'' @ f) = Some (- (int (nat_of_digits w) * 100 + int (nat_of_digits f)))"
    unfolding sqlDecimal_def Let_def using assms split by simp
qed

lemma two_digits: "n < 100 \<Longrightarrow> length (padStart0 2 (string_of_nat n)) = 2"
  using length_fraction [of n 1] by (simp add: numeral_2_eq_2)

lemma fromCents_nonneg:
  assumes "0 \<le> v"
  shows "fromCents v = string_of_nat (nat (v div 100)) @ ''.'' @ padStart0 2 (string_of_nat (nat (v mod 100)))"
  using assms by (simp add: fromCents_def bigint_nonneg)

lemma storeDecimal_nonneg: "0 \<le> v \<Longrightarrow> storeDecimal (fromCents v) = Inr v"
  unfolding storeDecimal_def using whole_fraction_100 [of v]
  by (simp only: fromCents_nonneg, subst sqlDecimal_digits(1))
    (simp_all add: string_of_nat_digits padStart0_digits two_digits nat_less_iff del: of_nat_nat int_nat_eq)

lemma storeDecimal_signed: "storeDecimal (fromSignedCents v) = Inr v"
proof (cases "v < 0")
  case True
  then have "fromSignedCents v = ''-'' @ string_of_nat (nat (- v div 100)) @ ''.'' @ padStart0 2 (string_of_nat (nat (- v mod 100)))"
    using fromCents_nonneg [of "- v"] by (simp add: fromSignedCents_def)
  moreover have "sqlDecimal (''-'' @ string_of_nat (nat (- v div 100)) @ ''.'' @ padStart0 2 (string_of_nat (nat (- v mod 100)))) = Some v"
    using whole_fraction_100 [of "- v"] True
    by (subst sqlDecimal_digits(2)) (simp_all add: string_of_nat_digits padStart0_digits two_digits nat_less_iff del: of_nat_nat int_nat_eq)
  ultimately show ?thesis by (simp only: storeDecimal_def option.case)
qed (simp add: fromSignedCents_def storeDecimal_nonneg)

text \<open>A negative amount with cents is printed with two signs, which no decimal column accepts.\<close>

lemma storeDecimal_negative:
  assumes "v < 0" "v mod 100 \<noteq> 0"
  shows "storeDecimal (fromCents v) = Inl SqlIncorrectValue"
proof -
  define w f where "w = bigint_text (bigint_div v 100)" and "f = padStart0 2 (bigint_text (bigint_mod v 100))"
  have "\<bar>v\<bar> mod 100 \<noteq> 0"
    using assms(2) by (simp add: mod_eq_0_iff_dvd)
  then have m: "bigint_mod v 100 < 0" using assms(1) by (simp add: bigint_mod_def)
  then have "CHR ''-'' \<in> set f" by (simp add: f_def padStart0_def bigint_text_def)
  then have f: "\<not> list_all is_digit f" unfolding list_all_iff using not_digit_marks(2) by blast
  have point: "list_all (\<lambda>c. c \<noteq> CHR ''.'') f" "list_all (\<lambda>c. c \<noteq> CHR ''.'') w"
    by (simp_all add: f_def w_def padStart0_no_point bigint_text_no_point)
  have s: "fromCents v = w @ ''.'' @ f" by (simp add: fromCents_def w_def f_def)
  have "snd (split_point (snd (strip_minus (w @ ''.'' @ f)))) = f"
  proof (cases w)
    case Nil
    then show ?thesis using split_point_concat [of "[]" f] point by (simp add: strip_minus_def)
  next
    case (Cons c w')
    then show ?thesis
      using split_point_concat [of w f] split_point_concat [of w' f] point by (auto simp: strip_minus_def)
  qed
  then have "sqlDecimal (w @ ''.'' @ f) = None"
    using f by (auto simp: sqlDecimal_def Let_def split: prod.splits)
  then show ?thesis by (simp add: storeDecimal_def s)
qed

section \<open>Closing\<close>

definition closeIn :: "drawer \<Rightarrow> closure_input \<Rightarrow> string \<Rightarrow> string \<Rightarrow> int \<Rightarrow> trade_db \<Rightarrow> id \<Rightarrow> trade_db" where
  "closeIn d x key fingerprint expected db i =
     db\<lparr>shifts := update_where (\<lambda>r. sh_id r = i \<and> sh_tenant r = dr_tenant d \<and> sh_open r)
        (closedRowOf d x key fingerprint expected (ci_counted x - expected) (env_clock db (ticks db))) (shifts db)\<rparr>"

lemma closingShift_row: "closingShift d key db = Some r \<Longrightarrow> r \<in> set (shifts db) \<and> ofDrawer d r \<and> (sh_open r \<or> sh_closing_key r = Some key)"
proof -
  assume "closingShift d key db = Some r"
  then have "r \<in> set (sort_key (closingRank key) (filter (\<lambda>r. ofDrawer d r \<and> (sh_open r \<or> sh_closing_key r = Some key)) (shifts db)))"
    by (auto simp: closingShift_def simp del: set_sort split: list.splits)
  then show ?thesis by simp
qed

text \<open>The expected cash at the closure is the one of the drawer; it is stored when it is not
  negative or has no cents.\<close>

lemma storeDecimal_Inr: "storeDecimal (fromCents v) = Inr w \<Longrightarrow> 0 \<le> v \<Longrightarrow> w = v"
  using storeDecimal_nonneg by simp

lemma closeOpenShift_Inr:
  assumes run: "closeOpenShift d x key f i db = Inr ((c, again), db')" and r: "shiftOf (dr_tenant d) i db = Some r"
  obtains w where "\<not> again" "ci_counted x \<noteq> expectedOf r db \<Longrightarrow> \<not> missingReason (ci_reason x)"
    "storeDecimal (fromCents (expectedOf r db)) = Inr w"
    "\<forall>q\<in>set (shifts db). sh_tenant q = dr_tenant d \<longrightarrow> sh_id q \<noteq> i \<longrightarrow> sh_closing_key q \<noteq> Some key"
    "db' = db\<lparr>shifts := update_where (\<lambda>r. sh_id r = i \<and> sh_tenant r = dr_tenant d \<and> sh_open r)
        (closedRowOf d x key f w (ci_counted x - expectedOf r db) (env_clock db (ticks db))) (shifts db)\<rparr>"
    "findClosure (dr_tenant d) i db' = Some c"
proof -
  have s: "closureSummary (dr_tenant d) i db = Inr (summaryOf r db, db)"
    using r by (simp add: closureSummary_def bindM_def readM_def requireM_def returnM_def)
  have e: "su_opening (summaryOf r db) + su_cash_sales (summaryOf r db) + su_movements_net (summaryOf r db) = expectedOf r db"
    by (simp add: summaryOf_def expectedOf_def)
  from run have "closeOpenShift d x key f i db = Inr ((c, again), db')" .
  then show thesis
    unfolding closeOpenShift_def bindM_step [where m = "closureSummary (dr_tenant d) i" and s = db, OF s] Let_def e
    by (auto simp: runM storeDecimal_signed closeRow_def intro!: that)
qed

lemma closeShift_Inr:
  assumes run: "closeShift digest collate d x key db = Inr ((c, again), db')" and inv: "drawer_inv db"
  obtains (stored) r where again "db' = db" "r \<in> set (shifts db)" "ofDrawer d r" "\<not> sh_open r" "sh_closing_key r = Some key"
      "sh_closing_fingerprint r = Some (closureFingerprint digest collate x (sh_id r))"
  | (fresh) r w where "\<not> again" "r \<in> set (shifts db)" "ofDrawer d r" "sh_open r"
      "ci_counted x \<noteq> expectedOf r db \<Longrightarrow> \<not> missingReason (ci_reason x)" "storeDecimal (fromCents (expectedOf r db)) = Inr w"
      "\<forall>q\<in>set (shifts db). sh_tenant q = dr_tenant d \<longrightarrow> sh_id q \<noteq> sh_id r \<longrightarrow> sh_closing_key q \<noteq> Some key"
      "db' = db\<lparr>shifts := update_where (\<lambda>q. sh_id q = sh_id r \<and> sh_tenant q = dr_tenant d \<and> sh_open q)
        (closedRowOf d x key (closureFingerprint digest collate x (sh_id r)) w (ci_counted x - expectedOf r db) (env_clock db (ticks db))) (shifts db)\<rparr>"
      "findClosure (dr_tenant d) (sh_id r) db' = Some c"
proof (cases "closingShift d key db")
  case None
  then show thesis using run by (auto simp: closeShift_def runM)
next
  case (Some r)
  note r = closingShift_row [OF Some]
  show thesis
  proof (cases "sh_open r")
    case True
    then have go: "closeOpenShift d x key (closureFingerprint digest collate x (sh_id r)) (sh_id r) db = Inr ((c, again), db')"
      using run Some by (simp add: closeShift_def bindM_Inr Let_def)
    have "shiftOf (dr_tenant d) (sh_id r) db = Some r"
      using shiftOf_row [OF drawer_invD(1) [OF inv], of r] r by (simp add: ofDrawer_def)
    then show thesis
    proof (rule closeOpenShift_Inr [OF go])
      fix w
      assume w: "\<not> again" "ci_counted x \<noteq> expectedOf r db \<Longrightarrow> \<not> missingReason (ci_reason x)"
        "storeDecimal (fromCents (expectedOf r db)) = Inr w"
        "\<forall>q\<in>set (shifts db). sh_tenant q = dr_tenant d \<longrightarrow> sh_id q \<noteq> sh_id r \<longrightarrow> sh_closing_key q \<noteq> Some key"
        "db' = db\<lparr>shifts := update_where (\<lambda>q. sh_id q = sh_id r \<and> sh_tenant q = dr_tenant d \<and> sh_open q)
          (closedRowOf d x key (closureFingerprint digest collate x (sh_id r)) w (ci_counted x - expectedOf r db) (env_clock db (ticks db))) (shifts db)\<rparr>"
        "findClosure (dr_tenant d) (sh_id r) db' = Some c"
      show thesis by (rule fresh [OF w(1) _ _ True w(2-6)]) (use r in simp_all)
    qed
  next
    case False
    then show thesis
      using run Some r stored by (auto simp: closeShift_def runM Let_def)
  qed
qed

text \<open>The updated table: one row is closed, and the unique keys still hold.\<close>

lemma shifts_ok_close:
  assumes ok: "shifts_ok rows" and i: "\<forall>q\<in>set rows. sh_tenant q = t \<longrightarrow> sh_id q \<noteq> i \<longrightarrow> sh_closing_key q \<noteq> Some key"
    and u: "\<And>r. sh_id (u r) = sh_id r \<and> sh_tenant (u r) = sh_tenant r \<and> sh_key (u r) = sh_key r \<and> sh_opening (u r) = sh_opening r \<and>
      \<not> sh_open (u r) \<and> sh_closing_key (u r) = Some key \<and> (0 \<le> sh_opening r \<longrightarrow> shift_check (u r))"
  shows "shifts_ok (update_where (\<lambda>r. sh_id r = i \<and> sh_tenant r = t \<and> sh_open r) u rows)"
proof -
  let ?p = "\<lambda>r. sh_id r = i \<and> sh_tenant r = t \<and> sh_open r"
  let ?u = "\<lambda>r. if ?p r then u r else r"
  have ids: "sh_id (?u r) = sh_id r \<and> sh_tenant (?u r) = sh_tenant r \<and> sh_key (?u r) = sh_key r \<and> (sh_open (?u r) \<longrightarrow> sh_open r)" for r
    using u by simp
  have "\<not> shift_clash (?u x) (?u y)" if m: "x \<in> set rows" "y \<in> set rows" and c: "\<not> shift_clash x y" for x y
  proof -
    have keys: "?u x = x \<or> sh_closing_key (?u x) = Some key \<and> \<not> sh_open (?u x) \<and> sh_id x = i \<and> sh_tenant x = t" for x
      using u by auto
    have neq: "sh_id x \<noteq> sh_id y" using c by (simp add: shift_clash_def)
    have regs: "sh_open (?u x) \<Longrightarrow> ?u x = x" for x using u by auto
    show ?thesis
    proof
      assume clash: "shift_clash (?u x) (?u y)"
      then consider "sh_tenant x = sh_tenant y" "sh_key x = sh_key y"
        | "sh_tenant x = sh_tenant y" "sh_open (?u x)" "sh_open (?u y)"
            "sh_register (?u x) = sh_register (?u y) \<or> sh_user (?u x) = sh_user (?u y)"
        | "sh_tenant x = sh_tenant y" "sh_closing_key (?u x) \<noteq> None" "sh_closing_key (?u x) = sh_closing_key (?u y)"
        unfolding shift_clash_def using ids neq by metis
      then show False
      proof cases
        case 1
        then show False using c by (simp add: shift_clash_def)
      next
        case 2
        then have "?u x = x" "?u y = y" using regs by blast+
        then show False using 2 c by (simp only:) (simp add: shift_clash_def)
      next
        case 3
        consider "?u x = x" "?u y = y" | "?u x = x" "sh_closing_key (?u y) = Some key" "sh_id y = i" "sh_tenant y = t"
          | "sh_closing_key (?u x) = Some key" "sh_id x = i" "sh_tenant x = t" "?u y = y"
          | "sh_id x = i" "sh_id y = i"
          using keys by blast
        then show False
        proof cases
          case 1
          have "sh_closing_key x \<noteq> None" "sh_closing_key x = sh_closing_key y" using 3(2,3) unfolding 1 by blast+
          then show False using 3(1) c by (simp add: shift_clash_def)
        next
          case 2
          have "sh_closing_key x = Some key" using 3(3) unfolding 2(1,2) .
          then show False using i m(1) 3(1) 2(3,4) neq by simp
        next
          case both: 3
          have "sh_closing_key y = Some key" using 3(3) unfolding both(1,4) by (rule sym)
          then show False using i m(2) 3(1) both(2,3) neq by simp
        next
          case 4
          then show False using neq by simp
        qed
      qed
    qed
  qed
  note apart = this
  have "sorted_wrt (\<lambda>x y. \<not> shift_clash x y) rows" using ok unfolding shifts_ok_def by (rule conjunct1)
  with apart have "sorted_wrt (\<lambda>x y. \<not> shift_clash (?u x) (?u y)) rows"
    by (rule sorted_wrt_mono_rel)
  then have keys: "sorted_wrt (\<lambda>x y. \<not> shift_clash x y) (map ?u rows)"
    unfolding sorted_wrt_map .
  have "shift_check (?u r)" if "r \<in> set rows" for r
  proof (cases "?p r")
    case True
    have "0 \<le> sh_opening r" using ok that by (simp add: shifts_ok_def shift_check_def)
    then have "shift_check (u r)" using u [of r] by blast
    with True show ?thesis by (simp only: if_True simp_thms)
  next
    case False
    have "shift_check r" using ok that by (simp add: shifts_ok_def)
    with False show ?thesis by (simp only: if_False)
  qed
  then have "\<forall>y\<in>set (map ?u rows). shift_check y"
    unfolding set_map by blast
  with keys show ?thesis
    unfolding shifts_ok_def update_where_def by (rule conjI)
qed

lemma expectedOf_closed: "expectedOf (closedRowOf d x key f e difference now q) db = expectedOf q db"
proof -
  have "shiftSale (closedRowOf d x key f e difference now q) = shiftSale q"
    by (rule ext) (simp add: shiftSale_def closedRowOf_def)
  then show ?thesis
    unfolding expectedOf_def cashPaid_def cashRefunded_def movementsNet_def by (simp add: closedRowOf_def)
qed

text \<open>A closure keeps the invariant, and the expected cash of every shift.\<close>

lemma closeShift_inv:
  assumes run: "closeShift digest collate d x key db = Inr ((c, again), db')" and inv: "drawer_inv db"
  shows "drawer_inv db' \<and> (solvent db \<longrightarrow> solvent db')"
  using run inv
proof (cases rule: closeShift_Inr)
  case stored
  then show ?thesis using inv by simp
next
  case (fresh r w)
  let ?u = "closedRowOf d x key (closureFingerprint digest collate x (sh_id r)) w (ci_counted x - expectedOf r db) (env_clock db (ticks db))"
  let ?p = "\<lambda>q. sh_id q = sh_id r \<and> sh_tenant q = dr_tenant d \<and> sh_open q"
  note I = drawer_invD [OF inv]
  have ok: "shifts_ok (shifts db')"
    unfolding fresh(8) using shifts_ok_close [OF I(1) fresh(7), of ?u] by (simp add: closedRowOf_def shift_check_def)
  have same: "cash_movements db' = cash_movements db" "sales db' = sales db" "settlements db' = settlements db" "sale_payments db' = sale_payments db"
    and rows: "shifts db' = update_where ?p ?u (shifts db)"
    by (simp_all add: fresh(8))
  have keys: "shiftKeys db' = shiftKeys db"
    unfolding shiftKeys_def rows set_update_where image_image by (rule image_cong) (simp_all add: closedRowOf_def)
  have "references_ok db'"
    using I(3) unfolding references_ok_def same keys .
  then have "drawer_inv db'"
    using inv ok unfolding drawer_inv_def same by blast
  moreover have e: "expectedOf q db' = expectedOf q db" for q
    by (simp add: expectedOf_def cashPaid_def cashRefunded_def movementsNet_def same)
  ultimately show ?thesis unfolding solvent_def rows set_update_where e by (auto simp: expectedOf_closed)
qed

section \<open>Histories of a drawer\<close>

text \<open>A completed sale of an open shift, with its payments.\<close>

definition sold :: "sale_row \<Rightarrow> sale_payment_row list \<Rightarrow> trade_db \<Rightarrow> trade_db" where
  "sold s ps db = db\<lparr>sales := sales db @ [s], sale_payments := sale_payments db @ ps\<rparr>"

inductive drawer_step :: "trade_db \<Rightarrow> trade_db \<Rightarrow> bool" where
  opening_step: "openShiftRequest digest d amount value db = Inr (r, db') \<Longrightarrow> drawer_step db db'"
| moving_step: "moveCash digest d cmd value db = Inr (r, db') \<Longrightarrow> drawer_step db db'"
| closing_step: "closeRequest digest collate d x value db = Inr (r, db') \<Longrightarrow> drawer_step db db'"
| settling_step: "settle digest' seal provider y value db = Inr (r, db') \<Longrightarrow> drawer_step db db'"
| selling_step: "\<lbrakk>sa_shift s = Some (sh_id q); sa_tenant s = sh_tenant q; q \<in> set (shifts db); sh_open q; \<forall>p\<in>set ps. 0 < sp_applied p\<rbrakk>
    \<Longrightarrow> drawer_step db (sold s ps db)"

inductive_cases drawer_stepE: "drawer_step db db'"

definition empty_drawers :: "trade_db \<Rightarrow> bool" where
  "empty_drawers db \<longleftrightarrow> shifts db = [] \<and> cash_movements db = [] \<and> sales db = [] \<and> sale_payments db = [] \<and> settlements db = []"

lemma empty_drawers_inv: "empty_drawers db \<Longrightarrow> drawer_inv db \<and> solvent db"
  by (simp add: empty_drawers_def drawer_inv_def shifts_ok_def movements_ok_def references_ok_def solvent_def)

lemma sum_where_mono_fun:
  assumes "\<And>x. f x \<le> (g x :: int)"
  shows "sum_where p f rows \<le> sum_where p g rows"
  by (induction rows) (simp_all add: assms add_mono)

lemma sold_inv:
  assumes "drawer_inv db" "q \<in> set (shifts db)" "sa_shift s = Some (sh_id q)" "sa_tenant s = sh_tenant q" "\<forall>p\<in>set ps. 0 < sp_applied p"
  shows "drawer_inv (sold s ps db) \<and> (solvent db \<longrightarrow> solvent (sold s ps db))"
proof -
  have same: "shifts (sold s ps db) = shifts db" "cash_movements (sold s ps db) = cash_movements db" "settlements (sold s ps db) = settlements db"
    "sales (sold s ps db) = sales db @ [s]" "sale_payments (sold s ps db) = sale_payments db @ ps" "shiftKeys (sold s ps db) = shiftKeys db"
    by (simp_all add: sold_def shiftKeys_def)
  have paid: "0 \<le> sp_applied p" if "p \<in> set (sale_payments db) \<union> set ps" for p
    using that drawer_invD(4) [OF assms(1)] assms(5) by force
  have "(sa_tenant s, sh_id q) \<in> shiftKeys db" using assms(2,4) by (auto simp: shiftKeys_def)
  then have "drawer_inv (sold s ps db)"
    using assms(1,3) paid unfolding drawer_inv_def references_ok_def same by auto
  moreover have "cashPaid r db \<le> cashPaid r (sold s ps db)" for r
  proof -
    let ?cash = "\<lambda>s p. sp_sale p = sa_id s \<and> sp_tenant p = sa_tenant s \<and> sp_method p = CASH"
    have part: "sum_where (?cash x) sp_applied (sale_payments db) \<le> sum_where (?cash x) sp_applied (sale_payments db @ ps)"
      "0 \<le> sum_where (?cash x) sp_applied (sale_payments db @ ps)" for x
      using sum_where_nonneg [of ps "?cash x" sp_applied] sum_where_nonneg [of "sale_payments db @ ps" "?cash x" sp_applied] paid by auto
    have "sum_where (shiftSale r) (\<lambda>x. sum_where (?cash x) sp_applied (sale_payments db)) (sales db)
        \<le> sum_where (shiftSale r) (\<lambda>x. sum_where (?cash x) sp_applied (sale_payments db @ ps)) (sales db)"
      by (rule sum_where_mono_fun) (rule part(1))
    moreover have "0 \<le> sum_where (shiftSale r) (\<lambda>x. sum_where (?cash x) sp_applied (sale_payments db @ ps)) [s]"
      using part(2) by (auto simp: sum_where_def)
    ultimately show ?thesis unfolding cashPaid_def same sum_where_append [of _ _ "sales db"] by linarith
  qed
  then have "expectedOf r db \<le> expectedOf r (sold s ps db)" for r
    by (simp add: expectedOf_def cashRefunded_def movementsNet_def same)
  ultimately show ?thesis unfolding solvent_def same by (meson order_trans)
qed

lemma requireKey_Inr: "requireKey value db = Inr (key, db') \<longleftrightarrow> value = Some key \<and> validKey key \<and> db' = db"
  by (auto simp: requireKey_def runM split: option.splits)

lemma requireCurrent_Inr: "requireCurrent d db = Inr (shift, db') \<longleftrightarrow> findCurrent d db = Some shift \<and> db' = db"
  by (auto simp: requireCurrent_def runM)

lemma drawer_step_inv:
  assumes "drawer_step db db'" "drawer_inv db"
  shows "drawer_inv db' \<and> (solvent db \<longrightarrow> solvent db')"
  using assms(1)
proof cases
  case (opening_step digest d amount v r)
  then obtain key data again where "openShift digest d amount key db = Inr ((data, again), db')"
    by (cases r) (auto simp: openShiftRequest_def bindM_Inr requireKey_Inr)
  then show ?thesis by (rule openShift_inv [OF _ assms(2)])
next
  case (moving_step digest d cmd v r)
  then obtain shift key data e again where "persistMovement digest d shift (trimmed cmd) key db = Inr ((data, e, again), db')"
    by (cases r) (auto simp: moveCash_def bindM_Inr requireKey_Inr requireCurrent_Inr)
  then show ?thesis by (rule persistMovement_inv [OF _ assms(2)])
next
  case (closing_step digest collate d x v r)
  then obtain x' key c again where "closeShift digest collate d x' key db = Inr ((c, again), db')"
    by (cases r) (auto simp: closeRequest_def bindM_Inr thenM_Inr requireKey_Inr)
  then show ?thesis by (rule closeShift_inv [OF _ assms(2)])
next
  case (settling_step digest' seal provider y v r)
  then obtain y' res where "createSettlement seal provider y' db = Inr (res, db')"
    by (auto simp: settle_def bindM_Inr requireKey_Inr)
  then show ?thesis by (rule createSettlement_drawer [OF _ assms(2)])
next
  case (selling_step s q ps)
  then show ?thesis using sold_inv [OF assms(2), of q s ps] by simp
qed

lemma drawer_run_inv:
  assumes "drawer_step\<^sup>*\<^sup>* db db'" "drawer_inv db" "solvent db"
  shows "drawer_inv db' \<and> solvent db'"
  using assms by (induction rule: rtranclp_induct) (use drawer_step_inv in blast)+

end
