(* ===== verification/CashTheorems.thy ===== *)
theory CashTheorems
  imports DrawerRuns TradeFixtures
begin

text \<open>The properties of the cash drawer and of the settlements of returns.\<close>

section \<open>Histories\<close>

definition sameSlot :: "shift_row \<Rightarrow> shift_row \<Rightarrow> bool" where
  "sameSlot x y \<longleftrightarrow> sh_tenant x = sh_tenant y \<and> sh_open x \<and> sh_open y \<and> (sh_register x = sh_register y \<or> sh_user x = sh_user y)"

definition sameReversal :: "cash_movement_row \<Rightarrow> cash_movement_row \<Rightarrow> bool" where
  "sameReversal x y \<longleftrightarrow> cv_tenant x = cv_tenant y \<and> cv_reversal_of x \<noteq> None \<and> cv_reversal_of x = cv_reversal_of y"

lemma shifts_slots: "shifts_ok rows \<Longrightarrow> sorted_wrt (\<lambda>x y. \<not> sameSlot x y) rows"
  unfolding shifts_ok_def by (erule conjE, erule sorted_wrt_mono_rel [rotated]) (auto simp: shift_clash_def sameSlot_def)

lemma movements_reversed_once: "movements_ok rows \<Longrightarrow> sorted_wrt (\<lambda>x y. \<not> sameReversal x y) rows"
  unfolding movements_ok_def by (erule conjE, erule sorted_wrt_mono_rel [rotated]) (auto simp: movement_clash_def sameReversal_def)

lemma movements_reversal:
  assumes "movements_ok rows" "m \<in> set rows" "cv_type m = REVERSAL"
  shows "\<exists>x\<in>set rows. cv_reversal_of m = Some (cv_id x) \<and> cv_shift x = cv_shift m \<and> cv_type x \<noteq> REVERSAL \<and> cv_amount x = cv_amount m"
proof -
  from assms obtain x where x: "originalOf rows m = Some x" "cv_shift x = cv_shift m" "cv_type x \<noteq> REVERSAL" "cv_amount x = cv_amount m"
    by (auto simp: movements_ok_def reversal_ok_def)
  then have "x \<in> set rows \<and> cv_reversal_of m = Some (cv_id x)"
    by (auto simp: originalOf_def split: option.splits dest!: find_Some_props)
  with x show ?thesis by blast
qed

text \<open>C2: In every history of openings, movements, closures, settlements of returns and completed
  sales that starts from empty drawers: no register and no user of a tenant has two open shifts; no
  movement is reversed twice, and a reversal has the amount of an income or withdrawal of its own
  shift; and the cash that a shift is expected to hold is never negative, so every withdrawal,
  reversed income and cash refund was paid from cash that was there.\<close>

theorem drawer_histories:
  assumes "drawer_step\<^sup>*\<^sup>* start db" "empty_drawers start"
  shows "sorted_wrt (\<lambda>x y. \<not> sameSlot x y) (shifts db) \<and> sorted_wrt (\<lambda>x y. \<not> sameReversal x y) (cash_movements db) \<and>
    (\<forall>m\<in>set (cash_movements db). cv_type m = REVERSAL \<longrightarrow>
      (\<exists>x\<in>set (cash_movements db). cv_reversal_of m = Some (cv_id x) \<and> cv_shift x = cv_shift m \<and>
         cv_type x \<noteq> REVERSAL \<and> cv_amount x = cv_amount m)) \<and>
    (\<forall>r\<in>set (shifts db). 0 \<le> expectedOf r db)"
proof -
  have inv: "drawer_inv db" "solvent db"
    using drawer_run_inv [OF assms(1)] empty_drawers_inv [OF assms(2)] by blast+
  note I = drawer_invD [OF inv(1)]
  have "\<forall>r\<in>set (shifts db). 0 \<le> expectedOf r db" using inv(2) by (simp add: solvent_def)
  then show ?thesis
    using shifts_slots [OF I(1)] movements_reversed_once [OF I(2)] movements_reversal [OF I(2)] by blast
qed

definition till :: drawer where
  "till = \<lparr>dr_tenant = 1, dr_branch = 1, dr_register = 30, dr_user = 9\<rparr>"

definition afterRun :: "'a tact \<Rightarrow> trade_db \<Rightarrow> trade_db" where
  "afterRun act db = (case act db of Inl _ \<Rightarrow> db | Inr (_, db') \<Rightarrow> db')"

definition flatDigest :: "cash_request \<Rightarrow> string" where
  "flatDigest x = ''f''"

text \<open>A shift opened with 1.00, from which 0.30 are withdrawn; the withdrawal is reversed; then the
  shift is closed with 0.99 counted.\<close>

definition openTill :: "(shift_data \<times> bool) tact" where
  "openTill = openShiftRequest flatDigest till 100 (Some ''key-0001'')"

definition takeThirty :: "(cash_movement_data \<times> int \<times> bool) tact" where
  "takeThirty = moveCash flatDigest till (CreateMovement WITHDRAWAL 30 ''bank'') (Some ''key-0002'')"

definition putBack :: "(cash_movement_data \<times> int \<times> bool) tact" where
  "putBack = moveCash flatDigest till (ReverseMovement 61 ''error'') (Some ''key-0003'')"

definition countTill :: closure_input where
  "countTill = \<lparr>ci_counted = 99, ci_reason = Some ''lost'', ci_denominations = []\<rparr>"

definition closeTill :: "(closure_data \<times> bool) tact" where
  "closeTill = closeRequest flatDigest (\<lambda>s. s) till countTill (Some ''key-0004'')"

definition till1 :: trade_db where "till1 = afterRun openTill sampleTrade"
definition till2 :: trade_db where "till2 = afterRun takeThirty till1"
definition till3 :: trade_db where "till3 = afterRun putBack till2"

lemma afterRun_Inr: "(case act db of Inl _ \<Rightarrow> False | Inr _ \<Rightarrow> True) \<Longrightarrow> \<exists>x. act db = Inr (x, afterRun act db)"
  by (auto simp: afterRun_def split: sum.splits prod.splits)

lemma till_runs:
  "case openTill sampleTrade of Inl _ \<Rightarrow> False | Inr _ \<Rightarrow> True" "case takeThirty till1 of Inl _ \<Rightarrow> False | Inr _ \<Rightarrow> True"
  "case putBack till2 of Inl _ \<Rightarrow> False | Inr _ \<Rightarrow> True"
  "map (\<lambda>r. expectedOf r till2) (shifts till2) = [70]" "map (\<lambda>r. expectedOf r till3) (shifts till3) = [100]"
  by code_simp+

lemma till_steps: "drawer_step sampleTrade till1" "drawer_step till1 till2" "drawer_step till2 till3"
proof -
  obtain x y z where "openTill sampleTrade = Inr (x, till1)" "takeThirty till1 = Inr (y, till2)" "putBack till2 = Inr (z, till3)"
    using afterRun_Inr [where act = openTill and db = sampleTrade, OF till_runs(1)] afterRun_Inr [where act = takeThirty and db = till1, OF till_runs(2)] afterRun_Inr [where act = putBack and db = till2, OF till_runs(3)]
    unfolding till1_def [symmetric] till2_def [symmetric] till3_def [symmetric] by blast
  then show "drawer_step sampleTrade till1" "drawer_step till1 till2" "drawer_step till2 till3"
    by (auto simp: openTill_def takeThirty_def putBack_def intro: opening_step moving_step)
qed

lemma till_history: "drawer_step\<^sup>*\<^sup>* sampleTrade till3"
  using till_steps by (meson rtranclp.rtrancl_into_rtrancl rtranclp.rtrancl_refl)

lemma empty_sampleTrade: "empty_drawers sampleTrade"
  by (simp add: empty_drawers_def sampleTrade_def)

theorem drawer_histories_witness:
  "map (\<lambda>r. expectedOf r till3) (shifts till3) = [100] \<and> list_all (\<lambda>r. 0 \<le> expectedOf r till3) (shifts till3)"
  using drawer_histories [OF till_history empty_sampleTrade] till_runs(5) unfolding list_all_iff by blast


section \<open>One movement\<close>

text \<open>C10: A new movement changes the expected cash of the open shift of the drawer by its amount (an
  income adds it, a withdrawal takes it) and that of no other shift; a reversal takes back exactly
  what the reversed income or withdrawal of the same shift did, which no other movement had reversed.
  The expected cash that the request returns is the new one.\<close>

theorem persistMovement_effect:
  assumes "persistMovement digest d shift cmd key db = Inr ((data, e, False), db')" "drawer_inv db"
  shows "\<exists>r\<in>set (shifts db). sh_id r = shift \<and> ofDrawer d r \<and> sh_open r \<and> shifts db' = shifts db \<and> e = expectedOf r db' \<and>
    (case cmd of
       CreateMovement kind amount _ \<Rightarrow> kind \<noteq> REVERSAL \<and> 0 < amount \<and>
         expectedOf r db' = expectedOf r db + (if kind = INCOME then amount else - amount)
     | ReverseMovement i _ \<Rightarrow>
         (\<exists>x\<in>set (cash_movements db). cv_id x = i \<and> cv_shift x = shift \<and> cv_type x \<noteq> REVERSAL \<and>
            expectedOf r db' = expectedOf r db - signedAmount (cash_movements db) x) \<and>
         (\<forall>y\<in>set (cash_movements db). cv_tenant y = dr_tenant d \<longrightarrow> cv_reversal_of y \<noteq> Some i)) \<and>
    (\<forall>q\<in>set (shifts db). q \<noteq> r \<longrightarrow> expectedOf q db' = expectedOf q db)"
proof (rule persistMovement_fresh [OF assms])
  fix r outline m
  assume r: "r \<in> set (shifts db)" "sh_id r = shift" "ofDrawer d r" "sh_open r"
    and p: "movementPlan d shift cmd db = Inr (outline, db)" and check: "cash_movement_check m"
    and clash: "\<forall>x\<in>set (cash_movements db). \<not> movement_clash x m" and keys: "cv_tenant m = dr_tenant d"
    and a: "fst (snd outline) = cv_amount m" "cv_reversal_of m = reversalOf cmd" "cv_type m = fst outline" and e: "e = expectedOf r db'"
    and db': "db' = withMovement m db"
    and q: "\<And>q. q \<in> set (shifts db) \<Longrightarrow> expectedOf q db' = expectedOf q db + (if q = r then planned outline else 0)"
  have rows: "shifts db' = shifts db" by (simp add: db' withMovement_def)
  have change: "expectedOf r db' = expectedOf r db + planned outline" using q [OF r(1)] by simp
  have once: "\<forall>y\<in>set (cash_movements db). cv_tenant y = dr_tenant d \<longrightarrow> cv_reversal_of y \<noteq> Some i" if "reversalOf cmd = Some i" for i
    using clash that keys a(2) by (auto simp: movement_clash_def)
  from p have "case cmd of
       CreateMovement kind amount _ \<Rightarrow> kind \<noteq> REVERSAL \<and> 0 < amount \<and>
         expectedOf r db' = expectedOf r db + (if kind = INCOME then amount else - amount)
     | ReverseMovement i _ \<Rightarrow>
         (\<exists>x\<in>set (cash_movements db). cv_id x = i \<and> cv_shift x = shift \<and> cv_type x \<noteq> REVERSAL \<and>
            expectedOf r db' = expectedOf r db - signedAmount (cash_movements db) x) \<and>
         (\<forall>y\<in>set (cash_movements db). cv_tenant y = dr_tenant d \<longrightarrow> cv_reversal_of y \<noteq> Some i)"
  proof (cases rule: movementPlan_Inr)
    case (new kind amount reason)
    have "cv_type m = kind" "cv_reversal_of m = None"
      using new a(2,3) by (simp_all add: reversalOf_def)
    then have "kind \<noteq> REVERSAL" "0 < amount" using check new a(1) by (simp_all add: cash_movement_check_def)
    then show ?thesis using change new by (cases kind) (simp_all add: planned_def)
  next
    case (reversal i reason x)
    then have "planned outline = - signedAmount (cash_movements db) x"
      by (cases "cv_type x") (simp_all add: planned_def signedAmount_def)
    then have "\<exists>x\<in>set (cash_movements db). cv_id x = i \<and> cv_shift x = shift \<and> cv_type x \<noteq> REVERSAL \<and>
        expectedOf r db' = expectedOf r db - signedAmount (cash_movements db) x"
      using reversal change by (intro bexI [of _ x]) simp_all
    then show ?thesis using once [of i] by (simp add: reversal(1) reversalOf_def)
  qed
  then show ?thesis using r e rows q by (intro bexI [of _ r]) auto
qed

lemma till_invs: "drawer_inv till1" "drawer_inv till2" "drawer_inv till3"
proof -
  have start: "drawer_inv sampleTrade" using empty_drawers_inv [OF empty_sampleTrade] by blast
  from till_steps(1) start have "drawer_inv till1" using drawer_step_inv by blast
  moreover from this till_steps(2) have "drawer_inv till2" using drawer_step_inv by blast
  moreover from this till_steps(3) have "drawer_inv till3" using drawer_step_inv by blast
  ultimately show "drawer_inv till1" "drawer_inv till2" "drawer_inv till3" by blast+
qed

lemma put_back_run:
  "case persistMovement flatDigest till 60 (ReverseMovement 61 ''error'') ''key-0003'' till2 of
     Inl _ \<Rightarrow> False | Inr ((_, e, again), _) \<Rightarrow> e = 100 \<and> \<not> again"
  by code_simp

theorem persistMovement_effect_witness:
  "case persistMovement flatDigest till 60 (ReverseMovement 61 ''error'') ''key-0003'' till2 of
     Inl _ \<Rightarrow> False
   | Inr ((_, e, _), db') \<Rightarrow> e = 100 \<and> (\<exists>r. sh_id r = 60 \<and> e = expectedOf r db' \<and> shifts db' = shifts till2)"
proof -
  obtain data db' where run: "persistMovement flatDigest till 60 (ReverseMovement 61 ''error'') ''key-0003'' till2 = Inr ((data, 100, False), db')"
    using put_back_run by (auto split: sum.splits prod.splits)
  from persistMovement_effect [OF run till_invs(2)] show ?thesis unfolding run by auto
qed

section \<open>Closing\<close>

lemma storeDecimal_expected:
  assumes "storeDecimal (fromCents v) = Inr w"
  shows "w = v"
proof (cases "0 \<le> v")
  case True
  then show ?thesis using assms storeDecimal_Inr by blast
next
  case False
  have "v mod 100 = 0"
  proof (rule ccontr)
    assume "v mod 100 \<noteq> 0"
    then show False using storeDecimal_negative [of v] False assms by simp
  qed
  then have m: "\<bar>v\<bar> mod 100 = 0" by (simp add: mod_eq_0_iff_dvd)
  then have z: "\<bar>v\<bar> div 100 * 100 = \<bar>v\<bar>" by (simp add: mod_eq_0_iff_dvd)
  have "0 < \<bar>v\<bar> div 100" using z False by linarith
  moreover have "string_of_nat 0 = ''0''" by code_simp
  ultimately have "fromCents v = ''-'' @ string_of_nat (nat (\<bar>v\<bar> div 100)) @ ''.'' @ ''00''"
    using False m by (simp add: fromCents_def bigint_div_def bigint_mod_def bigint_text_def padStart0_def)
  moreover have "nat_of_digits ''00'' = 0" by code_simp
  then have "sqlDecimal (''-'' @ string_of_nat (nat (\<bar>v\<bar> div 100)) @ ''.'' @ ''00'') = Some v"
    using z False by (subst sqlDecimal_digits(2)) (simp_all add: string_of_nat_digits)
  ultimately show ?thesis using assms by (simp add: storeDecimal_def)
qed

lemma min_rank: "sort_key f (filter p rows) = x # rest \<Longrightarrow> y \<in> set rows \<Longrightarrow> p y \<Longrightarrow> f x \<le> f y"
proof -
  assume s: "sort_key f (filter p rows) = x # rest" and y: "y \<in> set rows" "p y"
  have "sorted (map f (x # rest))" using sorted_sort_key [of f "filter p rows"] s by simp
  moreover have "y \<in> set (x # rest)" using y by (simp flip: s)
  ultimately show "f x \<le> f y" by auto
qed

text \<open>A request with the key of a closed shift is about that shift.\<close>

lemma closingShift_closed:
  assumes r: "r \<in> set (shifts db)" "ofDrawer d r" "sh_closing_key r = Some key"
    and once: "\<And>q. q \<in> set (shifts db) \<Longrightarrow> ofDrawer d q \<Longrightarrow> sh_closing_key q = Some key \<Longrightarrow> q = r"
  shows "closingShift d key db = Some r"
proof (cases "sort_key (closingRank key) (filter (\<lambda>r. ofDrawer d r \<and> (sh_open r \<or> sh_closing_key r = Some key)) (shifts db))")
  case Nil
  then have "set (sort_key (closingRank key) (filter (\<lambda>r. ofDrawer d r \<and> (sh_open r \<or> sh_closing_key r = Some key)) (shifts db))) = {}"
    by simp
  then show ?thesis using r unfolding set_sort set_filter by blast
next
  case (Cons x rest)
  have "x \<in> set (sort_key (closingRank key) (filter (\<lambda>r. ofDrawer d r \<and> (sh_open r \<or> sh_closing_key r = Some key)) (shifts db)))"
    unfolding Cons by simp
  then have x: "x \<in> set (shifts db)" "ofDrawer d x" by simp_all
  have "closingRank key x \<le> closingRank key r" using min_rank [OF Cons r(1)] r by blast
  then have "sh_closing_key x = Some key"
    using r(3) by (auto simp: closingRank_def less_eq_prod_simp split: option.splits if_splits)
  then have "x = r" using once x by blast
  then show ?thesis by (simp add: closingShift_def Cons)
qed

text \<open>C11: A closure closes exactly one shift, the open one of the drawer: it stores what was counted,
  the expected cash of that moment and the difference of the two, for which a reason was given when
  it is not zero; every other shift keeps its row. The same request sent again is answered with the
  stored closure and changes nothing.\<close>

theorem closeShift_effect:
  assumes "closeShift digest collate d x key db = Inr ((c, False), db')" "drawer_inv db"
  shows "(\<exists>r\<in>set (shifts db). ofDrawer d r \<and> sh_open r \<and> (ci_counted x = expectedOf r db \<or> \<not> missingReason (ci_reason x)) \<and>
      db' = db\<lparr>shifts := map (\<lambda>q. if q = r
        then r\<lparr>sh_open := False, sh_closed_by := Some (dr_user d), sh_counted := Some (ci_counted x),
          sh_expected := Some (expectedOf r db), sh_difference := Some (ci_counted x - expectedOf r db), sh_reason := ci_reason x,
          sh_denominations := ci_denominations x, sh_closing_key := Some key,
          sh_closing_fingerprint := Some (closureFingerprint digest collate x (sh_id r)), sh_closed_at := Some (env_clock db (ticks db))\<rparr>
        else q) (shifts db)\<rparr>) \<and>
    closeShift digest collate d x key db' = Inr ((c, True), db')"
  using assms
proof (cases rule: closeShift_Inr)
  case (fresh r w)
  note I = drawer_invD [OF assms(2)]
  let ?f = "closureFingerprint digest collate x (sh_id r)"
  let ?u = "closedRowOf d x key ?f w (ci_counted x - expectedOf r db) (env_clock db (ticks db))"
  have w: "w = expectedOf r db" using storeDecimal_expected fresh(6) .
  have t: "sh_tenant r = dr_tenant d" using fresh(3) by (simp add: ofDrawer_def)
  have one: "q = r" if "q \<in> set (shifts db)" "sh_id q = sh_id r" for q
    using distinct_map_key_inj [OF shift_ids [OF I(1)] that(1) fresh(2)] that(2) by simp
  have rows: "update_where (\<lambda>q. sh_id q = sh_id r \<and> sh_tenant q = dr_tenant d \<and> sh_open q) ?u (shifts db) =
      map (\<lambda>q. if q = r then ?u r else q) (shifts db)"
    unfolding update_where_def using one t fresh(4) by (intro map_cong) auto
  have db': "db' = db\<lparr>shifts := map (\<lambda>q. if q = r then ?u r else q) (shifts db)\<rparr>" using fresh(8) unfolding rows .
  have found: "closingShift d key db' = Some (?u r)"
  proof (rule closingShift_closed)
    show "?u r \<in> set (shifts db')" using fresh(2) by (auto simp: db')
    show "ofDrawer d (?u r)" using fresh(3) by (simp add: closedRowOf_def ofDrawer_def)
    show "sh_closing_key (?u r) = Some key" by (simp add: closedRowOf_def)
    fix q
    assume q: "q \<in> set (shifts db')" "ofDrawer d q" "sh_closing_key q = Some key"
    show "q = ?u r"
    proof (rule ccontr)
      assume "q \<noteq> ?u r"
      then have "q \<in> set (shifts db)" "q \<noteq> r" using q(1) by (auto simp: db' split: if_splits)
      moreover have "sh_tenant q = dr_tenant d" using q(2) by (simp add: ofDrawer_def)
      ultimately show False using fresh(7) q(3) one by blast
    qed
  qed
  have u: "\<not> sh_open (?u r)" "sh_closing_fingerprint (?u r) = Some ?f" "sh_id (?u r) = sh_id r"
    by (simp_all add: closedRowOf_def)
  have "closeShift digest collate d x key db' = Inr ((c, True), db')"
    using fresh(9) by (simp add: closeShift_def runM found u)
  moreover have "ci_counted x = expectedOf r db \<or> \<not> missingReason (ci_reason x)" using fresh(5) by blast
  ultimately show ?thesis
    using fresh(2-4) db' unfolding w closedRowOf_def by blast
qed simp

lemma close_run:
  "case closeShift flatDigest (\<lambda>s. s) till countTill ''key-0004'' till3 of
     Inl _ \<Rightarrow> False | Inr ((c, again), _) \<Rightarrow> ud_expected c = Some 100 \<and> ud_difference c = Some (- 1) \<and> \<not> again"
  by code_simp

theorem closeShift_effect_witness:
  "case closeShift flatDigest (\<lambda>s. s) till countTill ''key-0004'' till3 of
     Inl _ \<Rightarrow> False
   | Inr ((c, _), db') \<Rightarrow> ud_difference c = Some (- 1) \<and>
       closeShift flatDigest (\<lambda>s. s) till countTill ''key-0004'' db' = Inr ((c, True), db')"
proof -
  obtain c db' where run: "closeShift flatDigest (\<lambda>s. s) till countTill ''key-0004'' till3 = Inr ((c, False), db')" "ud_difference c = Some (- 1)"
    using close_run by (auto split: sum.splits prod.splits)
  from closeShift_effect [OF run(1) till_invs(3)] show ?thesis unfolding run(1) using run(2) by simp
qed

section \<open>A drawer that should hold less than nothing\<close>

text \<open>C37: Voiding a sale does not look at the drawer, so the expected cash of a shift can become
  negative. When it is short of zero by less than one unit, the parser of the movement repository,
  which has no sign, reads it as that many cents in the drawer, and a withdrawal of up to so much
  passes the check of the balance; and the shift cannot be closed, because the expected cash is
  printed with a sign before its cents and the decimal column refuses that text.\<close>

theorem negative_drawer:
  assumes "drawer_inv db" "r \<in> set (shifts db)" "ofDrawer d r" "expectedOf r db = - c" "0 < c" "c < 100" "0 < a" "a \<le> c"
    "\<not> missingReason (ci_reason x)"
  shows "guardMovement d (sh_id r) (CreateMovement WITHDRAWAL a reason) (WITHDRAWAL, a, None) db = Inr ((), db) \<and>
    closeOpenShift d x key f (sh_id r) db = Inl SqlIncorrectValue"
proof -
  have row: "shiftOf (dr_tenant d) (sh_id r) db = Some r"
    using shiftOf_row [OF drawer_invD(1) [OF assms(1)] assms(2)] assms(3) by (simp add: ofDrawer_def)
  have c: "\<bar>- c\<bar> div 100 = 0" "\<bar>- c\<bar> mod 100 = c" using assms(5,6) by simp_all
  have "assertCashAvailable (dr_tenant d) (sh_id r) a db = Inr ((), db)"
    unfolding assertCashAvailable_Inr expectedCash_def row option.case assms(4) readCents_eq c using assms by simp
  then have "guardMovement d (sh_id r) (CreateMovement WITHDRAWAL a reason) (WITHDRAWAL, a, None) db = Inr ((), db)"
    by (simp add: guardMovement_def reversalOf_def whenM_def)
  moreover have "storeDecimal (fromCents (- c)) = Inl SqlIncorrectValue"
    using assms(5,6) by (intro storeDecimal_negative) (simp_all add: zmod_zminus1_eq_if)
  moreover have "su_opening (summaryOf r db) + su_cash_sales (summaryOf r db) + su_movements_net (summaryOf r db) = - c"
    using assms(4) by (simp add: summaryOf_def expectedOf_def)
  ultimately show ?thesis
    using assms(9) row
    by (simp add: closeOpenShift_def closureSummary_def bindM_def readM_def requireM_def returnM_def thenM_def ensureM_def liftE_def throwM_def)
qed

text \<open>A shift opened with nothing; a sale of 0.30 in cash, which is withdrawn; then the sale is
  voided.\<close>

definition openEmpty :: "(shift_data \<times> bool) tact" where
  "openEmpty = openShiftRequest flatDigest till 0 (Some ''key-0001'')"

definition cashSale :: sale_row where
  "cashSale = \<lparr>sa_id = 40, sa_tenant = 1, sa_branch = 1, sa_currency = ''CLP'', sa_shift = Some 60, sa_customer = Some 20,
     sa_status = SaleCompleted, sa_total = 30, sa_points_redeemed = 0, sa_points_earned = 0\<rparr>"

definition cashPayment :: sale_payment_row where
  "cashPayment = \<lparr>sp_id = 41, sp_tenant = 1, sp_sale = 40, sp_method = CASH, sp_status = PaymentCompleted, sp_currency = ''CLP'',
     sp_external = None, sp_reference = None, sp_applied = 30\<rparr>"

definition emptyTill :: trade_db where "emptyTill = afterRun openEmpty sampleTrade"
definition soldTill :: trade_db where "soldTill = sold cashSale [cashPayment] emptyTill"
definition drawnTill :: trade_db where "drawnTill = afterRun takeThirty soldTill"
definition voidedTill :: trade_db where
  "voidedTill = drawnTill\<lparr>sales := map (\<lambda>s. s\<lparr>sa_status := SaleVoided\<rparr>) (sales drawnTill)\<rparr>"

lemma void_runs:
  "case openEmpty sampleTrade of Inl _ \<Rightarrow> False | Inr _ \<Rightarrow> True" "case takeThirty soldTill of Inl _ \<Rightarrow> False | Inr _ \<Rightarrow> True"
  "map (\<lambda>r. (sh_id r, sh_tenant r, sh_open r)) (shifts emptyTill) = [(60, 1, True)]"
  "map (\<lambda>r. (sh_id r, ofDrawer till r, sh_open r, expectedOf r voidedTill)) (shifts voidedTill) = [(60, True, True, - 30)]"
  by code_simp+

lemma void_inv: "drawer_inv voidedTill"
proof -
  obtain x y where runs: "openEmpty sampleTrade = Inr (x, emptyTill)" "takeThirty soldTill = Inr (y, drawnTill)"
    using afterRun_Inr [where act = openEmpty and db = sampleTrade, OF void_runs(1)]
      afterRun_Inr [where act = takeThirty and db = soldTill, OF void_runs(2)]
    unfolding emptyTill_def [symmetric] drawnTill_def [symmetric] by blast
  obtain q where q: "shifts emptyTill = [q]" "sh_id q = 60" "sh_tenant q = 1" "sh_open q" using void_runs(3) by auto
  have "drawer_step sampleTrade emptyTill" using runs(1) by (auto simp: openEmpty_def intro: opening_step)
  then have "drawer_inv emptyTill" using drawer_step_inv empty_drawers_inv [OF empty_sampleTrade] by blast
  then have "drawer_inv soldTill"
    using sold_inv [of emptyTill q cashSale "[cashPayment]"] q by (simp add: soldTill_def cashSale_def cashPayment_def)
  moreover have "drawer_step soldTill drawnTill" using runs(2) by (auto simp: takeThirty_def intro: moving_step)
  ultimately have inv: "drawer_inv drawnTill" using drawer_step_inv by blast
  have same: "shifts voidedTill = shifts drawnTill" "cash_movements voidedTill = cash_movements drawnTill"
    "settlements voidedTill = settlements drawnTill" "sale_payments voidedTill = sale_payments drawnTill"
    "shiftKeys voidedTill = shiftKeys drawnTill" "sales voidedTill = map (\<lambda>s. s\<lparr>sa_status := SaleVoided\<rparr>) (sales drawnTill)"
    by (simp_all add: voidedTill_def shiftKeys_def)
  show ?thesis
    using inv unfolding drawer_inv_def references_ok_def same by (auto split: option.splits)
qed

theorem negative_drawer_witness:
  "map (\<lambda>r. expectedOf r voidedTill) (shifts voidedTill) = [- 30] \<and>
   guardMovement till 60 (CreateMovement WITHDRAWAL 30 ''x'') (WITHDRAWAL, 30, None) voidedTill = Inr ((), voidedTill) \<and>
   closeOpenShift till countTill ''key-0005'' ''f'' 60 voidedTill = Inl SqlIncorrectValue"
proof -
  obtain r where r: "shifts voidedTill = [r]" "sh_id r = 60" "ofDrawer till r" "expectedOf r voidedTill = - 30"
    using void_runs(4) by auto
  then have "r \<in> set (shifts voidedTill)" by simp
  then show ?thesis
    using negative_drawer [where c = 30 and a = 30 and x = countTill and key = "''key-0005''" and f = "''f''" and reason = "''x''", OF void_inv _ r(3,4)] r
    by (simp add: countTill_def missingReason_def)
qed

section \<open>Three readers of amounts\<close>

lemma strip_sqlMoney: "strip_minus (sqlMoney x) = (x < 0, sqlMoney \<bar>x\<bar>)"
proof (cases "x < 0")
  case True
  then show ?thesis by (simp add: sqlMoney_def strip_minus_def)
next
  case False
  have "string_of_nat (nat \<bar>x\<bar> div 100) \<noteq> [] \<and> list_all is_digit (string_of_nat (nat \<bar>x\<bar> div 100))"
    by (simp add: string_of_nat_digits)
  then obtain c s where c: "string_of_nat (nat \<bar>x\<bar> div 100) = c # s" "is_digit c"
    by (cases "string_of_nat (nat \<bar>x\<bar> div 100)") auto
  then have "c \<noteq> CHR ''-''" by (auto simp: is_digit_def)
  then show ?thesis using False c(1) by (simp add: sqlMoney_parts strip_minus_def)
qed

text \<open>C38: The cash drawer reads amounts of the database with three copies of one parser. The one of the
  closures gives back every amount; those of the movements and of the settlements are equal to each
  other on every amount, and give back exactly those that are not negative or have no cents.\<close>

theorem money_readers_agree:
  "closure_cents (sqlMoney x) = Some x \<and> toMoney x = readCents x \<and> (readCents x = Inr x \<longleftrightarrow> 0 \<le> x \<or> x mod 100 = 0)"
proof -
  have w: "bigint_of (string_of_nat (nat \<bar>x\<bar> div 100)) = Some (\<bar>x\<bar> div 100)" by (simp add: zdiv_int)
  have f: "bigint_of (padEnd0 2 (padStart0 2 (string_of_nat (nat \<bar>x\<bar> mod 100)))) = Some (\<bar>x\<bar> mod 100)"
    by (simp add: padEnd0_full fraction_two zmod_int)
  have "split_point (sqlMoney \<bar>x\<bar>) = (string_of_nat (nat \<bar>x\<bar> div 100), padStart0 2 (string_of_nat (nat \<bar>x\<bar> mod 100)))"
    using split_sqlMoney [of "\<bar>x\<bar>"] by simp
  note split = this
  have "\<bar>x\<bar> div 100 * 100 + \<bar>x\<bar> mod 100 = \<bar>x\<bar>" by simp
  then have "closure_cents (sqlMoney x) = Some x"
    unfolding closure_cents_def strip_sqlMoney Let_def prod.case split w f option_map2_def by (simp only: option.case option.map) simp
  moreover have "readCents x = Inr x \<longleftrightarrow> 0 \<le> x \<or> x mod 100 = 0"
  proof (cases "0 \<le> x")
    case False
    have "\<bar>x\<bar> div 100 * 100 + \<bar>x\<bar> mod 100 = - x" using False by simp
    then have "- (\<bar>x\<bar> div 100) * 100 + \<bar>x\<bar> mod 100 = x \<longleftrightarrow> \<bar>x\<bar> mod 100 = 0" by linarith
    moreover have "\<bar>x\<bar> mod 100 = 0 \<longleftrightarrow> x mod 100 = 0" by (simp add: mod_eq_0_iff_dvd)
    ultimately show ?thesis using False by (simp add: readCents_eq)
  qed (simp add: readCents_eq)
  ultimately show ?thesis using toMoney_readCents by blast
qed

section \<open>Settlements of returns\<close>

inductive settlement_step :: "trade_db \<Rightarrow> trade_db \<Rightarrow> bool" where
  settling: "settle digest seal provider x value db = Inr (res, db') \<Longrightarrow> settlement_step db db'"

definition unsettled :: "trade_db \<Rightarrow> bool" where
  "unsettled db \<longleftrightarrow> settlements db = [] \<and> distinct (map rt_id (sale_returns db)) \<and> distinct (map sp_id (sale_payments db)) \<and>
     (\<forall>r\<in>set (sale_returns db). rt_settlement r = SettlementPending \<and> 0 \<le> refundable r) \<and>
     (\<forall>p\<in>set (sale_payments db). 0 \<le> sp_applied p)"

lemma unsettled_inv: "unsettled db \<Longrightarrow> settlement_inv db"
  by (auto simp: unsettled_def settlement_inv_def settledOf_def refundedOf_def statusOf_def)

lemma settlement_step_inv: "settlement_step db db' \<Longrightarrow> settlement_inv db \<Longrightarrow> settlement_inv db'"
  by (erule settlement_step.cases) (auto simp: settle_def bindM_Inr requireKey_Inr dest!: createSettlement_inv)

text \<open>C8: However many settlements of returns succeed, refunds that the provider refused and store
  credits among them: the completed settlements of a return never exceed its refundable amount, its
  status says whether nothing, a part or all of it has been settled, and the completed refunds
  through a payment never exceed what was paid with it.\<close>

theorem settlements_bounded:
  assumes "settlement_step\<^sup>*\<^sup>* start db" "unsettled start"
  shows "(\<forall>r\<in>set (sale_returns db). settledOf (rt_tenant r) (rt_id r) db \<le> rt_total r - rt_loyalty_restored r \<and>
      rt_settlement r = (if settledOf (rt_tenant r) (rt_id r) db = 0 then SettlementPending
        else if settledOf (rt_tenant r) (rt_id r) db = rt_total r - rt_loyalty_restored r then Settled else PartiallySettled)) \<and>
    (\<forall>p\<in>set (sale_payments db). refundedOf (sp_tenant p) (sp_id p) db \<le> sp_applied p)"
proof -
  from assms(1) have "settlement_inv db"
    by (induction rule: rtranclp_induct) (use assms(2) unsettled_inv settlement_step_inv in blast)+
  then show ?thesis by (simp add: settlement_inv_def statusOf_def refundable_def)
qed

text \<open>A return of 0.25 of the cash sale: 0.10 are credited to the customer, then 0.15 paid back in
  cash; a further refund is refused.\<close>

definition openRow :: shift_row where
  "openRow = \<lparr>sh_id = 60, sh_tenant = 1, sh_branch = 1, sh_register = 30, sh_user = 9, sh_closed_by = None,
     sh_opening = 0, sh_counted = None, sh_expected = None, sh_difference = None, sh_reason = None, sh_denominations = [],
     sh_currency = ''CLP'', sh_open = True, sh_key = ''k'', sh_closing_key = None, sh_fingerprint = ''f'',
     sh_closing_fingerprint = None, sh_opened_at = 0, sh_closed_at = None\<rparr>"

definition returnedTill :: trade_db where
  "returnedTill = sampleTrade\<lparr>shifts := [openRow], sales := [cashSale], sale_payments := [cashPayment],
     sale_returns := [\<lparr>rt_id = 50, rt_tenant = 1, rt_sale = 40, rt_total = 25, rt_loyalty_restored = 0,
       rt_settlement = SettlementPending\<rparr>]\<rparr>"

definition settleInput :: "settlement_mode \<Rightarrow> int \<Rightarrow> id option \<Rightarrow> settle_input" where
  "settleInput mode amount payment =
     \<lparr>si_drawer = till, si_shift = None, si_sale = 40, si_return = 50, si_key = [], si_fingerprint = [], si_mode = mode,
      si_amount = amount, si_payment = payment\<rparr>"

definition settleNow :: "settlement_mode \<Rightarrow> int \<Rightarrow> id option \<Rightarrow> string \<Rightarrow> (settlement_data \<times> bool) tact" where
  "settleNow mode amount payment key =
     settle (\<lambda>_. ''f'') (\<lambda>_. ''s'') ''SIMULATOR'' (settleInput mode amount payment) (Some key)"

lemma case_Inr: "(case y of Inl _ \<Rightarrow> False | Inr (a, b) \<Rightarrow> P a b) \<Longrightarrow> \<exists>a b. y = Inr (a, b) \<and> P a b"
  by (auto split: sum.splits)

lemma unsettled_till: "unsettled returnedTill"
  by (simp add: unsettled_def returnedTill_def refundable_def cashPayment_def sampleTrade_def)

lemma settle_runs:
  "case settleNow STORE_CREDIT 10 None ''key-0010'' returnedTill of Inl _ \<Rightarrow> False
   | Inr (_, db) \<Rightarrow> map rt_settlement (sale_returns db) = [PartiallySettled] \<and>
     (case settleNow REFUND 15 (Some 41) ''key-0011'' db of Inl _ \<Rightarrow> False
      | Inr (_, db') \<Rightarrow> map rt_settlement (sale_returns db') = [Settled] \<and> settledOf 1 50 db' = 25 \<and>
          map (\<lambda>r. expectedOf r db') (shifts db') = [15])"
  by code_simp

theorem settlements_bounded_witness:
  "\<exists>db. settlement_step\<^sup>*\<^sup>* returnedTill db \<and> map rt_settlement (sale_returns db) = [Settled] \<and> settledOf 1 50 db = 25 \<and>
     map (\<lambda>r. expectedOf r db) (shifts db) = [15] \<and>
     list_all (\<lambda>p. refundedOf (sp_tenant p) (sp_id p) db \<le> sp_applied p) (sale_payments db)"
proof -
  obtain x db1 where first: "settleNow STORE_CREDIT 10 None ''key-0010'' returnedTill = Inr (x, db1)"
    and rest: "case settleNow REFUND 15 (Some 41) ''key-0011'' db1 of Inl _ \<Rightarrow> False
      | Inr (_, db') \<Rightarrow> map rt_settlement (sale_returns db') = [Settled] \<and> settledOf 1 50 db' = 25 \<and>
          map (\<lambda>r. expectedOf r db') (shifts db') = [15]"
    using case_Inr [OF settle_runs] by blast
  obtain y db where second: "settleNow REFUND 15 (Some 41) ''key-0011'' db1 = Inr (y, db)"
    and facts: "map rt_settlement (sale_returns db) = [Settled]" "settledOf 1 50 db = 25" "map (\<lambda>r. expectedOf r db) (shifts db) = [15]"
    using case_Inr [OF rest] by auto
  from first second have "settlement_step returnedTill db1" "settlement_step db1 db"
    by (auto simp: settleNow_def intro: settling)
  then have run: "settlement_step\<^sup>*\<^sup>* returnedTill db" by (meson rtranclp.rtrancl_into_rtrancl rtranclp.rtrancl_refl)
  have "list_all (\<lambda>p. refundedOf (sp_tenant p) (sp_id p) db \<le> sp_applied p) (sale_payments db)"
    using settlements_bounded [OF run unsettled_till] unfolding list_all_iff by (rule conjunct2)
  with run facts show ?thesis by (intro exI [of _ db] conjI)
qed

end
