(* ===== verification/Loyalty.thy ===== *)
theory Loyalty
  imports TradeSchema Codecs
begin

text \<open>
  The loyalty programme, after \<open>src/loyalty/loyalty.repository.ts\<close> and the errors of its
  service. Points are a ledger: credits (points earned or given back) and debits (points redeemed,
  expired or taken back), and every debit is allocated to the credits it consumes, those that
  expire first before the others.

  Amounts are cents; the module parses and prints them with \<open>toMoney\<close> and \<open>fromMoney\<close>
  (\<open>loyalty_toMoney\<close>, \<open>loyalty_fromMoney\<close> in \<open>Codecs\<close>), and none of them is
  negative. An idempotency key prints an id as its decimal text. Times are microseconds, and a
  \<open>Date\<close> has milliseconds.
\<close>

section \<open>Data\<close>

record rule_dto =
  rd_active :: bool
  rd_earn_amount :: int
  rd_earn_points :: int
  rd_redeem_points :: int
  rd_redeem_amount :: int
  rd_expiration_days :: "nat option"

record loyalty_quote =
  lq_rule :: loyalty_rule_row
  lq_before :: int
  lq_redeemed :: int
  lq_value :: int
  lq_earned :: int
  lq_after :: int

record loyalty_statement =
  st_customer :: "id \<times> string"
  st_rule :: "loyalty_rule_row option"
  st_balance :: int
  st_entries :: "loyalty_entry_row list"

text \<open>An entry before it has an id: the input of \<open>insertDebit\<close> and \<open>insertCredit\<close>.\<close>

record entry_input =
  ei_tenant :: id
  ei_customer :: id
  ei_rule :: id
  ei_sale :: "id option"
  ei_return :: "id option"
  ei_type :: loyalty_type
  ei_points :: int
  ei_value :: int
  ei_key :: string
  ei_snapshot :: loyalty_snapshot
  ei_expires_at :: "nat option"
  ei_user :: id

definition ruleSnapshotOf :: "loyalty_rule_row \<Rightarrow> loyalty_snapshot" where
  "ruleSnapshotOf r = \<lparr>ls_id = lr_id r, ls_version = lr_version r, ls_earn_amount = lr_earn_amount r,
     ls_earn_points = lr_earn_points r, ls_redeem_points = lr_redeem_points r,
     ls_redeem_amount = lr_redeem_amount r, ls_expiration_days = lr_expiration_days r\<rparr>"

section \<open>Reads\<close>

definition currentRule :: "id \<Rightarrow> trade_db \<Rightarrow> loyalty_rule_row option" where
  "currentRule t db =
     (case sort_key (\<lambda>r. - int (lr_version r)) (filter (\<lambda>r. lr_tenant r = t) (loyalty_rules db)) of
        [] \<Rightarrow> None | r # _ \<Rightarrow> Some r)"

definition ruleById :: "id \<Rightarrow> id \<Rightarrow> trade_db \<Rightarrow> loyalty_rule_row option" where
  "ruleById t i db = List.find (\<lambda>r. lr_tenant r = t \<and> lr_id r = i) (loyalty_rules db)"

definition loyaltyBalance :: "id \<Rightarrow> id \<Rightarrow> trade_db \<Rightarrow> int" where
  "loyaltyBalance t c db = sum_where (\<lambda>e. le_tenant e = t \<and> le_customer e = c) le_points (loyalty_entries db)"

definition lockLoyaltyCustomer :: "id \<Rightarrow> id \<Rightarrow> trade_db \<Rightarrow> customer_row option" where
  "lockLoyaltyCustomer t c db =
     List.find (\<lambda>r. cu_id r = c \<and> cu_tenant r = t \<and> cu_active r \<and> cu_privacy_active r) (customers db)"

definition requireCustomer :: "id \<Rightarrow> id \<Rightarrow> unit tact" where
  "requireCustomer t c =
     bindM (readM (lockLoyaltyCustomer t c)) (\<lambda>found.
       thenM (requireM (Code ''LOYALTY_CUSTOMER_NOT_AVAILABLE'') found) (returnM ()))"

text \<open>\<open>available_points\<close>: what is left of a credit.\<close>

definition allocatedFrom :: "trade_db \<Rightarrow> loyalty_entry_row \<Rightarrow> int" where
  "allocatedFrom db e = sum_where (\<lambda>a. la_tenant a = le_tenant e \<and> la_credit a = le_id e) la_points (loyalty_allocations db)"

definition availablePoints :: "trade_db \<Rightarrow> loyalty_entry_row \<Rightarrow> int" where
  "availablePoints db e = le_points e - allocatedFrom db e"

definition expiredBy :: "nat \<Rightarrow> loyalty_entry_row \<Rightarrow> bool" where
  "expiredBy now e \<longleftrightarrow> (case le_expires_at e of None \<Rightarrow> False | Some x \<Rightarrow> x \<le> now)"

definition expiredCredits :: "id \<Rightarrow> id \<Rightarrow> nat \<Rightarrow> trade_db \<Rightarrow> (loyalty_entry_row \<times> int) list" where
  "expiredCredits t c now db =
     map (\<lambda>e. (e, availablePoints db e))
       (sort_key (\<lambda>e. (le_expires_at e, le_id e))
         (filter (\<lambda>e. le_tenant e = t \<and> le_customer e = c \<and> 0 < le_points e \<and> expiredBy now e) (loyalty_entries db)))"

text \<open>Credits without expiry come last: \<open>ORDER BY expires_at IS NULL, expires_at, ...\<close>.\<close>

definition creditRank :: "loyalty_entry_row \<Rightarrow> bool \<times> nat option \<times> nat \<times> id" where
  "creditRank e = (le_expires_at e = None, le_expires_at e, le_created_at e, le_id e)"

definition availableCredits :: "id \<Rightarrow> id \<Rightarrow> nat \<Rightarrow> trade_db \<Rightarrow> (loyalty_entry_row \<times> int) list" where
  "availableCredits t c now db =
     filter (\<lambda>x. 0 < snd x) (map (\<lambda>e. (e, availablePoints db e))
       (sort_key creditRank
         (filter (\<lambda>e. le_tenant e = t \<and> le_customer e = c \<and> 0 < le_points e \<and> \<not> expiredBy now e) (loyalty_entries db))))"

definition creditById :: "id \<Rightarrow> id \<Rightarrow> trade_db \<Rightarrow> (loyalty_entry_row \<times> int) list" where
  "creditById t i db =
     map (\<lambda>e. (e, availablePoints db e)) (filter (\<lambda>e. le_id e = i \<and> le_tenant e = t) (loyalty_entries db))"

section \<open>Writes\<close>

definition credit_type :: "loyalty_type \<Rightarrow> bool" where
  "credit_type k \<longleftrightarrow> k \<in> {EARN, VOID_REDEEM_RESTORE, RETURN_REDEEM_RESTORE}"

definition entry_check :: "loyalty_entry_row \<Rightarrow> bool" where
  "entry_check e \<longleftrightarrow> (if credit_type (le_type e) then 0 < le_points e else le_points e < 0) \<and> 0 \<le> le_value e"

definition insertEntry :: "loyalty_entry_row \<Rightarrow> unit tact" where
  "insertEntry e =
     bindM (readM loyalty_entries) (\<lambda>rows.
     thenM (ensureM TradeDuplicateEntry
        (\<forall>x\<in>set rows. le_id x \<noteq> le_id e \<and> \<not> (le_tenant x = le_tenant e \<and> le_key x = le_key e)))
     (thenM (ensureM TradeCheckViolated (entry_check e))
       (writeM (\<lambda>db. db\<lparr>loyalty_entries := loyalty_entries db @ [e]\<rparr>))))"

definition insertPointAllocation :: "loyalty_allocation_row \<Rightarrow> unit tact" where
  "insertPointAllocation a =
     bindM (readM loyalty_allocations) (\<lambda>rows.
     thenM (ensureM TradeDuplicateEntry
        (\<forall>x\<in>set rows. la_id x \<noteq> la_id a \<and>
           \<not> (la_tenant x = la_tenant a \<and> la_debit x = la_debit a \<and> la_credit x = la_credit a)))
     (thenM (ensureM TradeCheckViolated (0 < la_points a))
       (writeM (\<lambda>db. db\<lparr>loyalty_allocations := loyalty_allocations db @ [a]\<rparr>))))"

definition entryOf :: "entry_input \<Rightarrow> int \<Rightarrow> id \<times> nat \<Rightarrow> loyalty_entry_row" where
  "entryOf x points i =
     \<lparr>le_id = fst i, le_tenant = ei_tenant x, le_customer = ei_customer x, le_rule = ei_rule x, le_sale = ei_sale x,
      le_return = ei_return x, le_type = ei_type x, le_points = points, le_value = ei_value x, le_key = ei_key x,
      le_snapshot = ei_snapshot x, le_expires_at = ei_expires_at x, le_user = ei_user x, le_created_at = snd i\<rparr>"

definition insertCredit :: "entry_input \<Rightarrow> unit tact" where
  "insertCredit x =
     (if ei_points x \<le> 0 then returnM ()
      else bindM newTradeRow (\<lambda>i. insertEntry (entryOf x (ei_points x) i)))"

text \<open>The loop over the credits: \<open>break\<close> when nothing remains, \<open>continue\<close> on a credit
  that has nothing left.\<close>

fun allocatePoints :: "id \<Rightarrow> id \<Rightarrow> int \<Rightarrow> (loyalty_entry_row \<times> int) list \<Rightarrow> unit tact" where
  "allocatePoints t debit remaining [] = returnM ()"
| "allocatePoints t debit remaining ((e, available) # rest) =
     (if remaining = 0 then returnM ()
      else let allocated = min remaining available in
        if allocated \<le> 0 then allocatePoints t debit remaining rest
        else bindM newTradeRow (\<lambda>i.
          thenM (insertPointAllocation \<lparr>la_id = fst i, la_tenant = t, la_debit = debit, la_credit = le_id e, la_points = allocated\<rparr>)
            (allocatePoints t debit (remaining - allocated) rest)))"

definition availableTotal :: "(loyalty_entry_row \<times> int) list \<Rightarrow> int" where
  "availableTotal credits = sum_list (map (\<lambda>x. max 0 (snd x)) credits)"

definition insertDebit :: "entry_input \<Rightarrow> id option \<Rightarrow> unit tact" where
  "insertDebit x creditId =
     (if ei_points x \<le> 0 then returnM ()
      else
        bindM currentTime (\<lambda>now.
        bindM (readM (\<lambda>db. case creditId of Some i \<Rightarrow> creditById (ei_tenant x) i db
            | None \<Rightarrow> availableCredits (ei_tenant x) (ei_customer x) now db)) (\<lambda>credits.
        let available = availableTotal credits in
        thenM (ensureM (LoyaltyInsufficientBalanceError available (ei_points x)) (\<not> available < ei_points x))
        (bindM newTradeRow (\<lambda>i.
         thenM (insertEntry (entryOf x (- ei_points x) i))
           (allocatePoints (ei_tenant x) (fst i) (ei_points x) credits))))))"

definition expirationInput :: "id \<Rightarrow> id \<Rightarrow> id \<Rightarrow> loyalty_entry_row \<Rightarrow> int \<Rightarrow> entry_input" where
  "expirationInput t c user e points =
     \<lparr>ei_tenant = t, ei_customer = c, ei_rule = le_rule e, ei_sale = None, ei_return = None, ei_type = EXPIRE,
      ei_points = points, ei_value = 0, ei_key = ''loyalty:expire:'' @ string_of_nat (le_id e),
      ei_snapshot = le_snapshot e, ei_expires_at = None, ei_user = user\<rparr>"

definition expireCredit :: "id \<Rightarrow> id \<Rightarrow> id \<Rightarrow> loyalty_entry_row \<times> int \<Rightarrow> unit tact" where
  "expireCredit t c user x =
     (if snd x \<le> 0 then returnM ()
      else insertDebit (expirationInput t c user (fst x) (snd x)) (Some (le_id (fst x))))"

definition materializeExpirations :: "id \<Rightarrow> id \<Rightarrow> id \<Rightarrow> unit tact" where
  "materializeExpirations t c user =
     bindM currentTime (\<lambda>now.
     bindM (readM (expiredCredits t c now)) (forM (expireCredit t c user)))"

section \<open>Rules, quotes and sales\<close>

definition rule_check :: "loyalty_rule_row \<Rightarrow> bool" where
  "rule_check r \<longleftrightarrow> 0 < lr_earn_amount r \<and> 0 < lr_earn_points r \<and> 0 < lr_redeem_points r \<and> 0 < lr_redeem_amount r \<and>
     (case lr_expiration_days r of None \<Rightarrow> True | Some n \<Rightarrow> 1 \<le> n \<and> n \<le> 3650)"

definition insertRule :: "loyalty_rule_row \<Rightarrow> unit tact" where
  "insertRule r =
     bindM (readM loyalty_rules) (\<lambda>rows.
     thenM (ensureM TradeDuplicateEntry
        (\<forall>x\<in>set rows. lr_id x \<noteq> lr_id r \<and> \<not> (lr_tenant x = lr_tenant r \<and> lr_version x = lr_version r)))
     (thenM (ensureM TradeCheckViolated (rule_check r))
       (writeM (\<lambda>db. db\<lparr>loyalty_rules := loyalty_rules db @ [r]\<rparr>))))"

definition createRuleVersion :: "id \<Rightarrow> id \<Rightarrow> rule_dto \<Rightarrow> loyalty_rule_row tact" where
  "createRuleVersion t user dto =
     bindM (readM tenants) (\<lambda>rows.
     thenM (ensureM (Code ''LOYALTY_TENANT_NOT_FOUND'') (\<exists>x\<in>set rows. tn_id x = t))
     (bindM (readM (currentRule t)) (\<lambda>latest.
      bindM newTradeRow (\<lambda>i.
      thenM (insertRule \<lparr>lr_id = fst i, lr_tenant = t, lr_version = (case latest of None \<Rightarrow> 0 | Some r \<Rightarrow> lr_version r) + 1,
          lr_active = rd_active dto, lr_earn_amount = rd_earn_amount dto, lr_earn_points = rd_earn_points dto,
          lr_redeem_points = rd_redeem_points dto, lr_redeem_amount = rd_redeem_amount dto,
          lr_expiration_days = rd_expiration_days dto, lr_user = user, lr_created_at = snd i\<rparr>)
      (bindM (readM (ruleById t (fst i))) (requireM TypeErrorUndefined))))))"

text \<open>\<open>quote\<close>. The remainder of a division by zero is \<open>NaN\<close>, which is not zero.\<close>

definition loyaltyQuote :: "loyalty_rule_row \<Rightarrow> int \<Rightarrow> int \<Rightarrow> int \<Rightarrow> trade_error + loyalty_quote" where
  "loyaltyQuote rule balance saleTotal points =
     (if balance < points then Inl (LoyaltyInsufficientBalanceError balance points)
      else if lr_redeem_points rule = 0 \<or> bigint_mod points (lr_redeem_points rule) \<noteq> 0
        then Inl (Code ''LOYALTY_INVALID_REDEMPTION_INCREMENT'')
      else bindE (divB points (lr_redeem_points rule)) (\<lambda>times.
        let value = times * lr_redeem_amount rule in
        if saleTotal \<le> value \<and> 0 < value then Inl (Code ''LOYALTY_REDEMPTION_MUST_LEAVE_PAYABLE_BALANCE'')
        else bindE (divB (saleTotal - value) (lr_earn_amount rule)) (\<lambda>steps.
          let earned = steps * lr_earn_points rule in
          Inr \<lparr>lq_rule = rule, lq_before = balance, lq_redeemed = points, lq_value = value,
               lq_earned = earned, lq_after = balance - points + earned\<rparr>)))"

definition previewLoyalty :: "id \<Rightarrow> id \<Rightarrow> id \<Rightarrow> int \<Rightarrow> int \<Rightarrow> loyalty_quote option tact" where
  "previewLoyalty t c user saleTotal points =
     thenM (requireCustomer t c)
     (thenM (materializeExpirations t c user)
     (bindM (readM (currentRule t)) (\<lambda>found.
      case Option.bind found (\<lambda>r. if lr_active r then Some r else None) of
        None \<Rightarrow> thenM (ensureM (Code ''LOYALTY_NOT_ACTIVE'') (\<not> 0 < points)) (returnM None)
      | Some rule \<Rightarrow>
          bindM (readM (loyaltyBalance t c)) (\<lambda>balance.
          bindM (liftE (loyaltyQuote rule balance saleTotal points)) (\<lambda>q. returnM (Some q))))))"

definition saleEntry ::
  "id \<Rightarrow> id \<Rightarrow> id \<Rightarrow> id \<Rightarrow> loyalty_rule_row \<Rightarrow> loyalty_type \<Rightarrow> int \<Rightarrow> int \<Rightarrow> string \<Rightarrow> nat option \<Rightarrow> entry_input" where
  "saleEntry t c user sale rule kind points value key expires =
     \<lparr>ei_tenant = t, ei_customer = c, ei_rule = lr_id rule, ei_sale = Some sale, ei_return = None, ei_type = kind,
      ei_points = points, ei_value = value, ei_key = key, ei_snapshot = ruleSnapshotOf rule, ei_expires_at = expires, ei_user = user\<rparr>"

definition expiryOf :: "loyalty_rule_row \<Rightarrow> nat \<Rightarrow> nat option" where
  "expiryOf rule now =
     (case lr_expiration_days rule of None \<Rightarrow> None | Some n \<Rightarrow> if n = 0 then None else Some (now div 1000 * 1000 + n * 86400000000))"

definition applySale :: "id \<Rightarrow> id \<Rightarrow> id \<Rightarrow> id \<Rightarrow> string \<Rightarrow> int \<Rightarrow> loyalty_quote \<Rightarrow> unit tact" where
  "applySale t c user sale key saleTotal quoted =
     thenM (requireCustomer t c)
     (thenM (materializeExpirations t c user)
     (bindM (readM (currentRule t)) (\<lambda>found.
      case Option.bind found (\<lambda>r. if lr_active r \<and> lr_id r = lr_id (lq_rule quoted) then Some r else None) of
        None \<Rightarrow> throwM LoyaltyRuleChangedError
      | Some rule \<Rightarrow>
          bindM (readM (loyaltyBalance t c)) (\<lambda>balance.
          bindM (liftE (loyaltyQuote rule balance saleTotal (lq_redeemed quoted))) (\<lambda>current.
          thenM (ensureM LoyaltyRuleChangedError (lq_value current = lq_value quoted \<and> lq_earned current = lq_earned quoted))
          (thenM (whenM (0 < lq_redeemed current)
             (insertDebit (saleEntry t c user sale rule REDEEM (lq_redeemed current) (lq_value current) (''loyalty:redeem:'' @ key) None) None))
           (whenM (0 < lq_earned current)
             (bindM currentTime (\<lambda>now.
               insertCredit (saleEntry t c user sale rule EARN (lq_earned current) saleTotal (''loyalty:earn:'' @ key) (expiryOf rule now)))))))))))"

section \<open>Compensation\<close>

definition prorate :: "int \<Rightarrow> int \<Rightarrow> int \<Rightarrow> int" where
  "prorate points part total' =
     (if total' \<le> 0 \<or> part \<le> 0 then 0 else if total' \<le> part then points else bigint_div (points * part) total')"

datatype compensation = CompensateVoid | CompensateReturn "id option"

definition restoreType :: "compensation \<Rightarrow> loyalty_type" where
  "restoreType mode = (case mode of CompensateVoid \<Rightarrow> VOID_REDEEM_RESTORE | CompensateReturn _ \<Rightarrow> RETURN_REDEEM_RESTORE)"

definition reverseType :: "compensation \<Rightarrow> loyalty_type" where
  "reverseType mode = (case mode of CompensateVoid \<Rightarrow> VOID_EARN_REVERSAL | CompensateReturn _ \<Rightarrow> RETURN_EARN_REVERSAL)"

definition compensationKey :: "compensation \<Rightarrow> string \<Rightarrow> id \<Rightarrow> string" where
  "compensationKey mode what sale =
     ''loyalty:'' @ (case mode of CompensateVoid \<Rightarrow> ''void'' | CompensateReturn _ \<Rightarrow> ''return'') @ '':'' @ what @ '':'' @
     string_of_nat (case mode of CompensateReturn (Some i) \<Rightarrow> i | _ \<Rightarrow> sale)"

definition returnedTotal :: "id \<Rightarrow> id \<Rightarrow> trade_db \<Rightarrow> int" where
  "returnedTotal t sale db = sum_where (\<lambda>r. rt_tenant r = t \<and> rt_sale r = sale) rt_total (sale_returns db)"

definition compensationTarget :: "compensation \<Rightarrow> id \<Rightarrow> sale_row \<Rightarrow> int \<Rightarrow> trade_db \<Rightarrow> int" where
  "compensationTarget mode t s points db =
     (case mode of CompensateVoid \<Rightarrow> points | CompensateReturn _ \<Rightarrow> prorate points (returnedTotal t (sa_id s) db) (sa_total s))"

definition saleEntrySum :: "id \<Rightarrow> id \<Rightarrow> loyalty_type \<Rightarrow> trade_db \<Rightarrow> int" where
  "saleEntrySum t sale kind db =
     sum_where (\<lambda>e. le_tenant e = t \<and> le_sale e = Some sale \<and> le_type e = kind) le_points (loyalty_entries db)"

definition sourceEntries :: "id \<Rightarrow> id \<Rightarrow> trade_db \<Rightarrow> loyalty_entry_row list" where
  "sourceEntries t sale db =
     filter (\<lambda>e. le_tenant e = t \<and> le_sale e = Some sale \<and> le_type e \<in> {EARN, REDEEM}) (loyalty_entries db)"

definition sourceOf :: "loyalty_type \<Rightarrow> loyalty_entry_row list \<Rightarrow> loyalty_entry_row" where
  "sourceOf kind rows = (case List.find (\<lambda>e. le_type e = kind) rows of None \<Rightarrow> hd rows | Some e \<Rightarrow> e)"

definition compensationEntry ::
  "id \<Rightarrow> id \<Rightarrow> id \<Rightarrow> id \<Rightarrow> compensation \<Rightarrow> loyalty_type \<Rightarrow> loyalty_entry_row \<Rightarrow> int \<Rightarrow> string \<Rightarrow> entry_input" where
  "compensationEntry t c user sale mode kind source points what =
     \<lparr>ei_tenant = t, ei_customer = c, ei_rule = le_rule source, ei_sale = Some sale,
      ei_return = (case mode of CompensateVoid \<Rightarrow> None | CompensateReturn i \<Rightarrow> i), ei_type = kind, ei_points = points, ei_value = 0,
      ei_key = compensationKey mode what sale, ei_snapshot = le_snapshot source, ei_expires_at = None, ei_user = user\<rparr>"

definition compensateCustomer :: "id \<Rightarrow> sale_row \<Rightarrow> id \<Rightarrow> compensation \<Rightarrow> id \<Rightarrow> unit tact" where
  "compensateCustomer t s user mode c =
     thenM (requireCustomer t c)
     (thenM (materializeExpirations t c user)
     (bindM (readM (sourceEntries t (sa_id s))) (\<lambda>source.
      if source = [] then returnM ()
      else
        bindM (readM (\<lambda>db.
          (max 0 (compensationTarget mode t s (sa_points_redeemed s) db - saleEntrySum t (sa_id s) (restoreType mode) db),
           max 0 (compensationTarget mode t s (sa_points_earned s) db + saleEntrySum t (sa_id s) (reverseType mode) db)))) (\<lambda>(restore, reverse).
        thenM (whenM (0 < restore)
           (insertCredit (compensationEntry t c user (sa_id s) mode (restoreType mode) (sourceOf REDEEM source) restore ''restore'')))
         (whenM (0 < reverse)
           (insertDebit (compensationEntry t c user (sa_id s) mode (reverseType mode) (sourceOf EARN source) reverse ''reverse'') None))))))"

definition compensateSale :: "id \<Rightarrow> id \<Rightarrow> id \<Rightarrow> compensation \<Rightarrow> unit tact" where
  "compensateSale t sale user mode =
     bindM (readM (\<lambda>db. List.find (\<lambda>s. sa_tenant s = t \<and> sa_id s = sale) (sales db))) (\<lambda>found.
     case found of None \<Rightarrow> returnM ()
     | Some s \<Rightarrow> (case sa_customer s of None \<Rightarrow> returnM ()
         | Some c \<Rightarrow> if sa_points_redeemed s = 0 \<and> sa_points_earned s = 0 then returnM ()
             else compensateCustomer t s user mode c))"

section \<open>Statement\<close>

definition loyaltyStatement :: "id \<Rightarrow> id \<Rightarrow> id \<Rightarrow> loyalty_statement option tact" where
  "loyaltyStatement t c user =
     bindM (readM (lockLoyaltyCustomer t c)) (\<lambda>found.
     case found of None \<Rightarrow> returnM None
     | Some customer \<Rightarrow>
         thenM (materializeExpirations t c user)
         (readM (\<lambda>db. Some
            \<lparr>st_customer = (cu_id customer, cu_name customer), st_rule = currentRule t db, st_balance = loyaltyBalance t c db,
             st_entries = take 200 (rev (sort_key (\<lambda>e. (le_created_at e, le_id e))
               (filter (\<lambda>e. le_tenant e = t \<and> le_customer e = c) (loyalty_entries db))))\<rparr>)))"

end
