(* ===== verification/LoyaltyLaws.thy ===== *)
theory LoyaltyLaws
  imports Loyalty Consumption
begin

text \<open>
  The ledger of points. \<open>loyalty_inv\<close>: entries are identified by their ids and checked, every
  allocation refers to entries that exist, no credit is allocated beyond its points, every debit is
  allocated in full, and the balance of a customer is what is left of the customer's credits.

  The loop of \<open>insertDebit\<close> is the loop of \<open>Consumption\<close>: its body interprets the locale
  \<open>greedy_body_left\<close>, which gives what is drawn, and in which order.
\<close>

section \<open>Sums over rows\<close>

lemma sum_where_minus_key:
  assumes "distinct (map key rows)" "r \<in> set rows" "p r"
  shows "sum_where p (\<lambda>x. f x - (if key x = key r then c else 0)) rows = sum_where p f rows - c"
  using assms
proof (induction rows)
  case (Cons x rows)
  show ?case
  proof (cases "x = r")
    case True
    then have "key y \<noteq> key r" if "y \<in> set rows" for y using Cons.prems(1) that by (auto simp: image_iff)
    then have "sum_where p (\<lambda>x. f x - (if key x = key r then c else 0)) rows = sum_where p f rows"
      by (intro sum_where_cong) auto
    then show ?thesis using True Cons.prems(3) by simp
  next
    case False
    then have "r \<in> set rows" "key x \<noteq> key r" using Cons.prems by (auto simp: image_iff)
    then show ?thesis using Cons by simp
  qed
qed simp

lemma filter_found_key:
  "distinct (map key ls) \<Longrightarrow> l \<in> set ls \<Longrightarrow> p l \<Longrightarrow> filter (\<lambda>x. key x = key l \<and> p x) ls = [l]"
  by (induction ls) (auto simp: filter_empty_conv image_iff)

section \<open>What is left of credits\<close>

definition withAllocation :: "loyalty_allocation_row \<Rightarrow> trade_db \<Rightarrow> trade_db" where
  "withAllocation a db = db\<lparr>ticks := Suc (ticks db), loyalty_allocations := loyalty_allocations db @ [a]\<rparr>"

definition withEntry :: "loyalty_entry_row \<Rightarrow> trade_db \<Rightarrow> trade_db" where
  "withEntry e db = db\<lparr>ticks := Suc (ticks db), loyalty_entries := loyalty_entries db @ [e]\<rparr>"

lemma withAllocation_rows [simp]:
  "loyalty_entries (withAllocation a db) = loyalty_entries db" "loyalty_allocations (withAllocation a db) = loyalty_allocations db @ [a]"
  by (simp_all add: withAllocation_def)

lemma withEntry_rows [simp]:
  "loyalty_entries (withEntry e db) = loyalty_entries db @ [e]" "loyalty_allocations (withEntry e db) = loyalty_allocations db"
  by (simp_all add: withEntry_def)

definition ownedCredit :: "id \<Rightarrow> id \<Rightarrow> loyalty_entry_row \<Rightarrow> bool" where
  "ownedCredit t c e \<longleftrightarrow> le_tenant e = t \<and> le_customer e = c \<and> 0 < le_points e"

definition customerPoints :: "id \<Rightarrow> id \<Rightarrow> trade_db \<Rightarrow> int" where
  "customerPoints t c db = sum_where (ownedCredit t c) (availablePoints db) (loyalty_entries db)"

definition allocatedTo :: "trade_db \<Rightarrow> loyalty_entry_row \<Rightarrow> int" where
  "allocatedTo db e = sum_where (\<lambda>a. la_tenant a = le_tenant e \<and> la_debit a = le_id e) la_points (loyalty_allocations db)"

lemma availablePoints_withAllocation:
  "availablePoints (withAllocation a db) e = availablePoints db e - (if la_tenant a = le_tenant e \<and> la_credit a = le_id e then la_points a else 0)"
  by (simp add: availablePoints_def allocatedFrom_def)

lemma availablePoints_withEntry [simp]: "availablePoints (withEntry x db) e = availablePoints db e"
  by (simp add: availablePoints_def allocatedFrom_def)

lemma allocatedTo_withEntry [simp]: "allocatedTo (withEntry x db) e = allocatedTo db e"
  by (simp add: allocatedTo_def)

lemma customerPoints_withAllocation:
  assumes "distinct (map le_id (loyalty_entries db))" "e \<in> set (loyalty_entries db)" "la_tenant a = le_tenant e" "la_credit a = le_id e" "0 < le_points e"
  shows "customerPoints t c (withAllocation a db) =
    customerPoints t c db - (if t = le_tenant e \<and> c = le_customer e then la_points a else 0)"
proof -
  have key: "la_tenant a = le_tenant x \<and> la_credit a = le_id x \<longleftrightarrow> le_id x = le_id e" if "x \<in> set (loyalty_entries db)" for x
  proof
    assume "le_id x = le_id e"
    then have "x = e" by (rule distinct_map_key_inj [OF assms(1) that assms(2)])
    then show "la_tenant a = le_tenant x \<and> la_credit a = le_id x" using assms(3,4) by simp
  qed (use assms(4) in simp)
  have eq: "sum_where (ownedCredit t c) (availablePoints (withAllocation a db)) (loyalty_entries db)
      = sum_where (ownedCredit t c) (\<lambda>x. availablePoints db x - (if le_id x = le_id e then la_points a else 0)) (loyalty_entries db)"
    by (rule sum_where_cong) (auto simp: availablePoints_withAllocation key)
  show ?thesis
  proof (cases "t = le_tenant e \<and> c = le_customer e")
    case True
    then show ?thesis
      using sum_where_minus_key [OF assms(1,2), of "ownedCredit t c"] assms(5) eq by (simp add: customerPoints_def ownedCredit_def)
  next
    case False
    have "le_id x \<noteq> le_id e" if "x \<in> set (loyalty_entries db)" "ownedCredit t c x" for x
    proof
      assume "le_id x = le_id e"
      then have "x = e" by (rule distinct_map_key_inj [OF assms(1) that(1) assms(2)])
      then show False using that(2) False by (simp add: ownedCredit_def)
    qed
    then have "sum_where (ownedCredit t c) (\<lambda>x. availablePoints db x - (if le_id x = le_id e then la_points a else 0)) (loyalty_entries db)
        = sum_where (ownedCredit t c) (availablePoints db) (loyalty_entries db)"
      by (intro sum_where_cong) auto
    then show ?thesis using eq False by (auto simp: customerPoints_def)
  qed
qed

section \<open>The loop\<close>

definition allocatePoint :: "id \<Rightarrow> id \<Rightarrow> loyalty_entry_row \<times> int \<Rightarrow> int \<Rightarrow> int tact" where
  "allocatePoint t debit r c =
     bindM newTradeRow (\<lambda>i.
     thenM (insertPointAllocation \<lparr>la_id = fst i, la_tenant = t, la_debit = debit, la_credit = le_id (fst r), la_points = c\<rparr>)
       (returnM 0))"

lemma allocatePoint_Inr:
  "allocatePoint t debit r c db = Inr (v, db') \<Longrightarrow>
     v = 0 \<and> 0 < c \<and> (\<exists>i. db' = withAllocation \<lparr>la_id = i, la_tenant = t, la_debit = debit, la_credit = le_id (fst r), la_points = c\<rparr> db)"
  by (auto simp: allocatePoint_def insertPointAllocation_def runM withAllocation_def)

lemma allocatePoint_step:
  "allocatePoint t debit (e, a) c db = Inr (v, db') \<longleftrightarrow> v = 0 \<and>
     insertPointAllocation \<lparr>la_id = env_uuid db (ticks db), la_tenant = t, la_debit = debit, la_credit = le_id e, la_points = c\<rparr>
       (db\<lparr>ticks := Suc (ticks db)\<rparr>) = Inr ((), db')"
  by (auto simp: allocatePoint_def bindM_Inr thenM_Inr returnM_def)

lemma allocatePoints_loop:
  assumes "\<forall>r\<in>set rs. 0 \<le> snd r" "0 \<le> remaining"
  shows "allocatePoints t debit remaining rs db = Inr ((), db') \<longleftrightarrow>
    (\<exists>rem' v. consume_loop snd (allocatePoint t debit) rs remaining tot db = Inr ((rem', v), db'))"
  using assms
proof (induction rs arbitrary: remaining db tot)
  case (Cons r rs)
  obtain e a where r: "r = (e, a)" by (cases r)
  show ?case
  proof (cases "remaining = 0")
    case False
    let ?c = "if a < remaining then a else remaining"
    have m: "min remaining a = ?c" by simp
    show ?thesis
    proof (cases "?c = 0")
      case True
      then show ?thesis using Cons False by (simp add: r m)
    next
      case pos: False
      then have "\<not> ?c \<le> 0" using Cons.prems False r by auto
      moreover have IH: "allocatePoints t debit (remaining - ?c) rs db1 = Inr ((), db') \<longleftrightarrow>
          (\<exists>rem' v. consume_loop snd (allocatePoint t debit) rs (remaining - ?c) (tot + 0) db1 = Inr ((rem', v), db'))" for db1
        using Cons.prems by (intro Cons.IH) auto
      ultimately show ?thesis
        using False pos by (auto simp: r m Let_def bindM_Inr thenM_Inr allocatePoint_step split del: if_split)
    qed
  qed (simp add: r returnM_def)
qed (simp add: returnM_def)

definition liveCredit :: "id \<Rightarrow> id \<Rightarrow> loyalty_entry_row \<times> int \<Rightarrow> trade_db \<Rightarrow> bool" where
  "liveCredit t c r db \<longleftrightarrow> fst r \<in> set (loyalty_entries db) \<and> distinct (map le_id (loyalty_entries db)) \<and> ownedCredit t c (fst r) \<and>
     availablePoints db (fst r) = snd r"

definition leftOf :: "id \<Rightarrow> trade_db \<Rightarrow> int" where
  "leftOf i db = (case List.find (\<lambda>e. le_id e = i) (loyalty_entries db) of None \<Rightarrow> 0 | Some e \<Rightarrow> availablePoints db e)"

lemma leftOf_live: "liveCredit t c r db \<Longrightarrow> leftOf (le_id (fst r)) db = snd r"
proof -
  assume l: "liveCredit t c r db"
  then have "List.find (\<lambda>e. le_id e = le_id (fst r)) (loyalty_entries db) = Some (fst r)"
    by (intro find_unique_key [where key = le_id]) (auto simp: liveCredit_def)
  then show ?thesis using l by (simp add: leftOf_def liveCredit_def)
qed

interpretation points: greedy_body_left snd "allocatePoint t debit" "\<lambda>r. le_id (fst r)" "liveCredit t c" "customerPoints t c" "\<lambda>_ _. 0" leftOf
  for t debit c
proof
  fix r q :: "loyalty_entry_row \<times> int" and n v :: int and k :: id and s s' :: trade_db
  assume run: "allocatePoint t debit r n s = Inr (v, s')"
  show "v = 0" using allocatePoint_Inr [OF run] by simp
next
  fix r q :: "loyalty_entry_row \<times> int" and n v :: int and k :: id and s s' :: trade_db
  assume live: "liveCredit t c r s"
  then show "leftOf (le_id (fst r)) s = snd r" by (rule leftOf_live)
  assume run: "allocatePoint t debit r n s = Inr (v, s')"
  obtain i where s': "s' = withAllocation \<lparr>la_id = i, la_tenant = t, la_debit = debit, la_credit = le_id (fst r), la_points = n\<rparr> s"
    using allocatePoint_Inr [OF run] by blast
  show "customerPoints t c s' = customerPoints t c s - n"
    using live unfolding s' by (subst customerPoints_withAllocation [of s "fst r"]) (auto simp: liveCredit_def ownedCredit_def)
  show "leftOf (le_id (fst r)) s' = snd r - n"
  proof -
    have "liveCredit t c (fst r, snd r - n) s'"
      using live by (auto simp: s' liveCredit_def ownedCredit_def availablePoints_withAllocation)
    from leftOf_live [OF this] show ?thesis by simp
  qed
  show "leftOf k s' = leftOf k s" if "k \<noteq> le_id (fst r)"
    using that by (auto simp: s' leftOf_def availablePoints_withAllocation split: option.splits dest!: find_Some_props)
  show "liveCredit t c q s'" if "liveCredit t c q s" "le_id (fst q) \<noteq> le_id (fst r)"
    using that by (auto simp: s' liveCredit_def availablePoints_withAllocation)
qed

section \<open>The invariant\<close>

definition loyalty_inv :: "trade_db \<Rightarrow> bool" where
  "loyalty_inv db \<longleftrightarrow>
     distinct (map le_id (loyalty_entries db)) \<and> (\<forall>e\<in>set (loyalty_entries db). entry_check e) \<and>
     (\<forall>a\<in>set (loyalty_allocations db). 0 < la_points a \<and>
        la_credit a \<in> le_id ` set (loyalty_entries db) \<and> la_debit a \<in> le_id ` set (loyalty_entries db)) \<and>
     (\<forall>e\<in>set (loyalty_entries db). 0 < le_points e \<longrightarrow> 0 \<le> availablePoints db e) \<and>
     (\<forall>e\<in>set (loyalty_entries db). le_points e < 0 \<longrightarrow> allocatedTo db e = - le_points e) \<and>
     (\<forall>t c. loyaltyBalance t c db = customerPoints t c db)"

lemma loyalty_invD:
  assumes "loyalty_inv db"
  shows "distinct (map le_id (loyalty_entries db))" "e \<in> set (loyalty_entries db) \<Longrightarrow> entry_check e"
    "a \<in> set (loyalty_allocations db) \<Longrightarrow> 0 < la_points a \<and> la_credit a \<in> le_id ` set (loyalty_entries db) \<and> la_debit a \<in> le_id ` set (loyalty_entries db)"
    "e \<in> set (loyalty_entries db) \<Longrightarrow> 0 < le_points e \<Longrightarrow> 0 \<le> availablePoints db e"
    "e \<in> set (loyalty_entries db) \<Longrightarrow> le_points e < 0 \<Longrightarrow> allocatedTo db e = - le_points e"
    "loyaltyBalance t c db = customerPoints t c db"
  using assms by (simp_all add: loyalty_inv_def)

lemma loyalty_inv_cong:
  assumes "loyalty_entries db' = loyalty_entries db" "loyalty_allocations db' = loyalty_allocations db"
  shows "loyalty_inv db' = loyalty_inv db"
proof -
  have "availablePoints db' = availablePoints db" "allocatedTo db' = allocatedTo db"
    by (rule ext, simp add: availablePoints_def allocatedFrom_def allocatedTo_def assms)+
  then show ?thesis unfolding loyalty_inv_def loyaltyBalance_def customerPoints_def assms by (simp only:)
qed

text \<open>A new entry: nothing is allocated from it or to it, and the balance changes by its points.\<close>

lemma new_entry:
  assumes inv: "loyalty_inv db" and e: "le_id e \<notin> le_id ` set (loyalty_entries db)"
  shows "availablePoints db e = le_points e" "allocatedTo db e = 0"
    "loyaltyBalance t c (withEntry e db) = loyaltyBalance t c db + (if le_tenant e = t \<and> le_customer e = c then le_points e else 0)"
    "customerPoints t c (withEntry e db) = customerPoints t c db + (if ownedCredit t c e then le_points e else 0)"
proof -
  have ids: "la_credit a \<noteq> le_id e \<and> la_debit a \<noteq> le_id e" if "a \<in> set (loyalty_allocations db)" for a
    using loyalty_invD(3) [OF inv that] e by metis
  then have none: "allocatedFrom db e = 0" unfolding allocatedFrom_def
    by (intro sum_where_none) blast
  then show a: "availablePoints db e = le_points e" by (simp add: availablePoints_def)
  show "allocatedTo db e = 0" unfolding allocatedTo_def
    by (rule sum_where_none) (use ids in blast)
  show "loyaltyBalance t c (withEntry e db) = loyaltyBalance t c db + (if le_tenant e = t \<and> le_customer e = c then le_points e else 0)"
    by (simp add: loyaltyBalance_def)
  have "sum_where (ownedCredit t c) (availablePoints (withEntry e db)) (loyalty_entries db) = sum_where (ownedCredit t c) (availablePoints db) (loyalty_entries db)"
    by (rule sum_where_cong) simp_all
  then show "customerPoints t c (withEntry e db) = customerPoints t c db + (if ownedCredit t c e then le_points e else 0)"
    by (simp add: customerPoints_def a)
qed

lemma withEntry_credit_inv:
  assumes inv: "loyalty_inv db" and e: "le_id e \<notin> le_id ` set (loyalty_entries db)" "entry_check e" "0 < le_points e"
  shows "loyalty_inv (withEntry e db)"
proof -
  note N = new_entry [OF inv e(1)]
  note I = loyalty_invD [OF inv]
  have "loyaltyBalance t c (withEntry e db) = customerPoints t c (withEntry e db)" for t c
    unfolding N(3,4) I(6) using e(3) by (simp add: ownedCredit_def)
  moreover have "distinct (map le_id (loyalty_entries (withEntry e db)))" using I(1) e(1) by simp
  moreover have "entry_check x" "0 < le_points x \<Longrightarrow> 0 \<le> availablePoints (withEntry e db) x"
    "le_points x < 0 \<Longrightarrow> allocatedTo (withEntry e db) x = - le_points x" if "x \<in> set (loyalty_entries (withEntry e db))" for x
    using that I(2,4,5) e(2,3) N(1) by auto
  moreover have "0 < la_points a \<and> la_credit a \<in> le_id ` set (loyalty_entries (withEntry e db)) \<and> la_debit a \<in> le_id ` set (loyalty_entries (withEntry e db))"
    if "a \<in> set (loyalty_allocations (withEntry e db))" for a
    using that I(3) by simp
  ultimately show ?thesis unfolding loyalty_inv_def by blast
qed

lemma insertEntry_Inr:
  "insertEntry e db = Inr ((), db') \<longleftrightarrow>
     (\<forall>x\<in>set (loyalty_entries db). le_id x \<noteq> le_id e \<and> \<not> (le_tenant x = le_tenant e \<and> le_key x = le_key e)) \<and> entry_check e \<and>
     db' = db\<lparr>loyalty_entries := loyalty_entries db @ [e]\<rparr>"
  by (auto simp: insertEntry_def runM)

lemma insertCredit_Inr:
  assumes "insertCredit x db = Inr ((), db')"
  obtains (nothing) "ei_points x \<le> 0" "db' = db"
  | (stored) e where "0 < ei_points x" "e = entryOf x (ei_points x) (env_uuid db (ticks db), env_clock db (ticks db))" "entry_check e"
      "\<forall>y\<in>set (loyalty_entries db). le_id y \<noteq> le_id e \<and> \<not> (le_tenant y = le_tenant e \<and> le_key y = le_key e)" "db' = withEntry e db"
proof (cases "ei_points x \<le> 0")
  case True
  then have "db' = db" using assms by (simp add: insertCredit_def returnM_def)
  with True show thesis by (rule nothing)
next
  case False
  then show thesis using assms by (intro stored) (auto simp: insertCredit_def bindM_Inr insertEntry_Inr withEntry_def)
qed

lemma insertCredit_inv:
  assumes "insertCredit x db = Inr ((), db')" "loyalty_inv db"
  shows "loyalty_inv db'"
  using assms(1)
proof (cases rule: insertCredit_Inr)
  case (stored e)
  have "le_id e \<notin> le_id ` set (loyalty_entries db)" using stored(4) by force
  moreover have "0 < le_points e" using stored(1,2) by (simp add: entryOf_def)
  ultimately show ?thesis unfolding stored(5) by (rule withEntry_credit_inv [OF assms(2) _ stored(3)])
qed (use assms(2) in simp)

section \<open>Debits\<close>

lemma insertDebit_Inr:
  assumes "insertDebit x creditId db = Inr ((), db')"
  obtains (nothing) "ei_points x \<le> 0" "db' = db"
  | (drawn) d credits where "0 < ei_points x"
      "credits = (case creditId of Some i \<Rightarrow> creditById (ei_tenant x) i db
         | None \<Rightarrow> availableCredits (ei_tenant x) (ei_customer x) (env_clock db (ticks db)) db)"
      "ei_points x \<le> availableTotal credits"
      "d = entryOf x (- ei_points x) (env_uuid db (ticks db), env_clock db (ticks db))" "entry_check d"
      "\<forall>y\<in>set (loyalty_entries db). le_id y \<noteq> le_id d \<and> \<not> (le_tenant y = le_tenant d \<and> le_key y = le_key d)"
      "allocatePoints (ei_tenant x) (le_id d) (ei_points x) credits (withEntry d db) = Inr ((), db')"
proof (cases "ei_points x \<le> 0")
  case True
  then have "db' = db" using assms by (simp add: insertDebit_def returnM_def)
  with True show thesis by (rule nothing)
next
  case False
  have id: "le_id (entryOf x p i) = fst i" for p i by (simp add: entryOf_def)
  show thesis
    using assms False
    by (intro drawn [OF _ refl _ refl]) (auto simp: insertDebit_def runM Let_def insertEntry_Inr withEntry_def id not_less currentTime_def)
qed

text \<open>What the loop keeps: the entries, the other customers, the other debits and the references.\<close>

definition drawing :: "loyalty_entry_row list \<Rightarrow> id \<Rightarrow> id \<Rightarrow> id \<Rightarrow> trade_db \<Rightarrow> trade_db \<Rightarrow> bool" where
  "drawing rows t c debit db s \<longleftrightarrow> loyalty_entries s = rows \<and>
     (\<forall>t' c'. \<not> (t' = t \<and> c' = c) \<longrightarrow> customerPoints t' c' s = customerPoints t' c' db) \<and>
     (\<forall>a\<in>set (loyalty_allocations s). 0 < la_points a \<and> la_credit a \<in> le_id ` set rows \<and> la_debit a \<in> le_id ` set rows) \<and>
     (\<forall>e\<in>set rows. 0 < le_points e \<longrightarrow> 0 \<le> availablePoints s e) \<and>
     (\<forall>e\<in>set rows. le_id e \<noteq> debit \<longrightarrow> allocatedTo s e = allocatedTo db e)"

lemma drawing_step:
  assumes "drawing rows t c debit db s" "liveCredit t c r s" "0 < n" "n \<le> snd r" "allocatePoint t debit r n s = Inr (v, s')"
    "debit \<in> le_id ` set rows"
  shows "drawing rows t c debit db s'"
proof -
  obtain i where s': "s' = withAllocation \<lparr>la_id = i, la_tenant = t, la_debit = debit, la_credit = le_id (fst r), la_points = n\<rparr> s" (is "_ = withAllocation ?a s")
    using allocatePoint_Inr [OF assms(5)] by blast
  have D: "loyalty_entries s = rows" "\<And>t' c'. \<not> (t' = t \<and> c' = c) \<Longrightarrow> customerPoints t' c' s = customerPoints t' c' db"
    "\<And>a. a \<in> set (loyalty_allocations s) \<Longrightarrow> 0 < la_points a \<and> la_credit a \<in> le_id ` set rows \<and> la_debit a \<in> le_id ` set rows"
    "\<And>e. e \<in> set rows \<Longrightarrow> 0 < le_points e \<Longrightarrow> 0 \<le> availablePoints s e"
    "\<And>e. e \<in> set rows \<Longrightarrow> le_id e \<noteq> debit \<Longrightarrow> allocatedTo s e = allocatedTo db e"
    using assms(1) by (simp_all add: drawing_def)
  have L: "fst r \<in> set rows" "distinct (map le_id rows)" "le_tenant (fst r) = t" "le_customer (fst r) = c" "0 < le_points (fst r)"
    "availablePoints s (fst r) = snd r"
    using assms(2) D(1) by (simp_all add: liveCredit_def ownedCredit_def)
  have "customerPoints t' c' s' = customerPoints t' c' db" if "\<not> (t' = t \<and> c' = c)" for t' c'
    unfolding s' using that L D(1) D(2) [OF that] by (subst customerPoints_withAllocation [of s "fst r"]) auto
  moreover have "0 \<le> availablePoints s' e" if "e \<in> set rows" "0 < le_points e" for e
  proof (cases "le_id e = le_id (fst r)")
    case True
    then have "e = fst r" by (rule distinct_map_key_inj [OF L(2) that(1) L(1)])
    then show ?thesis unfolding s' availablePoints_withAllocation using L assms(4) by simp
  next
    case False
    then show ?thesis unfolding s' availablePoints_withAllocation using D(4) [OF that] by simp
  qed
  moreover have "0 < la_points a \<and> la_credit a \<in> le_id ` set rows \<and> la_debit a \<in> le_id ` set rows"
    if "a \<in> set (loyalty_allocations s')" for a
    using that D(3) L(1) assms(3,6) by (auto simp: s')
  moreover have "allocatedTo s' e = allocatedTo db e" if "e \<in> set rows" "le_id e \<noteq> debit" for e
    using D(5) [OF that] that(2) by (simp add: s' allocatedTo_def)
  moreover have "loyalty_entries s' = rows" using D(1) by (simp add: s')
  ultimately show ?thesis unfolding drawing_def by blast
qed

text \<open>The credits that a debit looks at are credits of the customer, with what is left of them.\<close>

lemma credits_live:
  assumes inv: "loyalty_inv db"
    and credits: "credits = (case creditId of Some i \<Rightarrow> creditById t i db | None \<Rightarrow> availableCredits t c now db)"
    and owned: "\<And>i. creditId = Some i \<Longrightarrow> \<exists>e\<in>set (loyalty_entries db). le_id e = i \<and> ownedCredit t c e"
  shows "\<forall>r\<in>set credits. liveCredit t c r db \<and> 0 \<le> snd r" "distinct (map (\<lambda>r. le_id (fst r)) credits)"
proof -
  note I = loyalty_invD [OF inv]
  have live: "liveCredit t c (e, availablePoints db e) db" if "e \<in> set (loyalty_entries db)" "ownedCredit t c e" for e
    using that I(1) by (simp add: liveCredit_def)
  have keys: "distinct (map (\<lambda>r. le_id (fst r)) (filter P (map (\<lambda>e. (e, availablePoints db e)) (sort_key f (filter Q (loyalty_entries db))))))"
    for P Q and f :: "loyalty_entry_row \<Rightarrow> bool \<times> nat option \<times> nat \<times> id"
  proof (rule distinct_map_filter)
    have "distinct (map le_id (sort_key f (filter Q (loyalty_entries db))))"
      using distinct_map_filter [OF I(1), of Q] by (simp only: distinct_map distinct_sort set_sort)
    then show "distinct (map (\<lambda>r. le_id (fst r)) (map (\<lambda>e. (e, availablePoints db e)) (sort_key f (filter Q (loyalty_entries db)))))"
      by (simp add: o_def)
  qed
  have "(\<forall>r\<in>set credits. liveCredit t c r db \<and> 0 \<le> snd r) \<and> distinct (map (\<lambda>r. le_id (fst r)) credits)"
  proof (cases creditId)
    case None
    then have "credits = availableCredits t c now db" by (simp add: credits)
    moreover have "liveCredit t c r db \<and> 0 \<le> snd r" if "r \<in> set (availableCredits t c now db)" for r
      using that live by (auto simp: availableCredits_def ownedCredit_def)
    ultimately show ?thesis using keys by (simp add: availableCredits_def del: distinct_map_filter)
  next
    case (Some i)
    then have c: "credits = map (\<lambda>e. (e, availablePoints db e)) (filter (\<lambda>e. le_id e = i \<and> le_tenant e = t) (loyalty_entries db))"
      by (simp add: credits creditById_def)
    obtain e where e: "e \<in> set (loyalty_entries db)" "le_id e = i" "ownedCredit t c e" using owned [OF Some] by blast
    have "x = e" if "x \<in> set (loyalty_entries db)" "le_id x = i" for x
      using distinct_map_key_inj [OF I(1) that(1) e(1)] that(2) e(2) by simp
    then have only: "r = (e, availablePoints db e)" if "r \<in> set credits" for r
      using that unfolding c set_map set_filter by blast
    have "0 \<le> availablePoints db e" using I(4) [OF e(1)] e(3) by (simp add: ownedCredit_def)
    then have "liveCredit t c r db \<and> 0 \<le> snd r" if "r \<in> set credits" for r
      unfolding only [OF that] using live [OF e(1,3)] by simp
    moreover have "distinct (map (\<lambda>r. le_id (fst r)) credits)"
      using distinct_map_filter [OF I(1)] by (simp add: c o_def)
    ultimately show ?thesis by blast
  qed
  then show "\<forall>r\<in>set credits. liveCredit t c r db \<and> 0 \<le> snd r" "distinct (map (\<lambda>r. le_id (fst r)) credits)" by blast+
qed

lemma liveCredit_withEntry:
  "liveCredit t c r db \<Longrightarrow> le_id d \<notin> le_id ` set (loyalty_entries db) \<Longrightarrow> liveCredit t c r (withEntry d db)"
  by (simp add: liveCredit_def)

lemma insertDebit_inv:
  assumes run: "insertDebit x creditId db = Inr ((), db')" and inv: "loyalty_inv db"
    and owned: "\<And>i. creditId = Some i \<Longrightarrow> \<exists>e\<in>set (loyalty_entries db). le_id e = i \<and> ownedCredit (ei_tenant x) (ei_customer x) e"
  shows "loyalty_inv db' \<and>
    (\<forall>t c. loyaltyBalance t c db' = loyaltyBalance t c db - (if 0 < ei_points x \<and> t = ei_tenant x \<and> c = ei_customer x then ei_points x else 0))"
  using run
proof (cases rule: insertDebit_Inr)
  case nothing
  then show ?thesis using inv by simp
next
  case (drawn d credits)
  let ?t = "ei_tenant x" and ?c = "ei_customer x" and ?p = "ei_points x" and ?db1 = "withEntry d db"
  note I = loyalty_invD [OF inv]
  have live: "\<forall>r\<in>set credits. liveCredit ?t ?c r db \<and> 0 \<le> snd r" "distinct (map (\<lambda>r. le_id (fst r)) credits)"
    using credits_live [OF inv drawn(2)] owned by blast+
  have d: "le_tenant d = ?t" "le_customer d = ?c" "le_points d = - ?p" using drawn(4) by (simp_all add: entryOf_def)
  have id: "le_id d \<notin> le_id ` set (loyalty_entries db)" using drawn(6) by force
  note N = new_entry [OF inv id]
  have live1: "\<forall>r\<in>set credits. liveCredit ?t ?c r ?db1 \<and> 0 \<le> snd r"
    using live(1) liveCredit_withEntry [OF _ id] by blast
  obtain rem v where loop: "consume_loop snd (allocatePoint ?t (le_id d)) credits ?p 0 ?db1 = Inr ((rem, v), db')"
    using drawn(7) allocatePoints_loop [of credits ?p ?t "le_id d" ?db1 db' 0] live(1) drawn(1) by auto
  have p: "0 \<le> ?p" using drawn(1) by simp
  have total': "?p \<le> sum_list (map snd credits)"
  proof -
    have "map (\<lambda>x. max 0 (snd x)) credits = map snd credits" using live(1) by (intro map_cong) auto
    then show ?thesis using drawn(3) unfolding availableTotal_def by (simp only:)
  qed
  have rem: "rem = 0" using points.loop_remaining [OF loop live(2) live1 p] total' by simp
  have own: "customerPoints ?t ?c db' = customerPoints ?t ?c ?db1 - ?p"
    using points.loop_result(3) [OF loop live(2) live1 p] sum_plan [of "map snd credits" ?p] live(1) p total' by auto
  let ?drawing = "drawing (loyalty_entries ?db1) ?t ?c (le_id d) ?db1"
  have step: "?drawing s'"
    if "?drawing s" "liveCredit ?t ?c r s" "0 < n" "n \<le> snd r" "allocatePoint ?t (le_id d) r n s = Inr (v, s')" for r n s v s'
    using drawing_step [OF that] by simp
  have init: "?drawing ?db1" using I(3,4) d(3) drawn(1) by (auto simp: drawing_def)
  have "?drawing db'" by (rule points.loop_invariant [where I = ?drawing, OF _ loop live(2) live1 p init]) (rule step)
  then have D: "loyalty_entries db' = loyalty_entries db @ [d]"
    "\<And>t' c'. \<not> (t' = ?t \<and> c' = ?c) \<Longrightarrow> customerPoints t' c' db' = customerPoints t' c' ?db1"
    "\<And>a. a \<in> set (loyalty_allocations db') \<Longrightarrow> 0 < la_points a \<and>
       la_credit a \<in> le_id ` set (loyalty_entries db @ [d]) \<and> la_debit a \<in> le_id ` set (loyalty_entries db @ [d])"
    "\<And>e. e \<in> set (loyalty_entries db @ [d]) \<Longrightarrow> 0 < le_points e \<Longrightarrow> 0 \<le> availablePoints db' e"
    "\<And>e. e \<in> set (loyalty_entries db @ [d]) \<Longrightarrow> le_id e \<noteq> le_id d \<Longrightarrow> allocatedTo db' e = allocatedTo ?db1 e"
    unfolding drawing_def withEntry_rows by blast+
  have "- allocatedTo db' d = - allocatedTo ?db1 d - (?p - rem)"
  proof (rule consume_loop_drawn [OF _ loop])
    fix r n s v s'
    assume "allocatePoint ?t (le_id d) r n s = Inr (v, s')"
    then show "- allocatedTo s' d = - allocatedTo s d - n"
      using allocatePoint_Inr [of ?t "le_id d" r n s v s'] d(1) by (auto simp: allocatedTo_def)
  qed
  then have paid: "allocatedTo db' d = ?p" using N(2) rem by simp
  have balance: "loyaltyBalance t c db' = loyaltyBalance t c db - (if t = ?t \<and> c = ?c then ?p else 0)" for t c
  proof -
    have "loyaltyBalance t c db' = loyaltyBalance t c ?db1" by (simp add: loyaltyBalance_def D(1))
    then show ?thesis unfolding N(3) d by auto
  qed
  have "loyaltyBalance t c db' = customerPoints t c db'" for t c
  proof (cases "t = ?t \<and> c = ?c")
    case True
    then show ?thesis using own balance N(4) [of ?t ?c] I(6) d(3) drawn(1) by (simp add: ownedCredit_def)
  next
    case False
    then show ?thesis using balance [of t c] D(2) [OF False] N(4) [of t c] I(6) d by (auto simp: ownedCredit_def)
  qed
  moreover have "allocatedTo db' e = - le_points e" if "e \<in> set (loyalty_entries db')" "le_points e < 0" for e
  proof (cases "e = d")
    case True
    then show ?thesis using paid d by simp
  next
    case False
    then have e: "e \<in> set (loyalty_entries db)" using that(1) D(1) by simp
    then have "le_id e \<noteq> le_id d" using id by (metis image_eqI)
    then show ?thesis using D(5) [of e] I(5) [OF e that(2)] e by simp
  qed
  moreover have "distinct (map le_id (loyalty_entries db'))" unfolding D(1) using I(1) id by simp
  moreover have "entry_check e" if "e \<in> set (loyalty_entries db')" for e
    using that I(2) drawn(5) by (auto simp: D(1))
  ultimately have "loyalty_inv db'"
    unfolding loyalty_inv_def using D(3,4) D(1) by simp
  then show ?thesis using balance drawn(1) by simp
qed

section \<open>Expirations\<close>

text \<open>The debit of one credit leaves the other credits alone.\<close>

lemma leftOf_row: "distinct (map le_id (loyalty_entries db)) \<Longrightarrow> e \<in> set (loyalty_entries db) \<Longrightarrow> leftOf (le_id e) db = availablePoints db e"
proof -
  assume "distinct (map le_id (loyalty_entries db))" "e \<in> set (loyalty_entries db)"
  then have "List.find (\<lambda>x. le_id x = le_id e) (loyalty_entries db) = Some e"
    by (intro find_unique_key [where key = le_id]) auto
  then show ?thesis by (simp add: leftOf_def)
qed

lemma insertDebit_left:
  assumes run: "insertDebit x creditId db = Inr ((), db')" and inv: "loyalty_inv db"
    and owned: "\<And>i. creditId = Some i \<Longrightarrow> \<exists>e\<in>set (loyalty_entries db). le_id e = i \<and> ownedCredit (ei_tenant x) (ei_customer x) e"
    and credits: "credits = (case creditId of Some i \<Rightarrow> creditById (ei_tenant x) i db
         | None \<Rightarrow> availableCredits (ei_tenant x) (ei_customer x) (env_clock db (ticks db)) db)" and pos: "0 < ei_points x"
  shows "\<exists>d. loyalty_entries db' = loyalty_entries db @ [d] \<and> le_points d < 0"
    "i < length credits \<Longrightarrow> availablePoints db' (fst (credits ! i)) = snd (credits ! i) - plan (map snd credits) (ei_points x) ! i"
    "e \<in> set (loyalty_entries db) \<Longrightarrow> e \<notin> fst ` set credits \<Longrightarrow> availablePoints db' e = availablePoints db e"
    "i < j \<Longrightarrow> j < length credits \<Longrightarrow> availablePoints db' (fst (credits ! j)) < snd (credits ! j) \<Longrightarrow> availablePoints db' (fst (credits ! i)) = 0"
proof -
  let ?t = "ei_tenant x" and ?c = "ei_customer x"
  obtain d where d: "d = entryOf x (- ei_points x) (env_uuid db (ticks db), env_clock db (ticks db))"
      "\<forall>y\<in>set (loyalty_entries db). le_id y \<noteq> le_id d \<and> \<not> (le_tenant y = le_tenant d \<and> le_key y = le_key d)"
      "allocatePoints ?t (le_id d) (ei_points x) credits (withEntry d db) = Inr ((), db')"
    using run pos by (cases rule: insertDebit_Inr) (auto simp: credits)
  let ?db1 = "withEntry d db"
  have id: "le_id d \<notin> le_id ` set (loyalty_entries db)" using d(2) by force
  have live: "\<forall>r\<in>set credits. liveCredit ?t ?c r db \<and> 0 \<le> snd r" "distinct (map (\<lambda>r. le_id (fst r)) credits)"
    using credits_live [OF inv credits] owned by blast+
  have live1: "\<forall>r\<in>set credits. liveCredit ?t ?c r ?db1 \<and> 0 \<le> snd r"
    using live(1) liveCredit_withEntry [OF _ id] by blast
  have p: "0 \<le> ei_points x" using pos by simp
  obtain rem v where loop: "consume_loop snd (allocatePoint ?t (le_id d)) credits (ei_points x) 0 ?db1 = Inr ((rem, v), db')"
    using d(3) allocatePoints_loop [of credits "ei_points x" ?t "le_id d" ?db1 db' 0] live(1) p by auto
  have kept: "loyalty_entries db' = loyalty_entries ?db1"
  proof (rule keepsD [where m = "consume_loop snd (allocatePoint ?t (le_id d)) credits (ei_points x) 0" and s = ?db1, OF _ loop])
    show "keeps loyalty_entries (consume_loop snd (allocatePoint ?t (le_id d)) credits (ei_points x) 0)"
      by (rule keeps_consume_loop, rule keepsI) (auto dest!: allocatePoint_Inr)
  qed
  then show "\<exists>d. loyalty_entries db' = loyalty_entries db @ [d] \<and> le_points d < 0"
    using d(1) pos by (auto simp: entryOf_def)
  have dist: "distinct (map le_id (loyalty_entries db'))"
    using loyalty_invD(1) [OF inv] id by (simp add: kept)
  have left: "leftOf (le_id e) db' = availablePoints db' e" "leftOf (le_id e) ?db1 = availablePoints db e" if "e \<in> set (loyalty_entries db)" for e
    using leftOf_row [OF dist, of e] leftOf_row [of ?db1 e] that dist kept by simp_all
  have member: "fst (credits ! i) \<in> set (loyalty_entries db)" if "i < length credits" for i
    using live(1) that by (simp add: liveCredit_def)
  show "availablePoints db' (fst (credits ! i)) = snd (credits ! i) - plan (map snd credits) (ei_points x) ! i" if "i < length credits"
    using points.loop_left [OF loop live(2) live1 p that] left(1) [OF member [OF that]] by simp
  show "availablePoints db' e = availablePoints db e" if e: "e \<in> set (loyalty_entries db)" "e \<notin> fst ` set credits"
  proof -
    have "le_id e \<notin> (\<lambda>r. le_id (fst r)) ` set credits"
    proof
      assume "le_id e \<in> (\<lambda>r. le_id (fst r)) ` set credits"
      then obtain r where r: "r \<in> set credits" "le_id e = le_id (fst r)" by auto
      have "fst r \<in> set (loyalty_entries db)" using live(1) r(1) by (simp add: liveCredit_def)
      then have "e = fst r" by (rule distinct_map_key_inj [OF loyalty_invD(1) [OF inv] e(1) _ r(2)])
      then show False using e(2) r(1) by blast
    qed
    from points.loop_left_other [OF loop live(2) live1 p this] show ?thesis unfolding left [OF e(1)] .
  qed
  show "availablePoints db' (fst (credits ! i)) = 0"
    if "i < j" "j < length credits" "availablePoints db' (fst (credits ! j)) < snd (credits ! j)"
    using points.loop_order [OF loop live(2) live1 p that(1,2)] that left(1) [OF member] by simp
qed

text \<open>Entries that are appended to a ledger, all of them debits.\<close>

definition debitsOnly :: "trade_db \<Rightarrow> trade_db \<Rightarrow> bool" where
  "debitsOnly db db' \<longleftrightarrow> (\<exists>ds. loyalty_entries db' = loyalty_entries db @ ds \<and> (\<forall>d\<in>set ds. le_points d < 0))"

lemma debitsOnly_refl: "debitsOnly db db"
  by (simp add: debitsOnly_def)

lemma debitsOnly_trans: "debitsOnly a b \<Longrightarrow> debitsOnly b c \<Longrightarrow> debitsOnly a c"
  by (auto simp: debitsOnly_def)

lemma debitsOnly_mem: "debitsOnly a b \<Longrightarrow> e \<in> set (loyalty_entries a) \<Longrightarrow> e \<in> set (loyalty_entries b)"
  by (auto simp: debitsOnly_def)

lemma expireCredit_step:
  assumes run: "expireCredit t c user (e, a) db = Inr ((), db')" and inv: "loyalty_inv db"
    and e: "e \<in> set (loyalty_entries db)" "ownedCredit t c e" "a = availablePoints db e"
  shows "loyalty_inv db' \<and> debitsOnly db db' \<and> availablePoints db' e = 0 \<and>
    (\<forall>y\<in>set (loyalty_entries db). y \<noteq> e \<longrightarrow> availablePoints db' y = availablePoints db y)"
proof (cases "a \<le> 0")
  case True
  have "0 \<le> availablePoints db e" using loyalty_invD(4) [OF inv e(1)] e(2) by (simp add: ownedCredit_def)
  then show ?thesis using True run inv e(3) debitsOnly_refl by (simp add: expireCredit_def returnM_def)
next
  case False
  let ?x = "expirationInput t c user e a"
  have x: "ei_tenant ?x = t" "ei_customer ?x = c" "ei_points ?x = a" by (simp_all add: expirationInput_def)
  have debit: "insertDebit ?x (Some (le_id e)) db = Inr ((), db')" using run False by (simp add: expireCredit_def)
  have owned: "\<And>i. Some (le_id e) = Some i \<Longrightarrow> \<exists>y\<in>set (loyalty_entries db). le_id y = i \<and> ownedCredit (ei_tenant ?x) (ei_customer ?x) y"
    unfolding x using e by blast
  have "filter (\<lambda>y. le_id y = le_id e \<and> le_tenant y = t) (loyalty_entries db) = [e]"
    using filter_found_key [OF loyalty_invD(1) [OF inv] e(1), of "\<lambda>y. le_tenant y = t"] e(2) by (simp add: ownedCredit_def)
  then have credits: "[(e, a)] = (case Some (le_id e) of Some i \<Rightarrow> creditById (ei_tenant ?x) i db
      | None \<Rightarrow> availableCredits (ei_tenant ?x) (ei_customer ?x) (env_clock db (ticks db)) db)"
    unfolding option.case x creditById_def by (simp add: e(3))
  have pos: "0 < ei_points ?x" using False by (simp add: x)
  note L = insertDebit_left [OF debit inv _ credits pos]
  have "availablePoints db' e = 0" using L(2) [of 0] owned by (simp add: x)
  moreover have "debitsOnly db db'" using L(1) owned by (auto simp: debitsOnly_def)
  moreover have "\<forall>y\<in>set (loyalty_entries db). y \<noteq> e \<longrightarrow> availablePoints db' y = availablePoints db y"
    using L(3) owned by auto
  moreover have "loyalty_inv db'" using insertDebit_inv [OF debit inv] owned by blast
  ultimately show ?thesis by blast
qed

lemma expire_all:
  assumes "forM (expireCredit t c user) xs db = Inr ((), db')" "loyalty_inv db" "distinct (map fst xs)"
    "\<forall>x\<in>set xs. fst x \<in> set (loyalty_entries db) \<and> ownedCredit t c (fst x) \<and> snd x = availablePoints db (fst x)"
  shows "loyalty_inv db' \<and> debitsOnly db db' \<and>
    (\<forall>e\<in>set (loyalty_entries db). availablePoints db' e = (if e \<in> fst ` set xs then 0 else availablePoints db e))"
  using assms
proof (induction xs arbitrary: db)
  case Nil
  then show ?case by (simp add: returnM_def debitsOnly_refl)
next
  case (Cons x xs)
  obtain e a where x: "x = (e, a)" by (cases x)
  obtain db1 where first: "expireCredit t c user (e, a) db = Inr ((), db1)" and rest: "forM (expireCredit t c user) xs db1 = Inr ((), db')"
    using Cons.prems(1) by (auto simp: x thenM_Inr)
  have e: "e \<in> set (loyalty_entries db)" "ownedCredit t c e" "a = availablePoints db e" using Cons.prems(4) by (simp_all add: x)
  note S = expireCredit_step [OF first Cons.prems(2) e]
  have other: "fst y \<noteq> e" if "y \<in> set xs" for y using Cons.prems(3) that by (auto simp: x)
  have "\<forall>y\<in>set xs. fst y \<in> set (loyalty_entries db1) \<and> ownedCredit t c (fst y) \<and> snd y = availablePoints db1 (fst y)"
    using Cons.prems(4) S other debitsOnly_mem by (auto simp: x)
  then have IH: "loyalty_inv db'" "debitsOnly db1 db'"
    "\<And>y. y \<in> set (loyalty_entries db1) \<Longrightarrow> availablePoints db' y = (if y \<in> fst ` set xs then 0 else availablePoints db1 y)"
    using Cons.IH [OF rest] S Cons.prems(3) by (simp_all add: x)
  have "availablePoints db' y = (if y \<in> fst ` set (x # xs) then 0 else availablePoints db y)" if y: "y \<in> set (loyalty_entries db)" for y
  proof (cases "y = e")
    case True
    then show ?thesis using IH(3) [of e] S debitsOnly_mem [of db db1 e] e(1) by (simp add: x)
  next
    case False
    then show ?thesis using IH(3) [of y] S y debitsOnly_mem [of db db1 y] by (simp add: x)
  qed
  then show ?case using IH(1,2) S debitsOnly_trans by blast
qed

end
