(* ===== verification/LoyaltyTheorems.thy ===== *)
theory LoyaltyTheorems
  imports LoyaltyLaws TradeFixtures "HOL-Library.Multiset"
begin

text \<open>The properties of the loyalty points.\<close>

section \<open>Operations keep the ledger\<close>

lemma preserves_insertCredit [preserves_intros]: "preserves loyalty_inv (insertCredit x)"
  by (rule preservesI) (metis insertCredit_inv old.unit.exhaust)

lemma preserves_insertDebit [preserves_intros]: "preserves loyalty_inv (insertDebit x None)"
proof (rule preservesI)
  fix db and u :: unit and db'
  assume "loyalty_inv db" "insertDebit x None db = Inr (u, db')"
  then show "loyalty_inv db'" using insertDebit_inv [of x None db db'] by simp
qed

lemma expiredCredits_rows:
  assumes "loyalty_inv db"
  shows "fst ` set (expiredCredits t c now db) = {e \<in> set (loyalty_entries db). ownedCredit t c e \<and> expiredBy now e}"
    "distinct (map fst (expiredCredits t c now db))"
    "\<forall>x\<in>set (expiredCredits t c now db). fst x \<in> set (loyalty_entries db) \<and> ownedCredit t c (fst x) \<and> snd x = availablePoints db (fst x)"
proof -
  have "distinct (loyalty_entries db)" using loyalty_invD(1) [OF assms] by (simp add: distinct_map)
  then show "distinct (map fst (expiredCredits t c now db))" by (simp add: expiredCredits_def o_def)
  show "fst ` set (expiredCredits t c now db) = {e \<in> set (loyalty_entries db). ownedCredit t c e \<and> expiredBy now e}"
    by (auto simp: expiredCredits_def ownedCredit_def image_iff)
  show "\<forall>x\<in>set (expiredCredits t c now db). fst x \<in> set (loyalty_entries db) \<and> ownedCredit t c (fst x) \<and> snd x = availablePoints db (fst x)"
    by (auto simp: expiredCredits_def ownedCredit_def)
qed

lemma materializeExpirations_Inr:
  assumes "materializeExpirations t c user db = Inr ((), db')" "loyalty_inv db"
  shows "loyalty_inv db' \<and> debitsOnly db db' \<and>
    (\<forall>e\<in>set (loyalty_entries db). availablePoints db' e =
       (if ownedCredit t c e \<and> expiredBy (env_clock db (ticks db)) e then 0 else availablePoints db e))"
proof -
  let ?xs = "expiredCredits t c (env_clock db (ticks db)) db"
  have "forM (expireCredit t c user) ?xs db = Inr ((), db')"
    using assms(1) by (simp add: materializeExpirations_def currentTime_def bindM_Inr readM_def)
  from expire_all [OF this assms(2) expiredCredits_rows(2,3) [OF assms(2)]] show ?thesis
    unfolding expiredCredits_rows(1) [OF assms(2)] by simp
qed

lemma preserves_materialize [preserves_intros]: "preserves loyalty_inv (materializeExpirations t c user)"
proof (rule preservesI)
  fix db and u :: unit and db'
  assume "loyalty_inv db" "materializeExpirations t c user db = Inr (u, db')"
  then show "loyalty_inv db'" using materializeExpirations_Inr [of t c user db db'] by simp
qed

lemma preserves_reads [preserves_intros]: "preserves loyalty_inv (requireCustomer t c)" "preserves loyalty_inv currentTime"
  by (auto simp: preserves_def requireCustomer_def currentTime_def runM)

lemma preserves_ledger: "keeps loyalty_entries m \<Longrightarrow> keeps loyalty_allocations m \<Longrightarrow> preserves loyalty_inv m"
  unfolding keeps_def preserves_def using loyalty_inv_cong by blast

lemma preserves_rule [preserves_intros]: "preserves loyalty_inv newTradeRow" "preserves loyalty_inv (insertRule r)"
  by (rule preserves_ledger; auto simp: keeps_def newTradeRow_def insertRule_def runM)+

lemma loyalty_operations:
  "preserves loyalty_inv (createRuleVersion t user dto)" "preserves loyalty_inv (previewLoyalty t c user saleTotal points)"
  "preserves loyalty_inv (applySale t c user sale key saleTotal quoted)" "preserves loyalty_inv (compensateCustomer t s user mode c)"
  "preserves loyalty_inv (compensateSale t sale user mode)" "preserves loyalty_inv (loyaltyStatement t c user)"
  unfolding createRuleVersion_def previewLoyalty_def applySale_def compensateSale_def compensateCustomer_def loyaltyStatement_def split_beta
  by (intro preserves_intros preserves_pure)+

section \<open>Histories\<close>

inductive loyalty_step :: "trade_db \<Rightarrow> trade_db \<Rightarrow> bool" where
  rule_step: "createRuleVersion t user dto db = Inr (r, db') \<Longrightarrow> loyalty_step db db'"
| preview_step: "previewLoyalty t c user saleTotal points db = Inr (q, db') \<Longrightarrow> loyalty_step db db'"
| sale_step: "applySale t c user sale key saleTotal quoted db = Inr (u, db') \<Longrightarrow> loyalty_step db db'"
| compensation_step: "compensateSale t sale user mode db = Inr (u, db') \<Longrightarrow> loyalty_step db db'"
| statement_step: "loyaltyStatement t c user db = Inr (st, db') \<Longrightarrow> loyalty_step db db'"

lemma loyalty_step_inv: "loyalty_step db db' \<Longrightarrow> loyalty_inv db \<Longrightarrow> loyalty_inv db'"
  by (erule loyalty_step.cases; metis preservesD loyalty_operations)

lemma empty_ledger_inv: "loyalty_entries db = [] \<Longrightarrow> loyalty_allocations db = [] \<Longrightarrow> loyalty_inv db"
  by (simp add: loyalty_inv_def loyaltyBalance_def customerPoints_def)

lemma allocatedFrom_nonneg: "loyalty_inv db \<Longrightarrow> 0 \<le> allocatedFrom db e"
  unfolding allocatedFrom_def by (rule sum_where_nonneg) (use loyalty_invD(3) in fastforce)

text \<open>C9: Whatever sequence of rule changes, quotes, sales, compensations and statements has run on an
  empty ledger: the balance of every customer is what is left of the customer's credits, and never
  negative; no credit gives more points than it has; and every debit was taken, point by point, from
  credits.\<close>

theorem loyalty_histories:
  assumes "loyalty_step\<^sup>*\<^sup>* start db" "loyalty_entries start = []" "loyalty_allocations start = []"
  shows "loyaltyBalance t c db =
      sum_where (\<lambda>e. le_tenant e = t \<and> le_customer e = c \<and> 0 < le_points e) (availablePoints db) (loyalty_entries db) \<and>
    0 \<le> loyaltyBalance t c db \<and>
    (\<forall>e\<in>set (loyalty_entries db).
       (0 < le_points e \<longrightarrow> 0 \<le> availablePoints db e \<and> availablePoints db e \<le> le_points e) \<and>
       (le_points e < 0 \<longrightarrow>
          sum_where (\<lambda>a. la_tenant a = le_tenant e \<and> la_debit a = le_id e) la_points (loyalty_allocations db) = - le_points e))"
proof -
  from assms(1) have inv: "loyalty_inv db"
    by (induction rule: rtranclp_induct) (use assms(2,3) empty_ledger_inv loyalty_step_inv in blast)+
  note I = loyalty_invD [OF inv]
  have sum: "loyaltyBalance t c db = sum_where (ownedCredit t c) (availablePoints db) (loyalty_entries db)"
    using I(6) by (simp add: customerPoints_def)
  moreover have "0 \<le> sum_where (ownedCredit t c) (availablePoints db) (loyalty_entries db)"
    by (rule sum_where_nonneg) (use I(4) in \<open>auto simp: ownedCredit_def\<close>)
  moreover have "ownedCredit t c = (\<lambda>e. le_tenant e = t \<and> le_customer e = c \<and> 0 < le_points e)"
    by (rule ext) (simp add: ownedCredit_def)
  moreover have "availablePoints db e \<le> le_points e" for e
    using allocatedFrom_nonneg [OF inv, of e] by (simp add: availablePoints_def)
  moreover have "le_points e < 0 \<longrightarrow> sum_where (\<lambda>a. la_tenant a = le_tenant e \<and> la_debit a = le_id e) la_points (loyalty_allocations db) = - le_points e"
    if "e \<in> set (loyalty_entries db)" for e
    using I(5) [OF that] by (simp add: allocatedTo_def)
  ultimately show ?thesis using I(4) by simp
qed

section \<open>First expired, first out\<close>

lemma availableCredits_iff:
  "x \<in> set (availableCredits t c now db) \<longleftrightarrow>
     fst x \<in> set (loyalty_entries db) \<and> ownedCredit t c (fst x) \<and> \<not> expiredBy now (fst x) \<and> 0 < snd x \<and> snd x = availablePoints db (fst x)"
  by (cases x) (auto simp: availableCredits_def ownedCredit_def)

lemma availableCredits_sorted: "sorted (map (\<lambda>x. creditRank (fst x)) (availableCredits t c now db))"
  unfolding availableCredits_def by (rule sorted_filter) (simp add: o_def)

text \<open>C14: Points are redeemed and taken back from the credits that expire first (those without expiry
  last, then the oldest): when a debit draws from a credit, nothing is left of any credit of the
  customer that comes before it and has not expired. Expired credits and those of other customers
  are not drawn from.\<close>

theorem insertDebit_fefo:
  assumes "insertDebit x None db = Inr ((), db')" "loyalty_inv db"
    "e \<in> set (loyalty_entries db)" "f \<in> set (loyalty_entries db)" "availablePoints db' f < availablePoints db f"
  shows "le_tenant f = ei_tenant x \<and> le_customer f = ei_customer x \<and> \<not> expiredBy (env_clock db (ticks db)) f \<and>
    (le_tenant e = ei_tenant x \<and> le_customer e = ei_customer x \<and> 0 < le_points e \<and> \<not> expiredBy (env_clock db (ticks db)) e \<and>
       creditRank e < creditRank f \<longrightarrow> availablePoints db' e = 0)"
proof -
  let ?credits = "availableCredits (ei_tenant x) (ei_customer x) (env_clock db (ticks db)) db"
  have pos: "0 < ei_points x"
  proof (rule ccontr)
    assume "\<not> 0 < ei_points x"
    then have "db' = db" using assms(1) by (simp add: insertDebit_def returnM_def)
    then show False using assms(5) by simp
  qed
  have credits: "?credits = (case None of Some i \<Rightarrow> creditById (ei_tenant x) i db | None \<Rightarrow> ?credits)" by simp
  note L = insertDebit_left [OF assms(1,2) _ credits pos]
  have "f \<in> fst ` set ?credits" using L(3) [OF _ assms(4)] assms(5) by fastforce
  then obtain j where j: "j < length ?credits" "fst (?credits ! j) = f" by (auto simp: in_set_conv_nth)
  have f: "(?credits ! j) \<in> set ?credits" using j(1) by simp
  have after: "availablePoints db' e = 0"
    if e: "ownedCredit (ei_tenant x) (ei_customer x) e" "\<not> expiredBy (env_clock db (ticks db)) e" "creditRank e < creditRank f"
  proof (cases "availablePoints db e = 0")
    case True
    then have "e \<notin> fst ` set ?credits" by (auto simp: availableCredits_iff)
    then show ?thesis using L(3) [OF _ assms(3)] True by simp
  next
    case False
    then have "0 < availablePoints db e"
      using loyalty_invD(4) [OF assms(2,3)] e(1) by (simp add: ownedCredit_def)
    then have "(e, availablePoints db e) \<in> set ?credits" using e assms(3) by (simp add: availableCredits_iff)
    then obtain i where i: "i < length ?credits" "?credits ! i = (e, availablePoints db e)" by (auto simp: in_set_conv_nth)
    have "i < j"
    proof (rule ccontr)
      assume "\<not> i < j"
      then have "creditRank (fst (?credits ! j)) \<le> creditRank (fst (?credits ! i))"
        using sorted_nth_mono [OF availableCredits_sorted, of j i] i(1) by simp
      then show False using e(3) i(2) j(2) by simp
    qed
    moreover have "availablePoints db' (fst (?credits ! j)) < snd (?credits ! j)"
      using f assms(5) j(2) by (simp add: availableCredits_iff)
    ultimately have "availablePoints db' (fst (?credits ! i)) = 0" using L(4) [OF _ _ j(1)] by simp
    then show ?thesis by (simp add: i(2))
  qed
  have "ownedCredit (ei_tenant x) (ei_customer x) f \<and> \<not> expiredBy (env_clock db (ticks db)) f"
    using f j(2) by (simp add: availableCredits_iff)
  then show ?thesis using after by (auto simp: ownedCredit_def)
qed

section \<open>Expiry\<close>

lemma sum_sort_key: "sum_list (map f (sort_key k xs)) = (sum_list (map f xs) :: int)"
  by (metis mset_map mset_sort sum_mset_sum_list)

lemma availableTotal_credits:
  assumes "loyalty_inv db"
  shows "availableTotal (availableCredits t c now db) =
    sum_where (\<lambda>e. ownedCredit t c e \<and> \<not> expiredBy now e) (availablePoints db) (loyalty_entries db)"
proof -
  let ?rows = "sort_key creditRank (filter (\<lambda>e. le_tenant e = t \<and> le_customer e = c \<and> 0 < le_points e \<and> \<not> expiredBy now e) (loyalty_entries db))"
  have pos: "sum_list (map (\<lambda>x. max 0 (snd x)) (filter (\<lambda>x. 0 < snd x) xs)) = sum_list (map (\<lambda>x. max 0 (snd x)) xs)"
    for xs :: "(loyalty_entry_row \<times> int) list"
    by (induction xs) auto
  have "0 \<le> availablePoints db e" if "e \<in> set ?rows" for e
    using that loyalty_invD(4) [OF assms, of e] by simp
  then have "map (\<lambda>e. max 0 (availablePoints db e)) ?rows = map (availablePoints db) ?rows"
    by (intro map_cong) auto
  then show ?thesis
    unfolding availableTotal_def availableCredits_def pos map_map o_def snd_conv
    by (simp only: sum_sort_key) (simp add: sum_where_def ownedCredit_def conj_assoc)
qed

lemma sum_where_append_none: "(\<And>r. r \<in> set ys \<Longrightarrow> \<not> p r) \<Longrightarrow> sum_where p f (xs @ ys) = sum_where p f xs"
  by (simp add: sum_where_none)

lemma sum_where_skip:
  "(\<And>r. r \<in> set rows \<Longrightarrow> p r \<Longrightarrow> \<not> q r \<Longrightarrow> f r = 0) \<Longrightarrow> sum_where p f rows = sum_where (\<lambda>r. p r \<and> q r) f rows"
  by (induction rows) auto

text \<open>C16: After the expirations of a customer have been booked, nothing is left of a credit that had
  expired, the other credits are as before, and the balance is exactly what a debit may draw from the
  credits that have not expired; so a redemption within the balance finds its points.\<close>

theorem materializeExpirations_effect:
  assumes "materializeExpirations t c user db = Inr ((), db')" "loyalty_inv db"
  shows "(\<forall>e\<in>set (loyalty_entries db). availablePoints db' e =
      (if le_tenant e = t \<and> le_customer e = c \<and> 0 < le_points e \<and> expiredBy (env_clock db (ticks db)) e then 0 else availablePoints db e)) \<and>
    loyaltyBalance t c db' = availableTotal (availableCredits t c (env_clock db (ticks db)) db')"
proof -
  let ?now = "env_clock db (ticks db)"
  note M = materializeExpirations_Inr [OF assms]
  have left: "\<forall>e\<in>set (loyalty_entries db). availablePoints db' e = (if ownedCredit t c e \<and> expiredBy ?now e then 0 else availablePoints db e)"
    using M by blast
  obtain ds where ds: "loyalty_entries db' = loyalty_entries db @ ds" "\<forall>d\<in>set ds. le_points d < 0"
    using M by (auto simp: debitsOnly_def)
  have none: "\<not> ownedCredit t c d" if "d \<in> set ds" for d using ds(2) that by (auto simp: ownedCredit_def)
  have "loyaltyBalance t c db' = sum_where (ownedCredit t c) (availablePoints db') (loyalty_entries db')"
    using loyalty_invD(6) [of db'] M by (simp add: customerPoints_def)
  also have "\<dots> = sum_where (ownedCredit t c) (availablePoints db') (loyalty_entries db)"
    unfolding ds(1) by (rule sum_where_append_none) (rule none)
  also have "\<dots> = sum_where (\<lambda>e. ownedCredit t c e \<and> \<not> expiredBy ?now e) (availablePoints db') (loyalty_entries db)"
    by (rule sum_where_skip) (use left in auto)
  also have "\<dots> = sum_where (\<lambda>e. ownedCredit t c e \<and> \<not> expiredBy ?now e) (availablePoints db') (loyalty_entries db')"
    unfolding ds(1) by (rule sum_where_append_none [symmetric]) (use none in blast)
  also have "\<dots> = availableTotal (availableCredits t c ?now db')"
    using availableTotal_credits [of db'] M by simp
  finally show ?thesis using left by (simp add: ownedCredit_def)
qed

section \<open>Compensations\<close>

text \<open>Expirations belong to no sale, and nothing here touches the returns.\<close>

definition saleRows :: "trade_db \<Rightarrow> loyalty_entry_row list" where
  "saleRows db = filter (\<lambda>e. le_sale e \<noteq> None) (loyalty_entries db)"

lemma keeps_newTradeRow [keeps_intros]: "(\<And>db n. f (db\<lparr>ticks := n\<rparr>) = f db) \<Longrightarrow> keeps f newTradeRow"
  by (auto simp: keeps_def newTradeRow_def)

lemma keeps_currentTime [keeps_intros]: "keeps f currentTime"
  by (simp add: currentTime_def)

lemma keeps_allocatePoints [keeps_intros]:
  assumes "\<And>db n. f (db\<lparr>ticks := n\<rparr>) = f db" "\<And>db as. f (db\<lparr>loyalty_allocations := as\<rparr>) = f db"
  shows "keeps f (allocatePoints t debit remaining credits)"
proof (induction t debit remaining credits rule: allocatePoints.induct)
  case (2 t debit remaining e available rest)
  then show ?case
    by (auto simp: insertPointAllocation_def Let_def assms intro!: keeps_intros)
qed simp

lemma keeps_insertDebit:
  assumes "\<And>db n. f (db\<lparr>ticks := n\<rparr>) = f db" "\<And>db as. f (db\<lparr>loyalty_allocations := as\<rparr>) = f db"
    "\<And>db i. f (db\<lparr>loyalty_entries := loyalty_entries db @ [entryOf x (- ei_points x) i]\<rparr>) = f db"
  shows "keeps f (insertDebit x creditId)"
  unfolding insertDebit_def insertEntry_def Let_def by (intro keeps_intros assms)

lemma keeps_materialize:
  assumes "\<And>db n. f (db\<lparr>ticks := n\<rparr>) = f db" "\<And>db as. f (db\<lparr>loyalty_allocations := as\<rparr>) = f db"
    "\<And>db e. le_sale e = None \<Longrightarrow> f (db\<lparr>loyalty_entries := loyalty_entries db @ [e]\<rparr>) = f db"
  shows "keeps f (materializeExpirations t c user)"
  unfolding materializeExpirations_def expireCredit_def
  by (intro keeps_intros keeps_insertDebit assms) (simp add: entryOf_def expirationInput_def)

lemma materialize_frame:
  assumes "materializeExpirations t c user db = Inr ((), db')"
  shows "saleRows db' = saleRows db" "sale_returns db' = sale_returns db"
proof -
  have "keeps saleRows (materializeExpirations t c user)" by (rule keeps_materialize) (simp_all add: saleRows_def)
  then show "saleRows db' = saleRows db" using assms by (rule keepsD)
  have "keeps sale_returns (materializeExpirations t c user)" by (rule keeps_materialize) simp_all
  then show "sale_returns db' = sale_returns db" using assms by (rule keepsD)
qed

lemma saleEntrySum_rows: "saleEntrySum t i kind db = sum_where (\<lambda>e. le_tenant e = t \<and> le_sale e = Some i \<and> le_type e = kind) le_points (saleRows db)"
  unfolding saleEntrySum_def saleRows_def sum_where_def filter_filter
  by (rule arg_cong [where f = "\<lambda>xs. sum_list (map le_points xs)"], rule filter_cong) auto

lemma sourceEntries_rows: "sourceEntries t i db = filter (\<lambda>e. le_tenant e = t \<and> le_sale e = Some i \<and> le_type e \<in> {EARN, REDEEM}) (saleRows db)"
  by (auto simp: sourceEntries_def saleRows_def intro!: filter_cong)

lemma compensationTarget_cong: "sale_returns db' = sale_returns db \<Longrightarrow> compensationTarget mode t s points db' = compensationTarget mode t s points db"
  by (simp add: compensationTarget_def returnedTotal_def split: compensation.splits)

lemma saleEntrySum_withEntry:
  "saleEntrySum t i kind (withEntry e db) = saleEntrySum t i kind db + (if le_tenant e = t \<and> le_sale e = Some i \<and> le_type e = kind then le_points e else 0)"
  by (simp add: saleEntrySum_def)

lemma insertDebit_entry:
  assumes "insertDebit x creditId db = Inr ((), db')" "0 < ei_points x"
  shows "saleEntrySum t i kind db' = saleEntrySum t i kind db - (if ei_tenant x = t \<and> ei_sale x = Some i \<and> ei_type x = kind then ei_points x else 0)"
  using assms(1)
proof (cases rule: insertDebit_Inr)
  case (drawn d credits)
  have "keeps loyalty_entries (allocatePoints (ei_tenant x) (le_id d) (ei_points x) credits)" by (rule keeps_allocatePoints) simp_all
  from keepsD [OF this drawn(7)] have "saleEntrySum t i kind db' = saleEntrySum t i kind (withEntry d db)" by (simp add: saleEntrySum_def)
  then show ?thesis unfolding saleEntrySum_withEntry by (simp add: drawn(4) entryOf_def)
qed (use assms(2) in simp)

lemma insertCredit_entry:
  assumes "insertCredit x db = Inr ((), db')" "0 < ei_points x"
  shows "saleEntrySum t i kind db' = saleEntrySum t i kind db + (if ei_tenant x = t \<and> ei_sale x = Some i \<and> ei_type x = kind then ei_points x else 0)"
  using assms(1)
proof (cases rule: insertCredit_Inr)
  case (stored e)
  then show ?thesis by (simp add: saleEntrySum_withEntry entryOf_def)
qed (use assms(2) in simp)

lemma compensateCustomer_Inr:
  assumes "compensateCustomer t s user mode c db = Inr ((), db')" "sourceEntries t (sa_id s) db \<noteq> []"
  obtains db1 db2 restore reverse source where "materializeExpirations t c user db = Inr ((), db1)"
    "restore = max 0 (compensationTarget mode t s (sa_points_redeemed s) db - saleEntrySum t (sa_id s) (restoreType mode) db)"
    "reverse = max 0 (compensationTarget mode t s (sa_points_earned s) db + saleEntrySum t (sa_id s) (reverseType mode) db)"
    "whenM (0 < restore) (insertCredit (compensationEntry t c user (sa_id s) mode (restoreType mode) (sourceOf REDEEM source) restore ''restore'')) db1 = Inr ((), db2)"
    "whenM (0 < reverse) (insertDebit (compensationEntry t c user (sa_id s) mode (reverseType mode) (sourceOf EARN source) reverse ''reverse'') None) db2 = Inr ((), db')"
proof -
  from assms(1) obtain db1 where m: "materializeExpirations t c user db = Inr ((), db1)"
    by (auto simp: compensateCustomer_def requireCustomer_def runM)
  note F = materialize_frame [OF m]
  have same: "sourceEntries t (sa_id s) db1 = sourceEntries t (sa_id s) db" "saleEntrySum t (sa_id s) k db1 = saleEntrySum t (sa_id s) k db"
    "compensationTarget mode t s points db1 = compensationTarget mode t s points db" for k points
    by (simp_all add: sourceEntries_rows saleEntrySum_rows F(1) compensationTarget_cong [OF F(2)])
  from assms m show thesis
    by (auto simp: compensateCustomer_def requireCustomer_def runM same intro!: that [OF m refl refl])
qed

text \<open>C15: A compensation brings the points of a sale that have been given back, and those that have been
  taken back, up to their targets: all of them for a void, the share of the sale that has been returned
  for a return, rounded down. Points once given or taken back are never counted twice, so a sale that is
  returned in many parts ends with exactly the points of a sale returned at once.\<close>

theorem compensation_totals:
  assumes "compensateCustomer t s user mode c db = Inr ((), db')" "sourceEntries t (sa_id s) db \<noteq> []"
  shows "saleEntrySum t (sa_id s) (restoreType mode) db' =
      max (saleEntrySum t (sa_id s) (restoreType mode) db) (compensationTarget mode t s (sa_points_redeemed s) db) \<and>
    - saleEntrySum t (sa_id s) (reverseType mode) db' =
      max (- saleEntrySum t (sa_id s) (reverseType mode) db) (compensationTarget mode t s (sa_points_earned s) db)"
  using assms
proof (rule compensateCustomer_Inr)
  fix db1 db2 restore reverse source
  assume m: "materializeExpirations t c user db = Inr ((), db1)"
    and restore: "restore = max 0 (compensationTarget mode t s (sa_points_redeemed s) db - saleEntrySum t (sa_id s) (restoreType mode) db)"
    and reverse: "reverse = max 0 (compensationTarget mode t s (sa_points_earned s) db + saleEntrySum t (sa_id s) (reverseType mode) db)"
    and credit: "whenM (0 < restore) (insertCredit (compensationEntry t c user (sa_id s) mode (restoreType mode) (sourceOf REDEEM source) restore ''restore'')) db1 = Inr ((), db2)"
    and debit: "whenM (0 < reverse) (insertDebit (compensationEntry t c user (sa_id s) mode (reverseType mode) (sourceOf EARN source) reverse ''reverse'') None) db2 = Inr ((), db')"
  have types: "restoreType mode \<noteq> reverseType mode" by (cases mode) (simp_all add: restoreType_def reverseType_def)
  have sums1: "saleEntrySum t (sa_id s) k db1 = saleEntrySum t (sa_id s) k db" for k
    by (simp add: saleEntrySum_rows materialize_frame(1) [OF m])
  have sums2: "saleEntrySum t (sa_id s) k db2 = saleEntrySum t (sa_id s) k db1 + (if k = restoreType mode then restore else 0)" for k
  proof (cases "0 < restore")
    case True
    then show ?thesis using insertCredit_entry [of _ db1 db2 t "sa_id s" k] credit by (simp add: whenM_def compensationEntry_def)
  next
    case False
    then show ?thesis using credit restore by (simp add: whenM_def returnM_def)
  qed
  have sums3: "saleEntrySum t (sa_id s) k db' = saleEntrySum t (sa_id s) k db2 - (if k = reverseType mode then reverse else 0)" for k
  proof (cases "0 < reverse")
    case True
    then show ?thesis using insertDebit_entry [of _ None db2 db' t "sa_id s" k] debit by (simp add: whenM_def compensationEntry_def)
  next
    case False
    then show ?thesis using debit reverse by (simp add: whenM_def returnM_def)
  qed
  show ?thesis unfolding sums3 sums2 sums1 using types restore reverse by auto
qed

section \<open>Points that expired\<close>

lemma nothing_available:
  assumes "\<And>e. e \<in> set (loyalty_entries db) \<Longrightarrow> ownedCredit t c e \<Longrightarrow> availablePoints db e \<le> 0"
  shows "availableCredits t c now db = []"
  using assms by (fastforce simp: availableCredits_def ownedCredit_def filter_empty_conv)

text \<open>C36: When a customer has earned points with a sale and they have all expired, the sale cannot be
  returned or voided any more: taking the points back finds no balance, and the whole operation fails
  with the error of a customer who has spent them, although none was redeemed.\<close>

theorem expired_earnings_refuse_compensation:
  assumes "loyalty_inv db" "lockLoyaltyCustomer t c db \<noteq> None"
    "materializeExpirations t c user db = Inr ((), db')"
    "list_all (\<lambda>e. ownedCredit t c e \<longrightarrow> expiredBy (env_clock db (ticks db)) e) (loyalty_entries db)"
    "sourceEntries t (sa_id s) db \<noteq> []"
    "compensationTarget mode t s (sa_points_redeemed s) db \<le> saleEntrySum t (sa_id s) (restoreType mode) db"
    "- saleEntrySum t (sa_id s) (reverseType mode) db < compensationTarget mode t s (sa_points_earned s) db"
  shows "compensateCustomer t s user mode c db =
    Inl (LoyaltyInsufficientBalanceError 0
      (compensationTarget mode t s (sa_points_earned s) db + saleEntrySum t (sa_id s) (reverseType mode) db))"
proof -
  note M = materializeExpirations_Inr [OF assms(3,1)]
  note F = materialize_frame [OF assms(3)]
  have same: "sourceEntries t (sa_id s) db' = sourceEntries t (sa_id s) db" "saleEntrySum t (sa_id s) k db' = saleEntrySum t (sa_id s) k db"
    "compensationTarget mode t s points db' = compensationTarget mode t s points db" for k points
    by (simp_all add: sourceEntries_rows saleEntrySum_rows F(1) compensationTarget_cong [OF F(2)])
  obtain ds where ds: "loyalty_entries db' = loyalty_entries db @ ds" "\<forall>d\<in>set ds. le_points d < 0"
    using M by (auto simp: debitsOnly_def)
  have "availablePoints db' e \<le> 0" if "e \<in> set (loyalty_entries db')" "ownedCredit t c e" for e
  proof -
    have "e \<in> set (loyalty_entries db)" using that ds by (auto simp: ownedCredit_def)
    then show ?thesis using M assms(4) that(2) by (simp add: list_all_iff)
  qed
  then have none: "availableCredits t c now db' = []" for now by (rule nothing_available)
  obtain r where "lockLoyaltyCustomer t c db = Some r" using assms(2) by blast
  then have "requireCustomer t c db = Inr ((), db)" by (simp add: requireCustomer_def runM)
  then show ?thesis using assms(3,5,6,7)
    by (simp add: compensateCustomer_def bindM_def thenM_def readM_def returnM_def throwM_def ensureM_def same whenM_def
        insertDebit_def currentTime_def none availableTotal_def compensationEntry_def Let_def)
qed

section \<open>Witnesses\<close>

text \<open>A customer of the sample company who buys for 50.00 under a rule of one point per unit of
  money.\<close>

definition pointsSale :: sale_row where
  "pointsSale =
    \<lparr>sa_id = 40, sa_tenant = 1, sa_branch = 1, sa_currency = ''EUR'', sa_shift = None, sa_customer = Some 20,
     sa_status = SaleCompleted, sa_total = 5000, sa_points_redeemed = 0, sa_points_earned = 50\<rparr>"

definition pointsRule :: "nat option \<Rightarrow> rule_dto" where
  "pointsRule days =
    \<lparr>rd_active = True, rd_earn_amount = 100, rd_earn_points = 1, rd_redeem_points = 10, rd_redeem_amount = 50,
     rd_expiration_days = days\<rparr>"

definition buyWith :: "nat option \<Rightarrow> id \<Rightarrow> string \<Rightarrow> int \<Rightarrow> unit tact" where
  "buyWith days sale key points =
     thenM (createRuleVersion 1 9 (pointsRule days))
     (bindM (previewLoyalty 1 20 9 5000 points) (\<lambda>q. case q of
        None \<Rightarrow> throwM LoyaltyRuleChangedError
      | Some quoted \<Rightarrow> applySale 1 20 9 sale key 5000 quoted))"

lemma buyWith_steps:
  assumes "buyWith days sale key points db = Inr ((), db')"
  shows "loyalty_step\<^sup>*\<^sup>* db db'"
proof -
  from assms obtain r db1 q db2 where
    "createRuleVersion 1 9 (pointsRule days) db = Inr (r, db1)"
    "previewLoyalty 1 20 9 5000 points db1 = Inr (Some q, db2)"
    "applySale 1 20 9 sale key 5000 q db2 = Inr ((), db')"
    by (auto simp: buyWith_def runM split: option.splits)
  then have "loyalty_step db db1" "loyalty_step db1 db2" "loyalty_step db2 db'"
    by (auto intro: loyalty_step.intros)
  then show ?thesis by (meson rtranclp.rtrancl_into_rtrancl rtranclp.rtrancl_refl)
qed

lemma ran_Inr: "(case y of Inl _ \<Rightarrow> False | Inr (a, b) \<Rightarrow> P a b) \<Longrightarrow> \<exists>a b. y = Inr (a, b) \<and> P a b"
  by (auto split: sum.splits)

text \<open>Fifty points are earned, and the second purchase redeems ten of them.\<close>

lemma two_purchases:
  "case buyWith None 40 ''a'' 0 sampleTrade of Inl _ \<Rightarrow> False
   | Inr (_, db) \<Rightarrow> (case buyWith None 41 ''b'' 10 db of Inl _ \<Rightarrow> False
     | Inr (_, db') \<Rightarrow> map le_points (loyalty_entries db') = [50, - 10, 49] \<and> loyaltyBalance 1 20 db' = 89 \<and>
         map (availablePoints db') (loyalty_entries db') = [40, - 10, 49])"
  by code_simp

text \<open>Two credits: the older one does not expire, the other one does.\<close>

definition earnedRow :: "id \<Rightarrow> nat option \<Rightarrow> string \<Rightarrow> loyalty_entry_row" where
  "earnedRow i expires key =
    \<lparr>le_id = i, le_tenant = 1, le_customer = 20, le_rule = 5, le_sale = Some 40, le_return = None, le_type = EARN,
     le_points = 50, le_value = 5000, le_key = key,
     le_snapshot = \<lparr>ls_id = 5, ls_version = 1, ls_earn_amount = 100, ls_earn_points = 1, ls_redeem_points = 10,
       ls_redeem_amount = 50, ls_expiration_days = None\<rparr>,
     le_expires_at = expires, le_user = 9, le_created_at = i\<rparr>"

definition ledgerWith :: "loyalty_entry_row list \<Rightarrow> trade_db" where
  "ledgerWith rows = sampleTrade\<lparr>loyalty_entries := rows, sales := [pointsSale],
     sale_returns := [\<lparr>rt_id = 50, rt_tenant = 1, rt_sale = 40, rt_total = 2000, rt_loyalty_restored = 0,
       rt_settlement = SettlementPending\<rparr>]\<rparr>"

definition redemption :: entry_input where
  "redemption =
    \<lparr>ei_tenant = 1, ei_customer = 20, ei_rule = 5, ei_sale = Some 41, ei_return = None, ei_type = REDEEM, ei_points = 60,
     ei_value = 300, ei_key = ''r'', ei_snapshot = le_snapshot (earnedRow 70 None ''a''), ei_expires_at = None, ei_user = 9\<rparr>"

lemma redemption_runs:
  "case insertDebit redemption None (ledgerWith [earnedRow 70 None ''a'', earnedRow 71 (Some 50) ''b'']) of Inl _ \<Rightarrow> False
   | Inr (_, db) \<Rightarrow> map (availablePoints db) [earnedRow 70 None ''a'', earnedRow 71 (Some 50) ''b''] = [40, 0]"
  by code_simp

lemma expiry_runs:
  "case materializeExpirations 1 20 9 (ledgerWith [earnedRow 70 None ''a'', earnedRow 71 (Some 0) ''b'']) of Inl _ \<Rightarrow> False
   | Inr (_, db) \<Rightarrow> map le_points (loyalty_entries db) = [50, 50, - 50] \<and> loyaltyBalance 1 20 db = 50"
  by code_simp

lemma return_runs:
  "case compensateCustomer 1 pointsSale 9 (CompensateReturn (Some 50)) 20 (ledgerWith [earnedRow 70 None ''a'']) of Inl _ \<Rightarrow> False
   | Inr (_, db) \<Rightarrow> map le_points (loyalty_entries db) = [50, - 20]"
  by code_simp

lemma ledgerWith_inv:
  assumes "distinct (map le_id rows)" "\<And>e. e \<in> set rows \<Longrightarrow> entry_check e \<and> 0 < le_points e"
  shows "loyalty_inv (ledgerWith rows)"
proof -
  have ledger: "loyalty_entries (ledgerWith rows) = rows" "loyalty_allocations (ledgerWith rows) = []"
    by (simp_all add: ledgerWith_def sampleTrade_def)
  have "availablePoints (ledgerWith rows) = le_points"
    by (rule ext) (simp add: availablePoints_def allocatedFrom_def ledger)
  moreover have "sum_where (\<lambda>e. le_tenant e = t \<and> le_customer e = c) le_points rows = sum_where (ownedCredit t c) le_points rows" for t c
    unfolding sum_where_def using assms(2) by (intro arg_cong [where f = "\<lambda>xs. sum_list (map le_points xs)"] filter_cong) (auto simp: ownedCredit_def)
  ultimately show ?thesis
    using assms by (force simp: loyalty_inv_def ledger loyaltyBalance_def customerPoints_def)
qed

lemma sample_ledgers:
  "loyalty_inv (ledgerWith [earnedRow 70 None ''a'', earnedRow 71 (Some i) ''b''])"
  "loyalty_inv (ledgerWith [earnedRow 71 (Some i) ''b''])"
  by (rule ledgerWith_inv; auto simp: earnedRow_def entry_check_def credit_type_def)+

lemma ledgerWith_simps [simp]:
  "loyalty_entries (ledgerWith rows) = rows" "env_clock (ledgerWith rows) n = n" "ticks (ledgerWith rows) = 0"
  by (simp_all add: ledgerWith_def sampleTrade_def)

theorem loyalty_histories_witness:
  "\<exists>db. loyalty_step\<^sup>*\<^sup>* sampleTrade db \<and> map le_points (loyalty_entries db) = [50, - 10, 49] \<and>
    map (availablePoints db) (loyalty_entries db) = [40, - 10, 49] \<and> 0 \<le> loyaltyBalance 1 20 db \<and>
    loyaltyBalance 1 20 db =
      sum_where (\<lambda>e. le_tenant e = 1 \<and> le_customer e = 20 \<and> 0 < le_points e) (availablePoints db) (loyalty_entries db)"
proof -
  obtain db1 where first: "buyWith None 40 ''a'' 0 sampleTrade = Inr ((), db1)"
    and rest: "case buyWith None 41 ''b'' 10 db1 of Inl _ \<Rightarrow> False
     | Inr (_, db') \<Rightarrow> map le_points (loyalty_entries db') = [50, - 10, 49] \<and> loyaltyBalance 1 20 db' = 89 \<and>
         map (availablePoints db') (loyalty_entries db') = [40, - 10, 49]"
    using ran_Inr [OF two_purchases] by auto
  obtain db where second: "buyWith None 41 ''b'' 10 db1 = Inr ((), db)"
    and facts: "map le_points (loyalty_entries db) = [50, - 10, 49]" "map (availablePoints db) (loyalty_entries db) = [40, - 10, 49]"
    using ran_Inr [OF rest] by auto
  have run: "loyalty_step\<^sup>*\<^sup>* sampleTrade db"
    using buyWith_steps [OF first] buyWith_steps [OF second] by (rule rtranclp_trans)
  have "loyalty_entries sampleTrade = []" "loyalty_allocations sampleTrade = []" by (simp_all add: sampleTrade_def)
  from loyalty_histories [OF run this, of 1 20] run facts show ?thesis by (intro exI [of _ db]) simp
qed

theorem insertDebit_fefo_witness:
  "\<exists>db. insertDebit redemption None (ledgerWith [earnedRow 70 None ''a'', earnedRow 71 (Some 50) ''b'']) = Inr ((), db) \<and>
    availablePoints db (earnedRow 70 None ''a'') = 40 \<and> availablePoints db (earnedRow 71 (Some 50) ''b'') = 0"
proof -
  let ?start = "ledgerWith [earnedRow 70 None ''a'', earnedRow 71 (Some 50) ''b'']"
  obtain db where run: "insertDebit redemption None ?start = Inr ((), db)"
    and left: "availablePoints db (earnedRow 70 None ''a'') = 40"
    using ran_Inr [OF redemption_runs] by auto
  have before: "availablePoints ?start (earnedRow 70 None ''a'') = 50" by code_simp
  have order: "creditRank (earnedRow 71 (Some 50) ''b'') < creditRank (earnedRow 70 None ''a'')"
    by (simp add: creditRank_def earnedRow_def)
  have "availablePoints db (earnedRow 71 (Some 50) ''b'') = 0"
    using insertDebit_fefo [OF run sample_ledgers(1), of "earnedRow 71 (Some 50) ''b''" "earnedRow 70 None ''a''"] left before order
    by (simp add: redemption_def expiredBy_def earnedRow_def)
  with run left show ?thesis by (intro exI [of _ db] conjI)
qed

theorem materializeExpirations_effect_witness:
  "\<exists>db. materializeExpirations 1 20 9 (ledgerWith [earnedRow 70 None ''a'', earnedRow 71 (Some 0) ''b'']) = Inr ((), db) \<and>
    availablePoints db (earnedRow 70 None ''a'') = 50 \<and> availablePoints db (earnedRow 71 (Some 0) ''b'') = 0 \<and>
    availableTotal (availableCredits 1 20 0 db) = 50"
proof -
  let ?start = "ledgerWith [earnedRow 70 None ''a'', earnedRow 71 (Some 0) ''b'']"
  obtain db where run: "materializeExpirations 1 20 9 ?start = Inr ((), db)" and left: "loyaltyBalance 1 20 db = 50"
    using ran_Inr [OF expiry_runs] by auto
  have before: "availablePoints ?start (earnedRow 70 None ''a'') = 50" by code_simp
  note E = materializeExpirations_effect [OF run sample_ledgers(1), unfolded ledgerWith_simps left]
  have rows: "le_points (earnedRow i x k) = 50" "le_tenant (earnedRow i x k) = 1" "le_customer (earnedRow i x k) = 20"
    "expiredBy 0 (earnedRow i x k) = (x = Some 0)" for i x k
    by (simp_all add: earnedRow_def expiredBy_def split: option.splits)
  have "availablePoints db (earnedRow 70 None ''a'') = 50" "availablePoints db (earnedRow 71 (Some 0) ''b'') = 0"
    using conjunct1 [OF E] before by (simp_all add: rows)
  moreover have "availableTotal (availableCredits 1 20 0 db) = 50" using conjunct2 [OF E] by (rule sym)
  ultimately show ?thesis using run by (intro exI [of _ db] conjI)
qed

theorem compensation_totals_witness:
  "\<exists>db. compensateCustomer 1 pointsSale 9 (CompensateReturn (Some 50)) 20 (ledgerWith [earnedRow 70 None ''a'']) = Inr ((), db) \<and>
    map le_points (loyalty_entries db) = [50, - 20] \<and> saleEntrySum 1 40 RETURN_EARN_REVERSAL db = - 20"
proof -
  let ?start = "ledgerWith [earnedRow 70 None ''a'']"
  obtain db where run: "compensateCustomer 1 pointsSale 9 (CompensateReturn (Some 50)) 20 ?start = Inr ((), db)"
    and rows: "map le_points (loyalty_entries db) = [50, - 20]"
    using ran_Inr [OF return_runs] by auto
  have source: "sourceEntries 1 (sa_id pointsSale) ?start \<noteq> []" by code_simp
  have start: "saleEntrySum 1 40 RETURN_EARN_REVERSAL ?start = 0"
    "compensationTarget (CompensateReturn (Some 50)) 1 pointsSale 50 ?start = 20" by code_simp+
  have names: "sa_id pointsSale = 40" "sa_points_earned pointsSale = 50" "reverseType (CompensateReturn (Some 50)) = RETURN_EARN_REVERSAL"
    by (simp_all add: pointsSale_def reverseType_def)
  have "- saleEntrySum 1 40 RETURN_EARN_REVERSAL db = max (- 0) 20"
    using conjunct2 [OF compensation_totals [OF run source]] unfolding names start .
  then have "saleEntrySum 1 40 RETURN_EARN_REVERSAL db = - 20" by simp
  with run rows show ?thesis by (intro exI [of _ db] conjI)
qed

theorem expired_earnings_refuse_compensation_witness:
  "compensateCustomer 1 pointsSale 9 (CompensateReturn (Some 50)) 20 (ledgerWith [earnedRow 71 (Some 0) ''b'']) =
    Inl (LoyaltyInsufficientBalanceError 0 20)"
proof -
  let ?start = "ledgerWith [earnedRow 71 (Some 0) ''b'']"
  have "case materializeExpirations 1 20 9 ?start of Inl _ \<Rightarrow> False | Inr (_, db) \<Rightarrow> map le_points (loyalty_entries db) = [50, - 50]"
    by code_simp
  from ran_Inr [OF this] obtain db where run: "materializeExpirations 1 20 9 ?start = Inr ((), db)" by auto
  have customer: "lockLoyaltyCustomer 1 20 ?start \<noteq> None" by code_simp
  have expired: "list_all (\<lambda>e. ownedCredit 1 20 e \<longrightarrow> expiredBy (env_clock ?start (ticks ?start)) e) (loyalty_entries ?start)"
    by (simp add: expiredBy_def) (simp add: earnedRow_def)
  have source: "sourceEntries 1 (sa_id pointsSale) ?start \<noteq> []" by code_simp
  have targets: "compensationTarget (CompensateReturn (Some 50)) 1 pointsSale (sa_points_redeemed pointsSale) ?start = 0"
    "saleEntrySum 1 (sa_id pointsSale) (restoreType (CompensateReturn (Some 50))) ?start = 0"
    "saleEntrySum 1 (sa_id pointsSale) (reverseType (CompensateReturn (Some 50))) ?start = 0"
    "compensationTarget (CompensateReturn (Some 50)) 1 pointsSale (sa_points_earned pointsSale) ?start = 20"
    by code_simp+
  from expired_earnings_refuse_compensation [OF sample_ledgers(2) customer run expired source] targets show ?thesis
    by simp
qed

end
