(* ===== verification/Spec2Isabelle.thy ===== *)
theory Spec2Isabelle
  imports PolicyTheorems FifoTheorems ValuationTheorems LotTheorems SerialTheorems StockTheorems TransferTheorems ReconciliationTheorems ReservationTheorems System PricingTheorems CashTheorems LoyaltyTheorems
begin

text \<open>
  A verification of the inventory core of \<open>uinventario-api\<close>, a multi-tenant inventory and point of
  sale backend (NestJS, TypeORM, MySQL), and of the parts of its selling side that keep state of
  their own: prices, promotions, the cash drawer, the settlement of returns and the loyalty points.
  Paths below are relative to \<open>src/\<close>.

  \<^bold>\<open>The program and the model.\<close> Every command of the API is a handler that validates a request,
  and runs one database transaction of SQL reads and writes. The model has one state, the record
  \<open>inv_db\<close> of \<open>Schema\<close>, with a field per table (a list of row records, in insertion order) and the
  environment: \<open>env_uuid n\<close> and \<open>env_clock n\<close> are the id and the time of the \<open>n\<close>-th new row,
  \<open>env_local_date\<close> the calendar date in a time zone. A handler is an action of type
  \<open>inv_db \<Rightarrow> inv_error + ('a \<times> inv_db)\<close> (\<open>Prelude\<close>: \<open>bindM\<close>, \<open>ensureM\<close>, \<open>catchM\<close>, \<open>forM\<close>, ...), so every
  \<open>throw\<close> of the code is an \<open>Inl\<close> of the model and leaves the database as it was (rollback). Unique
  keys and \<open>CHECK\<close> constraints of the migrations are guards of the inserts and updates, which
  fail with \<open>DuplicateEntry\<close> and \<open>CheckViolated\<close>. Quantities are integers of thousandths
  (\<open>DECIMAL(18,3)\<close>), money of ten-thousandths, as in the \<open>bigint\<close> arithmetic of the code; the decimal
  texts and their parsers and printers are in \<open>Decimal\<close> and \<open>Codecs\<close>. The selling side works on the
  record \<open>trade_db\<close> of \<open>TradeSchema\<close>, which extends \<open>inv_db\<close> by its tables, with its own errors; its
  money is in cents. Inventory and selling side meet in the rows that both read (products, branches,
  customers, the environment); the drawer, the settlements and the loyalty points meet in the sales,
  payments and returns.

  \<^bold>\<open>Theories.\<close>
  \<^item> \<open>QuantityPolicy\<close>, \<open>PolicyTheorems\<close>: \<open>common/quantity-policy.ts\<close>, the parsing, rounding and
    checking of quantities.
  \<^item> \<open>Fifo\<close>, \<open>Consumption\<close>, \<open>FifoLaws\<close>, \<open>FifoTheorems\<close>: \<open>inventory/inventory-fifo-valuation.ts\<close>, the cost
    layers; \<open>Consumption\<close> is the loop shared by layers and lots that takes from rows in order.
  \<^item> \<open>Valuation\<close>, \<open>ValuationLaws\<close>, \<open>ValuationTheorems\<close>: \<open>inventory/inventory-valuation.ts\<close> and
    \<open>inventory-valuation-policy.ts\<close>, the moving average and the sealing of a movement's value.
    \<open>ValuationLaws\<close> composes the exact effect of a valuation on the movement and its product.
  \<^item> \<open>LotTracking\<close>, \<open>LotLaws\<close>, \<open>LotTheorems\<close>: \<open>inventory/inventory-lot-tracking.ts\<close>.
  \<^item> \<open>SerialTracking\<close>, \<open>SerialLaws\<close>, \<open>SerialTheorems\<close>: \<open>inventory/inventory-serial-tracking.ts\<close>; the serial
    state machine is the inductive relation \<open>serial_step\<close>.
  \<^item> \<open>Ledger\<close>: \<open>postMovement\<close>, the sequence insert, value, track lots, track serials that every command
    runs for a movement, and the stock ledger invariant \<open>stock_inv\<close> with its open form \<open>stock_gap\<close>.
  \<^item> \<open>StockCommands\<close>, \<open>StockLaws\<close>, \<open>StockTheorems\<close>: \<open>createMovement\<close>, \<open>createCount\<close> and
    \<open>createStateTransition\<close> of \<open>inventory/inventory.repository.ts\<close>. The locale \<open>idempotent_command\<close> is
    the contract of the idempotency keys.
  \<^item> \<open>Transfers\<close>, \<open>TransferLaws\<close>, \<open>TransferTheorems\<close>: \<open>inventory/inventory-transfer.repository.ts\<close>; the
    life of a transfer is the inductive relation \<open>transfer_step\<close>.
  \<^item> \<open>Reservations\<close>, \<open>ReservationLaws\<close>, \<open>ExpiryLaws\<close>, \<open>ReservationTheorems\<close>:
    \<open>reservations/product-reservation.repository.ts\<close> and its service.
  \<^item> \<open>Reconciliation\<close>, \<open>ReconciliationLaws\<close>, \<open>GuardLaws\<close>, \<open>ReconciliationTheorems\<close>:
    \<open>inventory/inventory-reconciliation.service.ts\<close> and its guard.
  \<^item> \<open>CommandLaws\<close>: the contract between an invariant and the commands, as the locales \<open>posting_law\<close>,
    \<open>stock_law\<close>, \<open>transfer_law\<close>, \<open>reservation_law\<close> and \<open>reconciliation_law\<close>; \<open>GuardLaws\<close> and \<open>SystemLaws\<close>
    interpret them for the blocked guard, the cost ledgers, the lots, the serials, the journal, the worth
    of the stock and the documents. \<open>PostingLaws\<close> has what posting a movement does to the whole rows of
    the journal, and that the value of a product is what its movements say (\<open>worth_inv\<close>).
  \<^item> \<open>System\<close>: the commands as data, their execution with commit and rollback, the states that a
    sequence of commands reaches, and what holds in all of them.
  \<^item> \<open>TradeSchema\<close>, \<open>TradeLaws\<close>: the tables of the selling side; updates that are guarded by a version.
  \<^item> \<open>PriceLists\<close>, \<open>PriceListLaws\<close>: \<open>pricing/price-list.repository.ts\<close>; \<open>PromotionEngine\<close>,
    \<open>Promotions\<close>, \<open>PromotionLaws\<close>, \<open>PromotionStoreLaws\<close>: \<open>promotions/promotion-engine.service.ts\<close> and
    \<open>promotion.repository.ts\<close>; \<open>PricingTheorems\<close> has the properties of both.
  \<^item> \<open>CashShifts\<close>, \<open>CashMovements\<close>, \<open>CashClosures\<close>: \<open>pos/cash-register-shift.repository.ts\<close>,
    \<open>cash-register-movement.repository.ts\<close>, \<open>cash-register-closure.repository.ts\<close> and their services.
    \<open>CashLaws\<close> says what successful requests do, \<open>DrawerLaws\<close> states the invariant \<open>drawer_inv\<close> and that
    no shift is expected to hold less than nothing (\<open>solvent\<close>).
  \<^item> \<open>Settlements\<close>, \<open>SettlementLaws\<close>: \<open>pos/sale-return-settlement.repository.ts\<close>,
    \<open>pos/payment-refund.service.ts\<close> and \<open>SaleReturnService.settle\<close>.
  \<^item> \<open>DrawerRuns\<close>: closing, and the histories of a drawer as the relation \<open>drawer_step\<close>, in which a sale
    is the rows it leaves; \<open>CashTheorems\<close> has the properties.
  \<^item> \<open>Loyalty\<close>, \<open>LoyaltyLaws\<close>, \<open>LoyaltyTheorems\<close>: \<open>loyalty/loyalty.repository.ts\<close>; the points are
    drawn by the loop of \<open>Consumption\<close>, whose locale is interpreted for them. The invariant of the ledger
    is \<open>loyalty_inv\<close>, its histories are \<open>loyalty_step\<close>.
  \<^item> \<open>Fixtures\<close> and \<open>TradeFixtures\<close> hold the concrete company of the witnesses.

  \<^bold>\<open>What the lemmas show.\<close> The \<open>Laws\<close> theories hold the frames and invariants of each component;
  the \<open>Theorems\<close> theories hold its properties, each with a witness at a concrete database. The
  components' properties are functional (what a successful command stores and which balances it moves),
  invariants (ledgers equal their journals; layers, lots and serials are event-sourced), error behaviour
  (shortages, conflicting keys, expired lots, guards), replay (a repeated request changes nothing), and
  round trips of the codecs and of a reservation with its release. \<open>System\<close> composes them over
  every reachable state.

  \<^bold>\<open>Parameters.\<close> \<open>digest\<close> is \<open>createHash('sha256')\<close> on the serialised request, \<open>collate\<close> the key by which
  \<open>localeCompare\<close> orders serial numbers and denominations, \<open>seal\<close> the hash of a refund and \<open>provider\<close> the
  configured payment provider; nothing is assumed of them. The only assumptions on the
  environment are that ids are never issued twice (\<open>inj (env_uuid db)\<close>) and, where the order of events
  matters, that the clock advances (\<open>strict_mono (env_clock db)\<close>).

  \<^bold>\<open>Loops and fuel.\<close> All loops of the code run over lists that are read before; they are structural
  recursions, and no fuel is used.

  \<^bold>\<open>Not modelled.\<close> HTTP, authentication and the mapping of errors to status codes; the text of messages;
  retries after deadlocks (transactions are atomic here, so a concurrent execution is a sequence of
  them); most read-only list queries. The sales handler and the sale returns, purchase receipts, count
  sessions, kits, imports, customer credit payments and the other parts of the API that write stock
  movements or payments are not commands of the model: their rows appear where the modelled code reads
  them, and in the histories of a drawer a sale is any completed sale of an open shift. Voiding a sale is
  not a step of those histories, since it can take cash out of the drawer that is not there; what
  follows is the property \<open>negative_drawer\<close>.
\<close>

end
